(* ===== verification/Prelude.thy ===== *)
theory Prelude
  imports Main "HOL-Library.Word"
begin

text \<open>
  Common ground of the development: the machine types of the C code, the character classes of
  \<^verbatim>\<open><ctype.h>\<close> in the C locale, and the general lemmas on lists and bytes that the component
  theories share.  Byte values are written as numbers; the character they stand for is given
  in a comment where the source writes a character literal.
\<close>

unbundle bit_operations_syntax

section \<open>Types\<close>

type_synonym byte = "8 word"
type_synonym u16 = "16 word"
type_synonym u32 = "32 word"
type_synonym u64 = "64 word"

text \<open>Collections: facts that compute a component's guards, and facts about sizes.\<close>

named_theorems guard_simps \<open>equations that decide the guards of an operation\<close>
named_theorems len_simps \<open>lengths of the buffers an operation produces\<close>

text \<open>A string literal of the source as bytes.\<close>

definition str :: "string \<Rightarrow> byte list" where
  "str s = map of_char s"

lemma length_str [simp, len_simps]: "length (str s) = length s"
  by (simp add: str_def)

section \<open>Character classes (C locale)\<close>

definition is_upper :: "byte \<Rightarrow> bool" where
  "is_upper c \<longleftrightarrow> 65 \<le> c \<and> c \<le> 90"

definition is_lower :: "byte \<Rightarrow> bool" where
  "is_lower c \<longleftrightarrow> 97 \<le> c \<and> c \<le> 122"

definition is_digit :: "byte \<Rightarrow> bool" where
  "is_digit c \<longleftrightarrow> 48 \<le> c \<and> c \<le> 57"

definition is_alpha :: "byte \<Rightarrow> bool" where
  "is_alpha c \<longleftrightarrow> is_upper c \<or> is_lower c"

definition is_alnum :: "byte \<Rightarrow> bool" where
  "is_alnum c \<longleftrightarrow> is_alpha c \<or> is_digit c"

definition is_xdigit :: "byte \<Rightarrow> bool" where
  "is_xdigit c \<longleftrightarrow> is_digit c \<or> (65 \<le> c \<and> c \<le> 70) \<or> (97 \<le> c \<and> c \<le> 102)"

definition is_space :: "byte \<Rightarrow> bool" where
  "is_space c \<longleftrightarrow> c = 32 \<or> (9 \<le> c \<and> c \<le> 13)"

definition is_print :: "byte \<Rightarrow> bool" where
  "is_print c \<longleftrightarrow> 32 \<le> c \<and> c \<le> 126"

definition to_lower :: "byte \<Rightarrow> byte" where
  "to_lower c = (if is_upper c then c + 32 else c)"

definition to_upper :: "byte \<Rightarrow> byte" where
  "to_upper c = (if is_lower c then c - 32 else c)"

lemmas ctype_defs = is_upper_def is_lower_def is_digit_def is_alpha_def is_alnum_def
  is_xdigit_def is_space_def is_print_def to_lower_def to_upper_def

section \<open>Bytes\<close>

lemma byte_less_256 [simp]: "unat (b :: byte) < 256"
  using unsigned_less [of b] by simp

lemma byte_all_iff: "(\<forall>b :: byte. P b) \<longleftrightarrow> (\<forall>n < 256. P (of_nat n))"
proof
  assume h: "\<forall>n < 256. P (of_nat n)"
  show "\<forall>b :: byte. P b"
  proof
    fix b :: byte
    from h byte_less_256 [of b] have "P (of_nat (unat b))" by blast
    then show "P b" by simp
  qed
qed simp

lemma byte_eq_iff_unat: "(a :: byte) = b \<longleftrightarrow> unat a = unat b"
  by (simp add: word_unat_eq_iff)

lemma nat_bit_bound: "(n :: nat) < 2 ^ m \<Longrightarrow> bit n k \<Longrightarrow> k < m"
  by (metis bit_take_bit_iff take_bit_nat_eq_self)

lemma word_bit_bound:
  assumes "(w :: 'a :: len word) < 2 ^ m" "m < LENGTH('a)" "bit w k"
  shows "k < m"
proof -
  have "unat (of_nat (2 ^ m) :: 'a word) = 2 ^ m"
    using assms(2) by (simp only: unsigned_of_nat) (simp add: take_bit_nat_eq_self)
  then have "unat w < 2 ^ m" using assms(1) by (simp add: word_less_nat_alt)
  then show ?thesis using nat_bit_bound [of "unat w" m k] assms(3)
    by (simp add: bit_unsigned_iff bit_imp_le_length)
qed

section \<open>Lists\<close>

lemma take_map_upt: "n \<le> length xs \<Longrightarrow> map ((!) xs) [0..<n] = take n xs"
  by (induction n) (simp_all add: take_Suc_conv_app_nth)

lemma list_update_append_first: "length xs = n \<Longrightarrow> (xs @ y # ys)[n := z] = xs @ z # ys"
  by (simp add: list_update_append)

lemma take_update_less [simp]: "i < n \<Longrightarrow> take n (xs[i := x]) = (take n xs)[i := x]"
  by (simp add: take_update_swap)

lemma drop_update_less [simp]: "i < n \<Longrightarrow> drop n (xs[i := x]) = drop n xs"
  by simp

lemma filter_snoc_if:
  "filter P (xs @ [x]) = (if P x then filter P xs @ [x] else filter P xs)"
  by simp

text \<open>\<^verbatim>\<open>memcpy\<close> of \<open>bs\<close> to offset \<open>i\<close> of the memory \<open>m\<close>.\<close>

definition write_at :: "nat \<Rightarrow> byte list \<Rightarrow> byte list \<Rightarrow> byte list" where
  "write_at i bs m = take i m @ bs @ drop (i + length bs) m"

section \<open>Little-endian numbers\<close>

fun le_bytes :: "nat \<Rightarrow> nat \<Rightarrow> byte list" where
  "le_bytes 0 n = []"
| "le_bytes (Suc k) n = of_nat n # le_bytes k (n div 256)"

fun le_read :: "byte list \<Rightarrow> nat" where
  "le_read [] = 0"
| "le_read (b # bs) = unat b + 256 * le_read bs"

lemma length_le_bytes [simp, len_simps]: "length (le_bytes k n) = k"
  by (induction k n rule: le_bytes.induct) simp_all

lemma le_read_bytes: "n < 256 ^ k \<Longrightarrow> le_read (le_bytes k n) = n"
proof (induction k n rule: le_bytes.induct)
  case (2 k n)
  then have "n div 256 < 256 ^ k" by (simp add: less_mult_imp_div_less mult.commute)
  with 2 show ?case by (simp add: unat_of_nat)
qed simp

lemma le_read_bound: "le_read bs < 256 ^ length bs"
proof (induction bs)
  case (Cons b bs)
  have "unat b + 256 * le_read bs < 256 + 256 * le_read bs" using byte_less_256 [of b] by simp
  also have "\<dots> \<le> 256 * 256 ^ length bs" using Cons by (simp flip: mult_Suc_right)
  finally show ?case by simp
qed simp

lemma byte_256 [simp]: "256 * x = (0 :: byte)"
proof -
  have "(256 :: byte) = 0" by simp
  then show ?thesis by (simp only: mult_zero_left)
qed

lemma le_bytes_read: "le_bytes (length bs) (le_read bs) = bs"
  by (induction bs) simp_all

section \<open>Servers as step functions\<close>

text \<open>
  A server is a function that takes an event to a step of its state; \<open>fold step es s\<close> is the
  state after the events \<open>es\<close>.  What every step keeps holds after every history, and a relation
  between states that every step respects relates the ends of every history.
\<close>

locale kept =
  fixes step :: "'e \<Rightarrow> 's \<Rightarrow> 's"
    and inv :: "'s \<Rightarrow> bool"
  assumes step_inv: "inv s \<Longrightarrow> inv (step e s)"
begin

lemma run_inv: "inv s \<Longrightarrow> inv (fold step es s)"
  by (induction es arbitrary: s) (simp_all add: step_inv)

lemma run_respects:
  assumes refl: "\<And>s. R s s" and trans: "\<And>s t u. R s t \<Longrightarrow> R t u \<Longrightarrow> R s u"
    and step_rel: "\<And>e s. inv s \<Longrightarrow> R s (step e s)" and start: "inv s"
  shows "R s (fold step es s)"
  using start
proof (induction es arbitrary: s)
  case (Cons e es)
  then have "R (step e s) (fold step es (step e s))" by (simp add: step_inv)
  with step_rel [OF Cons.prems] show ?case by (auto intro: trans)
qed (simp add: refl)

end

end
