(* ===== verification/Mem_Eq.thy ===== *)
theory Mem_Eq
  imports Prelude
begin

text \<open>
  \<^verbatim>\<open>src/Common/memeq.c\<close>: comparison and search over byte ranges.

  A C pointer is modelled by the bytes readable from it, so a read behind the end of the
  list is a read the caller had no right to: it is the result \<open>None\<close>.  The loops stop at
  the first difference, exactly where the code does, so an early mismatch can save a
  comparison whose range is longer than the buffer.  \<open>memcasemem\<close> and \<open>mempbrk\<close> return the
  index of the match (\<open>Some i\<close>) or the null pointer (\<open>None\<close>).
\<close>

section \<open>Comparison\<close>

fun memeq :: "byte list \<Rightarrow> byte list \<Rightarrow> nat \<Rightarrow> bool option" where
  "memeq a b 0 = Some True"
| "memeq (x # a) (y # b) (Suc n) = (if x \<noteq> y then Some False else memeq a b n)"
| "memeq _ _ (Suc n) = None"

fun memeq_anycase :: "byte list \<Rightarrow> byte list \<Rightarrow> nat \<Rightarrow> bool option" where
  "memeq_anycase a b 0 = Some True"
| "memeq_anycase (x # a) (y # b) (Suc n) =
     (if to_lower x \<noteq> to_lower y then Some False else memeq_anycase a b n)"
| "memeq_anycase _ _ (Suc n) = None"

lemma memeq_in_range:
  "n \<le> length a \<Longrightarrow> n \<le> length b \<Longrightarrow> memeq a b n = Some (take n a = take n b)"
  by (induction a b n rule: memeq.induct) auto

lemma memeq_anycase_in_range:
  "n \<le> length a \<Longrightarrow> n \<le> length b \<Longrightarrow>
   memeq_anycase a b n = Some (map to_lower (take n a) = map to_lower (take n b))"
  by (induction a b n rule: memeq_anycase.induct) auto

lemma memeq_whole: "length a = n \<Longrightarrow> length b = n \<Longrightarrow> memeq a b n = Some (a = b)"
  by (simp add: memeq_in_range)

section \<open>Search\<close>

text \<open>
  The inner loop of \<open>memcasemem\<close>: the outcome of comparing the needle at one position is a
  match, a mismatch, or the end of the haystack (the code then returns NULL at once).
\<close>

datatype probe = Match | Mismatch | Hay_End

fun case_probe :: "byte list \<Rightarrow> byte list \<Rightarrow> probe" where
  "case_probe hay [] = Match"
| "case_probe [] (x # needle) = Hay_End"
| "case_probe (h # hay) (x # needle) =
     (if to_lower h \<noteq> to_lower x then Mismatch else case_probe hay needle)"

fun memcasemem_from :: "nat \<Rightarrow> byte list \<Rightarrow> byte list \<Rightarrow> nat option" where
  "memcasemem_from i [] needle = None"
| "memcasemem_from i (h # hay) needle =
     (case case_probe (h # hay) needle of
        Match \<Rightarrow> Some i
      | Hay_End \<Rightarrow> None
      | Mismatch \<Rightarrow> memcasemem_from (Suc i) hay needle)"

definition memcasemem :: "byte list \<Rightarrow> byte list \<Rightarrow> nat option" where
  "memcasemem hay needle = memcasemem_from 0 hay needle"

fun mempbrk_from :: "nat \<Rightarrow> byte list \<Rightarrow> byte list \<Rightarrow> nat option" where
  "mempbrk_from i [] needle = None"
| "mempbrk_from i (h # hay) needle =
     (if List.member needle h then Some i else mempbrk_from (Suc i) hay needle)"

definition mempbrk :: "byte list \<Rightarrow> byte list \<Rightarrow> nat option" where
  "mempbrk hay needle = mempbrk_from 0 hay needle"

section \<open>The searches find the first occurrence\<close>

text \<open>The needle occurs at position \<open>i\<close>, letter case ignored.\<close>

definition occurs_at :: "byte list \<Rightarrow> byte list \<Rightarrow> nat \<Rightarrow> bool" where
  "occurs_at hay needle i \<longleftrightarrow>
     i + length needle \<le> length hay \<and>
     map to_lower (take (length needle) (drop i hay)) = map to_lower needle"

lemma case_probe_Match:
  "case_probe hay needle = Match \<longleftrightarrow> occurs_at hay needle 0"
  by (induction hay needle rule: case_probe.induct) (auto simp: occurs_at_def)

lemma case_probe_Hay_End: "case_probe hay needle = Hay_End \<Longrightarrow> length hay < length needle"
  by (induction hay needle rule: case_probe.induct) (auto split: if_splits)

lemma occurs_at_Cons_Suc [simp]: "occurs_at (h # hay) needle (Suc i) = occurs_at hay needle i"
  by (simp add: occurs_at_def)

lemma not_occurs_short: "length hay < length needle \<Longrightarrow> \<not> occurs_at hay needle i"
  by (simp add: occurs_at_def)

lemma memcasemem_from_Some:
  "memcasemem_from k hay needle = Some i \<Longrightarrow>
   k \<le> i \<and> occurs_at hay needle (i - k) \<and> (\<forall>j < i - k. \<not> occurs_at hay needle j)"
proof (induction k hay needle rule: memcasemem_from.induct)
  case (2 k h hay needle)
  show ?case
  proof (cases "case_probe (h # hay) needle")
    case Match
    with "2.prems" show ?thesis by (simp add: case_probe_Match)
  next
    case Mismatch
    with 2 have IH: "Suc k \<le> i" "occurs_at hay needle (i - Suc k)"
        "\<forall>j < i - Suc k. \<not> occurs_at hay needle j" by simp_all
    have now: "\<not> occurs_at (h # hay) needle 0"
      using Mismatch by (simp flip: case_probe_Match)
    have eq: "i - k = Suc (i - Suc k)" using IH(1) by simp
    have "\<forall>j < i - k. \<not> occurs_at (h # hay) needle j"
    proof (intro allI impI)
      fix j assume "j < i - k"
      with now IH(3) eq show "\<not> occurs_at (h # hay) needle j" by (cases j) auto
    qed
    with IH(1,2) eq show ?thesis by simp
  next
    case Hay_End
    with "2.prems" show ?thesis by simp
  qed
qed simp

lemma memcasemem_from_None:
  "memcasemem_from k hay needle = None \<Longrightarrow> needle \<noteq> [] \<Longrightarrow> \<not> occurs_at hay needle i"
proof (induction k hay needle arbitrary: i rule: memcasemem_from.induct)
  case (1 k needle)
  then show ?case by (cases needle) (auto simp: occurs_at_def)
next
  case (2 k h hay needle)
  show ?case
  proof (cases "case_probe (h # hay) needle")
    case Match
    with "2.prems" show ?thesis by simp
  next
    case Mismatch
    with 2 have "\<And>j. \<not> occurs_at hay needle j" by simp
    moreover have "\<not> occurs_at (h # hay) needle 0"
      using Mismatch by (simp flip: case_probe_Match)
    ultimately show ?thesis by (cases i) auto
  next
    case Hay_End
    then show ?thesis using case_probe_Hay_End not_occurs_short by blast
  qed
qed

lemma memcasemem_bound:
  "memcasemem hay needle = Some i \<Longrightarrow> i + length needle \<le> length hay"
  by (auto simp: memcasemem_def occurs_at_def dest!: memcasemem_from_Some)

lemma mempbrk_from_Some:
  "mempbrk_from k hay needle = Some i \<Longrightarrow>
   k \<le> i \<and> i - k < length hay \<and> hay ! (i - k) \<in> set needle \<and>
   (\<forall>j < i - k. hay ! j \<notin> set needle)"
proof (induction k hay needle rule: mempbrk_from.induct)
  case (2 k h hay needle)
  show ?case
  proof (cases "h \<in> set needle")
    case True
    with "2.prems" show ?thesis by auto
  next
    case False
    with 2 have IH: "Suc k \<le> i" "i - Suc k < length hay" "hay ! (i - Suc k) \<in> set needle"
        "\<forall>j < i - Suc k. hay ! j \<notin> set needle" by (auto split: if_splits)
    have eq: "i - k = Suc (i - Suc k)" using IH(1) by simp
    have "\<forall>j < i - k. (h # hay) ! j \<notin> set needle"
    proof (intro allI impI)
      fix j assume "j < i - k"
      with False IH(4) eq show "(h # hay) ! j \<notin> set needle" by (cases j) auto
    qed
    with IH eq show ?thesis by simp
  qed
qed simp

lemma mempbrk_bound: "mempbrk hay needle = Some i \<Longrightarrow> i < length hay"
  by (auto simp: mempbrk_def dest!: mempbrk_from_Some)

section \<open>Properties\<close>

text \<open>\<open>memcasemem\<close> returns exactly the first position at which the needle occurs, letter
  case ignored: it finds an occurrence whenever there is one (giving up at the end of the
  haystack loses none), and never a later one.\<close>

theorem memcasemem_first:
  "memcasemem hay needle = Some i \<longleftrightarrow>
     hay \<noteq> [] \<and> occurs_at hay needle i \<and> (\<forall>j < i. \<not> occurs_at hay needle j)"
proof
  assume "memcasemem hay needle = Some i"
  then show "hay \<noteq> [] \<and> occurs_at hay needle i \<and> (\<forall>j < i. \<not> occurs_at hay needle j)"
    using memcasemem_from_Some [of 0 hay needle i] by (auto simp: memcasemem_def)
next
  assume h: "hay \<noteq> [] \<and> occurs_at hay needle i \<and> (\<forall>j < i. \<not> occurs_at hay needle j)"
  show "memcasemem hay needle = Some i"
  proof (cases "memcasemem hay needle")
    case None
    with h show ?thesis
      using memcasemem_from_None [of 0 hay needle i]
      by (cases needle; cases hay) (auto simp: memcasemem_def)
  next
    case (Some k)
    then have "occurs_at hay needle k \<and> (\<forall>j < k. \<not> occurs_at hay needle j)"
      using memcasemem_from_Some [of 0 hay needle k] by (simp add: memcasemem_def)
    with h have "k = i" by (metis linorder_neqE_nat)
    with Some show ?thesis by simp
  qed
qed

theorem memcasemem_first_witness:
  "occurs_at (str ''X: AAb'') (str ''aB'') 4 \<and> memcasemem (str ''X: AAb'') (str ''aB'') = Some 4"
proof -
  have "memcasemem (str ''X: AAb'') (str ''aB'') = Some 4" by code_simp
  with memcasemem_first [of "str ''X: AAb''" "str ''aB''" 4] show ?thesis by blast
qed

end
