(* ===== verification/Utf8.thy ===== *)
theory Utf8
  imports Prelude
begin

text \<open>
  \<^verbatim>\<open>src/Common/ValidUtf8.c\<close>: the UTF-8 check of single characters, the check of a whole text
  and the filter that overwrites invalid bytes with question marks.  A position in a text is
  given by the byte there and the bytes after it; every caller passes at least one byte.

  \<open>utf8_char\<close> is the set of byte groups the code accepts as one character; the properties say
  that a text passes the check exactly when it is a sequence of such groups, that the filter's
  result passes, has the same length, and that a text that passes is left alone.
\<close>

section \<open>The code\<close>

definition text_ascii :: "byte \<Rightarrow> bool" where
  "text_ascii c \<longleftrightarrow> (32 \<le> c \<and> c < 127) \<or> c = 9 \<or> c = 10"

definition cont :: "byte \<Rightarrow> bool" where
  "cont c \<longleftrightarrow> c AND 192 = 128"

definition validUtf8 :: "byte \<Rightarrow> byte list \<Rightarrow> bool \<Rightarrow> int" where
  "validUtf8 c rest allowControl =
    (if text_ascii c then 1
     else if c < 32 \<or> c = 127 then (if allowControl then 1 else -1)
     else if c AND 248 = 240 then
       (if length rest < 3 \<or> c AND 7 \<noteq> 0 \<or> \<not> cont (rest ! 0) \<or> \<not> cont (rest ! 1) \<or> \<not> cont (rest ! 2)
        then -4 else 4)
     else if c AND 240 = 224 then
       (if length rest < 2 \<or> \<not> cont (rest ! 0) \<or> \<not> cont (rest ! 1) then -3 else 3)
     else if c AND 224 = 192 then
       (if length rest < 1 \<or> \<not> cont (rest ! 0) then -2 else 2)
     else -1)"

fun isValidUtf8 :: "byte list \<Rightarrow> bool" where
  "isValidUtf8 [] = True"
| "isValidUtf8 (c # rest) =
     (let s = validUtf8 c rest False
      in if s < 0 then False else isValidUtf8 (drop (nat s - 1) rest))"

text \<open>The byte written over an invalid character is 63, a question mark.\<close>

fun filterUtf8 :: "byte list \<Rightarrow> bool \<Rightarrow> byte list" where
  "filterUtf8 [] allowControl = []"
| "filterUtf8 (c # rest) allowControl =
     (let s = validUtf8 c rest allowControl; n = nat \<bar>s\<bar>
      in if s < 0 then
           (if Suc (length rest) \<le> n then replicate (Suc (length rest)) 63
            else replicate n 63 @ filterUtf8 (drop (n - 1) rest) allowControl)
         else take n (c # rest) @ filterUtf8 (drop (n - 1) rest) allowControl)"

section \<open>Characters\<close>

definition utf8_char :: "byte list \<Rightarrow> bool" where
  "utf8_char g =
    (case g of
       [a] \<Rightarrow> text_ascii a
     | [a, b] \<Rightarrow> a AND 224 = 192 \<and> cont b
     | [a, b, c] \<Rightarrow> a AND 240 = 224 \<and> cont b \<and> cont c
     | [a, b, c, d] \<Rightarrow> a = 240 \<and> cont b \<and> cont c \<and> cont d
     | _ \<Rightarrow> False)"

lemma lead_high: "(128 :: byte) \<le> m \<Longrightarrow> a AND k = m \<Longrightarrow> 128 \<le> a"
  by (metis order.trans word_and_le2)

lemma lead_not_ascii:
  assumes "a AND 224 = 192 \<or> a AND 240 = 224 \<or> a AND 248 = 240"
  shows "\<not> text_ascii a" and "\<not> (a < 32 \<or> a = 127)"
proof -
  have "(128 :: byte) \<le> a"
    using assms lead_high [of 192 a 224] lead_high [of 224 a 240] lead_high [of 240 a 248] by auto
  then show "\<not> text_ascii a" and "\<not> (a < 32 \<or> a = 127)"
    by (auto simp: text_ascii_def word_le_nat_alt word_less_nat_alt)
qed

lemma lead_mask: "a AND 248 = 240 \<Longrightarrow> a AND 240 = 240" "a AND 240 = b \<Longrightarrow> a AND 224 = b AND 224"
  for a b :: byte
proof -
  assume "a AND 248 = 240"
  then have "(a AND 248) AND 240 = 240" by simp
  then show "a AND 240 = 240" by (simp only: and.assoc) simp
next
  assume "a AND 240 = b"
  then have "(a AND 240) AND 224 = b AND 224" by simp
  then show "a AND 224 = b AND 224" by (simp only: and.assoc) simp
qed

lemma lead_exclusive:
  "a AND 240 = 224 \<Longrightarrow> a AND 248 \<noteq> 240" "a AND 224 = 192 \<Longrightarrow> a AND 240 \<noteq> 224"
  "a AND 224 = 192 \<Longrightarrow> a AND 248 \<noteq> 240"
  for a :: byte
  using lead_mask [of a] by auto

lemma lead_four: "a AND 248 = 240 \<and> a AND 7 = 0 \<longleftrightarrow> a = 240" for a :: byte
proof
  assume h: "a AND 248 = 240 \<and> a AND 7 = 0"
  have "a = a AND (- 1)" by (simp only: and.right_neutral)
  also have "(- 1 :: byte) = 248 OR 7" by simp
  also have "a AND (248 OR 7) = (a AND 248) OR (a AND 7)" by (rule bit.conj_disj_distrib)
  finally show "a = 240" using h by simp
qed simp

text \<open>A positive answer is the length of a character that stands there, and conversely.\<close>

lemma validUtf8_char:
  assumes "validUtf8 c rest False = s" and "0 \<le> s"
  shows "utf8_char (take (nat s) (c # rest))" and "nat s \<le> Suc (length rest)" and "0 < s"
proof -
  have "utf8_char (take (nat s) (c # rest)) \<and> nat s \<le> Suc (length rest) \<and> 0 < s"
    using assms lead_four [of c]
    by (cases rest; cases "tl rest"; cases "tl (tl rest)")
       (auto simp: validUtf8_def utf8_char_def nat_numeral numeral_eq_Suc split: if_splits)
  then show "utf8_char (take (nat s) (c # rest))" and "nat s \<le> Suc (length rest)" and "0 < s"
    by auto
qed

lemma utf8_char_cases:
  assumes "utf8_char g"
  obtains a where "g = [a]" "text_ascii a"
  | a b where "g = [a, b]" "a AND 224 = 192" "cont b"
  | a b c where "g = [a, b, c]" "a AND 240 = 224" "cont b" "cont c"
  | a b c d where "g = [a, b, c, d]" "a = 240" "cont b" "cont c" "cont d"
  using assms unfolding utf8_char_def by (auto split: list.splits)

lemma char_validUtf8:
  assumes "utf8_char g"
  shows "validUtf8 (hd g) (tl g @ t) al = int (length g)"
  using assms
proof (cases rule: utf8_char_cases)
  case (1 a)
  then show ?thesis by (simp add: validUtf8_def)
next
  case (2 a b)
  then show ?thesis using lead_not_ascii [of a] lead_exclusive [of a] by (simp add: validUtf8_def)
next
  case (3 a b c)
  then show ?thesis using lead_not_ascii [of a] lead_exclusive [of a] by (simp add: validUtf8_def)
next
  case (4 a b c d)
  then show ?thesis using lead_not_ascii [of a] by (simp add: validUtf8_def nth_append)
qed

section \<open>Texts\<close>

lemma utf8_char_nonempty: "utf8_char g \<Longrightarrow> g \<noteq> []"
  by (auto simp: utf8_char_def)

lemma isValidUtf8_append:
  assumes "utf8_char g"
  shows "isValidUtf8 (g @ t) = isValidUtf8 t"
proof -
  obtain c rest where g: "g = c # rest" using utf8_char_nonempty [OF assms] by (cases g) auto
  then have "validUtf8 c (rest @ t) False = int (Suc (length rest))"
    using char_validUtf8 [OF assms, of t False] by simp
  then show ?thesis using g by (simp add: Let_def)
qed

lemma isValidUtf8_fill [simp]: "isValidUtf8 (replicate n 63 @ t) = isValidUtf8 t"
proof (induction n)
  case (Suc n)
  have "isValidUtf8 ([63] @ replicate n 63 @ t) = isValidUtf8 (replicate n 63 @ t)"
    by (rule isValidUtf8_append) (simp add: utf8_char_def text_ascii_def)
  then show ?case using Suc by simp
qed simp

lemma isValidUtf8_concat: "list_all utf8_char gs \<Longrightarrow> isValidUtf8 (concat gs)"
  by (induction gs) (simp_all add: isValidUtf8_append)

lemma isValidUtf8_split:
  "isValidUtf8 s \<Longrightarrow> \<exists>gs. s = concat gs \<and> list_all utf8_char gs"
proof (induction s rule: isValidUtf8.induct)
  case 1
  then show ?case by (intro exI [of _ "[]"]) simp
next
  case (2 c rest)
  let ?s = "validUtf8 c rest False"
  have pos: "0 \<le> ?s" using "2.prems" by (simp add: Let_def split: if_splits)
  note v = validUtf8_char [OF refl pos]
  have "isValidUtf8 (drop (nat ?s - 1) rest)" using "2.prems" pos by (simp add: Let_def)
  then obtain gs where gs: "drop (nat ?s - 1) rest = concat gs" "list_all utf8_char gs"
    using "2.IH" [OF refl] pos by auto
  have "c # rest = take (nat ?s) (c # rest) @ drop (nat ?s) (c # rest)" by simp
  also have "drop (nat ?s) (c # rest) = concat gs" using gs(1) v(3) by (simp add: drop_Cons')
  finally have "c # rest = concat (take (nat ?s) (c # rest) # gs)" by simp
  moreover have "list_all utf8_char (take (nat ?s) (c # rest) # gs)" using gs(2) v(1) by simp
  ultimately show ?case by blast
qed

lemma validUtf8_bounds:
  "1 \<le> nat \<bar>validUtf8 c rest al\<bar>"
  "0 \<le> validUtf8 c rest al \<Longrightarrow> nat \<bar>validUtf8 c rest al\<bar> \<le> Suc (length rest)"
  by (auto simp: validUtf8_def Suc_le_eq)

lemma length_filterUtf8 [len_simps]: "length (filterUtf8 s al) = length s"
proof (induction s al rule: filterUtf8.induct)
  case (2 c rest al)
  let ?s = "validUtf8 c rest al"
  note b = validUtf8_bounds [of c rest al]
  show ?case
  proof (cases "?s < 0")
    case True
    show ?thesis
    proof (cases "Suc (length rest) \<le> nat \<bar>?s\<bar>")
      case h: True
      then show ?thesis using True by (simp add: Let_def)
    next
      case h: False
      then show ?thesis using "2.IH"(1) [OF refl refl True] True b by (simp add: Let_def)
    qed
  next
    case False
    with "2.IH"(2) [OF refl refl False] b show ?thesis by (simp add: Let_def min_def)
  qed
qed simp

lemma filterUtf8_valid: "isValidUtf8 (filterUtf8 s False)"
proof (induction s False rule: filterUtf8.induct)
  case (2 c rest)
  let ?s = "validUtf8 c rest False"
  show ?case
  proof (cases "?s < 0")
    case True
    show ?thesis
    proof (cases "Suc (length rest) \<le> nat \<bar>?s\<bar>")
      case h: True
      have "isValidUtf8 (replicate (Suc (length rest)) 63 @ [])"
        unfolding isValidUtf8_fill by simp
      then show ?thesis using True h by (simp add: Let_def)
    next
      case h: False
      then show ?thesis using "2.hyps"(1) [OF refl refl True] True by (simp add: Let_def)
    qed
  next
    case False
    then have pos: "0 \<le> ?s" by simp
    note v = validUtf8_char [OF refl pos]
    have "isValidUtf8 (filterUtf8 (drop (nat \<bar>?s\<bar> - 1) rest) False)"
      using "2.hyps"(2) [OF refl refl False] .
    then show ?thesis
      using isValidUtf8_append [OF v(1)] pos by (simp add: Let_def del: isValidUtf8.simps take_Suc_Cons)
  qed
qed simp

lemma filterUtf8_char: "utf8_char g \<Longrightarrow> filterUtf8 (g @ t) al = g @ filterUtf8 t al"
proof -
  assume g: "utf8_char g"
  then obtain c rest where cr: "g = c # rest" using utf8_char_nonempty by (cases g) auto
  have "validUtf8 c (rest @ t) al = int (Suc (length rest))"
    using char_validUtf8 [OF g, of t al] cr by simp
  then show ?thesis using cr by (simp add: Let_def nat_add_distrib)
qed

lemma filterUtf8_concat: "list_all utf8_char gs \<Longrightarrow> filterUtf8 (concat gs) al = concat gs"
  by (induction gs) (simp_all add: filterUtf8_char)

section \<open>Properties\<close>

text \<open>C37: A text passes \<open>isValidUtf8\<close> exactly when it is a sequence of accepted characters:
  printable ASCII, tab or newline, or a lead byte with its one, two or three continuation
  bytes, the four-byte lead being 0xF0 only.\<close>

theorem isValidUtf8_iff: "isValidUtf8 s \<longleftrightarrow> (\<exists>gs. s = concat gs \<and> list_all utf8_char gs)"
  using isValidUtf8_split isValidUtf8_concat by blast

text \<open>\<open>filterUtf8\<close> makes every text valid in place: the length is kept, the result passes
  \<open>isValidUtf8\<close> whatever bytes came in, and a text that is already valid is not changed.\<close>

theorem filterUtf8_correct:
  "length (filterUtf8 s False) = length s \<and> isValidUtf8 (filterUtf8 s False) \<and>
   (isValidUtf8 s \<longrightarrow> filterUtf8 s al = s)"
  using length_filterUtf8 filterUtf8_valid filterUtf8_concat isValidUtf8_split by metis

theorem filterUtf8_correct_witness:
  "isValidUtf8 [72, 0xC3, 0xA9, 0xF0, 0x9F, 0x98, 0x80] \<and>
   filterUtf8 [72, 0xC3, 0xA9, 0xF0, 0x9F, 0x98, 0x80] True =
     [72, 0xC3, 0xA9, 0xF0, 0x9F, 0x98, 0x80]"
proof -
  have "isValidUtf8 [72, 0xC3, 0xA9, 0xF0, 0x9F, 0x98, 0x80]" by code_simp
  with filterUtf8_correct [of "[72, 0xC3, 0xA9, 0xF0, 0x9F, 0x98, 0x80]" True] show ?thesis by blast
qed

end
