(* ===== verification/Text_Clean.thy ===== *)
theory Text_Clean
  imports Prelude
begin

text \<open>
  \<^verbatim>\<open>src/Common/Trim.c\<close>: removal of control characters and clean-up of white space, both in
  place.  A text buffer is a list \<open>c\<close> of exactly \<^verbatim>\<open>*len\<close> bytes; the functions return the buffer
  after all writes and the new length.  The loop of \<open>cleanText\<close> is the iteration of
  \<open>clean_step\<close>, one pass of the loop body with its increments of \<open>i\<close> added up.

  Pure views: \<open>rcc_keep\<close> for \<open>removeControlChars\<close> and \<open>squeeze\<close> for \<open>cleanText\<close> on ASCII text;
  the lemmas show that overwriting the buffer while it is being read loses nothing.
\<close>

section \<open>The code\<close>

function removeControlChars_from :: "byte list \<Rightarrow> nat \<Rightarrow> nat \<Rightarrow> byte list \<times> nat" where
  "removeControlChars_from c i newLen =
    (if i < length c then
       (if c ! i = 10 \<or> (32 \<le> c ! i \<and> c ! i \<noteq> 127) then
          removeControlChars_from (c[newLen := c ! i]) (Suc i) (Suc newLen)
        else if c ! i = 9 then removeControlChars_from (c[newLen := 32]) (Suc i) (Suc newLen)
        else removeControlChars_from c (Suc i) newLen)
     else (c, newLen))"
  by pat_completeness auto
termination by (relation "measure (\<lambda>(c, i, newLen). length c - i)") auto

declare removeControlChars_from.simps [simp del]

definition removeControlChars :: "byte list \<Rightarrow> byte list \<times> nat" where
  "removeControlChars c = removeControlChars_from c 0 0"

text \<open>The character tests look at the bytes available from a position.\<close>

definition charInvisible :: "byte list \<Rightarrow> nat" where
  "charInvisible c =
    (if length c > 1 \<and> ((c ! 0 = 0xCD \<and> c ! 1 = 0x8F) \<or> (c ! 0 = 0xC2 \<and> c ! 1 = 0xAD)) then 2
     else if length c > 2 \<and>
       ((c ! 0 = 0xE2 \<and> c ! 1 = 0x80 \<and> 0x8B \<le> c ! 2 \<and> c ! 2 \<le> 0x8D)
        \<or> (c ! 0 = 0xE2 \<and> c ! 1 = 0x81 \<and> c ! 2 = 0xA0)
        \<or> (c ! 0 = 0xEF \<and> c ! 1 = 0xBB \<and> c ! 2 = 0xBF)) then 3
     else 0)"

definition charSpace :: "byte list \<Rightarrow> nat" where
  "charSpace c =
    (if length c > 0 \<and> c ! 0 = 32 then 1
     else if length c > 1 \<and> c ! 0 = 0xC2 \<and> c ! 1 = 0xA0 then 2
     else if length c > 2 \<and>
       ((c ! 0 = 0xE1 \<and> c ! 1 = 0x9A \<and> c ! 2 = 0x80)
        \<or> (c ! 0 = 0xE2 \<and> c ! 1 = 0x80 \<and> 0x80 \<le> c ! 2 \<and> c ! 2 \<le> 0x8A)
        \<or> (c ! 0 = 0xE2 \<and> c ! 1 = 0x80 \<and> 0xAF \<le> c ! 2)
        \<or> (c ! 0 = 0xE2 \<and> c ! 1 = 0x81 \<and> 0x9F \<le> c ! 2)
        \<or> (c ! 0 = 0xE3 \<and> c ! 1 = 0x80 \<and> 0x80 \<le> c ! 2)) then 3
     else 0)"

definition charNewline :: "byte list \<Rightarrow> nat" where
  "charNewline c =
    (if length c > 0 \<and> c ! 0 = 10 then 1
     else if length c > 1 \<and> c ! 0 = 0xC2 \<and> c ! 1 = 0x85 then 2
     else if length c > 2 \<and> c ! 0 = 0xE2 \<and> c ! 1 = 0x80 \<and> (c ! 2 = 0xA8 \<or> c ! 2 = 0xA9) then 3
     else 0)"

definition skipped_cc :: "byte \<Rightarrow> bool" where
  "skipped_cc b \<longleftrightarrow> (b < 32 \<and> b \<noteq> 10) \<or> b = 127"

fun prev_back :: "byte list \<Rightarrow> nat \<Rightarrow> nat" where
  "prev_back src 0 = 0"
| "prev_back src (Suc k) = (if skipped_cc (src ! Suc k) then prev_back src k else Suc k)"

definition prevCharAt :: "byte list \<Rightarrow> int \<Rightarrow> nat" where
  "prevCharAt src start = (if start < 1 then 0 else prev_back src (nat start))"

function nextCharAt :: "byte list \<Rightarrow> nat \<Rightarrow> nat" where
  "nextCharAt src start =
    (if start < length src \<and> skipped_cc (src ! start) then nextCharAt src (Suc start) else start)"
  by pat_completeness auto
termination by (relation "measure (\<lambda>(src, start). length src - start)") auto

declare nextCharAt.simps [simp del]

text \<open>
  The loop state is the buffer \<open>c\<close>, the reader \<open>i\<close>, the writer \<open>newLen\<close> and the counter
  \<open>noCheck\<close> of bytes to copy without a test.  \<open>clean_copy\<close> is the end of the body.
\<close>

type_synonym clean_state = "byte list \<times> nat \<times> nat \<times> nat"

definition clean_copy :: "byte list \<Rightarrow> nat \<Rightarrow> nat \<Rightarrow> nat \<Rightarrow> clean_state" where
  "clean_copy c i newLen noCheck = (c[newLen := c ! i], Suc i, Suc newLen, noCheck)"

definition clean_newline :: "byte list \<Rightarrow> nat \<Rightarrow> nat \<Rightarrow> nat \<Rightarrow> clean_state" where
  "clean_newline c i newLen noCheck =
    (let x = charNewline (drop i c) in
     if 0 < x then
       (let o1 = prevCharAt c (int newLen - 1);
            o2 = prevCharAt c (int o1 - 1)
        in if newLen < 2 \<or> (c ! o1 = 10 \<and> c ! o2 = 10) then (c, i + x, newLen, noCheck)
           else (c[newLen := 10], i + x, Suc newLen, noCheck))
     else clean_copy c i newLen noCheck)"

definition clean_space :: "byte list \<Rightarrow> nat \<Rightarrow> nat \<Rightarrow> nat \<Rightarrow> clean_state" where
  "clean_space c i newLen noCheck =
    (let x = charSpace (drop i c) in
     if 0 < x then
       (let o1 = nextCharAt c (i + x);
            o2 = prevCharAt c (int newLen - 1)
        in if newLen < 1 \<or> c ! o2 = 32 \<or> c ! o2 = 10 \<or> 0 < charNewline (drop o1 c)
           then (c, i + x, newLen, noCheck)
           else (c[newLen := 32], i + x, Suc newLen, noCheck))
     else clean_newline c i newLen noCheck)"

definition clean_step :: "clean_state \<Rightarrow> clean_state" where
  "clean_step s =
    (case s of (c, i, newLen, noCheck) \<Rightarrow>
       if noCheck = 0 then
         (let x = charInvisible (drop i c) in
          if 0 < x then
            (let o1 = nextCharAt c (i + x);
                 y = charInvisible (drop (i + x) c)
             in if 0 < charSpace (drop o1 c) \<or> 0 < charNewline (drop o1 c) then (c, i + x, newLen, 0)
                else if 0 < y then (c, i + x + y, newLen, 0)
                else clean_space c i newLen (x - 1))
          else clean_space c i newLen 0)
       else clean_copy c i newLen (noCheck - 1))"

lemma clean_step_reader: "clean_step (c, i, newLen, noCheck) = (c', i', newLen', noCheck') \<Longrightarrow> i < i'"
  by (auto simp: clean_step_def clean_space_def clean_newline_def clean_copy_def Let_def
      split: if_splits)

lemma clean_step_length [len_simps]:
  "clean_step (c, i, newLen, noCheck) = (c', i', newLen', noCheck') \<Longrightarrow> length c' = length c"
  by (auto simp: clean_step_def clean_space_def clean_newline_def clean_copy_def Let_def
      split: if_splits)

function clean_loop :: "clean_state \<Rightarrow> byte list \<times> nat" where
  "clean_loop (c, i, newLen, noCheck) =
    (if i < length c then clean_loop (clean_step (c, i, newLen, noCheck)) else (c, newLen))"
  by pat_completeness auto
termination
proof (relation "measure (\<lambda>(c, i, newLen, noCheck). length c - i)")
  fix c :: "byte list" and i newLen noCheck
  assume "i < length c"
  then show "(clean_step (c, i, newLen, noCheck), c, i, newLen, noCheck)
      \<in> measure (\<lambda>(c, i, newLen, noCheck). length c - i)"
    by (cases "clean_step (c, i, newLen, noCheck)") (auto dest: clean_step_reader simp: clean_step_length)
qed simp

declare clean_loop.simps [simp del]

text \<open>The last loop: white space at the end is cut off.\<close>

fun clean_end :: "byte list \<Rightarrow> nat \<Rightarrow> nat" where
  "clean_end c 0 = 0"
| "clean_end c (Suc k) = (if c ! k \<noteq> 32 \<and> c ! k \<noteq> 10 then Suc k else clean_end c k)"

definition cleanText :: "byte list \<Rightarrow> byte list \<times> nat" where
  "cleanText c = (case clean_loop (c, 0, 0, 0) of (c', newLen) \<Rightarrow> (c', clean_end c' newLen))"

section \<open>Control characters: the in-place loop and its pure view\<close>

definition rcc_keep :: "byte list \<Rightarrow> byte list" where
  "rcc_keep c = map (\<lambda>b. if b = 9 then 32 else b)
     (filter (\<lambda>b. b = 9 \<or> b = 10 \<or> (32 \<le> b \<and> b \<noteq> 127)) c)"

lemma write_read:
  assumes "newLen \<le> i" "i < length c"
  shows "take (Suc newLen) (c[newLen := x]) = take newLen c @ [x]"
    and "drop (Suc i) (c[newLen := x]) = drop (Suc i) c"
  using assms by (simp_all add: take_Suc_conv_app_nth list_update_append)

lemma removeControlChars_from_eq:
  assumes "newLen \<le> i" "i \<le> length c"
  shows "case removeControlChars_from c i newLen of (c', n) \<Rightarrow>
    length c' = length c \<and> n \<le> length c \<and> take n c' = take newLen c @ rcc_keep (drop i c)"
  using assms
proof (induction c i newLen rule: removeControlChars_from.induct)
  case (1 c i newLen)
  show ?case
  proof (cases "i < length c")
    case False
    then show ?thesis using "1.prems" by (simp add: removeControlChars_from.simps rcc_keep_def)
  next
    case True
    then have keep: "rcc_keep (drop i c) = rcc_keep [c ! i] @ rcc_keep (drop (Suc i) c)"
      by (simp add: Cons_nth_drop_Suc [symmetric] rcc_keep_def)
    note w = write_read [OF "1.prems"(1) True]
    consider (keep) "c ! i = 10 \<or> (32 \<le> c ! i \<and> c ! i \<noteq> 127)"
      | (tab) "c ! i = 9" | (drop) "\<not> (c ! i = 10 \<or> (32 \<le> c ! i \<and> c ! i \<noteq> 127))" "c ! i \<noteq> 9"
      by blast
    then show ?thesis
    proof cases
      case keep': keep
      then have "rcc_keep [c ! i] = [c ! i]" by (auto simp: rcc_keep_def)
      with "1.IH"(1) [OF True keep'] "1.prems" True keep' w keep show ?thesis
        by (subst removeControlChars_from.simps) simp
    next
      case tab
      then have "rcc_keep [c ! i] = [32]" by (simp add: rcc_keep_def)
      with "1.IH"(2) [OF True _ tab] "1.prems" True tab w keep show ?thesis
        by (subst removeControlChars_from.simps) simp
    next
      case drop
      then have "rcc_keep [c ! i] = []" by (simp add: rcc_keep_def)
      with "1.IH"(3) [OF True drop] "1.prems" True drop keep show ?thesis
        by (subst removeControlChars_from.simps) auto
    qed
  qed
qed

section \<open>White space: bounds\<close>

lemma if_len_le:
  "(if length d > 1 \<and> P then 2 else if length d > 2 \<and> Q then 3 else 0) \<le> length d"
  "(if length d > 0 \<and> R then 1 else if length d > 1 \<and> P then 2
    else if length d > 2 \<and> Q then 3 else 0) \<le> length d"
  by (simp_all add: Suc_le_eq)

lemma char_len:
  "charInvisible d \<le> length d" "charSpace d \<le> length d" "charNewline d \<le> length d"
  unfolding charInvisible_def charSpace_def charNewline_def by (rule if_len_le)+

lemma clean_step_bounds:
  assumes "clean_step (c, i, newLen, noCheck) = (c', i', newLen', noCheck')"
    and "newLen \<le> i" "i < length c"
  shows "newLen' \<le> i'" and "i' \<le> length c'"
proof -
  let ?x = "charInvisible (drop i c)"
  have x: "i + ?x \<le> length c" using char_len(1) [of "drop i c"] assms(3) by simp
  moreover have "i + ?x + charInvisible (drop (i + ?x) c) \<le> length c"
    using char_len(1) [of "drop (i + ?x) c"] x unfolding length_drop by linarith
  moreover have "i + charSpace (drop i c) \<le> length c" "i + charNewline (drop i c) \<le> length c"
    using char_len(2,3) [of "drop i c"] assms(3) by simp_all
  moreover note assms
  ultimately show "newLen' \<le> i'" "i' \<le> length c'"
    by (auto simp: clean_step_def clean_space_def clean_newline_def clean_copy_def Let_def
        split: if_splits)
qed

lemma clean_loop_bounds:
  assumes "newLen \<le> i" "i \<le> length c" "clean_loop (c, i, newLen, noCheck) = (c', n)"
  shows "length c' = length c \<and> n \<le> length c"
  using assms
proof (induction "(c, i, newLen, noCheck)" arbitrary: c i newLen noCheck rule: clean_loop.induct)
  case (1 c i newLen noCheck)
  obtain c1 i1 n1 k1 where step: "clean_step (c, i, newLen, noCheck) = (c1, i1, n1, k1)"
    by (metis prod_cases4)
  show ?case
  proof (cases "i < length c")
    case True
    note b = clean_step_bounds [OF step "1.prems"(1) True] clean_step_length [OF step]
    show ?thesis
      using "1.hyps" [OF True step b(1,2)] "1.prems"(3) True step b(3)
      by (simp add: clean_loop.simps [of c])
  qed (use "1.prems" in \<open>simp add: clean_loop.simps [of c]\<close>)
qed

lemma clean_end_le: "clean_end c n \<le> n"
  by (induction n) auto

lemma clean_end_last: "0 < clean_end c n \<Longrightarrow>
  c ! (clean_end c n - 1) \<noteq> 32 \<and> c ! (clean_end c n - 1) \<noteq> 10"
  by (induction n) auto

section \<open>White space: the pure view on ASCII text\<close>

text \<open>
  \<open>squeeze r s\<close>: the text kept so far is \<open>r\<close>, last byte first, and \<open>s\<close> is still to be read.  A
  space is kept unless it would start the text, follow white space or precede a newline; a
  newline is kept unless fewer than two bytes or two newlines precede it.
\<close>

definition squeeze_one :: "byte list \<Rightarrow> byte \<Rightarrow> byte list \<Rightarrow> byte list" where
  "squeeze_one r b rest =
    (if b = 32 then
       (if r = [] \<or> r ! 0 = 32 \<or> r ! 0 = 10 \<or> (rest \<noteq> [] \<and> hd rest = 10) then r else b # r)
     else if b = 10 then
       (if length r < 2 \<or> (r ! 0 = 10 \<and> r ! 1 = 10) then r else b # r)
     else b # r)"

fun squeeze :: "byte list \<Rightarrow> byte list \<Rightarrow> byte list" where
  "squeeze r [] = r"
| "squeeze r (b # rest) = squeeze (squeeze_one r b rest) rest"

definition white :: "byte \<Rightarrow> bool" where
  "white b \<longleftrightarrow> b = 32 \<or> b = 10"

definition ascii_text :: "byte list \<Rightarrow> bool" where
  "ascii_text c \<longleftrightarrow> list_all (\<lambda>b. is_print b \<or> b = 10) c"

text \<open>Tidy text: no space at the start or after white space, no newline among the first two
  bytes, never three newlines in a row.\<close>

definition tidy_at :: "byte list \<Rightarrow> nat \<Rightarrow> bool" where
  "tidy_at s i \<longleftrightarrow>
     (s ! i = 32 \<longrightarrow> 0 < i \<and> \<not> white (s ! (i - 1))) \<and>
     (s ! i = 10 \<longrightarrow> 2 \<le> i \<and> \<not> (s ! (i - 1) = 10 \<and> s ! (i - 2) = 10))"

definition tidy :: "byte list \<Rightarrow> bool" where
  "tidy s \<longleftrightarrow> (\<forall>i < length s. tidy_at s i)"

lemma ascii_byte:
  assumes "is_print b \<or> b = 10"
  shows "b \<noteq> 0xCD" "b \<noteq> 0xC2" "b \<noteq> 0xE2" "b \<noteq> 0xEF" "b \<noteq> 0xE1" "b \<noteq> 0xE3" "\<not> skipped_cc b"
  using assms by (auto simp: is_print_def skipped_cc_def)

lemma ascii_text_nth: "ascii_text c \<Longrightarrow> i < length c \<Longrightarrow> is_print (c ! i) \<or> c ! i = 10"
  by (simp add: ascii_text_def list_all_length)

lemma ascii_drop: "ascii_text c \<Longrightarrow> ascii_text (drop i c)"
  by (auto simp: ascii_text_def list_all_iff dest: in_set_dropD)

lemma ascii_update: "ascii_text c \<Longrightarrow> is_print b \<or> b = 10 \<Longrightarrow> ascii_text (c[i := b])"
  by (auto simp: ascii_text_def list_all_iff dest!: set_update_subset_insert [THEN subsetD])

lemma ascii_chars:
  assumes "ascii_text d"
  shows "charInvisible d = 0"
    and "charSpace d = (if d \<noteq> [] \<and> d ! 0 = 32 then 1 else 0)"
    and "charNewline d = (if d \<noteq> [] \<and> d ! 0 = 10 then 1 else 0)"
  using ascii_byte [OF ascii_text_nth [OF assms, of 0]]
  by (cases d; simp add: charInvisible_def charSpace_def charNewline_def)+

lemma ascii_prev: "ascii_text c \<Longrightarrow> start < int (length c) \<Longrightarrow> prevCharAt c start = nat start"
  using ascii_byte(7) [OF ascii_text_nth [of c "nat start"]]
  by (cases "nat start") (auto simp: prevCharAt_def)

lemma ascii_next: "ascii_text c \<Longrightarrow> nextCharAt c k = k"
  using ascii_byte(7) [OF ascii_text_nth [of c k]] by (subst nextCharAt.simps) auto

lemma clean_step_ascii:
  assumes "ascii_text c" "i < length c" "newLen \<le> i"
  shows "clean_step (c, i, newLen, 0) =
    (if c ! i = 32 then
       (if newLen < 1 \<or> c ! (newLen - 1) = 32 \<or> c ! (newLen - 1) = 10
           \<or> (Suc i < length c \<and> c ! Suc i = 10)
        then (c, Suc i, newLen, 0) else (c[newLen := 32], Suc i, Suc newLen, 0))
     else if c ! i = 10 then
       (if newLen < 2 \<or> (c ! (newLen - 1) = 10 \<and> c ! (newLen - 2) = 10)
        then (c, Suc i, newLen, 0) else (c[newLen := 10], Suc i, Suc newLen, 0))
     else (c[newLen := c ! i], Suc i, Suc newLen, 0))"
proof -
  note d = ascii_chars [OF ascii_drop [OF assms(1)]]
  have p1: "prevCharAt c (int newLen - 1) = newLen - 1"
    using ascii_prev [OF assms(1), of "int newLen - 1"] assms(2,3) by (simp add: nat_diff_distrib')
  have p2: "prevCharAt c (int (newLen - 1) - 1) = newLen - 2"
    using ascii_prev [OF assms(1), of "int (newLen - 1) - 1"] assms(2,3) by (simp add: nat_diff_distrib')
  show ?thesis
    using assms(2) p1 p2
    by (simp add: clean_step_def clean_space_def clean_newline_def clean_copy_def d Let_def
        ascii_next [OF assms(1)])
qed

lemma clean_loop_ascii:
  assumes "ascii_text c" "newLen \<le> i" "i \<le> length c"
  shows "case clean_loop (c, i, newLen, 0) of (c', n) \<Rightarrow>
    take n c' = rev (squeeze (rev (take newLen c)) (drop i c))"
  using assms
proof (induction "length c - i" arbitrary: c i newLen)
  case 0
  then show ?case by (simp add: clean_loop.simps [of c])
next
  case (Suc k)
  let ?r = "rev (take newLen c)"
  have i: "i < length c" and k: "k = length c - Suc i" using Suc.hyps(2) by simp_all
  have drop: "drop i c = c ! i # drop (Suc i) c" using i by (simp add: Cons_nth_drop_Suc)
  have r0: "0 < newLen \<Longrightarrow> ?r ! 0 = c ! (newLen - 1)" and r1: "1 < newLen \<Longrightarrow> ?r ! 1 = c ! (newLen - 2)"
    using Suc.prems i by (simp_all add: rev_nth min_def numeral_2_eq_2)
  have next_nl: "drop (Suc i) c \<noteq> [] \<and> hd (drop (Suc i) c) = 10 \<longleftrightarrow> Suc i < length c \<and> c ! Suc i = 10"
    by (auto simp: hd_drop_conv_nth)
  have lr: "length ?r = newLen" using Suc.prems i by simp
  have keep: "case clean_loop (c[newLen := b], Suc i, Suc newLen, 0) of (c', n) \<Rightarrow>
      take n c' = rev (squeeze (b # ?r) (drop (Suc i) c))" if "is_print b \<or> b = 10" for b
    using Suc.hyps(1) [of "c[newLen := b]" "Suc i" "Suc newLen"] k i Suc.prems
      ascii_update [OF Suc.prems(1) that] write_read [OF Suc.prems(2) i, of b] by simp
  have skip: "case clean_loop (c, Suc i, newLen, 0) of (c', n) \<Rightarrow>
      take n c' = rev (squeeze ?r (drop (Suc i) c))"
    using Suc.hyps(1) [of c "Suc i" newLen] k i Suc.prems by simp
  have loop: "clean_loop (c, i, newLen, 0) = clean_loop (clean_step (c, i, newLen, 0))"
    using i by (simp add: clean_loop.simps [of c i])
  have ascii: "is_print (c ! i) \<or> c ! i = 10" by (rule ascii_text_nth [OF Suc.prems(1) i])
  have nil: "?r = [] \<longleftrightarrow> newLen < 1" using lr by auto
  have space: "(newLen < 1 \<or> ?r ! 0 = 32 \<or> ?r ! 0 = 10 \<or> X) =
      (newLen < 1 \<or> c ! (newLen - 1) = 32 \<or> c ! (newLen - 1) = 10 \<or> X)" for X
    using r0 by (cases "newLen < 1") simp_all
  have newline: "(newLen < 2 \<or> (?r ! 0 = 10 \<and> ?r ! 1 = 10)) =
      (newLen < 2 \<or> (c ! (newLen - 1) = 10 \<and> c ! (newLen - 2) = 10))"
    using r0 r1 by (cases "newLen < 2") simp_all
  note eq = loop clean_step_ascii [OF Suc.prems(1) i Suc.prems(2)] drop squeeze.simps
    squeeze_one_def next_nl lr nil space newline
  show ?case
  proof (cases "c ! i = 32")
    case True
    with keep [OF ascii] skip show ?thesis unfolding eq by (simp only: True if_True split: if_split) auto
  next
    case space: False
    show ?thesis
    proof (cases "c ! i = 10")
      case True
      with keep [OF ascii] skip show ?thesis
        unfolding eq if_not_P [OF space] by (simp only: True if_True split: if_split) auto
    next
      case False
      with keep [OF ascii] show ?thesis
        unfolding eq if_not_P [OF space] by (simp only: False if_False)
    qed
  qed
qed

lemma tidy_snoc: "tidy (s @ [b]) \<longleftrightarrow> tidy s \<and> tidy_at (s @ [b]) (length s)"
proof -
  have "tidy_at (s @ [b]) i = tidy_at s i" if "i < length s" for i
  proof -
    have "(s @ [b]) ! j = s ! j" if "j \<le> i" for j
      using that \<open>i < length s\<close> by (simp add: nth_append)
    then show ?thesis by (simp add: tidy_at_def)
  qed
  then show ?thesis by (auto simp: tidy_def less_Suc_eq)
qed

lemma tidy_take: "tidy s \<Longrightarrow> tidy (take n s)"
  by (auto simp: tidy_def tidy_at_def)

lemma tidy_rev_Cons:
  "tidy (rev (b # r)) \<longleftrightarrow> tidy (rev r) \<and> (b = 32 \<longrightarrow> r \<noteq> [] \<and> \<not> white (r ! 0)) \<and>
     (b = 10 \<longrightarrow> 2 \<le> length r \<and> \<not> (r ! 0 = 10 \<and> r ! 1 = 10))"
proof -
  have "r \<noteq> [] \<Longrightarrow> (rev r @ [b]) ! (length r - 1) = r ! 0"
    and "2 \<le> length r \<Longrightarrow> (rev r @ [b]) ! (length r - 2) = r ! 1"
    by (cases r; cases "tl r"; simp add: nth_append)+
  moreover have "(rev r @ [b]) ! length r = b" by (metis length_rev nth_append_length)
  ultimately show ?thesis
    using tidy_snoc [of "rev r" b] by (cases "r = []") (auto simp: tidy_at_def)
qed

lemma squeeze_one_tidy: "tidy (rev r) \<Longrightarrow> tidy (rev (squeeze_one r b rest))"
  unfolding squeeze_one_def
  by (cases "b = 32"; cases "b = 10") (auto simp del: rev.simps simp: tidy_rev_Cons white_def not_less)

lemma squeeze_tidy: "tidy (rev r) \<Longrightarrow> tidy (rev (squeeze r s))"
  by (induction r s rule: squeeze.induct) (simp_all add: squeeze_one_tidy)

definition ink :: "byte list \<Rightarrow> byte list" where
  "ink s = filter (\<lambda>b. \<not> white b) s"

lemma squeeze_ink: "ink (rev (squeeze r s)) = ink (rev r) @ ink s"
  by (induction r s rule: squeeze.induct) (auto simp: squeeze_one_def ink_def white_def)

lemma clean_end_ink:
  "n \<le> length c \<Longrightarrow> ink (take (clean_end c n) c) = ink (take n c)"
  by (induction n) (auto simp: ink_def white_def take_Suc_conv_app_nth)

section \<open>Properties\<close>

text \<open>Removing control characters in place is filtering: although the loop overwrites the
  buffer it reads, the kept prefix is the input with every control character except tab and
  newline dropped and every tab turned into a space.\<close>

theorem removeControlChars_eq:
  "case removeControlChars c of (c', n) \<Rightarrow>
     length c' = length c \<and> n \<le> length c \<and> take n c' = rcc_keep c"
  using removeControlChars_from_eq [of 0 0 c] by (simp add: removeControlChars_def)

text \<open>For every text the clean-up stays inside its buffer: the new length is at most the old
  one and the kept text does not end in a space or a newline.\<close>

theorem cleanText_bounds:
  "case cleanText c of (c', n) \<Rightarrow>
     length c' = length c \<and> n \<le> length c \<and> \<not> (0 < n \<and> white (c' ! (n - 1)))"
proof -
  obtain c' n where l: "clean_loop (c, 0, 0, 0) = (c', n)" by fastforce
  have "length c' = length c \<and> n \<le> length c" using clean_loop_bounds [OF _ _ l] by simp
  then show ?thesis
    using clean_end_le [of c' n] clean_end_last [of c' n] l by (auto simp: cleanText_def white_def)
qed

text \<open>C39: On ASCII text the clean-up does what it is for: it drops or merges white space only (the
  other bytes are the same, in order), and the result has no leading white space, no space
  after a space or newline, and never three newlines in a row.\<close>

theorem cleanText_ascii:
  "ascii_text c \<Longrightarrow> (case cleanText c of (c', n) \<Rightarrow> tidy (take n c') \<and> ink (take n c') = ink c)"
proof -
  assume a: "ascii_text c"
  obtain c' m where l: "clean_loop (c, 0, 0, 0) = (c', m)" by fastforce
  then have m: "take m c' = rev (squeeze [] c)" using clean_loop_ascii [OF a, of 0 0] by simp
  have le: "length c' = length c \<and> m \<le> length c" using clean_loop_bounds [OF _ _ l] by simp
  let ?n = "clean_end c' m"
  have "take ?n c' = take ?n (take m c')" using clean_end_le [of c' m] by (simp add: min_absorb1)
  moreover have "tidy (take m c')" unfolding m by (rule squeeze_tidy) (simp add: tidy_def)
  ultimately have "tidy (take ?n c')" by (metis tidy_take)
  moreover have "ink (take ?n c') = ink c"
    using clean_end_ink [of m c'] le m squeeze_ink [of "[]" c] by (simp add: ink_def)
  ultimately show ?thesis by (simp add: cleanText_def l)
qed

theorem cleanText_ascii_witness:
  "case cleanText (str '' a  b '') of (c', n) \<Rightarrow> tidy (take n c') \<and> ink (take n c') = str ''ab''"
proof -
  have "ascii_text (str '' a  b '')" by code_simp
  moreover have "ink (str '' a  b '') = str ''ab''" by code_simp
  ultimately show ?thesis using cleanText_ascii [of "str '' a  b ''"] by simp
qed

text \<open>The space test takes 64 characters for the ideographic space and the word joiner for a
  space, so the Japanese full stop and the word joiner are replaced by a space; and of two
  spaces before a newline one is kept.\<close>

theorem cleanText_replaces_text:
  "(case cleanText [65, 0xE3, 0x80, 0x82, 66] of (c', n) \<Rightarrow> take n c' = [65, 32, 66]) \<and>
   (case cleanText [65, 0xE2, 0x81, 0xA0, 66] of (c', n) \<Rightarrow> take n c' = [65, 32, 66]) \<and>
   (case cleanText [65, 32, 32, 10, 66] of (c', n) \<Rightarrow> take n c' = [65, 32, 10, 66])"
  by (intro conjI; code_simp)

end
