(* ===== verification/Ref_Tables.thy ===== *)
theory Ref_Tables
  imports Prelude
begin

text \<open>
  \<^verbatim>\<open>src/Common/ref2codepoint.c\<close>: HTML character reference names to Unicode code points.  The
  code hashes the NUL-terminated name (\<open>cpHash\<close>) and switches over 2138 hash values
  (\<open>ref2codepoint\<close>, one code point) or 93 (\<open>ref2codepoint2\<close>, two code points).  The case
  labels are translated row by row, in the source's order, into the tables \<open>ref_table_0\<close> to
  \<open>ref_table_14\<close> and \<open>ref_table_two\<close>; labels and results as numbers, a row whose
  result is the character literal of a space written 0x20.  The labels of a table ascend
  strictly, so the switch is the lookup in the tables one after the other.
\<close>

section \<open>The hash\<close>

fun cpHash_from :: "u32 \<Rightarrow> byte list \<Rightarrow> u32" where
  "cpHash_from h [] = h"
| "cpHash_from h (p # ps) = (if p = 0 then h else cpHash_from (25 * h + ucast p) ps)"

definition cpHash :: "byte list \<Rightarrow> u32" where
  "cpHash name = cpHash_from 0 name"

section \<open>The case labels and their results\<close>

definition ref_table_0 :: "(nat \<times> nat) list" where
  "ref_table_0 = [
   (0x743, 0x3E), (0x7c0, 0x3C), (0xa83, 0x3E), (0xb00, 0x3C), (0xa686, 0x26), (0xace3, 0x2145),
    (0xb0f1, 0xD0), (0xb5c6, 0x3E), (0xb7a1, 0x22D9), (0xb8e6, 0x226B), (0xbd19, 0x2111),
    (0xc1fb, 0x3C), (0xc453, 0x22D8), (0xc51b, 0x226A), (0xc7a5, 0x39C), (0xca16, 0x39D),
    (0xcc3c, 0x2A54), (0xcdcc, 0x3A0), (0xcead, 0x2ABB), (0xcf36, 0xAE), (0xd24a, 0x211C),
    (0xd489, 0x2ABC), (0xe154, 0x39E), (0xf6b7, 0x223E), (0xf702, 0x2061), (0xf7e6, 0x26),
    (0xf7fc, 0x2248), (0xfe23, 0x2146), (0xfe68, 0xB0), (0x100ad, 0x2147), (0x100df, 0x2A9A),
    (0x1015c, 0x2A99), (0x10251, 0xF0), (0x1026f, 0x2267), (0x1058f, 0x2265), (0x105c1, 0x226B),
    (0x1063e, 0x2277), (0x10706, 0x3E), (0x10a3f, 0x2063), (0x10ad5, 0x2148), (0x10b52, 0x2208),
    (0x10be8, 0x2062), (0x10ea4, 0x2266), (0x111c4, 0x2264), (0x111f6, 0x2276),
    (0x11273, 0x226A), (0x1133b, 0x3C), (0x11548, 0x2213), (0x115c5, 0x3BC), (0x116a6, 0x2260),
    (0x1170a, 0x220B), (0x11755, 0x24C8), (0x117d9, 0xAC), (0x11836, 0x3BD), (0x11a5c, 0x2228),
    (0x11bec, 0x3C0), (0x11c50, 0xB1), (0x11ccd, 0x227A), (0x12096, 0xAE), (0x12245, 0x211E),
    (0x122a9, 0x227B), (0x12364, 0xAD), (0x128b6, 0xA8), (0x12db2, 0x2118), (0x12de4, 0x2240),
    (0x12f74, 0x3BE), (0x131b4, 0xA5), (0x63bd5, 0x22F5), (0x104351, 0x26), (0x107d08, 0x410),
    (0x1083ac, 0x1D504), (0x1095d6, 0x2A53), (0x10a7ff, 0xC4), (0x10ba11, 0x411),
    (0x10c0b5, 0x1D505), (0x10c263, 0xA9), (0x10f157, 0x22D2), (0x10fdbe, 0x212D),
    (0x1101bf, 0x3A7), (0x11222b, 0x22D3), (0x113423, 0x414), (0x1137c0, 0x2207),
    (0x113905, 0x14A), (0x113ac7, 0x1D507), (0x1147c4, 0xD0), (0x1150f2, 0xA8),
    (0x11712c, 0x42D), (0x1177d0, 0x1D508), (0x119855, 0x397), (0x119c23, 0xCB),
    (0x11ae35, 0x424), (0x11b4d9, 0x1D509), (0x11eb3e, 0x413), (0x11f1e2, 0x1D50A),
    (0x1222e8, 0x5E), (0x122eeb, 0x210C), (0x126550, 0x418), (0x126bf4, 0x2111),
    (0x127fae, 0x222C), (0x129047, 0xCF), (0x12a259, 0x419), (0x12a8fd, 0x1D50D),
    (0x12df62, 0x41A), (0x12e606, 0x1D50E), (0x131c6b, 0x41B), (0x13230f, 0x1D50F),
    (0x1341d2, 0x21B0), (0x1353b1, 0x2905), (0x135974, 0x41C), (0x136018, 0x1D510),
    (0x13967d, 0x41D), (0x139d21, 0x1D511), (0x13b34c, 0x2AEC), (0x13d386, 0x41E),
    (0x13da2a, 0x1D512), (0x13fe7d, 0xD6), (0x14108f, 0x41F), (0x141733, 0x1D513),
    (0x141b34, 0x3A6), (0x142769, 0x22), (0x14360f, 0x3A8), (0x143c81, 0xAE),
    (0x14543c, 0x1D514), (0x148aa1, 0x420), (0x149145, 0x211C), (0x1495dc, 0x3A1),
    (0x14b008, 0x21B1), (0x14c7aa, 0x421), (0x14ce4e, 0x1D516), (0x14f15d, 0x22D0),
    (0x14f270, 0x2211), (0x14f2bb, 0x22D1), (0x14fd92, 0x20), (0x14ff6d, 0x3A4),
    (0x1504b3, 0x422), (0x150b57, 0x1D517), (0x1541bc, 0x423), (0x154860, 0x1D518),
    (0x156cb3, 0xDC), (0x157ec5, 0x412), (0x1581b3, 0x22C1), (0x158569, 0x1D519),
    (0x15c272, 0x1D51A)]"

definition ref_table_1 :: "(nat \<times> nat) list" where
  "ref_table_1 = [
   (0x15ff7b, 0x1D51B), (0x1635e0, 0x42B), (0x163c84, 0x1D51C), (0x1672e9, 0x417),
    (0x16798d, 0x2128), (0x181c1b, 0x223F), (0x181e28, 0x430), (0x1824cc, 0x1D51E),
    (0x1835b1, 0x26), (0x1836f6, 0x2227), (0x183741, 0x2220), (0x1838d1, 0x2A70),
    (0x183bf1, 0x224A), (0x1844bb, 0x2A), (0x18491f, 0xE4), (0x185b31, 0x431),
    (0x1861d5, 0x1D51F), (0x187800, 0x22A5), (0x189277, 0x2229), (0x189c42, 0xA2),
    (0x189ede, 0x1D520), (0x18a2df, 0x3C7), (0x18a631, 0x25CB), (0x18b4e3, 0xA9),
    (0x18c34b, 0x222A), (0x18d543, 0x434), (0x18d863, 0xB0), (0x18dbe7, 0x1D521),
    (0x18e1f5, 0xA8), (0x18e39e, 0xF7), (0x18f212, 0x2D9), (0x19124c, 0x44D),
    (0x1918f0, 0x1D522), (0x191b7a, 0x2A96), (0x192700, 0x2113), (0x1927af, 0x2A95),
    (0x192b65, 0x14B), (0x193975, 0x3B7), (0x193a24, 0xF0), (0x193d43, 0xEB), (0x1941db, 0x2A8C),
    (0x194f55, 0x444), (0x1955f9, 0x1D523), (0x195881, 0x2A06), (0x19869b, 0x2A86),
    (0x198c5e, 0x433), (0x198ffb, 0x22DB), (0x199078, 0x2265), (0x1990aa, 0x2A7E),
    (0x199302, 0x1D524), (0x199460, 0x22D9), (0x199d43, 0x2A92), (0x199fff, 0x2AA5),
    (0x19a0e0, 0x2AA4), (0x19a225, 0x2269), (0x19a545, 0x2A88), (0x19d00b, 0x1D525),
    (0x1a0670, 0x438), (0x1a0be8, 0x21D4), (0x1a0d14, 0x1D526), (0x1a20ce, 0x222B),
    (0x1a3167, 0xEF), (0x1a4379, 0x439), (0x1a4a1d, 0x1D527), (0x1a728b, 0x2A8B),
    (0x1a8082, 0x43A), (0x1a8726, 0x1D528), (0x1ab7c8, 0x2A85), (0x1ab82c, 0x2AAB),
    (0x1abd8b, 0x43B), (0x1ac0ab, 0x22DA), (0x1ac1a5, 0x2264), (0x1ac1d7, 0x2A7D),
    (0x1ac23b, 0x2A91), (0x1ac42f, 0x1D529), (0x1ad352, 0x2268), (0x1ad672, 0x2A87),
    (0x1adaf0, 0x25CA), (0x1ae0fe, 0x200E), (0x1ae2f2, 0x21B0), (0x1af3c3, 0xAF),
    (0x1af4d1, 0x21A6), (0x1afa94, 0x43C), (0x1b0138, 0x1D52A), (0x1b05cf, 0x2127),
    (0x1b072d, 0x2223), (0x1b31da, 0x2249), (0x1b34cb, 0x20), (0x1b379d, 0x43D),
    (0x1b3e41, 0x1D52B), (0x1b3f6d, 0x2271), (0x1b40e4, 0x226F), (0x1b45ad, 0x22FC),
    (0x1b45f8, 0x220B), (0x1b4ba2, 0x2270), (0x1b4d19, 0x226E), (0x1b546c, 0xAC),
    (0x1b56ab, 0x2280), (0x1b5c87, 0x2281), (0x1b6263, 0x23), (0x1b74a6, 0x43E),
    (0x1b7b4a, 0x1D52C), (0x1b7ded, 0x29C1), (0x1b7faf, 0x3A9), (0x1b8a22, 0x29C0),
    (0x1b9738, 0x2A5D), (0x1b9763, 0xAA), (0x1b976a, 0xBA), (0x1b98fa, 0x2A5B), (0x1b9f9d, 0xF6),
    (0x1bac1e, 0x2225), (0x1bac44, 0xB6), (0x1bb1af, 0x43F), (0x1bb853, 0x1D52D),
    (0x1bbc54, 0x3C6), (0x1bc00a, 0x3D6), (0x1bd13a, 0x2AB3), (0x1bd45a, 0x2AAF),
    (0x1bd72f, 0x3C8), (0x1bf55c, 0x1D52E), (0x1c19e9, 0x22), (0x1c2bc1, 0x440),
    (0x1c2ee1, 0xAE), (0x1c3265, 0x1D52F), (0x1c36fc, 0x3C1), (0x1c408e, 0x200F),
    (0x1c5128, 0x21B1), (0x1c63b6, 0x2AB4), (0x1c66d6, 0x2AB0), (0x1c68ca, 0x441),
    (0x1c6bbf, 0xA7), (0x1c6f6e, 0x1D530), (0x1c74ff, 0xAD), (0x1c7644, 0x223C),
    (0x1c80b7, 0x2AAA), (0x1c84d1, 0x2F), (0x1c8a94, 0x25A1), (0x1c927d, 0x2282),
    (0x1c9390, 0x2211), (0x1c93d1, 0xB9), (0x1c93d2, 0xB2), (0x1c93d3, 0xB3), (0x1c93db, 0x2283)]"

definition ref_table_2 :: "(nat \<times> nat) list" where
  "ref_table_2 = [
   (0x1ca08d, 0x3C4), (0x1ca5d3, 0x442), (0x1cac77, 0x1D531), (0x1cc23e, 0x22A4),
    (0x1ce2dc, 0x443), (0x1ce980, 0x1D532), (0x1cfa01, 0xA8), (0x1d0dd3, 0xFC),
    (0x1d1fe5, 0x432), (0x1d22d3, 0x2228), (0x1d2689, 0x1D533), (0x1d6392, 0x1D534),
    (0x1da09b, 0x1D535), (0x1dd700, 0x44B), (0x1ddacf, 0xA5), (0x1ddda4, 0x1D536),
    (0x1e01f7, 0xFF), (0x1e1409, 0x437), (0x1e1aad, 0x1D537), (0x1e4366, 0x200D),
    (0x83619b, 0x2216), (0xe41968, 0x2A5F), (0xe55440, 0x2259), (0xf1f9e7, 0x22B5),
    (0x102c737, 0x2118), (0x13f8e2e, 0x2A04), (0x147fdfb, 0x22A1), (0x14e1ab2, 0x29E3),
    (0x1831b81, 0x2110), (0x194f3e2, 0xC6), (0x19915f8, 0x2111), (0x19c147a, 0xC2),
    (0x19f00a9, 0x1D538), (0x19fa7a1, 0xC5), (0x19fd63c, 0x1D49C), (0x1a06822, 0xC4),
    (0x1a1822a, 0x427), (0x1a1a67e, 0x2AE7), (0x1a29d77, 0x392), (0x1a2fbe6, 0xA9),
    (0x1a4f68a, 0x1D539), (0x1a5cc1d, 0x212C), (0x1a7f21d, 0x402), (0x1a84bf5, 0x10A),
    (0x1aa176e, 0x405), (0x1aaec6b, 0x2102), (0x1abc1fe, 0x1D49E), (0x1abc2ad, 0x40F),
    (0x1ad91dc, 0x21A1), (0x1b0e24c, 0x1D53B), (0x1b1b7df, 0x1D49F), (0x1b3ebfe, 0xCA),
    (0x1b437b7, 0x116), (0x1b6d82d, 0x1D53C), (0x1b7adc0, 0x2130), (0x1b7bbe9, 0x2A73),
    (0x1b83fa6, 0xCB), (0x1b9d3c0, 0x403), (0x1bcce0e, 0x1D53D), (0x1bda3a1, 0x2131),
    (0x1c02379, 0x120), (0x1c2c3ef, 0x1D53E), (0x1c39982, 0x1D4A2), (0x1c48e55, 0x415),
    (0x1c6f0af, 0x401), (0x1c8b9d0, 0x210D), (0x1c98f63, 0x210B), (0x1cbc382, 0xCE),
    (0x1cc0f3b, 0x130), (0x1ceafb1, 0x1D540), (0x1ceb8f8, 0x399), (0x1ced48f, 0x27F7),
    (0x1cf8544, 0x2110), (0x1d0172a, 0xCF), (0x1d13132, 0x425), (0x1d1ab44, 0x40C),
    (0x1d4a592, 0x1D541), (0x1d57b25, 0x1D4A5), (0x1d7a125, 0x409), (0x1da9b73, 0x1D542),
    (0x1db7106, 0x1D4A6), (0x1dd360d, 0x27EA), (0x1dd40e4, 0x219E), (0x1e09154, 0x1D543),
    (0x1e166e7, 0x2112), (0x1e38ce7, 0x40A), (0x1e68735, 0x1D544), (0x1e75cc8, 0x2133),
    (0x1ec7d16, 0x2115), (0x1ece0ca, 0x2256), (0x1ed52a9, 0x1D4A9), (0x1ef86c8, 0xD4),
    (0x1f272f7, 0x1D546), (0x1f3488a, 0x1D4AA), (0x1f3da70, 0xD6), (0x1f7d97c, 0x22),
    (0x1f868d8, 0x2119), (0x1f93e6b, 0x1D4AB), (0x1fe5eb9, 0x211A), (0x1ff344c, 0x1D4AC),
    (0x200e03a, 0x428), (0x200f953, 0x27EB), (0x201042a, 0x21A0), (0x204549a, 0x211D),
    (0x2052a2d, 0x211B), (0x206a18b, 0xDE), (0x209757e, 0x426), (0x20a4a7b, 0x1D54A),
    (0x20acacd, 0x221A), (0x20b200e, 0x1D4AE), (0x20b5835, 0x22C6), (0x210405c, 0x1D54B),
    (0x21115ef, 0x1D4AF), (0x2118f00, 0x21AD), (0x212e5cd, 0x219F), (0x2134a0e, 0xDB),
    (0x216363d, 0x1D54C), (0x2167ae4, 0x3D2), (0x2170bd0, 0x1D4B0), (0x2179db6, 0xDC),
    (0x218ef36, 0x2AEB), (0x219d004, 0x2016), (0x21c2c1e, 0x1D54D), (0x21d01b1, 0x1D4B1),
    (0x22221ff, 0x1D54E), (0x222f792, 0x1D4B2), (0x222f841, 0x42F), (0x224e089, 0x407),
    (0x225f7a1, 0x22C0), (0x227bcf5, 0x42E), (0x22817e0, 0x1D54F), (0x228ed73, 0x1D4B3),
    (0x22a9961, 0x416), (0x22e0dc1, 0x1D550), (0x22ee354, 0x1D4B4), (0x22f753a, 0x178),
    (0x231632c, 0x17B), (0x231aa8f, 0x396), (0x23403a2, 0x2124), (0x234d935, 0x1D4B5),
    (0x256353e, 0x3D), (0x2573a92, 0x225F), (0x25ad09a, 0xE2)]"

definition ref_table_3 :: "(nat \<times> nat) list" where
  "ref_table_3 = [
   (0x25aee1a, 0xB4), (0x25afb1a, 0x164), (0x25b5122, 0xE6), (0x25bd36e, 0x2AED),
    (0x25d6242, 0x2A5C), (0x25d6404, 0x2A5A), (0x25d69ae, 0x29A4), (0x25dbcc9, 0x1D552),
    (0x25de889, 0x224B), (0x25df8a6, 0x27), (0x25e63c1, 0xE5), (0x25e925c, 0x1D4B6),
    (0x25f2442, 0xE4), (0x2609e94, 0x23B5), (0x2615997, 0x3B2), (0x2615a46, 0x2136),
    (0x263748e, 0x2310), (0x263b2aa, 0x1D553), (0x263c344, 0x2550), (0x263c4a2, 0x2551),
    (0x263c664, 0x2500), (0x263c7c2, 0x2502), (0x264883d, 0x1D4B7), (0x2649666, 0x223D),
    (0x264a4f3, 0x5C), (0x264acdc, 0x21D3), (0x26517b2, 0x2022), (0x2651a87, 0x224E),
    (0x2662e9a, 0x2965), (0x2670815, 0x10B), (0x2672961, 0xB8), (0x26742ad, 0xA2),
    (0x267df6a, 0x447), (0x2683bfe, 0x29C3), (0x2683eec, 0x2C6), (0x2683f1e, 0x2257),
    (0x269a232, 0x2201), (0x269a3c2, 0x2245), (0x269a88b, 0x1D554), (0x269aa66, 0xA9),
    (0x269c570, 0x2A15), (0x26a7e1e, 0x1D4B8), (0x26aa880, 0x2ACF), (0x26aa9de, 0x2AD0),
    (0x26b52b7, 0x2251), (0x26c4dfc, 0x2193), (0x26c4f73, 0x2010), (0x26e0c46, 0x22C4),
    (0x26e4f5d, 0x452), (0x26f6d48, 0x162), (0x26f9e6c, 0x1D555), (0x27073ff, 0x1D4B9),
    (0x27074ae, 0x455), (0x27090b5, 0x29F6), (0x270d4c6, 0x25BF), (0x2721fed, 0x45F),
    (0x272a7f6, 0x2256), (0x272a81e, 0xEA), (0x272f3d7, 0x117), (0x2752288, 0x20),
    (0x2755f91, 0x20), (0x275944d, 0x1D556), (0x275ade3, 0x22D5), (0x275d8f4, 0x3B5),
    (0x27669e0, 0x212F), (0x2767809, 0x2242), (0x276fbc6, 0xEB), (0x2770846, 0x20AC),
    (0x2779a77, 0x21), (0x27aafd2, 0x266D), (0x27b4ab4, 0x192), (0x27b8a2e, 0x1D557),
    (0x27b8f8d, 0x22D4), (0x27c5fc1, 0x1D4BB), (0x27c8460, 0x21D4), (0x27edf99, 0x121),
    (0x27f2139, 0x2267), (0x2803100, 0x453), (0x2811f61, 0x2A8A), (0x281293e, 0x2A88),
    (0x281800f, 0x1D558), (0x28255a2, 0x210A), (0x28263cb, 0x2273), (0x2829134, 0x2AA7),
    (0x28415ae, 0xBD), (0x2842580, 0x2194), (0x2843908, 0x210F), (0x28775f0, 0x1D559),
    (0x2884b83, 0x1D4BD), (0x28a7fa2, 0xEE), (0x28aeb95, 0x435), (0x28b1ce5, 0xA1),
    (0x28cef4e, 0x22B7), (0x28d4def, 0x451), (0x28d6bd1, 0x1D55A), (0x28d7518, 0x3B9),
    (0x28e4164, 0x1D4BE), (0x28e4fa6, 0x2208), (0x28ed34a, 0xEF), (0x29361b2, 0x1D55B),
    (0x2943745, 0x1D4BF), (0x2945be4, 0x21D0), (0x295dda2, 0x2962), (0x2978e72, 0x445),
    (0x2980884, 0x45C), (0x2995793, 0x1D55C), (0x29a2d26, 0x1D4C0), (0x29bf22d, 0x27E8),
    (0x29bfb12, 0xAB), (0x29bfd04, 0x2190), (0x29c00a1, 0x2AAD), (0x29c7cd9, 0x7B),
    (0x29c8dd7, 0x2936), (0x29cb596, 0x21B2), (0x29cee9e, 0x2266), (0x29dfe65, 0x459),
    (0x29eecc6, 0x2A89), (0x29ef6a3, 0x2A87), (0x29f4d74, 0x1D55D), (0x29f65de, 0x29EB),
    (0x29f670a, 0x28), (0x2a02307, 0x1D4C1), (0x2a03130, 0x2272), (0x2a043a5, 0x5B),
    (0x2a05e99, 0x2AA6), (0x2a083ce, 0x25C3), (0x2a1ce46, 0xAF), (0x2a1e2fa, 0x2642),
    (0x2a1e471, 0x2720), (0x2a3b6c2, 0xB5), (0x2a46d77, 0x2ADB), (0x2a4701a, 0x2026),
    (0x2a54355, 0x1D55E), (0x2a618e8, 0x1D4C2), (0x2a8280e, 0x20), (0x2a83925, 0x2A43),
    (0x2a869f9, 0x2A42), (0x2a93726, 0x2271), (0x2a95bde, 0x226F), (0x2a9d221, 0x22FA),
    (0x2a9ea27, 0x45A), (0x2aa65fb, 0x2025), (0x2aa6853, 0x2270)]"

definition ref_table_4 :: "(nat \<times> nat) list" where
  "ref_table_4 = [
   (0x2aaaddb, 0x2224), (0x2ab3936, 0x1D55F), (0x2ab52cc, 0x2226), (0x2ac0ec9, 0x1D4C3),
    (0x2ac1cf2, 0x2241), (0x2ac392b, 0x2284), (0x2ac3a89, 0x2285), (0x2ac5500, 0x2279),
    (0x2ac60b8, 0x2278), (0x2ade14a, 0x229B), (0x2ae42c0, 0x229A), (0x2ae42e8, 0xF4),
    (0x2ae802d, 0x2A38), (0x2ae8ea1, 0x2299), (0x2af4526, 0x2DB), (0x2afbd5d, 0x222E),
    (0x2b0a3bc, 0x29B6), (0x2b12f17, 0x1D560), (0x2b148ad, 0x29B7), (0x2b1c8e6, 0xAA),
    (0x2b1c995, 0xBA), (0x2b1e4ed, 0x2A56), (0x2b204aa, 0x2134), (0x2b22160, 0x2298),
    (0x2b29690, 0xF6), (0x2b3d2df, 0xB6), (0x2b3d4ba, 0x2202), (0x2b4c87a, 0x22A5),
    (0x2b56a32, 0x3D5), (0x2b67b57, 0x2B), (0x2b724f8, 0x1D561), (0x2b7321e, 0xA3),
    (0x2b7b86e, 0x2AB7), (0x2b7c0ed, 0x227A), (0x2b7d3f8, 0x2AB5), (0x2b7d970, 0x220F),
    (0x2b7da9c, 0x221D), (0x2b7fa8b, 0x1D4C5), (0x2b81f2a, 0x21D2), (0x2b9a0e8, 0x2964),
    (0x2bba91f, 0x2A0C), (0x2bd1ad9, 0x1D562), (0x2bdf06c, 0x1D4C6), (0x2be87fc, 0x22),
    (0x2bfb573, 0x27E9), (0x2bfbe58, 0xBB), (0x2bfc04a, 0x2192), (0x2c0401f, 0x7D),
    (0x2c0511d, 0x2937), (0x2c078dc, 0x21B3), (0x2c08a57, 0x211C), (0x2c09001, 0x25AD),
    (0x2c1649a, 0x3F1), (0x2c19dbb, 0x2DA), (0x2c310ba, 0x1D563), (0x2c32a50, 0x29),
    (0x2c3e64d, 0x1D4C7), (0x2c406eb, 0x5D), (0x2c44714, 0x25B9), (0x2c6068a, 0x2AB8),
    (0x2c62214, 0x2AB6), (0x2c66625, 0x22C5), (0x2c685e2, 0xA7), (0x2c69d39, 0x3B),
    (0x2c6b927, 0x2736), (0x2c73d7a, 0x448), (0x2c790f9, 0x2243), (0x2c7912b, 0x2A9E),
    (0x2c791a8, 0x2A9D), (0x2c87b40, 0x2223), (0x2c89634, 0x2AAC), (0x2c8fc73, 0x29C4),
    (0x2c9069b, 0x1D564), (0x2c92031, 0x2225), (0x2c98ce2, 0x25AA), (0x2c9dc2e, 0x1D4C8),
    (0x2ca00cd, 0x21D1), (0x2ca1455, 0x2606), (0x2ca4f6a, 0x2AC5), (0x2ca528a, 0x2286),
    (0x2ca54c9, 0x227B), (0x2ca6fa4, 0xB9), (0x2ca6fbd, 0xB2), (0x2ca6fd6, 0xB3),
    (0x2ca7008, 0x266A), (0x2ca7198, 0x2AC6), (0x2ca74b8, 0x2287), (0x2cb828b, 0x2963),
    (0x2cb9cb1, 0xDF), (0x2cbe866, 0x23B4), (0x2cc5c06, 0x20DB), (0x2cd502b, 0xFE),
    (0x2cd8712, 0xD7), (0x2cd8ac2, 0x222D), (0x2cee124, 0x2928), (0x2cefc7c, 0x1D565),
    (0x2cf0352, 0x2929), (0x2cfa267, 0x225C), (0x2cfd20f, 0x1D4C9), (0x2cfd2be, 0x446),
    (0x2cff6ae, 0x21D5), (0x2d00a36, 0x2AE8), (0x2d1a1ed, 0x2191), (0x2d2062e, 0xFB),
    (0x2d4f25d, 0x1D566), (0x2d53704, 0x3C5), (0x2d5c7f0, 0x1D4CA), (0x2d628b7, 0x25B5),
    (0x2d659d6, 0xFC), (0x2d797ce, 0x2195), (0x2d88c24, 0x7C), (0x2dae83e, 0x1D567),
    (0x2dbbdd1, 0x1D4CB), (0x2e0de1f, 0x1D568), (0x2e1b3b2, 0x1D4CC), (0x2e3d3ef, 0x22C2),
    (0x2e404c3, 0x22C3), (0x2e63649, 0x27FC), (0x2e68725, 0x22FB), (0x2e6d400, 0x1D569),
    (0x2e7a993, 0x1D4CD), (0x2e8644b, 0x22C1), (0x2e95581, 0x44F), (0x2eb3dc9, 0x457),
    (0x2ecc9e1, 0x1D56A), (0x2ed9f74, 0x1D4CE), (0x2ee1a35, 0x44E), (0x2ee315a, 0xFF),
    (0x2f01f4c, 0x17C), (0x2f066af, 0x3B6), (0x2f0f6a1, 0x436), (0x2f2bfc2, 0x1D56B),
    (0x2f39555, 0x1D4CF), (0x2f4a38c, 0x200C), (0x309d2b5, 0x212D), (0x35294a1, 0x27E8),
    (0x3f4c57d, 0x223D), (0x408970d, 0x228F), (0x41f9549, 0x21D3), (0x45c095b, 0x2290),
    (0x50d90d2, 0x2AB5), (0x510d364, 0x22E8), (0x5384136, 0x2AAF)]"

definition ref_table_5 :: "(nat \<times> nat) list" where
  "ref_table_5 = [
   (0x53d32b4, 0x227D), (0x5f06519, 0x2021), (0x6f8f073, 0x29F4), (0x72ceb45, 0x224E),
    (0x756d4e9, 0x2DD), (0x777ce63, 0x22E2), (0x77dc88f, 0x2A89), (0x87b264e, 0x2240),
    (0x89aba38, 0x21A0), (0x8bafb25, 0x200B), (0x8ff016a, 0x2018), (0x91d2979, 0x2953),
    (0x9b4b619, 0x21C3), (0x9b7ab7d, 0x2640), (0x9dbb3f8, 0x106), (0xa0d2b92, 0x21C4),
    (0xa376f34, 0xFB03), (0xa4950d7, 0xFB04), (0xaf90bb9, 0x10C), (0xafba2cd, 0x231C),
    (0xb0b8a79, 0x21BD), (0xb0d7de7, 0xC7), (0xbafc7ce, 0x2951), (0xc1c6a12, 0x166),
    (0xcf6d3c6, 0x5F), (0xd4c84b5, 0x22D4), (0xd5f888a, 0x229A), (0xd639911, 0x229D),
    (0xdb70e8b, 0x2A48), (0xdc1a018, 0x227E), (0xe66e777, 0x2A77), (0xed92163, 0xB7),
    (0xf00f5cf, 0x2234), (0xf813868, 0x2A34), (0xfa7974b, 0x2200), (0xfcaedaa, 0xDA),
    (0x102f699d, 0x2911), (0x108025c6, 0x21D5), (0x10b58d24, 0x16C), (0x10f17628, 0x21C2),
    (0x110130a2, 0xBD), (0x110130bb, 0x2153), (0x110130d4, 0xBC), (0x110130ed, 0x2155),
    (0x11013106, 0x2159), (0x11013138, 0x215B), (0x1101332c, 0x2154), (0x1101335e, 0x2156),
    (0x110135b6, 0xBE), (0x110135cf, 0x2157), (0x1101361a, 0x215C), (0x11013840, 0x2158),
    (0x11013aca, 0x215A), (0x11013afc, 0x215D), (0x11013fde, 0x215E), (0x1181acce, 0x170),
    (0x11b5f123, 0x21D5), (0x123605a3, 0x2A74), (0x124084a6, 0x222F), (0x129cf506, 0x21CC),
    (0x12e7b347, 0x25CA), (0x13486608, 0x2248), (0x139da7dd, 0xD9), (0x1411a33f, 0x2194),
    (0x15239f36, 0x21AC), (0x158d9b46, 0x2A01), (0x15a4a6c9, 0x2A02), (0x15ba275c, 0x1F5),
    (0x15c152c7, 0x224D), (0x15f3ab62, 0x3DD), (0x168eb51b, 0x200B), (0x16a4c6d6, 0x11F),
    (0x17e5776f, 0x2A06), (0x186978f9, 0x2A80), (0x186b48be, 0x2A94), (0x187d5bf5, 0x2021),
    (0x190bad1c, 0x2A04), (0x1936a323, 0x2249), (0x1986560a, 0x10E), (0x19c55b87, 0x23DD),
    (0x19f2168f, 0x22C0), (0x1a5f0ec1, 0x2230), (0x1a96b215, 0x29A6), (0x1acebbef, 0x27FA),
    (0x1afb9d0a, 0x168), (0x1ba85912, 0x266E), (0x1ba9610e, 0xFD), (0x1bb2c2ac, 0x29B1),
    (0x1befbb5e, 0x3F6), (0x1c81008a, 0x2AB0), (0x1d4ed766, 0x25B4), (0x1d8f2dd0, 0x29BB),
    (0x1db04a6b, 0xAE), (0x1db04a84, 0x24C8), (0x1f194bda, 0x3D5), (0x1f669e37, 0x294E),
    (0x1f7c4ef8, 0x2A10), (0x1fcd56f4, 0x22E2), (0x1fcd7922, 0x22E3), (0x200abe75, 0x2AE6),
    (0x20c89d18, 0x2A2A), (0x20e17c9a, 0x2223), (0x20e8c261, 0x20DC), (0x20f60555, 0x2995),
    (0x2100f745, 0x2016), (0x211dffb5, 0x2978), (0x211eafaf, 0x22D7), (0x212233e1, 0x2273),
    (0x21b8ca36, 0x2233), (0x21e621e6, 0x2AC6), (0x21e829eb, 0x228B), (0x2263f008, 0x2225),
    (0x22d88918, 0x2912), (0x234135c4, 0x22B8), (0x2347c502, 0x110), (0x236956ae, 0x2956),
    (0x246a7c7a, 0x20), (0x24801dfa, 0x210B), (0x2492be72, 0x2288), (0x249ca4b6, 0x44A),
    (0x24b49d3c, 0x2192), (0x250346ef, 0x223C), (0x250a5f6c, 0x227F), (0x268999a6, 0x227A),
    (0x268edc12, 0x2665), (0x26c6536b, 0x2289), (0x26cee361, 0x2026), (0x26f08fca, 0x22B9),
    (0x26f6489a, 0xC9), (0x272bd19e, 0x21DB), (0x278bd14d, 0xC6), (0x278d7383, 0x2D9),
    (0x27a18e68, 0x22EB), (0x27c73d67, 0x2A7D), (0x2813a05b, 0x11A), (0x2830af53, 0xC1),
    (0x283e0025, 0xC2), (0x285181f7, 0x2961), (0x2857d57e, 0xC0), (0x287537b1, 0x391),
    (0x28778f7f, 0x100), (0x2885065f, 0x104), (0x28975ef4, 0xC5)]"

definition ref_table_6 :: "(nat \<times> nat) list" where
  "ref_table_6 = [
   (0x28a345b3, 0xC3), (0x292b811f, 0x2D8), (0x2966f08c, 0xC7), (0x29680617, 0x108),
    (0x29b03d7e, 0x2237), (0x29c2e07d, 0x2A2F), (0x29f36919, 0x2AE4), (0x2a09b09d, 0x394),
    (0x2a36ab5f, 0x17A), (0x2a4eacb6, 0x2193), (0x2a84bb37, 0xC9), (0x2a920c09, 0xCA),
    (0x2a92a56f, 0x22AA), (0x2aabe162, 0xC8), (0x2ac902cd, 0xC8), (0x2acb9b63, 0x112),
    (0x2ad91243, 0x118), (0x2ae0a58f, 0x311), (0x2ae38d45, 0x3B5), (0x2ae83223, 0x2A75),
    (0x2b540320, 0x17E), (0x2b7f4e01, 0x22E0), (0x2bb10df6, 0x393), (0x2bbc11fb, 0x11C),
    (0x2c431084, 0x2031), (0x2c439c07, 0x2C7), (0x2c5114f4, 0x124), (0x2c51b67a, 0x132),
    (0x2c966133, 0x2128), (0x2ca8dd37, 0x223B), (0x2cc24eb1, 0x2015), (0x2cd8c71b, 0xCD),
    (0x2ce617ed, 0xCE), (0x2cffed46, 0xCC), (0x2d118a9f, 0x2194), (0x2d1fa747, 0x12A),
    (0x2d2d1e27, 0x12E), (0x2d51b958, 0x406), (0x2d7b1ae6, 0x134), (0x2de6bc51, 0x404),
    (0x2e05d848, 0x39A), (0x2e3a3725, 0x2AB9), (0x2ea36c7f, 0x2292), (0x2ed53648, 0x25B3),
    (0x2ef2853e, 0x210F), (0x2f158fcf, 0x21C7), (0x2f263866, 0x127), (0x2f41cea2, 0x3BF),
    (0x2f9da9b8, 0x2232), (0x2fb1faeb, 0x152), (0x30346c58, 0xD1), (0x30446b4c, 0x2255),
    (0x3056d8f1, 0xD3), (0x306429c3, 0xD4), (0x307dff1c, 0xD2), (0x3092b4cc, 0x2299),
    (0x309db91d, 0x14C), (0x309eb55c, 0x3A9), (0x30c4172a, 0xD8), (0x30c96f51, 0xD5),
    (0x30d0885e, 0x21A3), (0x30d20a6a, 0x22CE), (0x30f565a9, 0xB8), (0x30f8a7d2, 0x295D),
    (0x315288e8, 0x2033), (0x315c99dc, 0x2910), (0x3160a83e, 0x22CF), (0x3181dc43, 0xB1),
    (0x3239b04b, 0x2043), (0x3289f83f, 0x2010), (0x32a5c6ce, 0xDE), (0x32b835a7, 0x15C),
    (0x32d4bbfe, 0xED), (0x32db7274, 0x3A3), (0x32dde80b, 0x2122), (0x32e5d9ee, 0x40B),
    (0x33368286, 0x21D2), (0x335bd564, 0x2276), (0x336a1691, 0x398), (0x33719105, 0x223C),
    (0x33bc92f9, 0x22AB), (0x33d4eac7, 0xDA), (0x33de4890, 0x40E), (0x33e23b99, 0xDB),
    (0x33e6f14b, 0x21AB), (0x33fc10f2, 0xD9), (0x341bcaf3, 0x16A), (0x3423c604, 0x22C3),
    (0x342941d3, 0x172), (0x342a96be, 0x22A5), (0x343b9a68, 0x16E), (0x344402f9, 0x2262),
    (0x345494fa, 0x22B4), (0x347b4f19, 0x22A9), (0x347cd78b, 0x2203), (0x350c418b, 0x174),
    (0x3516e177, 0x22C0), (0x351ee749, 0x21E5), (0x3621c671, 0x210B), (0x3628f6ab, 0xDD),
    (0x3636477d, 0x176), (0x3642a8ad, 0x7C), (0x36a77631, 0xEC), (0x36aaf72c, 0x203E),
    (0x3701e3a6, 0x2226), (0x379938a4, 0x2216), (0x379dad71, 0x2A0C), (0x37bab6f0, 0x29DC),
    (0x38c20d76, 0x2226), (0x3913f6a5, 0x2279), (0x3936f62b, 0x2270), (0x394714ac, 0x2135),
    (0x396dcb11, 0x22A4), (0x399dfedf, 0x2232), (0x3a61190d, 0x2105), (0x3a6837a7, 0x2950),
    (0x3a9cd2cd, 0x2A78), (0x3aa950d8, 0x131), (0x3ac6be3e, 0x22BA), (0x3ad10e73, 0xE1),
    (0x3ade5f45, 0xE2), (0x3ae140c5, 0xB4), (0x3aeaec8d, 0xE6), (0x3af8349e, 0xE0),
    (0x3b130ba5, 0x2135), (0x3b15638f, 0x21CD), (0x3b1596d1, 0x3B1), (0x3b17ee9f, 0x101),
    (0x3b180385, 0x2A3F), (0x3b1f676a, 0x2220), (0x3b1f7787, 0x221F), (0x3b1f79f8, 0xC5),
    (0x3b25657f, 0x105), (0x3b37be14, 0xE5), (0x3b4182f5, 0x2248), (0x3b43a4d3, 0xE3),
    (0x3b558cbe, 0x2A11), (0x3b74c714, 0x224C), (0x3b7b48e6, 0x201E), (0x3b80fc46, 0x3F6),
    (0x3ba715e3, 0x2423), (0x3ba8ddbf, 0x2592), (0x3ba8ddf1, 0x2591)]"

definition ref_table_7 :: "(nat \<times> nat) list" where
  "ref_table_7 = [
   (0x3ba8e2d3, 0x2593), (0x3baa5186, 0x2588), (0x3bbe09c4, 0x2557), (0x3bbe0a5a, 0x2554),
    (0x3bbe0ce4, 0x2556), (0x3bbe0d7a, 0x2553), (0x3bbe12c0, 0x2566), (0x3bbe1469, 0x2569),
    (0x3bbe15e0, 0x2564), (0x3bbe1789, 0x2567), (0x3bbe3345, 0x255D), (0x3bbe33db, 0x255A),
    (0x3bbe3552, 0x256C), (0x3bbe35b6, 0x2563), (0x3bbe364c, 0x2560), (0x3bbe3665, 0x255C),
    (0x3bbe36fb, 0x2559), (0x3bbe3872, 0x256B), (0x3bbe38d6, 0x2562), (0x3bbe396c, 0x255F),
    (0x3bbe57e4, 0x2555), (0x3bbe587a, 0x2552), (0x3bbe5b04, 0x2510), (0x3bbe5b9a, 0x250C),
    (0x3bbe60e0, 0x2565), (0x3bbe6289, 0x2568), (0x3bbe6400, 0x252C), (0x3bbe65a9, 0x2534),
    (0x3bbe8165, 0x255B), (0x3bbe81fb, 0x2558), (0x3bbe8372, 0x256A), (0x3bbe83d6, 0x2561),
    (0x3bbe846c, 0x255E), (0x3bbe8485, 0x2518), (0x3bbe851b, 0x2514), (0x3bbe8692, 0x253C),
    (0x3bbe86f6, 0x2524), (0x3bbe878c, 0x251C), (0x3bcbe03f, 0x2D8), (0x3bcd1a10, 0x2A7C),
    (0x3bcfbcd7, 0xA6), (0x3bd1c08b, 0x204F), (0x3bd2b44b, 0x22CD), (0x3bd41fc5, 0x29C5),
    (0x3bdf9864, 0x2AAE), (0x3bdf9b84, 0x224F), (0x3bee13d3, 0x2913), (0x3bfe80b2, 0x2041),
    (0x3bfe9886, 0x2C7), (0x3c06799d, 0x2A4D), (0x3c074fac, 0xE7), (0x3c086537, 0x109),
    (0x3c0b3e51, 0x2A4C), (0x3c130ab4, 0xB8), (0x3c251aa1, 0x2713), (0x3c2c7807, 0x2277),
    (0x3c3d10ff, 0x2A83), (0x3c40c10c, 0x2663), (0x3c509c9e, 0x3A), (0x3c50d380, 0x2C),
    (0x3c5fe695, 0x21B5), (0x3c633f9d, 0x2717), (0x3c6a78d5, 0x2AD1), (0x3c6a9b03, 0x2AD2),
    (0x3c6c8251, 0x22EF), (0x3c70ccf3, 0x2A77), (0x3c72b77a, 0x22DE), (0x3c72bd56, 0x22DF),
    (0x3c75546c, 0x2A45), (0x3c75d4bf, 0xA4), (0x3c76a8f3, 0x22CE), (0x3c76e5e3, 0x22CF),
    (0x3c7f92b0, 0x2231), (0x3c8c63d6, 0xBF), (0x3c93c839, 0x22A3), (0x3c97ffe9, 0x2DD),
    (0x3ca17740, 0x21CA), (0x3caa0fbd, 0x3B4), (0x3cb94e2e, 0x21C3), (0x3cb94ec4, 0x21C2),
    (0x3cba8728, 0x2AC5), (0x3cbc8f2d, 0x228A), (0x3cbf3889, 0x2666), (0x3cc378ea, 0x22F2),
    (0x3cc42f35, 0xF7), (0x3ce76fc0, 0x2250), (0x3cef0bd6, 0x21D3), (0x3d01854a, 0x22F1),
    (0x3d04cbc4, 0x25BE), (0x3d06cb31, 0x21F5), (0x3d084cef, 0x296F), (0x3d251a57, 0xE9),
    (0x3d2c4e3e, 0x2952), (0x3d326b29, 0xEA), (0x3d3b74d5, 0x2252), (0x3d4c4082, 0xE8),
    (0x3d6bfa83, 0x113), (0x3d6fb83a, 0x2205), (0x3d7108bf, 0x22F3), (0x3d797163, 0x119),
    (0x3d80a794, 0x2A71), (0x3d8235d2, 0x3F5), (0x3d82fb61, 0x2253), (0x3d882ad2, 0x2242),
    (0x3d88a5c5, 0x2261), (0x3d89ec87, 0x2971), (0x3d909262, 0x2250), (0x3daf9ab8, 0x2203),
    (0x3dd9f14b, 0xFB00), (0x3debd2ee, 0xFB01), (0x3deee5ab, 0x2235), (0x3df6ac0b, 0x2200),
    (0x3dfdb491, 0xFB02), (0x3dffaa3a, 0x25B1), (0x3e056b5e, 0x129), (0x3e06a985, 0x2196),
    (0x3e110ac3, 0x2AD9), (0x3e1ec47f, 0xBD), (0x3e1ec481, 0xBC), (0x3e1ec4b3, 0xBE),
    (0x3e1ef15b, 0x2044), (0x3e2251cf, 0x2322), (0x3e516d16, 0x3B3), (0x3e5c711b, 0x11D),
    (0x3e6a9a98, 0x2AA9), (0x3e74ebf6, 0x222F), (0x3e8109a9, 0x2137), (0x3e9d0c8f, 0x2269),
    (0x3ea04f21, 0x22E7), (0x3eb3faf8, 0x60), (0x3ebbc328, 0x2A8E), (0x3ebbc3d7, 0x2A90),
    (0x3ec04254, 0x2A7A), (0x3ec08e35, 0x22D7), (0x3ee7af97, 0x21AD), (0x3ef17414, 0x125),
    (0x3f3713cf, 0x21FF), (0x3f79263b, 0xED), (0x3f86770d, 0xEE), (0x3f8c9e36, 0x42A),
    (0x3f95d298, 0xA1), (0x3fa04c66, 0xEC), (0x3faa3238, 0x222D)]"

definition ref_table_8 :: "(nat \<times> nat) list" where
  "ref_table_8 = [
   (0x3fabad39, 0x2129), (0x3fb0d1ba, 0x133), (0x3fb20043, 0x2191), (0x3fc00667, 0x12B),
    (0x3fc00ee6, 0x2111), (0x3fc02eee, 0x131), (0x3fc39d72, 0x1B5), (0x3fc73bb7, 0x221E),
    (0x3fcd7d47, 0x12F), (0x3fd61191, 0x2A3C), (0x3fdca7d3, 0xBF), (0x3fe5c86b, 0x22F9),
    (0x3fe5cce9, 0x22F4), (0x3fe5cd34, 0x2208), (0x3ff21878, 0x456), (0x401b7a06, 0x135),
    (0x40546046, 0x227D), (0x405531e7, 0x237), (0x4078f145, 0x21DA), (0x407ee726, 0x290E),
    (0x40871b71, 0x454), (0x40a63768, 0x3BA), (0x40c71b2d, 0x21AA), (0x40cecf8c, 0x2254),
    (0x4118e4bb, 0x223A), (0x413aaaa1, 0x2991), (0x413b84fd, 0xAB), (0x413bb96e, 0x21E4),
    (0x413da346, 0x290C), (0x413ddfa0, 0x2772), (0x41419e83, 0x298B), (0x414476bc, 0x2308),
    (0x414d66a0, 0x201C), (0x4153a975, 0x2AA8), (0x4161652e, 0x21BD), (0x416166d7, 0x21BC),
    (0x41619440, 0x2584), (0x41793e10, 0x21C7), (0x417dc4da, 0x25FA), (0x41861b6c, 0x2268),
    (0x41895dfe, 0x22E6), (0x418b14dc, 0x27EC), (0x418b1fb3, 0x21FD), (0x418b5c0d, 0x27E6),
    (0x418e89b9, 0x2985), (0x419d0156, 0x21C6), (0x419e8314, 0x21CB), (0x41a18820, 0x22BF),
    (0x41a4d205, 0x2A8D), (0x41a4d237, 0x2A8F), (0x41a6cecf, 0x2018), (0x41a95131, 0x2A79),
    (0x41a99d12, 0x22D6), (0x41ace373, 0x22B4), (0x41ace38c, 0x25C2), (0x41c0550d, 0x2274),
    (0x41c6dcd1, 0x2A6D), (0x41de9378, 0x2014), (0x41f376e5, 0x2266), (0x41fcd92d, 0xB5),
    (0x41fcf441, 0xB7), (0x41ff8047, 0x2212), (0x420d5a92, 0x22C2), (0x424698ab, 0x22B8),
    (0x426106c9, 0x21CA), (0x4261e011, 0x2207), (0x42653fa4, 0x149), (0x42664255, 0x266E),
    (0x4270eac0, 0x2247), (0x4271e9bb, 0x21D7), (0x42739671, 0x2013), (0x42798adb, 0x2197),
    (0x4283cb5e, 0x21CE), (0x4289aac9, 0x2275), (0x428b6c7e, 0x21AE), (0x428ed684, 0x2AF2),
    (0x429ba2e2, 0x21CD), (0x42a34402, 0x219A), (0x42a43ab0, 0x226E), (0x42a7782e, 0x2274),
    (0x42a7cacc, 0x22EA), (0x42b996f3, 0x2209), (0x42b9a2ab, 0x220C), (0x42bf07eb, 0x2280),
    (0x42bf6628, 0x21CF), (0x42c70748, 0x219B), (0x42cb8e12, 0x22EB), (0x42ced7f7, 0x2244),
    (0x42cfc23e, 0x2224), (0x42d029ff, 0x291F), (0x42d0672f, 0x2226), (0x42d19988, 0x2288),
    (0x42d19bc7, 0x2281), (0x42d1bbb6, 0x2289), (0x42d43e55, 0x2973), (0x42d4cb78, 0xF1),
    (0x42dbc796, 0x20), (0x42dd338d, 0x21D6), (0x42e4d4ad, 0x2196), (0x42f73811, 0xF3),
    (0x430488e3, 0xF4), (0x4308996a, 0x229D), (0x4311162b, 0x153), (0x4314e7ce, 0x29BF),
    (0x431e5e3c, 0xF2), (0x432082ff, 0x29B5), (0x4327128e, 0x29A7), (0x433846fb, 0x21BA),
    (0x4338ab14, 0x29BE), (0x433a243a, 0x203E), (0x433e183d, 0x14D), (0x433f147c, 0x3C9),
    (0x43511271, 0x29B9), (0x4352c54e, 0x2295), (0x435c0a41, 0x21BB), (0x435ca19f, 0x2134),
    (0x4364764a, 0xF8), (0x4369ce71, 0xF5), (0x4373f54d, 0x233D), (0x438fc8bd, 0x2AFD),
    (0x43b8bde5, 0x260E), (0x43d20f89, 0x229E), (0x43d20fd4, 0x2A72), (0x43d210cf, 0xB1),
    (0x43d619d4, 0x2305), (0x43e3e529, 0xA3), (0x43f18d5a, 0x227C), (0x43f2e808, 0x2032),
    (0x43f3fcfc, 0x2AB9), (0x43f54166, 0x227E), (0x43f7031b, 0x21DB), (0x43fcf8fc, 0x290F),
    (0x441a3eda, 0x29B0), (0x444a6142, 0x3DC), (0x4498e89d, 0x3F), (0x44b65ee6, 0x221A),
    (0x44b8bc77, 0x2992), (0x44b8bc90, 0x29A5), (0x44b996d3, 0xBB), (0x44b9cb44, 0x21E5),
    (0x44b9cb5d, 0x2933), (0x44b9cd51, 0x219D), (0x44ba30a2, 0x2236)]"

definition ref_table_9 :: "(nat \<times> nat) list" where
  "ref_table_9 = [
   (0x44bbb51c, 0x290D), (0x44bbf176, 0x2773), (0x44bfb059, 0x298C), (0x44c28892, 0x2309),
    (0x44cb7876, 0x201D), (0x44cd8832, 0x211D), (0x44df7704, 0x21C1), (0x44df78ad, 0x21C0),
    (0x44f74fe6, 0x21C4), (0x44f8d1a4, 0x21CC), (0x44fb7cb6, 0x11E), (0x450600bd, 0x2AEE),
    (0x450926b2, 0x27ED), (0x45093189, 0x21FE), (0x45096de3, 0x27E7), (0x450c9b8f, 0x2986),
    (0x451b132c, 0x21C9), (0x4524e0a5, 0x2019), (0x452af549, 0x22B5), (0x452af562, 0x25B8),
    (0x4542a72b, 0x122), (0x45548fad, 0x201A), (0x45572e16, 0x227D), (0x455894c7, 0x15D),
    (0x45599db8, 0x2ABA), (0x455ae222, 0x227F), (0x455af898, 0x21D8), (0x455ffda7, 0x22A1),
    (0x455ffdf2, 0x2A66), (0x456299b8, 0x2198), (0x456714ca, 0x2216), (0x45747b29, 0x266F),
    (0x457bd194, 0x3C3), (0x457d2dd2, 0x2243), (0x457d2e68, 0x2AA0), (0x457d3a9d, 0x2A9F),
    (0x457d429f, 0x2246), (0x45821e9e, 0x21BB), (0x458c52df, 0x2190), (0x4594211d, 0x2323),
    (0x45aa70a3, 0x2293), (0x45aaa177, 0x2294), (0x45ae70a9, 0x228F), (0x45ae7207, 0x2290),
    (0x45b01625, 0x2192), (0x45bc00bb, 0x2605), (0x45c005d5, 0xAF), (0x45c226a8, 0x2ACB),
    (0x45c229c8, 0x228A), (0x45c57d26, 0x2ACC), (0x45c58046, 0x228B), (0x45c6426a, 0x21D9),
    (0x45cde38a, 0x2199), (0x45e24d84, 0xDF), (0x45fd62cd, 0x21BE), (0x460a753d, 0x21AE),
    (0x460a75b1, 0x3B8), (0x460bb6fb, 0x2248), (0x460cd46e, 0xFE), (0x4611f025, 0x2DC),
    (0x461230fd, 0xD7), (0x4644f5ab, 0x2122), (0x46470247, 0x29CD), (0x464c964e, 0x45B),
    (0x46510544, 0x2AE9), (0x465cf219, 0x22A8), (0x4664dda3, 0x226C), (0x467549e7, 0xFA),
    (0x467ea7b0, 0x45E), (0x46829ab9, 0xFB), (0x4686a9c9, 0x21C5), (0x46882b87, 0x296E),
    (0x469c7012, 0xF9), (0x469e80b7, 0x21BF), (0x469e814d, 0x21BE), (0x469eaf01, 0x2580),
    (0x46a37f12, 0x295F), (0x46abcf2b, 0x29DE), (0x46badf9b, 0x25F8), (0x46bc2a13, 0x16B),
    (0x46c9a0f3, 0x173), (0x46d0d724, 0x228E), (0x46d26404, 0x3D2), (0x46dbf988, 0x16F),
    (0x46dea2e1, 0x25F9), (0x46e6b7d3, 0x22F0), (0x46e9fe4d, 0x25B4), (0x46ebfdba, 0x21C8),
    (0x470dd2f5, 0x3D6), (0x471bae39, 0x22A2), (0x472276f1, 0x225A), (0x474fe294, 0x22B2),
    (0x47636c35, 0x22EC), (0x47673962, 0x221D), (0x4773a5da, 0x22B3), (0x47aca0ab, 0x175),
    (0x47b74097, 0x2227), (0x4841a3a4, 0x25EF), (0x484a397e, 0x25BD), (0x485347ad, 0x226C),
    (0x4855e918, 0x27FA), (0x485d8a38, 0x27F7), (0x486dc09c, 0x27F8), (0x487561bc, 0x27F5),
    (0x4887f359, 0x2A00), (0x489183e2, 0x27F9), (0x48922c2d, 0x21DA), (0x48992502, 0x27F6),
    (0x48af8d6f, 0x25B3), (0x48c955cb, 0xFD), (0x48d6a69d, 0x177), (0x493a95a1, 0x2190),
    (0x497856e3, 0x2195), (0x498162ac, 0x22B2), (0x49aee898, 0x22E3), (0x49ce8ebf, 0x2251),
    (0x4a0016ee, 0xDD), (0x4a00a663, 0x21CC), (0x4abc8b79, 0x2197), (0x4ac5b851, 0x21BE),
    (0x4b4defd1, 0x25AA), (0x4be748eb, 0x458), (0x4c29422e, 0x21CB), (0x4c3cb0e2, 0x291B),
    (0x4c75b504, 0x231E), (0x4cb27e20, 0x27FF), (0x4d4d7f98, 0x22EC), (0x4de122bb, 0x22ED),
    (0x4dec04dc, 0x29EB), (0x4e077326, 0x2209), (0x4e496866, 0x2238), (0x4ed2a9d9, 0x2AC3),
    (0x4ed4648a, 0x2A86), (0x4ed898d7, 0x22C4), (0x4f065f27, 0x2AC1), (0x4f163159, 0x2ABF),
    (0x4f1f764c, 0x2979), (0x4f5f4542, 0x227F), (0x4fac1d74, 0x2ACC), (0x503b6f26, 0x3F0),
    (0x50aa9c8d, 0x2060), (0x50abc52b, 0x2196), (0x51195284, 0x29D0)]"

definition ref_table_10 :: "(nat \<times> nat) list" where
  "ref_table_10 = [
   (0x51211a8f, 0x137), (0x512a187f, 0x2240), (0x5137d5f1, 0x298F), (0x5137d79a, 0x298D),
    (0x513bee13, 0x2191), (0x520ea753, 0x3DD), (0x525d3407, 0x27FC), (0x53b18aa3, 0x2213),
    (0x53c2d657, 0x138), (0x53e8832d, 0x2660), (0x55b977fc, 0x2192), (0x56249243, 0x25BD),
    (0x56b4e0ce, 0x21C5), (0x56ca639d, 0x2A7B), (0x56f67e01, 0x2AD8), (0x56f8d377, 0x2AC4),
    (0x570e47d9, 0x27C9), (0x570e5585, 0x2AD7), (0x5721dca4, 0x297B), (0x572c88c5, 0x2AC2),
    (0x573c5af7, 0x2AC0), (0x57d36a6f, 0x22BE), (0x57ea73c9, 0x2204), (0x57fe8998, 0x237C),
    (0x5872fd37, 0x2289), (0x587e0bfb, 0x230B), (0x588d613f, 0x179), (0x589113e6, 0x2193),
    (0x58e42222, 0x2250), (0x59344523, 0xB7), (0x59aab900, 0x17D), (0x59bb67cb, 0x2293),
    (0x59e2dfd9, 0x25B5), (0x5acde3f4, 0x21D0), (0x5b0c42fd, 0x2288), (0x5b418223, 0x21A2),
    (0x5bde26fa, 0x21C4), (0x5c1ce528, 0x226D), (0x5c8efaee, 0x2758), (0x5d119a9d, 0x2243),
    (0x5d7cee46, 0x126), (0x5dec0d14, 0x22DA), (0x5e7c9af1, 0x13A), (0x5e938dd8, 0x2112),
    (0x5eb3869c, 0x3BB), (0x5eb4ceb6, 0x2210), (0x5eb91e40, 0x296E), (0x5ebac196, 0x27E8),
    (0x5ed52b35, 0x291D), (0x5ed52f4f, 0x21A9), (0x5ed53990, 0x21AB), (0x5ed542f0, 0x2939),
    (0x5ed54cb4, 0x21A2), (0x5edd1002, 0x2919), (0x5ee7dfdc, 0x2309), (0x5f004f8d, 0x2198),
    (0x5f6617e4, 0x7B), (0x5f66187a, 0x5B), (0x5f99f2b2, 0x13E), (0x5fae64e0, 0x13C),
    (0x608f0b3a, 0x201E), (0x60c2f8b6, 0x2A3A), (0x60d44b56, 0x2226), (0x612b71de, 0xCD),
    (0x612bec8e, 0x2A7F), (0x612c8b26, 0x2A93), (0x6188d72d, 0x297C), (0x6199d591, 0x230A),
    (0x61a79c15, 0x20), (0x624cd5a0, 0x2A82), (0x62831003, 0x296A), (0x62896053, 0x224C),
    (0x62ee1150, 0x2252), (0x63dc4d33, 0x21D1), (0x64510907, 0x2201), (0x64a60356, 0x211C),
    (0x64c199ca, 0x2A8A), (0x64fcbf5a, 0x296B), (0x64fe2c11, 0xCC), (0x6584e694, 0x2665),
    (0x6598698c, 0x140), (0x659af97f, 0x2248), (0x65b9d506, 0x2198), (0x65c0442f, 0x23B0),
    (0x65d61e09, 0x2AA1), (0x65ed3bde, 0x2966), (0x66b68f3a, 0x21C6), (0x66c0ff4e, 0x2959),
    (0x66d8c212, 0x2949), (0x66ee1f7a, 0x2A2D), (0x67153475, 0x2217), (0x6715455a, 0x5F),
    (0x672b129a, 0x2993), (0x6859d71c, 0x21D2), (0x68615519, 0x2A58), (0x687ad130, 0x296D),
    (0x68e9f3f8, 0x2039), (0x69125d3a, 0x21A9), (0x694a37d1, 0x201A), (0x695b61aa, 0x142),
    (0x6969acc2, 0x212C), (0x69a8c517, 0x22CB), (0x69ad8b29, 0x22C9), (0x69bcb004, 0x2976),
    (0x69dc3c30, 0x2996), (0x6a121779, 0x29CF), (0x6b7df330, 0x2ADA), (0x6ba90eb8, 0x2199),
    (0x6c5c213e, 0x128), (0x6c7df416, 0x25BE), (0x6cab17d9, 0x25C2), (0x6cba84a6, 0x21B6),
    (0x6ce2de83, 0x226E), (0x6d320693, 0x23B4), (0x6d56e897, 0x21A6), (0x6d60c7bd, 0x25AE),
    (0x6dcce91c, 0x220F), (0x6e1f6eb5, 0x3A5), (0x6e25f88c, 0x2967), (0x6e7977fd, 0x2A29),
    (0x6e7e22a5, 0x22B2), (0x6eca752f, 0x2237), (0x6f1627ad, 0x2208), (0x6f682529, 0x2955),
    (0x6fa5f42c, 0x2A7D), (0x701ad00e, 0x2A23), (0x70eafa46, 0x2A8C), (0x71b32d3d, 0x2A),
    (0x71b38eb3, 0x2AF0), (0x71b3da94, 0xB7), (0x71f38af9, 0x229F), (0x71f38b2b, 0x2238),
    (0x72187200, 0x227C), (0x74318465, 0x21BD), (0x747281c7, 0x22AF), (0x74e666d2, 0x2213),
    (0x75271e54, 0x2134), (0x75313de7, 0x22AE), (0x75322207, 0x22A7), (0x76934a43, 0x2195),
    (0x76ffb9f9, 0x2A16), (0x77c72484, 0x23DE), (0x77e832b1, 0x223E)]"

definition ref_table_11 :: "(nat \<times> nat) list" where
  "ref_table_11 = [
   (0x77f234bf, 0x2AA2), (0x78768019, 0x201D), (0x794fdada, 0x226B), (0x7950591b, 0x225F),
    (0x798c9ef3, 0x2224), (0x79babe5a, 0x20), (0x7a3dfecb, 0x408), (0x7a812786, 0x25EF),
    (0x7a99b228, 0x229F), (0x7ac7773b, 0x2A00), (0x7ad869ec, 0x2204), (0x7ae2fcef, 0x2605),
    (0x7b23bb23, 0x21C8), (0x7b69d709, 0x229B), (0x7b972f93, 0x144), (0x7c1e1df3, 0x2AB8),
    (0x7c487f4c, 0x221D), (0x7cababae, 0x226F), (0x7cb48754, 0x148), (0x7cc8f982, 0x146),
    (0x7cd64237, 0x2147), (0x7d03b6be, 0x2218), (0x7d4a1f2d, 0x2A81), (0x7da0dc41, 0x22D6),
    (0x7da19f5f, 0x2276), (0x7da46073, 0x2272), (0x7dde7be4, 0x2924), (0x7e0b4f4f, 0x2A57),
    (0x7e3e9493, 0x2262), (0x7e469bd9, 0x2928), (0x7e4e8dfc, 0x210D), (0x7e658986, 0x2204),
    (0x7eac62de, 0x22A0), (0x7f6d7f9a, 0x219B), (0x7f71edef, 0x295C), (0x7f77d06f, 0x136),
    (0x7fb8df53, 0x22CC), (0x8053b324, 0x2146), (0x8059456d, 0x23DC), (0x80832514, 0x2124),
    (0x80c4117d, 0x22BA), (0x80ee7029, 0x25BF), (0x80fcfb61, 0x2190), (0x811b93ec, 0x25C3),
    (0x8165fa0f, 0x27F7), (0x8262d241, 0x22EC), (0x82d245c7, 0x22C7), (0x8367016f, 0x21A4),
    (0x837954d5, 0x2294), (0x83c18f60, 0x230A), (0x843c1dc5, 0x21C0), (0x847576e0, 0x2A17),
    (0x8476992f, 0x2AE4), (0x84a77c28, 0x22E0), (0x850b0ea2, 0x2A7E), (0x8512fc69, 0x2957),
    (0x8532408d, 0x200B), (0x85e0e417, 0x22ED), (0x860d1ce4, 0x22E1), (0x862e5e9a, 0x29E4),
    (0x86331ca0, 0x2244), (0x86667446, 0x2970), (0x8679d82d, 0x2287), (0x86c7def3, 0xF1),
    (0x8712e0e7, 0x22AD), (0x872ab6f4, 0x2904), (0x87733159, 0x2116), (0x87b4458f, 0x2061),
    (0x87d19d07, 0x22AC), (0x87f9a978, 0x2902), (0x8816a13c, 0x210E), (0x881d6cbe, 0x2903),
    (0x8858b166, 0x2923), (0x88740f56, 0x23B1), (0x88a303f6, 0x2927), (0x88ca64ac, 0x21C0),
    (0x8983a915, 0x22DB), (0x8a2479e4, 0xF3), (0x8a662557, 0x2910), (0x8a9961b7, 0x22A2),
    (0x8b434af0, 0x2A96), (0x8bdb3908, 0x151), (0x8c06f7bd, 0x2278), (0x8c415f08, 0x29BC),
    (0x8c55855e, 0x2663), (0x8c8589cc, 0x210C), (0x8ca1f7c0, 0x211A), (0x8cd350d1, 0x139),
    (0x8d0a3c7c, 0x39B), (0x8df0a892, 0x13D), (0x8df73417, 0xF2), (0x8e051ac0, 0x13B),
    (0x8e5145a6, 0xB4), (0x8f27dafe, 0x2271), (0x90b216f7, 0x29A8), (0x90b21710, 0x29A9),
    (0x90b21729, 0x29AA), (0x90b21742, 0x29AB), (0x90b2175b, 0x29AC), (0x90b21774, 0x29AD),
    (0x90b2178d, 0x29AE), (0x90b217a6, 0x29AF), (0x9142b966, 0x2296), (0x91b8fdd9, 0x2112),
    (0x91c52e43, 0x231D), (0x9223ffd9, 0x60), (0x930758b4, 0x27E9), (0x932416c0, 0x2938),
    (0x93241756, 0x2935), (0x934da91e, 0x2A39), (0x9364b4a1, 0x2A3B), (0x939d5a81, 0x21D0),
    (0x939f669e, 0x2948), (0x93a56913, 0x299D), (0x93d8a62d, 0x2A22), (0x93dc7640, 0x2A26),
    (0x93dcd5a9, 0x2A27), (0x93ef1f6c, 0x13F), (0x9406bfac, 0x2A85), (0x942a0d19, 0x22B6),
    (0x9441d234, 0x2666), (0x94cf8d75, 0xF8), (0x95552944, 0xF5), (0x95556a1c, 0x2297),
    (0x95887698, 0x2A36), (0x95a34e42, 0x21C6), (0x95fed6bc, 0x21DD), (0x96065571, 0x27F8),
    (0x964ac3de, 0x2A35), (0x9773b759, 0x2A50), (0x97b139e0, 0x2275), (0x97b2178a, 0x141),
    (0x97cc2eec, 0x293D), (0x980588c2, 0x232E), (0x984680ca, 0x2312), (0x986ab2e4, 0x2960),
    (0x9873203a, 0x2313), (0x98759238, 0x2225), (0x990a983f, 0x2AF3), (0x9980e1a4, 0x2A84),
    (0x9981f506, 0x2DC), (0x99ac9372, 0x2A95), (0x99bb5e81, 0x2247)]"

definition ref_table_12 :: "(nat \<times> nat) list" where
  "ref_table_12 = [
   (0x9b202e57, 0x21D2), (0x9b43e861, 0x2296), (0x9b4a4077, 0x293C), (0x9b5ae077, 0x25),
    (0x9b5c4f8e, 0x2E), (0x9b5d35d4, 0x2030), (0x9b648be1, 0x294F), (0x9cfe5e9a, 0x2133),
    (0x9e5c7fac, 0x2260), (0x9e9c72bb, 0x2224), (0x9f0b24fc, 0x210F), (0x9f0b3997, 0x210F),
    (0x9f4780ef, 0x25B9), (0x9f53bd57, 0x2AB7), (0x9f569917, 0x2297), (0x9f838e92, 0x2214),
    (0x9f838f28, 0x2A25), (0x9f83a472, 0xB1), (0x9fd3bf47, 0x21CB), (0xa04b6314, 0x25B8),
    (0xa052f61e, 0x2283), (0xa1534c1c, 0x21C1), (0xa1c2192b, 0x2A49), (0xa1cd0319, 0x21B7),
    (0xa2381c39, 0x222B), (0xa29e746b, 0x2AAF), (0xa2b8ae7b, 0x2119), (0xa2d7f344, 0x22E8),
    (0xa2dd4d17, 0x221D), (0xa3016585, 0x22B0), (0xa3388af7, 0x2147), (0xa38c6ec8, 0x291C),
    (0xa41c00c3, 0x2205), (0xa443c9fd, 0x219E), (0xa4934454, 0x20), (0xa49a588c, 0x27F9),
    (0xa4b348f9, 0x2292), (0xa4c14390, 0x22CB), (0xa639539d, 0x27C8), (0xa6ddd640, 0x2A24),
    (0xa6e5de8e, 0x2241), (0xa6e71b33, 0x2972), (0xa6fcb87e, 0x23DF), (0xa70c5231, 0x2035),
    (0xa73bb36b, 0x2281), (0xa77df487, 0x2925), (0xa7a62506, 0x21F5), (0xa89697fb, 0x22CD),
    (0xa8ff419f, 0x23B6), (0xa9ede573, 0x143), (0xaaf129f3, 0x224D), (0xab0b3d34, 0x147),
    (0xab1faf62, 0x145), (0xab2b1b4e, 0x2720), (0xab2d7587, 0x29CE), (0xab8b0164, 0x22DB),
    (0xada7fd5f, 0x2A7E), (0xadd2b31f, 0x22B3), (0xaead178a, 0x21BC), (0xaf004bed, 0x23B5),
    (0xaf3f6291, 0x2190), (0xafe680c3, 0x29B2), (0xb050b5c9, 0x2057), (0xb090f10a, 0x227C),
    (0xb1319047, 0x27F9), (0xb148cc4e, 0x2214), (0xb15b5025, 0x395), (0xb1f82a09, 0x2926),
    (0xb21a5853, 0x2102), (0xb28916de, 0x2244), (0xb370b875, 0x2115), (0xb487f460, 0x2245),
    (0xb5124410, 0x2267), (0xb51e94d3, 0xD1), (0xb5b99182, 0x39F), (0xb5cc58d7, 0x155),
    (0xb60a7f7c, 0x27E9), (0xb624dc9b, 0x2975), (0xb624e91b, 0x291E), (0xb624ed35, 0x21AA),
    (0xb624f776, 0x21AC), (0xb62500d6, 0x2945), (0xb6250a9a, 0x21A3), (0xb62ccde8, 0x291A),
    (0xb658267d, 0x22DA), (0xb6a7632b, 0x2A0D), (0xb6b5d5ca, 0x7D), (0xb6b5d660, 0x5D),
    (0xb6e9b098, 0x159), (0xb6fe22c6, 0x157), (0xb74a55e1, 0x29DD), (0xb7d8d364, 0x27F8),
    (0xb7dec920, 0x201D), (0xb840ddb7, 0x200B), (0xb85f363a, 0x2291), (0xb87b2fc4, 0xD3),
    (0xb8d89513, 0x297D), (0xb8e99377, 0x230B), (0xb9d2cde9, 0x296C), (0xba31eee8, 0x150),
    (0xba58d5e8, 0x22ED), (0xbabfc7bf, 0x2286), (0xbb1275c0, 0x2249), (0xbbc86305, 0x27E6),
    (0xbc4de9f7, 0xD2), (0xbcc5b895, 0xA8), (0xbd100215, 0x23B1), (0xbd42451f, 0x2130),
    (0xbda8f3ca, 0x228F), (0xbdba29a3, 0x2A3C), (0xbde16b46, 0x2954), (0xbdfda661, 0x2ABA),
    (0xbe3ddd60, 0x2A2E), (0xbe6a6976, 0xE1), (0xbe7ac44b, 0x2994), (0xbe9a7f81, 0x2295),
    (0xbea40eb5, 0x22E1), (0xbecc9d9a, 0x2199), (0xbf5508f0, 0x103), (0xc02f112e, 0x2AB6),
    (0xc03253c0, 0x22E9), (0xc039b1de, 0x203A), (0xc099f5b7, 0x2019), (0xc0f882fd, 0x22CC),
    (0xc0fd490f, 0x22CA), (0xc23d23a9, 0xE0), (0xc25c0b53, 0x23E2), (0xc2623989, 0x21BC),
    (0xc312b97a, 0x21CF), (0xc3264355, 0xD8), (0xc34080b4, 0x226A), (0xc3abdf24, 0xD5),
    (0xc3ac1ffc, 0x2A37), (0xc459a328, 0x15B), (0xc466a88b, 0x2235), (0xc46f88e0, 0x27E7),
    (0xc49e30ef, 0x2234), (0xc5225ebc, 0x2202), (0xc5230a30, 0x23B0), (0xc576fae9, 0x161),
    (0xc58b6d17, 0x15F), (0xc5c4a5a0, 0x22E9), (0xc5fcb289, 0x2A55)]"

definition ref_table_13 :: "(nat \<times> nat) list" where
  "ref_table_13 = [
   (0xc6117ccd, 0x2221), (0xc612e414, 0x2222), (0xc695225d, 0x29B4), (0xc6a0ef79, 0x2925),
    (0xc70d5a10, 0x2929), (0xc7154613, 0x2A6F), (0xc727e1b2, 0x225C), (0xc7725105, 0x2248),
    (0xc79ab432, 0x2322), (0xc7b5cbb9, 0x3F0), (0xc7e1a826, 0x2205), (0xc86976f5, 0x449),
    (0xc8e4c545, 0x21C9), (0xc9177be2, 0x3C2), (0xc9177d72, 0x3C2), (0xc9393d63, 0x2A6A),
    (0xc999b575, 0x2920), (0xc99b18d6, 0xE3), (0xc99dc9cb, 0x2974), (0xca254a16, 0x2A02),
    (0xcaadac22, 0x295B), (0xcb4944c7, 0x2A33), (0xcb7f3911, 0x29E5), (0xcbab7980, 0x2197),
    (0xcbb2cb7d, 0x2148), (0xcbb5ebad, 0x2242), (0xcbdd9038, 0x294B), (0xcbe79c19, 0x2286),
    (0xcc5a4672, 0x2A31), (0xcc8b65e5, 0x3C2), (0xcc9149d3, 0x44C), (0xccb0bce6, 0x233F),
    (0xcd04b323, 0x2660), (0xcd1a0a02, 0x3D1), (0xcd29d773, 0x222E), (0xcd3991f5, 0x2500),
    (0xcd513460, 0x22BD), (0xcd517150, 0x2305), (0xcd5cc877, 0x2290), (0xcdc8bb31, 0x27F5),
    (0xcde77100, 0x22B3), (0xce0904d6, 0x2291), (0xce092704, 0x2292), (0xce1052f4, 0x25A1),
    (0xce10530d, 0x25AA), (0xced44e06, 0x2A8B), (0xcedf772d, 0x2216), (0xcf0c8380, 0x2323),
    (0xcf34631e, 0x22C6), (0xcf46fec6, 0x2235), (0xcfa371f6, 0x212C), (0xcfb4b810, 0x205F),
    (0xcff3d064, 0x2ABD), (0xcff74b81, 0x2282), (0xcff75496, 0x2AC7), (0xcff770cf, 0x2AD5),
    (0xcff7722d, 0x2AD3), (0xcff97087, 0x2AB0), (0xd04742b2, 0x2ABE), (0xd04abdcf, 0x2283),
    (0xd04ac6e4, 0x2AC8), (0xd04ae31d, 0x2AD4), (0xd04ae47b, 0x2AD6), (0xd0c07542, 0x22A8),
    (0xd0cd96d6, 0x21E4), (0xd11b24fb, 0x2926), (0xd169c22d, 0x292A), (0xd1b32b21, 0x22C2),
    (0xd1b35bf5, 0x22C3), (0xd1b7bb7d, 0x22C1), (0xd1fdf527, 0x21A7), (0xd22b18ea, 0x21A4),
    (0xd2bd2431, 0x290D), (0xd2efb02d, 0x201C), (0xd33cdc02, 0x2316), (0xd33f407a, 0x231F),
    (0xd362c900, 0x221D), (0xd3c7821a, 0x22DE), (0xd3da15f6, 0x22DF), (0xd401ef7f, 0x2306),
    (0xd404453a, 0x165), (0xd418b768, 0x163), (0xd5505bb7, 0x22C4), (0xd56fc25a, 0x2315),
    (0xd571f3b1, 0x21A5), (0xd582e8e0, 0x22A5), (0xd594bb15, 0x22C8), (0xd59676d5, 0x29C9),
    (0xd59f334c, 0x27F6), (0xd6095b0a, 0x2035), (0xd65fba70, 0x21C1), (0xd66cec91, 0x27F5),
    (0xd6da303b, 0x2958), (0xd7050d87, 0x2234), (0xd7058447, 0x3D1), (0xd71c18f1, 0x20),
    (0xd7291d2b, 0x223C), (0xd72ea74a, 0x2145), (0xd749713a, 0xA6), (0xd7c6ccbf, 0x22A0),
    (0xd7c6ccf1, 0x2A30), (0xd8016167, 0x298E), (0xd8016310, 0x2990), (0xd83a3d48, 0x2133),
    (0xd8cf4bab, 0x2022), (0xd8d63565, 0x224F), (0xd8f9388b, 0x2291), (0xd9290356, 0x21D1),
    (0xda358bac, 0x2192), (0xdaaedbdb, 0x25AA), (0xdb56011b, 0x2336), (0xdb562f4c, 0x2AF1),
    (0xdb84fe18, 0x107), (0xdbcda712, 0x2A44), (0xdbce0293, 0x2A4B), (0xdbce3367, 0x2A47),
    (0xdbce622e, 0x2A40), (0xdbf894bc, 0x2034), (0xdc045460, 0x229E), (0xdca255d9, 0x10D),
    (0xdcb486e4, 0x25FB), (0xdcb6c807, 0xE7), (0xdcebcaf1, 0x25EC), (0xdd1de6d5, 0xA0),
    (0xdd648a53, 0x2191), (0xdd92394d, 0x22B5), (0xddb7dc3d, 0x22EB), (0xddc5b432, 0x167),
    (0xdea421ee, 0x2287), (0xdee2d585, 0x2063), (0xdf1dff0d, 0x299A), (0xdf603f32, 0x220C),
    (0xdfb7f00b, 0x3F5), (0xe068d44c, 0x2277), (0xe0820ffa, 0x2257), (0xe0847ad3, 0x2AEF),
    (0xe0911c3f, 0x2233), (0xe101f247, 0x2253), (0xe155c42a, 0x27FA), (0xe17437ca, 0xFA),
    (0xe17ca686, 0x227E), (0xe1ab549a, 0x227B), (0xe25d4303, 0x2A12)]"

definition ref_table_14 :: "(nat \<times> nat) list" where
  "ref_table_14 = [
   (0xe25ed744, 0x16D), (0xe30cc87f, 0x21D4), (0xe31cdc8f, 0x224E), (0xe32af6ee, 0x171),
    (0xe3597075, 0x429), (0xe3df4fc3, 0x2254), (0xe3e4ad4c, 0x40), (0xe3e57006, 0x2218),
    (0xe3e9cec6, 0x222E), (0xe3eab8f3, 0x21BA), (0xe3f7e0ba, 0x2210), (0xe3f9971b, 0x2117),
    (0xe4230eb7, 0x154), (0xe42fbf67, 0x220B), (0xe47bc07a, 0x2916), (0xe4807406, 0x297E),
    (0xe4f9d957, 0x295E), (0xe5406678, 0x158), (0xe546f1fd, 0xF9), (0xe554d8a6, 0x156),
    (0xe57fc3dc, 0x2713), (0xe671804d, 0x2265), (0xe67467de, 0x21BF), (0xe718e2e4, 0x296F),
    (0xe71a2102, 0x2209), (0xe71a211b, 0x22F7), (0xe71a2134, 0x22F6), (0xe736bd3a, 0x220C),
    (0xe736bd53, 0x22FE), (0xe736bd6c, 0x22FD), (0xe75a1624, 0x21B6), (0xe7723e07, 0x2A46),
    (0xe7726edb, 0x2A4A), (0xe7729da2, 0x228D), (0xe77dd96a, 0x21B7), (0xe7814353, 0x42C),
    (0xe781c6e2, 0xA4), (0xe7a7abd5, 0x3C5), (0xe7b851e2, 0x21A6), (0xe7d080fa, 0x25AB),
    (0xe7d9e646, 0x231C), (0xe7da9640, 0x230F), (0xe7e94b7d, 0x2225), (0xe7eca706, 0x3F5),
    (0xe8a43302, 0x2062), (0xe92ac090, 0x2261), (0xe938b57e, 0x2968), (0xe9aea1ab, 0x232D),
    (0xea26a615, 0x2020), (0xea441d0d, 0x2138), (0xea88be28, 0x294A), (0xea929eea, 0x20DB),
    (0xeb2fa02a, 0x10F), (0xeb57f81c, 0x231D), (0xeb58a816, 0x230E), (0xec19f877, 0x2280),
    (0xeca4e72a, 0x169), (0xecc11f56, 0xC1), (0xed12657a, 0x29C2), (0xed1e84a5, 0x297F),
    (0xed1f8be5, 0x25FC), (0xed4451b3, 0x2131), (0xedabbed0, 0x102), (0xee183f03, 0x224A),
    (0xee6a00e6, 0x2ACB), (0xee86e335, 0x290F), (0xee877e6c, 0x21A7), (0xee9ef1e0, 0x228E),
    (0xee9f1aac, 0x27F6), (0xeefadf2f, 0x2273), (0xef289c68, 0xF7), (0xef2a24e3, 0x22C7),
    (0xef4923ab, 0x200B), (0xef4feb96, 0x2019), (0xefa4003a, 0x21D4), (0xeff059ef, 0x2A13),
    (0xf03fb8dd, 0x299C), (0xf043c0e3, 0x29B3), (0xf0599c35, 0x3D5), (0xf05a16dd, 0x3F1),
    (0xf077f6e5, 0x231E), (0xf078a6df, 0x230D), (0xf093d989, 0xC0), (0xf0b29eaf, 0x219A),
    (0xf12e716c, 0x21A5), (0xf171722c, 0x2969), (0xf237bd5d, 0x22EA), (0xf25cc4f8, 0x22BB),
    (0xf26bc481, 0x24), (0xf288f3cf, 0x22EE), (0xf28c46f6, 0x2193), (0xf29947f1, 0x23E7),
    (0xf2aa4165, 0x7C), (0xf2b05908, 0x15A), (0xf2bf7590, 0x2221), (0xf2cefb3f, 0x2A14),
    (0xf308835f, 0x2216), (0xf3cdb0c9, 0x160), (0xf3e222f7, 0x15E), (0xf3f608bb, 0x231F),
    (0xf3f6b8b5, 0x230C), (0xf41f9e05, 0x224F), (0xf43a1edc, 0x21C2), (0xf477dc7a, 0x3D1),
    (0xf4f10f22, 0x111), (0xf64b560d, 0x21C3), (0xf6a712a4, 0x2272), (0xf797b7a0, 0x2254),
    (0xf7f1ceb6, 0xC3), (0xf84ad40c, 0x22B4), (0xf86a887a, 0x21BF), (0xf89f92ba, 0xE9),
    (0xf8fe9067, 0x2A6E), (0xf9bcea7b, 0x11B), (0xf9c7a653, 0x211B), (0xfa0eee93, 0x2255),
    (0xfa2cd511, 0x220B), (0xfb34e3b5, 0x219D), (0xfba82730, 0x2306), (0xfc05b31d, 0x21CE),
    (0xfc6708d4, 0x25A1), (0xfc724ced, 0xE8), (0xfc78ea49, 0x2A98), (0xfc8983ec, 0x22A3),
    (0xfd33ffb0, 0x20), (0xfdc17c58, 0x2A01), (0xfe4e0161, 0x22D0), (0xfe4ff77d, 0x2223),
    (0xfe7c3b6a, 0x22EA), (0xfea173af, 0x22D1), (0xfebba971, 0x2308), (0xfebcd0e7, 0x295A),
    (0xff61f926, 0x2A97), (0xffe903a8, 0x2205), (0xfff93ad4, 0x20), (0xfff93aed, 0x20)]"

definition ref_table_two :: "(nat \<times> nat \<times> nat) list" where
  "ref_table_two = [
   (0x181914, 0x223E, 0x333), (0x187418, 0x3D, 0x20E5), (0x1af17f, 0x22D9, 0x338),
    (0x1af2c4, 0x226B, 0x20D2), (0x1afe31, 0x22D8, 0x338), (0x1afef9, 0x226A, 0x20D2),
    (0x1b3c4d, 0x2267, 0x338), (0x1b4882, 0x2266, 0x338), (0x2665352, 0x2229, 0xFE00),
    (0x26b1806, 0x222A, 0xFE00), (0x27f259e, 0x22DB, 0xFE00), (0x2832333, 0x2269, 0xFE00),
    (0x29cf286, 0x22DA, 0xFE00), (0x2a0f098, 0x2268, 0xFE00), (0x2a1bb22, 0x226B, 0x338),
    (0x2a2ec4f, 0x226A, 0x338), (0x2a7ddef, 0x2220, 0x20D2), (0x2a7df7f, 0x2A70, 0x338),
    (0x2a93758, 0x2A7E, 0x338), (0x2aa6885, 0x2A7D, 0x338), (0x2ab7b08, 0x2AAF, 0x338),
    (0x2ac0d84, 0x2AB0, 0x338), (0x2acc0d0, 0x224D, 0x20D2), (0x2acce63, 0x2265, 0x20D2),
    (0x2accfda, 0x3E, 0x20D2), (0x2acda98, 0x2264, 0x20D2), (0x2acdc0f, 0x3C, 0x20D2),
    (0x2bf9a66, 0x223D, 0x331), (0x1d6ef94b, 0x2AA2, 0x338), (0x2021023d, 0x2ACC, 0xFE00),
    (0x212d67ee, 0x2242, 0x338), (0x21bb9d9f, 0x2282, 0x20D2), (0x21bdc2a5, 0x2AB0, 0x338),
    (0x220f0fed, 0x2283, 0x20D2), (0x255789e0, 0x2A7E, 0x338), (0x2b667cda, 0x226A, 0x338),
    (0x3df1c8cf, 0x66, 0x6A), (0x3df2e1bf, 0x2A6D, 0x338), (0x3f38e06e, 0x224F, 0x338),
    (0x413c156c, 0x2AAD, 0xFE00), (0x42652f87, 0x224B, 0x338), (0x426c6185, 0x224E, 0x338),
    (0x427a3ad5, 0x2250, 0x338), (0x427dbf07, 0x2242, 0x338), (0x42866837, 0x2267, 0x338),
    (0x42a4359c, 0x2266, 0x338), (0x42bb1bb8, 0x2202, 0x338), (0x42d19668, 0x2AC5, 0x338),
    (0x42d1b896, 0x2AC6, 0x338), (0x42e312f8, 0x223C, 0x20D2), (0x44a993c2, 0x2282, 0x20D2),
    (0x4596b0c7, 0x2AAC, 0xFE00), (0x475b97f1, 0x2282, 0x20D2), (0x475b994f, 0x2283, 0x20D2),
    (0x47985ea1, 0x2267, 0x338), (0x489176e7, 0x22B4, 0x20D2), (0x4c0f88bd, 0x22B5, 0x20D2),
    (0x54d95e4d, 0x2A7D, 0x338), (0x5d259ee0, 0x226B, 0x338), (0x65e354ef, 0x2283, 0x20D2),
    (0x665f4e7b, 0x228F, 0x338), (0x7c958a52, 0x224F, 0x338), (0x7f071c7f, 0x2AAF, 0x338),
    (0x841fbef0, 0x22F9, 0x338), (0x8445b78b, 0x2AFD, 0x20E5), (0x856fba2b, 0x2933, 0x338),
    (0x856fbc1f, 0x219D, 0x338), (0x8bd33740, 0x224E, 0x338), (0x8e2c50ba, 0x20, 0),
    (0x9189168a, 0x22F5, 0x338), (0x964fdbd3, 0x2AB0, 0x338), (0x9ed93ab5, 0x227F, 0x338),
    (0xa5200a1c, 0x228B, 0xFE00), (0xa873ead5, 0x2AA1, 0x338), (0xb2903298, 0x2290, 0x338),
    (0xbedee5af, 0x2ACB, 0xFE00), (0xbff46f5e, 0x228A, 0xFE00), (0xc16176b5, 0x2268, 0xFE00),
    (0xc26fcfc5, 0x2261, 0x20E5), (0xc813b8a5, 0x2A7D, 0x338), (0xc95e2af4, 0x2AC6, 0x338),
    (0xcc1774b2, 0x29CF, 0x338), (0xcda5059e, 0x2293, 0xFE00), (0xcda9ca52, 0x2294, 0xFE00),
    (0xdd00e578, 0x2269, 0xFE00), (0xe39f6d15, 0x29D0, 0x338), (0xe4329036, 0x2AC5, 0x338),
    (0xf462c689, 0x2AAF, 0x338), (0xfae267fe, 0x2ACB, 0xFE00), (0xfae26b1e, 0x228A, 0xFE00),
    (0xfae5be7c, 0x2ACC, 0xFE00), (0xfae5c19c, 0x228B, 0xFE00), (0xfcc09588, 0x2A7E, 0x338)]"

section \<open>The functions\<close>

definition ref_tables :: "(nat \<times> nat) list list" where
  "ref_tables = [ref_table_0, ref_table_1, ref_table_2, ref_table_3, ref_table_4, ref_table_5,
     ref_table_6, ref_table_7, ref_table_8, ref_table_9, ref_table_10, ref_table_11,
     ref_table_12, ref_table_13, ref_table_14]"

fun case_of :: "(nat \<times> 'a) list \<Rightarrow> nat \<Rightarrow> 'a option" where
  "case_of [] h = None"
| "case_of ((l, c) # rows) h = (if l = h then Some c else case_of rows h)"

fun switch_case :: "(nat \<times> nat) list list \<Rightarrow> nat \<Rightarrow> nat" where
  "switch_case [] h = 0"
| "switch_case (t # ts) h = (case case_of t h of Some c \<Rightarrow> c | None \<Rightarrow> switch_case ts h)"

definition ref2codepoint :: "byte list \<Rightarrow> u32" where
  "ref2codepoint ref = of_nat (switch_case ref_tables (unat (cpHash ref)))"

text \<open>The outputs \<open>one\<close> and \<open>two\<close> are left alone when no label matches (\<open>None\<close>).\<close>

definition ref2codepoint2 :: "byte list \<Rightarrow> (u32 \<times> u32) option" where
  "ref2codepoint2 ref =
     map_option (\<lambda>(one, two). (of_nat one, of_nat two)) (case_of ref_table_two (unat (cpHash ref)))"

section \<open>What the tables hold\<close>

text \<open>
  \<open>cp_text c\<close>: the code point is one the UTF-8 writer turns into at least one byte, and one
  that the character check of \<^verbatim>\<open>ValidUtf8.c\<close> can accept.
\<close>

definition cp_text :: "nat \<Rightarrow> bool" where
  "cp_text c \<longleftrightarrow> (if c < 127 then 32 \<le> c \<or> c = 9 \<or> c = 10 else 127 < c \<and> c < 0x40000)"

fun ascending :: "nat list \<Rightarrow> bool" where
  "ascending (a # b # ks) \<longleftrightarrow> a < b \<and> ascending (b # ks)"
| "ascending _ \<longleftrightarrow> True"

lemma ascending_above: "ascending (a # ks) \<Longrightarrow> k \<in> set ks \<Longrightarrow> a < k"
proof (induction ks arbitrary: a)
  case (Cons b ks)
  then show ?case by (cases "k = b") (auto intro: less_trans)
qed simp

lemma ascending_distinct: "ascending ks \<Longrightarrow> distinct ks"
proof (induction ks rule: ascending.induct)
  case (1 a b ks)
  then show ?case using ascending_above [of a "b # ks" a] by auto
qed simp_all

lemma ref_table_0_labels: "ascending (map fst ref_table_0)"
  by (simp add: ref_table_0_def)

lemma ref_table_0_text: "list_all (\<lambda>r. cp_text (snd r)) ref_table_0"
  by (simp add: ref_table_0_def cp_text_def)

lemma ref_table_1_labels: "ascending (map fst ref_table_1)"
  by (simp add: ref_table_1_def)

lemma ref_table_1_text: "list_all (\<lambda>r. cp_text (snd r)) ref_table_1"
  by (simp add: ref_table_1_def cp_text_def)

lemma ref_table_2_labels: "ascending (map fst ref_table_2)"
  by (simp add: ref_table_2_def)

lemma ref_table_2_text: "list_all (\<lambda>r. cp_text (snd r)) ref_table_2"
  by (simp add: ref_table_2_def cp_text_def)

lemma ref_table_3_labels: "ascending (map fst ref_table_3)"
  by (simp add: ref_table_3_def)

lemma ref_table_3_text: "list_all (\<lambda>r. cp_text (snd r)) ref_table_3"
  by (simp add: ref_table_3_def cp_text_def)

lemma ref_table_4_labels: "ascending (map fst ref_table_4)"
  by (simp add: ref_table_4_def)

lemma ref_table_4_text: "list_all (\<lambda>r. cp_text (snd r)) ref_table_4"
  by (simp add: ref_table_4_def cp_text_def)

lemma ref_table_5_labels: "ascending (map fst ref_table_5)"
  by (simp add: ref_table_5_def)

lemma ref_table_5_text: "list_all (\<lambda>r. cp_text (snd r)) ref_table_5"
  by (simp add: ref_table_5_def cp_text_def)

lemma ref_table_6_labels: "ascending (map fst ref_table_6)"
  by (simp add: ref_table_6_def)

lemma ref_table_6_text: "list_all (\<lambda>r. cp_text (snd r)) ref_table_6"
  by (simp add: ref_table_6_def cp_text_def)

lemma ref_table_7_labels: "ascending (map fst ref_table_7)"
  by (simp add: ref_table_7_def)

lemma ref_table_7_text: "list_all (\<lambda>r. cp_text (snd r)) ref_table_7"
  by (simp add: ref_table_7_def cp_text_def)

lemma ref_table_8_labels: "ascending (map fst ref_table_8)"
  by (simp add: ref_table_8_def)

lemma ref_table_8_text: "list_all (\<lambda>r. cp_text (snd r)) ref_table_8"
  by (simp add: ref_table_8_def cp_text_def)

lemma ref_table_9_labels: "ascending (map fst ref_table_9)"
  by (simp add: ref_table_9_def)

lemma ref_table_9_text: "list_all (\<lambda>r. cp_text (snd r)) ref_table_9"
  by (simp add: ref_table_9_def cp_text_def)

lemma ref_table_10_labels: "ascending (map fst ref_table_10)"
  by (simp add: ref_table_10_def)

lemma ref_table_10_text: "list_all (\<lambda>r. cp_text (snd r)) ref_table_10"
  by (simp add: ref_table_10_def cp_text_def)

lemma ref_table_11_labels: "ascending (map fst ref_table_11)"
  by (simp add: ref_table_11_def)

lemma ref_table_11_text: "list_all (\<lambda>r. cp_text (snd r)) ref_table_11"
  by (simp add: ref_table_11_def cp_text_def)

lemma ref_table_12_labels: "ascending (map fst ref_table_12)"
  by (simp add: ref_table_12_def)

lemma ref_table_12_text: "list_all (\<lambda>r. cp_text (snd r)) ref_table_12"
  by (simp add: ref_table_12_def cp_text_def)

lemma ref_table_13_labels: "ascending (map fst ref_table_13)"
  by (simp add: ref_table_13_def)

lemma ref_table_13_text: "list_all (\<lambda>r. cp_text (snd r)) ref_table_13"
  by (simp add: ref_table_13_def cp_text_def)

lemma ref_table_14_labels: "ascending (map fst ref_table_14)"
  by (simp add: ref_table_14_def)

lemma ref_table_14_text: "list_all (\<lambda>r. cp_text (snd r)) ref_table_14"
  by (simp add: ref_table_14_def cp_text_def)

lemma ref_table_two_labels: "ascending (map fst ref_table_two)"
  by (simp add: ref_table_two_def)

lemma ref_table_two_text:
  "list_all (\<lambda>r. cp_text (fst (snd r)) \<and> (snd (snd r) = 0 \<or> cp_text (snd (snd r)))) ref_table_two"
  by (simp add: ref_table_two_def cp_text_def)

section \<open>Results\<close>

lemmas ref_tables_text = ref_table_0_text ref_table_1_text ref_table_2_text ref_table_3_text
  ref_table_4_text ref_table_5_text ref_table_6_text ref_table_7_text ref_table_8_text
  ref_table_9_text ref_table_10_text ref_table_11_text ref_table_12_text ref_table_13_text
  ref_table_14_text

lemma case_of_SomeD: "case_of t h = Some c \<Longrightarrow> (h, c) \<in> set t"
  by (induction t h rule: case_of.induct) (auto split: if_splits)

lemma case_of_None: "h \<notin> set (map fst t) \<Longrightarrow> case_of t h = None"
  by (induction t h rule: case_of.induct) auto

text \<open>A hash below the first label of a table is not in the table.\<close>

lemma case_of_below: "ascending (map fst t) \<Longrightarrow> h < fst (hd t) \<Longrightarrow> case_of t h = None"
proof (rule case_of_None)
  assume t: "ascending (map fst t)" "h < fst (hd t)"
  show "h \<notin> set (map fst t)"
  proof (cases t)
    case (Cons r rows)
    have "fst r < k" if "k \<in> set (map fst rows)" for k
      using ascending_above [of "fst r" "map fst rows" k] t(1) that Cons by simp
    with t(2) Cons show ?thesis by force
  qed simp
qed

lemmas ref_tables_labels = ref_table_0_labels ref_table_1_labels ref_table_2_labels
  ref_table_3_labels ref_table_4_labels ref_table_5_labels ref_table_6_labels ref_table_7_labels
  ref_table_8_labels ref_table_9_labels ref_table_10_labels ref_table_11_labels
  ref_table_12_labels ref_table_13_labels ref_table_14_labels

lemma ref_tables_first:
  "fst (hd ref_table_0) = 0x743"
  "fst (hd ref_table_1) = 0x15ff7b"
  "fst (hd ref_table_2) = 0x1ca08d"
  "fst (hd ref_table_3) = 0x25aee1a"
  "fst (hd ref_table_4) = 0x2aaaddb"
  "fst (hd ref_table_5) = 0x53d32b4"
  "fst (hd ref_table_6) = 0x28a345b3"
  "fst (hd ref_table_7) = 0x3ba8e2d3"
  "fst (hd ref_table_8) = 0x3fabad39"
  "fst (hd ref_table_9) = 0x44bbb51c"
  "fst (hd ref_table_10) = 0x51211a8f"
  "fst (hd ref_table_11) = 0x77f234bf"
  "fst (hd ref_table_12) = 0x9b202e57"
  "fst (hd ref_table_13) = 0xc6117ccd"
  "fst (hd ref_table_14) = 0xe25ed744"
  by (simp_all only: list.sel fst_conv ref_table_0_def ref_table_1_def ref_table_2_def ref_table_3_def ref_table_4_def ref_table_5_def ref_table_6_def ref_table_7_def
    ref_table_8_def ref_table_9_def ref_table_10_def ref_table_11_def ref_table_12_def ref_table_13_def ref_table_14_def)

lemma switch_case_text:
  "list_all (list_all (\<lambda>r. cp_text (snd r))) ts \<Longrightarrow>
   switch_case ts h = 0 \<or> cp_text (switch_case ts h)"
proof (induction ts)
  case (Cons t ts)
  show ?case
  proof (cases "case_of t h")
    case (Some c)
    then have "(h, c) \<in> set t" by (rule case_of_SomeD)
    with Cons.prems have "cp_text c" by (auto simp: list_all_iff)
    with Some show ?thesis by simp
  qed (use Cons in simp)
qed simp

lemma cp_text_small: "cp_text c \<Longrightarrow> c < 0x40000"
  by (auto simp: cp_text_def split: if_splits)

lemma unat_cp_text: "cp_text c \<Longrightarrow> unat (of_nat c :: u32) = c"
  by (drule cp_text_small) (simp add: unat_of_nat)

lemma ref2codepoint_cases: "ref2codepoint ref = 0 \<or> cp_text (unat (ref2codepoint ref))"
proof -
  have "list_all (list_all (\<lambda>r. cp_text (snd r))) ref_tables"
    by (simp only: ref_tables_def ref_tables_text list.pred_inject simp_thms)
  from switch_case_text [OF this, of "unat (cpHash ref)"]
  show ?thesis by (auto simp: ref2codepoint_def unat_cp_text)
qed

lemma ref2codepoint2_cases:
  assumes "ref2codepoint2 ref = Some (one, two)"
  shows "cp_text (unat one) \<and> (two = 0 \<or> cp_text (unat two))"
proof -
  obtain a b where ab: "case_of ref_table_two (unat (cpHash ref)) = Some (a, b)"
      "one = of_nat a" "two = of_nat b"
    using assms by (auto simp: ref2codepoint2_def)
  then have "(unat (cpHash ref), a, b) \<in> set ref_table_two" by (blast dest: case_of_SomeD)
  with ref_table_two_text have "cp_text a \<and> (b = 0 \<or> cp_text b)" by (auto simp: list_all_iff)
  with ab show ?thesis by (auto simp: unat_cp_text)
qed

section \<open>Properties\<close>

text \<open>The switch compares hashes only, and the 32-bit hash of short names already collides:
  the text \<open>iB\<close> is no reference name, but it is decoded as the greater-than sign because its
  hash is that of \<open>gt\<close>, with and without the closing semicolon.\<close>

theorem ref2codepoint_collision:
  "ref2codepoint (str ''iB'') = 0x3E \<and> ref2codepoint (str ''gt'') = 0x3E \<and>
   (\<forall>t. ref2codepoint (str ''iB'' @ t) = ref2codepoint (str ''gt'' @ t))"
proof -
  have h: "cpHash (str ''iB'' @ t) = cpHash (str ''gt'' @ t)" for t
    by (simp add: cpHash_def str_def)
  have hash: "unat (cpHash (str ''gt'')) = 0xa83" by (simp add: cpHash_def str_def)
  have "ref2codepoint (str ''gt'') = 0x3E"
    unfolding ref2codepoint_def hash by (simp add: ref_tables_def ref_table_0_def)
  moreover have "ref2codepoint (str ''iB'') = 0x3E"
    using h [of "[]"] calculation by (simp add: ref2codepoint_def)
  ultimately show ?thesis using h by (simp add: ref2codepoint_def)
qed

end
