(* ===== verification/Html_Refs.thy ===== *)
theory Html_Refs
  imports Utf8 Text_Clean Ref_Tables
begin

text \<open>
  \<^verbatim>\<open>src/Common/HtmlRefs.c\<close>: decoding of one character of an HTML text in place.
  \<open>utf8char\<close> writes a code point (the bytes written are the result), \<open>decodeHtmlRef\<close> reads a
  numeric or named reference, \<open>getHtmlChar\<close> a reference or a plain character, and
  \<open>addHtmlCharacter\<close> appends the result to the output part of the same buffer.

  \<open>src\<close> is the list of bytes readable from the pointer, \<^verbatim>\<open>lenSrc\<close> how many of them belong to the
  text.  \<open>byte_at\<close> reads the terminator 0 behind the readable bytes, as \<^verbatim>\<open>strspn\<close> needs one.
  \<open>store_at\<close> makes the buffer longer when a write passes its end, so that a length that is
  kept means that no write did.
\<close>

section \<open>Writing a code point\<close>

definition flag :: "u32 \<Rightarrow> u32 \<Rightarrow> byte \<Rightarrow> byte" where
  "flag codepoint k v = (if codepoint AND k \<noteq> 0 then v else 0)"

definition utf8char :: "u32 \<Rightarrow> byte list" where
  "utf8char codepoint =
    (if codepoint = 9 \<or> codepoint = 10 then [32]
     else if codepoint < 32 \<or> codepoint = 127 then []
     else if codepoint \<le> 0x7F then [ucast codepoint]
     else if codepoint \<le> 0x7FF then
       [192 OR flag codepoint 1024 16 OR flag codepoint 512 8 OR flag codepoint 256 4
          OR flag codepoint 128 2 OR flag codepoint 64 1,
        128 OR ucast (codepoint AND 63)]
     else if codepoint \<le> 0xFFFF then
       [224 OR flag codepoint 32768 8 OR flag codepoint 16384 4 OR flag codepoint 8192 2
          OR flag codepoint 4096 1,
        128 OR flag codepoint 2048 32 OR flag codepoint 1024 16 OR flag codepoint 512 8
          OR flag codepoint 256 4 OR flag codepoint 128 2 OR flag codepoint 64 1,
        128 OR ucast (codepoint AND 63)]
     else if codepoint \<le> 0x10FFFF then
       [240 OR flag codepoint 1048576 4 OR flag codepoint 524288 2 OR flag codepoint 262144 1,
        128 OR flag codepoint 131072 32 OR flag codepoint 65536 16 OR flag codepoint 32768 8
          OR flag codepoint 16384 4 OR flag codepoint 8192 2 OR flag codepoint 4096 1,
        128 OR flag codepoint 2048 32 OR flag codepoint 1024 16 OR flag codepoint 512 8
          OR flag codepoint 256 4 OR flag codepoint 128 2 OR flag codepoint 64 1,
        128 OR ucast (codepoint AND 63)]
     else [])"

section \<open>Reading a reference\<close>

definition byte_at :: "byte list \<Rightarrow> nat \<Rightarrow> byte" where
  "byte_at src k = (if k < length src then src ! k else 0)"

text \<open>\<^verbatim>\<open>memchr(src + k, ';', n)\<close>: the index of the first semicolon (59).\<close>

fun find_semicolon :: "byte list \<Rightarrow> nat \<Rightarrow> nat \<Rightarrow> nat option" where
  "find_semicolon src k 0 = None"
| "find_semicolon src k (Suc n) = (if byte_at src k = 59 then Some k else find_semicolon src (Suc k) n)"

definition xdigit_value :: "byte \<Rightarrow> nat" where
  "xdigit_value c =
    (if is_digit c then unat c - 48 else if c \<le> 70 then unat c - 55 else unat c - 87)"

text \<open>\<^verbatim>\<open>strtoul\<close> on a run of digits saturates at \<^verbatim>\<open>ULONG_MAX\<close>; the assignment to
  \<^verbatim>\<open>unsigned int\<close> keeps the low 32 bits.\<close>

definition strtoul32 :: "nat \<Rightarrow> byte list \<Rightarrow> u32" where
  "strtoul32 base ds =
     of_nat (min (2 ^ 64 - 1) (foldl (\<lambda>v d. base * v + xdigit_value d) 0 ds))"

text \<open>The accepted bytes of a name: the digits 1 to 8 and the letters.\<close>

definition ref_name_byte :: "byte \<Rightarrow> bool" where
  "ref_name_byte c \<longleftrightarrow> (49 \<le> c \<and> c \<le> 56) \<or> is_alpha c"

definition numeric_codepoint :: "u32 \<Rightarrow> u32" where
  "numeric_codepoint cp = (if cp = 0xA0 \<or> (0x2000 \<le> cp \<and> cp \<le> 0x200A) then 32 else cp)"

text \<open>The result is \<^verbatim>\<open>lenRef\<close> (0: no reference) and the decoded bytes.\<close>

definition numeric_ref :: "byte list \<Rightarrow> nat \<Rightarrow> nat \<Rightarrow> nat \<Rightarrow> (byte \<Rightarrow> bool) \<Rightarrow> nat \<Rightarrow> nat \<times> byte list" where
  "numeric_ref src lenSrc start base digit lim =
    (case find_semicolon src start lim of
       None \<Rightarrow> (0, [])
     | Some stop \<Rightarrow>
         (let ds = drop start (take stop src) in
          if list_all digit ds then
            (Suc stop, utf8char (numeric_codepoint (strtoul32 base ds)))
          else (0, [])))"

definition named_ref :: "byte list \<Rightarrow> nat \<times> byte list" where
  "named_ref src =
    (let n = length (takeWhile ref_name_byte (drop 1 src)) in
     if n < 2 \<or> 31 < n then (0, [])
     else
       (let lenRef = (if byte_at src (n + 1) = 59 then n + 1 else n);
            ref = take lenRef (drop 1 src)
        in if ref2codepoint ref \<noteq> 0 then (lenRef + 1, utf8char (ref2codepoint ref))
           else case ref2codepoint2 ref of
             None \<Rightarrow> (0, [])
           | Some (one, two) \<Rightarrow>
               if one = 0 then (0, []) else (lenRef + 1, utf8char one @ utf8char two)))"

definition decodeHtmlRef :: "byte list \<Rightarrow> nat \<Rightarrow> nat \<times> byte list" where
  "decodeHtmlRef src lenSrc =
    (if lenSrc < 4 \<or> byte_at src 0 \<noteq> 38 then (0, [])
     else if byte_at src 1 = 35 then
       (if byte_at src 2 = 120 \<or> byte_at src 2 = 88
        then numeric_ref src lenSrc 3 16 is_xdigit (lenSrc - 3)
        else numeric_ref src lenSrc 2 10 is_digit (lenSrc - 3))
     else named_ref src)"

text \<open>\<open>getHtmlChar\<close>: the number of bytes to skip (negative: invalid) and the decoded bytes.\<close>

definition getHtmlChar :: "byte list \<Rightarrow> nat \<Rightarrow> int \<times> byte list" where
  "getHtmlChar src lenSrc =
    (case decodeHtmlRef src lenSrc of (lenRef, decoded) \<Rightarrow>
       if 0 < lenRef then (int lenRef, decoded)
       else (let len = validUtf8 (byte_at src 0) (drop 1 (take lenSrc src)) False
             in if 0 < len then (len, take (nat len) src) else (len, [])))"

section \<open>Appending a character\<close>

text \<open>\<open>prevChar\<close> goes back from position \<open>i\<close>; \<open>stop\<close> is one behind the position it started at.
  No character found is \<open>None\<close>.\<close>

definition cet_content :: "byte \<Rightarrow> bool" where
  "cet_content c \<longleftrightarrow> c = 0x0A \<or> c = 0x0B \<or> c \<le> 0x03 + 1 \<or> (0x1A \<le> c \<and> c < 127)"

fun prevChar :: "byte list \<Rightarrow> nat \<Rightarrow> nat \<Rightarrow> byte list option" where
  "prevChar src stop 0 = None"
| "prevChar src stop (Suc i) =
    (let c = byte_at src i in
     if cet_content c then Some [c]
     else if 127 < c \<and> 0 < validUtf8 c (drop (Suc i) (take stop src)) False then
       Some (take (nat (validUtf8 c (drop (Suc i) (take stop src)) False)) (drop i src))
     else prevChar src stop i)"

definition store_at :: "byte list \<Rightarrow> nat \<Rightarrow> byte list \<Rightarrow> byte list" where
  "store_at src k bs = take k src @ bs @ drop (k + length bs) src"

definition prev_bytes :: "byte list option \<Rightarrow> byte list" where
  "prev_bytes p = (case p of None \<Rightarrow> [] | Some bs \<Rightarrow> bs)"

text \<open>The tests of the last part of \<open>addHtmlCharacter\<close>, on an invisible character.\<close>

definition drop_invisible :: "byte list \<Rightarrow> bool" where
  "drop_invisible prev \<longleftrightarrow>
     prev = [] \<or> 0 < charInvisible prev \<or> 0 < charSpace prev \<or> hd prev = 0x0A \<or> hd prev = 127
     \<or> (0x1A \<le> hd prev \<and> hd prev < 32)"

function addHtmlCharacter :: "byte list \<Rightarrow> nat \<Rightarrow> nat \<Rightarrow> nat \<Rightarrow> byte list \<times> nat \<times> nat" where
  "addHtmlCharacter src lenSrc posInput lenOut =
    (case getHtmlChar (drop posInput src) (lenSrc - posInput) of (skip, dec) \<Rightarrow>
       if skip \<le> 0 then (store_at src lenOut [63], Suc lenOut, 1)
       else
         (let prev = prev_bytes (prevChar src lenOut lenOut) in
          if 0 < charSpace dec then
            (if 0 < charInvisible prev then
               addHtmlCharacter src lenSrc posInput (lenOut - charInvisible prev)
             else if prev \<noteq> [] \<and> 32 < hd prev \<and> hd prev \<noteq> 127 then
               (store_at src lenOut [32], Suc lenOut, nat skip)
             else (src, lenOut, nat skip))
          else if 0 < charInvisible dec \<and> drop_invisible prev then (src, lenOut, nat skip)
          else if length dec = 1 \<and> (hd dec < 32 \<or> hd dec = 127) then (src, lenOut, 1)
          else (store_at src lenOut dec, lenOut + length dec, nat skip)))"
  by pat_completeness auto
termination
proof (relation "measure (\<lambda>(src, lenSrc, posInput, lenOut). lenOut)")
  fix src :: "byte list" and lenSrc posInput lenOut p skip dec prev
  assume "prev = prev_bytes (prevChar src lenOut lenOut)" and inv: "0 < charInvisible prev"
  then have "0 < lenOut" by (cases lenOut) (auto simp: prev_bytes_def charInvisible_def)
  then show "((src, lenSrc, posInput, lenOut - charInvisible prev), src, lenSrc, posInput, lenOut)
      \<in> measure (\<lambda>(src, lenSrc, posInput, lenOut). lenOut)"
    using inv by simp
qed simp

declare addHtmlCharacter.simps [simp del]

section \<open>Reading a code point back\<close>

fun utf8_read :: "byte list \<Rightarrow> u32" where
  "utf8_read [a] = ucast a"
| "utf8_read [a, b] = push_bit 6 (take_bit 5 (ucast a)) OR take_bit 6 (ucast b)"
| "utf8_read [a, b, c] =
     push_bit 12 (take_bit 4 (ucast a)) OR push_bit 6 (take_bit 6 (ucast b)) OR take_bit 6 (ucast c)"
| "utf8_read [a, b, c, d] =
     push_bit 18 (take_bit 3 (ucast a)) OR push_bit 12 (take_bit 6 (ucast b))
       OR push_bit 6 (take_bit 6 (ucast c)) OR take_bit 6 (ucast d)"
| "utf8_read _ = 0"

lemma bit_flag:
  assumes "k = push_bit i 1" "v = push_bit j 1" "j < 8"
  shows "bit (flag cp k v) n \<longleftrightarrow> n = j \<and> bit cp i"
proof -
  have "cp AND k \<noteq> 0 \<longleftrightarrow> bit cp i" by (simp only: assms(1) bit_iff_and_push_bit_not_eq_0)
  moreover have "bit v n \<longleftrightarrow> n = j"
    using assms(3) unfolding assms(2) by (simp only: bit_push_bit_iff bit_1_iff) auto
  ultimately show ?thesis by (auto simp: flag_def)
qed
lemma flag_bits:
  "bit (flag cp 64 1) n \<longleftrightarrow> n = 0 \<and> bit cp 6" "bit (flag cp 128 2) n \<longleftrightarrow> n = 1 \<and> bit cp 7"
  "bit (flag cp 256 4) n \<longleftrightarrow> n = 2 \<and> bit cp 8" "bit (flag cp 512 8) n \<longleftrightarrow> n = 3 \<and> bit cp 9"
  "bit (flag cp 1024 16) n \<longleftrightarrow> n = 4 \<and> bit cp 10" "bit (flag cp 2048 32) n \<longleftrightarrow> n = 5 \<and> bit cp 11"
  "bit (flag cp 4096 1) n \<longleftrightarrow> n = 0 \<and> bit cp 12" "bit (flag cp 8192 2) n \<longleftrightarrow> n = 1 \<and> bit cp 13"
  "bit (flag cp 16384 4) n \<longleftrightarrow> n = 2 \<and> bit cp 14" "bit (flag cp 32768 8) n \<longleftrightarrow> n = 3 \<and> bit cp 15"
  "bit (flag cp 65536 16) n \<longleftrightarrow> n = 4 \<and> bit cp 16" "bit (flag cp 131072 32) n \<longleftrightarrow> n = 5 \<and> bit cp 17"
  "bit (flag cp 262144 1) n \<longleftrightarrow> n = 0 \<and> bit cp 18" "bit (flag cp 524288 2) n \<longleftrightarrow> n = 1 \<and> bit cp 19"
  "bit (flag cp 1048576 4) n \<longleftrightarrow> n = 2 \<and> bit cp 20"
  by (rule bit_flag; simp)+
lemma bit_lead:
  "bit (192 :: byte) n \<longleftrightarrow> n = 6 \<or> n = 7" "bit (224 :: byte) n \<longleftrightarrow> n = 5 \<or> n = 6 \<or> n = 7"
  "bit (240 :: byte) n \<longleftrightarrow> n = 4 \<or> n = 5 \<or> n = 6 \<or> n = 7" "bit (128 :: byte) n \<longleftrightarrow> n = 7"
  by (cases "n < 8"; auto simp: less_Suc_eq numeral_eq_Suc dest: bit_imp_le_length)+
lemma bit_63: "bit (63 :: u32) n \<longleftrightarrow> n < 6"
proof -
  have "(63 :: u32) = mask 6" by (simp add: mask_eq_exp_minus_1)
  then show ?thesis by (simp only: bit_mask_iff) auto
qed
lemmas cp_bits = flag_bits bit_lead bit_63 bit_or_iff bit_and_iff bit_ucast_iff bit_take_bit_iff
  bit_push_bit_iff


lemma utf8char_forms:
  "32 \<le> cp \<Longrightarrow> cp \<le> 0x7F \<Longrightarrow> cp \<noteq> 127 \<Longrightarrow> utf8char cp = [ucast cp]"
  "0x7F < cp \<Longrightarrow> cp \<le> 0x7FF \<Longrightarrow> utf8char cp =
     [192 OR flag cp 1024 16 OR flag cp 512 8 OR flag cp 256 4 OR flag cp 128 2 OR flag cp 64 1,
      128 OR ucast (cp AND 63)]"
  "0x7FF < cp \<Longrightarrow> cp \<le> 0xFFFF \<Longrightarrow> utf8char cp =
     [224 OR flag cp 32768 8 OR flag cp 16384 4 OR flag cp 8192 2 OR flag cp 4096 1,
      128 OR flag cp 2048 32 OR flag cp 1024 16 OR flag cp 512 8 OR flag cp 256 4
        OR flag cp 128 2 OR flag cp 64 1,
      128 OR ucast (cp AND 63)]"
  "0xFFFF < cp \<Longrightarrow> cp \<le> 0x10FFFF \<Longrightarrow> utf8char cp =
     [240 OR flag cp 1048576 4 OR flag cp 524288 2 OR flag cp 262144 1,
      128 OR flag cp 131072 32 OR flag cp 65536 16 OR flag cp 32768 8 OR flag cp 16384 4
        OR flag cp 8192 2 OR flag cp 4096 1,
      128 OR flag cp 2048 32 OR flag cp 1024 16 OR flag cp 512 8 OR flag cp 256 4
        OR flag cp 128 2 OR flag cp 64 1,
      128 OR ucast (cp AND 63)]"
  by (unfold utf8char_def, auto simp: word_less_nat_alt word_le_nat_alt)

lemma utf8_read_two:
  assumes "0x7F < cp" "cp \<le> 0x7FF"
  shows "utf8_read (utf8char cp) = cp"
proof (rule bit_word_eqI)
  fix n assume n: "n < LENGTH(32)"
  have "cp < 2 ^ 11" using assms(2) by (simp add: word_less_nat_alt word_le_nat_alt)
  then have b: "bit cp n \<Longrightarrow> n < 11" by (rule word_bit_bound) simp_all
  have "11 \<le> n \<or> n = 10 \<or> n = 9 \<or> n = 8 \<or> n = 7 \<or> n = 6 \<or> n
      = 5 \<or> n = 4 \<or> n = 3 \<or> n = 2 \<or> n = 1 \<or> n = 0"
    by arith
  then have "bit (utf8_read (utf8char cp)) n \<longleftrightarrow> n < 11 \<and> bit cp n"
    using n unfolding utf8char_forms(2) [OF assms] utf8_read.simps
    by (elim disjE; hypsubst?; simp only: cp_bits; simp)
  then show "bit (utf8_read (utf8char cp)) n = bit cp n" using b by auto
qed

lemma utf8_read_three:
  assumes "0x7FF < cp" "cp \<le> 0xFFFF"
  shows "utf8_read (utf8char cp) = cp"
proof (rule bit_word_eqI)
  fix n assume n: "n < LENGTH(32)"
  have "cp < 2 ^ 16" using assms(2) by (simp add: word_less_nat_alt word_le_nat_alt)
  then have b: "bit cp n \<Longrightarrow> n < 16" by (rule word_bit_bound) simp_all
  have "16 \<le> n \<or> n = 15 \<or> n = 14 \<or> n = 13 \<or> n = 12 \<or> n = 11
      \<or> n = 10 \<or> n = 9 \<or> n = 8 \<or> n = 7 \<or> n = 6 \<or> n = 5 \<or> n
      = 4 \<or> n = 3 \<or> n = 2 \<or> n = 1 \<or> n = 0"
    by arith
  then have "bit (utf8_read (utf8char cp)) n \<longleftrightarrow> n < 16 \<and> bit cp n"
    using n unfolding utf8char_forms(3) [OF assms] utf8_read.simps
    by (elim disjE; hypsubst?; simp only: cp_bits; simp)
  then show "bit (utf8_read (utf8char cp)) n = bit cp n" using b by auto
qed

lemma utf8_read_four:
  assumes "0xFFFF < cp" "cp \<le> 0x10FFFF"
  shows "utf8_read (utf8char cp) = cp"
proof (rule bit_word_eqI)
  fix n assume n: "n < LENGTH(32)"
  have "cp < 2 ^ 21" using assms(2) by (simp add: word_less_nat_alt word_le_nat_alt)
  then have b: "bit cp n \<Longrightarrow> n < 21" by (rule word_bit_bound) simp_all
  have "21 \<le> n \<or> n = 20 \<or> n = 19 \<or> n = 18 \<or> n = 17 \<or> n = 16
      \<or> n = 15 \<or> n = 14 \<or> n = 13 \<or> n = 12 \<or> n = 11 \<or> n = 10
      \<or> n = 9 \<or> n = 8 \<or> n = 7 \<or> n = 6 \<or> n = 5 \<or> n = 4 \<or> n
      = 3 \<or> n = 2 \<or> n = 1 \<or> n = 0"
    by arith
  then have "bit (utf8_read (utf8char cp)) n \<longleftrightarrow> n < 21 \<and> bit cp n"
    using n unfolding utf8char_forms(4) [OF assms] utf8_read.simps
    by (elim disjE; hypsubst?; simp only: cp_bits; simp)
  then show "bit (utf8_read (utf8char cp)) n = bit cp n" using b by auto
qed

lemma cont_bits: "cont c \<longleftrightarrow> bit c 7 \<and> \<not> bit c 6"
proof
  assume "cont c"
  then have h: "c AND 192 = 128" by (simp add: cont_def)
  have "bit (c AND 192) 7 \<and> \<not> bit (c AND 192) 6" unfolding h by (simp add: bit_lead)
  then show "bit c 7 \<and> \<not> bit c 6" by (simp add: bit_and_iff bit_lead)
next
  assume h: "bit c 7 \<and> \<not> bit c 6"
  have "c AND 192 = 128"
  proof (rule bit_word_eqI)
    fix n assume "n < LENGTH(8)"
    show "bit (c AND 192) n = bit (128 :: byte) n" unfolding bit_and_iff bit_lead using h by auto
  qed
  then show "cont c" by (simp add: cont_def)
qed

lemma cont_bytes:
  "cont (128 OR ucast (cp AND 63))"
  "cont (128 OR flag cp 2048 32 OR flag cp 1024 16 OR flag cp 512 8 OR flag cp 256 4
     OR flag cp 128 2 OR flag cp 64 1)"
  "cont (128 OR flag cp 131072 32 OR flag cp 65536 16 OR flag cp 32768 8 OR flag cp 16384 4
     OR flag cp 8192 2 OR flag cp 4096 1)"
  unfolding cont_bits cp_bits by simp_all

lemma lead_bytes:
  "(192 OR flag cp 1024 16 OR flag cp 512 8 OR flag cp 256 4 OR flag cp 128 2 OR flag cp 64 1)
     AND 224 = 192"
  "(224 OR flag cp 32768 8 OR flag cp 16384 4 OR flag cp 8192 2 OR flag cp 4096 1) AND 240 = 224"
  by (rule bit_word_eqI; simp only: cp_bits; auto)+

lemma lead_four_byte:
  "cp < 0x40000 \<Longrightarrow> 240 OR flag cp 1048576 4 OR flag cp 524288 2 OR flag cp 262144 1 = 240"
proof -
  assume "cp < 0x40000"
  then have "cp < 2 ^ 18" by (simp add: word_less_nat_alt)
  then have b: "bit cp n \<Longrightarrow> n < 18" for n by (rule word_bit_bound) simp_all
  show ?thesis by (rule bit_word_eqI; simp only: cp_bits; auto dest: b)
qed

lemma utf8char_ranges:
  fixes cp :: u32
  assumes "32 \<le> cp" "cp \<noteq> 127" "cp \<le> 0x10FFFF"
  obtains "cp \<le> 0x7F" | "0x7F < cp" "cp \<le> 0x7FF" | "0x7FF < cp" "cp \<le> 0xFFFF"
    | "0xFFFF < cp" "cp \<le> 0x10FFFF"
  using assms by (meson not_le)

lemma utf8char_char:
  assumes "32 \<le> cp" "cp \<noteq> 127" "cp < 0x40000"
  shows "utf8_char (utf8char cp)"
proof -
  have "cp \<le> 0x10FFFF" using assms(3) by (simp add: word_less_nat_alt word_le_nat_alt)
  from utf8char_ranges [OF assms(1,2) this] show ?thesis
  proof cases
    case 1
    have "unat (ucast cp :: byte) = unat cp" 
      using 1 by (simp add: unsigned_ucast_eq take_bit_nat_eq_self word_le_nat_alt)
    then have "32 \<le> (ucast cp :: byte) \<and> (ucast cp :: byte) < 127"
      using assms(1,2) 1 by (simp add: word_le_nat_alt word_less_nat_alt word_unat_eq_iff)
    then show ?thesis using 1 assms utf8char_forms(1) [of cp] by (simp add: utf8_char_def text_ascii_def)
  next
    case 2
    then show ?thesis unfolding utf8char_forms(2) [OF 2] by (simp add: utf8_char_def lead_bytes cont_bytes)
  next
    case 3
    then show ?thesis unfolding utf8char_forms(3) [OF 3] by (simp add: utf8_char_def lead_bytes cont_bytes)
  next
    case 4
    then show ?thesis unfolding utf8char_forms(4) [OF 4] lead_four_byte [OF assms(3)]
      by (simp add: utf8_char_def cont_bytes)
  qed
qed

lemma utf8_read_utf8char:
  assumes "32 \<le> cp" "cp \<noteq> 127" "cp \<le> 0x10FFFF"
  shows "utf8_read (utf8char cp) = cp"
  using assms
proof (cases rule: utf8char_ranges)
  case 1
  then have "cp < 2 ^ 8" by (simp add: word_less_nat_alt word_le_nat_alt)
  then have b: "bit cp n \<Longrightarrow> n < 8" for n by (rule word_bit_bound) simp_all
  have "ucast (ucast cp :: byte) = cp" 
   by (rule bit_word_eqI) (auto simp: bit_ucast_iff dest: b)
  then show ?thesis using 1 assms utf8char_forms(1) [of cp] by simp
qed (rule utf8_read_two utf8_read_three utf8_read_four; assumption)+

lemma length_utf8char: "length (utf8char cp) \<le> 4"
  by (simp add: utf8char_def)

section \<open>Lengths\<close>

lemma find_semicolon_ge: "find_semicolon src k n = Some stop \<Longrightarrow> k \<le> stop"
  by (induction src k n rule: find_semicolon.induct) (auto split: if_splits)

lemma utf8char_none: "utf8char (numeric_codepoint (strtoul32 base [])) = []"
  by (simp add: strtoul32_def numeric_codepoint_def utf8char_def)

lemma utf8char_len8: "length (utf8char a) \<le> 8" "length (utf8char a @ utf8char b) \<le> 8"
  using length_utf8char [of a] length_utf8char [of b] by simp_all

lemma numeric_ref_len:
  assumes "numeric_ref src lenSrc start base digit lim = (lenRef, dec)"
  shows "length dec \<le> 4" and "0 < lenRef \<Longrightarrow> start < lenRef"
    and "lenRef = Suc start \<Longrightarrow> dec = []"
proof -
  have "length dec \<le> 4 \<and> (0 < lenRef \<longrightarrow> start < lenRef) \<and> (lenRef = Suc start \<longrightarrow> dec = [])"
  proof (cases "find_semicolon src start lim")
    case None
    then show ?thesis using assms by (simp add: numeric_ref_def)
  next
    case (Some stop)
    have "start \<le> stop" by (rule find_semicolon_ge [OF Some])
    moreover have "drop start (take stop src) = []" if "stop = start" using that by simp
    ultimately show ?thesis
      using assms Some length_utf8char utf8char_none [of base]
      by (auto simp: numeric_ref_def Let_def split: if_splits)
  qed
  then show "length dec \<le> 4" "0 < lenRef \<Longrightarrow> start < lenRef" "lenRef = Suc start \<Longrightarrow> dec = []"
    by auto
qed

lemma named_ref_len: "named_ref src = (lenRef, dec) \<Longrightarrow> length dec \<le> 8"
  unfolding named_ref_def Let_def
  by (auto simp only: prod.inject list.size zero_le split: if_splits option.splits
      intro: utf8char_len8)

lemma decodeHtmlRef_len: "decodeHtmlRef src lenSrc = (lenRef, dec) \<Longrightarrow> length dec \<le> 8"
  unfolding decodeHtmlRef_def
  by (auto dest: numeric_ref_len(1) named_ref_len split: if_splits)

lemma decodeHtmlRef_numeric_len:
  assumes "decodeHtmlRef src lenSrc = (lenRef, dec)" "0 < lenRef" "byte_at src 0 \<noteq> 38 \<or> byte_at src 1 = 35"
  shows "length dec \<le> lenRef"
proof -
  obtain start base digit where n: "numeric_ref src lenSrc start base digit (lenSrc - 3) = (lenRef, dec)"
      and "2 \<le> start"
    using assms by (auto simp: decodeHtmlRef_def split: if_splits)
  then show ?thesis using numeric_ref_len [OF n] assms(2) by (cases "lenRef = Suc start") auto
qed

lemma getHtmlChar_len:
  assumes "getHtmlChar src lenSrc = (skip, dec)" "0 < skip"
  shows "length dec \<le> 8"
    and "byte_at src 0 \<noteq> 38 \<or> byte_at src 1 = 35 \<Longrightarrow> length dec \<le> nat skip"
proof -
  obtain lenRef d where d: "decodeHtmlRef src lenSrc = (lenRef, d)" by fastforce
  have v: "validUtf8 a b False \<le> 4" for a b by (simp add: validUtf8_def)
  show "length dec \<le> 8"
    using assms d decodeHtmlRef_len [OF d] v [of "byte_at src 0" "drop 1 (take lenSrc src)"]
    by (auto simp: getHtmlChar_def Let_def split: if_splits)
  show "byte_at src 0 \<noteq> 38 \<or> byte_at src 1 = 35 \<Longrightarrow> length dec \<le> nat skip"
    using assms d decodeHtmlRef_numeric_len [OF d]
    by (auto simp: getHtmlChar_def Let_def split: if_splits)
qed

lemma addHtmlCharacter_len:
  "addHtmlCharacter src lenSrc posInput lenOut = (src', lenOut', skip) \<Longrightarrow>
   1 \<le> skip \<and> lenOut' \<le> lenOut + 8 \<and>
   (byte_at src posInput \<noteq> 38 \<or> byte_at src (Suc posInput) = 35 \<longrightarrow> lenOut' \<le> lenOut + skip)"
proof (induction src lenSrc posInput lenOut rule: addHtmlCharacter.induct)
  case (1 src lenSrc posInput lenOut)
  obtain s dec where g: "getHtmlChar (drop posInput src) (lenSrc - posInput) = (s, dec)" by fastforce
  have at: "byte_at (drop posInput src) 0 = byte_at src posInput"
      "byte_at (drop posInput src) 1 = byte_at src (Suc posInput)"
    by (simp_all add: byte_at_def less_diff_conv add.commute)
  show ?case
  proof (cases "s \<le> 0")
    case True
    then show ?thesis using "1.prems" g by (subst (asm) addHtmlCharacter.simps) auto
  next
    case False
    let ?prev = "prev_bytes (prevChar src lenOut lenOut)"
    note len = getHtmlChar_len [OF g, unfolded at]
    show ?thesis
    proof (cases "0 < charSpace dec \<and> 0 < charInvisible ?prev")
      case True
      then have eq: "addHtmlCharacter src lenSrc posInput lenOut
          = addHtmlCharacter src lenSrc posInput (lenOut - charInvisible ?prev)"
        using g False by (subst addHtmlCharacter.simps) (simp add: Let_def)
      show ?thesis
        using "1.IH" [OF g [symmetric] False refl _ _ "1.prems" [unfolded eq]] True by auto
    next
      case nspace: False
      then show ?thesis
        using "1.prems" g False len
        by (subst (asm) addHtmlCharacter.simps) (auto simp: Let_def split: if_splits)
    qed
  qed
qed

section \<open>Properties\<close>

text \<open>A code point can be read back from the bytes \<open>utf8char\<close> writes for it, for the whole
  Unicode range above the control characters, and below 0x40000 the bytes pass the text check.\<close>

theorem utf8char_correct:
  "32 \<le> cp \<Longrightarrow> cp \<noteq> 127 \<Longrightarrow> cp \<le> 0x10FFFF \<Longrightarrow>
   utf8_read (utf8char cp) = cp \<and> (cp < 0x40000 \<longrightarrow> isValidUtf8 (utf8char cp))"
  using utf8_read_utf8char utf8char_char isValidUtf8_append [of "utf8char cp" "[]"] by simp

theorem utf8char_correct_witness:
  "utf8_read (utf8char 0x20AC) = 0x20AC \<and> isValidUtf8 (utf8char 0x20AC)"
  using utf8char_correct [of "0x20AC"] by simp

text \<open>Appending a character always advances the reader by at least one byte, never adds more
  than the eight bytes its local buffer holds, and for plain characters and numeric references
  the output does not overtake the reader: it grows by at most the bytes consumed.\<close>

theorem addHtmlCharacter_bounds:
  "addHtmlCharacter src lenSrc posInput lenOut = (src', lenOut', skip) \<Longrightarrow>
   1 \<le> skip \<and> lenOut' \<le> lenOut + 8 \<and>
   (byte_at src posInput \<noteq> 38 \<or> byte_at src (Suc posInput) = 35 \<longrightarrow> lenOut' \<le> lenOut + skip)"
  by (rule addHtmlCharacter_len)

theorem addHtmlCharacter_bounds_witness:
  "addHtmlCharacter [65, 66] 2 1 1 = ([65, 66], 2, 1) \<and> (1 :: nat) \<le> 1 \<and> (2 :: nat) \<le> 1 + 8"
proof -
  have "addHtmlCharacter [65, 66] 2 1 1 = ([65, 66], 2, 1)" by code_simp
  with addHtmlCharacter_bounds [OF this] show ?thesis by simp
qed

text \<open>The hash of \<open>nGt;\<close> lies between the labels of the second table.\<close>

lemma nGt_early: "case_of ref_table_0 0x1af2c4 = None" "case_of ref_table_1 0x1af2c4 = None"
  by (simp_all add: ref_table_0_def ref_table_1_def)

text \<open>A named reference can be longer decoded than written.  The six bytes of \<open>nGt\<close> replace the
  five of the reference, so the text byte behind it is overwritten before it is read; and after
  a layout character the removal of an invisible character cuts the wrong bytes, leaving half
  of it in the output.\<close>

theorem addHtmlCharacter_damage:
  "addHtmlCharacter (str ''&nGt;x'') 6 0 0 = ([226, 137, 171, 226, 131, 146], 6, 5) \<and>
   addHtmlCharacter [65, 0xE2, 0x80, 0x8B, 0x16, 32] 6 5 5 = ([65, 0xE2, 32, 0x8B, 0x16, 32], 3, 1)"
proof
  have src: "str ''&nGt;x'' = [38, 110, 71, 116, 59, 120]" by (simp add: str_def)
  have hash: "unat (cpHash [110, 71, 116, 59]) = 0x1af2c4" by (simp add: cpHash_def)
  have one: "ref2codepoint [110, 71, 116, 59] = 0"
    unfolding ref2codepoint_def hash ref_tables_def
    by (simp add: nGt_early ref_tables_labels [THEN case_of_below] ref_tables_first)
  have two: "ref2codepoint2 [110, 71, 116, 59] = Some (0x226B, 0x20D2)"
    unfolding ref2codepoint2_def hash by (simp add: ref_table_two_def)
  have utf: "utf8char 0x226B @ utf8char 0x20D2 = [226, 137, 171, 226, 131, 146]" by code_simp
  have "named_ref [38, 110, 71, 116, 59, 120] = (5, [226, 137, 171, 226, 131, 146])"
    using one two utf by (simp add: named_ref_def byte_at_def ref_name_byte_def ctype_defs)
  then have "getHtmlChar [38, 110, 71, 116, 59, 120] 6 = (5, [226, 137, 171, 226, 131, 146])"
    by (simp add: getHtmlChar_def decodeHtmlRef_def byte_at_def)
  then show "addHtmlCharacter (str ''&nGt;x'') 6 0 0 = ([226, 137, 171, 226, 131, 146], 6, 5)"
    unfolding src by (subst addHtmlCharacter.simps)
      (simp add: charSpace_def charInvisible_def store_at_def Let_def)
  show "addHtmlCharacter [65, 0xE2, 0x80, 0x8B, 0x16, 32] 6 5 5
      = ([65, 0xE2, 32, 0x8B, 0x16, 32], 3, 1)" by code_simp
qed

end
