(* ===== verification/Account_Types.thy ===== *)
theory Account_Types
  imports Prelude
begin

text \<open>
  The data of AEM-Account (\<^verbatim>\<open>src/account/aem_user.h\<close> and the globals of \<^verbatim>\<open>src/account/IO.c\<close>).
  A user is a record with the fields of \<^verbatim>\<open>struct aem_user\<close>, the bit-fields as words of their
  width; \<^verbatim>\<open>user[AEM_USERCOUNT]\<close> is a list of 4096 optional users (a null pointer is \<open>None\<close>).

  The cryptographic library is not part of the sources: its functions are the fields of
  \<open>acc_ext\<close>, arguments of the operations that call them; so are the forbidden hashes of
  \<^verbatim>\<open>Data/address.h\<close>, which the build generates.  What one call takes from its
  surroundings (the clock, random bytes, the reply of AEM-Storage, the outcome of allocations
  and file writes) is the record \<open>acc_env\<close>.
\<close>

section \<open>Constants of \<^verbatim>\<open>Global.h\<close> and \<^verbatim>\<open>Config.h\<close>\<close>

definition AEM_USERCOUNT :: nat where "AEM_USERCOUNT = 4096"
definition AEM_ADDRESSES_PER_USER :: nat where "AEM_ADDRESSES_PER_USER = 31"
definition AEM_LEN_PRIVATE :: nat where "AEM_LEN_PRIVATE = 6177"
definition AEM_API_REQ_DATA_LEN :: nat where "AEM_API_REQ_DATA_LEN = 16"
definition AEM_API_REQ_LEN :: nat where "AEM_API_REQ_LEN = 39"
definition AEM_API_BODY_KEYSIZE :: nat where "AEM_API_BODY_KEYSIZE = 32"
definition AEM_LEN_APIRESP_BASE :: nat where "AEM_LEN_APIRESP_BASE = 83"
definition AEM_USERLEVEL_MAX :: nat where "AEM_USERLEVEL_MAX = 3"
definition AEM_MINLEVEL_SENDEMAIL :: nat where "AEM_MINLEVEL_SENDEMAIL = 2"
definition AEM_TS_BEGIN :: int where "AEM_TS_BEGIN = 1735689600"
definition AEM_API_TIMEDIFF :: int where "AEM_API_TIMEDIFF = 5000"

definition AEM_ADDR_FLAG_SHIELD :: byte where "AEM_ADDR_FLAG_SHIELD = 128"
definition AEM_ADDR_FLAG_ORIGIN :: byte where "AEM_ADDR_FLAG_ORIGIN = 32"
definition AEM_ADDR_FLAG_SECURE :: byte where "AEM_ADDR_FLAG_SECURE = 16"
definition AEM_ADDR_FLAG_ATTACH :: byte where "AEM_ADDR_FLAG_ATTACH = 8"
definition AEM_ADDR_FLAG_ALLVER :: byte where "AEM_ADDR_FLAG_ALLVER = 4"
definition AEM_ADDR_FLAG_ACCEXT :: byte where "AEM_ADDR_FLAG_ACCEXT = 2"
definition AEM_ADDR_FLAG_ACCINT :: byte where "AEM_ADDR_FLAG_ACCINT = 1"
definition AEM_ADDR_FLAGS_DEFAULT :: byte where
  "AEM_ADDR_FLAGS_DEFAULT = AEM_ADDR_FLAG_ACCEXT OR AEM_ADDR_FLAG_ALLVER OR AEM_ADDR_FLAG_ATTACH"

definition AEM_ADDR32_ADMIN :: "byte list" where
  "AEM_ADDR32_ADMIN = [0xa6, 0xd0, 0x35, 0x0e, 0x75, 0x85, 0x68, 0x18]"
definition AEM_ADDR32_SYSTEM :: "byte list" where
  "AEM_ADDR32_SYSTEM = [0x36, 0x7d, 0x9d, 0x3a, 0x80, 0, 0, 0, 0, 0]"

lemmas addr_flag_defs = AEM_ADDR_FLAG_SHIELD_def AEM_ADDR_FLAG_ORIGIN_def AEM_ADDR_FLAG_SECURE_def
  AEM_ADDR_FLAG_ATTACH_def AEM_ADDR_FLAG_ALLVER_def AEM_ADDR_FLAG_ACCEXT_def
  AEM_ADDR_FLAG_ACCINT_def AEM_ADDR_FLAGS_DEFAULT_def

lemmas acc_consts = AEM_USERCOUNT_def AEM_ADDRESSES_PER_USER_def AEM_LEN_PRIVATE_def
  AEM_API_REQ_DATA_LEN_def AEM_API_REQ_LEN_def AEM_API_BODY_KEYSIZE_def AEM_LEN_APIRESP_BASE_def
  AEM_USERLEVEL_MAX_def AEM_MINLEVEL_SENDEMAIL_def AEM_TS_BEGIN_def AEM_API_TIMEDIFF_def

section \<open>Status and response codes\<close>

definition AEM_API_STATUS_OK :: byte where "AEM_API_STATUS_OK = 0x00"
definition AEM_API_ERR_INTERNAL :: byte where "AEM_API_ERR_INTERNAL = 0xA0"
definition AEM_API_ERR_CMD :: byte where "AEM_API_ERR_CMD = 0xA1"
definition AEM_API_ERR_PARAM :: byte where "AEM_API_ERR_PARAM = 0xA2"
definition AEM_API_ERR_LEVEL :: byte where "AEM_API_ERR_LEVEL = 0xA6"
definition AEM_API_ERR_ACCOUNT_EXIST :: byte where "AEM_API_ERR_ACCOUNT_EXIST = 0xC0"
definition AEM_API_ERR_ACCOUNT_NOTEXIST :: byte where "AEM_API_ERR_ACCOUNT_NOTEXIST = 0xC1"
definition AEM_API_ERR_ACCOUNT_FORBIDMASTER :: byte where "AEM_API_ERR_ACCOUNT_FORBIDMASTER = 0xC2"
definition AEM_API_ERR_ACCOUNT_DELETE_NOSTORAGE :: byte where
  "AEM_API_ERR_ACCOUNT_DELETE_NOSTORAGE = 0xC3"
definition AEM_API_ERR_ADDRESS_CREATE_INUSE :: byte where "AEM_API_ERR_ADDRESS_CREATE_INUSE = 0xDA"
definition AEM_API_ERR_ADDRESS_CREATE_ATLIMIT :: byte where
  "AEM_API_ERR_ADDRESS_CREATE_ATLIMIT = 0xDB"
definition AEM_API_ERR_MESSAGE_CREATE_EXT_HDR_ADFR :: byte where
  "AEM_API_ERR_MESSAGE_CREATE_EXT_HDR_ADFR = 0xE1"
definition AEM_API_ERR_MESSAGE_CREATE_INT_OWN_ADDR :: byte where
  "AEM_API_ERR_MESSAGE_CREATE_INT_OWN_ADDR = 0xEE"
definition AEM_API_ERR_MESSAGE_CREATE_INT_REC_DENY :: byte where
  "AEM_API_ERR_MESSAGE_CREATE_INT_REC_DENY = 0xEF"

text \<open>The negative results of an internal call; a length is \<open>Inr\<close> of the bytes of the response.\<close>

datatype intcom_code = IC_OK | IC_CONTINUE | IC_ERR | IC_AUTHFAIL | IC_USAGE | IC_PERM | IC_EXIST
  | IC_NOTEXIST | IC_PARTIAL | IC_LIMIT | IC_FORBID

type_synonym reply = "intcom_code + byte list"

section \<open>Users\<close>

record aem_user =
  uak :: "byte list"
  usk :: "byte list"
  pwk :: "byte list"
  psk :: "byte list"
  pqk :: "byte list"
  private_data :: "byte list"
  addrFlag :: "byte list"
  addrHash :: "u64 list"
  lastBinTs :: "42 word"
  level :: "2 word"
  addrCount :: "5 word"
  unused_value :: "15 word"

text \<open>\<^verbatim>\<open>bzero(user, sizeof(struct aem_user))\<close>\<close>

definition zero_user :: aem_user where
  "zero_user = \<lparr>uak = replicate 40 0, usk = replicate 32 0, pwk = replicate 32 0,
     psk = replicate 56 0, pqk = replicate 1568 0, private_data = replicate AEM_LEN_PRIVATE 0,
     addrFlag = replicate AEM_ADDRESSES_PER_USER 0, addrHash = replicate AEM_ADDRESSES_PER_USER 0,
     lastBinTs = 0, level = 0, addrCount = 0, unused_value = 0\<rparr>"

definition user_sizes :: "aem_user \<Rightarrow> bool" where
  "user_sizes u \<longleftrightarrow> length (uak u) = 40 \<and> length (usk u) = 32 \<and> length (pwk u) = 32 \<and>
     length (psk u) = 56 \<and> length (pqk u) = 1568 \<and> length (private_data u) = AEM_LEN_PRIVATE \<and>
     length (addrFlag u) = AEM_ADDRESSES_PER_USER \<and> length (addrHash u) = AEM_ADDRESSES_PER_USER"

lemma zero_user_sizes [simp]: "user_sizes zero_user"
  by (simp add: user_sizes_def zero_user_def)

section \<open>State and surroundings\<close>

record account =
  user :: "aem_user option list"
  limits :: "byte list"
  api_uid :: nat
  accountKey :: "byte list"
  saltNormal :: "byte list"
  saltShield :: "byte list"
  rsaAdminKey :: "byte list"
  rsaUsersKey :: "byte list"
  account_file :: "byte list"
  settings_file :: "byte list"

record acc_ext =
  crypto_shorthash :: "byte list \<Rightarrow> byte list \<Rightarrow> u64"
  crypto_pwhash :: "byte list \<Rightarrow> byte list \<Rightarrow> (u64 \<times> u64) option"
  aegis256_encrypt :: "byte list \<Rightarrow> byte list \<Rightarrow> byte list \<Rightarrow> byte list"
  aegis256_decrypt :: "byte list \<Rightarrow> byte list \<Rightarrow> byte list \<Rightarrow> byte list option"
  chacha20_ietf :: "byte list \<Rightarrow> byte list \<Rightarrow> u32 \<Rightarrow> nat \<Rightarrow> byte list"
  onetimeauth_verify :: "byte list \<Rightarrow> byte list \<Rightarrow> byte list \<Rightarrow> bool"
  addrhash_admin :: "u64 list"
  addrhash_system :: u64
  aes256gcm_decrypt :: "byte list \<Rightarrow> byte list \<Rightarrow> byte list \<Rightarrow> byte list option"

record acc_env =
  now :: int
  rand_addr :: "byte list"
  rand_nonce :: "byte list"
  storage_reply :: "intcom_code"
  alloc_res :: bool
  alloc_ok :: bool
  written :: "nat option"

text \<open>
  \<open>chacha20_ietf key nonce ic n\<close> are \<open>n\<close> bytes of the key stream from block \<open>ic\<close>;
  \<open>alloc_res\<close> is the outcome of the allocation of the response, \<open>alloc_ok\<close> of the others;
  \<open>written\<close> is \<open>None\<close> when a file cannot be opened, otherwise the number of bytes that reach
  it (at most those given); the files are truncated when they are opened.
\<close>

definition get_user :: "account \<Rightarrow> nat \<Rightarrow> aem_user option" where
  "get_user s uid = (if uid < length (user s) then user s ! uid else None)"

definition set_user :: "account \<Rightarrow> nat \<Rightarrow> aem_user option \<Rightarrow> account" where
  "set_user s uid u = s\<lparr>user := (user s)[uid := u]\<rparr>"

lemma get_set_user [simp]:
  "get_user (set_user s a u) b = (if a = b \<and> a < length (user s) then u else get_user s b)"
  by (auto simp: get_user_def set_user_def)

lemma length_set_user [simp, len_simps]: "length (user (set_user s uid u)) = length (user s)"
  by (simp add: set_user_def)

end
