(* ===== verification/Addr32.thy ===== *)
theory Addr32
  imports Prelude
begin

text \<open>
  \<^verbatim>\<open>src/Common/Addr32.c\<close>: the 5-bit text encoding of All-Ears addresses.
  \<open>charToAddr32\<close> is the character switch, \<open>addr32_fill\<close> the loop of \<open>addr32_store\<close> that
  collects at most 16 codes in the zeroed array \<^verbatim>\<open>src\<close> (an invalid character leaves its
  marker 0xFF in the next free slot), \<open>addr32_pack\<close> the ten output expressions.

  Reference view: \<open>addr32_codes\<close> is the list of 5-bit codes a text stands for, and
  \<open>addr32_unpack\<close> reads such a list back from the ten bytes.  The main lemma says that the
  encoding can be read back when the text ends in a valid character (or gives 16 codes), up
  to the top bit of the sixteenth code, for which the format has no room.
\<close>

section \<open>The code\<close>

definition charToAddr32 :: "byte \<Rightarrow> byte" where
  "charToAddr32 src =
    (if src = 48 \<or> src = 79 \<or> src = 111 then 0 \<comment> \<open>0 O o\<close>
     else if src = 49 \<or> src = 73 \<or> src = 105 \<or> src = 76 \<or> src = 108 then 1 \<comment> \<open>1 I i L l\<close>
     else if src = 50 then 2 else if src = 51 then 3 else if src = 52 then 4
     else if src = 53 then 5 else if src = 54 then 6 else if src = 55 then 7
     else if src = 56 then 8 else if src = 57 then 9 \<comment> \<open>2 to 9\<close>
     else if src = 65 \<or> src = 97 then 10 else if src = 66 \<or> src = 98 then 11 \<comment> \<open>A B\<close>
     else if src = 67 \<or> src = 99 then 12 else if src = 68 \<or> src = 100 then 13 \<comment> \<open>C D\<close>
     else if src = 69 \<or> src = 101 then 14 else if src = 70 \<or> src = 102 then 15 \<comment> \<open>E F\<close>
     else if src = 71 \<or> src = 103 then 16 else if src = 72 \<or> src = 104 then 17 \<comment> \<open>G H\<close>
     else if src = 74 \<or> src = 106 then 18 else if src = 75 \<or> src = 107 then 19 \<comment> \<open>J K\<close>
     else if src = 77 \<or> src = 109 then 20 else if src = 78 \<or> src = 110 then 21 \<comment> \<open>M N\<close>
     else if src = 80 \<or> src = 112 then 22 else if src = 81 \<or> src = 113 then 23 \<comment> \<open>P Q\<close>
     else if src = 82 \<or> src = 114 then 24 else if src = 83 \<or> src = 115 then 25 \<comment> \<open>R S\<close>
     else if src = 84 \<or> src = 116 then 26 else if src = 85 \<or> src = 117 then 27 \<comment> \<open>T U\<close>
     else if src = 86 \<or> src = 118 \<or> src = 87 \<or> src = 119 then 28 \<comment> \<open>V v W w\<close>
     else if src = 88 \<or> src = 120 then 29 else if src = 89 \<or> src = 121 then 30 \<comment> \<open>X Y\<close>
     else if src = 90 \<or> src = 122 then 31 \<comment> \<open>Z\<close>
     else 0xFF)"

fun addr32_fill :: "byte list \<Rightarrow> nat \<Rightarrow> byte list \<Rightarrow> byte list \<times> nat" where
  "addr32_fill src lenSrc [] = (src, lenSrc)"
| "addr32_fill src lenSrc (c # original) =
     (let src' = src[lenSrc := charToAddr32 c];
          lenSrc' = (if src' ! lenSrc \<noteq> 0xFF then Suc lenSrc else lenSrc)
      in if lenSrc' = 16 then (src', lenSrc') else addr32_fill src' lenSrc' original)"

definition addr32_pack :: "byte list \<Rightarrow> nat \<Rightarrow> byte list" where
  "addr32_pack src lenSrc =
    [(if lenSrc = 16 then 128 OR push_bit 3 (src ! 15) else push_bit 3 (of_nat lenSrc))
        OR drop_bit 2 (src ! 0),
     push_bit 6 (src ! 0) OR push_bit 1 (src ! 1) OR drop_bit 4 (src ! 2),
     push_bit 4 (src ! 2) OR drop_bit 1 (src ! 3),
     push_bit 7 (src ! 3) OR push_bit 2 (src ! 4) OR drop_bit 3 (src ! 5),
     push_bit 5 (src ! 5) OR src ! 6,
     push_bit 3 (src ! 7) OR drop_bit 2 (src ! 8),
     push_bit 6 (src ! 8) OR push_bit 1 (src ! 9) OR drop_bit 4 (src ! 10),
     push_bit 4 (src ! 10) OR drop_bit 1 (src ! 11),
     push_bit 7 (src ! 11) OR push_bit 2 (src ! 12) OR drop_bit 3 (src ! 13),
     push_bit 5 (src ! 13) OR src ! 14]"

definition addr32_store :: "byte list \<Rightarrow> byte list" where
  "addr32_store original =
     (case addr32_fill (replicate 16 0) 0 original of (src, lenSrc) \<Rightarrow> addr32_pack src lenSrc)"

section \<open>Reference view\<close>

definition addr32_valid :: "byte \<Rightarrow> bool" where
  "addr32_valid c \<longleftrightarrow> charToAddr32 c \<noteq> 0xFF"

definition addr32_codes :: "byte list \<Rightarrow> byte list" where
  "addr32_codes s = take 16 (map charToAddr32 (filter addr32_valid s))"

text \<open>The sixteenth code keeps its low four bits only.\<close>

definition addr32_kept :: "byte list \<Rightarrow> byte list" where
  "addr32_kept cs = (if length cs = 16 then cs[15 := cs ! 15 AND 15] else cs)"

fun addr32_fives :: "byte list \<Rightarrow> byte list" where
  "addr32_fives [b0, b1, b2, b3, b4, b5, b6, b7, b8, b9] = map (\<lambda>x. x AND 31)
     [push_bit 2 b0 OR drop_bit 6 b1, drop_bit 1 b1, push_bit 4 b1 OR drop_bit 4 b2,
      push_bit 1 b2 OR drop_bit 7 b3, drop_bit 2 b3, push_bit 3 b3 OR drop_bit 5 b4, b4,
      drop_bit 3 b5, push_bit 2 b5 OR drop_bit 6 b6, drop_bit 1 b6,
      push_bit 4 b6 OR drop_bit 4 b7, push_bit 1 b7 OR drop_bit 7 b8, drop_bit 2 b8,
      push_bit 3 b8 OR drop_bit 5 b9, b9]"
| "addr32_fives _ = []"

definition addr32_unpack :: "byte list \<Rightarrow> byte list" where
  "addr32_unpack b =
    (let b0 = hd b in
     if bit b0 7 then addr32_fives b @ [drop_bit 3 b0 AND 15]
     else take (unat (drop_bit 3 b0)) (addr32_fives b))"

text \<open>
  Texts whose encoding carries no leftover marker: the 16 codes are complete, or the last
  character of the text is a valid one.
\<close>

definition addr32_clean :: "byte list \<Rightarrow> bool" where
  "addr32_clean s \<longleftrightarrow> 16 \<le> length (filter addr32_valid s) \<or> (s \<noteq> [] \<longrightarrow> addr32_valid (last s))"

section \<open>Bits\<close>

lemma and31: "(x::byte) AND 31 = take_bit 5 x"
  by (simp add: take_bit_eq_mask mask_eq_exp_minus_1)
lemma and15: "(x::byte) AND 15 = take_bit 4 x"
  by (simp add: take_bit_eq_mask mask_eq_exp_minus_1)
lemma charToAddr32_cases: "charToAddr32 c = 0xFF \<or> charToAddr32 c < 32"
  by (simp add: charToAddr32_def)
lemma five_bits: "(x::byte) < 32 \<Longrightarrow> bit x n \<Longrightarrow> n < 5"
  using nat_bit_bound [of "unat x" 5 n] by (simp add: word_less_nat_alt bit_unsigned_iff)
lemma high_bit_five: "(x::byte) < 32 \<Longrightarrow> 5 \<le> n \<Longrightarrow> \<not> bit x n"
  using five_bits by fastforce


lemma byte_five_eqI:
  assumes "(y::byte) < 32" "bit x 0 = bit y 0" "bit x 1 = bit y 1" "bit x 2 = bit y 2"
    "bit x 3 = bit y 3" "bit x 4 = bit y 4"
  shows "x AND 31 = y"
proof (rule bit_word_eqI)
  fix n :: nat
  have "n < 5 \<Longrightarrow> n \<in> {0,1,2,3,4}" by auto
  with assms show "bit (x AND 31) n = bit y n"
    unfolding and31 by (auto simp: bit_take_bit_iff dest: five_bits)
qed
lemmas shift_bits = bit_or_iff bit_push_bit_iff bit_drop_bit_eq o_apply

lemma unpack_pack: 
  fixes a0 a1 a2 a3 a4 a5 a6 a7 a8 a9 a10 a11 a12 a13 a14 h :: byte
  assumes lt: "a0 < 32" "a1 < 32" "a2 < 32" "a3 < 32" "a4 < 32" "a5 < 32" "a6 < 32" "a7 < 32"
    "a8 < 32" "a9 < 32" "a10 < 32" "a11 < 32" "a12 < 32" "a13 < 32" "a14 < 32"
  shows "addr32_fives [push_bit 3 h OR drop_bit 2 a0,
     push_bit 6 a0 OR push_bit 1 a1 OR drop_bit 4 a2, push_bit 4 a2 OR drop_bit 1 a3,
     push_bit 7 a3 OR push_bit 2 a4 OR drop_bit 3 a5, push_bit 5 a5 OR a6,
     push_bit 3 a7 OR drop_bit 2 a8, push_bit 6 a8 OR push_bit 1 a9 OR drop_bit 4 a10,
     push_bit 4 a10 OR drop_bit 1 a11, push_bit 7 a11 OR push_bit 2 a12 OR drop_bit 3 a13,
     push_bit 5 a13 OR a14]
    = [a0,a1,a2,a3,a4,a5,a6,a7,a8,a9,a10,a11,a12,a13,a14]"
  using lt unfolding addr32_fives.simps list.map list.inject
  apply (intro conjI byte_five_eqI TrueI refl; (simp only: shift_bits)?; simp add: high_bit_five flip: numeral_2_eq_2)
  done

lemma addr32_fill_props:
  "length src = 16 \<Longrightarrow> k < 16 \<Longrightarrow> addr32_fill src k s = (src', n) \<Longrightarrow>
   length src' = 16 \<and> n = min 16 (k + length (filter addr32_valid s)) \<and>
   take n src' = take n (take k src @ map charToAddr32 (filter addr32_valid s)) \<and>
   drop (Suc n) src' = drop (Suc n) src \<and>
   (n < 16 \<longrightarrow> src' ! n = (if s \<noteq> [] \<and> \<not> addr32_valid (last s) then 0xFF else src ! n))"
proof (induction s arbitrary: src k)
  case Nil
  then show ?case by simp
next
  case (Cons c s)
  let ?src = "src[k := charToAddr32 c]"
  note len = Cons.prems(1) and k = Cons.prems(2)
  have at: "?src ! k = charToAddr32 c" and lens: "length ?src = 16" using len k by simp_all
  show ?case
  proof (cases "addr32_valid c")
    case False
    then have c: "charToAddr32 c = 0xFF" by (simp add: addr32_valid_def)
    with Cons.prems at have "addr32_fill ?src k s = (src', n)" by (simp add: Let_def)
    note IH = Cons.IH [OF lens k this]
    then have n: "n = min 16 (k + length (filter addr32_valid s))" by (elim conjE)
    have "k \<le> n" using n k by simp
    have nil: "n < 16 \<Longrightarrow> s = [] \<Longrightarrow> n = k" using n by simp
    have "n < 16 \<Longrightarrow> s \<noteq> [] \<Longrightarrow> addr32_valid (last s) \<Longrightarrow> k \<noteq> n"
      using n last_in_set [of s] by (cases "filter addr32_valid s") (auto simp: filter_empty_conv)
    with IH nil have "n < 16 \<longrightarrow> src' ! n =
        (if c # s \<noteq> [] \<and> \<not> addr32_valid (last (c # s)) then 0xFF else src ! n)"
      using False c len k by auto
    with IH \<open>k \<le> n\<close> False show ?thesis by (elim conjE, intro conjI; simp)
  next
    case True
    then have c: "charToAddr32 c \<noteq> 0xFF" by (simp add: addr32_valid_def)
    have tk: "take (Suc k) ?src = take k src @ [charToAddr32 c]"
      using len k by (simp add: take_Suc_conv_app_nth list_update_append)
    show ?thesis
    proof (cases "Suc k = 16")
      case True
      with Cons.prems at c have "src' = ?src" "n = 16" by (simp_all add: Let_def)
      with True tk \<open>addr32_valid c\<close> len k show ?thesis by simp
    next
      case False
      with Cons.prems at c have "addr32_fill ?src (Suc k) s = (src', n)" by (simp add: Let_def)
      moreover have "Suc k < 16" using k False by simp
      ultimately have IH: "length src' = 16 \<and> n = min 16 (Suc k + length (filter addr32_valid s)) \<and>
         take n src' = take n (take (Suc k) ?src @ map charToAddr32 (filter addr32_valid s)) \<and>
         drop (Suc n) src' = drop (Suc n) ?src \<and>
         (n < 16 \<longrightarrow> src' ! n = (if s \<noteq> [] \<and> \<not> addr32_valid (last s) then 0xFF else ?src ! n))"
        using Cons.IH [OF lens] by blast
      then have "k < n" using k False by simp
      with IH tk \<open>addr32_valid c\<close> show ?thesis by (elim conjE, intro conjI; simp)
    qed
  qed
qed

lemma addr32_fill_facts:
  assumes "length src = 16" "k < 16" "addr32_fill src k s = (src', n)"
  shows "length src' = 16" and "n = min 16 (k + length (filter addr32_valid s))"
    and "take n src' = take n (take k src @ map charToAddr32 (filter addr32_valid s))"
    and "drop (Suc n) src' = drop (Suc n) src"
    and "n < 16 \<longrightarrow> src' ! n = (if s \<noteq> [] \<and> \<not> addr32_valid (last s) then 0xFF else src ! n)"
  using addr32_fill_props [OF assms] by - (elim conjE, assumption)+

lemma length_16E:
  assumes "length xs = 16"
  obtains a0 a1 a2 a3 a4 a5 a6 a7 a8 a9 a10 a11 a12 a13 a14 a15
  where "xs = [a0, a1, a2, a3, a4, a5, a6, a7, a8, a9, a10, a11, a12, a13, a14, a15]"
  using assms by (auto simp: numeral_eq_Suc length_Suc_conv)


lemma bit_128: "bit (128::byte) n \<longleftrightarrow> n = 7"
proof -
  have "(128::byte) = push_bit 7 1" by simp
  then show ?thesis by (simp only: bit_push_bit_iff bit_1_iff) auto
qed
lemma bit7_flag: "bit (128 OR push_bit 3 x OR drop_bit 2 y :: byte) 7"
  by (simp add: bit_or_iff bit_128)
lemma small_nat_byte: "n < 16 \<Longrightarrow> 4 \<le> k \<Longrightarrow> \<not> bit (of_nat n :: byte) k"
  using nat_bit_bound [of n 4 k] by (auto simp: bit_of_nat_iff)

lemma length_field:
  assumes "n < 16" "(y :: byte) < 32"
  shows "drop_bit 3 (push_bit 3 (of_nat n) OR drop_bit 2 y :: byte) = of_nat n"
proof (rule bit_word_eqI)
  fix i :: nat
  show "bit (drop_bit 3 (push_bit 3 (of_nat n) OR drop_bit 2 y :: byte)) i = bit (of_nat n :: byte) i"
    using assms small_nat_byte [of n i]
    by (cases "i < 5") (simp_all only: shift_bits, auto simp: high_bit_five)
qed

lemma top_field:
  assumes "(x :: byte) < 32" "y < 32"
  shows "drop_bit 3 (128 OR push_bit 3 x OR drop_bit 2 y) AND 15 = x AND 15"
  unfolding and15
proof (rule bit_word_eqI)
  fix i :: nat
  show "bit (take_bit 4 (drop_bit 3 (128 OR push_bit 3 x OR drop_bit 2 y))) i = bit (take_bit 4 x) i"
    using assms by (simp only: bit_take_bit_iff shift_bits bit_128) (auto simp: high_bit_five)
qed

lemma addr32_unpack_pack:
  assumes len: "length src = 16" and lt: "\<forall>x \<in> set src. x < 32" and n: "n \<le> 16"
  shows "addr32_unpack (addr32_pack src n) = addr32_kept (take n src)"
proof -
  from len obtain a0 a1 a2 a3 a4 a5 a6 a7 a8 a9 a10 a11 a12 a13 a14 a15
    where src: "src = [a0, a1, a2, a3, a4, a5, a6, a7, a8, a9, a10, a11, a12, a13, a14, a15]"
    by (rule length_16E)
  with lt have lts: "a0 < 32" "a1 < 32" "a2 < 32" "a3 < 32" "a4 < 32" "a5 < 32" "a6 < 32" "a7 < 32"
    "a8 < 32" "a9 < 32" "a10 < 32" "a11 < 32" "a12 < 32" "a13 < 32" "a14 < 32" "a15 < 32" by simp_all
  let ?h = "if n = 16 then 128 OR push_bit 3 a15 else push_bit 3 (of_nat n)"
  have h: "?h = push_bit 3 (if n = 16 then 16 OR a15 else of_nat n)"
    by simp
  have pack: "addr32_pack src n = (?h OR drop_bit 2 a0) # 
     [push_bit 6 a0 OR push_bit 1 a1 OR drop_bit 4 a2, push_bit 4 a2 OR drop_bit 1 a3,
     push_bit 7 a3 OR push_bit 2 a4 OR drop_bit 3 a5, push_bit 5 a5 OR a6,
     push_bit 3 a7 OR drop_bit 2 a8, push_bit 6 a8 OR push_bit 1 a9 OR drop_bit 4 a10,
     push_bit 4 a10 OR drop_bit 1 a11, push_bit 7 a11 OR push_bit 2 a12 OR drop_bit 3 a13,
     push_bit 5 a13 OR a14]" (is "_ = _ # ?rest")
    unfolding addr32_pack_def src by simp
  have fives: "addr32_fives (addr32_pack src n) = [a0,a1,a2,a3,a4,a5,a6,a7,a8,a9,a10,a11,a12,a13,a14]"
    unfolding pack h by (rule unpack_pack) (fact lts)+
  show ?thesis
  proof (cases "n = 16")
    case True
    then have hd: "hd (addr32_pack src n) = 128 OR push_bit 3 a15 OR drop_bit 2 a0"
      unfolding pack by (simp add: or.assoc)
    have "addr32_unpack (addr32_pack src n) =
        [a0,a1,a2,a3,a4,a5,a6,a7,a8,a9,a10,a11,a12,a13,a14] @ [a15 AND 15]"
      unfolding addr32_unpack_def Let_def hd fives
      by (simp only: bit7_flag top_field [OF lts(16) lts(1)] if_True)
    with True show ?thesis by (simp add: addr32_kept_def src)
  next
    case False
    with n have "n < 16" by simp
    moreover from this have "\<not> bit (push_bit 3 (of_nat n) OR drop_bit 2 a0 :: byte) 7"
      using small_nat_byte [of n 4] lts(1) by (simp only: shift_bits) (simp add: high_bit_five)
    moreover have hd: "hd (addr32_pack src n) = push_bit 3 (of_nat n) OR drop_bit 2 a0"
      unfolding pack using False by simp
    ultimately have "addr32_unpack (addr32_pack src n) =
        take (unat (of_nat n :: byte)) [a0,a1,a2,a3,a4,a5,a6,a7,a8,a9,a10,a11,a12,a13,a14]"
      unfolding addr32_unpack_def Let_def hd fives
      by (simp only: length_field [OF _ lts(1)] if_False)
    then show ?thesis using \<open>n < 16\<close>
      by (simp add: addr32_kept_def src unat_of_nat take_Cons')
  qed
qed

text \<open>The array after the loop, for a clean text: the codes, then zeros.\<close>

lemma addr32_store_codes:
  assumes "addr32_clean s"
  shows "addr32_store s = addr32_pack (addr32_codes s @ replicate (16 - length (addr32_codes s)) 0)
           (length (addr32_codes s))"
proof -
  obtain src n where fill: "addr32_fill (replicate 16 0) 0 s = (src, n)" by fastforce
  let ?cs = "map charToAddr32 (filter addr32_valid s)"
  note f = addr32_fill_facts [OF length_replicate zero_less_numeral fill]
  have len: "length src = 16" by (rule f(1))
  have n: "n = min 16 (length ?cs)" using f(2) by simp
  have taken: "take n src = addr32_codes s"
    using f(3) unfolding addr32_codes_def n by (simp add: min_def)
  have "drop n src = replicate (16 - n) 0"
  proof (cases "n < 16")
    case True
    then have "\<not> 16 \<le> length (filter addr32_valid s)" using n by simp
    then have "src ! n = 0" using assms f(5) True by (auto simp: addr32_clean_def)
    moreover have "drop n src = src ! n # drop (Suc n) src"
      using True len by (simp add: Cons_nth_drop_Suc)
    ultimately show ?thesis using f(4) True by (simp add: Suc_diff_Suc flip: replicate_Suc)
  next
    case False
    then show ?thesis using len n by simp
  qed
  moreover have "length (addr32_codes s) = n"
    using n by (simp add: addr32_codes_def min_def)
  ultimately show ?thesis
    using fill taken append_take_drop_id [of n src] by (simp add: addr32_store_def)
qed

lemma addr32_codes_bound: "x \<in> set (addr32_codes s) \<Longrightarrow> x < 32"
  by (auto simp: addr32_codes_def addr32_valid_def dest!: in_set_takeD) (metis charToAddr32_cases)

lemma length_addr32_codes: "length (addr32_codes s) \<le> 16"
  by (simp add: addr32_codes_def)

lemma addr32_unpack_store:
  assumes "addr32_clean s"
  shows "addr32_unpack (addr32_store s) = addr32_kept (addr32_codes s)"
proof -
  let ?src = "addr32_codes s @ replicate (16 - length (addr32_codes s)) 0"
  have "addr32_unpack (addr32_pack ?src (length (addr32_codes s)))
      = addr32_kept (take (length (addr32_codes s)) ?src)"
    using length_addr32_codes [of s] addr32_codes_bound [of _ s]
    by (intro addr32_unpack_pack) auto
  then show ?thesis using addr32_store_codes [OF assms] by simp
qed

lemma flag_code_eq:
  assumes "(x :: byte) AND 15 = y AND 15"
  shows "128 OR push_bit 3 x = 128 OR push_bit 3 y"
proof (rule bit_word_eqI)
  fix i :: nat
  assume "i < LENGTH(8)"
  have "bit (x AND 15) (i - 3) = bit (y AND 15) (i - 3)" using assms by simp
  then show "bit (128 OR push_bit 3 x) i = bit (128 OR push_bit 3 y) i"
    using \<open>i < LENGTH(8)\<close> unfolding and15
    by (auto simp only: bit_take_bit_iff shift_bits bit_128) (auto simp: less_Suc_eq numeral_eq_Suc)
qed

lemma addr32_pack_kept:
  assumes "length cs = 16" "length ds = 16" "addr32_kept cs = addr32_kept ds"
  shows "addr32_pack cs 16 = addr32_pack ds 16"
proof -
  have eq: "cs[15 := cs ! 15 AND 15] = ds[15 := ds ! 15 AND 15]"
    using assms by (simp add: addr32_kept_def)
  have "cs ! i = ds ! i" if "i < 15" for i
  proof -
    have "cs[15 := cs ! 15 AND 15] ! i = ds[15 := ds ! 15 AND 15] ! i" using eq by simp
    then show ?thesis using that by simp
  qed
  moreover have "cs ! 15 AND 15 = ds ! 15 AND 15"
    using arg_cong [OF eq, of "\<lambda>xs. xs ! 15"] assms(1,2) by simp
  then have "128 OR push_bit 3 (cs ! 15) = 128 OR push_bit 3 (ds ! 15)" by (rule flag_code_eq)
  ultimately show ?thesis unfolding addr32_pack_def by simp
qed

section \<open>Properties\<close>

text \<open>C28: Reading an encoded address back gives the address's codes: for every text that ends
  in a valid character (or has 16 of them), the ten bytes written by \<open>addr32_store\<close> determine
  the length and all the codes, the sixteenth up to its top bit.\<close>

theorem addr32_roundtrip:
  "addr32_clean s \<Longrightarrow>
   length (addr32_store s) = 10 \<and> addr32_unpack (addr32_store s) = addr32_kept (addr32_codes s)"
  using addr32_unpack_store [of s] addr32_store_codes [of s] by (simp add: addr32_pack_def)

theorem addr32_roundtrip_witness:
  "addr32_unpack (addr32_store (str ''Jane.Doe'')) = [18, 10, 21, 14, 13, 0, 14]"
proof -
  have "addr32_clean (str ''Jane.Doe'')" by code_simp
  moreover have "addr32_kept (addr32_codes (str ''Jane.Doe'')) = [18, 10, 21, 14, 13, 0, 14]"
    by code_simp
  ultimately show ?thesis using addr32_roundtrip [of "str ''Jane.Doe''"] by simp
qed

text \<open>Two clean texts name the same address exactly when their codes agree (letter case, the
  look-alikes i/l/1, o/0 and v/w, and ignored punctuation do not matter), except that the
  sixteenth code counts only in its low four bits.\<close>

theorem addr32_same_address_iff:
  assumes "addr32_clean s" and "addr32_clean t"
  shows "addr32_store s = addr32_store t \<longleftrightarrow>
         addr32_kept (addr32_codes s) = addr32_kept (addr32_codes t)"
proof
  assume "addr32_store s = addr32_store t"
  then show "addr32_kept (addr32_codes s) = addr32_kept (addr32_codes t)"
    using addr32_unpack_store assms by metis
next
  assume kept: "addr32_kept (addr32_codes s) = addr32_kept (addr32_codes t)"
  have len: "length (addr32_kept cs) = length cs" for cs by (simp add: addr32_kept_def)
  have lens: "length (addr32_codes s) = length (addr32_codes t)" using kept len by metis
  have st: "addr32_store s = addr32_pack (addr32_codes s @ replicate (16 - length (addr32_codes s)) 0)
      (length (addr32_codes s))" by (rule addr32_store_codes [OF assms(1)])
  have tt: "addr32_store t = addr32_pack (addr32_codes t @ replicate (16 - length (addr32_codes t)) 0)
      (length (addr32_codes t))" by (rule addr32_store_codes [OF assms(2)])
  show "addr32_store s = addr32_store t"
  proof (cases "length (addr32_codes s) = 16")
    case True
    with lens addr32_pack_kept [OF True _ kept] show ?thesis unfolding st tt by simp
  next
    case False
    with kept lens have "addr32_codes s = addr32_codes t" unfolding addr32_kept_def by simp
    then show ?thesis unfolding st tt by simp
  qed
qed

theorem addr32_same_address_iff_witness:
  "addr32_store (str ''L.Ovo'') = addr32_store (str ''10wO'')"
proof -
  have c: "addr32_clean (str ''L.Ovo'')" "addr32_clean (str ''10wO'')" by code_simp+
  show ?thesis unfolding addr32_same_address_iff [OF c] by code_simp
qed

text \<open>The encoding is not a function of the valid characters alone.  A text that ends in an
  ignored character leaves the marker 0xFF behind, so it is a different address although its
  codes are the same; and two different 16-character addresses share one encoding.\<close>

theorem addr32_not_canonical:
  "(addr32_codes (str ''a!'') = addr32_codes (str ''a'') \<and>
    addr32_store (str ''a!'') \<noteq> addr32_store (str ''a'')) \<and>
   (addr32_codes (str ''shieldaddress000'') \<noteq> addr32_codes (str ''shieldaddress00g'') \<and>
    addr32_store (str ''shieldaddress000'') = addr32_store (str ''shieldaddress00g''))"
proof (intro conjI)
  show "addr32_codes (str ''a!'') = addr32_codes (str ''a'')" by code_simp
  show "addr32_store (str ''a!'') \<noteq> addr32_store (str ''a'')" by code_simp
  show "addr32_codes (str ''shieldaddress000'') \<noteq> addr32_codes (str ''shieldaddress00g'')"
    by code_simp
  show "addr32_store (str ''shieldaddress000'') = addr32_store (str ''shieldaddress00g'')"
    by code_simp
qed

end
