(* ===== verification/Kdf.thy ===== *)
theory Kdf
  imports Prelude
begin

text \<open>
  \<^verbatim>\<open>src/Common/AEM_KDF.c\<close>: key derivation from master keys and subkeys.  All keys are parts of
  ChaCha20 key streams: the functions only choose the key, the 12-byte nonce and the 32-bit
  number of the first 64-byte block.  The stream cipher is the parameter \<open>chacha\<close>
  (key, nonce, first block, number of bytes); XORing it onto a zeroed buffer yields the stream.

  The property that makes the derivation sound is that two different numbers never use a
  common block of the stream as long as no more than the promised 16 KiB are taken.
\<close>

type_synonym chacha = "byte list \<Rightarrow> byte list \<Rightarrow> u32 \<Rightarrow> nat \<Rightarrow> byte list"

section \<open>The code\<close>

text \<open>Byte \<open>k\<close> of a 64-bit number in memory, \<^verbatim>\<open>((const uint8_t*)&n)[k]\<close>.\<close>

definition u64_byte :: "u64 \<Rightarrow> nat \<Rightarrow> byte" where
  "u64_byte n k = ucast (drop_bit (8 * k) n)"

definition kdf_sub_nonce :: "u64 \<Rightarrow> byte list \<Rightarrow> byte list" where
  "kdf_sub_nonce n key = take 8 (drop 32 key) @ [u64_byte n 0, u64_byte n 1, u64_byte n 2, u64_byte n 3]"

definition kdf_sub_counter :: "u64 \<Rightarrow> u32" where
  "kdf_sub_counter n =
     push_bit 8 (ucast (u64_byte n 4)) OR push_bit 16 (ucast (u64_byte n 5))
       OR push_bit 24 (ucast (u64_byte n 6))"

definition aem_kdf_sub :: "chacha \<Rightarrow> nat \<Rightarrow> u64 \<Rightarrow> byte list \<Rightarrow> byte list" where
  "aem_kdf_sub chacha lenOut n key =
     chacha (take 32 key) (kdf_sub_nonce n key) (kdf_sub_counter n) lenOut"

definition kdf_smk_counter :: "byte \<Rightarrow> byte list \<Rightarrow> u32" where
  "kdf_smk_counter n smk =
     push_bit 24 (ucast (smk ! 44)) OR push_bit 16 (ucast (smk ! 45)) OR push_bit 8 (ucast n)"

definition aem_kdf_smk :: "chacha \<Rightarrow> nat \<Rightarrow> byte \<Rightarrow> byte list \<Rightarrow> byte list" where
  "aem_kdf_smk chacha lenOut n smk =
     chacha (take 32 smk) (take 12 (drop 32 smk)) (kdf_smk_counter n smk) lenOut"

definition AEM_KDF_KEYID_UAK_UID :: u64 where "AEM_KDF_KEYID_UAK_UID = 0x01"

definition aem_getUserId :: "chacha \<Rightarrow> byte list \<Rightarrow> nat" where
  "aem_getUserId chacha uak =
     unat (of_nat (le_read (aem_kdf_sub chacha 2 AEM_KDF_KEYID_UAK_UID uak)) AND (4095 :: u16))"

section \<open>Separation of the derived streams\<close>

lemma bit_u64_byte: "bit (u64_byte n k) i \<longleftrightarrow> i < 8 \<and> bit n (8 * k + i)"
  unfolding u64_byte_def bit_ucast_iff bit_drop_bit_eq o_apply by auto

text \<open>The counter holds bits 32 to 55 of the number, shifted so that 256 blocks fit between two
  of them.\<close>

lemma bit_kdf_sub_counter:
  "bit (kdf_sub_counter n) i \<longleftrightarrow> 8 \<le> i \<and> i < 32 \<and> bit n (24 + i)"
proof (cases "i < 32")
  case True
  have "i < 8 \<or> (\<exists>j < 8. i = 8 + j) \<or> (\<exists>j < 8. i = 16 + j) \<or> (\<exists>j < 8. i = 24 + j)"
    using True by presburger
  then show ?thesis
    unfolding kdf_sub_counter_def bit_or_iff bit_push_bit_iff bit_ucast_iff bit_u64_byte
    by (elim disjE exE conjE; hypsubst?; simp add: add.assoc [symmetric])
next
  case False
  then show ?thesis using bit_imp_le_length [of "kdf_sub_counter n" i] by auto
qed

lemma kdf_sub_counter_unat: "unat (kdf_sub_counter n) mod 256 = 0"
proof -
  have "take_bit 8 (kdf_sub_counter n) = 0"
    by (rule bit_word_eqI) (simp add: bit_take_bit_iff bit_kdf_sub_counter)
  then have "take_bit 8 (unat (kdf_sub_counter n)) = 0"
    by (metis unat_0 unsigned_take_bit_eq)
  then show ?thesis by (simp add: take_bit_eq_mod)
qed

lemma kdf_sub_inj:
  assumes "n < 2 ^ 56" "m < 2 ^ 56" "kdf_sub_nonce n key = kdf_sub_nonce m key"
    "kdf_sub_counter n = kdf_sub_counter m"
  shows "n = m"
proof (rule bit_word_eqI)
  fix i :: nat
  have nonce: "u64_byte n k = u64_byte m k" if "k < 4" for k
  proof -
    have "k = 0 \<or> k = 1 \<or> k = 2 \<or> k = 3" using that by arith
    with assms(3) show ?thesis by (auto simp: kdf_sub_nonce_def)
  qed
  show "bit n i = bit m i"
  proof (cases "i < 32")
    case True
    then have "u64_byte n (i div 8) = u64_byte m (i div 8)" by (intro nonce) auto
    then have "bit (u64_byte n (i div 8)) (i mod 8) = bit (u64_byte m (i div 8)) (i mod 8)" by simp
    then show ?thesis by (simp add: bit_u64_byte)
  next
    case False
    show ?thesis
    proof (cases "i < 56")
      case True
      have "bit (kdf_sub_counter n) (i - 24) = bit (kdf_sub_counter m) (i - 24)" using assms(4) by simp
      moreover have "8 \<le> i - 24" "i - 24 < 32" "24 + (i - 24) = i" using False True by simp_all
      ultimately show ?thesis by (simp only: bit_kdf_sub_counter simp_thms)
    next
      case False
      then show ?thesis
        using word_bit_bound [OF assms(1), of i] word_bit_bound [OF assms(2), of i] by auto
    qed
  qed
qed

lemma block_ranges_disjoint:
  fixes a b i j :: nat
  assumes "a mod 256 = 0" "b mod 256 = 0" "a \<noteq> b" "i < 256" "j < 256"
  shows "a + i \<noteq> b + j"
proof
  assume "a + i = b + j"
  then have "(a + i) div 256 = (b + j) div 256" by simp
  then show False using assms by (metis div_less div_mult_mod_eq div_plus_div_distrib_dvd_left
    dvd_eq_mod_eq_0 add_0_right)
qed

lemma aem_getUserId_bound [simp]: "aem_getUserId chacha k < 4096"
proof -
  have "unat (x AND (4095 :: u16)) \<le> unat (4095 :: u16)" for x
    by (rule word_le_nat_alt [THEN iffD1], rule word_and_le1)
  then have "unat (x AND (4095 :: u16)) < 4096" for x by (rule le_less_trans) simp
  then show ?thesis unfolding aem_getUserId_def .
qed

section \<open>Properties\<close>

text \<open>Subkeys for different numbers below \<open>2 ^ 56\<close> never share a block of the key stream: either
  their nonces differ or their ranges of 256 blocks (16 KiB) are disjoint.\<close>

theorem kdf_sub_separate:
  "n < 2 ^ 56 \<Longrightarrow> m < 2 ^ 56 \<Longrightarrow> n \<noteq> m \<Longrightarrow> i < 256 \<Longrightarrow> j < 256 \<Longrightarrow>
   (kdf_sub_nonce n key, unat (kdf_sub_counter n) + i) \<noteq>
   (kdf_sub_nonce m key, unat (kdf_sub_counter m) + j)"
  using kdf_sub_inj [of n m key] block_ranges_disjoint [OF kdf_sub_counter_unat kdf_sub_counter_unat]
  by (auto simp: word_unat_eq_iff)

theorem kdf_sub_separate_witness:
  "(kdf_sub_nonce 0x20 (replicate 40 7), unat (kdf_sub_counter 0x20) + 3) \<noteq>
   (kdf_sub_nonce 0x10000000021 (replicate 40 7), unat (kdf_sub_counter 0x10000000021) + 3)"
  by (rule kdf_sub_separate) simp_all

end
