(* ===== verification/Account_IO.thy ===== *)
theory Account_IO
  imports Account_Types Addr32 Kdf
begin

text \<open>
  The operations of \<^verbatim>\<open>src/account/IO.c\<close>.  Every API handler gets the state \<open>s\<close> and the bytes
  readable from \<^verbatim>\<open>reqData\<close> and returns the bytes it leaves in \<^verbatim>\<open>res\<close> (as many as its result says)
  with the state after it; \<open>cur s\<close> is \<^verbatim>\<open>user[api_uid]\<close>, which \<^verbatim>\<open>api_auth\<close> has found to exist
  before a handler runs (the null case of \<open>cur\<close> is never reached).
\<close>

section \<open>Users in memory and on disk\<close>

definition slice :: "nat \<Rightarrow> nat \<Rightarrow> byte list \<Rightarrow> byte list" where
  "slice a n xs = take n (drop a xs)"

text \<open>The bytes of \<^verbatim>\<open>struct aem_user\<close>, the bit-fields in the last eight.\<close>

definition user_bits :: "aem_user \<Rightarrow> nat" where
  "user_bits u = unat (lastBinTs u) + 2 ^ 42 * unat (level u) + 2 ^ 44 * unat (addrCount u)
     + 2 ^ 49 * unat (unused_value u)"

definition user_bytes :: "aem_user \<Rightarrow> byte list" where
  "user_bytes u = uak u @ usk u @ pwk u @ psk u @ pqk u @ private_data u @ addrFlag u
     @ concat (map (\<lambda>h. le_bytes 8 (unat h)) (addrHash u)) @ le_bytes 8 (user_bits u)"

fun read_hashes :: "nat \<Rightarrow> byte list \<Rightarrow> u64 list" where
  "read_hashes 0 bs = []"
| "read_hashes (Suc n) bs = of_nat (le_read (take 8 bs)) # read_hashes n (drop 8 bs)"

definition read_user :: "byte list \<Rightarrow> aem_user" where
  "read_user bs =
    (let bits = le_read (slice 8184 8 bs) in
     \<lparr>uak = slice 0 40 bs, usk = slice 40 32 bs, pwk = slice 72 32 bs, psk = slice 104 56 bs,
      pqk = slice 160 1568 bs, private_data = slice 1728 AEM_LEN_PRIVATE bs,
      addrFlag = slice 7905 31 bs, addrHash = read_hashes 31 (slice 7936 248 bs),
      lastBinTs = of_nat bits, level = of_nat (bits div 2 ^ 42),
      addrCount = of_nat (bits div 2 ^ 44), unused_value = of_nat (bits div 2 ^ 49)\<rparr>)"

fun user_records :: "nat \<Rightarrow> aem_user option list \<Rightarrow> byte list" where
  "user_records i [] = []"
| "user_records i (None # us) = user_records (Suc i) us"
| "user_records i (Some u # us) = le_bytes 2 i @ user_bytes u @ user_records (Suc i) us"

definition saveUser :: "acc_ext \<Rightarrow> acc_env \<Rightarrow> account \<Rightarrow> account" where
  "saveUser x e s =
    (if \<not> alloc_ok e then s
     else case written e of
       None \<Rightarrow> s
     | Some n \<Rightarrow> s\<lparr>account_file := take n (rand_nonce e @
           aegis256_encrypt x (accountKey s) (rand_nonce e) (user_records 0 (user s)))\<rparr>)"

definition saveSettings :: "acc_ext \<Rightarrow> acc_env \<Rightarrow> account \<Rightarrow> account" where
  "saveSettings x e s =
    (case written e of
       None \<Rightarrow> s
     | Some n \<Rightarrow> s\<lparr>settings_file := take n (rand_nonce e @
           aegis256_encrypt x (accountKey s) (rand_nonce e) (limits s))\<rparr>)"

text \<open>The loading loop stops with an error at a user ID out of range; what was read stays.\<close>

function load_records :: "byte list \<Rightarrow> aem_user option list \<Rightarrow> bool \<times> aem_user option list" where
  "load_records dec us =
    (if length dec < 8194 then (True, us)
     else (let uid = le_read (take 2 dec) in
           if AEM_USERCOUNT \<le> uid then (False, us)
           else load_records (drop 8194 dec) (us[uid := Some (read_user (slice 2 8192 dec))])))"
  by pat_completeness auto
termination by (relation "measure (\<lambda>(dec, us). length dec)") auto

declare load_records.simps [simp del]

definition loadUser :: "acc_ext \<Rightarrow> account \<Rightarrow> bool \<times> account" where
  "loadUser x s =
    (let enc = account_file s in
     if length enc < 64 \<or> (length enc - 64) mod 8194 \<noteq> 0 then (False, s)
     else case aegis256_decrypt x (accountKey s) (take 32 enc) (drop 32 enc) of
       None \<Rightarrow> (False, s)
     | Some dec \<Rightarrow> (case load_records dec (user s) of (ok, us) \<Rightarrow> (ok, s\<lparr>user := us\<rparr>)))"

definition loadSettings :: "acc_ext \<Rightarrow> account \<Rightarrow> account" where
  "loadSettings x s =
    (if length (settings_file s) \<noteq> 12 + 64 then s
     else case aegis256_decrypt x (accountKey s) (take 32 (settings_file s)) (drop 32 (settings_file s)) of
       None \<Rightarrow> s
     | Some dec \<Rightarrow> s\<lparr>limits := dec\<rparr>)"

definition ioSetup :: "acc_ext \<Rightarrow> byte list \<Rightarrow> account \<Rightarrow> bool \<times> account" where
  "ioSetup x baseKey s =
    (let s1 = s\<lparr>accountKey := aem_kdf_sub (chacha20_ietf x) 32 0x20 baseKey,
                saltNormal := aem_kdf_sub (chacha20_ietf x) 16 0x21 baseKey,
                saltShield := aem_kdf_sub (chacha20_ietf x) 16 0x22 baseKey\<rparr>
     in case loadUser x s1 of (ok, s2) \<Rightarrow> if ok then (True, loadSettings x s2) else (False, s2))"

section \<open>Addresses\<close>

text \<open>The first address of a user with this hash and kind: its flags.\<close>

fun find_addr :: "u64 list \<Rightarrow> byte list \<Rightarrow> nat \<Rightarrow> u64 \<Rightarrow> bool \<Rightarrow> byte option" where
  "find_addr (h # hs) (f # fs) (Suc n) hash isShield =
     (if hash = h \<and> f AND AEM_ADDR_FLAG_SHIELD = (if isShield then AEM_ADDR_FLAG_SHIELD else 0)
      then Some f else find_addr hs fs n hash isShield)"
| "find_addr _ _ _ hash isShield = None"

definition user_addr :: "aem_user \<Rightarrow> u64 \<Rightarrow> bool \<Rightarrow> byte option" where
  "user_addr u hash isShield = find_addr (addrHash u) (addrFlag u) (unat (addrCount u)) hash isShield"

text \<open>\<^verbatim>\<open>UINT16_MAX\<close> (no user has the address) is \<open>None\<close>.\<close>

fun hash_search :: "nat \<Rightarrow> aem_user option list \<Rightarrow> u64 \<Rightarrow> bool \<Rightarrow> (nat \<times> byte) option" where
  "hash_search uid [] hash isShield = None"
| "hash_search uid (None # us) hash isShield = hash_search (Suc uid) us hash isShield"
| "hash_search uid (Some u # us) hash isShield =
     (case user_addr u hash isShield of
        Some f \<Rightarrow> Some (uid, f)
      | None \<Rightarrow> hash_search (Suc uid) us hash isShield)"

definition hashToUid :: "account \<Rightarrow> u64 \<Rightarrow> bool \<Rightarrow> (nat \<times> byte) option" where
  "hashToUid s hash isShield = hash_search 0 (user s) hash isShield"

definition addressToHash :: "acc_ext \<Rightarrow> account \<Rightarrow> byte list \<Rightarrow> u64" where
  "addressToHash x s addr32 =
    (if addr32 ! 0 AND 128 \<noteq> 0 then
       (if slice 2 8 addr32 = AEM_ADDR32_ADMIN then 0
        else crypto_shorthash x (take 10 addr32) (saltShield s))
     else if take 10 addr32 = AEM_ADDR32_SYSTEM then 0
     else if drop_bit 3 (addr32 ! 0) = 0 then 0
     else case crypto_pwhash x (take 10 addr32) (saltNormal s) of
       None \<Rightarrow> 0
     | Some (h0, h1) \<Rightarrow> h0 XOR h1)"

definition is_shield :: "byte \<Rightarrow> bool" where
  "is_shield f \<longleftrightarrow> f AND AEM_ADDR_FLAG_SHIELD \<noteq> 0"

definition numAddresses :: "aem_user \<Rightarrow> bool \<Rightarrow> nat" where
  "numAddresses u shield =
     length (filter (\<lambda>f. is_shield f = shield) (take (unat (addrCount u)) (addrFlag u)))"

definition cur :: "account \<Rightarrow> aem_user" where
  "cur s = (case get_user s (api_uid s) of Some u \<Rightarrow> u | None \<Rightarrow> zero_user)"

definition limit_of :: "account \<Rightarrow> 2 word \<Rightarrow> nat \<Rightarrow> nat" where
  "limit_of s lvl k = unat (limits s ! (3 * unat lvl + k))"

section \<open>API: GET\<close>

type_synonym handled = "byte list \<times> account"

definition api_response_status :: "byte \<Rightarrow> byte list" where
  "api_response_status status = [status]"

definition api_invalid :: "account \<Rightarrow> handled" where
  "api_invalid s = (api_response_status AEM_API_ERR_CMD, s)"

definition browse_word :: "aem_user option \<Rightarrow> u32" where
  "browse_word u =
    (case u of
       None \<Rightarrow> 0
     | Some u \<Rightarrow> ucast (level u) OR push_bit 2 (of_nat (numAddresses u False))
         OR push_bit 7 (of_nat (numAddresses u True)) OR push_bit 12 1234567)"

definition api_account_browse :: "account \<Rightarrow> handled" where
  "api_account_browse s =
    (limits s @ concat (map (\<lambda>u. le_bytes 4 (unat (browse_word u))) (user s)), s)"

definition req_uid :: "byte list \<Rightarrow> nat" where
  "req_uid reqData = le_read (take 2 reqData)"

definition api_account_delete :: "acc_ext \<Rightarrow> acc_env \<Rightarrow> byte list \<Rightarrow> account \<Rightarrow> handled" where
  "api_account_delete x e reqData s =
    (let del_uid = req_uid reqData in
     if del_uid = 0 then (api_response_status AEM_API_ERR_ACCOUNT_FORBIDMASTER, s)
     else if AEM_USERCOUNT \<le> del_uid then (api_response_status AEM_API_ERR_PARAM, s)
     else if unat (level (cur s)) \<noteq> AEM_USERLEVEL_MAX \<and> api_uid s \<noteq> del_uid
       then (api_response_status AEM_API_ERR_LEVEL, s)
     else if get_user s del_uid = None then (api_response_status AEM_API_ERR_ACCOUNT_NOTEXIST, s)
     else (api_response_status (if storage_reply e = IC_OK then AEM_API_STATUS_OK
             else AEM_API_ERR_ACCOUNT_DELETE_NOSTORAGE),
           saveUser x e (set_user s del_uid None)))"

definition api_account_update :: "acc_ext \<Rightarrow> acc_env \<Rightarrow> byte list \<Rightarrow> account \<Rightarrow> handled" where
  "api_account_update x e reqData s =
    (let upd_uid = req_uid reqData; new_lvl = reqData ! 2 in
     if upd_uid = 0 then (api_response_status AEM_API_ERR_ACCOUNT_FORBIDMASTER, s)
     else if AEM_USERCOUNT \<le> upd_uid then (api_response_status AEM_API_ERR_PARAM, s)
     else if unat (level (cur s)) \<noteq> AEM_USERLEVEL_MAX \<and>
             (api_uid s \<noteq> upd_uid \<or> unat (level (cur s)) < unat new_lvl)
       then (api_response_status AEM_API_ERR_LEVEL, s)
     else case get_user s upd_uid of
       None \<Rightarrow> (api_response_status AEM_API_ERR_ACCOUNT_NOTEXIST, s)
     | Some u \<Rightarrow> (api_response_status AEM_API_STATUS_OK,
         saveUser x e (set_user s upd_uid (Some (u\<lparr>level := ucast new_lvl\<rparr>)))))"

text \<open>The new address goes into the first free slot.\<close>

definition add_address :: "u64 \<Rightarrow> byte \<Rightarrow> aem_user \<Rightarrow> aem_user" where
  "add_address hash flag u =
     u\<lparr>addrHash := (addrHash u)[unat (addrCount u) := hash],
       addrFlag := (addrFlag u)[unat (addrCount u) := flag], addrCount := addrCount u + 1\<rparr>"

definition register_address :: "acc_ext \<Rightarrow> acc_env \<Rightarrow> u64 \<Rightarrow> bool \<Rightarrow> byte list \<Rightarrow> account \<Rightarrow> handled" where
  "register_address x e hash isShield addr32 s =
    (if hashToUid s hash isShield \<noteq> None
     then (api_response_status AEM_API_ERR_ADDRESS_CREATE_INUSE, s)
     else
       (let flag = (if isShield then AEM_ADDR_FLAGS_DEFAULT OR AEM_ADDR_FLAG_SHIELD
                    else AEM_ADDR_FLAGS_DEFAULT);
            s' = saveUser x e (set_user s (api_uid s) (Some (add_address hash flag (cur s))))
        in if isShield then (le_bytes 8 (unat hash) @ addr32, s')
           else (api_response_status AEM_API_STATUS_OK, s')))"

definition normal_hash :: "acc_ext \<Rightarrow> account \<Rightarrow> byte list \<Rightarrow> u64" where
  "normal_hash x s reqData =
    (let hash = of_nat (le_read (take 8 reqData)) in
     if unat (level (cur s)) \<noteq> AEM_USERLEVEL_MAX \<and> List.member (addrhash_admin x) hash then 0
     else hash)"

definition api_address_create :: "acc_ext \<Rightarrow> acc_env \<Rightarrow> byte list \<Rightarrow> account \<Rightarrow> handled" where
  "api_address_create x e reqData s =
    (let isShield = list_all (\<lambda>b. b = 0) (take 8 reqData) in
     if AEM_ADDRESSES_PER_USER \<le> unat (addrCount (cur s))
     then (api_response_status AEM_API_ERR_ADDRESS_CREATE_ATLIMIT, s)
     else if isShield then
       (if limit_of s (level (cur s)) 2 \<le> numAddresses (cur s) True
        then (api_response_status AEM_API_ERR_ADDRESS_CREATE_ATLIMIT, s)
        else (let addr32 = (rand_addr e)[0 := rand_addr e ! 0 OR 128];
                  hash = addressToHash x s addr32
              in if hash = 0 then (api_response_status AEM_API_ERR_ADDRESS_CREATE_INUSE, s)
                 else register_address x e hash True addr32 s))
     else if limit_of s (level (cur s)) 1 \<le> numAddresses (cur s) False
     then (api_response_status AEM_API_ERR_ADDRESS_CREATE_ATLIMIT, s)
     else (let hash = normal_hash x s reqData in
           if hash = 0 \<or> hash = addrhash_system x
           then (api_response_status AEM_API_ERR_ADDRESS_CREATE_INUSE, s)
           else register_address x e hash False [] s))"

fun find_hash :: "u64 list \<Rightarrow> nat \<Rightarrow> byte list \<Rightarrow> nat option" where
  "find_hash (h # hs) (Suc n) reqData =
     (if take 8 reqData = le_bytes 8 (unat h) then Some 0
      else map_option Suc (find_hash hs n reqData))"
| "find_hash _ _ reqData = None"

text \<open>The loop that moves the entries behind \<open>i\<close> down, \<open>k\<close> steps.\<close>

fun shift_down :: "nat \<Rightarrow> nat \<Rightarrow> aem_user \<Rightarrow> aem_user" where
  "shift_down i 0 u = u"
| "shift_down i (Suc k) u =
     shift_down (Suc i) k
       (u\<lparr>addrHash := (addrHash u)[i := addrHash u ! Suc i],
         addrFlag := (addrFlag u)[i := addrFlag u ! Suc i]\<rparr>)"

definition api_address_delete :: "acc_ext \<Rightarrow> acc_env \<Rightarrow> byte list \<Rightarrow> account \<Rightarrow> handled" where
  "api_address_delete x e reqData s =
    (let u = cur s in
     case find_hash (addrHash u) (unat (addrCount u)) reqData of
       None \<Rightarrow> (api_response_status AEM_API_ERR_ACCOUNT_NOTEXIST, s)
     | Some delNum \<Rightarrow>
         (let u' = shift_down delNum (unat (addrCount u) - 1 - delNum) u in
          (api_response_status AEM_API_STATUS_OK,
           saveUser x e (set_user s (api_uid s) (Some (u'\<lparr>addrCount := addrCount u' - 1\<rparr>))))))"

text \<open>The body of \<^verbatim>\<open>api_address_update\<close> is commented out in the source.\<close>

definition api_address_update :: "account \<Rightarrow> handled" where
  "api_address_update s = (api_response_status AEM_API_STATUS_OK, s)"

definition address_list :: "aem_user \<Rightarrow> byte list" where
  "address_list u = concat (map (\<lambda>(h, f). le_bytes 8 (unat h) @ [f])
     (take (unat (addrCount u)) (zip (addrHash u) (addrFlag u))))"

definition api_message_browse :: "byte \<Rightarrow> account \<Rightarrow> handled" where
  "api_message_browse flags s =
    (if flags AND 2 = 0 then ([], s)
     else (let u = cur s in
       ([ucast (level u) OR push_bit 2 (ucast (addrCount u))] @ slice (3 * unat (level u)) 3 (limits s)
         @ address_list u @ private_data u @ saltNormal s @ [3] @ le_bytes 4 67108864, s)))"

definition api_setting_limits :: "acc_ext \<Rightarrow> acc_env \<Rightarrow> byte list \<Rightarrow> account \<Rightarrow> handled" where
  "api_setting_limits x e reqData s =
    (api_response_status AEM_API_STATUS_OK, saveSettings x e (s\<lparr>limits := take 12 reqData\<rparr>))"

section \<open>API: POST\<close>

definition api_account_create :: "acc_ext \<Rightarrow> acc_env \<Rightarrow> byte list \<Rightarrow> account \<Rightarrow> handled" where
  "api_account_create x e data s =
    (if length data \<noteq> 40 + 32 then (api_response_status AEM_API_ERR_PARAM, s)
     else
       (let newUid = aem_getUserId (chacha20_ietf x) data in
        if get_user s newUid \<noteq> None then (api_response_status AEM_API_ERR_ACCOUNT_EXIST, s)
        else if \<not> alloc_ok e then (api_response_status AEM_API_ERR_INTERNAL, s)
        else (api_response_status (if storage_reply e = IC_OK then AEM_API_STATUS_OK
                else AEM_API_ERR_INTERNAL),
              saveUser x e (set_user s newUid
                (Some (zero_user\<lparr>uak := slice 0 40 data, pwk := slice 40 32 data\<rparr>))))))"

definition xor_bytes :: "byte list \<Rightarrow> byte list \<Rightarrow> byte list" where
  "xor_bytes a b = map (\<lambda>(p, q). p XOR q) (zip a b)"

definition api_private_update :: "acc_ext \<Rightarrow> acc_env \<Rightarrow> byte list \<Rightarrow> account \<Rightarrow> handled" where
  "api_private_update x e data s =
    (if length data \<noteq> 12 + 32 + AEM_LEN_PRIVATE \<or> list_all (\<lambda>b. b = 0) (slice 12 32 data)
     then (api_response_status AEM_API_ERR_PARAM, s)
     else
       (let stream = chacha20_ietf x (slice 12 32 data) (take 12 data) 0 (AEM_LEN_PRIVATE - 4);
            priv = slice 44 4 data @ xor_bytes (slice 48 (AEM_LEN_PRIVATE - 4) data) stream
        in (api_response_status AEM_API_STATUS_OK,
            saveUser x e (set_user s (api_uid s) (Some ((cur s)\<lparr>private_data := priv\<rparr>))))))"

definition owns :: "account \<Rightarrow> nat \<Rightarrow> u64 \<Rightarrow> bool \<Rightarrow> bool" where
  "owns s uid hash isShield \<longleftrightarrow>
     (case hashToUid s hash isShield of Some (u, _) \<Rightarrow> u = uid | None \<Rightarrow> False)"

fun existing_users :: "nat \<Rightarrow> aem_user option list \<Rightarrow> byte list" where
  "existing_users i [] = []"
| "existing_users i (None # us) = existing_users (Suc i) us"
| "existing_users i (Some u # us) = le_bytes 2 i @ existing_users (Suc i) us"

definition message_email :: "acc_ext \<Rightarrow> byte list \<Rightarrow> account \<Rightarrow> byte list" where
  "message_email x reqData s =
    (if unat (level (cur s)) < AEM_MINLEVEL_SENDEMAIL then api_response_status AEM_API_ERR_LEVEL
     else if \<not> List.member (take AEM_API_REQ_DATA_LEN reqData) 0
     then api_response_status AEM_API_ERR_PARAM
     else
       (let a32 = addr32_store (takeWhile (\<lambda>b. b \<noteq> 0) reqData) in
        if \<not> owns s (api_uid s) (addressToHash x s a32) (a32 ! 0 AND 128 \<noteq> 0)
        then api_response_status AEM_API_ERR_MESSAGE_CREATE_EXT_HDR_ADFR
        else if unat (level (cur s)) = AEM_USERLEVEL_MAX then
          [of_nat (api_uid s), of_nat (api_uid s div 256) OR 128] @ rsaAdminKey s
        else le_bytes 2 (api_uid s) @ rsaUsersKey s))"

definition message_internal :: "acc_ext \<Rightarrow> byte list \<Rightarrow> byte \<Rightarrow> account \<Rightarrow> byte list" where
  "message_internal x reqData flags s =
    (if \<not> owns s (api_uid s) (addressToHash x s reqData) (reqData ! 0 AND 128 \<noteq> 0)
     then api_response_status AEM_API_ERR_MESSAGE_CREATE_INT_OWN_ADDR
     else if flags AND 4 \<noteq> 0 then
       (if unat (level (cur s)) \<noteq> AEM_USERLEVEL_MAX then api_response_status AEM_API_ERR_LEVEL
        else existing_users 0 (take 4095 (user s)))
     else
       (let hash = addressToHash x s (drop 10 reqData) in
        if hash = 0 then api_response_status AEM_API_ERR_MESSAGE_CREATE_INT_REC_DENY
        else case hashToUid s hash (reqData ! 10 AND 128 \<noteq> 0) of
          None \<Rightarrow> api_response_status AEM_API_ERR_MESSAGE_CREATE_INT_REC_DENY
        | Some (uid, addrFlags) \<Rightarrow>
            if addrFlags AND AEM_ADDR_FLAG_ACCINT = 0
            then api_response_status AEM_API_ERR_MESSAGE_CREATE_INT_REC_DENY
            else le_bytes 2 uid))"

definition api_message_create :: "acc_ext \<Rightarrow> byte list \<Rightarrow> byte \<Rightarrow> account \<Rightarrow> handled" where
  "api_message_create x reqData flags s =
    (if flags AND 1 \<noteq> 0 then (message_email x reqData s, s)
     else (message_internal x reqData flags s, s))"

section \<open>Authentication\<close>

text \<open>The fields of \<^verbatim>\<open>union aem_req\<close>, read from its 39 bytes.\<close>

definition req_binTs :: "byte list \<Rightarrow> 42 word" where
  "req_binTs req = of_nat (le_read (take 8 req))"

definition req_cmd :: "byte list \<Rightarrow> 6 word" where
  "req_cmd req = of_nat (le_read (take 8 req) div 2 ^ 42)"

definition req_flags :: "byte list \<Rightarrow> byte" where
  "req_flags req = req ! 6"

definition req_data :: "byte list \<Rightarrow> byte list" where
  "req_data req = slice 7 AEM_API_REQ_DATA_LEN req"

definition req_mac :: "byte list \<Rightarrow> byte list" where
  "req_mac req = slice 23 16 req"

text \<open>\<^verbatim>\<open>AEM_UAK_TYPE_URL_AUTH\<close> and the other three types of key.\<close>

datatype uak_type = URL_AUTH | URL_DATA | BODY_REQ | BODY_RES

definition uak_type_num :: "uak_type \<Rightarrow> u64" where
  "uak_type_num t = (case t of URL_AUTH \<Rightarrow> 0 | URL_DATA \<Rightarrow> 1 | BODY_REQ \<Rightarrow> 2 | BODY_RES \<Rightarrow> 3)"

definition uak_number :: "42 word \<Rightarrow> bool \<Rightarrow> uak_type \<Rightarrow> u64" where
  "uak_number binTs post type =
     ucast binTs OR (if post then push_bit 47 1 else 0) OR push_bit 45 (uak_type_num type)"

definition uak_derive :: "acc_ext \<Rightarrow> nat \<Rightarrow> 42 word \<Rightarrow> aem_user \<Rightarrow> bool \<Rightarrow> uak_type \<Rightarrow> byte list" where
  "uak_derive x lenOut binTs u post type =
     aem_kdf_sub (chacha20_ietf x) lenOut (uak_number binTs post type) (uak u)"

definition auth_ok :: "acc_ext \<Rightarrow> byte list \<Rightarrow> bool \<Rightarrow> aem_user \<Rightarrow> bool" where
  "auth_ok x req post u =
     onetimeauth_verify x (req_mac req) (slice 5 (AEM_API_REQ_LEN - 16 - 5) req)
       (uak_derive x 32 (req_binTs req) u post URL_AUTH)"

fun auth_search :: "acc_ext \<Rightarrow> byte list \<Rightarrow> bool \<Rightarrow> nat \<Rightarrow> aem_user option list \<Rightarrow> nat option" where
  "auth_search x req post uid [] = None"
| "auth_search x req post uid (None # us) = auth_search x req post (Suc uid) us"
| "auth_search x req post uid (Some u # us) =
     (if auth_ok x req post u then Some uid else auth_search x req post (Suc uid) us)"

text \<open>An authenticated request after decryption: command, flags and the bytes from \<^verbatim>\<open>req->c.data\<close> on.\<close>

record plain_req =
  p_cmd :: nat
  p_flags :: byte
  p_data :: "byte list"

definition decrypt_req :: "acc_ext \<Rightarrow> byte list \<Rightarrow> bool \<Rightarrow> aem_user \<Rightarrow> plain_req" where
  "decrypt_req x req post u =
    (let key = uak_derive x (2 + AEM_API_REQ_DATA_LEN) (req_binTs req) u post URL_DATA in
     \<lparr>p_cmd = unat (req_cmd req XOR ucast (key ! 0 AND 63)), p_flags = req_flags req XOR key ! 1,
      p_data = xor_bytes (req_data req) (drop 2 key) @ drop 23 req\<rparr>)"

definition base_response :: "acc_ext \<Rightarrow> byte list \<Rightarrow> bool \<Rightarrow> nat \<Rightarrow> aem_user \<Rightarrow> plain_req \<Rightarrow> byte list" where
  "base_response x req post uid u p =
     [of_nat (p_cmd p), p_flags p, of_nat uid] @ take AEM_API_REQ_DATA_LEN (p_data p)
       @ uak_derive x AEM_API_BODY_KEYSIZE (req_binTs req) u post BODY_REQ
       @ uak_derive x AEM_API_BODY_KEYSIZE (req_binTs req) u post BODY_RES"

text \<open>
  The result of \<open>api_auth\<close>: nothing when it returns false, otherwise the decrypted request and
  the base response.  \<^verbatim>\<open>api_uid\<close> is left at the user found, or behind the last user.
\<close>

definition api_auth ::
  "acc_ext \<Rightarrow> acc_env \<Rightarrow> byte list \<Rightarrow> bool \<Rightarrow> account \<Rightarrow> (plain_req \<times> byte list) option \<times> account" where
  "api_auth x e req post s =
    (case auth_search x req post 0 (user s) of
       None \<Rightarrow> (None, s\<lparr>api_uid := length (user s)\<rparr>)
     | Some uid \<Rightarrow>
         (let s1 = s\<lparr>api_uid := uid\<rparr>; u = cur s1 in
          if req_binTs req \<le> lastBinTs u then (None, s1)
          else if AEM_API_TIMEDIFF < \<bar>int (unat (req_binTs req)) - (now e - AEM_TS_BEGIN) * 1000\<bar>
          then (None, s1)
          else
            (let p = decrypt_req x req post u in
             (Some (p, base_response x req post uid u p),
              set_user s1 uid (Some (u\<lparr>lastBinTs := req_binTs req\<rparr>))))))"

section \<open>MTA and Storage\<close>

definition mta_getUid :: "acc_ext \<Rightarrow> acc_env \<Rightarrow> byte list \<Rightarrow> account \<Rightarrow> reply" where
  "mta_getUid x e addr32 s =
    (let isShield = (addr32 ! 0 AND 128 \<noteq> 0); hash = addressToHash x s addr32 in
     if hash = 0 then Inl IC_ERR
     else case hashToUid s hash isShield of
       Some (uid, flags) \<Rightarrow>
         (if flags AND AEM_ADDR_FLAG_ACCEXT = 0 then
            (if isShield then Inl IC_NOTEXIST
             else if \<not> alloc_ok e then Inl IC_ERR else Inr [0xFF, 0xFF, 0xFF])
          else if \<not> alloc_ok e then Inl IC_ERR
          else Inr (le_bytes 2 uid @ [flags AND (AEM_ADDR_FLAG_ALLVER OR AEM_ADDR_FLAG_ATTACH
                 OR AEM_ADDR_FLAG_SECURE OR AEM_ADDR_FLAG_ORIGIN)]))
     | None \<Rightarrow>
         (if isShield then Inl IC_NOTEXIST
          else if \<not> alloc_ok e then Inl IC_ERR else Inr [0xFF, 0xFF, 0xFF]))"

text \<open>\<^verbatim>\<open>struct evpKeys\<close>: the flag \<open>security\<close> and the four keys.\<close>

definition sto_uid2keys :: "acc_env \<Rightarrow> nat \<Rightarrow> account \<Rightarrow> reply" where
  "sto_uid2keys e uid s =
    (case get_user s uid of
       None \<Rightarrow> Inl IC_NOTEXIST
     | Some u \<Rightarrow> if \<not> alloc_ok e then Inl IC_ERR
         else Inr ([0] @ pwk u @ psk u @ pqk u @ usk u))"

section \<open>Setup\<close>

definition setRsaKeys :: "byte list \<Rightarrow> byte list \<Rightarrow> account \<Rightarrow> account" where
  "setRsaKeys keyAdmin keyUsers s = s\<lparr>rsaAdminKey := keyAdmin, rsaUsersKey := keyUsers\<rparr>"

end
