(* ===== verification/Account_Server.thy ===== *)
theory Account_Server
  imports Account_IO
begin

text \<open>
  \<^verbatim>\<open>src/account/IntCom_Action.c\<close>: the requests AEM-Account answers, from AEM-API (\<open>acc_conn_api\<close>),
  AEM-MTA (\<open>acc_conn_mta\<close>) and AEM-Storage (\<open>acc_conn_sto\<close>).  A request of AEM-API is a message of 39
  bytes and, for a continued POST, the encrypted body.  The result \<open>None\<close> stands for the
  undefined behaviour of a body too short for its authentication tag, where the length of
  the decrypted body wraps around.

  \<open>acc_step\<close> is one request to the server as a step of the state; the histories are runs of
  such steps.
\<close>

section \<open>Requests of AEM-API\<close>

definition acc_get :: "acc_ext \<Rightarrow> acc_env \<Rightarrow> plain_req \<Rightarrow> account \<Rightarrow> handled" where
  "acc_get x e p s =
    (if p_cmd p = 0 then api_account_browse s
     else if p_cmd p = 1 then api_account_delete x e (p_data p) s
     else if p_cmd p = 2 then api_account_update x e (p_data p) s
     else if p_cmd p = 3 then api_address_create x e (p_data p) s
     else if p_cmd p = 4 then api_address_delete x e (p_data p) s
     else if p_cmd p = 6 then api_address_update s
     else if p_cmd p = 7 then api_message_browse (p_flags p) s
     else if p_cmd p = 10 then api_setting_limits x e (p_data p) s
     else if p_cmd p = 8 \<or> p_cmd p = 9 then ([], s)
     else api_invalid s)"

type_synonym reply_state = "(intcom_code + byte list) \<times> account"

definition acc_continue ::
  "acc_ext \<Rightarrow> acc_env \<Rightarrow> byte list \<Rightarrow> plain_req \<Rightarrow> byte list \<Rightarrow> account \<Rightarrow> reply_state option" where
  "acc_continue x e msg p base s =
    (if length msg = AEM_API_REQ_LEN then Some (Inl IC_CONTINUE, s)
     else if AEM_API_REQ_LEN < length msg then
       (if length msg - AEM_API_REQ_LEN < 16 then None
        else case aes256gcm_decrypt x (slice 19 32 base) (replicate 12 0) (drop AEM_API_REQ_LEN msg) of
          None \<Rightarrow> Some (Inl IC_ERR, s)
        | Some body \<Rightarrow>
            (case (if p_cmd p = 0 then api_account_create x e body s else api_private_update x e body s) of
               (res, s') \<Rightarrow>
                 Some (Inr (replicate (AEM_LEN_APIRESP_BASE - AEM_API_BODY_KEYSIZE) 0
                   @ drop (AEM_LEN_APIRESP_BASE - AEM_API_BODY_KEYSIZE) base @ res), s')))
     else Some (Inl IC_ERR, s))"

definition acc_post ::
  "acc_ext \<Rightarrow> acc_env \<Rightarrow> byte list \<Rightarrow> plain_req \<Rightarrow> byte list \<Rightarrow> account \<Rightarrow> reply_state option" where
  "acc_post x e msg p base s =
    (if p_cmd p = 0 \<or> p_cmd p = 5 then acc_continue x e msg p base s
     else if p_cmd p = 1 then
       (case api_message_create x (p_data p) (p_flags p) s of (res, s') \<Rightarrow> Some (Inr (base @ res), s'))
     else if p_cmd p = 3 then Some (Inr base, s)
     else Some (Inl IC_ERR, s))"

definition acc_conn_api ::
  "acc_ext \<Rightarrow> acc_env \<Rightarrow> nat \<Rightarrow> byte list \<Rightarrow> account \<Rightarrow> reply_state option" where
  "acc_conn_api x e operation msg s =
    (let post = (operation = 2) in
     if \<not> post \<and> operation \<noteq> 1 then Some (Inl IC_ERR, s)
     else if \<not> alloc_res e then Some (Inl IC_ERR, s)
     else case api_auth x e msg post s of
       (None, s1) \<Rightarrow> Some (Inl IC_AUTHFAIL, s1)
     | (Some (p, base), s1) \<Rightarrow>
         if post then acc_post x e msg p base s1
         else (case acc_get x e p s1 of (res, s2) \<Rightarrow> Some (Inr (base @ res), s2)))"

section \<open>Requests of AEM-MTA and AEM-Storage\<close>

definition acc_conn_mta :: "acc_ext \<Rightarrow> acc_env \<Rightarrow> nat \<Rightarrow> byte list \<Rightarrow> account \<Rightarrow> reply" where
  "acc_conn_mta x e operation msg s =
    (if operation \<noteq> 0 \<or> length msg \<noteq> 10 then Inl IC_ERR else mta_getUid x e msg s)"

definition acc_conn_sto :: "acc_env \<Rightarrow> nat \<Rightarrow> account \<Rightarrow> reply" where
  "acc_conn_sto e operation s =
    (if AEM_USERCOUNT \<le> operation then Inl IC_ERR else sto_uid2keys e operation s)"

section \<open>Steps\<close>

text \<open>An event is one request of AEM-API with its surroundings; the two other kinds of requests
  do not change the state.\<close>

type_synonym acc_event = "acc_env \<times> nat \<times> byte list"

definition acc_step :: "acc_ext \<Rightarrow> acc_event \<Rightarrow> account \<Rightarrow> account" where
  "acc_step x ev s =
    (case ev of (e, operation, msg) \<Rightarrow>
       (case acc_conn_api x e operation msg s of Some (_, s') \<Rightarrow> s' | None \<Rightarrow> s))"

end
