(* ===== verification/Account_Inv.thy ===== *)
theory Account_Inv
  imports Account_Server
begin

text \<open>
  What every operation of AEM-Account keeps: the table has 4096 entries, the arrays of every
  user have their sizes, no address hash is zero, no address accepts internal mail (no
  operation sets that flag), and no two address entries, of one user or of two, have the same
  hash and kind.  The operations are described by what they do to the list of a user's
  addresses.
\<close>

section \<open>The addresses of a user\<close>

definition user_addrs :: "aem_user \<Rightarrow> (u64 \<times> byte) list" where
  "user_addrs u = take (unat (addrCount u)) (zip (addrHash u) (addrFlag u))"

definition addr_key :: "u64 \<times> byte \<Rightarrow> u64 \<times> bool" where
  "addr_key a = (fst a, is_shield (snd a))"

definition user_keys :: "aem_user option \<Rightarrow> (u64 \<times> bool) list" where
  "user_keys u = (case u of None \<Rightarrow> [] | Some u \<Rightarrow> map addr_key (user_addrs u))"

definition addr_ok :: "u64 \<times> byte \<Rightarrow> bool" where
  "addr_ok a \<longleftrightarrow> fst a \<noteq> 0 \<and> snd a AND AEM_ADDR_FLAG_ACCINT = 0"

definition user_ok :: "aem_user option \<Rightarrow> bool" where
  "user_ok u \<longleftrightarrow> (case u of None \<Rightarrow> True | Some u \<Rightarrow> user_sizes u \<and> list_all addr_ok (user_addrs u))"

definition acc_inv :: "account \<Rightarrow> bool" where
  "acc_inv s \<longleftrightarrow> length (user s) = AEM_USERCOUNT \<and> list_all user_ok (user s) \<and>
     distinct (concat (map user_keys (user s)))"

lemma user_keys_None [simp]: "user_keys None = []"
  by (simp add: user_keys_def)

lemma user_ok_None [simp]: "user_ok None"
  by (simp add: user_ok_def)

lemma keys_replicate [simp]: "concat (map user_keys (replicate n None)) = []"
  by (induction n) simp_all

lemma acc_inv_empty: "length (user s) = AEM_USERCOUNT \<Longrightarrow> set (user s) \<subseteq> {None} \<Longrightarrow> acc_inv s"
proof -
  assume "length (user s) = AEM_USERCOUNT" "set (user s) \<subseteq> {None}"
  moreover from this have "user s = replicate AEM_USERCOUNT None"
    by (metis replicate_length_same singletonD subsetD)
  ultimately show ?thesis by (simp add: acc_inv_def list_all_iff)
qed

lemma count_le: "unat (c :: 5 word) \<le> 31"
proof -
  have "unat c < 2 ^ LENGTH(5)" by (rule unsigned_less)
  then show ?thesis by simp
qed

lemma is_shield_eq: "f AND AEM_ADDR_FLAG_SHIELD = (if b then AEM_ADDR_FLAG_SHIELD else 0) \<longleftrightarrow> is_shield f = b"
proof -
  have "f AND 128 = 0 \<or> f AND 128 = 128"
  proof (cases "bit f 7")
    case True
    have "f AND 128 = 128"
      by (rule bit_word_eqI) (simp only: bit_and_iff bit_128, use True in auto)
    then show ?thesis ..
  next
    case False
    have "f AND 128 = 0"
      by (rule bit_word_eqI) (simp only: bit_and_iff bit_128, use False in auto)
    then show ?thesis ..
  qed
  then show ?thesis by (auto simp: is_shield_def addr_flag_defs)
qed

section \<open>Looking up\<close>

lemma find_addr_Some:
  "find_addr hs fs n hash sh = Some f \<Longrightarrow> (hash, f) \<in> set (take n (zip hs fs)) \<and> is_shield f = sh"
  by (induction hs fs n hash sh rule: find_addr.induct) (auto simp: is_shield_eq split: if_splits)

lemma find_addr_None:
  "find_addr hs fs n hash sh = None \<Longrightarrow> (hash, f) \<in> set (take n (zip hs fs)) \<Longrightarrow> is_shield f \<noteq> sh"
  by (induction hs fs n hash sh rule: find_addr.induct) (auto simp: is_shield_eq split: if_splits)

lemma user_addr_Some: "user_addr u hash sh = Some f \<Longrightarrow> (hash, f) \<in> set (user_addrs u) \<and> is_shield f = sh"
  unfolding user_addr_def user_addrs_def by (rule find_addr_Some)

lemma user_addr_None: "user_addr u hash sh = None \<longleftrightarrow> (hash, sh) \<notin> set (user_keys (Some u))"
proof
  assume none: "user_addr u hash sh = None"
  show "(hash, sh) \<notin> set (user_keys (Some u))"
  proof
    assume "(hash, sh) \<in> set (user_keys (Some u))"
    then obtain f where "(hash, f) \<in> set (user_addrs u)" "is_shield f = sh"
      by (auto simp: user_keys_def addr_key_def)
    with find_addr_None [OF none [unfolded user_addr_def]] show False
      unfolding user_addrs_def by blast
  qed
next
  assume none: "(hash, sh) \<notin> set (user_keys (Some u))"
  show "user_addr u hash sh = None"
  proof (rule ccontr)
    assume "user_addr u hash sh \<noteq> None"
    then obtain f where "(hash, f) \<in> set (user_addrs u)" "is_shield f = sh"
      using user_addr_Some by blast
    then have "(hash, sh) \<in> addr_key ` set (user_addrs u)"
      by (intro image_eqI [of _ _ "(hash, f)"]) (simp_all add: addr_key_def)
    with none show False by (simp add: user_keys_def)
  qed
qed

lemma hash_search_None:
  "hash_search k us hash sh = None \<longleftrightarrow> (hash, sh) \<notin> set (concat (map user_keys us))"
proof (induction k us hash sh rule: hash_search.induct)
  case (3 k u us hash sh)
  then show ?case using user_addr_None [of u hash sh] by (cases "user_addr u hash sh") auto
qed simp_all

lemma hash_search_Some:
  "hash_search k us hash sh = Some (uid, f) \<Longrightarrow>
   k \<le> uid \<and> uid - k < length us \<and> (\<exists>u. us ! (uid - k) = Some u \<and> user_addr u hash sh = Some f)"
proof (induction k us hash sh rule: hash_search.induct)
  case (2 k us hash sh)
  then have IH: "Suc k \<le> uid" "uid - Suc k < length us"
      "\<exists>u. us ! (uid - Suc k) = Some u \<and> user_addr u hash sh = Some f" by simp_all
  moreover from IH(1) have "uid - k = Suc (uid - Suc k)" by simp
  ultimately show ?case by simp
next
  case (3 k u us hash sh)
  show ?case
  proof (cases "user_addr u hash sh")
    case None
    with 3 have IH: "Suc k \<le> uid" "uid - Suc k < length us"
        "\<exists>u. us ! (uid - Suc k) = Some u \<and> user_addr u hash sh = Some f" by simp_all
    moreover from IH(1) have "uid - k = Suc (uid - Suc k)" by simp
    ultimately show ?thesis by simp
  qed (use "3.prems" in simp)
qed simp

lemma hashToUid_Some:
  "hashToUid s hash sh = Some (uid, f) \<Longrightarrow>
   \<exists>u. get_user s uid = Some u \<and> (hash, f) \<in> set (user_addrs u) \<and> is_shield f = sh"
  using hash_search_Some [of 0 "user s" hash sh uid f] user_addr_Some
  by (auto simp: hashToUid_def get_user_def)

lemma hashToUid_None:
  "hashToUid s hash sh = None \<longleftrightarrow> (hash, sh) \<notin> set (concat (map user_keys (user s)))"
  by (simp add: hashToUid_def hash_search_None)

section \<open>Changing one user\<close>

lemma get_userD: "get_user s uid = Some u \<Longrightarrow> uid < length (user s) \<and> user s ! uid = Some u"
  by (auto simp: get_user_def split: if_splits)

lemma inv_user_ok: "acc_inv s \<Longrightarrow> get_user s uid = Some u \<Longrightarrow> user_ok (Some u)"
  by (metis acc_inv_def get_userD list_all_length)

lemma distinct_middle:
  "distinct (a @ b @ c) \<Longrightarrow> distinct b' \<Longrightarrow>
   (\<And>k. k \<in> set b' \<Longrightarrow> k \<in> set b \<or> k \<notin> set (a @ b @ c)) \<Longrightarrow> distinct (a @ b' @ c)"
  by (simp add: disjoint_iff) blast

lemma distinct_concat_update:
  assumes i: "i < length us" and d: "distinct (concat (map g us))" and "distinct (g u)"
    and new: "\<And>k. k \<in> set (g u) \<Longrightarrow> k \<in> set (g (us ! i)) \<or> k \<notin> set (concat (map g us))"
  shows "distinct (concat (map g (us[i := u])))"
proof -
  let ?a = "concat (map g (take i us))" and ?b = "concat (map g (drop (Suc i) us))"
  have us: "concat (map g us) = ?a @ g (us ! i) @ ?b"
    using i by (subst id_take_nth_drop [OF i]) simp
  have upd: "concat (map g (us[i := u])) = ?a @ g u @ ?b"
    using i by (simp add: upd_conv_take_nth_drop)
  show ?thesis
    using distinct_middle [OF d [unfolded us] assms(3) new [unfolded us]] unfolding upd .
qed

lemma acc_inv_set_user:
  assumes inv: "acc_inv s" and ok: "user_ok u" and "distinct (user_keys u)"
    and new: "\<And>k. k \<in> set (user_keys u) \<Longrightarrow>
      k \<in> set (user_keys (get_user s uid)) \<or> k \<notin> set (concat (map user_keys (user s)))"
  shows "acc_inv (set_user s uid u)"
proof (cases "uid < length (user s)")
  case True
  have "distinct (concat (map user_keys ((user s)[uid := u])))"
    by (rule distinct_concat_update) (use assms True in \<open>auto simp: acc_inv_def get_user_def\<close>)
  moreover have "list_all user_ok ((user s)[uid := u])"
    using inv ok by (auto simp: acc_inv_def list_all_iff dest!: set_update_subset_insert [THEN subsetD])
  ultimately show ?thesis using inv by (simp add: acc_inv_def set_user_def)
next
  case False
  then have "(user s)[uid := u] = user s" by (intro list_update_beyond) simp
  then show ?thesis using inv by (simp add: set_user_def acc_inv_def)
qed

lemma inv_keys_distinct: "acc_inv s \<Longrightarrow> distinct (user_keys (get_user s uid))"
proof -
  assume "acc_inv s"
  then have d: "distinct (concat (map user_keys (user s)))" by (simp add: acc_inv_def)
  show ?thesis
  proof (cases "uid < length (user s)")
    case True
    then have "user_keys (user s ! uid) \<in> set (map user_keys (user s))" by simp
    then have "distinct (user_keys (user s ! uid))" using d by (simp add: distinct_concat_iff)
    with True show ?thesis by (simp add: get_user_def)
  qed (simp add: get_user_def)
qed

text \<open>A change that leaves a user's addresses and sizes alone.\<close>

lemma acc_inv_same_addrs:
  assumes "acc_inv s" "get_user s uid = Some u" "user_sizes u'" "user_addrs u' = user_addrs u"
  shows "acc_inv (set_user s uid (Some u'))"
proof (rule acc_inv_set_user [OF assms(1)])
  show "user_ok (Some u')" using inv_user_ok [OF assms(1,2)] assms(3,4) by (simp add: user_ok_def)
  show "distinct (user_keys (Some u'))"
    using inv_keys_distinct [OF assms(1), of uid] assms(2,4) by (simp add: user_keys_def)
qed (use assms in \<open>simp add: user_keys_def\<close>)

lemma acc_inv_user_only:
  "user s' = user s \<Longrightarrow> acc_inv s' = acc_inv s"
  by (simp add: acc_inv_def)

section \<open>Registering and deleting an address\<close>

lemma take_Suc_update: "n < length c \<Longrightarrow> take (Suc n) (c[n := x]) = take n c @ [x]"
  by (simp add: take_Suc_conv_app_nth list_update_append)

lemma user_addrs_add:
  assumes "user_sizes u" "unat (addrCount u) < 31"
  shows "user_addrs (add_address h f u) = user_addrs u @ [(h, f)]"
    and "user_sizes (add_address h f u)"
proof -
  have l: "length (addrHash u) = 31" "length (addrFlag u) = 31"
    using assms(1) by (simp_all add: user_sizes_def acc_consts)
  have c: "unat (addrCount u + 1) = Suc (unat (addrCount u))"
    using assms(2) by (simp add: unat_word_ariths)
  have "user_addrs (add_address h f u) = take (Suc (unat (addrCount u)))
      ((zip (addrHash u) (addrFlag u))[unat (addrCount u) := (h, f)])"
    by (simp add: user_addrs_def add_address_def c zip_update)
  also have "\<dots> = take (unat (addrCount u)) (zip (addrHash u) (addrFlag u)) @ [(h, f)]"
    using assms(2) l by (intro take_Suc_update) simp
  finally show "user_addrs (add_address h f u) = user_addrs u @ [(h, f)]"
    by (simp add: user_addrs_def)
  show "user_sizes (add_address h f u)"
    using assms(1) by (simp add: user_sizes_def add_address_def)
qed

definition entries :: "aem_user \<Rightarrow> (u64 \<times> byte) list" where
  "entries u = zip (addrHash u) (addrFlag u)"

lemma shift_down_same:
  "user_sizes (shift_down i k u) = user_sizes u" "addrCount (shift_down i k u) = addrCount u"
  "level (shift_down i k u) = level u" "uak (shift_down i k u) = uak u"
  "lastBinTs (shift_down i k u) = lastBinTs u"
  by (induction i k u rule: shift_down.induct) (simp_all add: user_sizes_def)

lemma shift_down_entries:
  "length (addrHash u) = length (addrFlag u) \<Longrightarrow> i + k < length (addrHash u) \<Longrightarrow>
   take (i + k) (entries (shift_down i k u)) = take i (entries u) @ take k (drop (Suc i) (entries u))"
proof (induction i k u rule: shift_down.induct)
  case (2 i k u)
  let ?u = "u\<lparr>addrHash := (addrHash u)[i := addrHash u ! Suc i],
      addrFlag := (addrFlag u)[i := addrFlag u ! Suc i]\<rparr>"
  have len: "length (entries u) = length (addrHash u)" using "2.prems"(1) by (simp add: entries_def)
  have e: "entries ?u = (entries u)[i := entries u ! Suc i]"
    using "2.prems" by (simp add: entries_def zip_update)
  have "take (Suc i + k) (entries (shift_down (Suc i) k ?u))
      = take (Suc i) (entries ?u) @ take k (drop (Suc (Suc i)) (entries ?u))"
    using "2.prems" by (intro "2.IH") simp_all
  also have "take (Suc i) (entries ?u) = take i (entries u) @ [entries u ! Suc i]"
    unfolding e using "2.prems" len by (intro take_Suc_update) simp
  also have "drop (Suc (Suc i)) (entries ?u) = drop (Suc (Suc i)) (entries u)"
    unfolding e by simp
  finally show ?case
    using "2.prems" len by (simp add: Cons_nth_drop_Suc [symmetric, of "Suc i"])
qed simp

lemma find_hash_Some:
  "find_hash hs n d = Some i \<Longrightarrow> i < n \<and> i < length hs"
  by (induction hs n d arbitrary: i rule: find_hash.induct) (auto split: if_splits)

text \<open>The addresses after a deletion: entry \<open>d\<close> is gone, the others keep their order.\<close>

lemma user_addrs_delete:
  assumes "user_sizes u" "d < unat (addrCount u)"
    and u': "u' = shift_down d (unat (addrCount u) - 1 - d) u"
  shows "user_addrs (u'\<lparr>addrCount := addrCount u' - 1\<rparr>)
      = take d (user_addrs u) @ drop (Suc d) (user_addrs u)"
proof -
  let ?n = "unat (addrCount u)"
  have l: "length (addrHash u) = 31" "length (addrFlag u) = 31" "?n \<le> 31"
    using assms(1) count_le [of "addrCount u"] by (simp_all add: user_sizes_def acc_consts)
  have c: "unat (addrCount u' - 1) = ?n - 1"
    using assms(2) unfolding u' shift_down_same by (subst unat_minus_one) auto
  have "user_addrs (u'\<lparr>addrCount := addrCount u' - 1\<rparr>) = take (?n - 1) (entries u')"
    by (simp add: user_addrs_def entries_def c)
  also have "\<dots> = take (d + (?n - 1 - d)) (entries u')" using assms(2) by simp
  also have "\<dots> = take d (entries u) @ take (?n - 1 - d) (drop (Suc d) (entries u))"
    unfolding u' using l assms(2) by (intro shift_down_entries) simp_all
  also have "\<dots> = take d (user_addrs u) @ drop (Suc d) (user_addrs u)"
    using assms(2) by (simp add: user_addrs_def entries_def drop_take min_absorb1)
  finally show ?thesis .
qed

section \<open>Every operation keeps the invariant\<close>

lemma saveUser_fields [simp]:
  "user (saveUser x e s) = user s" "limits (saveUser x e s) = limits s"
  "api_uid (saveUser x e s) = api_uid s" "rsaAdminKey (saveUser x e s) = rsaAdminKey s"
  "rsaUsersKey (saveUser x e s) = rsaUsersKey s" "saltNormal (saveUser x e s) = saltNormal s"
  by (simp_all add: saveUser_def split: option.split)

lemma saveSettings_fields [simp]:
  "user (saveSettings x e s) = user s" "limits (saveSettings x e s) = limits s"
  "api_uid (saveSettings x e s) = api_uid s" "rsaAdminKey (saveSettings x e s) = rsaAdminKey s"
  "rsaUsersKey (saveSettings x e s) = rsaUsersKey s"
  "saltNormal (saveSettings x e s) = saltNormal s"
  by (simp_all add: saveSettings_def split: option.split)

lemma acc_inv_save [simp]: "acc_inv (saveUser x e s) = acc_inv s"
  "acc_inv (saveSettings x e s) = acc_inv s"
  by (simp_all add: acc_inv_def)

lemma get_user_save [simp]: "get_user (saveUser x e s) uid = get_user s uid"
  "get_user (saveSettings x e s) uid = get_user s uid"
  by (simp_all add: get_user_def)

lemma get_user_update [simp]:
  "get_user (s\<lparr>limits := l\<rparr>) uid = get_user s uid" "get_user (s\<lparr>api_uid := k\<rparr>) uid = get_user s uid"
  by (simp_all add: get_user_def)

lemma cur_Some [simp]: "get_user s (api_uid s) = Some u \<Longrightarrow> cur s = u"
  by (simp add: cur_def)

lemma inv_sizes: "acc_inv s \<Longrightarrow> get_user s uid = Some u \<Longrightarrow> user_sizes u"
  using inv_user_ok [of s uid u] by (simp add: user_ok_def)

lemma delete_inv: "acc_inv s \<Longrightarrow> acc_inv (snd (api_account_delete x e d s))"
  by (auto simp: api_account_delete_def Let_def intro!: acc_inv_set_user)

lemma level_inv: "acc_inv s \<Longrightarrow> acc_inv (snd (api_account_update x e d s))"
  using inv_sizes [of s "req_uid d"]
  by (auto simp: api_account_update_def Let_def user_sizes_def user_addrs_def
      intro!: acc_inv_same_addrs split: option.split)

lemma create_inv: "acc_inv s \<Longrightarrow> acc_inv (snd (api_account_create x e d s))"
proof -
  assume inv: "acc_inv s"
  have "acc_inv (set_user s k (Some (zero_user\<lparr>uak := slice 0 40 d, pwk := slice 40 32 d\<rparr>)))"
    if "length d = 72" for k
    using that by (intro acc_inv_set_user [OF inv])
      (auto simp: user_ok_def user_sizes_def user_addrs_def user_keys_def zero_user_def slice_def)
  with inv show ?thesis by (simp add: api_account_create_def Let_def)
qed

lemma private_inv:
  "(\<And>k n c l. length (chacha20_ietf x k n c l) = l) \<Longrightarrow> acc_inv s \<Longrightarrow> get_user s (api_uid s) = Some u \<Longrightarrow>
   acc_inv (snd (api_private_update x e d s))"
  using inv_sizes [of s "api_uid s" u]
  by (auto simp: api_private_update_def Let_def user_sizes_def user_addrs_def slice_def xor_bytes_def
      acc_consts intro!: acc_inv_same_addrs)

lemma register_inv:
  assumes inv: "acc_inv s" and me: "get_user s (api_uid s) = Some u" and "unat (addrCount u) < 31"
    and "hash \<noteq> 0"
  shows "acc_inv (snd (register_address x e hash sh a s))"
proof (cases "hashToUid s hash sh")
  case None
  let ?flag = "if sh then AEM_ADDR_FLAGS_DEFAULT OR AEM_ADDR_FLAG_SHIELD else AEM_ADDR_FLAGS_DEFAULT"
  let ?u = "add_address hash ?flag u"
  note add = user_addrs_add [OF inv_sizes [OF inv me] assms(3), of hash ?flag]
  have flag: "is_shield ?flag = sh" "addr_ok (hash, ?flag)"
    using assms(4) by (auto simp: is_shield_def addr_ok_def addr_flag_defs)
  have new: "(hash, sh) \<notin> set (concat (map user_keys (user s)))"
    using None by (simp add: hashToUid_None)
  have keys: "user_keys (Some ?u) = user_keys (Some u) @ [(hash, sh)]"
    using flag(1) by (simp add: user_keys_def add addr_key_def)
  have "(hash, sh) \<notin> set (user_keys (Some u))"
    using new get_userD [OF me] by (metis UN_I nth_mem set_concat set_map image_eqI)
  moreover have "distinct (user_keys (Some u))" using inv_keys_distinct [OF inv] me by metis
  ultimately have "acc_inv (set_user s (api_uid s) (Some ?u))"
    using inv_user_ok [OF inv me] flag add new me unfolding keys
    by (intro acc_inv_set_user [OF inv]) (auto simp: user_ok_def keys)
  then show ?thesis using me None by (cases sh) (simp_all add: register_address_def Let_def)
qed (simp add: register_address_def inv)

lemma address_create_inv:
  assumes "acc_inv s" "get_user s (api_uid s) = Some u"
  shows "acc_inv (snd (api_address_create x e d s))"
  using assms register_inv [OF assms]
  by (simp add: api_address_create_def Let_def acc_consts not_le)

lemma address_delete_inv:
  assumes inv: "acc_inv s" and me: "get_user s (api_uid s) = Some u"
  shows "acc_inv (snd (api_address_delete x e d s))"
proof (cases "find_hash (addrHash u) (unat (addrCount u)) d")
  case (Some i)
  let ?u = "shift_down i (unat (addrCount u) - 1 - i) u"
  let ?v = "?u\<lparr>addrCount := addrCount ?u - 1\<rparr>"
  have addrs: "user_addrs ?v = take i (user_addrs u) @ drop (Suc i) (user_addrs u)"
    using find_hash_Some [OF Some] inv_sizes [OF inv me] by (intro user_addrs_delete) simp_all
  then have sub: "set (user_addrs ?v) \<subseteq> set (user_addrs u)"
    by (auto dest: in_set_takeD in_set_dropD)
  have keys: "user_keys (Some ?v) = take i (user_keys (Some u)) @ drop (Suc i) (user_keys (Some u))"
    unfolding user_keys_def option.case addrs by (simp only: map_append take_map drop_map)
  have "user_sizes ?v" using inv_sizes [OF inv me] by (simp add: user_sizes_def shift_down_same(1) [unfolded user_sizes_def])
  moreover have "distinct (user_keys (Some ?v))"
    unfolding keys using inv_keys_distinct [OF inv, of "api_uid s"] me
    by (metis distinct_append append_take_drop_id distinct_drop drop_Suc distinct_take set_take_disj_set_drop_if_distinct le_SucI order_refl)
  ultimately have "acc_inv (set_user s (api_uid s) (Some ?v))"
    using inv_user_ok [OF inv me] sub me
    by (intro acc_inv_set_user [OF inv]) (auto simp: user_ok_def list_all_iff user_keys_def)
  then show ?thesis using me Some by (simp add: api_address_delete_def Let_def)
qed (use assms in \<open>simp add: api_address_delete_def\<close>)

end
