(* ===== verification/Account_Props.thy ===== *)
theory Account_Props
  imports Account_Inv
begin

text \<open>
  The server as a whole: every request keeps the invariant of \<open>Account_Inv\<close>, the address lookup
  is exact, a request changes only what its sender may change, an accepted request is not
  accepted again, and the findings.
\<close>

section \<open>Authentication\<close>

lemma auth_search_Some:
  "auth_search x req post k us = Some uid \<Longrightarrow>
   k \<le> uid \<and> uid - k < length us \<and> (\<exists>u. us ! (uid - k) = Some u \<and> auth_ok x req post u)"
proof (induction x req post k us rule: auth_search.induct)
  case (2 x req post k us)
  then have IH: "Suc k \<le> uid" "uid - Suc k < length us"
      "\<exists>u. us ! (uid - Suc k) = Some u \<and> auth_ok x req post u" by simp_all
  moreover from IH(1) have "uid - k = Suc (uid - Suc k)" by simp
  ultimately show ?case by simp
next
  case (3 x req post k u us)
  show ?case
  proof (cases "auth_ok x req post u")
    case False
    with 3 have IH: "Suc k \<le> uid" "uid - Suc k < length us"
        "\<exists>u. us ! (uid - Suc k) = Some u \<and> auth_ok x req post u" by simp_all
    moreover from IH(1) have "uid - k = Suc (uid - Suc k)" by simp
    ultimately show ?thesis by simp
  qed (use "3.prems" in simp)
qed simp

text \<open>The user whose key authenticates a request.\<close>

definition requester :: "acc_ext \<Rightarrow> nat \<Rightarrow> byte list \<Rightarrow> account \<Rightarrow> nat option" where
  "requester x operation msg s = auth_search x msg (operation = 2) 0 (user s)"

lemma requester_user:
  "requester x operation msg s = Some a \<Longrightarrow>
   \<exists>u. get_user s a = Some u \<and> auth_ok x msg (operation = 2) u"
  using auth_search_Some [of x msg "operation = 2" 0 "user s" a]
  by (auto simp: requester_def get_user_def)

lemma get_user_uid [simp]: "get_user (s\<lparr>api_uid := k\<rparr>) = get_user s"
  by (rule ext) (simp add: get_user_def)

lemma set_user_uid [simp]: "api_uid (set_user s a u) = api_uid s" "limits (set_user s a u) = limits s"
  "rsaAdminKey (set_user s a u) = rsaAdminKey s" "rsaUsersKey (set_user s a u) = rsaUsersKey s"
  "saltNormal (set_user s a u) = saltNormal s"
  by (simp_all add: set_user_def)

text \<open>The state after authentication: the time stamp of the requester is the request's.\<close>

definition authed :: "byte list \<Rightarrow> nat \<Rightarrow> aem_user \<Rightarrow> account \<Rightarrow> account" where
  "authed msg a u s = set_user (s\<lparr>api_uid := a\<rparr>) a (Some (u\<lparr>lastBinTs := req_binTs msg\<rparr>))"

lemma api_auth_cases:
  obtains (unknown) "requester x operation msg s = None"
      "api_auth x e msg (operation = 2) s = (None, s\<lparr>api_uid := length (user s)\<rparr>)"
  | (refused) a u where "requester x operation msg s = Some a" "get_user s a = Some u"
      "api_auth x e msg (operation = 2) s = (None, s\<lparr>api_uid := a\<rparr>)"
  | (accepted) a u p base where "requester x operation msg s = Some a" "get_user s a = Some u"
      "lastBinTs u < req_binTs msg"
      "p = decrypt_req x msg (operation = 2) u" "base = base_response x msg (operation = 2) a u p"
      "api_auth x e msg (operation = 2) s = (Some (p, base), authed msg a u s)"
proof (cases "requester x operation msg s")
  case None
  then show ?thesis using unknown by (simp add: api_auth_def requester_def)
next
  case (Some a)
  then obtain u where u: "get_user s a = Some u" using requester_user by blast
  then have cur: "cur (s\<lparr>api_uid := a\<rparr>) = u" by (simp add: cur_def)
  show ?thesis
  proof (cases "req_binTs msg \<le> lastBinTs u \<or>
      AEM_API_TIMEDIFF < \<bar>int (unat (req_binTs msg)) - (now e - AEM_TS_BEGIN) * 1000\<bar>")
    case True
    then show ?thesis using refused [OF Some u] Some cur
      by (auto simp: api_auth_def requester_def Let_def)
  next
    case False
    then show ?thesis using accepted [OF Some u _ refl refl] Some cur
      by (auto simp: api_auth_def requester_def Let_def authed_def not_le)
  qed
qed

lemma authed_me:
  "get_user s a = Some u \<Longrightarrow>
   get_user (authed msg a u s) (api_uid (authed msg a u s)) = Some (u\<lparr>lastBinTs := req_binTs msg\<rparr>)"
  using get_userD [of s a u] by (simp add: authed_def)

lemma authed_inv: "acc_inv s \<Longrightarrow> get_user s a = Some u \<Longrightarrow> acc_inv (authed msg a u s)"
  unfolding authed_def using inv_sizes [of s a u]
  by (intro acc_inv_same_addrs [of _ _ u])
     (simp_all add: acc_inv_user_only [of "s\<lparr>api_uid := a\<rparr>" s] user_sizes_def user_addrs_def)

section \<open>Invariant\<close>

definition ext_ok :: "acc_ext \<Rightarrow> bool" where
  "ext_ok x \<longleftrightarrow> (\<forall>k n c l. length (chacha20_ietf x k n c l) = l)"

lemma browse_inv: "acc_inv s \<Longrightarrow> acc_inv (snd (api_account_browse s))"
    "acc_inv s \<Longrightarrow> acc_inv (snd (api_message_browse f s))"
    "acc_inv s \<Longrightarrow> acc_inv (snd (api_message_create x d f s))"
    "acc_inv s \<Longrightarrow> acc_inv (snd (api_address_update s))" "acc_inv s \<Longrightarrow> acc_inv (snd (api_invalid s))"
    "acc_inv s \<Longrightarrow> acc_inv (snd (api_setting_limits x e d s))"
  by (simp_all add: api_account_browse_def api_message_browse_def api_message_create_def Let_def
      api_address_update_def api_invalid_def api_setting_limits_def acc_inv_def)

lemma get_inv:
  assumes "acc_inv s" "get_user s (api_uid s) = Some u"
  shows "acc_inv (snd (acc_get x e p s))"
  using assms by (simp add: acc_get_def browse_inv delete_inv level_inv address_create_inv address_delete_inv)

lemma post_inv:
  assumes "ext_ok x" "acc_inv s" "get_user s (api_uid s) = Some u"
    and "acc_post x e msg p base s = Some (r, s')"
  shows "acc_inv s'"
proof -
  note inv = create_inv [OF assms(2), of x e] private_inv [OF _ assms(2,3), of x e]
    browse_inv(3) [OF assms(2), of x "p_data p" "p_flags p"]
  show ?thesis
    using assms inv
    by (auto simp: acc_post_def acc_continue_def ext_ok_def prod_eq_iff
        split: if_splits option.splits prod.splits)
qed

lemma conn_inv:
  assumes "ext_ok x" "acc_inv s" "acc_conn_api x e operation msg s = Some (r, s')"
  shows "acc_inv s'"
proof (cases rule: api_auth_cases [of x operation msg s e])
  case unknown
  then show ?thesis using assms
    by (auto simp: acc_conn_api_def Let_def acc_inv_def split: if_splits)
next
  case (refused a u)
  then show ?thesis using assms
    by (auto simp: acc_conn_api_def Let_def acc_inv_def split: if_splits)
next
  case (accepted a u p base)
  let ?s = "authed msg a u s"
  note inv = authed_inv [OF assms(2) accepted(2), of msg] and me = authed_me [OF accepted(2), of msg]
  show ?thesis
    using assms(2,3) accepted(6) get_inv [OF inv me, of x e p] post_inv [OF assms(1) inv me]
    by (auto simp: acc_conn_api_def Let_def split: if_splits prod.splits)
qed

lemma step_keeps: "ext_ok x \<Longrightarrow> acc_inv s \<Longrightarrow> acc_inv (acc_step x ev s)"
  by (auto simp: acc_step_def split: prod.split option.split intro: conn_inv)

interpretation acc: kept "acc_step x" "\<lambda>s. ext_ok x \<longrightarrow> acc_inv s" for x
  by unfold_locales (simp add: step_keeps)

section \<open>What a request may change\<close>

definition is_admin :: "aem_user \<Rightarrow> bool" where
  "is_admin u \<longleftrightarrow> unat (level u) = AEM_USERLEVEL_MAX"

text \<open>
  \<open>may_change a u b v w\<close>: the requester \<open>a\<close> with the data \<open>u\<close> may turn the entry \<open>v\<close> of user \<open>b\<close>
  into \<open>w\<close>.  User 0 stays and keeps its level; other users change only when they send the
  request themselves or an administrator does; nobody else raises a level; keys and time
  stamps stay.
\<close>

definition may_change :: "nat \<Rightarrow> aem_user \<Rightarrow> nat \<Rightarrow> aem_user \<Rightarrow> aem_user option \<Rightarrow> bool" where
  "may_change a u b v w =
    (case w of
       None \<Rightarrow> b \<noteq> 0 \<and> (b = a \<or> is_admin u)
     | Some v' \<Rightarrow> (v' = v \<or> b = a \<or> (is_admin u \<and> b \<noteq> 0)) \<and> uak v' = uak v \<and>
         lastBinTs v' = lastBinTs v \<and>
         (level v' = level v \<or> (b \<noteq> 0 \<and> (is_admin u \<or> (b = a \<and> level v' \<le> level v)))))"

definition allowed :: "account \<Rightarrow> account \<Rightarrow> bool" where
  "allowed s s' \<longleftrightarrow>
     (\<forall>b v. get_user s b = Some v \<longrightarrow> may_change (api_uid s) (cur s) b v (get_user s' b))"

lemma may_change_same [simp]: "may_change a u b v (Some v)"
  by (simp add: may_change_def)

lemma allowed_same: "user s' = user s \<Longrightarrow> allowed s s'"
  by (simp add: allowed_def get_user_def)

lemma allowed_save [simp]: "allowed s (saveUser x e s') = allowed s s'"
  "allowed s (saveSettings x e s') = allowed s s'"
  by (simp_all add: allowed_def)

lemma allowed_set_user:
  assumes "\<And>v. get_user s k = Some v \<Longrightarrow> may_change (api_uid s) (cur s) k v w"
  shows "allowed s (set_user s k w)"
  using assms by (simp add: allowed_def)

lemma allowed_delete: "allowed s (snd (api_account_delete x e d s))"
  by (auto simp: api_account_delete_def Let_def allowed_same is_admin_def may_change_def
      intro!: allowed_set_user)

lemma level_not_raised:
  assumes "\<not> unat (level u) < unat (n :: byte)"
  shows "(ucast n :: 2 word) \<le> level u"
proof -
  have "unat (level u) < 4" using unsigned_less [of "level u", where 'a = nat] by simp
  then have "unat n < 4" using assms by simp
  then have "unat (ucast n :: 2 word) = unat n" by (simp add: unsigned_ucast_eq take_bit_nat_eq_self)
  then show ?thesis using assms by (simp add: word_le_nat_alt)
qed

lemma allowed_level: "allowed s (snd (api_account_update x e d s))"
  using level_not_raised [of "cur s" "d ! 2"]
  by (auto simp: api_account_update_def Let_def allowed_same is_admin_def may_change_def
      intro!: allowed_set_user split: option.split)

lemma allowed_create: "allowed s (snd (api_account_create x e d s))"
  by (auto simp: api_account_create_def Let_def allowed_same intro!: allowed_set_user)

lemma allowed_private: "get_user s (api_uid s) = Some u \<Longrightarrow> allowed s (snd (api_private_update x e d s))"
  by (auto simp: api_private_update_def Let_def allowed_same may_change_def intro!: allowed_set_user)

lemma add_address_same:
  "level (add_address h f u) = level u" "uak (add_address h f u) = uak u"
  "lastBinTs (add_address h f u) = lastBinTs u"
  by (simp_all add: add_address_def)

lemma allowed_register:
  "get_user s (api_uid s) = Some u \<Longrightarrow> allowed s (snd (register_address x e h sh a s))"
  by (auto simp: register_address_def Let_def allowed_same may_change_def add_address_same
      intro!: allowed_set_user)

lemma allowed_address_create:
  "get_user s (api_uid s) = Some u \<Longrightarrow> allowed s (snd (api_address_create x e d s))"
  by (simp add: api_address_create_def Let_def allowed_same allowed_register)

lemma allowed_address_delete:
  "get_user s (api_uid s) = Some u \<Longrightarrow> allowed s (snd (api_address_delete x e d s))"
  by (auto simp: api_address_delete_def Let_def allowed_same may_change_def shift_down_same
      intro!: allowed_set_user split: option.split)

lemma allowed_get:
  "get_user s (api_uid s) = Some u \<Longrightarrow> allowed s (snd (acc_get x e p s))"
  by (simp add: acc_get_def allowed_delete allowed_level allowed_address_create allowed_address_delete)
     (simp add: allowed_same api_account_browse_def api_message_browse_def Let_def
       api_address_update_def api_invalid_def api_setting_limits_def)

lemma allowed_post:
  assumes "get_user s (api_uid s) = Some u" "acc_post x e msg p base s = Some (r, s')"
  shows "allowed s s'"
  using assms allowed_create [of s x e] allowed_private [OF assms(1), of x e]
  by (auto simp: acc_post_def acc_continue_def api_message_create_def allowed_same prod_eq_iff
      split: if_splits option.splits prod.splits)

text \<open>Seen from the state before the request: time stamps only grow.\<close>

definition may_change_ts :: "nat \<Rightarrow> aem_user \<Rightarrow> nat \<Rightarrow> aem_user \<Rightarrow> aem_user option \<Rightarrow> bool" where
  "may_change_ts a u b v w =
    (case w of
       None \<Rightarrow> b \<noteq> 0 \<and> (b = a \<or> is_admin u)
     | Some v' \<Rightarrow> (v' = v \<or> b = a \<or> (is_admin u \<and> b \<noteq> 0)) \<and> uak v' = uak v \<and>
         lastBinTs v \<le> lastBinTs v' \<and>
         (level v' = level v \<or> (b \<noteq> 0 \<and> (is_admin u \<or> (b = a \<and> level v' \<le> level v)))))"

lemma allowed_authed:
  assumes u: "get_user s a = Some u" and new: "lastBinTs u < req_binTs msg"
    and al: "allowed (authed msg a u s) s'" and v: "get_user s b = Some v"
  shows "may_change_ts a u b v (get_user s' b)"
proof -
  let ?u = "u\<lparr>lastBinTs := req_binTs msg\<rparr>"
  have cur: "cur (authed msg a u s) = ?u" using authed_me [OF u] by simp
  have uid: "api_uid (authed msg a u s) = a" by (simp add: authed_def)
  have adm: "is_admin ?u = is_admin u" by (simp add: is_admin_def)
  show ?thesis
  proof (cases "b = a")
    case True
    then have "get_user (authed msg a u s) b = Some ?u"
      using authed_me [OF u, of msg] unfolding uid by simp
    with al have "may_change a ?u b ?u (get_user s' b)" unfolding allowed_def cur uid by blast
    then show ?thesis using True u v new
      by (auto simp: may_change_def may_change_ts_def is_admin_def split: option.splits)
  next
    case False
    then have "get_user (authed msg a u s) b = Some v" using v by (simp add: authed_def)
    with al have "may_change a ?u b v (get_user s' b)" unfolding allowed_def cur uid by blast
    then show ?thesis using False
      by (auto simp: may_change_def may_change_ts_def is_admin_def split: option.splits)
  qed
qed

lemma conn_may_change:
  assumes "acc_conn_api x e operation msg s = Some (r, s')" "get_user s b = Some v"
  shows "case requester x operation msg s of
      None \<Rightarrow> get_user s' b = Some v
    | Some a \<Rightarrow> (case get_user s a of None \<Rightarrow> False | Some u \<Rightarrow> may_change_ts a u b v (get_user s' b))"
proof (cases rule: api_auth_cases [of x operation msg s e])
  case unknown
  then show ?thesis using assms
    by (auto simp: acc_conn_api_def Let_def split: if_splits)
next
  case (refused a u)
  then have "user s' = user s" using assms(1)
    by (auto simp: acc_conn_api_def Let_def split: if_splits)
  then have "get_user s' = get_user s" by (intro ext) (simp add: get_user_def)
  then have "get_user s' b = Some v" using assms(2) by simp
  then show ?thesis using refused by (simp add: may_change_ts_def)
next
  case (accepted a u p base)
  note me = authed_me [OF accepted(2), of msg]
  have "s' = s \<or> allowed (authed msg a u s) s'"
    using assms(1) accepted(6) allowed_get [OF me, of x e p] allowed_post [OF me]
    by (auto simp: acc_conn_api_def Let_def split: if_splits prod.splits)
  then show ?thesis
    using allowed_authed [OF accepted(2,3) _ assms(2)] accepted(1,2) assms(2)
    by (auto simp: may_change_ts_def)
qed

text \<open>What a command may do to the table besides: only one creates entries, only one sets the limits.\<close>

definition new_account :: "aem_user \<Rightarrow> bool" where
  "new_account w \<longleftrightarrow> (\<exists>key pub. w = zero_user\<lparr>uak := key, pwk := pub\<rparr>)"

lemma saves_keep [simp]:
  "get_user (saveUser x e s) = get_user s" "limits (saveUser x e s) = limits s"
  "get_user (saveSettings x e s) = get_user s" "limits (saveSettings x e s) = limits s"
  by (rule ext | simp add: saveUser_def saveSettings_def get_user_def Let_def split: option.split)+

definition adds_none :: "account \<Rightarrow> account \<Rightarrow> bool" where
  "adds_none s s' \<longleftrightarrow> (\<forall>b. get_user s b = None \<longrightarrow> get_user s' b = None) \<and> limits s' = limits s"

lemma adds_none_same [simp]: "adds_none s s"
  by (simp add: adds_none_def)

lemma adds_none_save [simp]: "adds_none s (saveUser x e s') = adds_none s s'"
  by (simp add: adds_none_def)

lemma adds_none_set_user: "get_user s k \<noteq> None \<or> w = None \<Longrightarrow> adds_none s (set_user s k w)"
  by (auto simp: adds_none_def)

lemma adds_none_register: "get_user s (api_uid s) = Some u \<Longrightarrow> adds_none s (snd (register_address x e h sh a s))"
  by (auto simp: register_address_def Let_def intro!: adds_none_set_user)

lemma adds_none_ops:
  assumes "get_user s (api_uid s) = Some u"
  shows "adds_none s (snd (api_account_delete x e d s))" "adds_none s (snd (api_account_update x e d s))"
    "adds_none s (snd (api_address_create x e d s))" "adds_none s (snd (api_address_delete x e d s))"
    "adds_none s (snd (api_private_update x e d s))"
  using assms
  by (auto simp: api_account_delete_def api_account_update_def api_address_create_def api_address_delete_def
      api_private_update_def Let_def adds_none_register intro!: adds_none_set_user split: option.split)

lemma adds_none_reads:
  "adds_none s (snd (api_account_browse s))" "adds_none s (snd (api_address_update s))"
  "adds_none s (snd (api_message_browse f s))" "adds_none s (snd (api_invalid s))" "adds_none s (snd (api_message_create x d f s))"
  by (simp_all add: api_account_browse_def api_address_update_def api_message_browse_def api_invalid_def api_message_create_def Let_def)

lemma acc_get_adds_none:
  assumes "get_user s (api_uid s) = Some u" "p_cmd p \<noteq> 10"
  shows "adds_none s (snd (acc_get x e p s))"
  using assms(2) by (simp add: acc_get_def adds_none_ops [OF assms(1)] adds_none_reads)

lemma acc_get_limits:
  "p_cmd p = 10 \<Longrightarrow> get_user (snd (acc_get x e p s)) = get_user s \<and> limits (snd (acc_get x e p s)) = take 12 (p_data p)"
  by (auto simp: acc_get_def api_setting_limits_def get_user_def)

lemma create_new:
  assumes "get_user s b = None" "get_user (snd (api_account_create x e d s)) b = Some w"
  shows "new_account w"
  using assms
  by (auto simp: api_account_create_def Let_def new_account_def get_user_def set_user_def nth_list_update split: if_splits)

lemma create_limits: "limits (snd (api_account_create x e d s)) = limits s"
  by (simp add: api_account_create_def Let_def)

lemma acc_post_effect:
  assumes "get_user s (api_uid s) = Some u" "acc_post x e msg p base s = Some (r, s')"
  shows "adds_none s s' \<or> p_cmd p = 0 \<and> (\<exists>d. s' = snd (api_account_create x e d s))"
  using assms(2) adds_none_ops(5) [OF assms(1), of x e] adds_none_reads(5) [of s x]
  by (simp add: acc_post_def acc_continue_def split: if_splits option.splits prod.splits) (metis snd_conv)+

lemma conn_effect:
  assumes "acc_conn_api x e operation msg s = Some (r, s')"
  shows "case requester x operation msg s of
      None \<Rightarrow> user s' = user s \<and> limits s' = limits s
    | Some a \<Rightarrow> (case get_user s a of None \<Rightarrow> False
      | Some u \<Rightarrow> let p = decrypt_req x msg (operation = 2) u in
          (\<forall>b v. get_user s b = Some v \<longrightarrow> may_change_ts a u b v (get_user s' b)) \<and>
          (\<forall>b w. get_user s b = None \<and> get_user s' b = Some w \<longrightarrow> operation = 2 \<and> p_cmd p = 0 \<and> new_account w) \<and>
          (limits s' \<noteq> limits s \<longrightarrow> operation = 1 \<and> p_cmd p = 10 \<and> limits s' = take 12 (p_data p)))"
proof (cases rule: api_auth_cases [of x operation msg s e])
  case unknown
  then show ?thesis using assms by (auto simp: acc_conn_api_def Let_def split: if_splits)
next
  case (refused a u)
  then have s: "user s' = user s" "limits s' = limits s" using assms
    by (auto simp: acc_conn_api_def Let_def split: if_splits)
  then have "get_user s' = get_user s" by (intro ext) (simp add: get_user_def)
  then show ?thesis using refused s conn_may_change [OF assms] by (auto simp: Let_def)
next
  case (accepted a u p base)
  let ?s = "authed msg a u s"
  note me = authed_me [OF accepted(2), of msg]
  have none: "get_user ?s b = None" if "get_user s b = None" for b
    using that accepted(2) by (auto simp: authed_def get_user_def set_user_def nth_list_update split: if_splits)
  have lim: "limits ?s = limits s" by (simp add: authed_def)
  consider (same) "s' = s" | (get) "operation = 1" "s' = snd (acc_get x e p ?s)" | (post) "operation = 2" "acc_post x e msg p base ?s = Some (r, s')"
    using assms accepted(6) by (auto simp: acc_conn_api_def Let_def split: if_splits prod.splits)
  then have "(\<forall>b w. get_user s b = None \<and> get_user s' b = Some w \<longrightarrow> operation = 2 \<and> p_cmd p = 0 \<and> new_account w) \<and>
      (limits s' \<noteq> limits s \<longrightarrow> operation = 1 \<and> p_cmd p = 10 \<and> limits s' = take 12 (p_data p))"
  proof cases
    case get
    show ?thesis
    proof (cases "p_cmd p = 10")
      case True
      then show ?thesis using get acc_get_limits [OF True, of x e ?s] none by (auto simp: not_Some_eq [symmetric] simp del: not_Some_eq)
    next
      case False
      then have "adds_none ?s s'" using get acc_get_adds_none [OF me] by simp
      then show ?thesis using none lim by (auto simp: adds_none_def)
    qed
  next
    case post
    from acc_post_effect [OF me post(2)] show ?thesis
    proof
      assume "adds_none ?s s'"
      then show ?thesis using none lim by (auto simp: adds_none_def)
    next
      assume c: "p_cmd p = 0 \<and> (\<exists>d. s' = snd (api_account_create x e d ?s))"
      then obtain d where d: "s' = snd (api_account_create x e d ?s)" by blast
      have "new_account w" if "get_user s b = None" "get_user s' b = Some w" for b w
        using create_new [OF none [OF that(1)]] that(2) unfolding d .
      moreover have "limits s' = limits s" unfolding d create_limits lim ..
      ultimately show ?thesis using post(1) c by blast
    qed
  qed auto
  then show ?thesis using accepted(1,2,4) conn_may_change [OF assms] by (auto simp: Let_def)
qed

section \<open>The lookup is exact\<close>

lemma distinct_concat_unique:
  "distinct (concat (map g us)) \<Longrightarrow> i < length us \<Longrightarrow> j < length us \<Longrightarrow>
   k \<in> set (g (us ! i)) \<Longrightarrow> k \<in> set (g (us ! j)) \<Longrightarrow> i = j"
proof (induction us arbitrary: i j)
  case (Cons u us)
  have "k \<in> set (concat (map g us))" if "Suc m < length (u # us)" "k \<in> set (g ((u # us) ! Suc m))" for m
    using that by (auto intro!: bexI [of _ "us ! m"])
  with Cons show ?case by (cases i; cases j) (auto simp: disjoint_iff)
qed simp

lemma addrs_key: "(h, f) \<in> set (user_addrs u) \<Longrightarrow> (h, is_shield f) \<in> set (user_keys (Some u))"
  by (force simp: user_keys_def addr_key_def)

lemma hashToUid_complete:
  assumes inv: "acc_inv s" and u: "get_user s uid = Some u" and f: "(h, f) \<in> set (user_addrs u)"
  shows "hashToUid s h (is_shield f) = Some (uid, f)"
proof -
  have d: "distinct (concat (map user_keys (user s)))" using inv by (simp add: acc_inv_def)
  note at = get_userD [OF u]
  have k: "(h, is_shield f) \<in> set (user_keys (user s ! uid))" using addrs_key [OF f] at by simp
  then have "hashToUid s h (is_shield f) \<noteq> None"
    using at nth_mem [of uid "user s"] unfolding hashToUid_None by auto
  then obtain uid' f' where r: "hashToUid s h (is_shield f) = Some (uid', f')" by auto
  then obtain v where v: "get_user s uid' = Some v" "(h, f') \<in> set (user_addrs v)"
      "is_shield f' = is_shield f" using hashToUid_Some by blast
  note at' = get_userD [OF v(1)]
  have "(h, is_shield f) \<in> set (user_keys (user s ! uid'))" using addrs_key [OF v(2)] v(3) at' by simp
  then have same: "uid' = uid" using distinct_concat_unique [OF d _ _ _ k] at at' by blast
  then have "u = v" using u v(1) by simp
  moreover have "inj_on addr_key (set (user_addrs u))"
    using inv_keys_distinct [OF inv, of uid] u by (simp add: user_keys_def distinct_map)
  ultimately have "(h, f') = (h, f)"
    using f v(2,3) by (auto simp: addr_key_def dest: inj_onD [of _ _ "(h, f')" "(h, f)"])
  with r same show ?thesis by simp
qed

section \<open>Replays\<close>

text \<open>User \<open>a\<close> exists in every state of a history.\<close>

fun stays :: "acc_ext \<Rightarrow> nat \<Rightarrow> acc_event list \<Rightarrow> account \<Rightarrow> bool" where
  "stays x a [] s \<longleftrightarrow> get_user s a \<noteq> None"
| "stays x a (ev # evs) s \<longleftrightarrow> get_user s a \<noteq> None \<and> stays x a evs (acc_step x ev s)"

lemma step_ts:
  assumes "get_user s a = Some v" "get_user (acc_step x ev s) a = Some w"
  shows "lastBinTs v \<le> lastBinTs w"
proof (cases ev)
  case (fields e operation msg)
  show ?thesis
  proof (cases "acc_conn_api x e operation msg s")
    case None
    then show ?thesis using assms fields by (simp add: acc_step_def)
  next
    case (Some rs)
    then obtain r s' where rs: "acc_conn_api x e operation msg s = Some (r, s')" by (cases rs) simp
    then have "get_user s' a = Some w" using assms(2) fields by (simp add: acc_step_def)
    with conn_may_change [OF rs assms(1)] assms(1) show ?thesis
      by (auto simp: may_change_ts_def split: option.splits)
  qed
qed

lemma history_ts:
  "stays x a evs s \<Longrightarrow> get_user s a = Some v \<Longrightarrow>
   \<exists>w. get_user (fold (acc_step x) evs s) a = Some w \<and> lastBinTs v \<le> lastBinTs w"
proof (induction evs arbitrary: s v)
  case (Cons ev evs)
  then have "stays x a evs (acc_step x ev s)" by simp
  moreover from this obtain v' where v': "get_user (acc_step x ev s) a = Some v'"
    by (cases evs) auto
  ultimately obtain w where "get_user (fold (acc_step x) evs (acc_step x ev s)) a = Some w"
      "lastBinTs v' \<le> lastBinTs w" using Cons.IH by blast
  with step_ts [OF Cons.prems(2) v'] show ?case by auto
qed simp

lemma old_request_refused:
  assumes "requester x operation msg t = Some a" "get_user t a = Some w"
    "req_binTs msg \<le> lastBinTs w" "operation = 1 \<or> operation = 2" "alloc_res e"
  shows "\<exists>t'. acc_conn_api x e operation msg t = Some (Inl IC_AUTHFAIL, t')"
proof (cases rule: api_auth_cases [of x operation msg t e])
  case (accepted a' u p base)
  then show ?thesis using assms by auto
qed (use assms in \<open>auto simp: acc_conn_api_def Let_def\<close>)

lemma accepted_ts:
  assumes conn: "acc_conn_api x e operation msg s = Some (r, s')" and ok: "r \<noteq> Inl IC_AUTHFAIL"
    and op: "operation = 1 \<or> operation = 2" "alloc_res e"
    and a: "requester x operation msg s = Some a" and w: "get_user s' a = Some w"
  shows "lastBinTs w = req_binTs msg"
proof (cases rule: api_auth_cases [of x operation msg s e])
  case (accepted a' u p base)
  let ?s = "authed msg a u s"
  have a': "a' = a" using a accepted(1) by simp
  note me = authed_me [OF accepted(2), of msg, unfolded a']
  have "allowed ?s s'"
    using conn accepted(6) op allowed_get [OF me, of x e p] allowed_post [OF me] unfolding a'
    by (auto simp: acc_conn_api_def Let_def split: if_splits prod.splits)
  moreover have "get_user ?s a = Some (u\<lparr>lastBinTs := req_binTs msg\<rparr>)"
    using me by (simp add: authed_def)
  ultimately have "may_change (api_uid ?s) (cur ?s) a (u\<lparr>lastBinTs := req_binTs msg\<rparr>) (Some w)"
    using w unfolding allowed_def by fastforce
  then show ?thesis by (simp add: may_change_def)
qed (use assms in \<open>auto simp: acc_conn_api_def Let_def\<close>)

section \<open>The address book as an interface\<close>

text \<open>What the mail operations need of the table: a lookup that finds the one holder of a key.\<close>

locale address_book =
  fixes lookup :: "'s \<Rightarrow> 'k \<Rightarrow> ('u \<times> 'f) option"
    and holds :: "'s \<Rightarrow> 'u \<Rightarrow> 'k \<Rightarrow> 'f \<Rightarrow> bool"
    and wf :: "'s \<Rightarrow> bool"
  assumes lookup_sound: "lookup s k = Some (u, f) \<Longrightarrow> holds s u k f"
    and lookup_complete: "wf s \<Longrightarrow> holds s u k f \<Longrightarrow> lookup s k = Some (u, f)"
begin

lemma lookup_iff: "wf s \<Longrightarrow> lookup s k = Some (u, f) \<longleftrightarrow> holds s u k f"
  using lookup_sound lookup_complete by blast

lemma holder_unique: "wf s \<Longrightarrow> holds s u k f \<Longrightarrow> holds s v k g \<Longrightarrow> u = v \<and> f = g"
  by (metis lookup_complete option.inject prod.inject)

lemma lookup_none: "wf s \<Longrightarrow> lookup s k = None \<longleftrightarrow> (\<forall>u f. \<not> holds s u k f)"
  using lookup_iff [of s k] by (cases "lookup s k") auto

end

definition holds_addr :: "account \<Rightarrow> nat \<Rightarrow> u64 \<times> bool \<Rightarrow> byte \<Rightarrow> bool" where
  "holds_addr s uid k f \<longleftrightarrow>
     (\<exists>u. get_user s uid = Some u \<and> (fst k, f) \<in> set (user_addrs u) \<and> is_shield f = snd k)"

interpretation book: address_book "\<lambda>s k. hashToUid s (fst k) (snd k)" holds_addr acc_inv
proof
  show "holds_addr s u k f" if "hashToUid s (fst k) (snd k) = Some (u, f)" for s k u f
    using hashToUid_Some [OF that] by (simp add: holds_addr_def)
  show "hashToUid s (fst k) (snd k) = Some (u, f)" if "acc_inv s" "holds_addr s u k f" for s k u f
    using hashToUid_complete [OF that(1)] that(2) by (fastforce simp: holds_addr_def)
qed

section \<open>Sending mail\<close>

lemma owns_iff:
  assumes "acc_inv s"
  shows "owns s uid h sh \<longleftrightarrow> (\<exists>f. holds_addr s uid (h, sh) f)"
proof (cases "hashToUid s h sh")
  case None
  then show ?thesis using book.lookup_none [OF assms, of "(h, sh)"] by (simp add: owns_def)
next
  case (Some r)
  obtain v g where r: "r = (v, g)" by (cases r)
  have "holds_addr s v (h, sh) g" using book.lookup_iff [OF assms, of "(h, sh)" v g] Some r by simp
  then show ?thesis
    using book.holder_unique [OF assms] Some r by (auto simp: owns_def)
qed

lemma no_internal:
  assumes "acc_inv s" "hashToUid s h sh = Some (uid, f)"
  shows "f AND AEM_ADDR_FLAG_ACCINT = 0"
proof -
  obtain u where u: "get_user s uid = Some u" "(h, f) \<in> set (user_addrs u)"
    using hashToUid_Some [OF assms(2)] by blast
  then have "addr_ok (h, f)" using inv_user_ok [OF assms(1) u(1)] by (auto simp: user_ok_def list_all_iff)
  then show ?thesis by (simp add: addr_ok_def)
qed

section \<open>Inputs of the witnesses\<close>

text \<open>A cryptographic library with constant answers that accepts every request.\<close>

definition demo_ext :: acc_ext where
  "demo_ext = \<lparr>crypto_shorthash = \<lambda>a k. 7, crypto_pwhash = \<lambda>a k. Some (5, 0),
     aegis256_encrypt = \<lambda>k n m. m, aegis256_decrypt = \<lambda>k n c. Some c,
     chacha20_ietf = \<lambda>k n c l. replicate l 0, onetimeauth_verify = \<lambda>m t k. True,
     addrhash_admin = [], addrhash_system = 0, aes256gcm_decrypt = \<lambda>k n c. Some c\<rparr>"

definition demo_env :: acc_env where
  "demo_env = \<lparr>now = AEM_TS_BEGIN, rand_addr = replicate 10 1, rand_nonce = replicate 32 0,
     storage_reply = IC_OK, alloc_res = True, alloc_ok = True, written = None\<rparr>"

text \<open>User 0 alone, with one normal address; and a table with a second user.\<close>

definition demo_user :: aem_user where
  "demo_user = add_address 5 AEM_ADDR_FLAGS_DEFAULT zero_user"

definition demo_state :: "aem_user option list \<Rightarrow> account" where
  "demo_state us = \<lparr>user = us, limits = replicate 12 9, api_uid = 0, accountKey = [],
     saltNormal = replicate 16 0, saltShield = replicate 16 0, rsaAdminKey = [1], rsaUsersKey = [2],
     account_file = [], settings_file = []\<rparr>"

definition demo1 :: account where
  "demo1 = demo_state (Some demo_user # replicate 4095 None)"

lemma demo_ext_ok [simp]: "ext_ok demo_ext"
  by (simp add: ext_ok_def demo_ext_def)

lemma demo_user_addrs: "user_addrs demo_user = [(5, 14)]" and demo_user_sizes: "user_sizes demo_user"
proof -
  have z: "unat (addrCount zero_user) < 31" "user_addrs zero_user = []"
    by (simp_all add: zero_user_def user_addrs_def)
  note add = user_addrs_add [OF zero_user_sizes z(1), of 5 AEM_ADDR_FLAGS_DEFAULT]
  show "user_sizes demo_user" unfolding demo_user_def by (rule add(2))
  show "user_addrs demo_user = [(5, 14)]" unfolding demo_user_def add(1) z(2) by (simp add: addr_flag_defs)
qed

lemma demo_user_ok [simp]: "user_ok (Some demo_user)"
  by (simp add: user_ok_def demo_user_addrs demo_user_sizes addr_ok_def addr_flag_defs)

lemma demo1_inv: "acc_inv demo1"
  by (simp add: acc_inv_def demo1_def demo_state_def acc_consts list_all_iff)
     (simp add: user_keys_def demo_user_addrs addr_key_def)

lemma demo1_user: "get_user demo1 0 = Some demo_user"
  by (simp add: get_user_def demo1_def demo_state_def)

end
