(* ===== verification/Account_Claims.thy ===== *)
theory Account_Claims
  imports Account_Props
begin

text \<open>The properties of AEM-Account, over the lemmas of \<open>Account_Props\<close>.\<close>

section \<open>Invariant and permissions\<close>

text \<open>C1: Whatever requests reach the server, in any order and whatever the clock, the random bytes,
  the replies of AEM-Storage and the file system do, the user table stays well formed: 4096
  entries of the right sizes, no zero hash, no two addresses with the same hash and kind.\<close>

theorem account_invariant:
  "ext_ok x \<Longrightarrow> acc_inv s \<Longrightarrow> acc_inv (fold (acc_step x) evs s)"
  using acc.run_inv [of x s evs] by simp

theorem account_invariant_witness:
  "acc_inv (fold (acc_step demo_ext) [(demo_env, 1, replicate 39 0), (demo_env, 2, [])] demo1)"
  by (rule account_invariant [OF demo_ext_ok demo1_inv])

text \<open>C4: The address lookup is exact: it finds a user and flags precisely when that user has an
  address with this hash and kind, so at most one user ever answers to an address.\<close>

theorem hashToUid_exact:
  "acc_inv s \<Longrightarrow> hashToUid s hash isShield = Some (uid, f) \<longleftrightarrow>
     (\<exists>u. get_user s uid = Some u \<and> (hash, f) \<in> set (user_addrs u) \<and> is_shield f = isShield)"
  using book.lookup_iff [of s "(hash, isShield)" uid f] by (simp add: holds_addr_def)

theorem hashToUid_exact_witness:
  "hashToUid demo1 5 False = Some (0, 14)"
  unfolding hashToUid_exact [OF demo1_inv]
  by (simp add: demo1_user demo_user_addrs is_shield_def addr_flag_defs)

text \<open>C2: What a request may change, by its sender.  A request nobody's key authenticates changes no user and no limit.
  An authenticated one changes or removes an existing entry other than its sender's only if its sender is an
  administrator; it never removes user 0 or changes its level; a level is raised only by an administrator; access keys
  stay, and replay time stamps never go back.  Entries appear only by the command to create an account and are
  empty apart from their keys, and the limits are changed only by the command to set them, to its data: for these two
  commands the code asks for an authenticated sender but for no level (see \<open>limits_unguarded\<close>).\<close>

theorem request_may_change:
  assumes "acc_conn_api x e operation msg s = Some (r, s')"
  shows "case requester x operation msg s of
      None \<Rightarrow> user s' = user s \<and> limits s' = limits s
    | Some a \<Rightarrow> (case get_user s a of None \<Rightarrow> False
      | Some u \<Rightarrow> let p = decrypt_req x msg (operation = 2) u in
          (\<forall>b v. get_user s b = Some v \<longrightarrow> may_change_ts a u b v (get_user s' b)) \<and>
          (\<forall>b w. get_user s b = None \<and> get_user s' b = Some w \<longrightarrow> operation = 2 \<and> p_cmd p = 0 \<and> new_account w) \<and>
          (limits s' \<noteq> limits s \<longrightarrow> operation = 1 \<and> p_cmd p = 10 \<and> limits s' = take 12 (p_data p)))"
  by (rule conn_effect [OF assms])

text \<open>The witness: a user of level 0 sets the limits of all levels.\<close>

definition limits_req :: "byte list" where
  "limits_req = [1, 0, 0, 0, 0, 40, 0, 0] @ replicate 31 0"

theorem request_may_change_witness:
  "\<exists>r s'. acc_conn_api demo_ext demo_env 1 limits_req demo1 = Some (r, s') \<and> limits s' \<noteq> limits demo1 \<and>
     may_change_ts 0 demo_user 0 demo_user (get_user s' 0) \<and> (\<forall>b. get_user demo1 b = None \<longrightarrow> get_user s' b = None) \<and>
     limits s' = take 12 (p_data (decrypt_req demo_ext limits_req False demo_user))"
proof -
  let ?p = "decrypt_req demo_ext limits_req False demo_user"
  let ?s = "authed limits_req 0 demo_user demo1"
  have f: "req_binTs limits_req = 1" "req_cmd limits_req = 10"
    by (simp_all add: req_binTs_def req_cmd_def limits_req_def le_read_bytes)
  have d: "req_data limits_req = replicate 16 0" by code_simp
  have key: "uak_derive demo_ext n ts u post t = replicate n 0" for n ts u post t
    by (simp add: uak_derive_def aem_kdf_sub_def demo_ext_def)
  have cmd: "p_cmd ?p = 10" by (simp add: decrypt_req_def Let_def key f acc_consts)
  have data: "take 12 (p_data ?p) = replicate 12 0" by (simp add: decrypt_req_def Let_def key d acc_consts xor_bytes_def)
  have cur: "cur (demo1\<lparr>api_uid := 0\<rparr>) = demo_user" using demo1_user by (simp add: cur_def)
  have old: "lastBinTs demo_user = 0" by (simp add: demo_user_def add_address_def zero_user_def)
  have srch: "auth_search demo_ext limits_req False 0 (user demo1) = Some 0"
    by (simp add: demo1_def demo_state_def auth_ok_def demo_ext_def)
  have "api_auth demo_ext demo_env limits_req False demo1
      = (Some (?p, base_response demo_ext limits_req False 0 demo_user ?p), authed limits_req 0 demo_user demo1)"
    by (simp add: api_auth_def srch Let_def cur old f authed_def demo_env_def acc_consts)
  then obtain r s' where rs: "acc_conn_api demo_ext demo_env 1 limits_req demo1 = Some (r, s')" "s' = snd (acc_get demo_ext demo_env ?p ?s)"
    by (simp add: acc_conn_api_def demo_env_def split_beta)
  have lim: "limits s' = replicate 12 0" using rs(2) acc_get_limits [OF cmd, of demo_ext demo_env ?s] data by simp
  moreover have "limits demo1 = replicate 12 9" by (simp add: demo1_def demo_state_def)
  ultimately have ne: "limits s' \<noteq> limits demo1" by simp
  have req: "requester demo_ext 1 limits_req demo1 = Some 0" using srch by (simp add: requester_def)
  from request_may_change [OF rs(1), unfolded req demo1_user Let_def option.case] have all:
    "\<forall>b v. get_user demo1 b = Some v \<longrightarrow> may_change_ts 0 demo_user b v (get_user s' b)"
    "\<forall>b. (\<exists>y. get_user demo1 b = Some y) \<or> get_user s' b = None"
    "limits s' \<noteq> limits demo1 \<longrightarrow> limits s' = take 12 (p_data ?p)"
    by simp_all
  have "get_user s' b = None" if "get_user demo1 b = None" for b
    using all(2) that by (metis option.distinct(1))
  then show ?thesis using rs(1) ne all(1,3) demo1_user by blast
qed

section \<open>Replays\<close>

text \<open>C3: A request that was accepted for a user is never accepted again as that user's, however long
  the history in between, as long as the user exists in every state of it.\<close>

theorem no_replay:
  assumes "acc_conn_api x e operation msg s = Some (r, s')" "r \<noteq> Inl IC_AUTHFAIL"
    and "operation = 1 \<or> operation = 2" "alloc_res e" "alloc_res e'"
    and "requester x operation msg s = Some a" "stays x a evs s'"
    and "requester x operation msg (fold (acc_step x) evs s') = Some a"
  shows "\<exists>t. acc_conn_api x e' operation msg (fold (acc_step x) evs s') = Some (Inl IC_AUTHFAIL, t)"
proof -
  obtain v where v: "get_user s' a = Some v" using assms(7) by (cases evs) auto
  then have "lastBinTs v = req_binTs msg" using accepted_ts [OF assms(1-4,6)] by simp
  moreover obtain w where "get_user (fold (acc_step x) evs s') a = Some w" "lastBinTs v \<le> lastBinTs w"
    using history_ts [OF assms(7) v] by blast
  ultimately show ?thesis using old_request_refused [OF assms(8)] assms(3,5) by auto
qed

text \<open>The witness: an upload request (command 3 of the POST commands) with time stamp 1.\<close>

definition demo_req :: "byte list" where
  "demo_req = le_bytes 8 (1 + 3 * 2 ^ 42) @ replicate 31 0"

lemma demo_req_fields: "req_binTs demo_req = 1" "req_cmd demo_req = 3"
  by (simp_all add: req_binTs_def req_cmd_def demo_req_def le_read_bytes)

lemma demo_accepts:
  "acc_conn_api demo_ext demo_env 2 demo_req demo1
     = Some (Inr (base_response demo_ext demo_req True 0 demo_user
         (decrypt_req demo_ext demo_req True demo_user)), authed demo_req 0 demo_user demo1)"
proof -
  let ?p = "decrypt_req demo_ext demo_req True demo_user"
  have key: "uak_derive demo_ext n ts u post t = replicate n 0" for n ts u post t
    by (simp add: uak_derive_def aem_kdf_sub_def demo_ext_def)
  have cmd: "p_cmd ?p = 3"
    by (simp add: decrypt_req_def Let_def key demo_req_fields acc_consts)
  have cur: "cur (demo1\<lparr>api_uid := 0\<rparr>) = demo_user" using demo1_user by (simp add: cur_def)
  have old: "lastBinTs demo_user = 0" by (simp add: demo_user_def add_address_def zero_user_def)
  have srch: "auth_search demo_ext demo_req True 0 (user demo1) = Some 0"
    by (simp add: demo1_def demo_state_def auth_ok_def demo_ext_def)
  have "api_auth demo_ext demo_env demo_req True demo1
      = (Some (?p, base_response demo_ext demo_req True 0 demo_user ?p), authed demo_req 0 demo_user demo1)"
    by (simp add: api_auth_def srch Let_def cur old demo_req_fields authed_def demo_env_def acc_consts)
  then show ?thesis by (simp add: acc_conn_api_def acc_post_def cmd demo_env_def)
qed

theorem no_replay_witness:
  "\<exists>t. acc_conn_api demo_ext demo_env 2 demo_req (authed demo_req 0 demo_user demo1)
     = Some (Inl IC_AUTHFAIL, t)"
proof -
  let ?t = "authed demo_req 0 demo_user demo1"
  have r: "requester demo_ext 2 demo_req demo1 = Some 0"
    by (simp add: requester_def demo1_def demo_state_def auth_ok_def demo_ext_def)
  have r': "requester demo_ext 2 demo_req ?t = Some 0"
    by (simp add: requester_def authed_def set_user_def demo1_def demo_state_def auth_ok_def demo_ext_def)
  have "stays demo_ext 0 [] ?t" using authed_me [OF demo1_user, of demo_req] by (simp add: authed_def)
  then show ?thesis
    using no_replay [OF demo_accepts _ _ _ _ r, of demo_env "[]"] r' by (simp add: demo_env_def)
qed

section \<open>Mail\<close>

text \<open>C5: Permission to send email is given only to a user of at least level 2 who owns the sending
  address: a reply longer than a status byte means that one of the user's addresses has the
  hash and the kind of the encoded address.\<close>

theorem email_sender_owned:
  assumes "acc_inv s" "get_user s (api_uid s) = Some u" "length (message_email x reqData s) \<noteq> 1"
  shows "2 \<le> unat (level u) \<and>
    (let a32 = addr32_store (takeWhile (\<lambda>b. b \<noteq> 0) reqData) in
     \<exists>f. (addressToHash x s a32, f) \<in> set (user_addrs u) \<and> is_shield f = (a32 ! 0 AND 128 \<noteq> 0))"
  using assms owns_iff [OF assms(1)]
  by (auto simp: message_email_def Let_def api_response_status_def holds_addr_def acc_consts
      split: if_splits)

definition demo_mailer :: account where
  "demo_mailer = demo_state (Some (demo_user\<lparr>level := 2\<rparr>) # replicate 4095 None)"

lemma demo_mailer_inv: "acc_inv demo_mailer"
proof -
  have "demo_mailer = set_user demo1 0 (Some (demo_user\<lparr>level := 2\<rparr>))"
    by (simp add: demo_mailer_def demo1_def set_user_def demo_state_def)
  then show ?thesis
    using acc_inv_same_addrs [OF demo1_inv demo1_user, of "demo_user\<lparr>level := 2\<rparr>"] demo_user_sizes
    by (simp add: user_sizes_def user_addrs_def)
qed

theorem email_sender_owned_witness:
  "\<exists>f. (5, f) \<in> set (user_addrs (demo_user\<lparr>level := 2\<rparr>)) \<and> \<not> is_shield f"
proof -
  let ?d = "[97, 0] :: byte list"
  have u: "get_user demo_mailer (api_uid demo_mailer) = Some (demo_user\<lparr>level := 2\<rparr>)"
    by (simp add: get_user_def demo_mailer_def demo_state_def)
  have a: "addr32_store [97] = [10, 128, 0, 0, 0, 0, 0, 0, 0, 0]" by code_simp
  have h: "addressToHash demo_ext demo_mailer (addr32_store [97]) = 5"
    by (simp add: a addressToHash_def AEM_ADDR32_SYSTEM_def demo_ext_def)
  have "holds_addr demo_mailer 0 (5, False) 14"
    using u demo_user_addrs
    by (simp add: holds_addr_def user_addrs_def is_shield_def addr_flag_defs demo_mailer_def demo_state_def)
  then have "owns demo_mailer 0 5 False" using owns_iff [OF demo_mailer_inv] by blast
  then have "length (message_email demo_ext ?d demo_mailer) \<noteq> 1"
    using u h a by (simp add: message_email_def acc_consts Let_def demo_mailer_def demo_state_def)
  from email_sender_owned [OF demo_mailer_inv u this] show ?thesis
    using h a by (auto simp: Let_def)
qed

text \<open>No user ever receives internal mail from a single sender.  The flag that allows it is not
  among the default flags and no operation sets it, so after every history that starts from a
  well-formed table (such as an empty one) the server refuses every request to send an
  internal message that is not public.\<close>

theorem internal_mail_denied:
  "ext_ok x \<Longrightarrow> acc_inv s \<Longrightarrow> flags AND 1 = 0 \<Longrightarrow> flags AND 4 = 0 \<Longrightarrow>
   fst (api_message_create x reqData flags (fold (acc_step x) evs s))
     \<in> {[AEM_API_ERR_MESSAGE_CREATE_INT_OWN_ADDR], [AEM_API_ERR_MESSAGE_CREATE_INT_REC_DENY]}"
  using no_internal acc.run_inv [of x s evs]
  by (auto simp: api_message_create_def message_internal_def Let_def api_response_status_def
      split: option.split)

theorem internal_mail_denied_witness:
  "fst (api_message_create demo_ext (replicate 33 8) 0 (fold (acc_step demo_ext) [(demo_env, 1, [])] demo1))
     \<in> {[0xEE], [0xEF]}"
  using internal_mail_denied [OF demo_ext_ok demo1_inv, of 0 "replicate 33 8" "[(demo_env, 1, [])]"]
  by (simp add: AEM_API_ERR_MESSAGE_CREATE_INT_OWN_ADDR_def AEM_API_ERR_MESSAGE_CREATE_INT_REC_DENY_def)

text \<open>AEM-MTA cannot tell which normal addresses exist: for every normal address that is not
  forbidden the reply has three bytes, whether it is registered, refuses external mail or is
  unknown, and an unknown one gives the same bytes as one that refuses.\<close>

theorem mta_hides_normal:
  "addr32 ! 0 AND 128 = 0 \<Longrightarrow> addressToHash x s addr32 \<noteq> 0 \<Longrightarrow> alloc_ok e \<Longrightarrow>
   \<exists>r. mta_getUid x e addr32 s = Inr r \<and> length r = 3 \<and>
     (r = [0xFF, 0xFF, 0xFF] \<or> (\<exists>uid f. hashToUid s (addressToHash x s addr32) False = Some (uid, f) \<and>
        f AND AEM_ADDR_FLAG_ACCEXT \<noteq> 0 \<and> take 2 r = le_bytes 2 uid))"
  by (auto simp: mta_getUid_def Let_def split: option.split)

theorem mta_hides_normal_witness:
  "\<exists>r. mta_getUid demo_ext demo_env [10, 128, 0, 0, 0, 0, 0, 0, 0, 0] demo1 = Inr r \<and> length r = 3"
proof -
  have "addressToHash demo_ext demo1 [10, 128, 0, 0, 0, 0, 0, 0, 0, 0] \<noteq> 0"
    by (simp add: addressToHash_def AEM_ADDR32_SYSTEM_def demo_ext_def)
  then show ?thesis
    using mta_hides_normal [of "[10, 128, 0, 0, 0, 0, 0, 0, 0, 0]" demo_ext demo1 demo_env]
    by (auto simp: demo_env_def)
qed

section \<open>Missing checks\<close>

text \<open>The number of the sender that AEM-API gets with an authenticated request is cut to a byte:
  users whose numbers differ by 256 are the same to it, in particular user 256 and user 0.\<close>

theorem uid_byte_collision:
  "base_response x req post (uid + 256) u p ! 2 = base_response x req post uid v q ! 2"
  by (simp add: base_response_def)

text \<open>Any authenticated user may set the limits of all levels: the command has no level check and
  replaces the table by the request's data.\<close>

theorem limits_unguarded:
  "p_cmd p = 10 \<Longrightarrow> acc_get x e p s
     = ([AEM_API_STATUS_OK], saveSettings x e (s\<lparr>limits := take 12 (p_data p)\<rparr>))"
  by (simp add: acc_get_def api_setting_limits_def api_response_status_def)

theorem limits_unguarded_witness:
  "unat (level (cur demo1)) = 0 \<and>
   limits (snd (acc_get demo_ext demo_env \<lparr>p_cmd = 10, p_flags = 0, p_data = replicate 33 255\<rparr> demo1))
     = replicate 12 255"
proof -
  have "cur demo1 = demo_user"
    using demo1_user by (simp add: demo1_def demo_state_def)
  then have "unat (level (cur demo1)) = 0" by (simp add: demo_user_def add_address_def zero_user_def)
  then show ?thesis
    using limits_unguarded [of "\<lparr>p_cmd = 10, p_flags = 0, p_data = replicate 33 255\<rparr>" demo_ext demo_env demo1]
    by simp
qed

section \<open>Response sizes\<close>

definition sizes_ok :: "account \<Rightarrow> bool" where
  "sizes_ok s \<longleftrightarrow> length (limits s) = 12 \<and> length (saltNormal s) = 16 \<and>
     length (rsaAdminKey s) \<le> 4096 \<and> length (rsaUsersKey s) \<le> 4096"

lemma existing_users_len: "length (existing_users i us) \<le> 2 * length us"
  by (induction i us rule: existing_users.induct) simp_all

lemma browse_len: "length (concat (map (\<lambda>u. le_bytes 4 (unat (browse_word u))) us)) = 4 * length us"
  by (induction us) simp_all

lemma address_list_len: "length (address_list u) \<le> 9 * unat (addrCount u)"
proof -
  have "length (concat (map (\<lambda>(h, f). le_bytes 8 (unat h) @ [f]) xs)) = 9 * length xs"
    for xs :: "(u64 \<times> byte) list"
    by (induction xs) (auto simp: split_beta)
  then show ?thesis by (simp add: address_list_def)
qed

lemma length_slice: "length (slice a n xs) \<le> n"
  by (simp add: slice_def)

lemma get_len:
  assumes "acc_inv s" "sizes_ok s" "get_user s (api_uid s) = Some u" "length (rand_addr e) = 10"
  shows "length (fst (acc_get x e p s)) \<le> 30637"
proof -
  have reg: "length (fst (register_address x e h sh a s)) \<le> 8 + length a" for h sh a
    by (simp add: register_address_def api_response_status_def Let_def)
  have create: "length (fst (api_address_create x e d s)) \<le> 18" for d
    using assms(4) reg [of _ True "(rand_addr e)[0 := rand_addr e ! 0 OR 128]"] reg [of _ False "[]"]
    by (simp add: api_address_create_def api_response_status_def Let_def order.trans [OF reg])
  have browse: "length (fst (api_message_browse f s)) \<le> 6481" for f
    using assms address_list_len [of u] count_le [of "addrCount u"] inv_sizes [OF assms(1,3)]
      length_slice [of "3 * unat (level u)" 3 "limits s"]
    by (simp add: api_message_browse_def Let_def user_sizes_def sizes_ok_def acc_consts)
  show ?thesis
    using assms(1,2) create [of "p_data p"] browse [of "p_flags p"]
    by (simp add: acc_get_def api_account_browse_def api_account_delete_def api_account_update_def
        api_address_delete_def api_address_update_def api_invalid_def api_response_status_def Let_def
        api_setting_limits_def browse_len acc_inv_def sizes_ok_def acc_consts split: option.split)
qed

lemma message_len:
  assumes "acc_inv s" "sizes_ok s"
  shows "length (fst (api_message_create x d f s)) \<le> 30637"
proof -
  have "length (message_email x d s) \<le> 4098"
    using assms(2) by (simp add: message_email_def api_response_status_def Let_def sizes_ok_def)
  moreover have "length (message_internal x d f s) \<le> 8190"
    using existing_users_len [of 0 "take 4095 (user s)"] assms(1)
    by (simp add: message_internal_def api_response_status_def Let_def acc_inv_def acc_consts split: option.split)
  ultimately show ?thesis by (simp add: api_message_create_def)
qed

lemma base_len:
  assumes "ext_ok x" "AEM_API_REQ_LEN \<le> length msg"
  shows "length (base_response x msg post a u (decrypt_req x msg post u)) = 83"
  using assms
  by (simp add: base_response_def decrypt_req_def Let_def uak_derive_def aem_kdf_sub_def ext_ok_def
      xor_bytes_def req_data_def slice_def acc_consts)

lemma post_len:
  assumes "acc_post x e msg p base s = Some (Inr r, s')" "length base = 83" "acc_inv s" "sizes_ok s"
  shows "length r \<le> 30720"
proof -
  have "length (fst (api_account_create x e d s)) \<le> 30637"
      "length (fst (api_private_update x e d s)) \<le> 30637" for d
    by (simp_all add: api_account_create_def api_private_update_def api_response_status_def Let_def)
  then show ?thesis
    using assms message_len [OF assms(3,4), of x "p_data p" "p_flags p"]
    by (auto simp: acc_post_def acc_continue_def acc_consts prod_eq_iff
        split: if_splits option.splits prod.splits)
qed

lemma authed_sizes: "sizes_ok s \<Longrightarrow> sizes_ok (authed msg a u s)"
  by (simp add: sizes_ok_def authed_def)

text \<open>The response buffer is large enough: whatever an authenticated or unauthenticated request
  asks for, the response with its header fits the 30 KiB that are allocated for it.\<close>

theorem response_fits:
  assumes "ext_ok x" "acc_inv s" "sizes_ok s" "length (rand_addr e) = 10" "AEM_API_REQ_LEN \<le> length msg"
    and "acc_conn_api x e operation msg s = Some (Inr r, s')"
  shows "length r \<le> 30720"
proof (cases rule: api_auth_cases [of x operation msg s e])
  case (accepted a u p base)
  note inv = authed_inv [OF assms(2) accepted(2), of msg] and me = authed_me [OF accepted(2), of msg]
    and sz = authed_sizes [OF assms(3), of msg a u]
  have b: "length base = 83" using base_len [OF assms(1,5)] accepted(4,5) by simp
  show ?thesis
    using assms(6) accepted(6) get_len [OF inv sz me assms(4), of x p] post_len [OF _ b inv sz] b
    by (auto simp: acc_conn_api_def Let_def split: if_splits prod.splits)
qed (use assms(6) in \<open>auto simp: acc_conn_api_def Let_def split: if_splits\<close>)

theorem response_fits_witness:
  "\<exists>r. acc_conn_api demo_ext demo_env 2 demo_req demo1 = Some (Inr r, authed demo_req 0 demo_user demo1)
     \<and> length r \<le> 30720"
proof -
  have "sizes_ok demo1" by (simp add: sizes_ok_def demo1_def demo_state_def)
  then show ?thesis
    using response_fits [OF demo_ext_ok demo1_inv _ _ _ demo_accepts] demo_accepts
    by (simp add: demo_env_def demo_req_def acc_consts)
qed

end
