(* ===== verification/Account_File.thy ===== *)
theory Account_File
  imports Account_Props
begin

text \<open>
  The file of user accounts: \<open>saveUser\<close> writes every existing user with its number, \<open>loadUser\<close>
  reads them back.  The lemmas take the layout of \<^verbatim>\<open>struct aem_user\<close> apart: the byte arrays, the
  64-bit hashes and the bit-fields of the last eight bytes.
\<close>

section \<open>One user\<close>

lemma slice_append_left: "length a = n \<Longrightarrow> slice 0 n (a @ b) = a"
  by (simp add: slice_def)

lemma slice_append_right: "length a = k \<Longrightarrow> slice (k + i) n (a @ b) = slice i n b"
  by (simp add: slice_def)

lemma read_hashes_bytes:
  "read_hashes (length hs) (concat (map (\<lambda>h. le_bytes 8 (unat h)) hs) @ rest) = hs"
proof (induction hs)
  case (Cons h hs)
  have "unat h < 256 ^ 8" using unsigned_less [of h, where 'a = nat] by simp
  then have "le_read (le_bytes 8 (unat h)) = unat h" by (rule le_read_bytes)
  then show ?case using Cons by simp
qed simp

lemma length_hashes: "length (concat (map (\<lambda>h. le_bytes 8 (unat h)) hs)) = 8 * length (hs :: u64 list)"
  by (induction hs) simp_all

lemma user_bits_fields:
  fixes u :: aem_user
  shows "user_bits u < 2 ^ 64" and "(of_nat (user_bits u) :: 42 word) = lastBinTs u"
    and "(of_nat (user_bits u div 2 ^ 42) :: 2 word) = level u"
    and "(of_nat (user_bits u div 2 ^ 44) :: 5 word) = addrCount u"
    and "(of_nat (user_bits u div 2 ^ 49) :: 15 word) = unused_value u"
proof -
  obtain t l c k where f: "t = unat (lastBinTs u)" "l = unat (level u)" "c = unat (addrCount u)"
      "k = unat (unused_value u)" by simp
  have b: "t < 2 ^ 42" "l < 4" "c < 32" "k < 32768"
    using unsigned_less [of "lastBinTs u", where 'a = nat] unsigned_less [of "level u", where 'a = nat]
      unsigned_less [of "addrCount u", where 'a = nat] unsigned_less [of "unused_value u", where 'a = nat]
    unfolding f by simp_all
  have e: "user_bits u = t + 2 ^ 42 * (l + 4 * (c + 32 * k))"
    unfolding user_bits_def f [symmetric] by simp
  have d42: "user_bits u div 2 ^ 42 = l + 4 * (c + 32 * k)" unfolding e using b(1) by simp
  have d44: "user_bits u div 2 ^ 44 = c + 32 * k"
  proof -
    have "user_bits u div 2 ^ 44 = user_bits u div 2 ^ 42 div 4" by (simp flip: div_mult2_eq)
    then show ?thesis unfolding d42 using b(2) by simp
  qed
  have d49: "user_bits u div 2 ^ 49 = k"
  proof -
    have "user_bits u div 2 ^ 49 = user_bits u div 2 ^ 44 div 32" by (simp flip: div_mult2_eq)
    then show ?thesis unfolding d44 using b(3) by simp
  qed
  show "user_bits u < 2 ^ 64" unfolding e using b by simp
  have m42: "user_bits u mod 2 ^ 42 = t"
    unfolding e using b(1) by (simp only: mod_mult_self2 mod_less)
  then show "(of_nat (user_bits u) :: 42 word) = lastBinTs u"
    unfolding word_unat_eq_iff unat_of_nat by (simp add: f(1) [symmetric])
  show "(of_nat (user_bits u div 2 ^ 42) :: 2 word) = level u"
    unfolding word_unat_eq_iff unat_of_nat d42 f(2) [symmetric]
    using b(2) mod_mult_self2 [of l 4 "c + 32 * k"] by simp
  show "(of_nat (user_bits u div 2 ^ 44) :: 5 word) = addrCount u"
    unfolding word_unat_eq_iff unat_of_nat d44 f(3) [symmetric]
    using b(3) mod_mult_self2 [of c 32 k] by simp
  show "(of_nat (user_bits u div 2 ^ 49) :: 15 word) = unused_value u"
    unfolding word_unat_eq_iff unat_of_nat d49 using b(4) by (simp add: f(4) [symmetric])
qed

lemma length_user_bytes: "user_sizes u \<Longrightarrow> length (user_bytes u) = 8192"
  by (simp add: user_bytes_def user_sizes_def length_hashes acc_consts)

lemma read_user_bytes:
  assumes "user_sizes u"
  shows "read_user (user_bytes u) = u"
proof -
  note len = assms [unfolded user_sizes_def acc_consts]
  have bits: "slice 8184 8 (user_bytes u) = le_bytes 8 (user_bits u)"
    using len by (simp add: user_bytes_def slice_def length_hashes acc_consts)
  have num: "le_read (slice 8184 8 (user_bytes u)) = user_bits u"
    unfolding bits using user_bits_fields(1) [of u] by (intro le_read_bytes) simp
  have hashes: "read_hashes 31 (slice 7936 248 (user_bytes u)) = addrHash u"
    using len read_hashes_bytes [of "addrHash u" "[]"]
    by (simp add: user_bytes_def slice_def length_hashes acc_consts)
  show ?thesis
    unfolding read_user_def Let_def num hashes user_bits_fields(2-5)
    using len by (simp add: user_bytes_def slice_def length_hashes acc_consts)
qed

section \<open>The table\<close>

lemma drop_Suc_replicate: "drop i xs = replicate (Suc n) a \<Longrightarrow> drop (Suc i) xs = replicate n a"
  by (metis drop_Suc tl_drop replicate_Suc list.sel(3))

lemma load_user_records:
  "length tab = AEM_USERCOUNT \<Longrightarrow> k + length us = AEM_USERCOUNT \<Longrightarrow>
   drop k tab = replicate (length us) None \<Longrightarrow> list_all user_ok us \<Longrightarrow>
   load_records (user_records k us) tab = (True, take k tab @ us)"
proof (induction k us arbitrary: tab rule: user_records.induct)
  case (1 i)
  then show ?case by (simp add: load_records.simps)
next
  case (2 i us)
  have "tab ! i = None" using 2(4) 2(2,3) nth_drop [of i tab 0] by simp
  then have "take (Suc i) tab = take i tab @ [None]" using 2(2,3) by (simp add: take_Suc_conv_app_nth)
  moreover have "drop (Suc i) tab = replicate (length us) None"
    using 2(4) by (intro drop_Suc_replicate) simp
  ultimately show ?case using 2 by simp
next
  case (3 i u us)
  have sz: "user_sizes u" using 3(5) by (simp add: user_ok_def)
  let ?dec = "user_records i (Some u # us)"
  have dec: "?dec = le_bytes 2 i @ user_bytes u @ user_records (Suc i) us" by simp
  have uid: "le_read (take 2 ?dec) = i"
    unfolding dec using 3(3) by (simp add: le_read_bytes acc_consts)
  have usr: "slice 2 8192 ?dec = user_bytes u" and rest: "drop 8194 ?dec = user_records (Suc i) us"
    unfolding dec using length_user_bytes [OF sz] by (simp_all add: slice_def)
  have len: "\<not> length ?dec < 8194" unfolding dec using length_user_bytes [OF sz] by simp
  have i: "i < AEM_USERCOUNT" using 3(3) by simp
  have "load_records ?dec tab = load_records (user_records (Suc i) us) (tab[i := Some u])"
    using i [unfolded not_le [symmetric]] by (subst load_records.simps) (simp only: len [unfolded not_less] len usr rest read_user_bytes [OF sz] Let_def uid
      if_False not_less simp_thms)
  also have "\<dots> = (True, take (Suc i) (tab[i := Some u]) @ us)"
  proof (rule "3.IH")
    show "drop (Suc i) (tab[i := Some u]) = replicate (length us) None"
      using drop_Suc_replicate [of i tab "length us" None] 3(4) by simp
  qed (use 3(2,3,5) in simp_all)
  also have "take (Suc i) (tab[i := Some u]) = take i tab @ [Some u]"
    using i 3(2) by (simp add: take_Suc_conv_app_nth list_update_append)
  finally show ?case by simp
qed

text \<open>What the code relies on of the authenticated encryption: 32 bytes of tag, and decryption with
  the same key and nonce gives the message back.\<close>

definition aead_ok :: "acc_ext \<Rightarrow> bool" where
  "aead_ok x \<longleftrightarrow> (\<forall>k n m. length (aegis256_encrypt x k n m) = length m + 32 \<and>
     aegis256_decrypt x k n (aegis256_encrypt x k n m) = Some m)"

lemma length_user_records: "list_all user_ok us \<Longrightarrow> length (user_records i us) mod 8194 = 0"
proof (induction i us rule: user_records.induct)
  case (3 i u us)
  have "length (user_records i (Some u # us)) = 8194 + length (user_records (Suc i) us)"
    using 3(2) length_user_bytes [of u] by (simp add: user_ok_def)
  then show ?case using 3 by simp
qed simp_all

section \<open>Property\<close>

text \<open>C13: Accounts survive a restart: when the file was written completely, a fresh server with the
  same key loads exactly the users that were saved, every field of every user included.\<close>

theorem load_saved_users:
  assumes "aead_ok x" "acc_inv s" "alloc_ok e" "written e = Some n" "length (rand_nonce e) = 32"
    and n: "length (user_records 0 (user s)) + 64 \<le> n"
    and t: "user t = replicate AEM_USERCOUNT None" "accountKey t = accountKey s"
      "account_file t = account_file (saveUser x e s)"
  shows "loadUser x t = (True, t\<lparr>user := user s\<rparr>)"
proof -
  let ?dec = "user_records 0 (user s)"
  let ?enc = "aegis256_encrypt x (accountKey s) (rand_nonce e) ?dec"
  have inv: "length (user s) = AEM_USERCOUNT" "list_all user_ok (user s)"
    using assms(2) by (simp_all add: acc_inv_def)
  have enc: "length ?enc = length ?dec + 32" "aegis256_decrypt x (accountKey s) (rand_nonce e) ?enc = Some ?dec"
    using assms(1) by (simp_all add: aead_ok_def)
  have stored: "account_file t = rand_nonce e @ ?enc"
    using t(3) assms(3-5) n enc(1) by (simp add: saveUser_def)
  have "load_records ?dec (user t) = (True, user s)"
    using load_user_records [of "user t" 0 "user s"] inv t(1) by simp
  then show ?thesis
    using length_user_records [OF inv(2), of 0] enc assms(5) t(2) unfolding loadUser_def stored
    by (simp add: Let_def)
qed

definition copy_ext :: acc_ext where
  "copy_ext = demo_ext\<lparr>aegis256_encrypt := \<lambda>k n m. m @ replicate 32 0,
     aegis256_decrypt := \<lambda>k n c. Some (take (length c - 32) c)\<rparr>"

theorem load_saved_users_witness:
  "\<exists>t. loadUser copy_ext (demo_state (replicate 4096 None)\<lparr>account_file := t\<rparr>)
     = (True, demo_state (replicate 4096 None)\<lparr>account_file := t, user := user demo1\<rparr>)"
proof -
  let ?n = "length (user_records 0 (user demo1)) + 64"
  let ?e = "demo_env\<lparr>written := Some ?n\<rparr>"
  let ?f = "account_file (saveUser copy_ext ?e demo1)"
  have "aead_ok copy_ext" by (simp add: aead_ok_def copy_ext_def)
  then have "loadUser copy_ext (demo_state (replicate 4096 None)\<lparr>account_file := ?f\<rparr>)
      = (True, demo_state (replicate 4096 None)\<lparr>account_file := ?f\<rparr>\<lparr>user := user demo1\<rparr>)"
    by (rule load_saved_users [OF _ demo1_inv _ _ _ order_refl])
       (simp_all add: demo_env_def demo_state_def demo1_def acc_consts)
  then show ?thesis by auto
qed

end
