(* ===== verification/Envelope.thy ===== *)
theory Envelope
  imports Account_Types
begin

text \<open>
  Messages and envelopes: \<^verbatim>\<open>src/Common/Message.c\<close> (the message header),
  \<^verbatim>\<open>src/Common/Signature.c\<close> (the server's 222-bit signature) and
  \<^verbatim>\<open>src/Common/Envelope.c\<close> (padding, identifier and encryption of a message for its owner).

  The functions of the cryptographic library are the fields of \<open>evp_ext\<close>: the X25519 base point
  and scalar multiplication (\<open>None\<close> when the library refuses the point), the keyed hash with the
  length of its result, and the ChaCha20 key stream (key, nonce, first block, number of bytes).
  Random bytes are arguments: \<open>draws\<close> are the secret keys drawn one after the other, \<open>pad\<close> the
  padding bytes.  The loop that draws keys until the identifier fits may go on for ever; when the
  given draws contain no fitting key the result is \<open>Evp_Loop\<close>.
\<close>

section \<open>Constants of \<^verbatim>\<open>Global.h\<close>\<close>

definition AEM_EVP_BLOCKSIZE :: nat where "AEM_EVP_BLOCKSIZE = 32"
definition AEM_EVP_MINBLOCKS :: nat where "AEM_EVP_MINBLOCKS = 3"
definition AEM_EVP_MAXSIZE :: nat where "AEM_EVP_MAXSIZE = 2097216"
definition AEM_EVP_W_OVERHEAD :: nat where "AEM_EVP_W_OVERHEAD = 1 + 32"
definition AEM_MSG_W_MAXSIZE :: nat where "AEM_MSG_W_MAXSIZE = AEM_EVP_MAXSIZE - AEM_EVP_W_OVERHEAD"
definition AEM_MSG_HDR_SZ :: nat where "AEM_MSG_HDR_SZ = 32"
definition X25519_PKBYTES :: nat where "X25519_PKBYTES = 32"
definition AEM_MSG_TYPE_EXT :: byte where "AEM_MSG_TYPE_EXT = 0"
definition AEM_MSG_TYPE_INT :: byte where "AEM_MSG_TYPE_INT = 1"
definition AEM_MSG_TYPE_OUT :: byte where "AEM_MSG_TYPE_OUT = 2"
definition AEM_MSG_TYPE_UPL :: byte where "AEM_MSG_TYPE_UPL = 3"

lemmas evp_consts = AEM_EVP_BLOCKSIZE_def AEM_EVP_MINBLOCKS_def AEM_EVP_MAXSIZE_def
  AEM_EVP_W_OVERHEAD_def AEM_MSG_W_MAXSIZE_def AEM_MSG_HDR_SZ_def X25519_PKBYTES_def

record evp_ext =
  scalarmult_base :: "byte list \<Rightarrow> byte list"
  scalarmult :: "byte list \<Rightarrow> byte list \<Rightarrow> byte list option"
  generichash :: "nat \<Rightarrow> byte list \<Rightarrow> byte list \<Rightarrow> byte list"
  chacha_stream :: "byte list \<Rightarrow> byte list \<Rightarrow> u32 \<Rightarrow> nat \<Rightarrow> byte list"

text \<open>\<^verbatim>\<open>struct evpKeys\<close>\<close>

record evp_keys =
  ek_security :: bool
  ek_pwk :: "byte list"
  ek_psk :: "byte list"
  ek_pqk :: "byte list"
  ek_usk :: "byte list"

section \<open>The message header\<close>

definition msg_ts32 :: "u64 \<Rightarrow> u64 \<Rightarrow> u32" where
  "msg_ts32 tnow ts =
     (let ts = (if ts < 1735689600 then tnow else ts) - 1735689600
      in if ts > 0xFFFFFFFF then 1 else ucast ts)"

definition aem_msg_init :: "u64 \<Rightarrow> byte \<Rightarrow> u64 \<Rightarrow> byte list" where
  "aem_msg_init tnow type ts =
     replicate 27 0 @ [type AND 3] @ le_bytes 4 (unat (msg_ts32 tnow ts))"

lemma length_msg_init [simp, len_simps]: "length (aem_msg_init tnow type ts) = AEM_MSG_HDR_SZ"
  by (simp add: aem_msg_init_def evp_consts)

section \<open>The signature\<close>

definition msg_uHash :: "evp_ext \<Rightarrow> byte list \<Rightarrow> byte list \<Rightarrow> byte list" where
  "msg_uHash x ukey msg = generichash x 56 (drop 27 msg) ukey"

definition aem_sign_message :: "evp_ext \<Rightarrow> byte list \<Rightarrow> byte list \<Rightarrow> byte list \<Rightarrow> byte list" where
  "aem_sign_message x ssk ukey msg =
     (if length msg \<le> AEM_MSG_HDR_SZ then msg
      else let sHash = generichash x 28 (msg_uHash x ukey msg) ssk
           in take 27 sHash @ [(sHash ! 27 AND 252) OR (msg ! 27 AND 3)] @ drop 28 msg)"

definition aem_sig_verify :: "evp_ext \<Rightarrow> byte list \<Rightarrow> byte list \<Rightarrow> byte list \<Rightarrow> bool" where
  "aem_sig_verify x ssk uHash sHash_test \<longleftrightarrow>
     (let r = generichash x 28 uHash ssk in r[27 := r ! 27 AND 252] = sHash_test)"

section \<open>The envelope\<close>

text \<open>The identifier: the XOR of the first sixteen bytes and that of the next sixteen, read as a
  16-bit little-endian number.\<close>

definition xor_all :: "byte list \<Rightarrow> byte" where
  "xor_all bs = foldl (XOR) 0 bs"

definition getEnvelopeId :: "byte list \<Rightarrow> u16" where
  "getEnvelopeId src = of_nat (le_read [xor_all (take 16 src), xor_all (take 16 (drop 16 src))])"

definition evp_padding :: "nat \<Rightarrow> nat" where
  "evp_padding lenMsg =
     (if (AEM_EVP_W_OVERHEAD + lenMsg) mod AEM_EVP_BLOCKSIZE = 0 then 0
      else AEM_EVP_BLOCKSIZE - (AEM_EVP_W_OVERHEAD + lenMsg) mod AEM_EVP_BLOCKSIZE)"

definition evp_blocks :: "nat \<Rightarrow> u16" where
  "evp_blocks lenEvp = of_nat (lenEvp div AEM_EVP_BLOCKSIZE - AEM_EVP_MINBLOCKS)"

text \<open>The key, nonce and counter: 46 bytes of hash of the shared secret, the owner's public key and
  the number of blocks; the 16-bit counter becomes the upper half of the 32-bit block number.\<close>

definition evp_base :: "byte list \<Rightarrow> byte list \<Rightarrow> nat \<Rightarrow> byte list" where
  "evp_base shared epk lenEvp = shared @ epk @ le_bytes 2 (unat (evp_blocks lenEvp))"

definition evp_crypt :: "evp_ext \<Rightarrow> byte list \<Rightarrow> byte list \<Rightarrow> byte list" where
  "evp_crypt x base src =
     (let nck = generichash x 46 base [];
          ic = push_bit 16 (of_nat (le_read (take 2 (drop 12 nck))) :: u32)
      in map2 (XOR) src (chacha_stream x (drop 14 nck) (take 12 nck) ic (length src)))"

datatype evp_res = Evp_Null | Evp_Loop | Evp "byte list"

text \<open>Which public keys end the loop.\<close>

definition evp_fits :: "u16 list option \<Rightarrow> byte list \<Rightarrow> bool" where
  "evp_fits usedIds pk =
     (case usedIds of Some ids \<Rightarrow> getEnvelopeId pk \<notin> set ids | None \<Rightarrow> getEnvelopeId pk = 0)"

definition msg2evp ::
  "evp_ext \<Rightarrow> byte list list \<Rightarrow> (nat \<Rightarrow> byte) \<Rightarrow> byte list \<Rightarrow> byte list \<Rightarrow> u16 list option \<Rightarrow> evp_res" where
  "msg2evp x draws pad msg epk usedIds =
     (if length msg \<le> AEM_MSG_HDR_SZ \<or> length msg > AEM_MSG_W_MAXSIZE then Evp_Null
      else let lenPadding = evp_padding (length msg);
               lenEvp = AEM_EVP_W_OVERHEAD + length msg + lenPadding
           in case find (\<lambda>sk. evp_fits usedIds (scalarmult_base x sk)) draws of
                None \<Rightarrow> Evp_Loop
              | Some sk \<Rightarrow>
                  (case scalarmult x sk epk of
                     None \<Rightarrow> Evp_Null
                   | Some shared \<Rightarrow>
                       Evp (scalarmult_base x sk @
                         evp_crypt x (evp_base shared epk lenEvp)
                           (of_nat lenPadding # msg @ map pad [0..<lenPadding]))))"

text \<open>What the code relies on of the library: the lengths of its results, and that both sides of a
  key exchange get the same secret.\<close>

definition evp_ok :: "evp_ext \<Rightarrow> bool" where
  "evp_ok x \<longleftrightarrow> (\<forall>sk. length (scalarmult_base x sk) = 32) \<and>
     (\<forall>n m k. length (generichash x n m k) = n) \<and>
     (\<forall>k n i l. length (chacha_stream x k n i l) = l)"

definition dh_ok :: "evp_ext \<Rightarrow> bool" where
  "dh_ok x \<longleftrightarrow> (\<forall>a b. scalarmult x a (scalarmult_base x b) = scalarmult x b (scalarmult_base x a))"

section \<open>Sizes\<close>

lemma evp_padding_bound: "evp_padding n < 32" "(33 + n + evp_padding n) mod 32 = 0"
proof -
  show "evp_padding n < 32" by (simp add: evp_padding_def evp_consts)
  show "(33 + n + evp_padding n) mod 32 = 0"
    unfolding evp_padding_def evp_consts by simp presburger
qed

lemma length_evp_crypt [len_simps]: "evp_ok x \<Longrightarrow> length (evp_crypt x base src) = length src"
  by (simp add: evp_crypt_def evp_ok_def Let_def)

lemma map2_xor_twice: "length ys = length xs \<Longrightarrow> map2 (XOR) (map2 (XOR) xs ys) ys = (xs :: byte list)"
  by (induction xs ys rule: list_induct2') (simp_all add: xor.assoc)

lemma evp_crypt_twice: "evp_ok x \<Longrightarrow> evp_crypt x base (evp_crypt x base src) = src"
  unfolding evp_crypt_def Let_def
  by (simp add: evp_ok_def map2_xor_twice)

lemma find_SomeD: "find P xs = Some y \<Longrightarrow> y \<in> set xs \<and> P y"
  by (auto simp: find_Some_iff)

lemma msg2evp_cases:
  assumes "msg2evp x draws pad msg epk ids = Evp evp"
  obtains sk shared where "sk \<in> set draws" "evp_fits ids (scalarmult_base x sk)"
    "scalarmult x sk epk = Some shared" "AEM_MSG_HDR_SZ < length msg" "length msg \<le> AEM_MSG_W_MAXSIZE"
    "evp = scalarmult_base x sk @ evp_crypt x
       (evp_base shared epk (AEM_EVP_W_OVERHEAD + length msg + evp_padding (length msg)))
       (of_nat (evp_padding (length msg)) # msg @ map pad [0..<evp_padding (length msg)])"
  using assms
  by (auto simp: msg2evp_def Let_def not_le dest!: find_SomeD split: if_splits option.splits)

lemma msg2evp_length:
  assumes "evp_ok x" "msg2evp x draws pad msg epk ids = Evp evp"
  shows "length evp = 33 + length msg + evp_padding (length msg)" "length evp mod 32 = 0"
    "96 \<le> length evp" "length evp \<le> AEM_EVP_MAXSIZE"
proof -
  from assms(2) show l: "length evp = 33 + length msg + evp_padding (length msg)"
    by (rule msg2evp_cases) (use assms(1) in \<open>simp add: length_evp_crypt evp_ok_def\<close>)
  show d: "length evp mod 32 = 0" unfolding l by (rule evp_padding_bound)
  from assms(2) have b: "32 < length msg" "length msg + 33 \<le> 2097216"
    by (auto elim!: msg2evp_cases simp: evp_consts)
  with l have "65 < length evp" by simp
  with d show "96 \<le> length evp" by presburger
  have "evp_padding (length msg) < 32" by (rule evp_padding_bound)
  with l b have "length evp < 2097216 + 32" by simp
  moreover have "(2097216 :: nat) mod 32 = 0" by simp
  ultimately have "length evp \<le> 2097216" using d by presburger
  then show "length evp \<le> AEM_EVP_MAXSIZE" by (simp add: evp_consts)
qed

lemma evp_blocks_unat:
  "n mod 32 = 0 \<Longrightarrow> 96 \<le> n \<Longrightarrow> n \<le> AEM_EVP_MAXSIZE \<Longrightarrow> (unat (evp_blocks n) + 3) * 32 = n"
proof -
  assume h: "n mod 32 = 0" "96 \<le> n" "n \<le> AEM_EVP_MAXSIZE"
  then have "n div 32 - 3 < 65536" "3 \<le> n div 32" "n div 32 * 32 = n" by (auto simp: evp_consts)
  moreover from this have "unat (evp_blocks n) = n div 32 - 3"
    unfolding evp_blocks_def unat_of_nat by (simp add: evp_consts)
  ultimately show ?thesis by simp
qed

lemma getEnvelopeId_append: "length pk = 32 \<Longrightarrow> getEnvelopeId (pk @ rest) = getEnvelopeId pk"
  by (simp add: getEnvelopeId_def)

lemma msg2evp_id:
  assumes "evp_ok x" "msg2evp x draws pad msg epk ids = Evp evp"
  shows "evp_fits ids evp"
proof -
  from assms(2) obtain sk r where "evp_fits ids (scalarmult_base x sk)" "evp = scalarmult_base x sk @ r"
    by (rule msg2evp_cases)
  moreover have "length (scalarmult_base x sk) = 32" using assms(1) by (simp add: evp_ok_def)
  ultimately show ?thesis by (auto simp: evp_fits_def getEnvelopeId_append split: option.splits)
qed

section \<open>Properties\<close>

text \<open>How the owner opens an envelope: the inverse the encryption must have.\<close>

definition evp_open :: "evp_ext \<Rightarrow> byte list \<Rightarrow> byte list \<Rightarrow> byte list option" where
  "evp_open x sk evp =
     (case scalarmult x sk (take 32 evp) of
        None \<Rightarrow> None
      | Some shared \<Rightarrow>
          (let d = evp_crypt x (evp_base shared (scalarmult_base x sk) (length evp)) (drop 32 evp)
           in Some (take (length d - 1 - unat (hd d)) (tl d))))"

text \<open>C14: The owner of the secret key gets exactly the message back out of its envelope, whatever the
  length of the message and the random bytes; the envelope is a whole number of blocks, at least three
  and at most 65538, and its identifier is one the storage does not use yet.\<close>

theorem evp_open_msg2evp:
  assumes "evp_ok x" "dh_ok x" and e: "msg2evp x draws pad msg (scalarmult_base x usersk) ids = Evp evp"
  shows "evp_open x usersk evp = Some msg \<and> evp_fits ids evp \<and>
    length evp = (unat (evp_blocks (length evp)) + AEM_EVP_MINBLOCKS) * AEM_EVP_BLOCKSIZE"
proof -
  let ?p = "evp_padding (length msg)" and ?pk = "scalarmult_base x usersk"
  from e obtain sk shared where s: "scalarmult x sk ?pk = Some shared"
    and evp: "evp = scalarmult_base x sk @ evp_crypt x
       (evp_base shared ?pk (AEM_EVP_W_OVERHEAD + length msg + ?p)) (of_nat ?p # msg @ map pad [0..<?p])"
    by (rule msg2evp_cases)
  have len: "length evp = AEM_EVP_W_OVERHEAD + length msg + ?p"
    using msg2evp_length(1) [OF assms(1) e] by (simp add: evp_consts)
  have pk: "length (scalarmult_base x sk) = 32" using assms(1) by (simp add: evp_ok_def)
  then have parts: "take 32 evp = scalarmult_base x sk" "drop 32 evp = evp_crypt x
       (evp_base shared ?pk (length evp)) (of_nat ?p # msg @ map pad [0..<?p])"
    unfolding len unfolding evp by simp_all
  have dh: "scalarmult x usersk (scalarmult_base x sk) = Some shared"
    using assms(2) s by (simp add: dh_ok_def)
  have pad: "unat (of_nat ?p :: byte) = ?p"
    using evp_padding_bound(1) [of "length msg"] by (simp add: unat_of_nat)
  have "evp_open x usersk evp = Some msg"
    by (simp add: evp_open_def parts dh evp_crypt_twice [OF assms(1)] pad)
  then show ?thesis
    using msg2evp_id [OF assms(1) e] evp_blocks_unat [OF msg2evp_length(2-4) [OF assms(1) e]]
    by (simp add: evp_consts)
qed

definition demo_evp_ext :: evp_ext where
  "demo_evp_ext = \<lparr>scalarmult_base = \<lambda>sk. take 32 (sk @ replicate 32 0),
     scalarmult = \<lambda>a b. Some (map2 (XOR) (take 32 (a @ replicate 32 0)) b),
     generichash = \<lambda>n m k. replicate n (of_nat (length m)),
     chacha_stream = \<lambda>k n i l. replicate l (hd k)\<rparr>"

lemma map2_xor_comm: "map2 (XOR) xs ys = map2 (XOR) ys (xs :: byte list)"
  by (induction xs ys rule: list_induct2') (simp_all add: xor.commute)

lemma demo_evp_ok: "evp_ok demo_evp_ext" and demo_dh_ok: "dh_ok demo_evp_ext"
  by (auto simp: evp_ok_def dh_ok_def demo_evp_ext_def map2_xor_comm min_def)

theorem evp_open_msg2evp_witness:
  "\<exists>evp. msg2evp demo_evp_ext [[7]] (\<lambda>i. 9) (replicate 40 5) (scalarmult_base demo_evp_ext [3])
     (Some []) = Evp evp \<and> evp_open demo_evp_ext [3] evp = Some (replicate 40 5)"
proof -
  let ?r = "msg2evp demo_evp_ext [[7]] (\<lambda>i. 9) (replicate 40 5) (scalarmult_base demo_evp_ext [3])
     (Some [])"
  have "\<exists>evp. ?r = Evp evp"
    by (simp add: msg2evp_def evp_consts demo_evp_ext_def Let_def evp_fits_def)
  then obtain evp where e: "?r = Evp evp" ..
  from evp_open_msg2evp [OF demo_evp_ok demo_dh_ok e] show ?thesis using e by blast
qed

text \<open>A signed message passes the verification with the hash of the message as it was before
  signing, keeps its type and every byte behind the signature, and the verification refuses every
  other 28-byte signature.\<close>

theorem sign_then_verify:
  assumes "evp_ok x" "AEM_MSG_HDR_SZ < length msg" "sgd = aem_sign_message x ssk ukey msg"
  shows "sgd ! 27 AND 3 = msg ! 27 AND 3 \<and> drop 28 sgd = drop 28 msg \<and>
    length sgd = length msg \<and>
    (aem_sig_verify x ssk (msg_uHash x ukey msg) sHash \<longleftrightarrow> sHash = take 27 sgd @ [sgd ! 27 AND 252])"
proof -
  let ?h = "generichash x 28 (msg_uHash x ukey msg) ssk"
  have len: "length ?h = 28" using assms(1) by (simp add: evp_ok_def)
  have s: "sgd = take 27 ?h @ [(?h ! 27 AND 252) OR (msg ! 27 AND 3)] @ drop 28 msg"
    using assms(2) unfolding assms(3) aem_sign_message_def by (simp add: Let_def not_le)
  have b: "sgd ! 27 = (?h ! 27 AND 252) OR (msg ! 27 AND 3)"
    unfolding s using len by (simp add: nth_append)
  have m: "(252 :: byte) = NOT 3" by simp
  have low: "((a AND 252) OR (b AND 3)) AND 3 = b AND 3" for a b :: byte
    unfolding m by (rule bit_word_eqI) (simp only: bit_and_iff bit_or_iff bit_not_iff, blast)
  have high: "((a AND 252) OR (b AND 3)) AND 252 = a AND 252" for a b :: byte
    unfolding m by (rule bit_word_eqI) (simp only: bit_and_iff bit_or_iff bit_not_iff, blast)
  have upd: "?h[27 := ?h ! 27 AND 252] = take 27 ?h @ [?h ! 27 AND 252]"
    using len by (simp add: upd_conv_take_nth_drop)
  have "take 27 sgd = take 27 ?h" unfolding s using len by simp
  then show ?thesis
    using assms(2) len unfolding aem_sig_verify_def Let_def upd b low high
    by (auto simp: s AEM_MSG_HDR_SZ_def)
qed

theorem sign_then_verify_witness:
  "\<exists>sgd. sgd = aem_sign_message demo_evp_ext [1] [2] (replicate 40 6) \<and> sgd ! 27 AND 3 = 2 \<and>
     aem_sig_verify demo_evp_ext [1] (msg_uHash demo_evp_ext [2] (replicate 40 6))
       (take 27 sgd @ [sgd ! 27 AND 252])"
  using sign_then_verify [OF demo_evp_ok _ refl, of "replicate 40 6" "[1]" "[2]"]
  by (simp add: evp_consts)

end
