(* ===== verification/Storage_IO.thy ===== *)
theory Storage_IO
  imports Envelope Kdf
begin

text \<open>
  AEM-Storage: \<^verbatim>\<open>src/storage/IO.c\<close>.  Every user has a file of envelopes, one behind the
  other, and a slot of the storage index: the number of envelopes, their sizes in blocks and their
  identifiers, oldest first.  The two index arrays of a slot are lists of the allocated length, which
  may be longer than the number of envelopes; an array that is a null pointer or was freed is the
  empty list.

  What a call takes from its surroundings is the record \<open>sto_env\<close>: whether files can be opened, how
  many bytes a read or write moves (a failing call moves none), the reply of AEM-Account, random
  bytes and the clock.  \<open>StoUndef\<close> is the result of an access outside an array, \<open>StoLoop\<close> that of a
  key search that the given draws do not end.
\<close>

section \<open>State\<close>

record sto_slot =
  sl_count :: u16
  sl_bc :: "u16 list"
  sl_id :: "u16 list"

type_synonym sto_path = "byte \<times> byte"

record storage =
  stindex :: "sto_slot list"
  eid_chars :: "byte list"
  sto_limits :: "byte list"
  sto_sbk :: "byte list"
  msg_files :: "sto_path \<Rightarrow> byte list option"
  stindex_file :: "byte list option"

record sto_ext = evp_ext +
  kdf_stream :: chacha
  sti_encrypt :: "byte list \<Rightarrow> byte list \<Rightarrow> byte list \<Rightarrow> byte list"
  sti_decrypt :: "byte list \<Rightarrow> byte list \<Rightarrow> byte list \<Rightarrow> byte list option"

record sto_env =
  ev_open :: bool
  ev_write :: nat
  ev_read :: nat
  ev_pwrite :: nat
  ev_trunc :: bool
  ev_unlink :: bool
  ev_index :: "nat option"
  ev_nonce :: "nat \<Rightarrow> byte"
  ev_draws :: "byte list list"
  ev_pad :: "nat \<Rightarrow> byte"
  ev_time :: u64
  ev_keys :: "evp_keys option"
  ev_stray :: evp_keys
  ev_heap :: "nat \<Rightarrow> byte"

text \<open>
  \<open>ev_keys\<close> is the reply of AEM-Account (\<open>None\<close> when the call fails), \<open>ev_stray\<close> what lies in memory
  behind a request, \<open>ev_heap\<close> the contents of memory that was allocated but not written;
  \<open>ev_index\<close> is the number of bytes of the index that reach its file (\<open>None\<close>: it cannot be opened).
\<close>

datatype sto_ret = StoCode intcom_code | StoNum int | StoData "byte list" | StoLoop | StoUndef

definition empty_slot :: sto_slot where
  "empty_slot = \<lparr>sl_count = 0, sl_bc = [], sl_id = []\<rparr>"

definition slot :: "storage \<Rightarrow> nat \<Rightarrow> sto_slot" where
  "slot st uid = stindex st ! uid"

definition set_slot :: "nat \<Rightarrow> sto_slot \<Rightarrow> storage \<Rightarrow> storage" where
  "set_slot uid sl st = st\<lparr>stindex := (stindex st)[uid := sl]\<rparr>"

definition sto_path :: "storage \<Rightarrow> nat \<Rightarrow> sto_path" where
  "sto_path st uid = (eid_chars st ! (uid mod 64), eid_chars st ! (uid div 64 mod 64))"

definition msg_file :: "storage \<Rightarrow> nat \<Rightarrow> byte list option" where
  "msg_file st uid = msg_files st (sto_path st uid)"

definition put_file :: "nat \<Rightarrow> byte list option \<Rightarrow> storage \<Rightarrow> storage" where
  "put_file uid f st = st\<lparr>msg_files := (msg_files st)(sto_path st uid := f)\<rparr>"

definition open_msg :: "sto_env \<Rightarrow> storage \<Rightarrow> nat \<Rightarrow> byte list option" where
  "open_msg e st uid = (if ev_open e then msg_file st uid else None)"

section \<open>Encoded user numbers\<close>

definition b64_set :: "byte list" where
  "b64_set = str ''0123456789ABCDEFGHIJKLMNOPQRSTUVWXYZabcdefghijklmnopqrstuvwxyz_+''"

text \<open>One round of the loop: the first of the 8192 values that was not taken yet gives the next
  character; when all of them were taken the character stays as it is.\<close>

definition eid_round :: "nat list \<Rightarrow> nat list \<Rightarrow> nat option" where
  "eid_round src done = find (\<lambda>v. v \<notin> set done) src"

fun eid_loop :: "nat \<Rightarrow> nat list \<Rightarrow> nat list \<Rightarrow> byte list" where
  "eid_loop 0 src done = []"
| "eid_loop (Suc k) src done =
     (case eid_round src done of
        Some v \<Rightarrow> b64_set ! v # eid_loop k src (v # done)
      | None \<Rightarrow> 63 # eid_loop k src done)"

definition eid_src :: "sto_ext \<Rightarrow> byte list \<Rightarrow> nat list" where
  "eid_src x sbk = map (\<lambda>b. unat (b AND 63)) (aem_kdf_sub (kdf_stream x) 8192 0x32 sbk)"

definition eidSetup :: "sto_ext \<Rightarrow> storage \<Rightarrow> storage" where
  "eidSetup x st = st\<lparr>eid_chars := eid_loop 64 (eid_src x (sto_sbk st)) []\<rparr>"

section \<open>The index file\<close>

definition u16_bytes :: "u16 list \<Rightarrow> byte list" where
  "u16_bytes ws = concat (map (\<lambda>w. le_bytes 2 (unat w)) ws)"

fun read_u16s :: "nat \<Rightarrow> byte list \<Rightarrow> u16 list" where
  "read_u16s 0 bs = []"
| "read_u16s (Suc n) bs = of_nat (le_read (take 2 bs)) # read_u16s n (drop 2 bs)"

definition slot_lists :: "sto_slot \<Rightarrow> byte list" where
  "slot_lists sl = u16_bytes (take (unat (sl_count sl)) (sl_bc sl)) @
     u16_bytes (take (unat (sl_count sl)) (sl_id sl))"

definition stindex_bytes :: "storage \<Rightarrow> byte list" where
  "stindex_bytes st =
     u16_bytes (map sl_count (stindex st)) @ concat (map slot_lists (stindex st))"

definition stiKey :: "sto_ext \<Rightarrow> storage \<Rightarrow> byte list" where
  "stiKey x st = aem_kdf_sub (kdf_stream x) 32 0x30 (sto_sbk st)"

definition saveStindex :: "sto_ext \<Rightarrow> sto_env \<Rightarrow> storage \<Rightarrow> storage" where
  "saveStindex x e st =
     (let nonce = map (ev_nonce e) [0..<32];
          enc = nonce @ sti_encrypt x (stiKey x st) nonce (stindex_bytes st)
      in case (ev_index e, stindex_file st) of
           (Some k, Some _) \<Rightarrow> st\<lparr>stindex_file := Some (take k enc)\<rparr>
         | _ \<Rightarrow> st)"

fun load_slots :: "u16 list \<Rightarrow> byte list \<Rightarrow> sto_slot list" where
  "load_slots [] rest = []"
| "load_slots (c # cs) rest =
     (let n = unat c
      in if c > 0
         then \<lparr>sl_count = c, sl_bc = read_u16s n rest, sl_id = read_u16s n (drop (2 * n) rest)\<rparr>
              # load_slots cs (drop (4 * n) rest)
         else empty_slot # load_slots cs rest)"

definition loadStindex :: "sto_ext \<Rightarrow> storage \<Rightarrow> bool \<times> storage" where
  "loadStindex x st =
     (case stindex_file st of
        None \<Rightarrow> (False, st)
      | Some enc \<Rightarrow>
          if enc = [] then (False, st)
          else case sti_decrypt x (stiKey x st) (take 32 enc) (drop 32 enc) of
                 None \<Rightarrow> (False, st)
               | Some d \<Rightarrow> (True, st\<lparr>stindex := load_slots (read_u16s AEM_USERCOUNT d)
                                             (drop (AEM_USERCOUNT * 2) d)\<rparr>))"

definition sto_ioSetup :: "sto_ext \<Rightarrow> byte list \<Rightarrow> storage \<Rightarrow> storage" where
  "sto_ioSetup x baseKey st = snd (loadStindex x (eidSetup x (st\<lparr>sto_sbk := baseKey\<rparr>)))"

section \<open>Requests of AEM-Account\<close>

definition getUserStorageAmount :: "storage \<Rightarrow> nat \<Rightarrow> nat" where
  "getUserStorageAmount st uid = (case msg_file st uid of Some f \<Rightarrow> length f | None \<Rightarrow> 0)"

definition acc_storage_amount :: "storage \<Rightarrow> sto_ret" where
  "acc_storage_amount st = StoData (concat (map (\<lambda>uid.
     le_bytes 4 (unat (of_nat (getUserStorageAmount st uid div AEM_EVP_BLOCKSIZE) :: u32)))
     [0..<AEM_USERCOUNT]))"

text \<open>The server signature key of the process: nothing in AEM-Storage ever sets it.\<close>

definition storage_ssk :: "byte list" where "storage_ssk = replicate 32 0"

definition AEM_WELCOME :: "byte list" where
  "AEM_WELCOME = str ''Welcome to All-Ears Mail'' @ [10] @
     str ''This is the default welcome message in All-Ears Mail.''"

definition AEM_MSG_STORAGE_EMPTY :: "byte list" where
  "AEM_MSG_STORAGE_EMPTY = str ''Storage emptied'' @ [10] @
     str ''As you requested, your storage has been emptied.'' @ [10] @
     str ''As this is your oldest message now, it can only be deleted by emptying your storage again.'' @
     [10] @ str ''This is an automatically generated system message.''"

definition sysMsg :: "sto_ext \<Rightarrow> sto_env \<Rightarrow> byte list \<Rightarrow> evp_keys \<Rightarrow> evp_res" where
  "sysMsg x e content ek =
     msg2evp (evp_ext.truncate x) (ev_draws e) (ev_pad e)
       (aem_sign_message (evp_ext.truncate x) storage_ssk (ek_usk ek)
         (aem_msg_init (ev_time e) AEM_MSG_TYPE_INT 0 @ [192] @ content)) (ek_pwk ek) None"

definition acc_storage_create ::
  "sto_ext \<Rightarrow> sto_env \<Rightarrow> byte list \<Rightarrow> storage \<Rightarrow> sto_ret \<times> storage" where
  "acc_storage_create x e msg st =
     (if length msg \<noteq> 2 + X25519_PKBYTES then (StoCode IC_ERR, st)
      else let uid = unat ((of_nat (le_read (take 2 msg)) :: u16) AND 4095)
      in if 0 < sl_count (slot st uid) then (StoCode IC_EXIST, st)
      else case sysMsg x e AEM_WELCOME (ev_stray e) of
        Evp_Null \<Rightarrow> (StoCode IC_ERR, st)
      | Evp_Loop \<Rightarrow> (StoLoop, st)
      | Evp wm \<Rightarrow>
          if \<not> ev_open e \<or> msg_file st uid \<noteq> None then (StoCode IC_ERR, st)
          else let st1 = put_file uid (Some (take (ev_write e) wm)) st
               in if ev_write e < length wm then (StoCode IC_ERR, st1)
                  else (StoCode IC_OK, saveStindex x e (set_slot uid
                    \<lparr>sl_count = 1, sl_bc = [evp_blocks (length wm)], sl_id = [0]\<rparr> st1)))"

definition acc_storage_delete ::
  "sto_ext \<Rightarrow> sto_env \<Rightarrow> byte list \<Rightarrow> storage \<Rightarrow> sto_ret \<times> storage" where
  "acc_storage_delete x e msg st =
     (if length msg \<noteq> 2 then (StoCode IC_ERR, st)
      else let uid = le_read msg
      in if uid > 4095 then (StoCode IC_ERR, st)
      else let gone = (\<lambda>s. if ev_unlink e then put_file uid None s else s)
      in if sl_count (slot st uid) = 0 then (StoCode IC_OK, gone st)
      else let st1 = saveStindex x e (set_slot uid empty_slot st)
           in if ev_unlink e \<and> msg_file st1 uid \<noteq> None then (StoCode IC_OK, gone st1)
              else (StoCode IC_ERR, st1))"

definition acc_storage_limits :: "byte list \<Rightarrow> storage \<Rightarrow> sto_ret \<times> storage" where
  "acc_storage_limits new st =
     (if length new \<noteq> 4 then (StoCode IC_ERR, st)
      else (StoCode IC_OK, st\<lparr>sto_limits := new\<rparr>))"

section \<open>Browsing\<close>

definition evp_size :: "u16 \<Rightarrow> nat" where
  "evp_size bc = (unat bc + AEM_EVP_MINBLOCKS) * AEM_EVP_BLOCKSIZE"

definition browse_infoBytes :: "sto_slot \<Rightarrow> byte list" where
  "browse_infoBytes sl =
     le_bytes 2 (unat (sl_count sl)) @
     le_bytes 4 (unat (sum_list (map (\<lambda>bc. of_nat (unat bc + AEM_EVP_MINBLOCKS) :: u32)
       (take (unat (sl_count sl)) (sl_bc sl)))))"

text \<open>The search for the requested identifier, from the newest message down.\<close>

fun find_id :: "u16 list \<Rightarrow> u16 \<Rightarrow> nat \<Rightarrow> nat option" where
  "find_id ids reqId 0 = None"
| "find_id ids reqId (Suc i) = (if ids ! i = reqId then Some i else find_id ids reqId i)"

text \<open>The loop that goes back until the envelopes no longer fit a response.\<close>

fun back_up :: "u16 list \<Rightarrow> nat \<Rightarrow> nat \<Rightarrow> nat" where
  "back_up bc lenTotal 0 = 0"
| "back_up bc lenTotal (Suc i) =
     (let lenTotal = lenTotal + evp_size (bc ! Suc i)
      in if lenTotal > AEM_EVP_MAXSIZE then Suc (Suc i) else back_up bc lenTotal i)"

fun fit_count :: "nat \<Rightarrow> u16 list \<Rightarrow> nat" where
  "fit_count evpBytes [] = 0"
| "fit_count evpBytes (bc # bcs) =
     (if evpBytes + evp_size bc > AEM_EVP_MAXSIZE then 0
      else Suc (fit_count (evpBytes + evp_size bc) bcs))"

definition evp_total :: "u16 list \<Rightarrow> nat" where
  "evp_total bcs = sum_list (map evp_size bcs)"

definition browse_response :: "sto_env \<Rightarrow> storage \<Rightarrow> nat \<Rightarrow> nat \<Rightarrow> sto_ret" where
  "browse_response e st uid startNum =
     (let sl = slot st uid;
          live = take (unat (sl_count sl)) (sl_bc sl);
          readPos = evp_total (take startNum live);
          evpCount = fit_count 0 (drop startNum live);
          chosen = take evpCount (drop startNum live);
          evpBytes = evp_total chosen
      in case open_msg e st uid of
           None \<Rightarrow> StoCode IC_ERR
         | Some f \<Rightarrow>
             let bytes = take (min evpBytes (ev_read e)) (drop readPos f)
             in if length bytes \<noteq> evpBytes \<and> length bytes < AEM_EVP_MINBLOCKS * AEM_EVP_BLOCKSIZE
                then StoCode IC_ERR
                else StoData (browse_infoBytes sl @ le_bytes 2 evpCount @ u16_bytes chosen @ bytes @
                  map (ev_heap e) [0..<evpBytes - length bytes]))"

definition sto_message_browse :: "sto_env \<Rightarrow> byte list \<Rightarrow> bool \<Rightarrow> storage \<Rightarrow> sto_ret" where
  "sto_message_browse e req newer st =
     (if length req \<noteq> 2 \<and> length req \<noteq> 4 then StoCode IC_USAGE
      else let uid = le_read (take 2 req)
      in if uid \<ge> AEM_USERCOUNT then StoUndef
      else let n = unat (sl_count (slot st uid)); bc = sl_bc (slot st uid)
      in if length req = 4 then
           (case find_id (sl_id (slot st uid)) (of_nat (le_read (drop 2 req))) n of
              None \<Rightarrow> StoCode IC_NOTEXIST
            | Some k \<Rightarrow>
                if newer then
                  (if Suc k = n then StoCode IC_OK else browse_response e st uid (Suc k))
                else if k = 0 then StoCode IC_OK
                else browse_response e st uid (back_up bc 0 (k - 1)))
         else if newer then
           (if n = 0 then StoUndef else browse_response e st uid (back_up bc 0 (n - 1)))
         else browse_response e st uid 0)"

section \<open>Deleting, writing and emptying\<close>

text \<open>\<^verbatim>\<open>memmove\<close> of the \<open>n - i - 1\<close> entries behind entry \<open>i\<close> onto it.\<close>

definition move_down :: "nat \<Rightarrow> nat \<Rightarrow> 'a list \<Rightarrow> 'a list" where
  "move_down n i xs = take i xs @ take (n - i - 1) (drop (Suc i) xs) @ drop (n - 1) xs"

text \<open>\<^verbatim>\<open>pwrite\<close> at a position inside a file.\<close>

definition pwrite_at :: "nat \<Rightarrow> byte list \<Rightarrow> byte list \<Rightarrow> byte list" where
  "pwrite_at pos bytes f = take pos f @ bytes @ drop (pos + length bytes) f"

fun first_id :: "u16 list \<Rightarrow> u16 \<Rightarrow> nat option" where
  "first_id [] delId = None"
| "first_id (k # ks) delId = (if k = delId then Some 0 else map_option Suc (first_id ks delId))"

definition storage_delete ::
  "sto_ext \<Rightarrow> sto_env \<Rightarrow> nat \<Rightarrow> u16 \<Rightarrow> storage \<Rightarrow> sto_ret \<times> storage" where
  "storage_delete x e uid delId st =
     (case open_msg e st uid of
        None \<Rightarrow> (StoCode IC_ERR, st)
      | Some f \<Rightarrow>
          let sl = slot st uid; n = unat (sl_count sl); live = take n (sl_bc sl)
          in if length f \<noteq> evp_total live then (StoCode IC_ERR, st)
          else case first_id (take n (sl_id sl)) delId of
                 None \<Rightarrow> (StoCode IC_NOTEXIST, st)
               | Some i \<Rightarrow>
                   let filePos = evp_total (take i live); evpBytes = evp_size (live ! i)
                   in if i = n - 1 then
                        (if \<not> ev_trunc e then (StoCode IC_ERR, st)
                         else (StoCode IC_OK, saveStindex x e (set_slot uid
                           (sl\<lparr>sl_count := sl_count sl - 1\<rparr>)
                           (put_file uid (Some (take (length f - evpBytes) f)) st))))
                      else
                        let szOverwrite = length f - filePos - evpBytes;
                            tmp = drop (filePos + evpBytes) f
                        in if ev_read e < szOverwrite then (StoCode IC_ERR, st)
                        else let f1 = pwrite_at filePos (take (ev_pwrite e) tmp) f
                        in if ev_pwrite e < szOverwrite \<or> \<not> ev_trunc e
                           then (StoCode IC_ERR, put_file uid (Some f1) st)
                        else (StoCode IC_OK, saveStindex x e (set_slot uid
                          \<lparr>sl_count = sl_count sl - 1, sl_bc = move_down n i (sl_bc sl),
                           sl_id = move_down n i (sl_id sl)\<rparr>
                          (put_file uid (Some (take (length f - evpBytes) f1)) st))))"

definition storage_write ::
  "sto_ext \<Rightarrow> sto_env \<Rightarrow> byte list \<Rightarrow> nat \<Rightarrow> storage \<Rightarrow> sto_ret \<times> storage" where
  "storage_write x e msg uid st =
     (let sl = slot st uid; n = unat (sl_count sl) in
      if length msg < AEM_EVP_MINBLOCKS * AEM_EVP_BLOCKSIZE \<or> length msg > AEM_MSG_W_MAXSIZE
      then (StoCode IC_ERR, st)
      else if n = 0 then (StoCode IC_ERR, st)
      else case ev_keys e of
        None \<Rightarrow> (StoCode IC_ERR, st)
      | Some ek \<Rightarrow>
        (case msg2evp (evp_ext.truncate x) (ev_draws e) (ev_pad e)
            (aem_sign_message (evp_ext.truncate x) storage_ssk (ek_usk ek) msg) (ek_pwk ek)
            (Some (take n (sl_id sl))) of
          Evp_Null \<Rightarrow> (StoCode IC_ERR, st)
        | Evp_Loop \<Rightarrow> (StoLoop, st)
        | Evp evp \<Rightarrow>
            let evpId = getEnvelopeId evp;
                newBc = evp_blocks (length evp);
                sl1 = sl\<lparr>sl_bc := take n (sl_bc sl) @ [newBc], sl_id := take n (sl_id sl) @ [evpId]\<rparr>;
                st1 = set_slot uid sl1 st
            in case open_msg e st uid of
                 None \<Rightarrow> (StoCode IC_ERR, st1)
               | Some f \<Rightarrow>
                   let evpBytes = evp_size newBc;
                       st2 = put_file uid (Some (f @ take (min evpBytes (ev_write e)) evp)) st1
                   in if ev_write e < evpBytes then (StoCode IC_ERR, st2)
                      else (StoNum (int (unat evpId) - 65536), saveStindex x e
                        (set_slot uid (sl1\<lparr>sl_count := sl_count sl + 1\<rparr>) st2))))"

definition storage_empty :: "sto_ext \<Rightarrow> sto_env \<Rightarrow> nat \<Rightarrow> storage \<Rightarrow> sto_ret \<times> storage" where
  "storage_empty x e uid st =
     (case ev_keys e of
        None \<Rightarrow> (StoCode IC_ERR, st)
      | Some ek \<Rightarrow>
        (case sysMsg x e AEM_MSG_STORAGE_EMPTY ek of
          Evp_Null \<Rightarrow> (StoCode IC_ERR, st)
        | Evp_Loop \<Rightarrow> (StoLoop, st)
        | Evp evp \<Rightarrow>
            (case open_msg e st uid of
               None \<Rightarrow> (StoCode IC_ERR, st)
             | Some _ \<Rightarrow>
                 let sl = slot st uid; n = unat (sl_count sl);
                     st1 = put_file uid (Some (take (ev_write e) evp)) st
                 in if ev_write e < length evp then (StoCode IC_ERR, st1)
                    else if sl_bc sl = [] \<or> sl_id sl = [] then (StoUndef, st1)
                    else (StoCode IC_OK, saveStindex x e (set_slot uid
                      \<lparr>sl_count = 1,
                       sl_bc = (replicate n 0 @ drop n (sl_bc sl))[0 := evp_blocks (length evp)],
                       sl_id = (replicate n 0 @ drop n (sl_id sl))[0 := 0]\<rparr> st1)))))"

section \<open>The entry points (\<^verbatim>\<open>src/storage/IntCom_Action.c\<close>)\<close>

definition sto_conn_acc ::
  "sto_ext \<Rightarrow> sto_env \<Rightarrow> nat \<Rightarrow> byte list \<Rightarrow> storage \<Rightarrow> sto_ret \<times> storage" where
  "sto_conn_acc x e operation msg st =
     (if operation = 4 then (acc_storage_amount st, st)
      else if operation = 1 then acc_storage_create x e msg st
      else if operation = 2 then acc_storage_delete x e msg st
      else if operation = 3 then acc_storage_limits msg st
      else (StoCode IC_ERR, st))"

definition sto_conn_api ::
  "sto_ext \<Rightarrow> sto_env \<Rightarrow> nat \<Rightarrow> byte list \<Rightarrow> storage \<Rightarrow> sto_ret \<times> storage" where
  "sto_conn_api x e operation msg st =
     (if operation = 65535 then (sto_message_browse e msg True st, st)
      else if operation = 65534 then (sto_message_browse e msg False st, st)
      else if operation < AEM_USERCOUNT then storage_write x e msg operation st
      else if operation - AEM_USERCOUNT < AEM_USERCOUNT \<and> length msg = 2
      then storage_delete x e (operation - AEM_USERCOUNT) (of_nat (le_read msg)) st
      else if operation - AEM_USERCOUNT < AEM_USERCOUNT \<and> length msg = 1
      then storage_empty x e (operation - AEM_USERCOUNT) st
      else (StoCode IC_ERR, st))"

definition sto_conn_dlv ::
  "sto_ext \<Rightarrow> sto_env \<Rightarrow> nat \<Rightarrow> byte list \<Rightarrow> storage \<Rightarrow> sto_ret \<times> storage" where
  "sto_conn_dlv x e operation msg st =
     (if operation < AEM_USERCOUNT then storage_write x e msg operation st
      else (StoCode IC_ERR, st))"

text \<open>A request of any of the three clients, as a step of the server.\<close>

datatype sto_client = From_Acc | From_Api | From_Dlv

definition sto_request ::
  "sto_ext \<Rightarrow> sto_client \<times> sto_env \<times> nat \<times> byte list \<Rightarrow> storage \<Rightarrow> sto_ret \<times> storage" where
  "sto_request x r st =
     (case r of (c, e, operation, msg) \<Rightarrow>
        (case c of From_Acc \<Rightarrow> sto_conn_acc x e operation msg st
         | From_Api \<Rightarrow> sto_conn_api x e operation msg st
         | From_Dlv \<Rightarrow> sto_conn_dlv x e operation msg st))"

end
