(* ===== verification/Storage_Spec.thy ===== *)
theory Storage_Spec
  imports Storage_IO
begin

text \<open>
  What AEM-Storage promises: a mailbox is a list of pairs of an identifier and an envelope, oldest
  first.  \<open>stores st uid box\<close> is the refinement relation: the slot and the file of the user together
  represent the mailbox.  Writing appends, deleting removes the one entry with the identifier,
  emptying leaves one system message, browsing returns a segment; nothing touches other users.
\<close>

type_synonym mailbox = "(u16 \<times> byte list) list"

section \<open>The parts of the state\<close>

lemma slot_set_slot [simp]:
  "slot (set_slot u sl st) v = (if u = v \<and> u < length (stindex st) then sl else slot st v)"
  by (cases "u = v") (auto simp: slot_def set_slot_def list_update_beyond)

lemma slot_put_file [simp]: "slot (put_file u f st) v = slot st v"
  by (simp add: slot_def put_file_def)

lemma saveStindex_frame [simp]:
  "stindex (saveStindex x e st) = stindex st" "eid_chars (saveStindex x e st) = eid_chars st"
  "msg_files (saveStindex x e st) = msg_files st" "sto_limits (saveStindex x e st) = sto_limits st"
  "sto_sbk (saveStindex x e st) = sto_sbk st"
  by (simp_all add: saveStindex_def Let_def split: option.splits)

lemma slot_saveStindex [simp]: "slot (saveStindex x e st) v = slot st v"
  by (simp add: slot_def)

lemma set_slot_frame [simp]:
  "eid_chars (set_slot u sl st) = eid_chars st" "msg_files (set_slot u sl st) = msg_files st"
  "length (stindex (set_slot u sl st)) = length (stindex st)"
  by (simp_all add: set_slot_def)

lemma put_file_frame [simp]:
  "eid_chars (put_file u f st) = eid_chars st" "stindex (put_file u f st) = stindex st"
  by (simp_all add: put_file_def)

lemma sto_path_frame [simp]:
  "sto_path (saveStindex x e st) v = sto_path st v" "sto_path (set_slot u sl st) v = sto_path st v"
  "sto_path (put_file u f st) v = sto_path st v"
  by (simp_all add: sto_path_def)

lemma msg_file_frame [simp]:
  "msg_file (saveStindex x e st) v = msg_file st v" "msg_file (set_slot u sl st) v = msg_file st v"
  by (simp_all add: msg_file_def)

lemma msg_file_put [simp]:
  "msg_file (put_file u f st) v = (if sto_path st u = sto_path st v then f else msg_file st v)"
  unfolding msg_file_def by (simp add: put_file_def sto_path_def)

lemma sto_path_inj:
  assumes "distinct (eid_chars st)" "length (eid_chars st) = 64" "u < 4096" "v < 4096"
    "sto_path st u = sto_path st v"
  shows "u = v"
proof -
  have idx: "i = j" if "eid_chars st ! i = eid_chars st ! j" "i < 64" "j < 64" for i j
    using that assms(1,2) by (simp add: nth_eq_iff_index_eq)
  have "u mod 64 = v mod 64" "u div 64 mod 64 = v div 64 mod 64"
    using assms(5) by (auto simp: sto_path_def intro!: idx)
  moreover have "u div 64 mod 64 = u div 64" "v div 64 mod 64 = v div 64" using assms(3,4) by auto
  ultimately show ?thesis by (metis div_mult_mod_eq)
qed

section \<open>Encoded user numbers are distinct\<close>

lemma eid_loop_distinct:
  assumes "\<And>v. v < 64 \<Longrightarrow> v \<in> set src" "set src \<subseteq> {..<64}" "set done \<subseteq> {..<64}" "distinct done"
    "length done + k = 64"
  shows "distinct (eid_loop k src done) \<and> length (eid_loop k src done) = k \<and>
    set (eid_loop k src done) \<subseteq> (!) b64_set ` ({..<64} - set done)"
  using assms
proof (induction k arbitrary: "done")
  case (Suc k)
  have card: "card (set done) < 64" using Suc.prems(4,5) by (simp add: distinct_card)
  have "\<not> {..<64} \<subseteq> set done"
  proof
    assume "{..<64} \<subseteq> set done"
    then have "card {..<64 :: nat} \<le> card (set done)" by (intro card_mono) simp_all
    with card show False by simp
  qed
  then obtain w where "w < 64" "w \<notin> set done" by auto
  then have "eid_round src done \<noteq> None"
    using Suc.prems(1) by (auto simp: eid_round_def find_None_iff)
  then obtain v where v: "eid_round src done = Some v" by auto
  then have vp: "v \<in> set src" "v \<notin> set done"
    using find_SomeD unfolding eid_round_def by fast+
  then have v64: "v < 64" using Suc.prems(2) by auto
  have ih: "distinct (eid_loop k src (v # done)) \<and> length (eid_loop k src (v # done)) = k \<and>
      set (eid_loop k src (v # done)) \<subseteq> (!) b64_set ` ({..<64} - set (v # done))"
    by (rule Suc.IH) (use Suc.prems vp v64 in auto)
  have b64: "distinct b64_set" "length b64_set = 64" by (simp_all add: b64_set_def str_def)
  have "b64_set ! v \<notin> (!) b64_set ` ({..<64} - set (v # done))"
    using b64 v64 by (auto simp: nth_eq_iff_index_eq)
  then show ?case using ih v v64 vp(2) by auto
qed simp

lemma byte_and63: "unat (b AND (63 :: byte)) < 64"
proof -
  have "b AND 63 \<le> 63" by (rule word_and_le1)
  then have "unat (b AND 63) \<le> unat (63 :: byte)" by (rule word_le_nat_alt [THEN iffD1])
  then show ?thesis by simp
qed

lemma eidSetup_distinct:
  assumes "\<And>v. v < 64 \<Longrightarrow> v \<in> set (eid_src x (sto_sbk st))"
  shows "distinct (eid_chars (eidSetup x st)) \<and> length (eid_chars (eidSetup x st)) = 64"
proof -
  have "set (eid_src x (sto_sbk st)) \<subseteq> {..<64}" using byte_and63 by (auto simp: eid_src_def)
  then show ?thesis
    using eid_loop_distinct [of "eid_src x (sto_sbk st)" "[]" 64] assms by (simp add: eidSetup_def)
qed

section \<open>The invariant of the index\<close>

definition slot_ok :: "sto_slot \<Rightarrow> bool" where
  "slot_ok sl \<longleftrightarrow> unat (sl_count sl) \<le> length (sl_bc sl) \<and> unat (sl_count sl) \<le> length (sl_id sl) \<and>
     distinct (take (unat (sl_count sl)) (sl_id sl))"

definition storage_inv :: "storage \<Rightarrow> bool" where
  "storage_inv st \<longleftrightarrow> length (stindex st) = AEM_USERCOUNT \<and> distinct (eid_chars st) \<and>
     length (eid_chars st) = 64 \<and> list_all slot_ok (stindex st)"

lemma slot_ok_empty [simp]: "slot_ok empty_slot"
  by (simp add: slot_ok_def empty_slot_def)

lemma storage_inv_slot: "storage_inv st \<Longrightarrow> uid < AEM_USERCOUNT \<Longrightarrow> slot_ok (slot st uid)"
  by (simp add: storage_inv_def slot_def list_all_length)

lemma storage_inv_save [simp]: "storage_inv (saveStindex x e st) = storage_inv st"
  by (simp add: storage_inv_def)

lemma storage_inv_put [simp]: "storage_inv (put_file u f st) = storage_inv st"
  by (simp add: storage_inv_def)

lemma nth_update_keeps: "P x \<Longrightarrow> P (xs ! n) \<Longrightarrow> P (xs[u := x] ! n)"
  by (cases "u = n"; cases "u < length xs") (simp_all add: list_update_beyond)

lemma storage_inv_set [intro]: "storage_inv st \<Longrightarrow> slot_ok sl \<Longrightarrow> storage_inv (set_slot u sl st)"
  by (auto simp: storage_inv_def set_slot_def list_all_length intro: nth_update_keeps)

lemma unat_dec: "0 < unat (c :: u16) \<Longrightarrow> unat (c - 1) = unat c - 1"
  by (simp add: unat_minus_one unat_gt_0)

lemma unat_inc: "unat (c :: u16) < 65535 \<Longrightarrow> unat (c + 1) = unat c + 1"
  by (simp add: unat_word_ariths)

lemma unat_inc_le: "unat ((c :: u16) + 1) \<le> unat c + 1"
  by (simp add: unat_word_ariths)

lemma length_move_down [len_simps]:
  "i < n \<Longrightarrow> n \<le> length xs \<Longrightarrow> length (move_down n i xs) = length xs"
  by (simp add: move_down_def)

lemma take_exact: "length ys = n \<Longrightarrow> take n (ys @ zs) = ys"
  by simp

lemma take_move_down:
  "i < n \<Longrightarrow> n \<le> length xs \<Longrightarrow>
   take (n - 1) (move_down n i xs) = take i (take n xs) @ drop (Suc i) (take n xs)"
proof -
  assume h: "i < n" "n \<le> length xs"
  then have "length (take i xs @ take (n - i - 1) (drop (Suc i) xs)) = n - 1" by simp
  then have "take (n - 1) (move_down n i xs) = take i xs @ take (n - i - 1) (drop (Suc i) xs)"
    unfolding move_down_def append_assoc [symmetric] by (rule take_exact)
  then show ?thesis using h by (simp add: drop_take min_def)
qed

lemma first_id_None: "first_id ks d = None \<longleftrightarrow> d \<notin> set ks"
  by (induction ks) auto

lemma first_id_Some:
  "first_id ks d = Some i \<Longrightarrow> i < length ks \<and> ks ! i = d \<and> d \<notin> set (take i ks)"
  by (induction ks arbitrary: i) (auto split: if_splits)

lemma distinct_take_le: "distinct (take n xs) \<Longrightarrow> m \<le> n \<Longrightarrow> distinct (take m xs)"
  by (metis distinct_take min.absorb1 take_take)

text \<open>The four ways a slot changes.\<close>

lemma slot_ok_one: "slot_ok \<lparr>sl_count = 1, sl_bc = [b], sl_id = [i]\<rparr>"
  by (simp add: slot_ok_def)

lemma slot_ok_append:
  assumes "slot_ok sl" "i \<notin> set (take (unat (sl_count sl)) (sl_id sl))"
    "unat c \<le> unat (sl_count sl) + 1"
  shows "slot_ok \<lparr>sl_count = c, sl_bc = take (unat (sl_count sl)) (sl_bc sl) @ [b],
    sl_id = take (unat (sl_count sl)) (sl_id sl) @ [i]\<rparr>"
proof -
  have "distinct (take (unat (sl_count sl)) (sl_id sl) @ [i])" using assms by (simp add: slot_ok_def)
  then have "distinct (take (unat c) (take (unat (sl_count sl)) (sl_id sl) @ [i]))"
    by (rule distinct_take)
  then show ?thesis using assms(1,3) by (simp add: slot_ok_def)
qed

lemma slot_ok_shorter:
  assumes "slot_ok sl" "0 < unat (sl_count sl)"
  shows "slot_ok (sl\<lparr>sl_count := sl_count sl - 1\<rparr>)"
  using assms by (auto simp: slot_ok_def unat_dec intro: distinct_take_le)

lemma slot_ok_move_down:
  assumes "slot_ok sl" "i < unat (sl_count sl)"
  shows "slot_ok \<lparr>sl_count = sl_count sl - 1, sl_bc = move_down (unat (sl_count sl)) i (sl_bc sl),
    sl_id = move_down (unat (sl_count sl)) i (sl_id sl)\<rparr>"
proof -
  let ?n = "unat (sl_count sl)"
  have "distinct (take i (take ?n (sl_id sl)) @ drop (Suc i) (take ?n (sl_id sl)))"
    using assms unfolding slot_ok_def
    by (metis (no_types) distinct_append distinct_drop distinct_take set_take_disj_set_drop_if_distinct
        le_SucI order_refl)
  then show ?thesis
    using assms
    by (auto simp add: slot_ok_def unat_dec len_simps take_move_down [simplified] intro: le_trans [OF diff_le_self])
qed

lemma distinct_short: "length xs \<le> Suc 0 \<Longrightarrow> distinct xs"
  by (cases xs) simp_all

lemma slot_ok_single:
  "bc \<noteq> [] \<Longrightarrow> ids \<noteq> [] \<Longrightarrow> unat c \<le> length bc \<Longrightarrow> unat c \<le> length ids \<Longrightarrow>
   slot_ok \<lparr>sl_count = 1, sl_bc = (replicate (unat c) 0 @ drop (unat c) bc)[0 := b],
     sl_id = (replicate (unat c) 0 @ drop (unat c) ids)[0 := i]\<rparr>"
  by (cases bc; cases ids) (auto simp: slot_ok_def Suc_le_eq intro!: distinct_short)

section \<open>Every operation keeps the invariant\<close>

lemma sto_create_inv: "storage_inv st \<Longrightarrow> storage_inv (snd (acc_storage_create x e msg st))"
  by (auto simp: acc_storage_create_def Let_def slot_ok_one split: evp_res.split)

lemma delete_account_inv: "storage_inv st \<Longrightarrow> storage_inv (snd (acc_storage_delete x e msg st))"
  by (auto simp: acc_storage_delete_def Let_def)

lemma limits_inv: "storage_inv st \<Longrightarrow> storage_inv (snd (acc_storage_limits new st))"
  by (simp add: acc_storage_limits_def storage_inv_def)

lemma storage_delete_inv:
  assumes "storage_inv st" "uid < AEM_USERCOUNT"
  shows "storage_inv (snd (storage_delete x e uid d st))"
proof -
  note ok = storage_inv_slot [OF assms]
  have i: "i < unat (sl_count (slot st uid))"
    if "first_id (take (unat (sl_count (slot st uid))) (sl_id (slot st uid))) d = Some i" for i
    using first_id_Some [OF that] by simp
  show ?thesis
    unfolding storage_delete_def Let_def
    by (auto simp: assms(1) split: option.split intro!: slot_ok_shorter slot_ok_move_down ok dest!: i)
qed

lemma storage_write_inv:
  assumes "storage_inv st" "uid < AEM_USERCOUNT" "evp_ok (evp_ext.truncate x)"
  shows "storage_inv (snd (storage_write x e msg uid st))"
proof -
  let ?sl = "slot st uid"
  let ?sl1 = "\<lambda>c evp. \<lparr>sl_count = c, sl_bc = take (unat (sl_count ?sl)) (sl_bc ?sl) @ [evp_blocks (length evp)],
       sl_id = take (unat (sl_count ?sl)) (sl_id ?sl) @ [getEnvelopeId evp]\<rparr>"
  have upd: "?sl\<lparr>sl_bc := b, sl_id := i\<rparr> = \<lparr>sl_count = sl_count ?sl, sl_bc = b, sl_id = i\<rparr>" for b i
    by simp
  have ok: "slot_ok (?sl1 c evp)"
    if "msg2evp (evp_ext.truncate x) (ev_draws e) (ev_pad e) m k
          (Some (take (unat (sl_count ?sl)) (sl_id ?sl))) = Evp evp"
      "c = sl_count ?sl \<or> c = sl_count ?sl + 1" for c evp m k
    using slot_ok_append [OF storage_inv_slot [OF assms(1,2)]] msg2evp_id [OF assms(3) that(1)]
      unat_inc_le [of "sl_count ?sl"] that(2) by (auto simp: evp_fits_def)
  show ?thesis
    unfolding storage_write_def Let_def
    by (auto simp: assms(1) upd split: option.split evp_res.split intro!: storage_inv_set ok)
qed

lemma storage_empty_inv:
  assumes "storage_inv st" "uid < AEM_USERCOUNT"
  shows "storage_inv (snd (storage_empty x e uid st))"
proof -
  note ok = storage_inv_slot [OF assms, unfolded slot_ok_def]
  show ?thesis
    unfolding storage_empty_def Let_def
    by (auto simp: assms(1) ok split: option.split evp_res.split intro!: slot_ok_single)
qed

lemma conn_acc_inv: "storage_inv st \<Longrightarrow> storage_inv (snd (sto_conn_acc x e op m st))"
  by (simp add: sto_conn_acc_def sto_create_inv delete_account_inv limits_inv)

lemma conn_api_inv:
  "storage_inv st \<Longrightarrow> evp_ok (evp_ext.truncate x) \<Longrightarrow> storage_inv (snd (sto_conn_api x e op m st))"
  by (simp add: sto_conn_api_def storage_delete_inv storage_write_inv storage_empty_inv)

lemma conn_dlv_inv:
  "storage_inv st \<Longrightarrow> evp_ok (evp_ext.truncate x) \<Longrightarrow> storage_inv (snd (sto_conn_dlv x e op m st))"
  by (simp add: sto_conn_dlv_def storage_write_inv)

lemma sto_request_inv:
  "storage_inv st \<Longrightarrow> evp_ok (evp_ext.truncate x) \<Longrightarrow> storage_inv (snd (sto_request x r st))"
  by (cases r) (simp add: sto_request_def conn_acc_inv conn_api_inv conn_dlv_inv split: sto_client.split)

end
