(* ===== verification/Storage_Refine.thy ===== *)
theory Storage_Refine
  imports Storage_Spec
begin

text \<open>
  The operations of AEM-Storage on the mailbox a slot and its file represent, when the file system
  does what it is asked.
\<close>

section \<open>The refinement relation\<close>

definition stores :: "storage \<Rightarrow> nat \<Rightarrow> mailbox \<Rightarrow> bool" where
  "stores st uid box \<longleftrightarrow>
     unat (sl_count (slot st uid)) = length box \<and> length box \<le> length (sl_bc (slot st uid)) \<and>
     take (length box) (sl_id (slot st uid)) = map fst box \<and>
     map evp_size (take (length box) (sl_bc (slot st uid))) = map (\<lambda>m. length (snd m)) box \<and>
     msg_file st uid = Some (concat (map snd box))"

definition io_ok :: "nat \<Rightarrow> sto_env \<Rightarrow> bool" where
  "io_ok m e \<longleftrightarrow> ev_open e \<and> ev_trunc e \<and> ev_unlink e \<and> m \<le> ev_read e \<and> m \<le> ev_write e \<and> m \<le> ev_pwrite e"

definition box_bytes :: "mailbox \<Rightarrow> byte list" where
  "box_bytes box = concat (map snd box)"

lemma box_bytes_simps [simp]:
  "box_bytes [] = []" "box_bytes (m # box) = snd m @ box_bytes box"
  "box_bytes (a @ b) = box_bytes a @ box_bytes b"
  by (simp_all add: box_bytes_def)

lemma evp_total_simps [simp]:
  "evp_total [] = 0" "evp_total (b # bs) = evp_size b + evp_total bs"
  "evp_total (as @ bs) = evp_total as + evp_total bs"
  by (simp_all add: evp_total_def)

lemma evp_total_box:
  "map evp_size bcs = map (\<lambda>m. length (snd m)) box \<Longrightarrow> evp_total bcs = length (box_bytes box)"
  by (simp add: evp_total_def box_bytes_def length_concat comp_def)

text \<open>The live part of the block counts, and what the code computes from it.\<close>

definition live_bc :: "storage \<Rightarrow> nat \<Rightarrow> u16 list" where
  "live_bc st uid = take (unat (sl_count (slot st uid))) (sl_bc (slot st uid))"

lemma stores_live:
  assumes "stores st uid box"
  shows "length (live_bc st uid) = length box"
    and "map evp_size (live_bc st uid) = map (\<lambda>m. length (snd m)) box"
    and "take k (map evp_size (live_bc st uid)) = take k (map (\<lambda>m. length (snd m)) box)"
  using assms by (simp_all add: stores_def live_bc_def)

lemma stores_total_take:
  assumes "stores st uid box"
  shows "evp_total (take k (live_bc st uid)) = length (box_bytes (take k box))"
  by (rule evp_total_box) (simp add: take_map [symmetric] stores_live(2) [OF assms])

lemma stores_total_segment:
  assumes "stores st uid box"
  shows "evp_total (take c (drop k (live_bc st uid))) = length (box_bytes (take c (drop k box)))"
  by (rule evp_total_box) (simp add: take_map [symmetric] drop_map [symmetric] stores_live(2) [OF assms])

lemma stores_size_nth:
  assumes "stores st uid box" "k < length box"
  shows "evp_size (live_bc st uid ! k) = length (snd (box ! k))"
proof -
  have "map evp_size (live_bc st uid) ! k = map (\<lambda>m. length (snd m)) box ! k"
    by (simp add: stores_live(2) [OF assms(1)])
  then show ?thesis using assms stores_live(1) [OF assms(1)] by simp
qed

lemma stores_total:
  assumes "stores st uid box"
  shows "evp_total (live_bc st uid) = length (box_bytes box)"
  using stores_total_take [OF assms, of "length box"] stores_live(1) [OF assms] by simp

lemma stores_save [simp]: "stores (saveStindex x e st) uid box = stores st uid box"
  by (simp add: stores_def)

lemma stores_set:
  "uid < length (stindex st) \<Longrightarrow> stores (set_slot uid sl (put_file uid (Some f) st)) uid box \<longleftrightarrow>
     unat (sl_count sl) = length box \<and> length box \<le> length (sl_bc sl) \<and>
     take (length box) (sl_id sl) = map fst box \<and>
     map evp_size (take (length box) (sl_bc sl)) = map (\<lambda>m. length (snd m)) box \<and>
     f = box_bytes box"
  by (simp add: stores_def box_bytes_def)

section \<open>Deleting\<close>

lemma box_split: "i < length box \<Longrightarrow> box = take i box @ box ! i # drop (Suc i) box"
  by (rule id_take_nth_drop)

lemma filter_one:
  assumes "distinct (map fst box)" "i < length box"
  shows "filter (\<lambda>m. fst m \<noteq> fst (box ! i)) box = take i box @ drop (Suc i) box"
proof -
  have d: "distinct (map fst (take i box @ box ! i # drop (Suc i) box))"
    using assms by (simp flip: box_split)
  have "filter (\<lambda>m. fst m \<noteq> fst (box ! i)) (take i box @ box ! i # drop (Suc i) box) =
      take i box @ drop (Suc i) box"
    using d by (simp, intro arg_cong2 [where f = "(@)"] filter_True) (auto simp: image_iff)
  then show ?thesis using assms(2) by (simp flip: box_split)
qed

lemma map_remove: "map f (take i xs @ drop (Suc i) xs) = take i (map f xs) @ drop (Suc i) (map f xs)"
  by (simp add: take_map drop_map)

lemma storage_delete_at:
  assumes s: "stores st uid box" and io: "io_ok (length (box_bytes box)) e"
    and uid: "uid < length (stindex st)" and i: "first_id (map fst box) d = Some i"
    and id_len: "length box \<le> length (sl_id (slot st uid))"
  shows "fst (storage_delete x e uid d st) = StoCode IC_OK \<and>
    stores (snd (storage_delete x e uid d st)) uid (take i box @ drop (Suc i) box)"
proof -
  let ?sl = "slot st uid" and ?n = "length box" and ?f = "box_bytes box"
  let ?P = "length (box_bytes (take i box))" and ?s = "length (snd (box ! i))"
  have il: "i < ?n" using first_id_Some [OF i] by simp
  have n: "unat (sl_count ?sl) = ?n" and fl: "msg_file st uid = Some ?f"
    and ids: "take ?n (sl_id ?sl) = map fst box"
    and bcs: "map evp_size (take ?n (sl_bc ?sl)) = map (\<lambda>m. length (snd m)) box"
    and bcl: "?n \<le> length (sl_bc ?sl)"
    using s by (simp_all add: stores_def box_bytes_def)
  have live: "take ?n (sl_bc ?sl) = live_bc st uid" by (simp add: live_bc_def n)
  have f: "?f = box_bytes (take i box) @ snd (box ! i) @ box_bytes (drop (Suc i) box)"
    by (subst (1) box_split [OF il]) simp
  have op: "open_msg e st uid = Some ?f" using io fl by (simp add: open_msg_def io_ok_def)
  have num: "evp_total (take i (live_bc st uid)) = ?P" "evp_size (live_bc st uid ! i) = ?s"
    "evp_total (live_bc st uid) = length ?f"
    by (simp_all add: stores_total_take [OF s] stores_size_nth [OF s il] stores_total [OF s])
  have dec: "unat (sl_count ?sl - 1) = ?n - 1" 
  proof -
    have "0 < unat (sl_count ?sl)" using n il by linarith
    from unat_dec [OF this] show ?thesis unfolding n .
  qed
  have short: "map evp_size (take i (take ?n (sl_bc ?sl)) @ drop (Suc i) (take ?n (sl_bc ?sl))) =
      map (\<lambda>m. length (snd m)) (take i box @ drop (Suc i) box)"
    "take i (take ?n (sl_id ?sl)) @ drop (Suc i) (take ?n (sl_id ?sl)) =
      map fst (take i box @ drop (Suc i) box)"
    unfolding map_remove by (simp_all add: bcs ids)
  show ?thesis
  proof (cases "i = ?n - 1")
    case True
    have last: "drop (Suc i) box = []" "length ?f - ?s = ?P" "Suc i = ?n" using True il f by simp_all
    have tk: "take (length ?f - ?s) ?f = box_bytes (take i box)" unfolding last(2) by (subst f) simp
    have "fst (storage_delete x e uid d st) = StoCode IC_OK \<and>
        snd (storage_delete x e uid d st) = saveStindex x e (set_slot uid
          (?sl\<lparr>sl_count := sl_count ?sl - 1\<rparr>) (put_file uid (Some (box_bytes (take i box))) st))"
      using io by (simp add: storage_delete_def op Let_def n live num i ids io_ok_def tk
          True [symmetric, simplified])
    then show ?thesis
      using short dec bcl id_len last True il
      by (simp add: stores_set uid min_def take_map)
  next
    case False
    let ?tmp = "box_bytes (drop (Suc i) box)"
    have tmp: "drop (?P + ?s) ?f = ?tmp" "length ?f - ?P - ?s = length ?tmp"
      by (subst f, simp)+
    have big: "length ?tmp \<le> length ?f" using arg_cong [OF f, of length] by simp
    have bnd: "length ?f - k \<le> ev_read e" "length ?f - k \<le> ev_pwrite e" for k
      using io by (auto simp: io_ok_def intro: le_trans [OF diff_le_self])
    have pw: "take (length ?f - ?s) (pwrite_at ?P ?tmp ?f) = box_bytes (take i box) @ ?tmp"
      unfolding pwrite_at_def by (subst (1 2 3) f) simp
    have "fst (storage_delete x e uid d st) = StoCode IC_OK \<and>
        snd (storage_delete x e uid d st) = saveStindex x e (set_slot uid
          \<lparr>sl_count = sl_count ?sl - 1, sl_bc = move_down ?n i (sl_bc ?sl),
            sl_id = move_down ?n i (sl_id ?sl)\<rparr>
          (put_file uid (Some (box_bytes (take i box) @ ?tmp)) st))"
      using io False il big
      by (simp add: storage_delete_def op Let_def n live num i ids io_ok_def tmp pw not_less bnd)
    then show ?thesis
      using short dec bcl id_len il take_move_down [OF il bcl] take_move_down [OF il id_len]
      by (simp add: stores_set uid len_simps)
  qed
qed

section \<open>Writing\<close>

lemma storage_write_at:
  assumes s: "stores st uid box" and uid: "uid < length (stindex st)" and n: "box \<noteq> []" "length box < 65535"
    and x: "evp_ok (evp_ext.truncate x)" and io: "io_ok AEM_EVP_MAXSIZE e"
    and len: "AEM_EVP_MINBLOCKS * AEM_EVP_BLOCKSIZE \<le> length msg" "length msg \<le> AEM_MSG_W_MAXSIZE"
    and ek: "ev_keys e = Some ek"
    and evp: "msg2evp (evp_ext.truncate x) (ev_draws e) (ev_pad e)
      (aem_sign_message (evp_ext.truncate x) storage_ssk (ek_usk ek) msg) (ek_pwk ek)
      (Some (map fst box)) = Evp evp"
  shows "fst (storage_write x e msg uid st) = StoNum (int (unat (getEnvelopeId evp)) - 65536) \<and>
    stores (snd (storage_write x e msg uid st)) uid (box @ [(getEnvelopeId evp, evp)])"
proof -
  let ?sl = "slot st uid" and ?n = "length box" and ?f = "box_bytes box"
  have cnt: "unat (sl_count ?sl) = ?n" and fl: "msg_file st uid = Some ?f"
    and ids: "take ?n (sl_id ?sl) = map fst box"
    and bcs: "map evp_size (take ?n (sl_bc ?sl)) = map (\<lambda>m. length (snd m)) box"
    and bcl: "?n \<le> length (sl_bc ?sl)"
    using s by (simp_all add: stores_def box_bytes_def)
  have inc: "unat (sl_count ?sl + 1) = ?n + 1" using cnt n by (simp add: unat_inc)
  have el: "length evp mod 32 = 0" "96 \<le> length evp" "length evp \<le> AEM_EVP_MAXSIZE"
    using msg2evp_length [OF x evp] by simp_all
  then have size: "evp_size (evp_blocks (length evp)) = length evp"
    using evp_blocks_unat by (simp add: evp_size_def evp_consts)
  have op: "open_msg e st uid = Some ?f" "open_msg e (set_slot uid sl st) uid = Some ?f" for sl
    using io fl by (simp_all add: open_msg_def io_ok_def)
  let ?b = "take ?n (sl_bc ?sl) @ [evp_blocks (length evp)]" and ?i = "map fst box @ [getEnvelopeId evp]"
  have full: "\<not> ev_write e < length evp" "min (length evp) (ev_write e) = length evp"
    using io el(3) by (simp_all add: io_ok_def)
  have upd: "sl\<lparr>sl_bc := b, sl_id := i\<rparr> = \<lparr>sl_count = sl_count sl, sl_bc = b, sl_id = i\<rparr>"
    "sl\<lparr>sl_bc := b, sl_id := i, sl_count := c\<rparr> = \<lparr>sl_count = c, sl_bc = b, sl_id = i\<rparr>"
    for sl :: sto_slot and b i c by simp_all
  have "storage_write x e msg uid st = (StoNum (int (unat (getEnvelopeId evp)) - 65536),
      saveStindex x e (set_slot uid \<lparr>sl_count = sl_count ?sl + 1, sl_bc = ?b, sl_id = ?i\<rparr>
        (put_file uid (Some (?f @ evp)) (set_slot uid \<lparr>sl_count = sl_count ?sl, sl_bc = ?b, sl_id = ?i\<rparr> st))))"
    using len n by (simp add: storage_write_def Let_def cnt ek ids evp op size full upd)
  then show ?thesis
    using inc bcl bcs uid by (simp add: stores_set size)
qed

section \<open>Browsing\<close>

lemma browse_response_at:
  assumes s: "stores st uid box" and io: "io_ok AEM_EVP_MAXSIZE e"
    and c: "c = fit_count 0 (drop k (live_bc st uid))"
    and fits: "length (box_bytes (take c (drop k box))) \<le> AEM_EVP_MAXSIZE"
  shows "browse_response e st uid k = StoData (browse_infoBytes (slot st uid) @ le_bytes 2 c @
    u16_bytes (take c (drop k (live_bc st uid))) @ box_bytes (take c (drop k box)))"
proof -
  let ?f = "box_bytes box"
  have op: "open_msg e st uid = Some ?f"
    using s io by (simp add: stores_def open_msg_def io_ok_def box_bytes_def)
  let ?seg = "box_bytes (take c (drop k box))"
  have f: "?f = box_bytes (take k box) @ ?seg @ box_bytes (drop c (drop k box))"
    by (simp only: box_bytes_simps(3) [symmetric] append_take_drop_id)
  have d: "drop (length (box_bytes (take k box))) ?f = ?seg @ box_bytes (drop c (drop k box))"
    by (subst f) simp
  have r: "min (length ?seg) (ev_read e) = length ?seg" using io fits by (simp add: io_ok_def)
  show ?thesis
    unfolding browse_response_def Let_def live_bc_def [symmetric] op c [symmetric]
      stores_total_take [OF s] stores_total_segment [OF s]
    by (simp add: d r)
qed

lemma fit_count_le: "fit_count t bs \<le> length bs"
  by (induction t bs rule: fit_count.induct) auto

lemma fit_count_total: "t \<le> AEM_EVP_MAXSIZE \<Longrightarrow> t + evp_total (take (fit_count t bs) bs) \<le> AEM_EVP_MAXSIZE"
  by (induction t bs rule: fit_count.induct) (auto simp: add.assoc)

lemma fit_count_all: "t + evp_total bs \<le> AEM_EVP_MAXSIZE \<Longrightarrow> fit_count t bs = length bs"
  by (induction t bs rule: fit_count.induct) (auto simp: add.assoc)

lemma fit_count_max:
  "fit_count t bs < length bs \<Longrightarrow> t + evp_total (take (Suc (fit_count t bs)) bs) > AEM_EVP_MAXSIZE"
  by (induction t bs rule: fit_count.induct) (auto simp: add.assoc split: if_splits)

lemma back_up_le: "back_up bc t k \<le> Suc k"
  by (induction bc t k rule: back_up.induct) (auto simp: Let_def)

lemma evp_size_bound: "96 \<le> evp_size b" "evp_size b \<le> AEM_EVP_MAXSIZE"
  using unsigned_less [of b, where 'a = nat] by (simp_all add: evp_size_def evp_consts)

text \<open>The start found going back: everything from it on fits, unless it is the oldest message.\<close>

lemma back_up_fits:
  "k < length bc \<Longrightarrow> t \<le> AEM_EVP_MAXSIZE \<Longrightarrow> 0 < back_up bc t k \<Longrightarrow>
   t + evp_total (drop (back_up bc t k) (take (Suc k) bc)) \<le> AEM_EVP_MAXSIZE"
proof (induction bc t k rule: back_up.induct)
  case (2 bc t i)
  show ?case
  proof (cases "t + evp_size (bc ! Suc i) > AEM_EVP_MAXSIZE")
    case False
    let ?r = "back_up bc (t + evp_size (bc ! Suc i)) i"
    have "?r \<le> Suc i" by (rule back_up_le)
    moreover have "take (Suc (Suc i)) bc = take (Suc i) bc @ [bc ! Suc i]"
      using 2(2) by (simp add: take_Suc_conv_app_nth)
    moreover have "t + evp_size (bc ! Suc i) + evp_total (drop ?r (take (Suc i) bc)) \<le> AEM_EVP_MAXSIZE"
      using 2 False by (simp add: Let_def)
    ultimately show ?thesis using False 2(2) by simp
  qed (use 2 in simp)
qed simp

section \<open>A small instance\<close>

definition demo_sto_ext :: sto_ext where
  "demo_sto_ext = \<lparr>scalarmult_base = scalarmult_base demo_evp_ext, scalarmult = scalarmult demo_evp_ext,
     generichash = generichash demo_evp_ext, chacha_stream = chacha_stream demo_evp_ext,
     kdf_stream = \<lambda>k n i l. map of_nat [0..<l], sti_encrypt = \<lambda>k n m. m @ replicate 32 0,
     sti_decrypt = \<lambda>k n c. Some (take (length c - 32) c)\<rparr>"

definition demo_keys :: evp_keys where
  "demo_keys = \<lparr>ek_security = False, ek_pwk = scalarmult_base demo_evp_ext [3], ek_psk = [], ek_pqk = [],
     ek_usk = [2]\<rparr>"

definition demo_sto_env :: sto_env where
  "demo_sto_env = \<lparr>ev_open = True, ev_write = AEM_EVP_MAXSIZE, ev_read = AEM_EVP_MAXSIZE,
     ev_pwrite = AEM_EVP_MAXSIZE, ev_trunc = True, ev_unlink = True, ev_index = Some 100000,
     ev_nonce = \<lambda>i. 0, ev_draws = [[7]], ev_pad = \<lambda>i. 9, ev_time = 1735689601,
     ev_keys = Some demo_keys, ev_stray = demo_keys, ev_heap = \<lambda>i. 0\<rparr>"

definition demo_sto0 :: storage where
  "demo_sto0 = \<lparr>stindex = replicate AEM_USERCOUNT empty_slot, eid_chars = b64_set,
     sto_limits = [0, 0, 0, 0], sto_sbk = replicate 40 0, msg_files = \<lambda>p. None, stindex_file = Some [0]\<rparr>"

definition demo_sto :: storage where
  "demo_sto = set_slot 5 \<lparr>sl_count = 1, sl_bc = [0], sl_id = [0]\<rparr>
     (put_file 5 (Some (replicate 96 1)) demo_sto0)"

lemma demo_truncate [simp]: "evp_ext.truncate demo_sto_ext = demo_evp_ext"
  by (simp add: demo_sto_ext_def evp_ext.truncate_def)

lemma b64_set_distinct: "distinct b64_set \<and> length b64_set = 64"
  by (simp add: b64_set_def str_def)

lemma demo_sto_inv: "storage_inv demo_sto"
  unfolding demo_sto_def
  by (rule storage_inv_set)
     (use b64_set_distinct in \<open>simp_all add: storage_inv_def demo_sto0_def slot_ok_one list_all_length
        AEM_USERCOUNT_def\<close>)

lemma demo_sto_stores: "stores demo_sto 5 [(0, replicate 96 1)]"
  unfolding demo_sto_def
  by (simp add: stores_def demo_sto0_def AEM_USERCOUNT_def evp_size_def evp_consts)

lemma demo_sto_io: "m \<le> AEM_EVP_MAXSIZE \<Longrightarrow> io_ok m demo_sto_env"
  by (simp add: io_ok_def demo_sto_env_def)

lemma length_sign: "evp_ok x \<Longrightarrow> length (aem_sign_message x s k msg) = length msg"
  by (auto simp: aem_sign_message_def Let_def evp_ok_def evp_consts)

lemma demo_draw: "find (\<lambda>sk. evp_fits (Some [0]) (scalarmult_base demo_evp_ext sk)) [[7]] = Some [7]"
proof -
  have "getEnvelopeId (take 32 ([7] @ replicate 32 0)) = 7" by code_simp
  then show ?thesis by (simp add: evp_fits_def demo_evp_ext_def)
qed

lemma demo_evp_length:
  "length msg = 100 \<Longrightarrow> \<exists>evp. msg2evp demo_evp_ext [[7]] pd msg pk (Some [0]) = Evp evp"
  unfolding msg2evp_def demo_draw by (simp add: evp_consts Let_def demo_evp_ext_def)

lemma demo_evp: "\<exists>evp. msg2evp demo_evp_ext [[7]] pd
    (aem_sign_message demo_evp_ext s k (replicate 100 5)) pk (Some [0]) = Evp evp"
  by (rule demo_evp_length) (simp add: length_sign demo_evp_ok)

end
