(* ===== verification/Storage_Claims.thy ===== *)
theory Storage_Claims
  imports Storage_Refine
begin

text \<open>
  The properties of AEM-Storage: its index stays well formed and users stay apart whatever the file
  system does; writing, browsing and deleting act on the mailbox as promised when it does what it is
  asked; the index survives a restart; and what a torn write leads to.
\<close>

section \<open>Users stay apart\<close>

definition only_user :: "nat \<Rightarrow> storage \<Rightarrow> storage \<Rightarrow> bool" where
  "only_user uid st st' \<longleftrightarrow> eid_chars st' = eid_chars st \<and>
     (\<forall>v < AEM_USERCOUNT. v \<noteq> uid \<longrightarrow> slot st' v = slot st v \<and> msg_file st' v = msg_file st v)"

text \<open>The user a request is about.\<close>

definition request_uid :: "sto_client \<times> sto_env \<times> nat \<times> byte list \<Rightarrow> nat" where
  "request_uid r = (case r of (c, e, operation, msg) \<Rightarrow>
     (case c of
        From_Acc \<Rightarrow> if operation = 1 then unat ((of_nat (le_read (take 2 msg)) :: u16) AND 4095)
                    else le_read msg
      | From_Api \<Rightarrow> if operation < AEM_USERCOUNT then operation else operation - AEM_USERCOUNT
      | From_Dlv \<Rightarrow> operation))"

lemma only_user_refl [simp]: "only_user uid st st"
  by (simp add: only_user_def)

lemma and4095: "unat ((w :: u16) AND 4095) < 4096"
proof -
  have "w AND 4095 \<le> 4095" by (rule word_and_le1)
  then have "unat (w AND 4095) \<le> unat (4095 :: u16)" by (rule word_le_nat_alt [THEN iffD1])
  then show ?thesis by simp
qed

text \<open>The three ways the state changes, as introduction rules.\<close>

lemma only_user_save [simp]: "only_user uid st (saveStindex x e st') = only_user uid st st'"
  by (simp add: only_user_def)

lemma only_user_set [simp]: "only_user uid st st' \<Longrightarrow> only_user uid st (set_slot uid sl st')"
  by (simp add: only_user_def)

lemma only_user_put [simp]:
  assumes "storage_inv st" "uid < AEM_USERCOUNT" "only_user uid st st'"
  shows "only_user uid st (put_file uid f st')"
proof -
  have "sto_path st' uid \<noteq> sto_path st' v" if "v < AEM_USERCOUNT" "v \<noteq> uid" for v
    using that sto_path_inj [of st' uid v] assms by (auto simp: storage_inv_def only_user_def AEM_USERCOUNT_def)
  then show ?thesis using assms(3) by (simp add: only_user_def)
qed

lemma create_only: "storage_inv st \<Longrightarrow>
  only_user (unat ((of_nat (le_read (take 2 msg)) :: u16) AND 4095)) st (snd (acc_storage_create x e msg st))"
  using and4095 by (auto simp: acc_storage_create_def Let_def AEM_USERCOUNT_def split: evp_res.split)

lemma delete_account_only: "storage_inv st \<Longrightarrow> only_user (le_read msg) st (snd (acc_storage_delete x e msg st))"
  by (auto simp: acc_storage_delete_def Let_def AEM_USERCOUNT_def)

lemma storage_delete_only: "storage_inv st \<Longrightarrow> uid < AEM_USERCOUNT \<Longrightarrow>
  only_user uid st (snd (storage_delete x e uid d st))"
  by (auto simp: storage_delete_def Let_def split: option.split)

lemma storage_write_only: "storage_inv st \<Longrightarrow> uid < AEM_USERCOUNT \<Longrightarrow>
  only_user uid st (snd (storage_write x e msg uid st))"
  by (auto simp: storage_write_def Let_def split: option.split evp_res.split)

lemma storage_empty_only: "storage_inv st \<Longrightarrow> uid < AEM_USERCOUNT \<Longrightarrow>
  only_user uid st (snd (storage_empty x e uid st))"
  by (auto simp: storage_empty_def Let_def split: option.split evp_res.split)

lemma limits_only: "only_user uid st (snd (acc_storage_limits new st))"
  by (simp add: acc_storage_limits_def only_user_def slot_def msg_file_def sto_path_def)

lemmas only_user_ops = create_only delete_account_only storage_delete_only storage_write_only
  storage_empty_only limits_only

lemma conn_acc_only:
  "storage_inv st \<Longrightarrow> only_user (request_uid (From_Acc, e, op, m)) st (snd (sto_conn_acc x e op m st))"
  by (simp add: sto_conn_acc_def request_uid_def only_user_ops)

lemma conn_api_only:
  "storage_inv st \<Longrightarrow> only_user (request_uid (From_Api, e, op, m)) st (snd (sto_conn_api x e op m st))"
  by (simp add: sto_conn_api_def request_uid_def only_user_ops)

lemma conn_dlv_only:
  "storage_inv st \<Longrightarrow> only_user (request_uid (From_Dlv, e, op, m)) st (snd (sto_conn_dlv x e op m st))"
  by (simp add: sto_conn_dlv_def request_uid_def only_user_ops)

lemma request_only: "storage_inv st \<Longrightarrow> only_user (request_uid r) st (snd (sto_request x r st))"
  by (cases r, cases "fst r")
     (simp_all add: sto_request_def conn_acc_only conn_api_only conn_dlv_only)

section \<open>Histories\<close>

interpretation sto: kept "\<lambda>r st. snd (sto_request x r st)"
  "\<lambda>st. evp_ok (evp_ext.truncate x) \<and> storage_inv st" for x
  by unfold_locales (simp add: sto_request_inv)

text \<open>C8: After every history of requests, whatever fails on the way, the index of AEM-Storage is well
  formed: no user has more envelopes than index entries, no two envelopes of a user share an
  identifier, and different users keep different files.\<close>

theorem storage_index_invariant:
  assumes "evp_ok (evp_ext.truncate x)" "storage_inv st"
  shows "storage_inv (fold (\<lambda>r s. snd (sto_request x r s)) rs st)"
  using sto.run_inv [of x st rs] assms by simp

theorem storage_index_invariant_witness:
  "storage_inv (fold (\<lambda>r s. snd (sto_request demo_sto_ext r s))
    [(From_Dlv, demo_sto_env, 5, replicate 100 5), (From_Api, demo_sto_env, 4101, [0, 0])] demo_sto)"
  by (rule storage_index_invariant) (simp_all add: demo_evp_ok demo_sto_inv)

text \<open>C9: A request changes the index entries and the file of the user it is about and of nobody else,
  also when reads, writes or the file system fail in the middle of it.\<close>

theorem storage_users_apart:
  assumes "storage_inv st" "v < AEM_USERCOUNT" "v \<noteq> request_uid r"
  shows "slot (snd (sto_request x r st)) v = slot st v \<and>
    msg_file (snd (sto_request x r st)) v = msg_file st v"
  using request_only [OF assms(1), of r x] assms(2,3) by (simp add: only_user_def)

theorem storage_users_apart_witness:
  "slot (snd (sto_request demo_sto_ext (From_Dlv, demo_sto_env, 9, replicate 100 5) demo_sto)) 5 = slot demo_sto 5 \<and>
   msg_file (snd (sto_request demo_sto_ext (From_Dlv, demo_sto_env, 9, replicate 100 5) demo_sto)) 5 =
     msg_file demo_sto 5"
  by (rule storage_users_apart) (simp_all add: demo_sto_inv AEM_USERCOUNT_def request_uid_def)

section \<open>A torn write\<close>

text \<open>The file is longer than the index says.\<close>

definition over :: "nat \<Rightarrow> storage \<Rightarrow> bool" where
  "over uid st \<longleftrightarrow> (\<exists>f. msg_file st uid = Some f \<and> evp_total (live_bc st uid) < length f)"

text \<open>Requests that replace or remove the file: emptying the storage, deleting the account.\<close>

definition resets :: "nat \<Rightarrow> sto_client \<times> sto_env \<times> nat \<times> byte list \<Rightarrow> bool" where
  "resets uid r \<longleftrightarrow> (case r of (c, e, operation, msg) \<Rightarrow>
     (case c of From_Acc \<Rightarrow> operation = 2 \<and> le_read msg = uid
      | From_Api \<Rightarrow> operation = AEM_USERCOUNT + uid \<and> length msg = 1
      | From_Dlv \<Rightarrow> False))"

lemma over_delete: "over uid st \<Longrightarrow> storage_delete x e uid d st = (StoCode IC_ERR, st)"
  by (auto simp: over_def storage_delete_def open_msg_def live_bc_def Let_def)

lemma only_user_over: "only_user w st st' \<Longrightarrow> uid < AEM_USERCOUNT \<Longrightarrow> w \<noteq> uid \<Longrightarrow> over uid st' = over uid st"
  by (simp add: only_user_def over_def live_bc_def)

lemma over_save [simp]: "over uid (saveStindex x e st) = over uid st"
  by (simp add: over_def live_bc_def)

lemma over_create:
  "over uid st \<Longrightarrow> unat ((of_nat (le_read (take 2 msg)) :: u16) AND 4095) = uid \<Longrightarrow>
   snd (acc_storage_create x e msg st) = st"
  by (auto simp: over_def acc_storage_create_def Let_def split: evp_res.split)

lemma live_bc_set: "uid < length (stindex st) \<Longrightarrow>
  live_bc (set_slot uid sl (put_file uid f st)) uid = take (unat (sl_count sl)) (sl_bc sl)"
  by (simp add: live_bc_def)

lemma over_write:
  assumes "storage_inv st" "uid < AEM_USERCOUNT" "over uid st" "evp_ok (evp_ext.truncate x)"
  shows "over uid (snd (storage_write x e msg uid st))"
proof -
  let ?sl = "slot st uid" and ?n = "unat (sl_count (slot st uid))"
  from assms(3) obtain f where f: "msg_file st uid = Some f" "evp_total (live_bc st uid) < length f"
    by (auto simp: over_def)
  have len: "uid < length (stindex st)" "?n \<le> length (sl_bc ?sl)"
    using assms(1,2) storage_inv_slot [OF assms(1,2)] by (simp_all add: storage_inv_def slot_ok_def)
  have t: "take (unat (sl_count ?sl + 1)) (take ?n (sl_bc ?sl) @ [b]) = live_bc st uid @ [b] \<or>
      take (unat (sl_count ?sl + 1)) (take ?n (sl_bc ?sl) @ [b]) = []" for b
  proof (cases "?n < 65535")
    case True
    then show ?thesis using len(2) by (simp add: unat_inc live_bc_def)
  next
    case False
    then have "?n = 65535" using unsigned_less [of "sl_count ?sl", where 'a = nat] by simp
    then have "unat (sl_count ?sl + 1) = 0" by (simp add: unat_word_ariths)
    then show ?thesis by simp
  qed
  have full: "over uid (set_slot uid \<lparr>sl_count = sl_count ?sl + 1,
        sl_bc = take ?n (sl_bc ?sl) @ [evp_blocks (length evp)], sl_id = i\<rparr>
      (put_file uid (Some (f @ take (evp_size (evp_blocks (length evp))) evp)) st'))"
    if "msg2evp (evp_ext.truncate x) dr pd m k ids = Evp evp" "length (stindex st') = length (stindex st)"
    for evp dr pd m k ids i st'
  proof -
    have "evp_size (evp_blocks (length evp)) = length evp"
      using msg2evp_length [OF assms(4) that(1)] evp_blocks_unat by (simp add: evp_size_def evp_consts)
    then show ?thesis using t [of "evp_blocks (length evp)"] f(2) that(2) len(1)
      by (auto simp: over_def live_bc_def simp del: take_append)
  qed
  have part: "over uid (put_file uid (Some (f @ g)) (set_slot uid
      (?sl\<lparr>sl_bc := take ?n (sl_bc ?sl) @ [b], sl_id := i\<rparr>) st))"
    "over uid (set_slot uid (?sl\<lparr>sl_bc := take ?n (sl_bc ?sl) @ [b], sl_id := i\<rparr>) st)" for g b i
    using f len by (simp_all add: over_def live_bc_def trans_less_add1)
  have upd: "sl\<lparr>sl_bc := b, sl_id := i, sl_count := c\<rparr> = \<lparr>sl_count = c, sl_bc = b, sl_id = i\<rparr>"
    for sl :: sto_slot and b i c by simp
  have op: "open_msg e st uid = Some g \<Longrightarrow> g = f" for g
    using f(1) by (simp add: open_msg_def split: if_splits)
  show ?thesis
    unfolding storage_write_def Let_def
    using assms(3) by (auto simp: part upd min_def intro!: full dest!: op split: option.split evp_res.split)
qed

lemma over_request:
  assumes "storage_inv st" "uid < AEM_USERCOUNT" "over uid st" "evp_ok (evp_ext.truncate x)" "\<not> resets uid r"
  shows "over uid (snd (sto_request x r st))"
proof (cases "request_uid r = uid")
  case False
  then show ?thesis using only_user_over [OF request_only [OF assms(1)]] assms(2,3) by simp
next
  case True
  have lim: "over uid (snd (acc_storage_limits new st))" for new
    using assms(3) by (simp add: acc_storage_limits_def over_def live_bc_def slot_def msg_file_def sto_path_def)
  obtain c e op m where r: "r = (c, e, op, m)" by (cases r)
  note facts = lim over_delete [OF assms(3)] over_create [OF assms(3)] over_write [OF assms(1-4)] assms(3)
  show ?thesis
  proof (cases c)
    case From_Acc
    then show ?thesis using True assms(5) over_create [OF assms(3), of m]
      by (cases "op = 1"; cases "op = 2")
         (simp_all add: r sto_request_def sto_conn_acc_def request_uid_def resets_def facts)
  next
    case From_Api
    have "op = uid \<or> op = AEM_USERCOUNT + uid"
      using True From_Api by (auto simp: r request_uid_def split: if_splits)
    moreover have "uid \<noteq> 65534" "uid \<noteq> 65535" using assms(2) by (auto simp: AEM_USERCOUNT_def)
    ultimately show ?thesis using From_Api True assms(2,5)
      by (elim disjE) (simp_all add: r sto_request_def sto_conn_api_def request_uid_def resets_def facts)
  next
    case From_Dlv
    then show ?thesis using True
      by (simp add: r sto_request_def sto_conn_dlv_def request_uid_def facts)
  qed
qed

lemma over_history:
  assumes "evp_ok (evp_ext.truncate x)" "uid < AEM_USERCOUNT"
  shows "storage_inv st \<Longrightarrow> over uid st \<Longrightarrow> list_all (\<lambda>r. \<not> resets uid r) rs \<Longrightarrow>
    over uid (fold (\<lambda>r s. snd (sto_request x r s)) rs st)"
proof (induction rs arbitrary: st)
  case (Cons r rs)
  then show ?case
    using over_request [OF _ assms(2) _ assms(1)] sto_request_inv [OF _ assms(1)] by simp
qed simp

lemma torn_write_over:
  assumes "storage_inv st" "uid < AEM_USERCOUNT" "stores st uid box" "ev_open e"
    and evp: "msg2evp (evp_ext.truncate x) (ev_draws e) (ev_pad e)
      (aem_sign_message (evp_ext.truncate x) storage_ssk (ek_usk ek) msg) (ek_pwk ek)
      (Some (map fst box)) = Evp evp"
    and "box \<noteq> []" "ev_keys e = Some ek" "0 < ev_write e" "ev_write e < length evp"
    "AEM_EVP_MINBLOCKS * AEM_EVP_BLOCKSIZE \<le> length msg" "length msg \<le> AEM_MSG_W_MAXSIZE"
    "evp_ok (evp_ext.truncate x)"
  shows "fst (storage_write x e msg uid st) = StoCode IC_ERR \<and> over uid (snd (storage_write x e msg uid st))"
proof -
  let ?sl = "slot st uid" and ?n = "length box"
  have len: "uid < length (stindex st)" using assms(1,2) by (simp add: storage_inv_def)
  have n: "unat (sl_count ?sl) = ?n" "take ?n (sl_id ?sl) = map fst box" "?n \<le> length (sl_bc ?sl)"
    and fl: "msg_file st uid = Some (box_bytes box)"
    using assms(3) by (simp_all add: stores_def box_bytes_def)
  have size: "evp_size (evp_blocks (length evp)) = length evp"
    using msg2evp_length [OF assms(12) evp] evp_blocks_unat by (simp add: evp_size_def evp_consts)
  have op: "open_msg e st uid = Some (box_bytes box)"
    using fl assms(4) by (simp add: open_msg_def)
  have tot: "evp_total (take ?n (sl_bc ?sl)) = length (box_bytes box)"
    using stores_total [OF assms(3)] by (simp add: live_bc_def n(1))
  show ?thesis
    using assms(6-11) evp by (simp add: storage_write_def Let_def n op size over_def live_bc_def len tot)
qed

text \<open>C19: After one torn write to a user's file nothing of that user can be deleted any more: every
  deletion is refused, after every history of requests that does not empty the storage or delete the
  account.\<close>

theorem torn_write_blocks_delete:
  assumes "storage_inv st" "uid < AEM_USERCOUNT" "stores st uid box" "ev_open e"
    "msg2evp (evp_ext.truncate x) (ev_draws e) (ev_pad e)
      (aem_sign_message (evp_ext.truncate x) storage_ssk (ek_usk ek) msg) (ek_pwk ek)
      (Some (map fst box)) = Evp evp"
    "box \<noteq> []" "ev_keys e = Some ek" "0 < ev_write e" "ev_write e < length evp"
    "AEM_EVP_MINBLOCKS * AEM_EVP_BLOCKSIZE \<le> length msg" "length msg \<le> AEM_MSG_W_MAXSIZE"
    "evp_ok (evp_ext.truncate x)" "list_all (\<lambda>r. \<not> resets uid r) rs"
  shows "fst (storage_delete x e' uid d
    (fold (\<lambda>r s. snd (sto_request x r s)) rs (snd (storage_write x e msg uid st)))) = StoCode IC_ERR"
  using over_delete [OF over_history [OF assms(12,2) storage_write_inv [OF assms(1,2,12)]
      conjunct2 [OF torn_write_over [OF assms(1-12)]] assms(13)]] by simp

theorem torn_write_blocks_delete_witness:
  "\<exists>st. st = snd (storage_write demo_sto_ext (demo_sto_env\<lparr>ev_write := 50\<rparr>) (replicate 100 5) 5 demo_sto) \<and>
     fst (storage_delete demo_sto_ext demo_sto_env 5 0 st) = StoCode IC_ERR"
proof -
  let ?e = "demo_sto_env\<lparr>ev_write := 50\<rparr>"
  obtain evp where e: "msg2evp demo_evp_ext [[7]] (\<lambda>i. 9)
      (aem_sign_message demo_evp_ext storage_ssk [2] (replicate 100 5))
      (scalarmult_base demo_evp_ext [3]) (Some [0]) = Evp evp"
    using demo_evp by blast
  have "96 \<le> length evp" using msg2evp_length(3) [OF demo_evp_ok e] .
  then have "fst (storage_delete demo_sto_ext demo_sto_env 5 0 (fold (\<lambda>r s. snd (sto_request demo_sto_ext r s)) []
      (snd (storage_write demo_sto_ext ?e (replicate 100 5) 5 demo_sto)))) = StoCode IC_ERR"
    by (intro torn_write_blocks_delete [OF demo_sto_inv _ demo_sto_stores, where ek = demo_keys and evp = evp])
       (use e in \<open>simp_all add: demo_sto_env_def demo_keys_def demo_evp_ok evp_consts AEM_USERCOUNT_def\<close>)
  then show ?thesis by simp
qed

section \<open>Mailboxes\<close>

text \<open>C7: When the file system does what it is asked, deleting removes exactly the envelope with the
  given identifier from the user's mailbox and keeps all others, in order and byte for byte; an
  identifier that is not there is reported as such and changes nothing.\<close>

theorem storage_delete_exact:
  assumes "storage_inv st" "uid < AEM_USERCOUNT" "stores st uid box" "io_ok (length (box_bytes box)) e"
  shows "fst (storage_delete x e uid d st) = StoCode (if d \<in> fst ` set box then IC_OK else IC_NOTEXIST) \<and>
    stores (snd (storage_delete x e uid d st)) uid (filter (\<lambda>m. fst m \<noteq> d) box)"
proof -
  let ?sl = "slot st uid" and ?n = "length box"
  have ok: "slot_ok ?sl" using assms(1,2) by (rule storage_inv_slot)
  have uid: "uid < length (stindex st)" using assms(1,2) by (simp add: storage_inv_def)
  have n: "unat (sl_count ?sl) = ?n" "take ?n (sl_id ?sl) = map fst box"
    and fl: "msg_file st uid = Some (box_bytes box)"
    using assms(3) by (simp_all add: stores_def box_bytes_def)
  have dist: "distinct (map fst box)" and idl: "?n \<le> length (sl_id ?sl)"
    using ok n by (simp_all add: slot_ok_def)
  show ?thesis
  proof (cases "first_id (map fst box) d")
    case None
    then have "d \<notin> fst ` set box" by (simp add: first_id_None)
    moreover have "open_msg e st uid = Some (box_bytes box)" using assms(4) fl by (simp add: open_msg_def io_ok_def)
    moreover have "evp_total (take ?n (sl_bc ?sl)) = length (box_bytes box)"
      using stores_total [OF assms(3)] by (simp add: live_bc_def n(1))
    moreover have "filter (\<lambda>m. fst m \<noteq> d) box = box"
      using calculation(1) by (intro filter_True) force
    ultimately show ?thesis using assms(3) by (simp add: storage_delete_def Let_def n None)
  next
    case (Some i)
    then have i: "i < length box" "fst (box ! i) = d" using first_id_Some [OF Some] by auto
    then have "d \<in> fst ` set box" by (metis image_eqI nth_mem)
    then show ?thesis
      using storage_delete_at [OF assms(3,4) uid Some idl] filter_one [OF dist i(1)] i(2) by simp
  qed
qed

theorem storage_delete_exact_witness:
  "fst (storage_delete demo_sto_ext demo_sto_env 5 0 demo_sto) = StoCode IC_OK \<and>
   stores (snd (storage_delete demo_sto_ext demo_sto_env 5 0 demo_sto)) 5 []"
  using storage_delete_exact [OF demo_sto_inv _ demo_sto_stores demo_sto_io, of demo_sto_ext 0]
  by (simp add: AEM_USERCOUNT_def box_bytes_def evp_consts)

lemma find_id_newest:
  "i < n \<Longrightarrow> ids ! i = r \<Longrightarrow> \<forall>j. i < j \<and> j < n \<longrightarrow> ids ! j \<noteq> r \<Longrightarrow> find_id ids r n = Some i"
proof (induction n)
  case (Suc n)
  then show ?case by (cases "i = n") auto
qed simp

lemma drop_last_one: "length xs = Suc n \<Longrightarrow> drop n xs = [xs ! n]"
  using Cons_nth_drop_Suc [of n xs] by simp

lemma le_read_le_bytes2: "n < 65536 \<Longrightarrow> le_read (le_bytes 2 n) = n"
  by (rule le_read_bytes) simp

text \<open>C6: A message that was stored can be read: after a successful write the mailbox has one more
  envelope, with an unused identifier that is the reply; asking for what is newer than the previously
  newest message returns exactly that envelope, and its owner opens it to the message signed by the
  server.\<close>

theorem stored_message_readable:
  assumes inv: "storage_inv st" "uid < AEM_USERCOUNT" and s: "stores st uid box" "box \<noteq> []" "length box < 65535"
    and x: "evp_ok (evp_ext.truncate x)" "dh_ok (evp_ext.truncate x)"
    and io: "io_ok AEM_EVP_MAXSIZE e" "io_ok AEM_EVP_MAXSIZE e'"
    and len: "AEM_EVP_MINBLOCKS * AEM_EVP_BLOCKSIZE \<le> length msg" "length msg \<le> AEM_MSG_W_MAXSIZE"
    and ek: "ev_keys e = Some ek" "ek_pwk ek = scalarmult_base (evp_ext.truncate x) usersk"
    and smsg: "smsg = aem_sign_message (evp_ext.truncate x) storage_ssk (ek_usk ek) msg"
    and evp: "msg2evp (evp_ext.truncate x) (ev_draws e) (ev_pad e) smsg (ek_pwk ek) (Some (map fst box)) = Evp evp"
    and st': "st' = snd (storage_write x e msg uid st)"
  shows "stores st' uid (box @ [(getEnvelopeId evp, evp)]) \<and> getEnvelopeId evp \<notin> fst ` set box \<and>
    fst (storage_write x e msg uid st) = StoNum (int (unat (getEnvelopeId evp)) - 65536) \<and>
    sto_message_browse e' (le_bytes 2 uid @ le_bytes 2 (unat (fst (last box)))) True st' =
      StoData (browse_infoBytes (slot st' uid) @ le_bytes 2 1 @ le_bytes 2 (unat (evp_blocks (length evp))) @ evp) \<and>
    evp_open (evp_ext.truncate x) usersk evp = Some smsg"
proof -
  let ?id = "getEnvelopeId evp" and ?n = "length box"
  let ?box = "box @ [(?id, evp)]"
  have uid: "uid < length (stindex st)" using inv by (simp add: storage_inv_def)
  have w: "fst (storage_write x e msg uid st) = StoNum (int (unat ?id) - 65536)" "stores st' uid ?box"
    using storage_write_at [OF s(1) uid s(2,3) x(1) io(1) len ek(1) evp [unfolded smsg]] by (simp_all add: st')
  have fresh: "?id \<notin> fst ` set box" using msg2evp_id [OF x(1) evp] by (simp add: evp_fits_def)
  have n: "unat (sl_count (slot st' uid)) = Suc ?n" "take (Suc ?n) (sl_id (slot st' uid)) = map fst box @ [?id]"
    using w(2) by (simp_all add: stores_def)
  have nth: "sl_id (slot st' uid) ! k = (map fst box @ [?id]) ! k" if "k < Suc ?n" for k
    using nth_take [OF that, of "sl_id (slot st' uid)"] n(2) by simp
  have find: "find_id (sl_id (slot st' uid)) (fst (last box)) (Suc ?n) = Some (?n - 1)"
  proof (rule find_id_newest)
    show "sl_id (slot st' uid) ! (?n - 1) = fst (last box)"
      using s(2) by (simp add: nth nth_append last_conv_nth)
    have "fst (last box) \<noteq> ?id" using fresh s(2) by (metis image_eqI last_in_set)
    then show "\<forall>j. ?n - 1 < j \<and> j < Suc ?n \<longrightarrow> sl_id (slot st' uid) ! j \<noteq> fst (last box)"
      using s(2) by (auto simp: nth nth_append dest: less_antisym)
  qed simp
  have live: "length (live_bc st' uid) = Suc ?n" using stores_live(1) [OF w(2)] by simp
  define b where "b = live_bc st' uid ! ?n"
  then have b: "drop ?n (live_bc st' uid) = [b]" using drop_last_one [OF live] by simp
  have size: "evp_size b = length evp" using stores_size_nth [OF w(2), of ?n] by (simp add: b_def)
  have el: "length evp mod 32 = 0" "96 \<le> length evp" "length evp \<le> AEM_EVP_MAXSIZE"
    using msg2evp_length [OF x(1) evp] by simp_all
  have "evp_size b = evp_size (evp_blocks (length evp))"
    using size el evp_blocks_unat by (simp add: evp_size_def evp_consts)
  then have bb: "b = evp_blocks (length evp)" by (simp add: evp_size_def evp_consts word_unat_eq_iff)
  have "browse_response e' st' uid ?n = StoData (browse_infoBytes (slot st' uid) @ le_bytes 2 1 @
      le_bytes 2 (unat (evp_blocks (length evp))) @ evp)"
    using browse_response_at [OF w(2) io(2) refl, of ?n] el(3) size
    by (simp add: b u16_bytes_def bb)
  moreover have "sto_message_browse e' (le_bytes 2 uid @ le_bytes 2 (unat (fst (last box)))) True st' =
      browse_response e' st' uid ?n"
  proof -
    have u: "uid < 65536" "\<not> uid \<ge> AEM_USERCOUNT" using inv(2) by (simp_all add: AEM_USERCOUNT_def)
    have k: "unat (fst (last box)) < 65536" using unsigned_less [of "fst (last box)", where 'a = nat] by simp
    have r: "le_read (take 2 (le_bytes 2 uid @ le_bytes 2 (unat (fst (last box))))) = uid"
      "of_nat (le_read (drop 2 (le_bytes 2 uid @ le_bytes 2 (unat (fst (last box)))))) = fst (last box)"
      using u k by (simp_all add: le_read_le_bytes2)
    have "0 < ?n" using s(2) by simp
    then show ?thesis unfolding sto_message_browse_def Let_def r n(1) find using u(2) by simp
  qed
  ultimately show ?thesis
    using w fresh evp_open_msg2evp [OF x evp [unfolded ek(2)]] by simp
qed

theorem stored_message_readable_witness:
  "\<exists>st evp. st = snd (storage_write demo_sto_ext demo_sto_env (replicate 100 5) 5 demo_sto) \<and>
     stores st 5 [(0, replicate 96 1), (getEnvelopeId evp, evp)] \<and>
     evp_open demo_evp_ext [3] evp = Some (aem_sign_message demo_evp_ext storage_ssk [2] (replicate 100 5))"
proof -
  obtain evp where e: "msg2evp demo_evp_ext [[7]] (\<lambda>i. 9)
      (aem_sign_message demo_evp_ext storage_ssk [2] (replicate 100 5))
      (scalarmult_base demo_evp_ext [3]) (Some [0]) = Evp evp"
    using demo_evp by blast
  have "stores (snd (storage_write demo_sto_ext demo_sto_env (replicate 100 5) 5 demo_sto)) 5
      ([(0, replicate 96 1)] @ [(getEnvelopeId evp, evp)]) \<and>
    evp_open (evp_ext.truncate demo_sto_ext) [3] evp =
      Some (aem_sign_message demo_evp_ext storage_ssk [2] (replicate 100 5))"
    using stored_message_readable [OF demo_sto_inv _ demo_sto_stores, where e = demo_sto_env and e' = demo_sto_env
        and x = demo_sto_ext and ek = demo_keys and evp = evp and usersk = "[3]" and msg = "replicate 100 5"
        and smsg = "aem_sign_message demo_evp_ext storage_ssk [2] (replicate 100 5)", OF _ _ _ _ _ _ _ _ _ _ _ _ _ refl]
      e demo_evp_ok demo_dh_ok demo_sto_io
    by (simp add: demo_sto_env_def demo_keys_def evp_consts AEM_USERCOUNT_def)
  then show ?thesis by auto
qed

end
