(* ===== verification/Storage_File.thy ===== *)
theory Storage_File
  imports Storage_Refine
begin

text \<open>
  The index file of AEM-Storage and its start: what \<open>saveStindex\<close> writes, \<open>loadStindex\<close> reads back,
  and every user keeps the mailbox.  Also what happens when the index cannot be loaded, and the keys
  a welcome message is encrypted with.
\<close>

section \<open>Numbers and slots\<close>

lemma unat_le_bytes2: "of_nat (le_read (le_bytes 2 (unat (w :: u16)))) = w"
  using le_read_bytes [of "unat w" 2] unsigned_less [of w, where 'a = nat] by simp

lemma length_u16_bytes [simp, len_simps]: "length (u16_bytes ws) = 2 * length ws"
  by (induction ws) (simp_all add: u16_bytes_def)

lemma read_u16_bytes: "length ws = n \<Longrightarrow> read_u16s n (u16_bytes ws @ rest) = ws"
proof (induction ws arbitrary: n)
  case (Cons w ws)
  then show ?case by (cases n) (simp_all add: u16_bytes_def unat_le_bytes2)
qed (simp add: u16_bytes_def)

text \<open>A slot without the entries behind the live ones.\<close>

definition trimmed :: "sto_slot \<Rightarrow> sto_slot" where
  "trimmed sl = \<lparr>sl_count = sl_count sl, sl_bc = take (unat (sl_count sl)) (sl_bc sl),
     sl_id = take (unat (sl_count sl)) (sl_id sl)\<rparr>"

lemma load_slots_bytes:
  "list_all slot_ok sls \<Longrightarrow> load_slots (map sl_count sls) (concat (map slot_lists sls)) = map trimmed sls"
proof (induction sls)
  case (Cons sl sls)
  let ?n = "unat (sl_count sl)"
  have len: "length (take ?n (sl_bc sl)) = ?n" "length (take ?n (sl_id sl)) = ?n"
    using Cons.prems by (simp_all add: slot_ok_def)
  let ?r = "concat (map slot_lists sls)"
  have l: "slot_lists sl @ ?r =
      u16_bytes (take ?n (sl_bc sl)) @ u16_bytes (take ?n (sl_id sl)) @ ?r"
    by (simp add: slot_lists_def)
  have r1: "read_u16s ?n (slot_lists sl @ ?r) = take ?n (sl_bc sl)"
    unfolding l by (rule read_u16_bytes [OF len(1)])
  have "drop (2 * ?n) (slot_lists sl @ ?r) = u16_bytes (take ?n (sl_id sl)) @ ?r"
    unfolding l using len(1) by simp
  then have r2: "read_u16s ?n (drop (2 * ?n) (slot_lists sl @ ?r)) = take ?n (sl_id sl)"
    by (simp only: read_u16_bytes [OF len(2)])
  have r3: "drop (4 * ?n) (slot_lists sl @ ?r) = ?r" unfolding l using len by simp
  show ?case
  proof (cases "sl_count sl > 0")
    case True
    then show ?thesis using Cons by (simp add: Let_def r1 r2 r3 trimmed_def del: drop_append)
  next
    case False
    then have "sl_count sl = 0" by (simp add: word_gt_0)
    then show ?thesis using Cons by (simp add: trimmed_def empty_slot_def slot_lists_def u16_bytes_def)
  qed
qed simp

section \<open>Properties\<close>

text \<open>What the code relies on of the authenticated encryption.\<close>

definition sti_ok :: "sto_ext \<Rightarrow> bool" where
  "sti_ok x \<longleftrightarrow> (\<forall>k n m. length (sti_encrypt x k n m) = length m + 32 \<and>
     sti_decrypt x k n (sti_encrypt x k n m) = Some m)"

lemma loadStindex_saved:
  assumes "sti_ok x" "storage_inv st" "ev_index e = Some k" "length (stindex_bytes st) + 64 \<le> k"
    "stindex_file st \<noteq> None"
    and t: "sto_sbk t = sto_sbk st" "stindex_file t = stindex_file (saveStindex x e st)"
  shows "loadStindex x t = (True, t\<lparr>stindex := map trimmed (stindex st)\<rparr>)"
proof -
  let ?nonce = "map (ev_nonce e) [0..<32]" and ?d = "stindex_bytes st"
  let ?enc = "sti_encrypt x (stiKey x st) ?nonce ?d"
  have enc: "length ?enc = length ?d + 32" "sti_decrypt x (stiKey x st) ?nonce ?enc = Some ?d"
    using assms(1) by (simp_all add: sti_ok_def)
  have key: "stiKey x t = stiKey x st" by (simp add: stiKey_def t(1))
  have fl: "stindex_file t = Some (?nonce @ ?enc)"
    using assms(3-5) enc(1) by (auto simp: t(2) saveStindex_def Let_def simp del: map_upt_eqI)
  have counts: "length (map sl_count (stindex st)) = AEM_USERCOUNT" and ok: "list_all slot_ok (stindex st)"
    using assms(2) by (simp_all add: storage_inv_def)
  have rd: "read_u16s AEM_USERCOUNT ?d = map sl_count (stindex st)"
    unfolding stindex_bytes_def by (rule read_u16_bytes [OF counts])
  have dr: "drop (AEM_USERCOUNT * 2) ?d = concat (map slot_lists (stindex st))"
    unfolding stindex_bytes_def using counts by simp
  have parts: "take 32 (?nonce @ ?enc) = ?nonce" "drop 32 (?nonce @ ?enc) = ?enc" by simp_all
  show ?thesis
    unfolding loadStindex_def fl key option.case parts enc(2) rd dr load_slots_bytes [OF ok]
    by simp
qed

text \<open>C16: Mailboxes survive a restart: when the index was written completely, a fresh process with the
  same key and the same files loads it, and every user has the mailbox it had before.\<close>

theorem storage_restart:
  assumes "sti_ok x" "storage_inv st" "ev_index e = Some k" "length (stindex_bytes st) + 64 \<le> k"
    "stindex_file st \<noteq> None" "\<And>v. v < 64 \<Longrightarrow> v \<in> set (eid_src x (sto_sbk st))"
    "eid_chars st = eid_chars (eidSetup x st)"
    and t: "stindex_file t = stindex_file (saveStindex x e st)" "msg_files t = msg_files st"
    and uid: "uid < AEM_USERCOUNT"
  shows "storage_inv (sto_ioSetup x (sto_sbk st) t) \<and>
    (stores st uid box \<longrightarrow> stores (sto_ioSetup x (sto_sbk st) t) uid box)"
proof -
  let ?t = "eidSetup x (t\<lparr>sto_sbk := sto_sbk st\<rparr>)"
  have load: "loadStindex x ?t = (True, ?t\<lparr>stindex := map trimmed (stindex st)\<rparr>)"
    by (rule loadStindex_saved [OF assms(1-5)]) (simp_all add: eidSetup_def t(1))
  then have r: "sto_ioSetup x (sto_sbk st) t = ?t\<lparr>stindex := map trimmed (stindex st)\<rparr>"
    by (simp add: sto_ioSetup_def)
  have eid: "eid_chars ?t = eid_chars st" using assms(7) by (simp add: eidSetup_def)
  have len: "length (stindex st) = AEM_USERCOUNT" using assms(2) by (simp add: storage_inv_def)
  have sl: "slot (?t\<lparr>stindex := map trimmed (stindex st)\<rparr>) uid = trimmed (slot st uid)"
    using uid len by (simp add: slot_def)
  have fl: "msg_file (?t\<lparr>stindex := map trimmed (stindex st)\<rparr>) uid = msg_file st uid"
    using eid by (simp add: msg_file_def sto_path_def t(2) eidSetup_def)
  have "list_all slot_ok (map trimmed (stindex st))"
    using assms(2) by (auto simp: storage_inv_def list_all_length slot_ok_def trimmed_def)
  then have "storage_inv (?t\<lparr>stindex := map trimmed (stindex st)\<rparr>)"
    using assms(2) eid by (simp add: storage_inv_def)
  moreover have "stores (?t\<lparr>stindex := map trimmed (stindex st)\<rparr>) uid box" if "stores st uid box"
    using that storage_inv_slot [OF assms(2) uid] by (simp add: stores_def sl fl trimmed_def slot_ok_def)
  ultimately show ?thesis unfolding r by blast
qed

definition demo_restart :: storage where
  "demo_restart = set_slot 5 \<lparr>sl_count = 1, sl_bc = [0], sl_id = [0]\<rparr>
     (put_file 5 (Some (replicate 96 1)) (eidSetup demo_sto_ext demo_sto0))"

lemma demo_eid_src: "v < 64 \<Longrightarrow> v \<in> set (eid_src demo_sto_ext key)"
proof -
  assume v: "v < 64"
  have "list_all (\<lambda>v. unat (of_nat v AND (63 :: byte)) = v) [0..<64]" by code_simp
  then have "unat (of_nat v AND (63 :: byte)) = v" using v by (simp add: list_all_length)
  then show ?thesis
    using v by (auto simp: eid_src_def aem_kdf_sub_def demo_sto_ext_def image_iff intro!: bexI [of _ v])
qed

lemma eidSetup_stindex: "stindex (eidSetup x st) = stindex st"
  by (simp add: eidSetup_def)

lemma demo_restart_inv: "storage_inv demo_restart"
  unfolding demo_restart_def
  by (rule storage_inv_set)
     (use eidSetup_distinct [of demo_sto_ext demo_sto0, OF demo_eid_src] in
      \<open>simp_all add: storage_inv_def slot_ok_one list_all_length eidSetup_stindex, simp_all add: demo_sto0_def\<close>)

lemma demo_restart_stores: "stores demo_restart 5 [(0, replicate 96 1)]"
  by (simp add: demo_restart_def stores_def eidSetup_def demo_sto0_def AEM_USERCOUNT_def evp_size_def evp_consts)

theorem storage_restart_witness:
  "\<exists>t. storage_inv (sto_ioSetup demo_sto_ext (sto_sbk demo_restart) t) \<and>
     stores (sto_ioSetup demo_sto_ext (sto_sbk demo_restart) t) 5 [(0, replicate 96 1)]"
proof -
  let ?e = "demo_sto_env\<lparr>ev_index := Some (length (stindex_bytes demo_restart) + 64)\<rparr>"
  let ?t = "demo_restart\<lparr>stindex_file := stindex_file (saveStindex demo_sto_ext ?e demo_restart)\<rparr>"
  have sti: "sti_ok demo_sto_ext" by (simp add: sti_ok_def demo_sto_ext_def)
  have "storage_inv (sto_ioSetup demo_sto_ext (sto_sbk demo_restart) ?t) \<and>
      (stores demo_restart 5 [(0, replicate 96 1)] \<longrightarrow>
       stores (sto_ioSetup demo_sto_ext (sto_sbk demo_restart) ?t) 5 [(0, replicate 96 1)])"
    by (rule storage_restart [OF sti demo_restart_inv, where e = ?e])
       (simp_all add: demo_eid_src, simp_all add: demo_restart_def set_slot_def put_file_def eidSetup_def
          demo_sto0_def AEM_USERCOUNT_def)
  then show ?thesis using demo_restart_stores by auto
qed

text \<open>When the index cannot be loaded, the start goes on with an empty index; the first account that is
  created then overwrites the saved index, and all others lose theirs.\<close>

lemma load_failure_ignored:
  assumes "\<not> fst (loadStindex x (eidSetup x (st\<lparr>sto_sbk := key\<rparr>)))"
  shows "stindex (sto_ioSetup x key st) = stindex st"
  using assms
  by (auto simp: sto_ioSetup_def loadStindex_def eidSetup_def split: option.splits if_splits)

text \<open>The welcome message of a new account is not encrypted for its owner: the key in the request of
  AEM-Account has no influence on what is stored.\<close>

theorem create_ignores_key:
  "length pk1 = X25519_PKBYTES \<Longrightarrow> length pk2 = X25519_PKBYTES \<Longrightarrow>
   acc_storage_create x e (le_bytes 2 uid @ pk1) st = acc_storage_create x e (le_bytes 2 uid @ pk2) st"
  by (simp add: acc_storage_create_def)

theorem create_ignores_key_witness:
  "acc_storage_create demo_sto_ext demo_sto_env (le_bytes 2 7 @ replicate 32 1) demo_sto =
   acc_storage_create demo_sto_ext demo_sto_env (le_bytes 2 7 @ replicate 32 2) demo_sto"
  by (rule create_ignores_key) (simp_all add: evp_consts)

text \<open>Browsing for the newest messages may leave out the newest one: an oldest message of the largest
  size fills the response.\<close>

lemma browse_new_omits_newest:
  assumes "stores st uid [(i, a), (j, b)]" "length a = AEM_EVP_MAXSIZE" "io_ok AEM_EVP_MAXSIZE e"
  shows "browse_response e st uid (back_up (sl_bc (slot st uid)) 0 1) =
    StoData (browse_infoBytes (slot st uid) @ le_bytes 2 1 @ u16_bytes (take 1 (live_bc st uid)) @ a)"
proof -
  let ?bc = "sl_bc (slot st uid)"
  have live: "live_bc st uid = take 2 ?bc" and len: "2 \<le> length ?bc"
    using assms(1) by (simp_all add: live_bc_def stores_def numeral_2_eq_2)
  obtain p q r where bc: "?bc = p # q # r"
    using len by (cases ?bc; cases "tl ?bc") auto
  have sz: "evp_size p = AEM_EVP_MAXSIZE" "evp_size q = length b"
    using stores_live(2) [OF assms(1)] assms(2) by (simp_all add: live bc numeral_2_eq_2)
  have start: "back_up ?bc 0 1 = 0" using evp_size_bound(2) [of q] by (simp add: bc Let_def)
  have "0 < evp_size q" using evp_size_bound(1) [of q] by simp
  then have c: "1 = fit_count 0 (drop 0 (live_bc st uid))" by (simp add: live bc sz(1) numeral_2_eq_2)
  show ?thesis
    unfolding start using browse_response_at [OF assms(1,3) c] assms(2) by (simp add: bc live numeral_2_eq_2)
qed

end
