(* ===== verification/Smtp.thy ===== *)
theory Smtp
  imports Account_Types Mem_Eq Addr32
begin

text \<open>
  AEM-MTA: the SMTP session of \<^verbatim>\<open>src/mta/respond.c\<close> and the certificate check of
  \<^verbatim>\<open>src/mta/cert.c\<close>.  The session is a state machine: an event is what one call of \<open>recv\<close> (or
  the TLS library's read) returns - \<open>None\<close> for an error, the empty list for a closed connection,
  otherwise the bytes - and a step is what the code does until it waits for the next event.  The
  mode of the state says where in \<open>respondClient\<close> it waits.  The first event after the greeting is
  only peeked at by the code and read again when it is not \<^verbatim>\<open>STARTTLS\<close>.

  The record \<open>smtp_ext\<close> holds what the session takes from its surroundings: our domain, the
  addresses AEM-Account knows, the outcome of the n-th send, of the TLS library (version, cipher suite
  and names in the client's certificate) and of the stream to AEM-Deliver for the n-th message, and
  the stack contents behind the command buffer.
\<close>

section \<open>Constants\<close>

definition AEM_SMTP_MAX_SIZE_CMD :: nat where "AEM_SMTP_MAX_SIZE_CMD = 512"
definition AEM_SMTP_MAX_ROUNDS :: nat where "AEM_SMTP_MAX_ROUNDS = 500"
definition AEM_SMTP_MAX_TO :: nat where "AEM_SMTP_MAX_TO = 128"
definition AEM_SMTP_CHUNKSIZE :: nat where "AEM_SMTP_CHUNKSIZE = 65536"
definition AEM_SMTP_MAX_SIZE_BODY :: nat where "AEM_SMTP_MAX_SIZE_BODY = 4194304"

lemmas smtp_consts = AEM_SMTP_MAX_SIZE_CMD_def AEM_SMTP_MAX_ROUNDS_def AEM_SMTP_MAX_TO_def
  AEM_SMTP_CHUNKSIZE_def AEM_SMTP_MAX_SIZE_BODY_def

definition crlf :: "byte list" where "crlf = [13, 10]"

definition AEM_EHLO_RESPONSE :: "byte list" where
  "AEM_EHLO_RESPONSE = crlf @ str ''250-SIZE 4194304'' @ crlf @ str ''250-STARTTLS'' @ crlf @
     str ''250-8BITMIME'' @ crlf @ str ''250 SMTPUTF8''"

definition AEM_SHLO_RESPONSE :: "byte list" where
  "AEM_SHLO_RESPONSE = crlf @ str ''250-SIZE 4194304'' @ crlf @ str ''250-8BITMIME'' @ crlf @
     str ''250 SMTPUTF8''"

section \<open>Data\<close>

text \<open>The part of \<^verbatim>\<open>struct emailInfo\<close> the session fills; the rest stays zero.\<close>

record smtp_email =
  em_timestamp :: u32
  em_ip :: u32
  em_esmtp :: bool
  em_violation :: bool
  em_invalid :: bool
  em_rare :: bool
  em_ciphersuite :: u16
  em_tlsInfo :: byte
  em_lenGreet :: byte
  em_greet :: "byte list"
  em_lenEnvFr :: byte
  em_envFr :: "byte list"

definition zero_email :: smtp_email where
  "zero_email = \<lparr>em_timestamp = 0, em_ip = 0, em_esmtp = False, em_violation = False,
     em_invalid = False, em_rare = False, em_ciphersuite = 0, em_tlsInfo = 0, em_lenGreet = 0,
     em_greet = replicate 63 0, em_lenEnvFr = 0, em_envFr = replicate 255 0\<rparr>"

text \<open>An entry of \<^verbatim>\<open>struct emailMeta\<close>; the list of a session is the part below \<open>toCount\<close>.\<close>

record smtp_rcpt =
  rc_to :: "byte list"
  rc_uid :: nat
  rc_flags :: byte

record smtp_delivery =
  dv_to :: "smtp_rcpt list"
  dv_email :: smtp_email
  dv_body :: "byte list"

datatype smtp_mode = M_Helo | M_First | M_TlsHelo | M_Cmd | M_Body nat | M_Closed | M_Hung

record smtp =
  s_mode :: smtp_mode
  s_buf :: "byte list"
  s_email :: smtp_email
  s_to :: "smtp_rcpt list"
  s_tls :: "nat option"
  s_rounds :: nat
  s_out :: "byte list list"
  s_stream :: smtp_delivery
  s_done :: "smtp_delivery list"

record smtp_ext =
  sx_domain :: "byte list"
  sx_lookup :: "byte list \<Rightarrow> reply"
  sx_sent :: "nat \<Rightarrow> bool"
  sx_time :: u32
  sx_ip :: u32
  sx_tls_setup :: bool
  sx_tls_accept :: bool
  sx_tls_version :: "byte list"
  sx_cipher :: u16
  sx_cert :: "byte list list option"
  sx_stream_open :: "nat \<Rightarrow> bool"
  sx_stream_head :: "nat \<Rightarrow> bool"
  sx_stream_end :: "nat \<Rightarrow> intcom_code"
  sx_stack :: "nat \<Rightarrow> byte"

section \<open>The certificate of the client\<close>

definition getTlsVersion :: "byte list \<Rightarrow> nat" where
  "getTlsVersion c =
     (if length c < 7 \<or> memeq_anycase c (str ''TLSv1.'') 6 \<noteq> Some True \<or> c ! 6 < 48 \<or> c ! 6 > 51 then 0
      else unat (c ! 6 - 48))"

definition AEM_EMAIL_CERT_NAME_HDRFR :: byte where "AEM_EMAIL_CERT_NAME_HDRFR = 96"
definition AEM_EMAIL_CERT_NAME_ENVFR :: byte where "AEM_EMAIL_CERT_NAME_ENVFR = 64"
definition AEM_EMAIL_CERT_NAME_GREET :: byte where "AEM_EMAIL_CERT_NAME_GREET = 32"
definition AEM_EMAIL_CERT_NAME_OTHER :: byte where "AEM_EMAIL_CERT_NAME_OTHER = 0"

text \<open>What is behind the first \<^verbatim>\<open>@\<close>, or the whole text.\<close>

definition setEmailDomain :: "byte list \<Rightarrow> byte list" where
  "setEmailDomain c = (if 64 \<in> set c then tl (dropWhile (\<lambda>b. b \<noteq> 64) c) else c)"

definition ends_with :: "byte list \<Rightarrow> byte list \<Rightarrow> bool" where
  "ends_with whole name \<longleftrightarrow> length name < length whole \<and> drop (length whole - length name) whole = name"

definition cert_match :: "byte list \<Rightarrow> byte list \<Rightarrow> byte list \<Rightarrow> byte list \<Rightarrow> byte option" where
  "cert_match name greet envFr hdrFr =
     (if take 2 name = [42, 46] then
        (if ends_with hdrFr (tl name) then Some AEM_EMAIL_CERT_NAME_HDRFR
         else if ends_with envFr (tl name) then Some AEM_EMAIL_CERT_NAME_ENVFR
         else if ends_with greet (tl name) then Some AEM_EMAIL_CERT_NAME_GREET
         else None)
      else
        (if name = hdrFr then Some AEM_EMAIL_CERT_NAME_HDRFR
         else if name = envFr then Some AEM_EMAIL_CERT_NAME_ENVFR
         else if name = greet then Some AEM_EMAIL_CERT_NAME_GREET
         else None))"

text \<open>The loop over the subject name and the alternative names.  A name of less than four characters
  makes it \<^verbatim>\<open>continue\<close> without taking the next one: it never ends (\<open>None\<close>).\<close>

fun cert_loop :: "byte list list \<Rightarrow> byte list \<Rightarrow> byte list \<Rightarrow> byte list \<Rightarrow> byte option" where
  "cert_loop [] greet envFr hdrFr = Some AEM_EMAIL_CERT_NAME_OTHER"
| "cert_loop (name # names) greet envFr hdrFr =
     (if length name < 4 then None
      else case cert_match name greet envFr hdrFr of
             Some r \<Rightarrow> Some r
           | None \<Rightarrow> cert_loop names greet envFr hdrFr)"

definition cert_getTlsInfo_name ::
  "byte list list option \<Rightarrow> byte list \<Rightarrow> byte list \<Rightarrow> byte list \<Rightarrow> byte option" where
  "cert_getTlsInfo_name cert greet envFr hdrFr =
     (case cert of
        None \<Rightarrow> Some AEM_EMAIL_CERT_NAME_OTHER
      | Some names \<Rightarrow> cert_loop names greet (setEmailDomain envFr) (setEmailDomain hdrFr))"

section \<open>The buffer\<close>

definition fill_buf :: "byte list \<Rightarrow> byte list \<Rightarrow> byte list" where
  "fill_buf d buf = d @ drop (length d) buf"

definition buf_at :: "smtp_ext \<Rightarrow> byte list \<Rightarrow> nat \<Rightarrow> byte" where
  "buf_at x buf i = (if i < length buf then buf ! i else sx_stack x i)"

definition cmd_is :: "byte list \<Rightarrow> string \<Rightarrow> bool" where
  "cmd_is buf s \<longleftrightarrow> memeq_anycase buf (str s) (length s) = Some True"

section \<open>Addresses\<close>

text \<open>The loop that counts the characters before \<^verbatim>\<open>>\<close>; the counter is the 8-bit field of
  the message, which is not reset and wraps around.  \<open>None\<close> after 257 rounds, when every value of the
  counter has been seen.\<close>

fun envfr_loop :: "nat \<Rightarrow> (nat \<Rightarrow> byte) \<Rightarrow> int \<Rightarrow> byte \<Rightarrow> byte option" where
  "envfr_loop 0 rd mx l = None"
| "envfr_loop (Suc fuel) rd mx l =
     (if int (unat l) < mx \<and> rd (unat l) \<noteq> 62 then envfr_loop fuel rd mx (l + 1) else Some l)"

datatype sender_res = Sender_Bad | Sender_Loop | Sender_Ok smtp_email

definition smtp_addr_sender :: "smtp_ext \<Rightarrow> byte list \<Rightarrow> nat \<Rightarrow> smtp_email \<Rightarrow> sender_res" where
  "smtp_addr_sender x buf len em =
     (let skip = length (takeWhile is_space (take len (drop 10 buf)))
      in if len < 1 \<or> skip \<ge> len \<or> buf_at x buf (10 + skip) \<noteq> 60 then Sender_Bad
      else let skip = skip + 1
      in case envfr_loop 257 (\<lambda>i. buf_at x buf (10 + skip + i)) (int len - int skip - 1) (em_lenEnvFr em) of
           None \<Rightarrow> Sender_Loop
         | Some l \<Rightarrow>
             if l < 1 then Sender_Ok (em\<lparr>em_envFr := (em_envFr em)[0 := 64], em_lenEnvFr := 1\<rparr>)
             else let l = (if l > 127 then 127 else l)
                  in Sender_Ok (em\<lparr>em_lenEnvFr := l,
                       em_envFr := map (buf_at x buf) [10 + skip..<10 + skip + unat l] @
                         drop (unat l) (em_envFr em)\<rparr>))"

datatype our_error = OUR_INTERNAL | OUR_SYNTAX | OUR_USER | OUR_DOMAIN | OUR_TLS smtp_rcpt | OUR_CODE12

definition getUid :: "smtp_ext \<Rightarrow> byte list \<Rightarrow> our_error + (nat \<times> byte)" where
  "getUid x addr =
     (case sx_lookup x (addr32_store addr) of
        Inl IC_NOTEXIST \<Rightarrow> Inl OUR_USER
      | Inl _ \<Rightarrow> Inl OUR_INTERNAL
      | Inr resp \<Rightarrow> if length resp \<noteq> 3 then Inl OUR_INTERNAL else Inr (le_read (take 2 resp), resp ! 2))"

definition addrour_min :: "smtp_ext \<Rightarrow> nat" where
  "addrour_min x = length (sx_domain x) + 2"

text \<open>Leading white space: the loop only ever looks at the first character.\<close>

fun strip_front :: "nat \<Rightarrow> byte list \<Rightarrow> byte list option" where
  "strip_front mn [] = Some []"
| "strip_front mn (c # cs) =
     (if is_space c then (if length (c # cs) < mn then None else strip_front mn cs) else Some (c # cs))"

text \<open>Trailing unprintable characters and \<^verbatim>\<open>>\<close>, on the reversed text.\<close>

fun strip_back :: "nat \<Rightarrow> byte list \<Rightarrow> byte list option" where
  "strip_back mn [] = Some []"
| "strip_back mn (c # cs) =
     (if \<not> is_print c \<or> c = 62 then (if length cs < mn then None else strip_back mn cs) else Some (c # cs))"

definition smtp_addr_our :: "smtp_ext \<Rightarrow> byte list \<Rightarrow> bool \<Rightarrow> our_error + smtp_rcpt" where
  "smtp_addr_our x buf isSecure =
     (let mn = addrour_min x; n = length (sx_domain x) in
      if length buf < mn then Inl OUR_INTERNAL
      else case strip_front mn buf of
        None \<Rightarrow> Inl OUR_DOMAIN
      | Some b1 \<Rightarrow>
          let b2 = (if b1 \<noteq> [] \<and> hd b1 = 60 then tl b1 else b1)
          in if length b2 < mn then Inl OUR_DOMAIN
          else case strip_back mn (rev b2) of
            None \<Rightarrow> Inl OUR_CODE12
          | Some rb \<Rightarrow>
              let b = rev rb; len = length b
              in if len < mn \<or> b ! (len - n - 1) \<noteq> 64 \<or>
                    memeq_anycase (drop (len - n) b) (sx_domain x) n \<noteq> Some True
                 then Inl OUR_DOMAIN
              else if len - n - 1 > 63 then Inl OUR_USER
              else let to = take (len - n - 1) b
              in case getUid x to of
                   Inl er \<Rightarrow> Inl er
                 | Inr (uid, flags) \<Rightarrow>
                     let r = \<lparr>rc_to = to, rc_uid = uid, rc_flags = flags\<rparr>
                     in if \<not> isSecure \<and> flags AND AEM_ADDR_FLAG_SECURE \<noteq> 0 then Inl (OUR_TLS r)
                        else Inr r)"

section \<open>Replies\<close>

definition say :: "byte list \<Rightarrow> smtp \<Rightarrow> smtp" where
  "say m s = s\<lparr>s_out := s_out s @ [m]\<rparr>"

definition sent_ok :: "smtp_ext \<Rightarrow> smtp \<Rightarrow> bool" where
  "sent_ok x s = sx_sent x (length (s_out s))"

definition smtp_close :: "smtp \<Rightarrow> smtp" where
  "smtp_close s = s\<lparr>s_mode := M_Closed\<rparr>"

text \<open>Send a reply line; a failing send ends the session, otherwise it goes on.\<close>

definition reply_line :: "smtp_ext \<Rightarrow> string \<Rightarrow> smtp \<Rightarrow> smtp" where
  "reply_line x m s = (if sent_ok x s then say (str m @ crlf) s else smtp_close (say (str m @ crlf) s))"

definition bye_line :: "string \<Rightarrow> smtp \<Rightarrow> smtp" where
  "bye_line m s = smtp_close (say (str m @ crlf) s)"

section \<open>Greeting and TLS\<close>

definition smtp_init :: "smtp_ext \<Rightarrow> byte list \<Rightarrow> smtp" where
  "smtp_init x buf =
     (let s = \<lparr>s_mode = M_Helo, s_buf = buf,
                s_email = zero_email\<lparr>em_timestamp := sx_time x, em_ip := sx_ip x\<rparr>, s_to = [],
                s_tls = None, s_rounds = 0, s_out = [],
                s_stream = \<lparr>dv_to = [], dv_email = zero_email, dv_body = []\<rparr>, s_done = []\<rparr>;
          s1 = say (str ''220 '' @ sx_domain x @ crlf) s
      in if sent_ok x s then s1 else smtp_close s1)"

definition smtp_helo :: "smtp_ext \<Rightarrow> byte list \<Rightarrow> byte list option" where
  "smtp_helo x buf =
     (if cmd_is buf ''HELO'' then Some (str ''250 '' @ sx_domain x @ crlf)
      else if cmd_is buf ''EHLO'' then Some (str ''250-'' @ sx_domain x @ AEM_EHLO_RESPONSE @ crlf)
      else None)"

definition helo_step :: "smtp_ext \<Rightarrow> byte list option \<Rightarrow> smtp \<Rightarrow> smtp" where
  "helo_step x ev s =
     (case ev of
        None \<Rightarrow> smtp_close s
      | Some d \<Rightarrow>
          let buf = fill_buf d (s_buf s)
          in if length d < 7 then smtp_close s
          else case smtp_helo x buf of
            None \<Rightarrow> smtp_close (s\<lparr>s_buf := buf\<rparr>)
          | Some m \<Rightarrow>
              let s1 = say m (s\<lparr>s_buf := buf\<rparr>)
              in if \<not> sent_ok x s then smtp_close s1
              else let lenGreet = (of_nat (length d - 7) :: byte);
                       lenGreet = (if lenGreet > 63 then 63 else lenGreet);
                       em = (s_email s)\<lparr>em_esmtp := (buf ! 0 = 69), em_lenGreet := lenGreet,
                              em_greet := map (buf_at x buf) [5..<5 + unat lenGreet] @
                                drop (unat lenGreet) (em_greet (s_email s))\<rparr>
                   in s1\<lparr>s_email := em, s_mode := M_First\<rparr>)"

definition starttls_step :: "smtp_ext \<Rightarrow> byte list \<Rightarrow> smtp \<Rightarrow> smtp" where
  "starttls_step x d s =
     (let s1 = say (str ''220 Ok'' @ crlf) (s\<lparr>s_buf := fill_buf d (s_buf s)\<rparr>)
      in if \<not> sent_ok x s then smtp_close s1
      else if \<not> sx_tls_setup x then bye_line ''421 4.7.0 Failed setting up TLS'' s1
      else if \<not> sx_tls_accept x then bye_line ''421 4.7.0 TLS handshake failed'' s1
      else s1\<lparr>s_mode := M_TlsHelo\<rparr>)"

definition tlshelo_step :: "smtp_ext \<Rightarrow> byte list option \<Rightarrow> smtp \<Rightarrow> smtp" where
  "tlshelo_step x ev s =
     (case ev of
        None \<Rightarrow> smtp_close s
      | Some [] \<Rightarrow> smtp_close s
      | Some d \<Rightarrow>
          let buf = fill_buf d (s_buf s); s0 = s\<lparr>s_buf := buf\<rparr>
          in if length d \<ge> 4 \<and> cmd_is buf ''QUIT'' then bye_line ''221 Bye'' s0
          else if length d < 4 \<or> (\<not> cmd_is buf ''EHLO'' \<and> \<not> cmd_is buf ''HELO'')
          then bye_line ''421 5.5.1 EHLO/HELO required after STARTTLS'' s0
          else let s1 = say (str ''250-'' @ sx_domain x @ AEM_SHLO_RESPONSE @ crlf) s0
          in if \<not> sent_ok x s0 then smtp_close s1
          else let em = s_email s; v = getTlsVersion (sx_tls_version x)
          in case cert_getTlsInfo_name (sx_cert x) (take (unat (em_lenGreet em)) (em_greet em))
                    (take (unat (em_lenEnvFr em)) (em_envFr em)) [] of
               None \<Rightarrow> s1\<lparr>s_mode := M_Hung\<rparr>
             | Some c \<Rightarrow> s1\<lparr>s_mode := M_Cmd, s_tls := Some v,
                 s_email := em\<lparr>em_tlsInfo := of_nat v OR c, em_ciphersuite := sx_cipher x\<rparr>\<rparr>)"

section \<open>Commands\<close>

text \<open>The end of a round of the loop: the next round begins unless the session ended.\<close>

definition next_round :: "smtp \<Rightarrow> smtp" where
  "next_round s = (if s_mode s = M_Closed then s else s\<lparr>s_rounds := s_rounds s + 1\<rparr>)"

definition mail_cmd :: "smtp_ext \<Rightarrow> nat \<Rightarrow> smtp \<Rightarrow> smtp" where
  "mail_cmd x bytes s =
     (case smtp_addr_sender x (s_buf s) (bytes - 10) (s_email s) of
        Sender_Bad \<Rightarrow> smtp_close s
      | Sender_Loop \<Rightarrow> s\<lparr>s_mode := M_Hung\<rparr>
      | Sender_Ok em \<Rightarrow> next_round (reply_line x ''250 2.1.0 Sender address ok'' (s\<lparr>s_email := em\<rparr>)))"

definition is_secure :: "smtp \<Rightarrow> bool" where
  "is_secure s \<longleftrightarrow> (case s_tls s of None \<Rightarrow> False | Some v \<Rightarrow> v \<ge> 3)"

definition rcpt_cmd :: "smtp_ext \<Rightarrow> nat \<Rightarrow> smtp \<Rightarrow> smtp" where
  "rcpt_cmd x bytes s =
     (if em_lenEnvFr (s_email s) < 1 then
        next_round (reply_line x ''503 5.5.1 Need sender address first''
          (s\<lparr>s_email := (s_email s)\<lparr>em_violation := True\<rparr>\<rparr>))
      else if length (s_to s) \<ge> AEM_SMTP_MAX_TO - 1 then
        next_round (reply_line x ''451 5.5.3 Too many recipients'' s)
      else next_round (case smtp_addr_our x (take (bytes - 8) (drop 8 (s_buf s))) (is_secure s) of
          Inr r \<Rightarrow> reply_line x ''250 2.1.5 Recipient address ok'' (s\<lparr>s_to := s_to s @ [r]\<rparr>)
        | Inl OUR_USER \<Rightarrow> reply_line x ''550 5.1.1 No such user'' s
        | Inl OUR_DOMAIN \<Rightarrow> reply_line x ''550 5.1.2 Not our domain'' s
        | Inl OUR_SYNTAX \<Rightarrow> reply_line x ''501 5.1.3 Invalid address'' s
        | Inl (OUR_TLS r) \<Rightarrow>
            reply_line x ''450 4.7.0 Recipient requires a secure connection (TLS 1.3)''
              (s\<lparr>s_to := s_to s @ [r]\<rparr>)
        | Inl _ \<Rightarrow> reply_line x ''451 4.3.0 Internal server error'' s))"

definition data_cmd :: "smtp_ext \<Rightarrow> smtp \<Rightarrow> smtp" where
  "data_cmd x s =
     (let em = s_email s in
      if em_lenEnvFr em < 1 \<or> length (s_to s) < 1 then
        next_round (reply_line x
          (if em_lenEnvFr em < 1 \<and> length (s_to s) < 1
           then ''503 5.5.1 Need recipient and sender addresses first''
           else if em_lenEnvFr em < 1 then ''503 5.5.1 Need sender address first''
           else ''503 5.5.1 Need recipient address first'')
          (s\<lparr>s_email := em\<lparr>em_violation := True\<rparr>\<rparr>))
      else if \<not> sx_stream_open x (length (s_done s)) \<or> \<not> sx_stream_head x (length (s_done s))
      then bye_line ''451 4.3.0 Internal server error'' s
      else let s1 = reply_line x ''354 Ok'' s
      in if s_mode s1 = M_Closed then s1
         else s1\<lparr>s_mode := M_Body 0, s_stream := \<lparr>dv_to = s_to s, dv_email = em, dv_body = []\<rparr>\<rparr>)"

definition cmd_step :: "smtp_ext \<Rightarrow> byte list option \<Rightarrow> smtp \<Rightarrow> smtp" where
  "cmd_step x ev s =
     (case ev of
        None \<Rightarrow> smtp_close s
      | Some d \<Rightarrow>
          let bytes = length d; buf = fill_buf d (s_buf s); s0 = s\<lparr>s_buf := buf, s_mode := M_Cmd\<rparr>;
              em = s_email s
          in if bytes < 4 then smtp_close s0
          else if s_rounds s > AEM_SMTP_MAX_ROUNDS then bye_line ''421 4.7.0 Too many requests'' s0
          else if bytes > 10 \<and> cmd_is buf ''MAIL FROM:'' then mail_cmd x bytes s0
          else if bytes > 8 \<and> cmd_is buf ''RCPT TO:'' then rcpt_cmd x bytes s0
          else if cmd_is buf ''RSET'' then
            next_round (reply_line x ''250 Reset''
              (s0\<lparr>s_email := em\<lparr>em_rare := True, em_lenEnvFr := 0\<rparr>, s_to := []\<rparr>))
          else if cmd_is buf ''VRFY'' then
            next_round (reply_line x ''252 Not verified'' (s0\<lparr>s_email := em\<lparr>em_rare := True\<rparr>\<rparr>))
          else if cmd_is buf ''QUIT'' then bye_line ''221 Bye'' s0
          else if cmd_is buf ''DATA'' then data_cmd x s0
          else if cmd_is buf ''NOOP'' then
            next_round (reply_line x ''250 Ok'' (s0\<lparr>s_email := em\<lparr>em_rare := True\<rparr>\<rparr>))
          else next_round (reply_line x ''502 5.5.1 Command unsupported''
            (s0\<lparr>s_email := em\<lparr>em_invalid := True\<rparr>\<rparr>)))"

section \<open>The body\<close>

fun memmem :: "byte list \<Rightarrow> byte list \<Rightarrow> nat option" where
  "memmem [] needle = (if needle = [] then Some 0 else None)"
| "memmem (c # cs) needle =
     (if take (length needle) (c # cs) = needle then Some 0 else map_option Suc (memmem cs needle))"

definition end_mark :: "byte list" where "end_mark = [13, 10, 46, 13, 10]"

definition body_chunk :: "byte list \<Rightarrow> smtp \<Rightarrow> smtp" where
  "body_chunk d s = s\<lparr>s_stream := (s_stream s)\<lparr>dv_body := dv_body (s_stream s) @ d\<rparr>\<rparr>"

definition body_end :: "smtp_ext \<Rightarrow> smtp \<Rightarrow> smtp" where
  "body_end x s =
     next_round (reply_line x
       (case sx_stream_end x (length (s_done s)) of
          IC_OK \<Rightarrow> ''250 Message delivered''
        | IC_USAGE \<Rightarrow> ''554 5.3.4 Message too big''
        | IC_LIMIT \<Rightarrow> ''452 4.2.2 Recipient mailbox full''
        | _ \<Rightarrow> ''451 4.3.0 Internal server error'')
       (s\<lparr>s_mode := M_Cmd, s_to := [], s_email := zero_email\<lparr>em_ip := sx_ip x\<rparr>,
          s_done := s_done s @ [s_stream s]\<rparr>))"

definition body_step :: "smtp_ext \<Rightarrow> nat \<Rightarrow> byte list option \<Rightarrow> smtp \<Rightarrow> smtp" where
  "body_step x lenBody ev s =
     (case ev of
        None \<Rightarrow> body_end x s
      | Some [] \<Rightarrow> body_end x s
      | Some d0 \<Rightarrow>
          let d = take (AEM_SMTP_MAX_SIZE_BODY - lenBody) d0
          in case memmem d end_mark of
               Some 0 \<Rightarrow> body_end x s
             | Some k \<Rightarrow> body_end x (body_chunk (take k d) s)
             | None \<Rightarrow>
                 let s1 = body_chunk d s; n = lenBody + length d
                 in if n < AEM_SMTP_MAX_SIZE_BODY then s1\<lparr>s_mode := M_Body n\<rparr> else body_end x s1)"

section \<open>The session\<close>

text \<open>What \<open>recv\<close> returns is at most the size of the buffer it was given.\<close>

definition smtp_step :: "smtp_ext \<Rightarrow> byte list option \<Rightarrow> smtp \<Rightarrow> smtp" where
  "smtp_step x ev0 s =
     (let ev = map_option (take AEM_SMTP_MAX_SIZE_CMD) ev0 in
      case s_mode s of
        M_Helo \<Rightarrow> helo_step x ev s
      | M_First \<Rightarrow>
          (case ev of
             Some d \<Rightarrow> if length d \<ge> 8 \<and> cmd_is d ''STARTTLS'' then starttls_step x d s else cmd_step x ev s
           | None \<Rightarrow> cmd_step x ev s)
      | M_TlsHelo \<Rightarrow> tlshelo_step x ev s
      | M_Cmd \<Rightarrow> cmd_step x ev s
      | M_Body n \<Rightarrow> body_step x n (map_option (take AEM_SMTP_CHUNKSIZE) ev0) s
      | M_Closed \<Rightarrow> s
      | M_Hung \<Rightarrow> s)"

definition smtp_run :: "smtp_ext \<Rightarrow> byte list \<Rightarrow> byte list option list \<Rightarrow> smtp" where
  "smtp_run x buf evs = fold (smtp_step x) evs (smtp_init x buf)"

end
