(* ===== verification/Smtp_Claims.thy ===== *)
theory Smtp_Claims
  imports Smtp
begin

text \<open>
  Properties of the SMTP session: what holds of the session and of everything handed to AEM-Deliver
  after every sequence of events, that the session ends, and where it does not do what it means to.
\<close>

section \<open>The invariant\<close>

definition rcpt_ok :: "smtp_ext \<Rightarrow> smtp_rcpt \<Rightarrow> bool" where
  "rcpt_ok x r \<longleftrightarrow> length (rc_to r) \<le> 63 \<and>
     (case sx_lookup x (addr32_store (rc_to r)) of
        Inl _ \<Rightarrow> False
      | Inr resp \<Rightarrow> length resp = 3 \<and> rc_uid r = le_read (take 2 resp) \<and> rc_flags r = resp ! 2)"

definition email_ok :: "smtp_email \<Rightarrow> bool" where
  "email_ok em \<longleftrightarrow> unat (em_lenEnvFr em) \<le> 127 \<and> unat (em_lenGreet em) \<le> 63 \<and>
     length (em_greet em) = 63 \<and> length (em_envFr em) = 255"

definition delivery_ok :: "smtp_ext \<Rightarrow> smtp_delivery \<Rightarrow> bool" where
  "delivery_ok x d \<longleftrightarrow> dv_to d \<noteq> [] \<and> length (dv_to d) < AEM_SMTP_MAX_TO \<and> list_all (rcpt_ok x) (dv_to d) \<and>
     email_ok (dv_email d) \<and> em_lenEnvFr (dv_email d) \<noteq> 0 \<and>
     length (dv_body d) \<le> AEM_SMTP_MAX_SIZE_BODY"

definition mode_ok :: "smtp_ext \<Rightarrow> smtp \<Rightarrow> bool" where
  "mode_ok x s \<longleftrightarrow> (case s_mode s of
     M_Body n \<Rightarrow> n < AEM_SMTP_MAX_SIZE_BODY \<and> length (dv_body (s_stream s)) = n \<and> delivery_ok x (s_stream s) \<and>
       s_rounds s \<le> AEM_SMTP_MAX_ROUNDS
   | _ \<Rightarrow> True)"

definition smtp_inv :: "smtp_ext \<Rightarrow> smtp \<Rightarrow> bool" where
  "smtp_inv x s \<longleftrightarrow> length (s_buf s) = AEM_SMTP_MAX_SIZE_CMD \<and> email_ok (s_email s) \<and>
     length (s_to s) < AEM_SMTP_MAX_TO \<and> list_all (rcpt_ok x) (s_to s) \<and>
     s_rounds s \<le> AEM_SMTP_MAX_ROUNDS + 1 \<and> list_all (delivery_ok x) (s_done s) \<and> mode_ok x s"

lemma mode_ok_simps [simp]:
  "s_mode s = M_Cmd \<Longrightarrow> mode_ok x s" "s_mode s = M_Closed \<Longrightarrow> mode_ok x s"
  "s_mode s = M_Hung \<Longrightarrow> mode_ok x s" "s_mode s = M_First \<Longrightarrow> mode_ok x s"
  "s_mode s = M_TlsHelo \<Longrightarrow> mode_ok x s" "s_mode s = M_Helo \<Longrightarrow> mode_ok x s"
  by (simp_all add: mode_ok_def)

lemma zero_email_ok [simp]: "email_ok zero_email"
  by (simp add: email_ok_def zero_email_def)

lemma email_ok_flags [simp]:
  "email_ok (em\<lparr>em_violation := b\<rparr>) = email_ok em" "email_ok (em\<lparr>em_rare := b\<rparr>) = email_ok em"
  "email_ok (em\<lparr>em_invalid := b\<rparr>) = email_ok em" "email_ok (em\<lparr>em_timestamp := t\<rparr>) = email_ok em"
  "email_ok (em\<lparr>em_ip := i\<rparr>) = email_ok em"
  "email_ok (em\<lparr>em_tlsInfo := v, em_ciphersuite := c\<rparr>) = email_ok em"
  by (simp_all add: email_ok_def)

lemma email_ok_reset [simp]: "email_ok em \<Longrightarrow> email_ok (em\<lparr>em_rare := b, em_lenEnvFr := 0\<rparr>)"
  by (simp add: email_ok_def)

text \<open>Replies, the end of the session and the round counter keep the rest.\<close>

lemma say_frame [simp]:
  "s_mode (say m s) = s_mode s" "s_buf (say m s) = s_buf s" "s_email (say m s) = s_email s"
  "s_to (say m s) = s_to s" "s_rounds (say m s) = s_rounds s" "s_done (say m s) = s_done s"
  "s_stream (say m s) = s_stream s" "s_tls (say m s) = s_tls s"
  by (simp_all add: say_def)

lemma close_frame [simp]:
  "s_mode (smtp_close s) = M_Closed" "s_buf (smtp_close s) = s_buf s" "s_email (smtp_close s) = s_email s"
  "s_to (smtp_close s) = s_to s" "s_rounds (smtp_close s) = s_rounds s" "s_done (smtp_close s) = s_done s"
  "s_stream (smtp_close s) = s_stream s"
  by (simp_all add: smtp_close_def)

lemma reply_frame [simp]:
  "s_buf (reply_line x m s) = s_buf s" "s_email (reply_line x m s) = s_email s"
  "s_to (reply_line x m s) = s_to s" "s_rounds (reply_line x m s) = s_rounds s"
  "s_done (reply_line x m s) = s_done s" "s_stream (reply_line x m s) = s_stream s"
  by (simp_all add: reply_line_def)

lemma reply_mode: "s_mode (reply_line x m s) = (if sent_ok x s then s_mode s else M_Closed)"
  by (simp add: reply_line_def)

lemma bye_frame [simp]:
  "s_mode (bye_line m s) = M_Closed" "s_buf (bye_line m s) = s_buf s" "s_email (bye_line m s) = s_email s"
  "s_to (bye_line m s) = s_to s" "s_rounds (bye_line m s) = s_rounds s" "s_done (bye_line m s) = s_done s"
  by (simp_all add: bye_line_def)

lemma next_round_frame [simp]:
  "s_mode (next_round s) = s_mode s" "s_buf (next_round s) = s_buf s" "s_email (next_round s) = s_email s"
  "s_to (next_round s) = s_to s" "s_done (next_round s) = s_done s" "s_stream (next_round s) = s_stream s"
  by (simp_all add: next_round_def)

lemma next_round_rounds: "s_rounds (next_round s) = (if s_mode s = M_Closed then s_rounds s else s_rounds s + 1)"
  by (simp add: next_round_def)

lemma inv_close [simp]: "smtp_inv x s \<Longrightarrow> smtp_inv x (smtp_close s)"
  by (simp add: smtp_inv_def)

lemma inv_bye [simp]: "smtp_inv x s \<Longrightarrow> smtp_inv x (bye_line m s)"
  by (simp add: smtp_inv_def)

text \<open>A command answered with one line: the state before the reply decides.\<close>

lemma inv_round:
  "smtp_inv x s \<Longrightarrow> s_mode s = M_Cmd \<Longrightarrow> s_rounds s \<le> AEM_SMTP_MAX_ROUNDS \<Longrightarrow>
   smtp_inv x (next_round (reply_line x m s))"
  by (simp add: smtp_inv_def next_round_rounds reply_mode mode_ok_def)

lemma length_fill_buf [simp]: "length d \<le> length buf \<Longrightarrow> length (fill_buf d buf) = length buf"
  by (simp add: fill_buf_def)

lemma sender_ok:
  assumes "smtp_addr_sender x buf len em = Sender_Ok em'" "email_ok em"
  shows "email_ok em'"
proof -
  have clip: "unat (if l > 127 then 127 else l :: byte) \<le> 127" for l
    by (simp add: word_le_nat_alt not_less)
  show ?thesis
    using assms
    by (auto simp: smtp_addr_sender_def Let_def email_ok_def clip word_le_nat_alt word_less_nat_alt
        split: if_splits option.splits)
qed

lemma strip_back_some: "strip_back mn cs = Some r \<Longrightarrow> mn \<le> length cs \<Longrightarrow> mn \<le> length r \<and> (\<exists>p. cs = p @ r)"
  by (induction cs) (auto split: if_splits intro: exI [of _ "[]"])

lemma addr_our_cases:
  assumes "smtp_addr_our x buf sec = Inr r \<or> smtp_addr_our x buf sec = Inl (OUR_TLS r)"
  shows "rcpt_ok x r"
proof -
  have uid: "\<exists>resp. sx_lookup x (addr32_store a) = Inr resp \<and> length resp = 3 \<and> uid = le_read (take 2 resp) \<and>
      flags = resp ! 2" if "getUid x a = Inr (uid, flags)" for a uid flags
    using that by (auto simp: getUid_def split: sum.splits intcom_code.splits if_splits)
  have err: "getUid x a \<noteq> Inl (OUR_TLS q)" for a q
    by (auto simp: getUid_def split: sum.splits intcom_code.splits)
  show ?thesis
    using assms err
    by (auto simp: smtp_addr_our_def Let_def rcpt_ok_def dest!: uid
        split: if_splits option.splits sum.splits prod.splits)
qed

section \<open>Every step keeps it\<close>

lemma mail_inv:
  "smtp_inv x s \<Longrightarrow> s_mode s = M_Cmd \<Longrightarrow> s_rounds s \<le> AEM_SMTP_MAX_ROUNDS \<Longrightarrow> smtp_inv x (mail_cmd x n s)"
  unfolding mail_cmd_def
  by (auto split: sender_res.split intro!: inv_round) (auto simp: smtp_inv_def dest: sender_ok)

lemma rcpt_inv:
  assumes "smtp_inv x s" "s_mode s = M_Cmd" "s_rounds s \<le> AEM_SMTP_MAX_ROUNDS"
  shows "smtp_inv x (rcpt_cmd x n s)"
proof -
  have v: "smtp_inv x (s\<lparr>s_email := (s_email s)\<lparr>em_violation := True\<rparr>\<rparr>)"
    using assms(1,2) by (simp add: smtp_inv_def)
  have r: "smtp_inv x (s\<lparr>s_to := s_to s @ [r]\<rparr>)"
    if "rcpt_ok x r" "length (s_to s) < AEM_SMTP_MAX_TO - 1" for r
    using assms(1,2) that by (simp add: smtp_inv_def)
  note addr = addr_our_cases [of x "take (n - 8) (drop 8 (s_buf s))" "is_secure s"]
  have body: "smtp_inv x (next_round (case smtp_addr_our x (take (n - 8) (drop 8 (s_buf s))) (is_secure s) of
          Inr r \<Rightarrow> reply_line x m1 (s\<lparr>s_to := s_to s @ [r]\<rparr>)
        | Inl OUR_USER \<Rightarrow> reply_line x m2 s
        | Inl OUR_DOMAIN \<Rightarrow> reply_line x m3 s
        | Inl OUR_SYNTAX \<Rightarrow> reply_line x m4 s
        | Inl (OUR_TLS r) \<Rightarrow> reply_line x m5 (s\<lparr>s_to := s_to s @ [r]\<rparr>)
        | Inl _ \<Rightarrow> reply_line x m6 s))"
    if "length (s_to s) < AEM_SMTP_MAX_TO - 1" for m1 m2 m3 m4 m5 m6
    using addr that assms by (auto split: sum.split our_error.split intro!: inv_round r)
  show ?thesis
    unfolding rcpt_cmd_def using assms v body by (auto intro!: inv_round simp: not_le)
qed

lemma data_inv:
  assumes "smtp_inv x s" "s_mode s = M_Cmd" "s_rounds s \<le> AEM_SMTP_MAX_ROUNDS"
  shows "smtp_inv x (data_cmd x s)"
proof -
  have v: "smtp_inv x (s\<lparr>s_email := (s_email s)\<lparr>em_violation := True\<rparr>\<rparr>)"
    using assms(1,2) by (simp add: smtp_inv_def)
  have nz: "\<not> l < 1 \<Longrightarrow> l \<noteq> 0" for l :: byte by auto
  show ?thesis
    using assms v
    by (auto simp: data_cmd_def Let_def intro!: inv_round)
       (auto simp: smtp_inv_def mode_ok_def delivery_ok_def reply_mode smtp_consts not_less word_gt_0)
qed

lemma cmd_inv:
  assumes inv: "smtp_inv x s" and len: "\<And>d. ev = Some d \<Longrightarrow> length d \<le> AEM_SMTP_MAX_SIZE_CMD"
  shows "smtp_inv x (cmd_step x ev s)"
proof (cases ev)
  case None
  then show ?thesis using inv by (simp add: cmd_step_def)
next
  case (Some d)
  let ?s0 = "s\<lparr>s_buf := fill_buf d (s_buf s), s_mode := M_Cmd\<rparr>"
  have s0: "smtp_inv x ?s0" using inv len [OF Some] by (simp add: smtp_inv_def)
  have em: "smtp_inv x (?s0\<lparr>s_email := e\<rparr>)" if "email_ok e" for e
    using s0 that by (simp add: smtp_inv_def)
  have rset: "smtp_inv x (?s0\<lparr>s_email := e, s_to := []\<rparr>)" if "email_ok e" for e
    using s0 that by (simp add: smtp_inv_def AEM_SMTP_MAX_TO_def)
  have ok: "email_ok (s_email s)" using inv by (simp add: smtp_inv_def)
  note em' = em [simplified] and rset' = rset [simplified] and s0' = s0 [simplified]
  show ?thesis
    unfolding cmd_step_def Some option.case Let_def
    using s0 ok by (auto intro!: inv_round mail_inv rcpt_inv data_inv em' rset' simp: not_less)
qed

lemma body_end_inv:
  assumes "smtp_inv x s" "delivery_ok x (s_stream s)" "s_rounds s \<le> AEM_SMTP_MAX_ROUNDS"
  shows "smtp_inv x (body_end x s)"
  unfolding body_end_def
  by (rule inv_round) (use assms in \<open>simp_all add: smtp_inv_def AEM_SMTP_MAX_TO_def\<close>)

lemma body_chunk_frame [simp]:
  "s_mode (body_chunk d s) = s_mode s" "s_buf (body_chunk d s) = s_buf s" "s_email (body_chunk d s) = s_email s"
  "s_to (body_chunk d s) = s_to s" "s_rounds (body_chunk d s) = s_rounds s"
  "s_done (body_chunk d s) = s_done s"
  "dv_body (s_stream (body_chunk d s)) = dv_body (s_stream s) @ d"
  by (simp_all add: body_chunk_def)

lemma memmem_le: "memmem d m = Some k \<Longrightarrow> k \<le> length d"
  by (induction d arbitrary: k) (auto split: if_splits)

lemma body_inv:
  assumes "smtp_inv x s" "s_mode s = M_Body n"
  shows "smtp_inv x (body_step x n ev s)"
proof -
  have m: "n < AEM_SMTP_MAX_SIZE_BODY" "length (dv_body (s_stream s)) = n" "delivery_ok x (s_stream s)"
    "s_rounds s \<le> AEM_SMTP_MAX_ROUNDS"
    using assms by (simp_all add: smtp_inv_def mode_ok_def)
  have chunk: "delivery_ok x (s_stream (body_chunk d s))" if "n + length d \<le> AEM_SMTP_MAX_SIZE_BODY" for d
    using m that by (simp add: delivery_ok_def body_chunk_def)
  have base: "smtp_inv x (s\<lparr>s_mode := M_Closed\<rparr>)" using assms(1) by (simp add: smtp_inv_def)
  have fin: "smtp_inv x (body_end x (body_chunk d s))" if "n + length d \<le> AEM_SMTP_MAX_SIZE_BODY" for d
    unfolding body_end_def using base chunk [OF that] m(4)
    by (intro inv_round) (simp_all add: smtp_inv_def AEM_SMTP_MAX_TO_def)
  have go: "smtp_inv x (body_chunk d s\<lparr>s_mode := M_Body (n + length d)\<rparr>)"
    if "n + length d < AEM_SMTP_MAX_SIZE_BODY" for d
    using base chunk [of d] m that by (simp add: smtp_inv_def mode_ok_def)
  have data: "smtp_inv x (case memmem d end_mark of
      Some 0 \<Rightarrow> body_end x s
    | Some k \<Rightarrow> body_end x (body_chunk (take k d) s)
    | None \<Rightarrow> if n + length d < AEM_SMTP_MAX_SIZE_BODY then body_chunk d s\<lparr>s_mode := M_Body (n + length d)\<rparr>
        else body_end x (body_chunk d s))" if "n + length d \<le> AEM_SMTP_MAX_SIZE_BODY" for d
  proof -
    have "n + length (take k d) \<le> AEM_SMTP_MAX_SIZE_BODY" for k using that by (simp add: min_def)
    then show ?thesis
      using body_end_inv [OF assms(1) m(3,4)] fin [OF that] fin go [of d]
      by (auto split: option.split nat.split)
  qed
  have "n + length (take (AEM_SMTP_MAX_SIZE_BODY - n) d) \<le> AEM_SMTP_MAX_SIZE_BODY" for d :: "byte list"
    using m(1) by simp
  note data' = data [OF this]
  show ?thesis
    unfolding body_step_def Let_def using body_end_inv [OF assms(1) m(3,4)] data'
    by (cases ev; cases "the ev") (simp_all del: take_Cons memmem.simps)
qed

lemma helo_inv:
  assumes inv: "smtp_inv x s" and len: "\<And>d. ev = Some d \<Longrightarrow> length d \<le> AEM_SMTP_MAX_SIZE_CMD"
  shows "smtp_inv x (helo_step x ev s)"
proof (cases ev)
  case None
  then show ?thesis using inv by (simp add: helo_step_def)
next
  case (Some d)
  have clip: "unat (if l > 63 then 63 else l :: byte) \<le> 63" for l
    by (simp add: word_le_nat_alt not_less)
  have buf: "length (fill_buf d (s_buf s)) = AEM_SMTP_MAX_SIZE_CMD"
    using inv len [OF Some] by (simp add: smtp_inv_def)
  show ?thesis
    unfolding helo_step_def Some option.case Let_def
    using inv buf clip [of "of_nat (length d - 7)"]
    by (auto simp: smtp_inv_def email_ok_def split: option.split)
qed

lemma starttls_inv:
  "smtp_inv x s \<Longrightarrow> length d \<le> AEM_SMTP_MAX_SIZE_CMD \<Longrightarrow> smtp_inv x (starttls_step x d s)"
  by (simp add: starttls_step_def Let_def smtp_inv_def)

lemma tlshelo_inv:
  assumes inv: "smtp_inv x s" and len: "\<And>d. ev = Some d \<Longrightarrow> length d \<le> AEM_SMTP_MAX_SIZE_CMD"
  shows "smtp_inv x (tlshelo_step x ev s)"
proof (cases "ev = None \<or> ev = Some []")
  case True
  then show ?thesis using inv by (auto simp: tlshelo_step_def)
next
  case False
  then obtain d where d: "ev = Some d" "d \<noteq> []" by auto
  have "smtp_inv x (s\<lparr>s_buf := fill_buf d (s_buf s), s_mode := M_Closed\<rparr>)"
    using inv len [OF d(1)] by (simp add: smtp_inv_def)
  then show ?thesis
    using d by (cases d) (auto simp: tlshelo_step_def Let_def smtp_inv_def split: option.split)
qed

lemma smtp_step_inv: "smtp_inv x s \<Longrightarrow> smtp_inv x (smtp_step x ev s)"
  by (cases ev)
     (auto simp: smtp_step_def Let_def intro!: helo_inv starttls_inv tlshelo_inv cmd_inv body_inv
       split: smtp_mode.split)

interpretation session: kept "smtp_step x" "smtp_inv x" for x
  by unfold_locales (rule smtp_step_inv)

lemma smtp_init_inv: "length buf = AEM_SMTP_MAX_SIZE_CMD \<Longrightarrow> smtp_inv x (smtp_init x buf)"
  by (simp add: smtp_init_def Let_def smtp_inv_def AEM_SMTP_MAX_TO_def)

text \<open>C10: Whatever a client sends and however the network and the other processes behave, everything
  the session hands to AEM-Deliver has a sender, between 1 and 127 recipients, each one an address
  that AEM-Account confirmed with the user number and flags handed over, and at most 4 MiB of body; a
  session reads at most 501 commands and keeps its buffers in bounds.\<close>

theorem smtp_session_invariant:
  assumes "length buf = AEM_SMTP_MAX_SIZE_CMD"
  shows "list_all (delivery_ok x) (s_done (smtp_run x buf evs)) \<and> smtp_inv x (smtp_run x buf evs)"
  using session.run_inv [OF smtp_init_inv [OF assms], of x evs] by (simp add: smtp_run_def smtp_inv_def)

section \<open>The session ends\<close>

text \<open>A potential that every event lowers until the session is closed (or hangs).\<close>

definition smtp_pot :: "smtp \<Rightarrow> nat" where
  "smtp_pot s =
     (let left = (AEM_SMTP_MAX_ROUNDS + 2 - s_rounds s) * (AEM_SMTP_MAX_SIZE_BODY + 1)
      in case s_mode s of
           M_Helo \<Rightarrow> left + 3 | M_First \<Rightarrow> left + 2 | M_TlsHelo \<Rightarrow> left + 1 | M_Cmd \<Rightarrow> left
         | M_Body n \<Rightarrow> left - 1 - n | M_Closed \<Rightarrow> 0 | M_Hung \<Rightarrow> 0)"

abbreviation smtp_ended :: "smtp \<Rightarrow> bool" where
  "smtp_ended s \<equiv> s_mode s = M_Closed \<or> s_mode s = M_Hung"

definition round_pot :: "nat \<Rightarrow> nat" where
  "round_pot r = (AEM_SMTP_MAX_ROUNDS + 2 - r) * (AEM_SMTP_MAX_SIZE_BODY + 1)"

lemma round_pot_pos: "r \<le> AEM_SMTP_MAX_ROUNDS + 1 \<Longrightarrow> AEM_SMTP_MAX_SIZE_BODY < round_pot r"
  by (simp add: round_pot_def smtp_consts)

lemma round_pot_Suc: "r \<le> AEM_SMTP_MAX_ROUNDS \<Longrightarrow> round_pot (r + 1) + AEM_SMTP_MAX_SIZE_BODY + 1 = round_pot r"
  by (simp add: round_pot_def smtp_consts)

text \<open>The outcomes of a command: the session ended, the next round, or the body.\<close>

definition cmd_outcome :: "smtp \<Rightarrow> smtp \<Rightarrow> bool" where
  "cmd_outcome s t \<longleftrightarrow> smtp_ended t \<or> (s_mode t = M_Cmd \<and> s_rounds t = s_rounds s + 1) \<or>
     (s_mode t = M_Body 0 \<and> s_rounds t = s_rounds s)"

lemma outcome_round:
  "s_mode s' = M_Cmd \<Longrightarrow> s_rounds s' = s_rounds s \<Longrightarrow> cmd_outcome s (next_round (reply_line x m s'))"
  by (simp add: cmd_outcome_def next_round_rounds reply_mode)

lemma outcome_end:
  "cmd_outcome s (smtp_close t)" "cmd_outcome s (bye_line m t)" "cmd_outcome s (t\<lparr>s_mode := M_Hung\<rparr>)"
  by (simp_all add: cmd_outcome_def)

lemma mail_outcome: "s_mode s = M_Cmd \<Longrightarrow> cmd_outcome s (mail_cmd x n s)"
  by (simp add: mail_cmd_def outcome_round outcome_end split: sender_res.split)

lemma rcpt_outcome: "s_mode s = M_Cmd \<Longrightarrow> cmd_outcome s (rcpt_cmd x n s)"
  by (simp add: rcpt_cmd_def outcome_round split: sum.split our_error.split)

lemma data_outcome: "s_mode s = M_Cmd \<Longrightarrow> cmd_outcome s (data_cmd x s)"
  by (simp add: data_cmd_def Let_def outcome_round outcome_end)
     (simp add: cmd_outcome_def reply_mode)

lemma cmd_step_outcome: "s_rounds s > AEM_SMTP_MAX_ROUNDS \<Longrightarrow> smtp_ended (cmd_step x ev s)"
  by (auto simp: cmd_step_def Let_def split: option.split)

lemma cmd_outcome_cong: "s_rounds s = s_rounds s' \<Longrightarrow> cmd_outcome s t = cmd_outcome s' t"
  by (simp add: cmd_outcome_def)

lemma cmd_step_outcomes: "cmd_outcome s (cmd_step x ev s)"
proof (cases ev)
  case None
  then show ?thesis by (simp add: cmd_step_def cmd_outcome_def)
next
  case (Some d)
  let ?s0 = "s\<lparr>s_buf := fill_buf d (s_buf s), s_mode := M_Cmd\<rparr>"
  have "cmd_outcome s t = cmd_outcome ?s0 t" for t by (rule cmd_outcome_cong) simp
  then have sub: "cmd_outcome s (mail_cmd x n ?s0)" "cmd_outcome s (rcpt_cmd x n ?s0)"
    "cmd_outcome s (data_cmd x ?s0)" for n
    using mail_outcome rcpt_outcome data_outcome by simp_all
  show ?thesis
    unfolding cmd_step_def Some option.case Let_def
    using sub by (simp add: outcome_round outcome_end)
qed

lemma smtp_pot_alt:
  "smtp_pot s = (case s_mode s of M_Helo \<Rightarrow> round_pot (s_rounds s) + 3 | M_First \<Rightarrow> round_pot (s_rounds s) + 2
     | M_TlsHelo \<Rightarrow> round_pot (s_rounds s) + 1 | M_Cmd \<Rightarrow> round_pot (s_rounds s)
     | M_Body n \<Rightarrow> round_pot (s_rounds s) - 1 - n | M_Closed \<Rightarrow> 0 | M_Hung \<Rightarrow> 0)"
  by (simp add: smtp_pot_def round_pot_def Let_def split: smtp_mode.split)

lemma cmd_pot:
  assumes "s_rounds s \<le> AEM_SMTP_MAX_ROUNDS + 1"
  shows "smtp_pot (cmd_step x ev s) < round_pot (s_rounds s)"
proof (cases "s_rounds s \<le> AEM_SMTP_MAX_ROUNDS")
  case True
  then show ?thesis
    using cmd_step_outcomes [of s x ev] round_pot_Suc [OF True] round_pot_pos [OF assms]
    by (auto simp: cmd_outcome_def smtp_pot_alt)
next
  case False
  then have "smtp_ended (cmd_step x ev s)" by (intro cmd_step_outcome) simp
  then show ?thesis using round_pot_pos [OF assms] by (auto simp: smtp_pot_alt)
qed

lemma body_end_pot:
  assumes "s_rounds s \<le> AEM_SMTP_MAX_ROUNDS" "n < AEM_SMTP_MAX_SIZE_BODY"
  shows "smtp_pot (body_end x s) < round_pot (s_rounds s) - 1 - n"
  using round_pot_Suc [OF assms(1)] round_pot_pos [of "s_rounds s"] assms
  by (auto simp: body_end_def smtp_pot_alt next_round_rounds reply_mode)

lemma body_pot:
  assumes "s_rounds s \<le> AEM_SMTP_MAX_ROUNDS" "n < AEM_SMTP_MAX_SIZE_BODY"
  shows "smtp_pot (body_step x n ev s) < round_pot (s_rounds s) - 1 - n"
proof -
  have fin: "smtp_pot (body_end x (body_chunk d s)) < round_pot (s_rounds s) - 1 - n" for d
    using body_end_pot [of "body_chunk d s" n x] assms by simp
  have data: "smtp_pot (case memmem d end_mark of
      Some 0 \<Rightarrow> body_end x s
    | Some k \<Rightarrow> body_end x (body_chunk (take k d) s)
    | None \<Rightarrow> if n + length d < AEM_SMTP_MAX_SIZE_BODY then body_chunk d s\<lparr>s_mode := M_Body (n + length d)\<rparr>
        else body_end x (body_chunk d s)) < round_pot (s_rounds s) - 1 - n" if "d \<noteq> []" for d
  proof -
    have "0 < length d" using that by simp
    moreover have "AEM_SMTP_MAX_SIZE_BODY < round_pot (s_rounds s)"
      using assms(1) by (intro round_pot_pos) simp
    ultimately have "n + length d < AEM_SMTP_MAX_SIZE_BODY \<Longrightarrow>
        round_pot (s_rounds s) - 1 - (n + length d) < round_pot (s_rounds s) - 1 - n" by linarith
    then have "n + length d < AEM_SMTP_MAX_SIZE_BODY \<Longrightarrow>
        smtp_pot (body_chunk d s\<lparr>s_mode := M_Body (n + length d)\<rparr>) < round_pot (s_rounds s) - 1 - n"
      by (simp only: smtp_pot_alt smtp.simps smtp_mode.case body_chunk_frame) simp
    then show ?thesis using fin body_end_pot [OF assms, of x] by (auto split: option.split nat.split)
  qed
  have "take (AEM_SMTP_MAX_SIZE_BODY - n) d \<noteq> []" if "d \<noteq> []" for d :: "byte list"
    using assms(2) that by simp
  note data' = data [OF this]
  show ?thesis
    unfolding body_step_def Let_def using body_end_pot [OF assms, of x] data'
    by (cases ev; cases "the ev") (simp_all del: take_Cons memmem.simps)
qed

lemma smtp_step_pot:
  assumes inv: "smtp_inv x s" and opn: "\<not> smtp_ended s"
  shows "smtp_pot (smtp_step x ev s) < smtp_pot s"
proof -
  have r: "s_rounds s \<le> AEM_SMTP_MAX_ROUNDS + 1" using inv by (simp add: smtp_inv_def)
  note cmd = cmd_pot [OF r]
  show ?thesis
  proof (cases "s_mode s")
    case M_Helo
    then show ?thesis
      by (auto simp: smtp_step_def helo_step_def Let_def smtp_pot_alt split: option.split)
  next
    case M_First
    have tls: "smtp_pot (starttls_step x d s) < round_pot (s_rounds s) + 2" for d
      by (simp add: starttls_step_def smtp_pot_alt Let_def)
    have "smtp_pot (cmd_step x e s) < round_pot (s_rounds s) + 2" for e
      using cmd [of x e] by simp
    then show ?thesis
      using M_First tls by (cases ev) (simp_all add: smtp_step_def Let_def smtp_pot_alt [of s])
  next
    case M_TlsHelo
    then show ?thesis
      by (auto simp: smtp_step_def tlshelo_step_def Let_def smtp_pot_alt split: option.split list.split)
  next
    case M_Cmd
    then show ?thesis using cmd [of x] by (simp add: smtp_step_def Let_def smtp_pot_alt [of s])
  next
    case (M_Body n)
    then show ?thesis
      using body_pot [of s n x] inv by (simp add: smtp_step_def smtp_pot_alt [of s] smtp_inv_def mode_ok_def)
  qed (use opn in simp_all)
qed

lemma smtp_ended_step: "smtp_ended s \<Longrightarrow> smtp_step x ev s = s"
  by (auto simp: smtp_step_def)

lemma smtp_ended_run: "smtp_ended s \<Longrightarrow> fold (smtp_step x) evs s = s"
  by (induction evs) (simp_all add: smtp_ended_step)

lemma smtp_runs_out: "smtp_inv x s \<Longrightarrow> smtp_pot s \<le> length evs \<Longrightarrow> smtp_ended (fold (smtp_step x) evs s)"
proof (induction evs arbitrary: s)
  case Nil
  have "0 < round_pot (s_rounds s)" and "\<And>n. s_mode s = M_Body n \<Longrightarrow> 0 < round_pot (s_rounds s) - 1 - n"
    using Nil(1) round_pot_pos [of "s_rounds s"] by (auto simp: smtp_inv_def mode_ok_def)
  then show ?case using Nil(2) by (auto simp: smtp_pot_alt split: smtp_mode.splits)
next
  case (Cons e evs)
  show ?case
  proof (cases "smtp_ended s")
    case True
    then show ?thesis using smtp_ended_run [OF True, of x "e # evs"] by simp
  next
    case False
    have "smtp_pot (smtp_step x e s) \<le> length evs"
      using smtp_step_pot [OF Cons.prems(1) False, of e] Cons.prems(2) by simp
    then show ?thesis using Cons.IH [OF smtp_step_inv [OF Cons.prems(1)]] by simp
  qed
qed

text \<open>C17: A session ends: after at most \<open>502 * 4194305 + 3\<close> reads (501 commands, and for each the bytes
  of a largest body one by one) it is closed, unless it hangs in one of the two loops that need not
  end.\<close>

theorem smtp_session_ends:
  assumes "length buf = AEM_SMTP_MAX_SIZE_CMD" "502 * 4194305 + 3 \<le> length evs"
  shows "smtp_ended (smtp_run x buf evs)"
proof -
  have "smtp_pot (smtp_init x buf) \<le> 502 * 4194305 + 3"
    by (simp add: smtp_init_def Let_def smtp_pot_alt round_pot_def smtp_consts)
  then show ?thesis
    unfolding smtp_run_def using assms by (intro smtp_runs_out smtp_init_inv) simp_all
qed

definition demo_smtp_ext :: smtp_ext where
  "demo_smtp_ext = \<lparr>sx_domain = str ''our.example'',
     sx_lookup = \<lambda>a. if a = addr32_store (str ''bob'') then Inr [5, 0, 0x1E] else Inl IC_NOTEXIST,
     sx_sent = \<lambda>n. True, sx_time = 9, sx_ip = 7, sx_tls_setup = True, sx_tls_accept = True,
     sx_tls_version = str ''TLSv1.2'', sx_cipher = 1, sx_cert = None, sx_stream_open = \<lambda>n. True,
     sx_stream_head = \<lambda>n. True, sx_stream_end = \<lambda>n. IC_OK, sx_stack = \<lambda>i. 0\<rparr>"

theorem smtp_session_invariant_witness:
  "smtp_inv demo_smtp_ext (smtp_run demo_smtp_ext (replicate 512 0)
     [Some (str ''EHLO x'' @ crlf), Some (str ''MAIL FROM:<a@b>'' @ crlf)])"
  using smtp_session_invariant [of "replicate 512 0" demo_smtp_ext] by (simp add: smtp_consts)

theorem smtp_session_ends_witness:
  "smtp_ended (smtp_run demo_smtp_ext (replicate 512 0) (replicate (502 * 4194305 + 3) (Some [78])))"
  by (rule smtp_session_ends) (simp_all add: smtp_consts)

section \<open>Where it does not do what it means to\<close>

text \<open>A \<^verbatim>\<open>MAIL FROM\<close> argument with no \<^verbatim>\<open>>\<close> in the first 256 characters: the 8-bit
  counter wraps around below the limit for ever, whatever the fuel.\<close>

lemma envfr_loop_never_ends:
  "(\<And>i. i < 256 \<Longrightarrow> rd i \<noteq> 62) \<Longrightarrow> mx > 255 \<Longrightarrow> envfr_loop fuel rd mx l = None"
proof (induction fuel arbitrary: l)
  case (Suc fuel)
  have "unat l < 256" by simp
  then have "int (unat l) < mx" "rd (unat l) \<noteq> 62" using Suc.prems by (linarith, blast)
  then show ?case using Suc by simp
qed simp

lemma cert_name_never_ends: "length name < 4 \<Longrightarrow> cert_loop (name # names) g e h = None"
  by simp

text \<open>Which command a line is.\<close>

lemma cmd_is_iff:
  "length s \<le> length d \<Longrightarrow> cmd_is d s \<longleftrightarrow> map to_lower (take (length s) d) = map to_lower (str s)"
  by (simp add: cmd_is_def memeq_anycase_in_range)

lemma cmd_is_fill: "length s \<le> length d \<Longrightarrow> cmd_is (fill_buf d buf) s = cmd_is d s"
  by (simp add: cmd_is_iff fill_buf_def)

lemma cmd_is_head:
  assumes "cmd_is (c # d) (a # s)"
  shows "to_lower c = to_lower (of_char a)"
  using assms by (simp add: cmd_is_def str_def split: if_splits)

definition data_line :: "byte list" where "data_line = [68, 65, 84, 65, 13, 10]"

lemma data_line_is:
  "cmd_is (fill_buf data_line b) ''DATA''" "\<not> cmd_is (fill_buf data_line b) ''RSET''"
  "\<not> cmd_is (fill_buf data_line b) ''VRFY''" "\<not> cmd_is (fill_buf data_line b) ''QUIT''"
  by (simp_all add: cmd_is_def data_line_def fill_buf_def str_def to_lower_def is_upper_def)

lemma cmd_step_data:
  assumes "s_rounds s \<le> AEM_SMTP_MAX_ROUNDS"
  shows "cmd_step x (Some data_line) s =
    data_cmd x (s\<lparr>s_buf := fill_buf data_line (s_buf s), s_mode := M_Cmd\<rparr>)"
proof -
  have "length data_line = 6" by (simp add: data_line_def)
  then show ?thesis
    unfolding cmd_step_def option.case Let_def using assms by (simp add: data_line_is not_less)
qed

lemma body_step_data:
  "d0 \<noteq> [] \<Longrightarrow> body_step x n (Some d0) s =
     (let d = take (AEM_SMTP_MAX_SIZE_BODY - n) d0
      in case memmem d end_mark of
           Some 0 \<Rightarrow> body_end x s
         | Some k \<Rightarrow> body_end x (body_chunk (take k d) s)
         | None \<Rightarrow>
             let s1 = body_chunk d s; n = n + length d
             in if n < AEM_SMTP_MAX_SIZE_BODY then s1\<lparr>s_mode := M_Body n\<rparr> else body_end x s1)"
  by (cases d0) (simp_all add: body_step_def)

lemma body_step_marked:
  assumes "memmem (msg @ end_mark) end_mark = Some (length msg)" "msg \<noteq> []"
    "length msg + 5 \<le> AEM_SMTP_MAX_SIZE_BODY"
  shows "body_step x 0 (Some (msg @ end_mark)) s = body_end x (body_chunk msg s)"
proof -
  have ne: "msg @ end_mark \<noteq> []" using assms(2) by simp
  have tk: "take (AEM_SMTP_MAX_SIZE_BODY - 0) (msg @ end_mark) = msg @ end_mark"
    using assms(3) by (simp add: end_mark_def)
  obtain k where k: "length msg = Suc k" using assms(2) by (cases msg) auto
  have "take (length msg) (msg @ end_mark) = msg" by simp
  then show ?thesis unfolding body_step_data [OF ne] Let_def tk assms(1) unfolding k by simp
qed

text \<open>C20: The protection of addresses that ask for a secure connection does not protect: without TLS the
  recipient is refused with code 450 but recorded all the same, and when the client goes on with
  \<^verbatim>\<open>DATA\<close> the message is delivered to it.\<close>

theorem secure_recipient_without_tls:
  assumes s: "s_mode s = M_Cmd" "s_tls s = None" "em_lenEnvFr (s_email s) \<noteq> 0" "length (s_to s) < 127"
      "s_rounds s < 500"
    and rcpt: "cmd_is d ''RCPT TO:''" "8 < length d" "length d \<le> 512"
      "smtp_addr_our x (drop 8 d) False = Inl (OUR_TLS r)"
    and env: "\<And>n. sx_sent x n" "\<And>n. sx_stream_open x n" "\<And>n. sx_stream_head x n"
    and msg: "memmem (msg @ end_mark) end_mark = Some (length msg)" "msg \<noteq> []" "length msg + 5 \<le> 65536"
    and t: "t = fold (smtp_step x) [Some d, Some data_line, Some (msg @ end_mark)] s"
  shows "dv_to (last (s_done t)) = s_to s @ [r] \<and> dv_body (last (s_done t)) = msg \<and>
    s_out t ! length (s_out s) =
      str ''450 4.7.0 Recipient requires a secure connection (TLS 1.3)'' @ crlf"
proof -
  have not: "\<not> cmd_is d ''MAIL FROM:''"
  proof
    assume "cmd_is d ''MAIL FROM:''"
    moreover obtain c ds where "d = c # ds" using rcpt(2) by (cases d) auto
    ultimately have "to_lower c = to_lower (of_char CHR ''M'')" "to_lower c = to_lower (of_char CHR ''R'')"
      using rcpt(1) cmd_is_head by blast+
    then show False by (simp add: to_lower_def is_upper_def)
  qed
  have nofull: "\<not> length (s_to s) \<ge> AEM_SMTP_MAX_TO - 1" "\<not> s_rounds s > AEM_SMTP_MAX_ROUNDS"
    "take AEM_SMTP_MAX_SIZE_CMD d = d"
    using s(4,5) rcpt(3) by (simp_all add: smtp_consts)
  have nomail: "\<not> (10 < length d \<and> cmd_is (fill_buf d (s_buf s)) ''MAIL FROM:'')"
    using not cmd_is_fill [of "''MAIL FROM:''" d] by auto
  have isrcpt: "8 < length d \<and> cmd_is (fill_buf d (s_buf s)) ''RCPT TO:''"
    using rcpt(1,2) cmd_is_fill [of "''RCPT TO:''" d] by simp
  have arg: "take (length d - 8) (drop 8 (fill_buf d (s_buf s))) = drop 8 d"
    using rcpt(2) by (simp add: fill_buf_def)
  let ?m = "str ''450 4.7.0 Recipient requires a secure connection (TLS 1.3)'' @ crlf"
  define s1 where "s1 = smtp_step x (Some d) s"
  have s1: "s_mode s1 = M_Cmd" "s_to s1 = s_to s @ [r]" "em_lenEnvFr (s_email s1) \<noteq> 0" "s_rounds s1 = s_rounds s + 1"
    "s_out s1 = s_out s @ [?m]" "s_done s1 = s_done s"
  proof -
    have e: "s1 = next_round (reply_line x ''450 4.7.0 Recipient requires a secure connection (TLS 1.3)''
        (s\<lparr>s_buf := fill_buf d (s_buf s), s_mode := M_Cmd, s_to := s_to s @ [r]\<rparr>))"
      unfolding s1_def smtp_step_def cmd_step_def Let_def
      using s(1-3) nofull nomail isrcpt rcpt(2)
      by (simp add: rcpt_cmd_def arg rcpt(4) is_secure_def word_less_1) blast
    show "s_mode s1 = M_Cmd" "s_to s1 = s_to s @ [r]" "em_lenEnvFr (s_email s1) \<noteq> 0" "s_rounds s1 = s_rounds s + 1"
      "s_out s1 = s_out s @ [?m]" "s_done s1 = s_done s"
      unfolding e using s(3) env(1)
      by (simp_all add: reply_line_def sent_ok_def next_round_def say_def)
  qed
  define s2 where "s2 = smtp_step x (Some data_line) s1"
  have tk: "take AEM_SMTP_MAX_SIZE_CMD data_line = data_line" by (simp add: smtp_consts data_line_def)
  have s2: "s_mode s2 = M_Body 0" "dv_to (s_stream s2) = s_to s @ [r]" "dv_body (s_stream s2) = []"
    "s_out s2 = s_out s @ [?m, str ''354 Ok'' @ crlf]"
  proof -
    have e: "s2 = (reply_line x ''354 Ok'' (s1\<lparr>s_buf := fill_buf data_line (s_buf s1), s_mode := M_Cmd\<rparr>))
        \<lparr>s_mode := M_Body 0, s_stream := \<lparr>dv_to = s_to s1, dv_email = s_email s1, dv_body = []\<rparr>\<rparr>"
    proof -
      have r: "s_rounds s1 \<le> AEM_SMTP_MAX_ROUNDS" using s1(4) s(5) by (simp add: smtp_consts)
      have "s2 = data_cmd x (s1\<lparr>s_buf := fill_buf data_line (s_buf s1), s_mode := M_Cmd\<rparr>)"
        unfolding s2_def smtp_step_def Let_def by (simp add: s1(1) tk cmd_step_data [OF r])
      then show ?thesis
        unfolding data_cmd_def Let_def using s1(2,3) env(2,3)
        by (simp add: word_less_1 reply_mode sent_ok_def env(1))
    qed
    show "s_mode s2 = M_Body 0" "dv_to (s_stream s2) = s_to s @ [r]" "dv_body (s_stream s2) = []"
      "s_out s2 = s_out s @ [?m, str ''354 Ok'' @ crlf]"
      unfolding e using s1 env(1) by (simp_all add: reply_line_def sent_ok_def say_def)
  qed
  have ck: "take AEM_SMTP_CHUNKSIZE (msg @ end_mark) = msg @ end_mark"
    "take AEM_SMTP_MAX_SIZE_BODY (msg @ end_mark) = msg @ end_mark"
    using msg(3) by (simp_all add: smtp_consts end_mark_def)
  have "t = body_end x (body_chunk msg s2)"
    unfolding t fold.simps comp_apply id_apply s1_def [symmetric] s2_def [symmetric]
    unfolding smtp_step_def Let_def s2(1) option.map smtp_mode.case ck
    by (rule body_step_marked [OF msg(1,2)]) (use msg(3) in \<open>simp add: smtp_consts\<close>)
  then show ?thesis
    using s2 env(1)
    by (simp add: body_end_def next_round_def reply_line_def sent_ok_def say_def body_chunk_def nth_append)
qed

definition demo_rcpt_line :: "byte list" where
  "demo_rcpt_line = str ''RCPT TO:<bob@our.example>'' @ crlf"

lemma demo_rcpt_addr:
  "smtp_addr_our demo_smtp_ext (drop 8 demo_rcpt_line) False =
     Inl (OUR_TLS \<lparr>rc_to = str ''bob'', rc_uid = 5, rc_flags = 0x1E\<rparr>)"
  by code_simp

theorem secure_recipient_without_tls_witness:
  "\<exists>t. t = fold (smtp_step demo_smtp_ext) [Some demo_rcpt_line, Some data_line, Some ([72] @ end_mark)]
       ((smtp_init demo_smtp_ext (replicate 512 0))
          \<lparr>s_mode := M_Cmd, s_email := zero_email\<lparr>em_lenEnvFr := 3\<rparr>\<rparr>) \<and>
     dv_to (last (s_done t)) = [\<lparr>rc_to = str ''bob'', rc_uid = 5, rc_flags = 0x1E\<rparr>]"
proof -
  let ?s = "(smtp_init demo_smtp_ext (replicate 512 0))
      \<lparr>s_mode := M_Cmd, s_email := zero_email\<lparr>em_lenEnvFr := 3\<rparr>\<rparr>"
  have "cmd_is demo_rcpt_line ''RCPT TO:''" by code_simp
  moreover have "8 < length demo_rcpt_line" "length demo_rcpt_line \<le> 512"
    by (simp_all add: demo_rcpt_line_def crlf_def)
  moreover have "memmem ([72] @ end_mark) end_mark = Some (length [72 :: byte])" by code_simp
  moreover have "s_to ?s = []" "s_tls ?s = None" "s_rounds ?s = 0"
    by (simp_all add: smtp_init_def Let_def smtp_close_def say_def)
  ultimately show ?thesis
    using secure_recipient_without_tls [OF _ _ _ _ _ _ _ _ demo_rcpt_addr _ _ _ _ _ _ refl, of ?s "[72]"]
    by (simp add: demo_smtp_ext_def)
qed

end
