(* ===== verification/Domain.thy ===== *)
theory Domain
  imports Mem_Eq
begin

text \<open>
  \<^verbatim>\<open>src/Common/ValidDomain.c\<close>, \<^verbatim>\<open>ValidEmail.c\<close> and \<^verbatim>\<open>ValidIp.c\<close>: which domain names,
  email addresses and IPv4 addresses the server accepts.  The scan of a domain is shown to accept
  exactly the names whose labels are well formed.
\<close>

section \<open>The code\<close>

definition hasAlpha :: "byte list \<Rightarrow> bool" where
  "hasAlpha c \<longleftrightarrow> list_ex is_lower c"

definition ldh :: "byte \<Rightarrow> bool" where
  "ldh c \<longleftrightarrow> is_lower c \<or> is_digit c"

text \<open>The loop: \<open>n\<close> is the length of the whole name, \<open>prev\<close> the character before position \<open>i\<close>.  The
  result is the last dot and the first character behind it, \<open>None\<close> for \<^verbatim>\<open>return false\<close>.\<close>

fun vd_scan :: "nat \<Rightarrow> byte \<Rightarrow> nat \<Rightarrow> nat \<Rightarrow> nat \<Rightarrow> byte list \<Rightarrow> (nat \<times> nat) option" where
  "vd_scan n prev i lastDot firstCh [] = Some (lastDot, firstCh)"
| "vd_scan n prev i lastDot firstCh (c # cs) =
     (if ldh c then vd_scan n c (Suc i) lastDot firstCh cs
      else if c = 46 \<and> i - firstCh > 63 then None
      else let (lastDot, firstCh) = (if c = 46 then (i, Suc i) else (lastDot, firstCh))
      in if i > 0 \<and> (c = 46 \<and> ldh prev \<or> c = 45 \<and> (ldh prev \<or> prev = 45) \<and> i < n - 1)
         then vd_scan n c (Suc i) lastDot firstCh cs
         else None)"

definition reserved_domain :: "byte list \<Rightarrow> bool" where
  "reserved_domain d \<longleftrightarrow> length d = 11 \<and> memeq d (str ''example.'') 8 = Some True \<and>
     (memeq (drop 8 d) (str ''com'') 3 = Some True \<or> memeq (drop 8 d) (str ''net'') 3 = Some True \<or>
      memeq (drop 8 d) (str ''org'') 3 = Some True)"

definition isValidDomain :: "byte list \<Rightarrow> bool" where
  "isValidDomain d \<longleftrightarrow>
     (if length d < 4 \<or> length d > 127 \<or> reserved_domain d then False
      else case vd_scan (length d) 0 0 0 0 d of
        None \<Rightarrow> False
      | Some (lastDot, firstCh) \<Rightarrow>
          lastDot > 0 \<and> lastDot < length d - 2 \<and> length d - firstCh \<le> 63 \<and>
          hasAlpha (drop (lastDot + 1) d))"

text \<open>The local part of an email address, up to the \<^verbatim>\<open>@\<close>: its length, or \<open>None\<close>.\<close>

fun ve_local :: "byte \<Rightarrow> nat \<Rightarrow> byte list \<Rightarrow> nat option" where
  "ve_local prev n [] = Some n"
| "ve_local prev n (c # cs) =
     (if is_alnum c then ve_local c (Suc n) cs
      else if n > 0 \<and> (c = 45 \<or> c = 43 \<or> c = 95 \<or> c = 46 \<and> prev \<noteq> 46) then ve_local c (Suc n) cs
      else if c = 64 then Some n
      else None)"

definition isValidEmail :: "byte list \<Rightarrow> bool" where
  "isValidEmail e \<longleftrightarrow>
     (if length e < 6 \<or> length e > 127 then False
      else case ve_local 0 0 e of
        None \<Rightarrow> False
      | Some n \<Rightarrow> 1 \<le> n \<and> n \<le> 64 \<and> n < length e \<and> e ! n = 64 \<and> isValidDomain (drop (Suc n) e))"

definition validIp :: "u32 \<Rightarrow> u32" where
  "validIp ip =
     (let b1 = ip AND 0xFF; b2 = drop_bit 8 ip AND 0xFF; b3 = drop_bit 16 ip AND 0xFF
      in if b1 = 0 \<or> b1 = 10 \<or> (b1 = 100 \<and> b2 \<ge> 64 \<and> b2 \<le> 127) \<or> b1 = 127 \<or> (b1 = 169 \<and> b2 = 254) \<or>
            (b1 = 172 \<and> b2 \<ge> 16 \<and> b2 \<le> 31) \<or> (b1 = 192 \<and> b2 = 0 \<and> b3 = 0) \<or>
            (b1 = 192 \<and> b2 = 0 \<and> b3 = 2) \<or> (b1 = 192 \<and> b2 = 88 \<and> b3 = 99) \<or> (b1 = 192 \<and> b2 = 168) \<or>
            (b1 = 198 \<and> b2 \<ge> 18 \<and> b2 \<le> 19) \<or> (b1 = 198 \<and> b2 = 51 \<and> b3 = 100) \<or>
            (b1 = 203 \<and> b2 = 0 \<and> b3 = 113) \<or> (b1 \<ge> 224 \<and> b1 \<le> 239) \<or> b1 \<ge> 240
         then 1 else ip)"

section \<open>Labels\<close>

text \<open>The parts between the dots; \<open>cur\<close> is what was read of the current one.\<close>

fun split_acc :: "byte list \<Rightarrow> byte list \<Rightarrow> byte list list" where
  "split_acc cur [] = [cur]"
| "split_acc cur (c # cs) = (if c = 46 then cur # split_acc [] cs else split_acc (cur @ [c]) cs)"

definition labels :: "byte list \<Rightarrow> byte list list" where
  "labels d = split_acc [] d"

definition label_chars :: "byte list \<Rightarrow> bool" where
  "label_chars l \<longleftrightarrow> list_all (\<lambda>c. ldh c \<or> c = 45) l \<and> ldh (hd l)"

definition label_ok :: "byte list \<Rightarrow> bool" where
  "label_ok l \<longleftrightarrow> l \<noteq> [] \<and> length l \<le> 63 \<and> label_chars l \<and> ldh (last l)"

definition last_ok :: "byte list \<Rightarrow> bool" where
  "last_ok l \<longleftrightarrow> l = [] \<or> (label_chars l \<and> ldh (last l))"

lemma split_acc_ne [simp]: "split_acc cur cs \<noteq> []"
  by (induction cur cs rule: split_acc.induct) auto

lemma not_ldh: "\<not> ldh 46" "\<not> ldh 45"
  by (simp_all add: ldh_def ctype_defs)

lemma label_chars_snoc: "cur \<noteq> [] \<Longrightarrow> label_chars (cur @ [c]) \<longleftrightarrow> label_chars cur \<and> (ldh c \<or> c = 45)"
  by (auto simp: label_chars_def)

lemma split_acc_first: "\<exists>ys. hd (split_acc cur cs) = cur @ ys \<and> (cs = [] \<longrightarrow> ys = [])"
proof (induction cur cs rule: split_acc.induct)
  case (2 cur c cs)
  then show ?case by (cases "c = 46") auto
qed simp

text \<open>A label that begins badly makes the whole name bad.\<close>

lemma bad_first:
  assumes "cur \<noteq> []" "\<not> label_chars cur"
  shows "\<not> ((\<forall>l \<in> set (butlast (split_acc cur cs)). label_ok l) \<and> last_ok (last (split_acc cur cs)))"
proof -
  obtain ys where ys: "hd (split_acc cur cs) = cur @ ys" using split_acc_first [of cur cs] by auto
  have bad: "\<not> label_chars (cur @ ys)" using assms by (auto simp: label_chars_def)
  show ?thesis
  proof (cases "tl (split_acc cur cs) = []")
    case True
    then have "split_acc cur cs = [cur @ ys]" using ys by (cases "split_acc cur cs") auto
    then show ?thesis using bad assms(1) by (simp add: last_ok_def)
  next
    case False
    then have "cur @ ys \<in> set (butlast (split_acc cur cs))" using ys by (cases "split_acc cur cs") auto
    then show ?thesis using bad by (auto simp: label_ok_def)
  qed
qed

definition scan_result :: "nat \<Rightarrow> nat \<Rightarrow> nat \<Rightarrow> byte list list \<Rightarrow> (nat \<times> nat) option" where
  "scan_result n ld fc ls =
     (if (\<forall>l \<in> set (butlast ls). label_ok l) \<and> last_ok (last ls)
      then Some (if length ls = 1 then (ld, fc) else (n - length (last ls) - 1, n - length (last ls)))
      else None)"

lemma scan_result_Cons:
  "ls \<noteq> [] \<Longrightarrow> scan_result n ld fc (l # ls) =
     (if label_ok l then
        (if length ls = 1 then (if last_ok (last ls) then Some (n - length (last ls) - 1, n - length (last ls)) else None)
         else scan_result n ld fc ls)
      else None)"
  by (cases ls) (auto simp: scan_result_def)

lemma length_split_acc_last: "length (last (split_acc cur cs)) \<le> length cur + length cs"
proof (induction cur cs rule: split_acc.induct)
  case (2 cur c cs)
  then show ?case by (cases "c = 46") auto
qed simp

text \<open>With one label left the scan keeps what it was given; with more it ends at the last one.\<close>

lemma vd_scan_result:
  assumes "cur \<noteq> [] \<Longrightarrow> label_chars cur \<and> prev = last cur" "cur = [] \<Longrightarrow> \<not> ldh prev \<and> prev \<noteq> 45"
    "i = fc + length cur" "n = i + length cs" "cs = [] \<Longrightarrow> cur = [] \<or> ldh (last cur)"
    "i = 0 \<Longrightarrow> cur = []"
  shows "vd_scan n prev i ld fc cs = scan_result n ld fc (split_acc cur cs)"
  using assms
proof (induction n prev i ld fc cs arbitrary: cur rule: vd_scan.induct)
  case (1 n prev i ld fc)
  then show ?case by (auto simp: scan_result_def last_ok_def)
next
  case (2 n prev i ld fc c cs)
  show ?case
  proof (cases "ldh c")
    case True
    then have c: "c \<noteq> 46" using not_ldh by auto
    have "label_chars (cur @ [c])"
      using 2(3) True by (cases "cur = []") (auto simp: label_chars_snoc, simp add: label_chars_def)
    then have "vd_scan n c (Suc i) ld fc cs = scan_result n ld fc (split_acc (cur @ [c]) cs)"
      using 2(5,6) True by (intro "2.IH"(1) [OF True]) auto
    then show ?thesis using True c by simp
  next
    case False
    show ?thesis
    proof (cases "c = 46")
      case True
      have ok: "label_ok cur \<longleftrightarrow> \<not> i - fc > 63 \<and> i > 0 \<and> ldh prev"
        using 2(3-5,8) by (cases "cur = []") (auto simp: label_ok_def)
      show ?thesis
      proof (cases "label_ok cur")
        case lok: True
        then have step: "vd_scan n prev i ld fc (c # cs) = vd_scan n c (Suc i) i (Suc i) cs"
          using ok False True by simp
        have "vd_scan n c (Suc i) i (Suc i) cs = scan_result n i (Suc i) (split_acc [] cs)"
          using lok ok True False 2(6) not_ldh by (intro "2.IH"(2) [OF False _ refl]) auto
        moreover have "scan_result n i (Suc i) (split_acc [] cs) = scan_result n ld fc (cur # split_acc [] cs)"
        proof (cases "length (split_acc [] cs) = 1")
          case one: True
          have "split_acc [] cs = [cs]"
          proof -
            have "length (split_acc ys xs) = 1 \<Longrightarrow> split_acc ys xs = [ys @ xs]" for ys xs
              by (induction ys xs rule: split_acc.induct) (auto split: if_splits)
            from this [OF one] show ?thesis by simp
          qed
          then show ?thesis using lok 2(6) by (simp add: scan_result_def)
        next
          case more: False
          then show ?thesis using lok by (simp add: scan_result_Cons scan_result_def)
        qed
        ultimately show ?thesis using step True by simp
      next
        case bad: False
        then have "vd_scan n prev i ld fc (c # cs) = None" using ok False True by auto
        then show ?thesis using bad True by (simp add: scan_result_Cons)
      qed
    next
      case nodot: False
      show ?thesis
      proof (cases "c = 45 \<and> cur \<noteq> [] \<and> cs \<noteq> []")
        case True
        have "i > 0" using True 2(8) by auto
        moreover have "ldh prev \<or> prev = 45" using True 2(3) by (auto simp: label_chars_def list_all_iff)
        moreover have "i < n - 1" using True 2(6) by (cases cs) auto
        ultimately have step: "vd_scan n prev i ld fc (c # cs) = vd_scan n c (Suc i) ld fc cs"
          using False nodot True by simp
        have "vd_scan n c (Suc i) ld fc cs = scan_result n ld fc (split_acc (cur @ [c]) cs)"
        proof (rule "2.IH"(2) [OF False _ refl])
          show "\<not> (c = 46 \<and> 63 < i - fc)" using nodot by simp
          show "(ld, fc) = (if c = 46 then (i, Suc i) else (ld, fc))" using nodot by simp
          show "0 < i \<and> (c = 46 \<and> ldh prev \<or> c = 45 \<and> (ldh prev \<or> prev = 45) \<and> i < n - 1)"
            using True \<open>i > 0\<close> \<open>ldh prev \<or> prev = 45\<close> \<open>i < n - 1\<close> by blast
        qed (use True 2(3,5,6) in \<open>auto simp: label_chars_snoc\<close>)
        then show ?thesis using step nodot by simp
      next
        case bad: False
        have none: "vd_scan n prev i ld fc (c # cs) = None"
        proof -
          have "\<not> (i > 0 \<and> (c = 45 \<and> (ldh prev \<or> prev = 45) \<and> i < n - 1))"
            using bad 2(4,6) by (cases "cur = []"; cases cs) auto
          then show ?thesis using False nodot by auto
        qed
        have "scan_result n ld fc (split_acc (cur @ [c]) cs) = None"
        proof (cases "c = 45 \<and> cur \<noteq> []")
          case True
          then have "cs = []" using bad by auto
          then show ?thesis using True not_ldh by (simp add: scan_result_def last_ok_def)
        next
          case notok: False
          have "\<not> label_chars (cur @ [c])" using False notok by (auto simp: label_chars_def)
          then show ?thesis using bad_first [of "cur @ [c]" cs] unfolding scan_result_def by simp
        qed
        then show ?thesis using none nodot by simp
      qed
    qed
  qed
qed

lemma split_acc_suffix: "\<exists>pre. cur @ cs = pre @ last (split_acc cur cs)"
proof (induction cur cs rule: split_acc.induct)
  case (2 cur c cs)
  show ?case
  proof (cases "c = 46")
    case True
    from 2(1) [OF True] obtain pre where "cs = pre @ last (split_acc [] cs)" by auto
    then have "cur @ c # cs = (cur @ c # pre) @ last (split_acc [] cs)" by simp
    then show ?thesis using True by (intro exI [of _ "cur @ c # pre"]) simp
  next
    case False
    then show ?thesis using 2(2) by simp
  qed
qed simp

lemma split_acc_two:
  "2 \<le> length (split_acc cur cs) \<Longrightarrow>
   length (hd (split_acc cur cs)) + 1 + length (last (split_acc cur cs)) \<le> length cur + length cs"
proof (induction cur cs rule: split_acc.induct)
  case (2 cur c cs)
  then show ?case using length_split_acc_last [of "[]" cs] by (cases "c = 46") auto
qed simp

lemma labels_ne [simp]: "labels d \<noteq> []"
  by (simp add: labels_def)

lemma labels_drop: "drop (length d - length (last (labels d))) d = last (labels d)"
proof -
  obtain pre where p: "d = pre @ last (labels d)" using split_acc_suffix [of "[]" d] by (auto simp: labels_def)
  then have "length d = length pre + length (last (labels d))" by (metis length_append)
  then show ?thesis using p by (metis append_eq_conv_conj diff_add_inverse2)
qed

lemma label_ok_last: "label_ok l \<longleftrightarrow> l \<noteq> [] \<and> length l \<le> 63 \<and> last_ok l"
  by (auto simp: label_ok_def last_ok_def)

lemma butlast_last_iff: "ls \<noteq> [] \<Longrightarrow> list_all P ls \<longleftrightarrow> (\<forall>l \<in> set (butlast ls). P l) \<and> P (last ls)"
  by (induction ls rule: rev_induct) (auto simp: list_all_iff)

lemma hasAlpha_ne: "hasAlpha l \<Longrightarrow> l \<noteq> []"
  by (auto simp: hasAlpha_def)

section \<open>Properties\<close>

text \<open>C40: \<open>isValidDomain\<close> accepts exactly the names of 4 to 127 characters that are at least two labels
  separated by dots, each of 1 to 63 lower-case letters, digits and hyphens with no hyphen at either
  end, the last one with at least two characters and a letter, and that are not one of the three
  reserved example domains.\<close>

theorem isValidDomain_iff:
  "isValidDomain d = (4 \<le> length d \<and> length d \<le> 127 \<and> \<not> reserved_domain d \<and>
     2 \<le> length (labels d) \<and> list_all label_ok (labels d) \<and>
     2 \<le> length (last (labels d)) \<and> hasAlpha (last (labels d)))"
proof (cases "4 \<le> length d \<and> length d \<le> 127 \<and> \<not> reserved_domain d")
  case True
  let ?n = "length d" and ?ls = "labels d" and ?l = "last (labels d)"
  have scan: "vd_scan ?n 0 0 0 0 d = scan_result ?n 0 0 ?ls"
    unfolding labels_def using True
    by (intro vd_scan_result) (auto simp: ldh_def ctype_defs)
  have le: "length ?l \<le> ?n" using length_split_acc_last [of "[]" d] by (simp add: labels_def)
  show ?thesis
  proof (cases "2 \<le> length ?ls")
    case two: True
    then have one: "length ?ls \<noteq> 1" by simp
    have hd: "length (hd ?ls) + 1 + length ?l \<le> ?n"
      using split_acc_two [of "[]" d] two by (simp add: labels_def)
    have "hd ?ls \<in> set (butlast ?ls)" using two by (cases ?ls) auto
    then have "(\<forall>l \<in> set (butlast ?ls). label_ok l) \<Longrightarrow> 0 < length (hd ?ls)"
      by (auto simp: label_ok_def)
    with hd have first: "(\<forall>l \<in> set (butlast ?ls). label_ok l) \<Longrightarrow> length ?l + 1 < ?n"
      by linarith
    have dr: "drop (?n - length ?l - 1 + 1) d = ?l" if "0 < ?n - length ?l"
    proof -
      have "?n - length ?l - 1 + 1 = ?n - length ?l" using that by simp
      then show ?thesis using labels_drop [of d] by simp
    qed
    have pos: "0 < ?n - length ?l" using hd by simp
    show ?thesis
      unfolding isValidDomain_def scan scan_result_def
      using True two one first hd le pos dr [OF pos]
      by (auto simp: butlast_last_iff label_ok_last not_le)
  next
    case False
    then have "length ?ls = 1" using labels_ne [of d] by (cases ?ls) (auto simp: numeral_2_eq_2 not_le less_Suc_eq_le)
    then show ?thesis unfolding isValidDomain_def scan scan_result_def by simp
  qed
qed (auto simp: isValidDomain_def)

text \<open>An accepted email address is a local part of at most 64 characters, an \<^verbatim>\<open>@\<close> and an accepted
  domain.\<close>

lemma ve_local_split:
  "ve_local prev k e = Some n \<Longrightarrow> k \<le> n \<and> n \<le> k + length e"
  by (induction prev k e rule: ve_local.induct) (auto split: if_splits)

lemma isValidEmail_parts:
  assumes "isValidEmail e"
  obtains loc dom where "e = loc @ 64 # dom" "1 \<le> length loc" "length loc \<le> 64" "isValidDomain dom"
proof -
  from assms obtain n where n: "1 \<le> n" "n \<le> 64" "n < length e" "e ! n = 64" "isValidDomain (drop (Suc n) e)"
    by (auto simp: isValidEmail_def split: if_splits option.splits)
  show ?thesis
    using n id_take_nth_drop [OF n(3)] by (intro that [of "take n e" "drop (Suc n) e"]) simp_all
qed

end
