(* ===== verification/Dns.thy ===== *)
theory Dns
  imports Domain
begin

text \<open>
  The DNS messages of AEM-Enquiry: \<^verbatim>\<open>src/enquiry/DNS_protocol.c\<close>.  A response is read through a
  function \<open>rd\<close> from positions to bytes, because the code reads positions behind the end of the
  message (labels and record headers are not checked against it); \<open>rd i\<close> is byte \<open>i\<close> of the memory
  the message lies in.  Numbers in the message are big-endian; \<open>be16\<close> reads one.
\<close>

section \<open>Requests\<close>

definition AEM_DNS_RECORDTYPE_A :: nat where "AEM_DNS_RECORDTYPE_A = 256"
definition AEM_DNS_RECORDTYPE_CNAME :: nat where "AEM_DNS_RECORDTYPE_CNAME = 1280"
definition AEM_DNS_RECORDTYPE_PTR :: nat where "AEM_DNS_RECORDTYPE_PTR = 3072"
definition AEM_DNS_RECORDTYPE_MX :: nat where "AEM_DNS_RECORDTYPE_MX = 3840"
definition AEM_DNS_RECORDTYPE_TXT :: nat where "AEM_DNS_RECORDTYPE_TXT = 4096"

lemmas dns_types = AEM_DNS_RECORDTYPE_A_def AEM_DNS_RECORDTYPE_CNAME_def AEM_DNS_RECORDTYPE_PTR_def
  AEM_DNS_RECORDTYPE_MX_def AEM_DNS_RECORDTYPE_TXT_def

text \<open>The loop over the dots: each label behind its length, and a zero byte at the end.\<close>

definition question_labels :: "byte list list \<Rightarrow> byte list" where
  "question_labels ls = concat (map (\<lambda>l. of_nat (length l) # l) ls)"

definition domainToQuestion :: "byte list \<Rightarrow> nat \<Rightarrow> byte list" where
  "domainToQuestion domain queryType = question_labels (labels domain) @ [0] @ le_bytes 2 queryType @ [0, 1]"

text \<open>What is sent: the length, the header and the question lie in a zeroed buffer, of which the
  returned length takes two bytes more than were written.\<close>

definition dnsCreateRequest :: "nat \<Rightarrow> byte list \<Rightarrow> nat \<Rightarrow> byte list" where
  "dnsCreateRequest reqId domain queryType =
     [0, of_nat (20 + length domain)] @ le_bytes 2 reqId @ [1, 0, 0, 1, 0, 0, 0, 0, 0, 0] @
     domainToQuestion domain queryType @ [0, 0]"

section \<open>Names\<close>

definition be16 :: "(nat \<Rightarrow> byte) \<Rightarrow> nat \<Rightarrow> nat" where
  "be16 rd i = 256 * unat (rd i) + unat (rd (Suc i))"

text \<open>Reads a name: the offset behind it (\<open>None\<close> for \<open>-1\<close>) and what was collected.  A pointer is
  followed by a call that does not accept another pointer before the next label; its result is
  ignored.\<close>

function rr_getName ::
  "(nat \<Rightarrow> byte) \<Rightarrow> nat \<Rightarrow> nat \<Rightarrow> byte list \<Rightarrow> bool \<Rightarrow> nat option \<times> byte list" where
  "rr_getName rd lenMsg offset name allowPointer =
     (if offset \<ge> lenMsg then (None, name)
      else let b = rd offset in
        if b AND 192 = 192 then
          (if \<not> allowPointer then (None, name)
           else (Some (offset + 2),
             snd (rr_getName rd lenMsg (256 * unat (b AND 63) + unat (rd (Suc offset))) name False)))
        else if b AND 192 = 0 then
          (if b = 0 then (Some (offset + 1), name)
           else if length name + unat b + 1 > 127 then (None, name)
           else rr_getName rd lenMsg (offset + unat b + 1)
                  (name @ (if name = [] then [] else [46]) @ map rd [offset + 1..<offset + 1 + unat b]) True)
        else (None, name))"
  by pat_completeness auto
termination
  by (relation "measures [\<lambda>(rd, n, off, name, p). 128 - length name, \<lambda>(rd, n, off, name, p). if p then 1 else 0]")
     (auto simp: unat_gt_0 Suc_le_eq)

declare rr_getName.simps [simp del]

section \<open>Records\<close>

text \<open>The strings of a TXT record, and whether they all fit.\<close>

function txt_loop :: "(nat \<Rightarrow> byte) \<Rightarrow> nat \<Rightarrow> nat \<Rightarrow> nat \<Rightarrow> byte list \<Rightarrow> bool \<times> byte list" where
  "txt_loop rd base rdLen ro acc =
     (if ro < rdLen then
        let l = unat (rd (base + ro))
        in if length acc + l > 1023 then (False, acc)
           else txt_loop rd base rdLen (ro + 1 + l) (acc @ map rd [base + ro + 1..<base + ro + 1 + l])
      else (True, acc))"
  by pat_completeness auto
termination
  by (relation "measure (\<lambda>(rd, base, n, ro, acc). n - ro)") auto

declare txt_loop.simps [simp del]

text \<open>The result buffer is not cleared: bytes behind the current name stay what they were.\<close>

definition overlay :: "byte list \<Rightarrow> byte list \<Rightarrow> byte list" where
  "overlay r buf = r @ drop (length r) buf"

text \<open>The loop over the answers: whether it succeeded, the buffer, and the bytes of it that count.\<close>

fun getNameRecord ::
  "(nat \<Rightarrow> byte) \<Rightarrow> nat \<Rightarrow> nat \<Rightarrow> nat \<Rightarrow> nat \<Rightarrow> byte list \<Rightarrow> byte list \<Rightarrow> nat \<Rightarrow> bool \<times> byte list \<times> byte list" where
  "getNameRecord rd lenMsg rrOffset 0 prio buf result recordType = (True, buf, result)"
| "getNameRecord rd lenMsg rrOffset (Suc k) prio buf result recordType =
     (case fst (rr_getName rd lenMsg rrOffset [] True) of
        None \<Rightarrow> (False, buf, result)
      | Some offset \<Rightarrow>
          let rt = le_read [rd offset, rd (offset + 1)];
              rdLen = be16 rd (offset + 8)
          in if rd (offset + 2) \<noteq> 0 \<or> rd (offset + 3) \<noteq> 1 \<or> rdLen < 1 then (False, buf, result)
          else if rt = AEM_DNS_RECORDTYPE_MX then
            (if rt \<noteq> recordType then (False, buf, result)
             else let newPrio = be16 rd (offset + 10); next = offset + 10 + rdLen
             in if newPrio < prio then
                  (case rr_getName rd lenMsg (offset + 12) [] True of
                     (None, r) \<Rightarrow> (False, overlay r buf, r)
                   | (Some _, r) \<Rightarrow> getNameRecord rd lenMsg next k newPrio (overlay r buf) r recordType)
                else getNameRecord rd lenMsg next k prio buf result recordType)
          else if rt = AEM_DNS_RECORDTYPE_PTR then
            (if rt \<noteq> recordType then (False, buf, result)
             else let r = snd (rr_getName rd lenMsg (offset + 10) result True) in (True, overlay r buf, r))
          else if rt = AEM_DNS_RECORDTYPE_TXT then
            (if rt \<noteq> recordType then (False, buf, result)
             else case txt_loop rd (offset + 10) rdLen 0 [] of
               (False, r) \<Rightarrow> (False, overlay r buf, r)
             | (True, r) \<Rightarrow> getNameRecord rd lenMsg rrOffset k prio (overlay r buf) r recordType)
          else if rt = AEM_DNS_RECORDTYPE_CNAME then
            getNameRecord rd lenMsg (offset + 10 + rdLen) k prio buf result recordType
          else (False, buf, result))"

text \<open>The first address record among the answers.\<close>

function dnsResponse_GetIp_get :: "(nat \<Rightarrow> byte) \<Rightarrow> nat \<Rightarrow> nat \<Rightarrow> bool \<Rightarrow> u32" where
  "dnsResponse_GetIp_get rd rrLen offset pointer =
     (if offset < rrLen then
        let lenLabel = rd offset in
        if pointer \<or> lenLabel = 0 then
          (let o' = (if pointer then offset else offset + 1); lenRecord = be16 rd (o' + 8)
           in if map rd [o'..<o' + 4] = [0, 1, 0, 1] \<and> lenRecord = 4
              then of_nat (le_read (map rd [o' + 10..<o' + 14]))
              else dnsResponse_GetIp_get rd rrLen (o' + 10 + lenRecord) False)
        else if lenLabel AND 192 = 192 then dnsResponse_GetIp_get rd rrLen (offset + 2) True
        else dnsResponse_GetIp_get rd rrLen (offset + 1 + unat lenLabel) False
      else 0)"
  by pat_completeness auto
termination
  by (relation "measure (\<lambda>(rd, n, off, p). n - off)") auto

declare dnsResponse_GetIp_get.simps [simp del]

text \<open>The number of answers, 0 when the response does not answer the request.\<close>

definition getAnswerCount :: "nat \<Rightarrow> (nat \<Rightarrow> byte) \<Rightarrow> nat \<Rightarrow> byte list \<Rightarrow> nat \<Rightarrow> nat" where
  "getAnswerCount reqId rd lenRes domain queryType =
     (if lenRes < 18 + length domain then 0
      else if map rd [0..<2] \<noteq> le_bytes 2 reqId then 0
      else if rd 2 \<noteq> 129 \<or> rd 3 AND 192 \<noteq> 128 then 0
      else if rd 3 AND 15 \<noteq> 0 then 0
      else if rd 4 \<noteq> 0 \<or> rd 5 \<noteq> 1 \<or> rd 8 \<noteq> 0 \<or> rd 9 \<noteq> 0 \<or> rd 10 \<noteq> 0 \<or> rd 11 \<noteq> 0 then 0
      else if map rd [12..<18 + length domain] \<noteq> domainToQuestion domain queryType then 0
      else be16 rd 6)"

definition dnsResponse_GetIp :: "nat \<Rightarrow> (nat \<Rightarrow> byte) \<Rightarrow> nat \<Rightarrow> byte list \<Rightarrow> nat \<Rightarrow> u32" where
  "dnsResponse_GetIp reqId rd lenRes domain queryType =
     (if getAnswerCount reqId rd lenRes domain queryType = 0 then 0
      else validIp (dnsResponse_GetIp_get (\<lambda>i. rd (18 + length domain + i))
             (lenRes - 18 - length domain) 0 False))"

definition dnsResponse_GetNameRecord ::
  "nat \<Rightarrow> (nat \<Rightarrow> byte) \<Rightarrow> nat \<Rightarrow> byte list \<Rightarrow> byte list \<Rightarrow> byte list \<Rightarrow> nat \<Rightarrow> bool \<times> byte list \<times> byte list" where
  "dnsResponse_GetNameRecord reqId rd lenRes domain buf result queryType =
     (let n = getAnswerCount reqId rd lenRes domain queryType
      in if n = 0 then (False, buf, result)
         else getNameRecord rd lenRes (18 + length domain) n 65535 buf result queryType)"

section \<open>Sizes\<close>

lemma length_question_labels:
  "length (question_labels (split_acc cur cs)) = length cur + length cs + 1"
  by (induction cur cs rule: split_acc.induct) (simp_all add: question_labels_def)

lemma length_question [len_simps]: "length (domainToQuestion d q) = length d + 6"
  using length_question_labels [of "[]" d] by (simp add: domainToQuestion_def labels_def)

lemma length_request [len_simps]: "length (dnsCreateRequest i d q) = 22 + length d"
  by (simp add: dnsCreateRequest_def len_simps)

text \<open>Whatever the message holds, a name never gets longer than 127 bytes.\<close>

lemma rr_getName_bound:
  "length name \<le> 127 \<Longrightarrow> length (snd (rr_getName rd n off name p)) \<le> 127"
proof (induction rd n off name p rule: rr_getName.induct)
  case (1 rd n off name p)
  show ?case
    using 1 by (subst rr_getName.simps) (auto simp: Let_def not_le)
qed

lemma txt_loop_bound: "length acc \<le> 1023 \<Longrightarrow> length (snd (txt_loop rd b n ro acc)) \<le> 1023"
proof (induction rd b n ro acc rule: txt_loop.induct)
  case (1 rd b n ro acc)
  show ?case
    using 1 by (subst txt_loop.simps) (auto simp: Let_def)
qed

lemma rr_getName_bound0: "rr_getName rd n i [] True = (x, r) \<Longrightarrow> length r \<le> 127"
  using rr_getName_bound [of "[]" rd n i True] by simp

text \<open>The buffers of the callers: 128 bytes for the names, 1024 for a TXT record.\<close>

lemma txt_loop_bound0: "txt_loop rd b m 0 [] = (x, r) \<Longrightarrow> length r \<le> 1023"
  using txt_loop_bound [of "[]" rd b m 0] by simp

lemma getNameRecord_name:
  "q \<noteq> AEM_DNS_RECORDTYPE_TXT \<Longrightarrow> length result \<le> 127 \<Longrightarrow>
     length (snd (snd (getNameRecord rd n off k prio buf result q))) \<le> 127"
proof (induction k arbitrary: off prio buf result q)
  case (Suc k)
  note ptr = rr_getName_bound [OF Suc.prems(2)]
  show ?case
    using Suc.prems
    by (auto simp: Let_def ptr dns_types split: option.split prod.split dest: rr_getName_bound0 intro!: Suc.IH)
qed simp

lemma getNameRecord_txt:
  "q = AEM_DNS_RECORDTYPE_TXT \<Longrightarrow> length result \<le> 1023 \<Longrightarrow>
     length (snd (snd (getNameRecord rd n off k prio buf result q))) \<le> 1023"
proof (induction k arbitrary: off prio buf result q)
  case (Suc k)
  show ?case
    using Suc.prems
    by (auto simp: Let_def dns_types split: option.split prod.split bool.split dest: txt_loop_bound0 intro!: Suc.IH)
qed simp

text \<open>A buffer that holds the result at its front keeps its size when the result fits.\<close>

lemma overlay_take [simp]: "take (length r) (overlay r buf) = r"
  by (simp add: overlay_def)

lemma length_overlay [len_simps]: "length r \<le> length buf \<Longrightarrow> length (overlay r buf) = length buf"
  by (simp add: overlay_def)

lemma getNameRecord_buffer:
  "q \<noteq> AEM_DNS_RECORDTYPE_TXT \<Longrightarrow> length result \<le> 127 \<Longrightarrow> 127 \<le> length buf \<Longrightarrow>
     length (fst (snd (getNameRecord rd n off k prio buf result q))) = length buf"
proof (induction k arbitrary: off prio buf result q)
  case (Suc k)
  note ptr = rr_getName_bound [OF Suc.prems(2)]
  have len: "length (overlay r buf) = length buf" if "length r \<le> 127" for r
    using that Suc.prems(3) by (simp add: overlay_def)
  show ?case
    using Suc.prems
    by (auto simp: Let_def ptr len dns_types Suc.IH split: option.split prod.split dest!: rr_getName_bound0)
qed simp

end
