(* ===== verification/Dns_Claims.thy ===== *)
theory Dns_Claims
  imports Dns
begin

text \<open>
  What the DNS code of AEM-Enquiry does with messages: the names of a well-formed answer are read
  back, and the results fit the buffers of the callers whatever the message holds.
\<close>

section \<open>Memory that holds a list\<close>

primrec holds_at :: "(nat \<Rightarrow> byte) \<Rightarrow> nat \<Rightarrow> byte list \<Rightarrow> bool" where
  "holds_at rd i [] = True"
| "holds_at rd i (b # bs) = (rd i = b \<and> holds_at rd (Suc i) bs)"

lemma holds_at_append [simp]:
  "holds_at rd i (xs @ ys) \<longleftrightarrow> holds_at rd i xs \<and> holds_at rd (i + length xs) ys"
  by (induction xs arbitrary: i) auto

lemma holds_at_read: "holds_at rd i bs \<Longrightarrow> j = i + length bs \<Longrightarrow> map rd [i..<j] = bs"
proof (induction bs arbitrary: i j)
  case (Cons b bs)
  then show ?case using Cons.IH [of "Suc i" j] by (simp add: upt_conv_Cons del: upt_Suc)
qed simp

lemma holds_at_nth_from: "holds_at ((!) (pre @ bs)) (length pre) bs"
proof (induction bs arbitrary: pre)
  case (Cons b bs)
  show ?case using Cons.IH [of "pre @ [b]"] by (simp add: nth_append)
qed simp

lemma holds_at_nth: "holds_at ((!) bs) 0 bs"
  using holds_at_nth_from [of "[]" bs] by simp

section \<open>Names\<close>

text \<open>The labels behind a name that was begun.\<close>

definition join_from :: "byte list \<Rightarrow> byte list list \<Rightarrow> byte list" where
  "join_from name ls = fold (\<lambda>l nm. nm @ (if nm = [] then [] else [46]) @ l) ls name"

lemma join_from_simps [simp]:
  "join_from name [] = name"
  "join_from name (l # ls) = join_from (name @ (if name = [] then [] else [46]) @ l) ls"
  by (simp_all add: join_from_def)

lemma join_split: "name \<noteq> [] \<Longrightarrow> join_from name (split_acc cur cs) = name @ 46 # cur @ cs"
  by (induction cur cs arbitrary: name rule: split_acc.induct) auto

lemma join_labels:
  "list_all (\<lambda>l. l \<noteq> []) (split_acc cur cs) \<Longrightarrow> join_from [] (split_acc cur cs) = cur @ cs"
  by (induction cur cs rule: split_acc.induct) (auto simp: join_split)

lemma length_join: "length name \<le> length (join_from name ls)"
  proof (induction ls arbitrary: name)
  case (Cons l ls)
  show ?case using Cons [of "name @ (if name = [] then [] else [46]) @ l"] by simp
qed simp

lemma label_length_byte:
  assumes "0 < k" "k \<le> 63"
  shows "unat (of_nat k :: byte) = k" "(of_nat k :: byte) AND 192 = 0" "(of_nat k :: byte) \<noteq> 0"
proof -
  show k: "unat (of_nat k :: byte) = k" using assms by (simp add: unat_of_nat)
  then show "(of_nat k :: byte) \<noteq> 0" using assms by (metis less_irrefl unat_0)
  have "list_all (\<lambda>k. (of_nat k :: byte) AND 192 = 0) [0..<64]" by code_simp
  then show "(of_nat k :: byte) AND 192 = 0" using assms by (simp add: list_all_iff)
qed

lemma rr_getName_labels:
  assumes "list_all (\<lambda>l. l \<noteq> [] \<and> length l \<le> 63) ls" "holds_at rd off (question_labels ls @ [0])"
    "off + length (question_labels ls) < n" "length (join_from name ls) \<le> 127"
  shows "rr_getName rd n off name p = (Some (off + length (question_labels ls) + 1), join_from name ls)"
  using assms
proof (induction ls arbitrary: off name p)
  case Nil
  then show ?case by (subst rr_getName.simps) (simp add: question_labels_def)
next
  case (Cons l ls)
  let ?k = "length l"
  have k: "0 < ?k" "?k \<le> 63" using Cons.prems(1) by auto
  note b = label_length_byte [OF k]
  have rd: "rd off = of_nat ?k" "map rd [Suc off..<Suc off + ?k] = l"
    "holds_at rd (off + ?k + 1) (question_labels ls @ [0])"
    using Cons.prems(2) holds_at_read [of rd "Suc off" l "Suc off + ?k"]
    by (simp_all add: question_labels_def ac_simps del: upt_Suc)
  let ?name = "name @ (if name = [] then [] else [46]) @ l"
  have fits: "\<not> length name + ?k + 1 > 127"
    using Cons.prems(4) length_join [of ?name ls] k by (auto split: if_splits)
  have "rr_getName rd n (off + ?k + 1) ?name True =
    (Some (off + ?k + 1 + length (question_labels ls) + 1), join_from ?name ls)"
    using Cons.prems rd(3) by (intro Cons.IH) (auto simp: question_labels_def)
  then show ?case
    using fits Cons.prems(3) rd(2) by (subst rr_getName.simps) (simp add: Let_def rd(1) b question_labels_def)
qed

lemma rr_getName_domain:
  assumes "isValidDomain d" "holds_at rd off (question_labels (labels d) @ [0])" "off + length d + 1 < n"
  shows "rr_getName rd n off [] p = (Some (off + length d + 2), d)"
proof -
  have ls: "list_all (\<lambda>l. l \<noteq> [] \<and> length l \<le> 63) (labels d)" "length d \<le> 127"
    using assms(1) by (auto simp: isValidDomain_iff label_ok_def list_all_iff)
  have j: "join_from [] (labels d) = d"
    using ls(1) join_labels [of "[]" d] by (simp add: labels_def list_all_iff)
  have "length (question_labels (labels d)) = length d + 1"
    using length_question_labels [of "[]" d] by (simp add: labels_def)
  then show ?thesis using rr_getName_labels [OF ls(1) assms(2), of n "[]" p] ls(2) assms(3) j by simp
qed

section \<open>Answers\<close>

definition be_bytes :: "nat \<Rightarrow> byte list" where
  "be_bytes n = [of_nat (n div 256), of_nat n]"

text \<open>Flags and counts: one question, \<open>n\<close> answers, no error.\<close>

definition dns_head :: "nat \<Rightarrow> byte list" where
  "dns_head n = [129, 128, 0, 1] @ be_bytes n @ [0, 0, 0, 0]"

definition dns_record :: "nat \<Rightarrow> byte list \<Rightarrow> byte list \<Rightarrow> byte list" where
  "dns_record q ttl record = [192, 12] @ le_bytes 2 q @ [0, 1] @ ttl @ be_bytes (length record) @ record"

text \<open>The answer of a name server: the question and the records, each with a compressed name.\<close>

definition dns_message :: "nat \<Rightarrow> byte list \<Rightarrow> nat \<Rightarrow> byte list list \<Rightarrow> byte list" where
  "dns_message reqId domain q records =
     le_bytes 2 reqId @ dns_head (length records) @ domainToQuestion domain q @ concat records"

definition dns_name :: "byte list \<Rightarrow> byte list" where
  "dns_name d = question_labels (labels d) @ [0]"

lemma length_be_bytes [len_simps]: "length (be_bytes n) = 2"
  by (simp add: be_bytes_def)

lemma length_dns_head [len_simps]: "length (dns_head n) = 10"
  by (simp add: dns_head_def be_bytes_def)

lemma length_dns_record [len_simps]: "length (dns_record q ttl r) = 8 + length ttl + length r"
  by (simp add: dns_record_def len_simps)

lemma length_dns_message [len_simps]:
  "length (dns_message i d q rs) = 18 + length d + length (concat rs)"
  by (simp add: dns_message_def len_simps)

lemma length_dns_name [len_simps]: "length (dns_name d) = length d + 2"
  using length_question_labels [of "[]" d] by (simp add: dns_name_def labels_def)

lemma be16_bytes: "holds_at rd i (be_bytes n) \<Longrightarrow> n < 65536 \<Longrightarrow> be16 rd i = n"
  by (simp add: be_bytes_def be16_def unat_of_nat less_mult_imp_div_less)

lemma dns_message_parts:
  assumes "holds_at rd 0 (dns_message i d q rs)" "length rs < 65536"
  shows "getAnswerCount i rd (length (dns_message i d q rs)) d q = length rs"
    "holds_at rd (18 + length d) (concat rs)"
proof -
  have b: "holds_at rd 0 (le_bytes 2 i)" "holds_at rd 2 (dns_head (length rs))"
    "holds_at rd 12 (domainToQuestion d q)" "holds_at rd (18 + length d) (concat rs)"
    using assms(1) [unfolded dns_message_def holds_at_append]
    by (simp_all add: len_simps ac_simps numeral_2_eq_2 del: holds_at.simps)
  have q: "map rd [12..<18 + length d] = domainToQuestion d q"
    using b(3) by (rule holds_at_read) (simp add: len_simps)
  have i: "map rd [0..<2] = le_bytes 2 i" using b(1) by (rule holds_at_read) simp
  have h: "rd 2 = 129" "rd 3 = 128" "rd 4 = 0" "rd 5 = 1" "rd 8 = 0" "rd 9 = 0" "rd 10 = 0" "rd 11 = 0"
    "holds_at rd 6 (be_bytes (length rs))"
    using b(2) by (simp_all add: dns_head_def be_bytes_def)
  show "getAnswerCount i rd (length (dns_message i d q rs)) d q = length rs"
    using h(1-8) be16_bytes [OF h(9) assms(2)] q i by (simp add: getAnswerCount_def len_simps)
  show "holds_at rd (18 + length d) (concat rs)" by (rule b(4))
qed

lemma dns_record_parts:
  assumes "holds_at rd off (dns_record q ttl r)" "length ttl = 4" "length r < 65536" "q < 65536" "off < n"
  shows "fst (rr_getName rd n off name True) = Some (off + 2)"
    "le_read [rd (off + 2), rd (off + 2 + 1)] = q"
    "rd (off + 2 + 2) = 0" "rd (off + 2 + 3) = 1" "be16 rd (off + 2 + 8) = length r"
    "holds_at rd (off + 2 + 10) r"
proof -
  have b: "holds_at rd off [192, 12]" "holds_at rd (off + 2) (le_bytes 2 q)" "holds_at rd (off + 2 + 2) [0, 1]"
    "holds_at rd (off + 2 + 8) (be_bytes (length r))" "holds_at rd (off + 2 + 10) r"
    using assms(1) [unfolded dns_record_def holds_at_append] assms(2)
    by (simp_all add: len_simps ac_simps numeral_2_eq_2 del: holds_at.simps)
  show "fst (rr_getName rd n off name True) = Some (off + 2)"
    using b(1) assms(5) by (subst rr_getName.simps) (simp add: Let_def)
  have "map rd [off + 2..<off + 4] = le_bytes 2 q" using b(2) by (rule holds_at_read) simp
  then have "[rd (off + 2), rd (off + 2 + 1)] = le_bytes 2 q" by (simp add: upt_conv_Cons)
  then show "le_read [rd (off + 2), rd (off + 2 + 1)] = q" using assms(4) le_read_bytes [of q 2] by simp
  show "rd (off + 2 + 2) = 0" "rd (off + 2 + 3) = 1" using b(3) by (simp_all add: eval_nat_numeral)
  show "be16 rd (off + 2 + 8) = length r" by (rule be16_bytes [OF b(4) assms(3)])
  show "holds_at rd (off + 2 + 10) r" by (rule b(5))
qed

lemma name_bound: "isValidDomain d \<Longrightarrow> length d \<le> 127"
  by (simp add: isValidDomain_iff)

text \<open>One record of each kind.\<close>

lemma getNameRecord_ptr:
  assumes "holds_at rd off (dns_record AEM_DNS_RECORDTYPE_PTR ttl (dns_name d))" "length ttl = 4"
    "isValidDomain d" "off + 14 + length d \<le> n"
  shows "getNameRecord rd n off (Suc k) prio buf [] AEM_DNS_RECORDTYPE_PTR = (True, overlay d buf, d)"
proof -
  have r: "length (dns_name d) < 65536" using name_bound [OF assms(3)] by (simp add: len_simps)
  have q: "AEM_DNS_RECORDTYPE_PTR < 65536" by (simp add: dns_types)
  note p = dns_record_parts [OF assms(1,2) r q, of n]
  have "rr_getName rd n (off + 2 + 10) [] True = (Some (off + 2 + 10 + length d + 2), d)"
    using assms(3) p(6) assms(4) unfolding dns_name_def by (intro rr_getName_domain) auto
  then show ?thesis using p assms(4) by (simp add: Let_def dns_types len_simps)
qed

definition mx_record :: "byte list \<times> nat \<times> byte list \<Rightarrow> byte list" where
  "mx_record = (\<lambda>(ttl, p, mx). dns_record AEM_DNS_RECORDTYPE_MX ttl (be_bytes p @ dns_name mx))"

definition mx_ok :: "byte list \<times> nat \<times> byte list \<Rightarrow> bool" where
  "mx_ok = (\<lambda>(ttl, p, mx). length ttl = 4 \<and> p < 65535 \<and> isValidDomain mx)"

lemma length_mx_record: "mx_ok (ttl, p, mx) \<Longrightarrow> length (mx_record (ttl, p, mx)) = 16 + length mx"
  by (simp add: mx_record_def mx_ok_def len_simps)

lemma getNameRecord_mx:
  assumes "holds_at rd off (mx_record (ttl, p, mx))" "mx_ok (ttl, p, mx)" "off + 16 + length mx \<le> n"
  shows "getNameRecord rd n off (Suc k) prio buf res AEM_DNS_RECORDTYPE_MX =
    (if p < prio then getNameRecord rd n (off + 16 + length mx) k p (overlay mx buf) mx AEM_DNS_RECORDTYPE_MX
     else getNameRecord rd n (off + 16 + length mx) k prio buf res AEM_DNS_RECORDTYPE_MX)"
proof -
  have ok: "length ttl = 4" "p < 65535" "isValidDomain mx" using assms(2) by (simp_all add: mx_ok_def)
  let ?r = "be_bytes p @ dns_name mx"
  have r: "length ?r < 65536" using name_bound [OF ok(3)] by (simp add: len_simps)
  have q: "AEM_DNS_RECORDTYPE_MX < 65536" by (simp add: dns_types)
  have h: "holds_at rd off (dns_record AEM_DNS_RECORDTYPE_MX ttl ?r)" using assms(1) by (simp add: mx_record_def)
  note pt = dns_record_parts [OF h ok(1) r q, of n]
  have parts: "be16 rd (off + 2 + 10) = p" "holds_at rd (off + 2 + 12) (dns_name mx)"
    using pt(6) assms(3) ok(2) be16_bytes [of rd "off + 2 + 10" p] by (simp_all add: len_simps ac_simps)
  have nm: "rr_getName rd n (off + 2 + 12) [] True = (Some (off + 2 + 12 + length mx + 2), mx)"
    using ok(3) parts(2) assms(3) unfolding dns_name_def by (intro rr_getName_domain) auto
  have nxt: "off + 2 + 10 + length ?r = off + 16 + length mx" by (simp add: len_simps)
  show ?thesis
    using pt(1-5) assms(3) parts(1) nm nxt by (simp add: Let_def dns_types ac_simps)
qed

text \<open>A list of exchangers: the best so far is kept, and overlays the buffer.\<close>

fun mx_best :: "nat \<Rightarrow> byte list \<Rightarrow> byte list \<Rightarrow> (byte list \<times> nat \<times> byte list) list \<Rightarrow> byte list \<times> byte list" where
  "mx_best prio buf res [] = (buf, res)"
| "mx_best prio buf res ((ttl, p, mx) # rs) =
     (if p < prio then mx_best p (overlay mx buf) mx rs else mx_best prio buf res rs)"

lemma getNameRecord_mxs:
  assumes "holds_at rd off (concat (map mx_record rs))" "list_all mx_ok rs"
    "off + length (concat (map mx_record rs)) \<le> n"
  shows "getNameRecord rd n off (length rs) prio buf res AEM_DNS_RECORDTYPE_MX =
    (True, mx_best prio buf res rs)"
  using assms
proof (induction rs arbitrary: off prio buf res)
  case (Cons x rs)
  obtain ttl p mx where x: "x = (ttl, p, mx)" by (cases x)
  have ok: "mx_ok (ttl, p, mx)" using Cons.prems(2) x by simp
  have h: "holds_at rd off (mx_record (ttl, p, mx))"
    "holds_at rd (off + 16 + length mx) (concat (map mx_record rs))"
    using Cons.prems(1) x length_mx_record [OF ok] by (simp_all add: ac_simps)
  have n: "off + 16 + length mx + length (concat (map mx_record rs)) \<le> n"
    using Cons.prems(3) x length_mx_record [OF ok] by simp
  have IH: "getNameRecord rd n (off + 16 + length mx) (length rs) prio buf res AEM_DNS_RECORDTYPE_MX =
      (True, mx_best prio buf res rs)" for prio buf res
    using h(2) Cons.prems(2) n by (intro Cons.IH) auto
  show ?case using getNameRecord_mx [OF h(1) ok, of n "length rs" prio buf res] n IH x by simp
qed simp

text \<open>Its result is the first of the exchangers with the smallest preference.\<close>

lemma mx_best_cases:
  "snd (mx_best prio buf res rs) = res \<and> (\<forall>(t, p, m) \<in> set rs. prio \<le> p) \<or>
   (\<exists>t p. (t, p, snd (mx_best prio buf res rs)) \<in> set rs \<and> p < prio \<and> (\<forall>(t, p', m) \<in> set rs. p \<le> p'))"
proof (induction prio buf res rs rule: mx_best.induct)
  case (2 prio buf res ttl p mx rs)
  show ?case
  proof (cases "p < prio")
    case True
    let ?m = "snd (mx_best p (overlay mx buf) mx rs)"
    have step: "snd (mx_best prio buf res ((ttl, p, mx) # rs)) = ?m" using True by simp
    from 2(1) [OF True] consider
        "?m = mx" "\<forall>(t, p', m) \<in> set rs. p \<le> p'"
      | t p2 where "(t, p2, ?m) \<in> set rs" "p2 < p" "\<forall>(t, p', m) \<in> set rs. p2 \<le> p'"
      by blast
    then show ?thesis
    proof cases
      case 1
      then show ?thesis using True unfolding step by (intro disjI2 exI [of _ ttl] exI [of _ p]) auto
    next
      case 2
      then show ?thesis using True unfolding step by (intro disjI2 exI [of _ t] exI [of _ p2]) auto
    qed
  next
    case False
    have step: "mx_best prio buf res ((ttl, p, mx) # rs) = mx_best prio buf res rs" using False by simp
    let ?m = "snd (mx_best prio buf res rs)"
    from 2(2) [OF False] consider
        "?m = res" "\<forall>(t, p', m) \<in> set rs. prio \<le> p'"
      | t p2 where "(t, p2, ?m) \<in> set rs" "p2 < prio" "\<forall>(t, p', m) \<in> set rs. p2 \<le> p'"
      by blast
    then show ?thesis
    proof cases
      case 1
      then show ?thesis using False unfolding step by (intro disjI1) auto
    next
      case 2
      then show ?thesis using False unfolding step by (intro disjI2 exI [of _ t] exI [of _ p2]) auto
    qed
  qed
qed simp

section \<open>Properties\<close>

text \<open>C38: from an honest answer with any number of mail exchangers, whatever lies in memory behind it,
  the name of one with the smallest preference is read, exactly and in full, whatever its
  number of labels.\<close>

theorem mx_answers_read:
  assumes "rs \<noteq> []" "length rs < 65536" "list_all mx_ok rs"
    and "holds_at rd 0 (dns_message reqId domain AEM_DNS_RECORDTYPE_MX (map mx_record rs))"
  shows "\<exists>buf' ttl p mx.
     dnsResponse_GetNameRecord reqId rd (length (dns_message reqId domain AEM_DNS_RECORDTYPE_MX (map mx_record rs)))
       domain buf [] AEM_DNS_RECORDTYPE_MX = (True, buf', mx) \<and>
     (ttl, p, mx) \<in> set rs \<and> (\<forall>(t, p', m) \<in> set rs. p \<le> p')"
proof -
  let ?msg = "dns_message reqId domain AEM_DNS_RECORDTYPE_MX (map mx_record rs)"
  have len: "length (map mx_record rs) < 65536" using assms(2) by simp
  note p = dns_message_parts [OF assms(4) len]
  have g: "getNameRecord rd (length ?msg) (18 + length domain) (length rs) 65535 buf [] AEM_DNS_RECORDTYPE_MX =
      (True, mx_best 65535 buf [] rs)"
    using p(2) assms(3) by (rule getNameRecord_mxs) (simp add: len_simps)
  obtain t0 p0 m0 where x: "(t0, p0, m0) \<in> set rs" "p0 < 65535"
    using assms(1,3) by (cases rs) (auto simp: mx_ok_def)
  then have "\<not> (\<forall>(t, p, m) \<in> set rs. 65535 \<le> p)" by fastforce
  with mx_best_cases [of 65535 buf "[]" rs]
  obtain t p where "(t, p, snd (mx_best 65535 buf [] rs)) \<in> set rs" "\<forall>(t, p', m) \<in> set rs. p \<le> p'"
    by blast
  moreover have "dnsResponse_GetNameRecord reqId rd (length ?msg) domain buf [] AEM_DNS_RECORDTYPE_MX =
      (True, mx_best 65535 buf [] rs)"
    using p(1) g assms(1) by (simp add: dnsResponse_GetNameRecord_def)
  ultimately show ?thesis by (metis prod.collapse)
qed

definition example_mx :: "(byte list \<times> nat \<times> byte list) list" where
  "example_mx = [([0, 0, 1, 44], 20, str ''mx2.allears.test''), ([0, 0, 1, 44], 10, str ''mx.allears.test'')]"

theorem mx_answers_read_witness:
  "\<exists>buf' ttl p mx.
     dnsResponse_GetNameRecord 4660
       ((!) (dns_message 4660 (str ''allears.test'') AEM_DNS_RECORDTYPE_MX (map mx_record example_mx)))
       (length (dns_message 4660 (str ''allears.test'') AEM_DNS_RECORDTYPE_MX (map mx_record example_mx)))
       (str ''allears.test'') (replicate 128 0) [] AEM_DNS_RECORDTYPE_MX = (True, buf', mx) \<and>
     (ttl, p, mx) \<in> set example_mx \<and> list_all (\<lambda>(t, p', m). p \<le> p') example_mx"
proof -
  have "isValidDomain (str ''mx2.allears.test'')" "isValidDomain (str ''mx.allears.test'')" by code_simp+
  then have ok: "list_all mx_ok example_mx" by (simp add: example_mx_def mx_ok_def)
  have "example_mx \<noteq> []" "length example_mx < 65536" by (simp_all add: example_mx_def)
  from mx_answers_read [OF this ok holds_at_nth, of 4660 "str ''allears.test''" "replicate 128 0"]
  show ?thesis unfolding list_all_iff .
qed

text \<open>the names and records read from a response fit the buffers of the callers, 128 bytes for a
  name and 1024 for a TXT record, whatever the response and the memory behind it hold.\<close>

theorem dns_result_fits:
  "length (snd (snd (dnsResponse_GetNameRecord reqId rd lenRes domain buf [] queryType))) \<le>
     (if queryType = AEM_DNS_RECORDTYPE_TXT then 1023 else 127)"
  using getNameRecord_txt [of queryType "[]"] getNameRecord_name [of queryType "[]"]
  by (simp add: dnsResponse_GetNameRecord_def Let_def)

text \<open>The request for a domain of more than 78 characters does not fit the 100 bytes on the stack
  that the callers hand out.\<close>

lemma request_overflows: "78 < length d \<Longrightarrow> 100 < length (dnsCreateRequest i d q)"
  by (simp add: len_simps)

end
