(* ===== verification/Enquiry.thy ===== *)
theory Enquiry
  imports Dns_Claims
begin

text \<open>
  AEM-Enquiry: the queries of \<^verbatim>\<open>src/enquiry/DNS.c\<close>, the look-ups of \<^verbatim>\<open>Geo.c\<close> and the handlers of
  \<^verbatim>\<open>IntCom_Action.c\<close>.  What a query takes from its surroundings is a record \<open>dns_env\<close>: the random
  identifier, the connection to the name server (a request to what \<^verbatim>\<open>recv\<close> returned, \<open>None\<close> when a
  call fails), and the memory behind the received bytes.  The GeoLite2 databases are functions.

  Requests are written to 100 bytes on the stack, which the code does not check: a query whose
  request does not fit has no defined result, which is \<open>None\<close> here and \<open>E_Undefined\<close> in a handler.
\<close>

section \<open>Queries (DNS.c)\<close>

record dns_env =
  reqid :: nat
  ask :: "byte list \<Rightarrow> byte list option"
  behind :: "nat \<Rightarrow> byte"

definition checkDnsLength :: "byte list \<Rightarrow> bool" where
  "checkDnsLength src \<longleftrightarrow> 1 \<le> length src \<and> length src \<le> 65535 \<and> length src = be16 ((!) src) 0 + 2"

definition getResponse :: "dns_env \<Rightarrow> byte list \<Rightarrow> byte list option" where
  "getResponse e req =
     (case ask e req of
        None \<Rightarrow> None
      | Some r \<Rightarrow> if checkDnsLength (take 1024 r) then Some (take 1024 r) else None)"

text \<open>The message behind its length, in the memory of the response buffer.\<close>

definition res_mem :: "dns_env \<Rightarrow> byte list \<Rightarrow> nat \<Rightarrow> byte" where
  "res_mem e r i = (if i + 2 < length r then r ! (i + 2) else behind e i)"

definition req_fits :: "byte list \<Rightarrow> bool" where
  "req_fits req \<longleftrightarrow> length req \<le> 100"

text \<open>The common part of the queries: \<open>bad\<close> when there is no response.\<close>

definition dns_query ::
  "dns_env \<Rightarrow> byte list \<Rightarrow> nat \<Rightarrow> 'a \<Rightarrow> ((nat \<Rightarrow> byte) \<Rightarrow> nat \<Rightarrow> 'a) \<Rightarrow> 'a option" where
  "dns_query e domain queryType bad use =
     (let req = dnsCreateRequest (reqid e) domain queryType
      in if \<not> req_fits req then None
         else case getResponse e req of
           None \<Rightarrow> Some bad
         | Some r \<Rightarrow> Some (use (res_mem e r) (length r - 2)))"

definition queryDns_a :: "dns_env \<Rightarrow> byte list \<Rightarrow> u32 option" where
  "queryDns_a e domain =
     (if length domain < 4 \<or> hd domain = 0 then Some 0
      else dns_query e domain AEM_DNS_RECORDTYPE_A 0
             (\<lambda>rd n. dnsResponse_GetIp (reqid e) rd n domain AEM_DNS_RECORDTYPE_A))"

text \<open>The address, the buffer and the name in it.  The second environment is that of the query for
  the address.\<close>

definition queryDns_mx ::
  "dns_env \<Rightarrow> dns_env \<Rightarrow> byte list \<Rightarrow> byte list \<Rightarrow> (u32 \<times> byte list \<times> byte list) option" where
  "queryDns_mx e e2 domain buf =
     (if length domain < 4 \<or> hd domain = 0 then Some (0, buf, [])
      else case dns_query e domain AEM_DNS_RECORDTYPE_MX None
              (\<lambda>rd n. Some (dnsResponse_GetNameRecord (reqid e) rd n domain buf [] AEM_DNS_RECORDTYPE_MX)) of
        None \<Rightarrow> None
      | Some None \<Rightarrow> Some (0, buf, [])
      | Some (Some (ok, buf', mx)) \<Rightarrow>
          if ok \<or> length mx \<ge> 4 then map_option (\<lambda>ip. (ip, buf', mx)) (queryDns_a e2 mx)
          else Some (0, buf', mx))"

definition queryDns_dkim :: "dns_env \<Rightarrow> byte list \<Rightarrow> byte list \<Rightarrow> byte list option" where
  "queryDns_dkim e selector domain =
     (if domain = [] \<or> hd domain = 0 \<or> selector = [] \<or> hd selector = 0 then Some []
      else let d = selector @ str ''._domainkey.'' @ domain
        in dns_query e d AEM_DNS_RECORDTYPE_TXT []
             (\<lambda>rd n. snd (snd (dnsResponse_GetNameRecord (reqid e) rd n d (replicate 1024 0) [] AEM_DNS_RECORDTYPE_TXT))))"

text \<open>\<^verbatim>\<open>%u\<close> of a byte, and the name the addresses are looked up under.\<close>

fun dec :: "nat \<Rightarrow> byte list" where
  "dec n = (if n < 10 then [of_nat (48 + n)] else dec (n div 10) @ [of_nat (48 + n mod 10)])"

declare dec.simps [simp del]

definition ip_byte :: "u32 \<Rightarrow> nat \<Rightarrow> nat" where
  "ip_byte ip k = unat (drop_bit (8 * k) ip AND 0xFF)"

definition ip_domain :: "u32 \<Rightarrow> byte list" where
  "ip_domain ip = dec (ip_byte ip 3) @ [46] @ dec (ip_byte ip 2) @ [46] @ dec (ip_byte ip 1) @ [46] @
     dec (ip_byte ip 0)"

definition getPtr :: "dns_env \<Rightarrow> u32 \<Rightarrow> byte list \<Rightarrow> (byte list \<times> byte list) option" where
  "getPtr e ip buf =
     (if ip = 0 then Some (buf, [])
      else let d = ip_domain ip @ str ''.in-addr.arpa''
        in dns_query e d AEM_DNS_RECORDTYPE_PTR (buf, [])
             (\<lambda>rd n. snd (dnsResponse_GetNameRecord (reqid e) rd n d buf [] AEM_DNS_RECORDTYPE_PTR)))"

section \<open>Databases (Geo.c)\<close>

text \<open>The first two characters of the country code and the organisation, \<open>None\<close> when any call of
  the library fails or there is no entry.\<close>

record geo_db =
  country :: "u32 \<Rightarrow> (byte \<times> byte) option"
  as_org :: "u32 \<Rightarrow> byte list option"

definition AEM_ENQUIRY_GEO_ERROR :: nat where "AEM_ENQUIRY_GEO_ERROR = 7967"

definition getCountryCode :: "geo_db \<Rightarrow> u32 \<Rightarrow> nat" where
  "getCountryCode g ip =
     (case country g ip of
        None \<Rightarrow> AEM_ENQUIRY_GEO_ERROR
      | Some (a, b) \<Rightarrow> if is_upper a \<and> is_upper b then le_read [a - 65, b - 65] else AEM_ENQUIRY_GEO_ERROR)"

definition getIpAsn :: "geo_db \<Rightarrow> u32 \<Rightarrow> byte list" where
  "getIpAsn g ip =
     (case as_org g ip of
        None \<Rightarrow> []
      | Some s \<Rightarrow> if 0 < length s \<and> length s \<le> 63 then s else [])"

section \<open>Handlers (IntCom_Action.c)\<close>

datatype enq_res = E_Undefined | E_Err | E_Reply "byte list"

datatype enq_op = AEM_ENQUIRY_MX | AEM_ENQUIRY_A | AEM_ENQUIRY_IP | AEM_ENQUIRY_DKIM

definition enq_op_of :: "byte \<Rightarrow> enq_op option" where
  "enq_op_of t = (if t = 0 then Some AEM_ENQUIRY_MX else if t = 1 then Some AEM_ENQUIRY_A
     else if t = 2 then Some AEM_ENQUIRY_IP else if t = 3 then Some AEM_ENQUIRY_DKIM else None)"

text \<open>\<^verbatim>\<open>mem\<close>: the allocation succeeds.  The three environments are those of the queries for the
  mail exchanger, its address and the name of the address.\<close>

definition enq_conn_api ::
  "geo_db \<Rightarrow> bool \<Rightarrow> dns_env \<Rightarrow> dns_env \<Rightarrow> dns_env \<Rightarrow> byte \<Rightarrow> byte list \<Rightarrow> enq_res" where
  "enq_conn_api g mem e1 e2 e3 type msg =
     (if enq_op_of type \<noteq> Some AEM_ENQUIRY_MX then E_Err
      else if \<not> isValidDomain msg \<or> \<not> mem then E_Err
      else case queryDns_mx e1 e2 msg (replicate 2042 0) of
        None \<Rightarrow> E_Undefined
      | Some (ip, buf, mx) \<Rightarrow>
          if length mx < 4 \<or> length mx > 127 then E_Err
          else let asn = getIpAsn g ip;
                   res = le_bytes 4 (unat ip) @ le_bytes 2 (getCountryCode g ip) @ buf;
                   res = write_at 134 asn res;
                   res = (if length asn > 127 then res[261 := 0] else res)
            in case getPtr e3 ip (drop 262 res) of
              None \<Rightarrow> E_Undefined
            | Some (buf, ptr) \<Rightarrow>
                let res = take 262 res @ buf;
                    res = (if length ptr > 127 then res[389 := 0] else res)
                in E_Reply (take 390 res))"

text \<open>The byte behind a DKIM record is the last of the allocated memory, which nothing wrote.\<close>

definition enq_conn_dlv ::
  "geo_db \<Rightarrow> bool \<Rightarrow> byte \<Rightarrow> dns_env \<Rightarrow> byte \<Rightarrow> byte list \<Rightarrow> enq_res" where
  "enq_conn_dlv g mem junk e type msg =
     (case enq_op_of type of
        Some AEM_ENQUIRY_IP \<Rightarrow>
          (if length msg \<noteq> 4 then E_Err
           else let ip = of_nat (le_read msg) in
             if validIp ip = 1 \<or> \<not> mem then E_Err
             else case getPtr e ip (replicate 256 0) of
               None \<Rightarrow> E_Undefined
             | Some (buf, ptr) \<Rightarrow>
                 let asn = getIpAsn g ip; asn = take 63 asn
                 in E_Reply (le_bytes 2 (getCountryCode g ip) @ [of_nat (length ptr), of_nat (length asn)] @ ptr @ asn))
      | Some AEM_ENQUIRY_A \<Rightarrow>
          (if \<not> isValidDomain msg then E_Err
           else case queryDns_a e msg of
             None \<Rightarrow> E_Undefined
           | Some ip \<Rightarrow> if mem then E_Reply (le_bytes 4 (unat ip)) else E_Err)
      | Some AEM_ENQUIRY_DKIM \<Rightarrow>
          (let sel = takeWhile (\<lambda>c. c \<noteq> 47) msg
           in if length sel = length msg then E_Err
           else case queryDns_dkim e sel (drop (length sel + 1) msg) of
             None \<Rightarrow> E_Undefined
           | Some r \<Rightarrow> if r = [] \<or> \<not> mem then E_Err else E_Reply (r @ [junk]))
      | _ \<Rightarrow> E_Err)"

end
