(* ===== verification/Ip_Info.thy ===== *)
theory Ip_Info
  imports Enquiry
begin

text \<open>
  What AEM-Deliver asks AEM-Enquiry about the sender's address: \<^verbatim>\<open>src/deliver/ipInfo.c\<close>, and what
  the two programs give together.
\<close>

section \<open>The client\<close>

text \<open>The fields of \<^verbatim>\<open>struct emailInfo\<close> that \<open>getIpInfo\<close> fills; a list is the part of the array
  below its length field.\<close>

record ip_info =
  ii_cc :: "byte list"
  ii_rvDns :: "byte list"
  ii_auSys :: "byte list"
  ii_match :: bool
  ii_blacklisted :: bool

definition AEM_MTA_DNSBL :: "byte list" where
  "AEM_MTA_DNSBL = str ''dnsbl.sorbs.net''"

text \<open>\<open>enq\<close>: what \<^verbatim>\<open>intcom\<close> returns for a command of AEM-Enquiry, \<open>None\<close> for every error.\<close>

definition isIpBlacklisted :: "(enq_op \<Rightarrow> byte list \<Rightarrow> byte list option) \<Rightarrow> u32 \<Rightarrow> bool" where
  "isIpBlacklisted enq ip =
     (case enq AEM_ENQUIRY_A (ip_domain ip @ [46] @ AEM_MTA_DNSBL) of
        None \<Rightarrow> False
      | Some r \<Rightarrow> length r = 4 \<and> le_read r = 1)"

definition greetingDomainMatchesIp ::
  "(enq_op \<Rightarrow> byte list \<Rightarrow> byte list option) \<Rightarrow> byte list \<Rightarrow> u32 \<Rightarrow> bool" where
  "greetingDomainMatchesIp enq greet ip =
     (case enq AEM_ENQUIRY_A greet of
        None \<Rightarrow> False
      | Some r \<Rightarrow> length r = 4 \<and> of_nat (le_read r) = ip)"

definition getIpInfo ::
  "(enq_op \<Rightarrow> byte list \<Rightarrow> byte list option) \<Rightarrow> u32 \<Rightarrow> byte list \<Rightarrow> ip_info \<Rightarrow> ip_info" where
  "getIpInfo enq ip greet i =
     (let i = i\<lparr>ii_rvDns := [], ii_cc := map (\<lambda>c. c OR 31) (ii_cc i)\<rparr>
      in case enq AEM_ENQUIRY_IP (le_bytes 4 (unat ip)) of
        None \<Rightarrow> i
      | Some r \<Rightarrow>
          if length r < 4 then i
          else
            let i = i\<lparr>ii_cc := take 2 r\<rparr>;
                i = (if r ! 2 > 0 then i\<lparr>ii_rvDns := take (min 63 (unat (r ! 2))) (drop 4 r)\<rparr> else i);
                i = (if r ! 3 > 0 then i\<lparr>ii_auSys := take (min 63 (unat (r ! 3)))
                       (drop (4 + length (ii_rvDns i)) r)\<rparr> else i)
            in i\<lparr>ii_match := greetingDomainMatchesIp enq greet ip, ii_blacklisted := isIpBlacklisted enq ip\<rparr>)"

section \<open>Both ends together\<close>

text \<open>AEM-Enquiry at the other end: its environment may differ for each command.\<close>

definition enq_server ::
  "geo_db \<Rightarrow> byte \<Rightarrow> (enq_op \<Rightarrow> dns_env) \<Rightarrow> enq_op \<Rightarrow> byte list \<Rightarrow> byte list option" where
  "enq_server g junk env c msg =
     (case enq_conn_dlv g True junk (env c) (case c of AEM_ENQUIRY_MX \<Rightarrow> 0 | AEM_ENQUIRY_A \<Rightarrow> 1
         | AEM_ENQUIRY_IP \<Rightarrow> 2 | AEM_ENQUIRY_DKIM \<Rightarrow> 3) msg of
        E_Reply r \<Rightarrow> Some r
      | _ \<Rightarrow> None)"

subsection \<open>Sizes\<close>

lemma length_dec: "n < 1000 \<Longrightarrow> length (dec n) \<le> 3"
  by (simp add: dec.simps)

lemma ip_byte_bound: "ip_byte ip k \<le> 255"
  using word_and_le1 [of "drop_bit (8 * k) ip" "0xFF"] by (simp add: ip_byte_def word_le_nat_alt)

lemma length_ip_domain: "length (ip_domain ip) \<le> 15"
proof -
  have "length (dec (ip_byte ip k)) \<le> 3" for k
    using ip_byte_bound [of ip k] by (intro length_dec) simp
  from this [of 0] this [of 1] this [of 2] this [of 3] show ?thesis by (simp add: ip_domain_def)
qed

lemma dns_query_defined: "length d \<le> 78 \<Longrightarrow> dns_query e d q bad use \<noteq> None"
  by (simp add: dns_query_def req_fits_def len_simps Let_def split: option.split)

lemma dns_query_undefined: "78 < length d \<Longrightarrow> dns_query e d q bad use = None"
  by (simp add: dns_query_def req_fits_def len_simps Let_def)

lemma getPtr_some:
  "\<exists>buf' ptr. getPtr e ip buf = Some (buf', ptr) \<and> length ptr \<le> 127 \<and>
     (127 \<le> length buf \<longrightarrow> length buf' = length buf)"
proof (cases "ip = 0")
  case False
  let ?d = "ip_domain ip @ str ''.in-addr.arpa''"
  have fits: "req_fits (dnsCreateRequest (reqid e) ?d AEM_DNS_RECORDTYPE_PTR)"
    using length_ip_domain [of ip] by (simp add: req_fits_def len_simps)
  show ?thesis
  proof (cases "getResponse e (dnsCreateRequest (reqid e) ?d AEM_DNS_RECORDTYPE_PTR)")
    case None
    then show ?thesis using False fits by (simp add: getPtr_def dns_query_def)
  next
    case (Some r)
    let ?x = "dnsResponse_GetNameRecord (reqid e) (res_mem e r) (length r - 2) ?d buf [] AEM_DNS_RECORDTYPE_PTR"
    have "length (snd (snd ?x)) \<le> 127" "127 \<le> length buf \<Longrightarrow> length (fst (snd ?x)) = length buf"
      using getNameRecord_name [of AEM_DNS_RECORDTYPE_PTR "[]"] getNameRecord_buffer [of AEM_DNS_RECORDTYPE_PTR "[]"]
      by (simp_all add: dnsResponse_GetNameRecord_def Let_def dns_types)
    then show ?thesis using False fits Some by (cases ?x) (simp add: getPtr_def dns_query_def Let_def)
  qed
qed (simp add: getPtr_def)

lemma length_getIpAsn: "length (getIpAsn g ip) \<le> 63"
  by (simp add: getIpAsn_def split: option.split)

end
