(* ===== verification/Enquiry_Claims.thy ===== *)
theory Enquiry_Claims
  imports Ip_Info
begin

text \<open>
  The properties of AEM-Enquiry and of the pair AEM-Enquiry and AEM-Deliver.
\<close>

section \<open>Characters of a domain\<close>

lemma split_acc_chars:
  "list_all (list_all Q) (split_acc cur cs) \<Longrightarrow> list_all (\<lambda>c. Q c \<or> c = 46) (cur @ cs)"
proof (induction cur cs rule: split_acc.induct)
  case (1 cur)
  then show ?case by (simp add: list_all_iff)
next
  case (2 cur c cs)
  show ?case
  proof (cases "c = 46")
    case True
    then show ?thesis using 2(1) [OF True] 2(3) by (auto simp: list_all_iff)
  next
    case False
    then show ?thesis using 2(2) [OF False] 2(3) by simp
  qed
qed

lemma valid_domain_chars:
  assumes "isValidDomain d"
  shows "list_all (\<lambda>c. ldh c \<or> c = 45 \<or> c = 46) d"
proof -
  have "list_all (list_all (\<lambda>c. ldh c \<or> c = 45)) (split_acc [] d)"
    using assms by (simp add: isValidDomain_iff label_ok_def label_chars_def list_all_iff labels_def)
  from split_acc_chars [OF this] show ?thesis by (simp add: list_all_iff)
qed

lemma valid_domain_nonzero: "isValidDomain d \<Longrightarrow> c \<in> set d \<Longrightarrow> c \<noteq> 0"
  using valid_domain_chars [of d] by (auto simp: list_all_iff ldh_def ctype_defs)

lemma valid_domain_front: "isValidDomain d \<Longrightarrow> 4 \<le> length d \<and> length d \<le> 127 \<and> hd d \<noteq> 0"
proof -
  assume v: "isValidDomain d"
  then have l: "4 \<le> length d \<and> length d \<le> 127" by (simp add: isValidDomain_iff)
  then have "d \<noteq> []" by auto
  then show "4 \<le> length d \<and> length d \<le> 127 \<and> hd d \<noteq> 0"
    using l valid_domain_nonzero [OF v, of "hd d"] by simp
qed

section \<open>The size of a request\<close>

text \<open>C33: the look-up of a domain, which AEM-Deliver asks for with the name a client gave in its
  \<^verbatim>\<open>EHLO\<close>, writes or reads behind the 100 bytes of its request buffer exactly when the domain is an
  accepted one of more than 78 characters.\<close>

theorem greeting_overflows:
  "(enq_conn_dlv g mem junk e 1 msg = E_Undefined) = (isValidDomain msg \<and> 78 < length msg)"
proof (cases "isValidDomain msg")
  case True
  note v = valid_domain_front [OF True]
  have "queryDns_a e msg = None \<longleftrightarrow> 78 < length msg"
  proof (cases "78 < length msg")
    case long: True
    then show ?thesis using v by (simp add: queryDns_a_def dns_query_undefined)
  next
    case False
    then show ?thesis using v dns_query_defined [of msg] by (simp add: queryDns_a_def)
  qed
  then show ?thesis using True by (cases "queryDns_a e msg") (simp_all add: enq_conn_dlv_def enq_op_of_def)
qed (simp add: enq_conn_dlv_def enq_op_of_def)

section \<open>Answered queries\<close>

lemma map_nth_holds: "(\<And>i. i < length bs \<Longrightarrow> rd (k + i) = bs ! i) \<Longrightarrow> holds_at rd k bs"
proof (induction bs arbitrary: k)
  case (Cons b bs)
  have "rd (Suc k + i) = bs ! i" if "i < length bs" for i using Cons.prems [of "Suc i"] that by simp
  then show ?case using Cons.IH [of "Suc k"] Cons.prems [of 0] by simp
qed simp

lemma res_mem_holds: "length h = 2 \<Longrightarrow> holds_at (res_mem e (h @ a)) 0 a"
  by (rule map_nth_holds) (auto simp: res_mem_def nth_append)

lemma checkDnsLength_ok:
  "length a < 1000 \<Longrightarrow> checkDnsLength (be_bytes (length a) @ a)"
  by (simp add: checkDnsLength_def be16_def be_bytes_def unat_of_nat)

text \<open>The name server answers the request for \<open>d\<close> with the message \<open>a\<close>.\<close>

definition answers :: "dns_env \<Rightarrow> byte list \<Rightarrow> nat \<Rightarrow> byte list \<Rightarrow> bool" where
  "answers e d q a \<longleftrightarrow> ask e (dnsCreateRequest (reqid e) d q) = Some (be_bytes (length a) @ a) \<and> length a < 1000"

lemma dns_query_answered:
  assumes "answers e d q a" "length d \<le> 78"
  shows "dns_query e d q bad use = Some (use (res_mem e (be_bytes (length a) @ a)) (length a))"
  using assms checkDnsLength_ok [of a]
  by (simp add: dns_query_def answers_def getResponse_def req_fits_def len_simps Let_def)

lemma getPtr_answered:
  assumes "ip \<noteq> 0" "isValidDomain d" "length ttl = 4"
    "answers e (ip_domain ip @ str ''.in-addr.arpa'') AEM_DNS_RECORDTYPE_PTR
       (dns_message (reqid e) (ip_domain ip @ str ''.in-addr.arpa'') AEM_DNS_RECORDTYPE_PTR
          [dns_record AEM_DNS_RECORDTYPE_PTR ttl (dns_name d)])"
  shows "getPtr e ip buf = Some (overlay d buf, d)"
proof -
  let ?d = "ip_domain ip @ str ''.in-addr.arpa''" and ?rs = "[dns_record AEM_DNS_RECORDTYPE_PTR ttl (dns_name d)]"
  let ?a = "dns_message (reqid e) ?d AEM_DNS_RECORDTYPE_PTR ?rs"
  have d: "length ?d \<le> 78" using length_ip_domain [of ip] by simp
  let ?rd = "res_mem e (be_bytes (length ?a) @ ?a)"
  have h: "holds_at ?rd 0 ?a" by (rule res_mem_holds) (rule length_be_bytes)
  have n: "length ?rs < 65536" by simp
  note p = dns_message_parts [OF h n]
  have "holds_at ?rd (18 + length ?d) (dns_record AEM_DNS_RECORDTYPE_PTR ttl (dns_name d))" using p(2) by simp
  then have "getNameRecord ?rd (length ?a) (18 + length ?d) (Suc 0) 65535 buf [] AEM_DNS_RECORDTYPE_PTR =
      (True, overlay d buf, d)"
    using assms(2,3) by (intro getNameRecord_ptr) (auto simp: len_simps)
  then have "dnsResponse_GetNameRecord (reqid e) ?rd (length ?a) ?d buf [] AEM_DNS_RECORDTYPE_PTR =
      (True, overlay d buf, d)"
    using p(1) by (simp add: dnsResponse_GetNameRecord_def)
  then show ?thesis
    using assms(1) by (simp add: getPtr_def Let_def dns_query_answered [OF assms(4) d])
qed

section \<open>The reply to a look-up of an address\<close>

lemma enq_ip_reply:
  assumes "validIp ip \<noteq> 1" "getPtr e ip (replicate 256 0) = Some (buf, ptr)"
  shows "enq_conn_dlv g True junk e 2 (le_bytes 4 (unat ip)) =
    E_Reply (le_bytes 2 (getCountryCode g ip) @ [of_nat (length ptr), of_nat (length (getIpAsn g ip))] @ ptr @
      getIpAsn g ip)"
proof -
  have "unat ip < 256 ^ 4" using unsigned_less [of ip] by simp
  then have "of_nat (le_read (le_bytes 4 (unat ip))) = ip" by (simp add: le_read_bytes)
  then show ?thesis
    using assms length_getIpAsn [of g ip] by (simp add: enq_conn_dlv_def enq_op_of_def Let_def)
qed

lemma reply_parts:
  assumes "length h = 2"
  shows "(h @ x # y # z) ! 2 = x" "(h @ x # y # z) ! 3 = y" "take 2 (h @ x # y # z) = h"
    "drop (4 + k) (h @ x # y # z) = drop k z"
proof -
  obtain a b where h: "h = [a, b]" using assms by (auto simp: numeral_2_eq_2 length_Suc_conv)
  show "(h @ x # y # z) ! 2 = x" "(h @ x # y # z) ! 3 = y" "take 2 (h @ x # y # z) = h"
    by (simp_all add: h)
  have "drop (4 + k) (h @ x # y # z) = drop k (drop 4 (h @ x # y # z))"
    by (simp only: drop_drop add.commute)
  then show "drop (4 + k) (h @ x # y # z) = drop k z" by (simp add: h)
qed

text \<open>what AEM-Deliver stores about a public address is what AEM-Enquiry found: the country, the
  first 63 characters of the reverse name, and the organisation - the latter, though, only when the
  reverse name has at most 63 characters; behind a longer one it is read from the middle of the name.\<close>

theorem ip_info_reads:
  assumes "validIp ip \<noteq> 1" "getPtr (env AEM_ENQUIRY_IP) ip (replicate 256 0) = Some (buf, ptr)"
  shows "ii_cc (getIpInfo (enq_server g junk env) ip greet i) = le_bytes 2 (getCountryCode g ip) \<and>
    ii_rvDns (getIpInfo (enq_server g junk env) ip greet i) = take 63 ptr \<and>
    ii_auSys (getIpInfo (enq_server g junk env) ip greet i) =
       (if getIpAsn g ip = [] then ii_auSys i
        else if length ptr \<le> 63 then getIpAsn g ip
        else take (length (getIpAsn g ip)) (drop 63 ptr @ getIpAsn g ip))"
proof -
  let ?asn = "getIpAsn g ip" and ?enq = "enq_server g junk env"
  define np na :: byte where "np = of_nat (length ptr)" and "na = of_nat (length ?asn)"
  define z where "z = ptr @ ?asn"
  have zl: "length z = length ptr + length ?asn" by (simp add: z_def)
  let ?r = "le_bytes 2 (getCountryCode g ip) @ np # na # z"
  have "length ptr \<le> 127" using getPtr_some [of "env AEM_ENQUIRY_IP" ip "replicate 256 0"] assms(2) by auto
  then have p: "unat np = length ptr" by (simp add: unat_of_nat np_def)
  have a: "unat na = length ?asn" "length ?asn \<le> 63"
    using length_getIpAsn [of g ip] by (simp_all add: unat_of_nat na_def)
  have enq: "?enq AEM_ENQUIRY_IP (le_bytes 4 (unat ip)) = Some ?r"
    using enq_ip_reply [OF assms] by (simp add: enq_server_def np_def na_def z_def)
  note r = reply_parts [OF length_le_bytes [of 2 "getCountryCode g ip"],
      where x = np and y = na and z = z]
  note r0 = r(4) [of 0, simplified]
  have pos: "(0 < np) = (ptr \<noteq> [])" "(0 < na) = (?asn \<noteq> [])"
    using p a by (auto simp: word_less_nat_alt)
  note defs = getIpInfo_def enq Let_def r r0 pos p a
  have cc: "ii_cc (getIpInfo ?enq ip greet i) = le_bytes 2 (getCountryCode g ip)" by (simp add: defs)
  have rv: "ii_rvDns (getIpInfo ?enq ip greet i) = (if ptr = [] then [] else take (min 63 (length ptr)) z)"
    by (simp add: defs)
  then have rvd: "ii_rvDns (getIpInfo ?enq ip greet i) = take 63 ptr" by (simp add: z_def min_def)
  have "ii_auSys (getIpInfo ?enq ip greet i) =
      (if ?asn = [] then ii_auSys i else take (length ?asn) (drop (min 63 (length ptr)) z))"
    by (simp add: defs zl)
  then have as: "ii_auSys (getIpInfo ?enq ip greet i) =
       (if ?asn = [] then ii_auSys i else if length ptr \<le> 63 then ?asn
        else take (length ?asn) (drop 63 ptr @ ?asn))"
    by (simp add: z_def min_def)
  show ?thesis using cc rvd as by (intro conjI)
qed

definition quad9 :: u32 where "quad9 = 0x09090909"

text \<open>A name server that answers every request with the given message.\<close>

definition answering :: "byte list \<Rightarrow> dns_env" where
  "answering a = \<lparr>reqid = 4660, ask = (\<lambda>_. Some (be_bytes (length a) @ a)), behind = (\<lambda>_. 0)\<rparr>"

definition quad9_ptr :: dns_env where
  "quad9_ptr = answering (dns_message 4660 (ip_domain quad9 @ str ''.in-addr.arpa'') AEM_DNS_RECORDTYPE_PTR
     [dns_record AEM_DNS_RECORDTYPE_PTR [0, 0, 1, 44] (dns_name (str ''dns9.quad9.net''))])"

definition quad9_geo :: geo_db where
  "quad9_geo = \<lparr>country = (\<lambda>_. Some (85, 83)), as_org = (\<lambda>_. Some (str ''QUAD9-AS-1''))\<rparr>"

definition no_info :: ip_info where
  "no_info = \<lparr>ii_cc = [0, 0], ii_rvDns = [], ii_auSys = [], ii_match = False, ii_blacklisted = False\<rparr>"

theorem ip_info_reads_witness:
  "validIp quad9 \<noteq> 1 \<and>
   ii_rvDns (getIpInfo (enq_server quad9_geo 0 (\<lambda>_. quad9_ptr)) quad9 [] no_info) = str ''dns9.quad9.net'' \<and>
   ii_auSys (getIpInfo (enq_server quad9_geo 0 (\<lambda>_. quad9_ptr)) quad9 [] no_info) = str ''QUAD9-AS-1''"
proof -
  have v: "validIp quad9 \<noteq> 1" by code_simp
  have "isValidDomain (str ''dns9.quad9.net'')" by code_simp
  then have b: "getPtr quad9_ptr quad9 (replicate 256 0) =
      Some (overlay (str ''dns9.quad9.net'') (replicate 256 0), str ''dns9.quad9.net'')"
    using length_ip_domain [of quad9]
    by (intro getPtr_answered [where ttl = "[0, 0, 1, 44]"])
       (simp_all add: quad9_def quad9_ptr_def answering_def answers_def len_simps)
  have g: "getIpAsn quad9_geo quad9 = str ''QUAD9-AS-1''" by code_simp
  have ne: "str ''QUAD9-AS-1'' \<noteq> []" by (simp add: str_def)
  show ?thesis
    using v ip_info_reads [where env = "\<lambda>_. quad9_ptr" and g = quad9_geo, OF v b] g ne by simp
qed

section \<open>The reply to a look-up of a mail exchanger\<close>

text \<open>What the API reads as the name: the bytes at 6 up to the first zero.\<close>

definition mx_field :: "byte list \<Rightarrow> byte list" where
  "mx_field res = takeWhile (\<lambda>c. c \<noteq> 0) (drop 6 res)"

lemma take_write_at: "i \<le> length m \<Longrightarrow> k \<le> i \<Longrightarrow> take k (write_at i bs m) = take k m"
  by (simp add: write_at_def min_def)

lemma length_write_at: "i + length bs \<le> length m \<Longrightarrow> length (write_at i bs m) = length m"
  by (simp add: write_at_def)

lemma takeWhile_take:
  assumes "k \<le> length xs" "z \<in> set (take k xs)" "\<not> P z"
  shows "takeWhile P xs = takeWhile P (take k xs)"
proof -
  have "xs = take k xs @ drop k xs" by simp
  then show ?thesis using assms by (metis takeWhile_append1)
qed

text \<open>The zeroed buffer holds the improvements, one over the other, and stays zero behind them.\<close>

lemma overlay_zeros:
  "length m \<le> 127 \<Longrightarrow> length b \<le> 127 \<Longrightarrow>
     overlay m (b @ replicate (2042 - length b) 0) =
     overlay m b @ replicate (2042 - length (overlay m b)) (0 :: byte)"
  by (simp add: overlay_def)

lemma mx_best_zeros:
  "list_all mx_ok rs \<Longrightarrow> length b \<le> 127 \<Longrightarrow> 0 \<notin> set b \<Longrightarrow>
   (let m = mx_best prio b res rs
    in mx_best prio (b @ replicate (2042 - length b) 0) res rs = (fst m @ replicate (2042 - length (fst m)) 0, snd m) \<and>
       length (fst m) \<le> 127 \<and> 0 \<notin> set (fst m))"
proof (induction prio b res rs rule: mx_best.induct)
  case (2 prio b res ttl p mx rs)
  have v: "isValidDomain mx" "list_all mx_ok rs" using "2.prems"(1) by (simp_all add: mx_ok_def)
  note l = name_bound [OF v(1)]
  have o: "length (overlay mx b) \<le> 127" "0 \<notin> set (overlay mx b)"
    using l "2.prems"(2,3) valid_domain_nonzero [OF v(1)] by (auto simp: overlay_def dest: in_set_dropD)
  show ?case
    using "2.IH"(1) [OF _ v(2) o] "2.IH"(2) [OF _ v(2) "2.prems"(2,3)]
    by (cases "p < prio") (simp_all add: overlay_zeros [OF l "2.prems"(2)])
qed simp

lemma mx_field_from:
  assumes "length out = 390" "take 134 out = take 134 (h @ n @ replicate (2042 - length n) 0)"
    "length h = 6" "length n \<le> 127" "0 \<notin> set n"
  shows "mx_field out = n"
proof -
  have window: "take 128 (drop 6 xs) = drop 6 (take 134 xs)" for xs :: "byte list"
    by (simp add: drop_take)
  have f: "take 128 (drop 6 out) = n @ replicate (128 - length n) 0"
    using assms(3,4) by (simp only: window assms(2)) simp
  have "takeWhile (\<lambda>c. c \<noteq> 0) (drop 6 out) = takeWhile (\<lambda>c. c \<noteq> 0) (take 128 (drop 6 out))"
    using assms(1,4) by (intro takeWhile_take [where z = 0]) (simp_all add: f)
  also have "\<dots> = n"
    using assms(5) by (simp only: f) (auto simp: takeWhile_append)
  finally show ?thesis by (simp only: mx_field_def)
qed

lemma queryDns_mx_answered:
  assumes "isValidDomain d" "length d \<le> 78" "list_all mx_ok rs" "length rs < 65536" "rs \<noteq> []"
    "answers e d AEM_DNS_RECORDTYPE_MX (dns_message (reqid e) d AEM_DNS_RECORDTYPE_MX (map mx_record rs))"
    "mx_best 65535 buf [] rs = (buf', mx)" "isValidDomain mx" "length mx \<le> 78"
  shows "\<exists>ip. queryDns_mx e e2 d buf = Some (ip, buf', mx)"
proof -
  let ?a = "dns_message (reqid e) d AEM_DNS_RECORDTYPE_MX (map mx_record rs)"
  let ?rd = "res_mem e (be_bytes (length ?a) @ ?a)"
  have h: "holds_at ?rd 0 ?a" by (rule res_mem_holds) (rule length_be_bytes)
  have n: "length (map mx_record rs) < 65536" using assms(4) by simp
  note p = dns_message_parts [OF h n]
  have "getNameRecord ?rd (length ?a) (18 + length d) (length rs) 65535 buf [] AEM_DNS_RECORDTYPE_MX =
      (True, buf', mx)"
    using p(2) assms(3,7) by (simp add: getNameRecord_mxs len_simps)
  then have g: "dnsResponse_GetNameRecord (reqid e) ?rd (length ?a) d buf [] AEM_DNS_RECORDTYPE_MX = (True, buf', mx)"
    using p(1) assms(5) by (simp add: dnsResponse_GetNameRecord_def)
  have "queryDns_a e2 mx \<noteq> None"
    by (simp add: queryDns_a_def dns_query_defined [OF assms(9)] del: not_None_eq)
  then obtain ip where "queryDns_a e2 mx = Some ip" by blast
  then show ?thesis
    using valid_domain_front [OF assms(1)] g
    by (simp add: queryDns_mx_def dns_query_answered [OF assms(6,2)])
qed

text \<open>the mail exchanger that AEM-API reads from the reply of AEM-Enquiry, up to the first zero
  byte, is made of the exchangers of the answer in order, each better one written over the front of
  the last.  It is the name of the best exchanger when that is not shorter than the ones written before;
  otherwise the tail of a longer name is left behind it, as the example shows.\<close>

theorem mx_reply_field:
  assumes "isValidDomain d" "length d \<le> 78" "rs \<noteq> []" "length rs < 65536"
    "list_all mx_ok rs" "list_all (\<lambda>(ttl, p, mx). length mx \<le> 78) rs"
    "answers e1 d AEM_DNS_RECORDTYPE_MX (dns_message (reqid e1) d AEM_DNS_RECORDTYPE_MX (map mx_record rs))"
  shows "\<exists>res. enq_conn_api g True e1 e2 e3 0 d = E_Reply res \<and> length res = 390 \<and>
     mx_field res = fst (mx_best 65535 [] [] rs)"
proof -
  let ?m = "mx_best 65535 [] [] rs"
  have z: "mx_best 65535 (replicate 2042 0) [] rs = (fst ?m @ replicate (2042 - length (fst ?m)) 0, snd ?m)"
    "length (fst ?m) \<le> 127" "0 \<notin> set (fst ?m)"
    using mx_best_zeros [OF assms(5), of "[]" 65535 "[]"] by (simp_all add: Let_def)
  have "\<not> (\<forall>(t, p, m) \<in> set rs. 65535 \<le> p)" using assms(3,5) by (cases rs) (auto simp: mx_ok_def)
  then obtain t p where mx: "(t, p, snd ?m) \<in> set rs" using mx_best_cases [of 65535 "[]" "[]" rs] by blast
  then have v: "isValidDomain (snd ?m)" "length (snd ?m) \<le> 78"
    using assms(5,6) by (auto simp: list_all_iff mx_ok_def)
  obtain ip where q: "queryDns_mx e1 e2 d (replicate 2042 0) =
      Some (ip, fst ?m @ replicate (2042 - length (fst ?m)) 0, snd ?m)"
    using queryDns_mx_answered [OF assms(1,2,5,4,3,7) z(1) v] by blast
  let ?h = "le_bytes 4 (unat ip) @ le_bytes 2 (getCountryCode g ip)"
  let ?res = "?h @ fst ?m @ replicate (2042 - length (fst ?m)) 0"
  let ?res2 = "write_at 134 (getIpAsn g ip) ?res"
  have res: "length ?res = 2048" using z(2) by simp
  have res2: "length ?res2 = 2048" "take 134 ?res2 = take 134 ?res"
    using res length_getIpAsn [of g ip] by (simp_all add: length_write_at take_write_at)
  obtain buf ptr where ptr: "getPtr e3 ip (drop 262 ?res2) = Some (buf, ptr)" "length ptr \<le> 127"
    "127 \<le> length (drop 262 ?res2) \<longrightarrow> length buf = length (drop 262 ?res2)"
    using getPtr_some by blast
  let ?out = "take 390 (take 262 ?res2 @ buf)"
  have out: "length ?out = 390" "take 134 ?out = take 134 ?res"
    using res2 ptr(3) by (simp_all add: min_def)
  have "enq_conn_api g True e1 e2 e3 0 d = E_Reply ?out"
    using assms(1) q ptr(1,2) length_getIpAsn [of g ip] name_bound [OF v(1)] valid_domain_front [OF v(1)]
    by (simp add: enq_conn_api_def enq_op_of_def Let_def)
  moreover have "mx_field ?out = fst ?m"
    using mx_field_from [where out = ?out and h = ?h, OF out(1) _ _ z(2,3)] out(2) by simp
  ultimately show ?thesis using out(1) by blast
qed

text \<open>Two exchangers, the better one second and shorter by a character: the API gets neither name.\<close>

definition mx_env :: dns_env where
  "mx_env = answering (dns_message 4660 (str ''allears.test'') AEM_DNS_RECORDTYPE_MX (map mx_record example_mx))"

theorem mx_reply_field_witness:
  "\<exists>res. enq_conn_api quad9_geo True mx_env quad9_ptr quad9_ptr 0 (str ''allears.test'') = E_Reply res \<and>
     length res = 390 \<and> mx_field res = str ''mx.allears.testt''"
proof -
  have d: "isValidDomain (str ''allears.test'')" by code_simp
  have l: "length (str ''allears.test'') \<le> 78" by simp
  have ne: "example_mx \<noteq> []" "length example_mx < 65536" by (simp_all add: example_mx_def)
  have "isValidDomain (str ''mx2.allears.test'')" "isValidDomain (str ''mx.allears.test'')" by code_simp+
  then have ok: "list_all mx_ok example_mx" "list_all (\<lambda>(ttl, p, mx). length mx \<le> 78) example_mx"
    by (simp_all add: example_mx_def mx_ok_def)
  have a: "answers mx_env (str ''allears.test'') AEM_DNS_RECORDTYPE_MX
      (dns_message (reqid mx_env) (str ''allears.test'') AEM_DNS_RECORDTYPE_MX (map mx_record example_mx))"
    by (simp add: answers_def mx_env_def answering_def len_simps example_mx_def mx_record_def)
  have "fst (mx_best 65535 [] [] example_mx) = str ''mx.allears.testt''"
    by (simp add: example_mx_def overlay_def str_def)
  then show ?thesis
    using mx_reply_field [OF d l ne ok a, of quad9_geo quad9_ptr quad9_ptr] by simp
qed

end
