(* ===== verification/IntCom.thy ===== *)
theory IntCom
  imports Envelope
begin

text \<open>
  Calls between the processes: \<^verbatim>\<open>src/IntCom/Client.c\<close> and \<^verbatim>\<open>src/IntCom/Server.c\<close>.  A call is one
  connection: an encrypted header with the operation and the length, the encrypted message, an
  encrypted result code and the encrypted response, each under the next nonce.

  The cipher, the outcome of the allocations (the n-th of a call) and the connection are parameters.
  The client sees the connection as a function from the bytes it sends, header and message, to
  the bytes that come back, or \<open>None\<close> when the socket cannot be opened or its peer is not the
  expected process; the server as the bytes the first \<^verbatim>\<open>recv\<close> returned and those that follow.
  A result is the code and the memory behind the result pointer.
\<close>

section \<open>Constants\<close>

definition AEM_INTCOM_RESPONSE_ERR :: int where "AEM_INTCOM_RESPONSE_ERR = - (2 ^ 31) + 2"
definition AEM_INTCOM_MAXSIZE :: nat where "AEM_INTCOM_MAXSIZE = AEM_EVP_MAXSIZE"
definition AEM_INTCOM_CLIENT_COUNT :: nat where "AEM_INTCOM_CLIENT_COUNT = 4"
definition AEM_INTCOM_SERVER_COUNT :: nat where "AEM_INTCOM_SERVER_COUNT = 3"

text \<open>\<^verbatim>\<open>crypto_aead_aegis256_ABYTES\<close> and \<^verbatim>\<open>NPUBBYTES\<close>, and the length of an encrypted header.\<close>

definition ABYTES :: nat where "ABYTES = 32"
definition NPUBBYTES :: nat where "NPUBBYTES = 32"
definition lenEncHdr :: nat where "lenEncHdr = 1 + 8 + NPUBBYTES + ABYTES"

lemmas intcom_sizes = ABYTES_def NPUBBYTES_def lenEncHdr_def AEM_INTCOM_CLIENT_COUNT_def AEM_INTCOM_SERVER_COUNT_def

record aead =
  seal :: "byte list \<Rightarrow> byte list \<Rightarrow> byte list \<Rightarrow> byte list"
  unseal :: "byte list \<Rightarrow> byte list \<Rightarrow> byte list \<Rightarrow> byte list option"

text \<open>\<^verbatim>\<open>sodium_increment\<close>: the nonce as a little-endian number.\<close>

definition sodium_increment :: "byte list \<Rightarrow> byte list" where
  "sodium_increment n = le_bytes (length n) (le_read n + 1)"

text \<open>A 32-bit signed number on the wire.\<close>

definition int32_bytes :: "int \<Rightarrow> byte list" where
  "int32_bytes c = le_bytes 4 (nat (c mod 2 ^ 32))"

definition int32_read :: "byte list \<Rightarrow> int" where
  "int32_read bs = (let n = int (le_read bs) in if n < 2 ^ 31 then n else n - 2 ^ 32)"

definition is_zero :: "byte list \<Rightarrow> bool" where
  "is_zero bs \<longleftrightarrow> list_all (\<lambda>b. b = 0) bs"

text \<open>The result codes as the numbers they stand for (Global.h).\<close>

definition code_int :: "intcom_code \<Rightarrow> int" where
  "code_int c = - (2 ^ 31) +
     (case c of IC_OK \<Rightarrow> 0 | IC_CONTINUE \<Rightarrow> 1 | IC_ERR \<Rightarrow> 2 | IC_AUTHFAIL \<Rightarrow> 3 | IC_USAGE \<Rightarrow> 4
      | IC_PERM \<Rightarrow> 5 | IC_EXIST \<Rightarrow> 6 | IC_NOTEXIST \<Rightarrow> 7 | IC_PARTIAL \<Rightarrow> 8 | IC_LIMIT \<Rightarrow> 9 | IC_FORBID \<Rightarrow> 10)"

lemma code_int_neg: "code_int c < 0"
  by (simp add: code_int_def split: intcom_code.split)

section \<open>The server (Server.c)\<close>

type_synonym ic_handler = "nat \<Rightarrow> nat \<Rightarrow> byte list option \<Rightarrow> int \<times> byte list option"

text \<open>A length without a response is an error; a response without a length is freed.\<close>

definition ic_fix :: "int \<times> byte list option \<Rightarrow> int" where
  "ic_fix r = (if snd r = None \<and> fst r > 0 then AEM_INTCOM_RESPONSE_ERR else fst r)"

text \<open>The encrypted response, under the nonce \<open>n\<close> and the next; its body is left out when there is no memory.\<close>

definition ic_respond ::
  "aead \<Rightarrow> (nat \<Rightarrow> bool) \<Rightarrow> byte list \<Rightarrow> byte list \<Rightarrow> int \<times> byte list option \<Rightarrow> byte list" where
  "ic_respond a mem key n r =
     (let code = ic_fix r
      in seal a key n (int32_bytes code) @
         (if code > 0 \<and> mem 2 then seal a key (sodium_increment n) (take (nat code) (the (snd r))) else []))"

text \<open>One connection: what the server sends, \<open>None\<close> when it closes the connection without an answer.\<close>

definition intcom_serve ::
  "aead \<Rightarrow> (nat \<Rightarrow> bool) \<Rightarrow> byte list list \<Rightarrow> ic_handler \<Rightarrow> byte list \<Rightarrow> byte list \<Rightarrow> byte list option" where
  "intcom_serve a mem keys handler hdr rest =
     (if length hdr \<noteq> lenEncHdr then None
      else let client = unat (hd hdr); key = keys ! client; n = take NPUBBYTES (drop 1 hdr)
      in if client \<ge> AEM_INTCOM_CLIENT_COUNT \<or> is_zero key then None
      else case unseal a key n (drop (1 + NPUBBYTES) hdr) of
        None \<Rightarrow> None
      | Some h \<Rightarrow>
          let operation = le_read (take 4 h); lenMsg = le_read (take 4 (drop 4 h))
          in if lenMsg > 0 then
               (let encMsg = take (lenMsg + ABYTES) rest
                in if \<not> mem 0 \<or> length encMsg \<noteq> lenMsg + ABYTES \<or> \<not> mem 1 then None
                else case unseal a key (sodium_increment n) encMsg of
                  None \<Rightarrow> None
                | Some msg \<Rightarrow>
                    Some (ic_respond a mem key (sodium_increment (sodium_increment n))
                      (handler client operation (Some msg))))
             else Some (ic_respond a mem key (sodium_increment n) (handler client operation None)))"

section \<open>The client (Client.c)\<close>

text \<open>What the client reads of the response: the code, and the memory it hands out.\<close>

definition ic_receive ::
  "aead \<Rightarrow> (nat \<Rightarrow> bool) \<Rightarrow> byte list \<Rightarrow> byte list \<Rightarrow> bool \<Rightarrow> int \<Rightarrow> byte list \<Rightarrow> int \<times> byte list option" where
  "ic_receive a mem key n want expectedLenOut bs =
     (let rcv = take (4 + ABYTES) bs; err = (AEM_INTCOM_RESPONSE_ERR, None)
      in if length rcv \<noteq> 4 + ABYTES then err
      else case unseal a key n rcv of
        None \<Rightarrow> err
      | Some h \<Rightarrow>
          let lenOut = int32_read h
          in if \<not> want \<or> lenOut < 1 then (lenOut, None)
          else if expectedLenOut \<noteq> 0 \<and> lenOut \<noteq> expectedLenOut then err
          else
            let encOut = take (nat lenOut + ABYTES) (drop (4 + ABYTES) bs)
            in if \<not> mem 4 \<or> length encOut \<noteq> nat lenOut + ABYTES \<or> \<not> mem 5 then err
            else case unseal a key (sodium_increment n) encOut of
              None \<Rightarrow> err
            | Some out \<Rightarrow> (lenOut, Some out))"

text \<open>\<open>client\<close> is the number the process was compiled with, \<open>nonce\<close> the random bytes, \<open>want\<close>
  whether the caller passed a pointer for the response.\<close>

definition intcom ::
  "aead \<Rightarrow> (nat \<Rightarrow> bool) \<Rightarrow> byte list list \<Rightarrow> nat \<Rightarrow> byte list \<Rightarrow> (byte list \<Rightarrow> byte list \<Rightarrow> byte list option) \<Rightarrow>
   nat \<Rightarrow> nat \<Rightarrow> byte list \<Rightarrow> bool \<Rightarrow> int \<Rightarrow> int \<times> byte list option" where
  "intcom a mem keys client nonce conn server operation msg want expectedLenOut =
     (if server \<ge> AEM_INTCOM_SERVER_COUNT \<or> length msg > AEM_INTCOM_MAXSIZE \<or> is_zero (keys ! server)
      then (AEM_INTCOM_RESPONSE_ERR, None)
      else let key = keys ! server;
               hdr = of_nat client # nonce @
                 seal a key nonce (le_bytes 4 operation @ le_bytes 4 (length msg));
               n1 = sodium_increment nonce
      in if msg \<noteq> [] \<and> \<not> mem 3 then (AEM_INTCOM_RESPONSE_ERR, None)
      else case conn hdr (if msg = [] then [] else seal a key n1 msg) of
        None \<Rightarrow> (AEM_INTCOM_RESPONSE_ERR, None)
      | Some bs \<Rightarrow> ic_receive a mem key (if msg = [] then n1 else sodium_increment n1) want expectedLenOut bs)"

section \<open>Encodings\<close>

lemma length_increment [len_simps]: "length (sodium_increment n) = length n"
  by (simp add: sodium_increment_def)

lemma length_int32 [len_simps]: "length (int32_bytes c) = 4"
  by (simp add: int32_bytes_def)

lemma int32_roundtrip:
  assumes "- (2 ^ 31) \<le> c" "c < 2 ^ 31"
  shows "int32_read (int32_bytes c) = c"
proof -
  have "nat (c mod 2 ^ 32) < 256 ^ 4" by (simp add: nat_less_iff)
  then have r: "int (le_read (int32_bytes c)) = c mod 2 ^ 32"
    by (simp add: int32_bytes_def le_read_bytes)
  show ?thesis
  proof (cases "0 \<le> c")
    case True
    then show ?thesis using assms by (simp add: int32_read_def Let_def r)
  next
    case False
    have "c mod 2 ^ 32 = (c + 2 ^ 32) mod 2 ^ 32" by simp
    also have "\<dots> = c + 2 ^ 32" using assms False by (intro mod_pos_pos_trivial) auto
    finally show ?thesis using assms False by (simp add: int32_read_def Let_def r)
  qed
qed

section \<open>A call is the call of the handler\<close>

text \<open>What is relied on of the cipher: decryption undoes encryption, and adds the tag to the length.\<close>

definition aead_ok :: "aead \<Rightarrow> bool" where
  "aead_ok a \<longleftrightarrow> (\<forall>k n m. unseal a k n (seal a k n m) = Some m \<and> length (seal a k n m) = length m + ABYTES)"

lemma aead_okD:
  "aead_ok a \<Longrightarrow> unseal a k n (seal a k n m) = Some m"
  "aead_ok a \<Longrightarrow> length (seal a k n m) = length m + ABYTES"
  by (simp_all add: aead_ok_def)

text \<open>What the client makes of the handler's result.\<close>

definition call_result :: "bool \<Rightarrow> int \<Rightarrow> int \<times> byte list option \<Rightarrow> int \<times> byte list option" where
  "call_result want expectedLenOut r =
     (let code = ic_fix r
      in if \<not> want \<or> code < 1 then (code, None)
         else if expectedLenOut \<noteq> 0 \<and> code \<noteq> expectedLenOut then (AEM_INTCOM_RESPONSE_ERR, None)
         else (code, Some (take (nat code) (the (snd r)))))"

definition handler_ok :: "int \<times> byte list option \<Rightarrow> bool" where
  "handler_ok r \<longleftrightarrow> - (2 ^ 31) \<le> fst r \<and> fst r < 2 ^ 31 \<and>
     (\<forall>bs. snd r = Some bs \<longrightarrow> fst r \<le> int (length bs))"

lemma ic_fix_range: "handler_ok r \<Longrightarrow> - (2 ^ 31) \<le> ic_fix r \<and> ic_fix r < 2 ^ 31"
  by (simp add: handler_ok_def ic_fix_def AEM_INTCOM_RESPONSE_ERR_def)

lemma ic_receive_respond:
  assumes "aead_ok a" "handler_ok r"
  shows "ic_receive a (\<lambda>_. True) key n want expectedLenOut (ic_respond a (\<lambda>_. True) key n r) =
    call_result want expectedLenOut r"
proof -
  note ok = aead_okD [OF assms(1)]
  have code: "int32_read (int32_bytes (ic_fix r)) = ic_fix r"
    using ic_fix_range [OF assms(2)] by (intro int32_roundtrip) auto
  have head: "take (4 + ABYTES) (seal a key n (int32_bytes (ic_fix r)) @ xs) = seal a key n (int32_bytes (ic_fix r))"
    "drop (4 + ABYTES) (seal a key n (int32_bytes (ic_fix r)) @ xs) = xs" for xs
    by (simp_all add: ok(2) len_simps)
  show ?thesis
  proof (cases "ic_fix r > 0")
    case True
    then obtain bs where bs: "snd r = Some bs"
      by (cases "snd r") (auto simp: ic_fix_def AEM_INTCOM_RESPONSE_ERR_def split: if_splits)
    then have "nat (ic_fix r) \<le> length bs" using assms(2) True by (simp add: handler_ok_def ic_fix_def nat_le_iff)
    then show ?thesis
      using True bs by (auto simp: ic_receive_def ic_respond_def call_result_def Let_def head ok code len_simps)
  next
    case False
    then show ?thesis
      by (simp add: ic_receive_def ic_respond_def call_result_def Let_def head [of "[]", simplified] ok code len_simps)
  qed
qed

lemma intcom_serve_sealed:
  assumes "aead_ok a" "client < AEM_INTCOM_CLIENT_COUNT" "skeys ! client = key" "\<not> is_zero key"
    "length nonce = NPUBBYTES" "length msg < 2 ^ 32" "operation < 2 ^ 32"
  shows "intcom_serve a (\<lambda>_. True) skeys handler
      (of_nat client # nonce @ seal a key nonce (le_bytes 4 operation @ le_bytes 4 (length msg)))
      (if msg = [] then [] else seal a key (sodium_increment nonce) msg) =
    Some (ic_respond a (\<lambda>_. True) key
      (if msg = [] then sodium_increment nonce else sodium_increment (sodium_increment nonce))
      (handler client operation (if msg = [] then None else Some msg)))"
proof -
  note ok = aead_okD [OF assms(1)]
  have cl: "unat (of_nat client :: byte) = client"
    using assms(2) by (simp add: intcom_sizes unat_of_nat)
  have n: "take NPUBBYTES (nonce @ xs) = nonce" "drop NPUBBYTES (nonce @ xs) = xs" for xs
    using assms(5) by simp_all
  have hdr: "le_read (le_bytes 4 operation) = operation" "le_read (le_bytes 4 (length msg)) = length msg"
    using assms(6,7) by (simp_all add: le_read_bytes)
  show ?thesis
    using assms(2-5) by (simp add: intcom_serve_def Let_def cl n hdr ok intcom_sizes)
qed

lemma intcom_call:
  assumes "aead_ok a" "\<not> is_zero key" "ckeys ! server = key" "skeys ! client = key"
    "server < AEM_INTCOM_SERVER_COUNT" "client < AEM_INTCOM_CLIENT_COUNT" "length nonce = NPUBBYTES"
    "length msg \<le> AEM_INTCOM_MAXSIZE" "operation < 2 ^ 32"
    "handler_ok (handler client operation (if msg = [] then None else Some msg))"
  shows "intcom a (\<lambda>_. True) ckeys client nonce (intcom_serve a (\<lambda>_. True) skeys handler)
      server operation msg want expectedLenOut =
    call_result want expectedLenOut (handler client operation (if msg = [] then None else Some msg))"
proof -
  have len: "length msg < 2 ^ 32" using assms(8) by (simp add: AEM_INTCOM_MAXSIZE_def evp_consts)
  show ?thesis
    using assms(2,3,5,8) ic_receive_respond [OF assms(1,10)]
      intcom_serve_sealed [OF assms(1,6,4,2,7) len assms(9), of handler]
    by (simp add: intcom_def Let_def)
qed


end
