(* ===== verification/IntCom_Claims.thy ===== *)
theory IntCom_Claims
  imports IntCom Smtp_Claims Account_Claims
begin

text \<open>
  What the calls between the processes give: a call over the socket is a call of the handler, and
  AEM-MTA together with AEM-Account.
\<close>

section \<open>One call\<close>

text \<open>C22: when client and server share a key, a call over the socket returns what the handler of the
  server returns for this client, operation and message: the code, and for a positive code that many bytes
  of the response, provided the caller takes a response and expects its length.\<close>

theorem intcom_is_call:
  assumes "aead_ok a" "\<not> is_zero key" "ckeys ! server = key" "skeys ! client = key"
    "server < AEM_INTCOM_SERVER_COUNT" "client < AEM_INTCOM_CLIENT_COUNT" "length nonce = NPUBBYTES"
    "length msg \<le> AEM_INTCOM_MAXSIZE" "operation < 2 ^ 32"
    "handler_ok (handler client operation (if msg = [] then None else Some msg))"
  shows "intcom a (\<lambda>_. True) ckeys client nonce (intcom_serve a (\<lambda>_. True) skeys handler)
      server operation msg want expectedLenOut =
    call_result want expectedLenOut (handler client operation (if msg = [] then None else Some msg))"
  using assms by (intro intcom_call [where handler = handler and client = client and msg = msg and operation = operation])

text \<open>A cipher for examples: 32 bytes of the key behind the message.\<close>

definition demo_aead :: aead where
  "demo_aead = \<lparr>seal = (\<lambda>k n m. m @ replicate 32 (hd k)),
     unseal = (\<lambda>k n c. if drop (length c - 32) c = replicate 32 (hd k) then Some (take (length c - 32) c) else None)\<rparr>"

lemma demo_aead_ok: "aead_ok demo_aead"
  by (simp add: aead_ok_def demo_aead_def ABYTES_def)

definition demo_keys :: "byte list list" where
  "demo_keys = replicate 4 (replicate 32 1)"

lemma demo_keys_nth: "i < 4 \<Longrightarrow> demo_keys ! i = replicate 32 1" "\<not> is_zero (replicate 32 1)"
  by (simp_all add: demo_keys_def is_zero_def list_all_iff)

theorem intcom_is_call_witness:
  "intcom demo_aead (\<lambda>_. True) demo_keys 1 (replicate 32 7)
     (intcom_serve demo_aead (\<lambda>_. True) demo_keys (\<lambda>c operation msg. (int operation, msg))) 2 3 [10, 20, 30, 40] True 0 =
   (3, Some [10, 20, 30])"
proof -
  have "handler_ok (3, Some [10, 20, 30, 40 :: byte])" by (simp add: handler_ok_def)
  then show ?thesis
    using intcom_is_call [of demo_aead "replicate 32 1" demo_keys 2 demo_keys 1 "replicate 32 7" "[10, 20, 30, 40]" 3
        "\<lambda>c operation msg. (int operation, msg)" True 0] demo_aead_ok demo_keys_nth
    by (simp add: intcom_sizes call_result_def ic_fix_def AEM_INTCOM_MAXSIZE_def evp_consts)
qed

section \<open>AEM-MTA and AEM-Account\<close>

text \<open>A reply of AEM-Account as the server sends it.\<close>

definition reply_result :: "reply \<Rightarrow> int \<times> byte list option" where
  "reply_result r = (case r of Inl c \<Rightarrow> (code_int c, None) | Inr bs \<Rightarrow> (int (length bs), Some bs))"

text \<open>How AEM-MTA sees a result: the response, or whether the code is \<^verbatim>\<open>AEM_INTCOM_RESPONSE_NOTEXIST\<close>.\<close>

definition read_reply :: "int \<times> byte list option \<Rightarrow> reply" where
  "read_reply r =
     (case snd r of
        Some bs \<Rightarrow> Inr bs
      | None \<Rightarrow> Inl (if fst r = code_int IC_NOTEXIST then IC_NOTEXIST else IC_ERR))"

text \<open>The dispatch of \<^verbatim>\<open>Server.c\<close> in AEM-Account; requests of AEM-API are answered by \<open>api\<close>.\<close>

definition account_handler ::
  "acc_ext \<Rightarrow> acc_env \<Rightarrow> account \<Rightarrow> (nat \<Rightarrow> byte list \<Rightarrow> int \<times> byte list option) \<Rightarrow> ic_handler" where
  "account_handler x e s api client operation msg =
     (case msg of
        Some m \<Rightarrow>
          (if client = 1 then api operation m
           else if client = 2 then reply_result (acc_conn_mta x e operation m s)
           else (AEM_INTCOM_RESPONSE_ERR, None))
      | None \<Rightarrow>
          (if client = 1 then api operation []
           else if client = 3 then reply_result (acc_conn_sto e operation s)
           else (AEM_INTCOM_RESPONSE_ERR, None)))"

text \<open>The look-up of a recipient by AEM-MTA over the socket.\<close>

definition mta_link ::
  "aead \<Rightarrow> byte list list \<Rightarrow> byte list list \<Rightarrow> byte list \<Rightarrow> ic_handler \<Rightarrow> byte list \<Rightarrow> reply" where
  "mta_link a ckeys skeys nonce handler addr32 =
     read_reply (intcom a (\<lambda>_. True) ckeys 2 nonce (intcom_serve a (\<lambda>_. True) skeys handler) 0 0 addr32 True 3)"

definition linked :: "aead \<Rightarrow> byte list list \<Rightarrow> byte list list \<Rightarrow> byte list \<Rightarrow> bool" where
  "linked a ckeys skeys nonce \<longleftrightarrow> aead_ok a \<and> \<not> is_zero (ckeys ! 0) \<and> skeys ! 2 = ckeys ! 0 \<and>
     length nonce = NPUBBYTES"

lemma reply_result_ok:
  "(\<And>bs. r = Inr bs \<Longrightarrow> length bs < 2 ^ 31) \<Longrightarrow> handler_ok (reply_result r)"
  by (cases r) (auto simp: reply_result_def handler_ok_def code_int_def split: intcom_code.split)

lemma conn_mta_reply:
  "acc_conn_mta x e 0 addr32 s = Inr bs \<Longrightarrow> length bs = 3 \<and>
     (bs = [0xFF, 0xFF, 0xFF] \<or>
      (\<exists>uid f. hashToUid s (addressToHash x s addr32) (addr32 ! 0 AND 128 \<noteq> 0) = Some (uid, f) \<and>
         f AND AEM_ADDR_FLAG_ACCEXT \<noteq> 0 \<and> take 2 bs = le_bytes 2 uid))"
  by (auto simp: acc_conn_mta_def mta_getUid_def Let_def split: if_splits option.splits prod.splits)

lemma mta_link_reply:
  assumes "linked a ckeys skeys nonce" "mta_link a ckeys skeys nonce (account_handler x e s api) addr32 = Inr bs"
    "length addr32 = 10"
  shows "acc_conn_mta x e 0 addr32 s = Inr bs"
proof -
  let ?r = "reply_result (acc_conn_mta x e 0 addr32 s)"
  have h: "account_handler x e s api 2 0 (Some addr32) = ?r" by (simp add: account_handler_def)
  have ok: "handler_ok ?r"
    by (rule reply_result_ok) (use conn_mta_reply [of x e addr32 s] in auto)
  have ne: "addr32 \<noteq> []" using assms(3) by auto
  have "mta_link a ckeys skeys nonce (account_handler x e s api) addr32 = read_reply (call_result True 3 ?r)"
    using assms(1,3) intcom_call [of a "ckeys ! 0" ckeys 0 skeys 2 nonce addr32 0 "account_handler x e s api" True 3] h ok ne
    by (simp add: mta_link_def linked_def intcom_sizes AEM_INTCOM_MAXSIZE_def evp_consts)
  then show ?thesis
    using assms(2) conn_mta_reply [of x e addr32 s]
    by (cases "acc_conn_mta x e 0 addr32 s")
      (auto simp: read_reply_def call_result_def reply_result_def ic_fix_def Let_def not_less_iff_gr_or_eq
        AEM_INTCOM_RESPONSE_ERR_def dest: less_trans [OF code_int_neg] split: if_splits)
qed

lemma length_addr32 [len_simps]: "length (addr32_store c) = 10"
  by (simp add: addr32_store_def addr32_pack_def split: prod.split)

lemma uid_bound: "acc_inv s \<Longrightarrow> hashToUid s h sh = Some (uid, f) \<Longrightarrow> uid < 256 ^ 2"
  using hashToUid_Some [of s h sh uid f]
  by (auto simp: acc_inv_def get_user_def acc_consts split: if_splits)

text \<open>A recipient stands for a user when an address of the user that takes external mail hashes to it.\<close>

definition stands_for :: "acc_ext \<Rightarrow> account \<Rightarrow> smtp_rcpt \<Rightarrow> bool" where
  "stands_for x s r \<longleftrightarrow> (\<exists>u f. get_user s (rc_uid r) = Some u \<and>
     (addressToHash x s (addr32_store (rc_to r)), f) \<in> set (user_addrs u) \<and> f AND AEM_ADDR_FLAG_ACCEXT \<noteq> 0)"

lemma recipient_registered:
  assumes "acc_inv s" "linked a ckeys skeys nonce" "length buf = AEM_SMTP_MAX_SIZE_CMD"
    and "sx_lookup x = mta_link a ckeys skeys nonce (account_handler xa e s api)"
    and "d \<in> set (s_done (smtp_run x buf evs))" "r \<in> set (dv_to d)"
  shows "rc_uid r = 65535 \<and> rc_flags r = 255 \<or> stands_for xa s r"
proof -
  have "list_all (delivery_ok x) (s_done (smtp_run x buf evs))"
    using session.run_inv [OF smtp_init_inv [OF assms(3)], of x evs] by (simp add: smtp_run_def smtp_inv_def)
  then have "rcpt_ok x r" using assms(5,6) by (auto simp: list_all_iff delivery_ok_def)
  then obtain bs where bs: "sx_lookup x (addr32_store (rc_to r)) = Inr bs"
    "rc_uid r = le_read (take 2 bs)" "rc_flags r = bs ! 2"
    by (auto simp: rcpt_ok_def split: sum.splits)
  then have "acc_conn_mta xa e 0 (addr32_store (rc_to r)) s = Inr bs"
    using mta_link_reply [OF assms(2)] assms(4) by (simp add: len_simps)
  from conn_mta_reply [OF this] show ?thesis
  proof (elim conjE disjE)
    assume "bs = [0xFF, 0xFF, 0xFF]"
    then show ?thesis using bs(2,3) by simp
  next
    assume "\<exists>uid f. hashToUid s (addressToHash xa s (addr32_store (rc_to r)))
        (addr32_store (rc_to r) ! 0 AND 128 \<noteq> 0) = Some (uid, f) \<and>
      f AND AEM_ADDR_FLAG_ACCEXT \<noteq> 0 \<and> take 2 bs = le_bytes 2 uid"
    then obtain uid f where u: "hashToUid s (addressToHash xa s (addr32_store (rc_to r)))
        (addr32_store (rc_to r) ! 0 AND 128 \<noteq> 0) = Some (uid, f)"
      "f AND AEM_ADDR_FLAG_ACCEXT \<noteq> 0" "take 2 bs = le_bytes 2 uid" by blast
    have "rc_uid r = uid" using bs(2) u(3) uid_bound [OF assms(1) u(1)] by (simp only: le_read_bytes)
    then show ?thesis using hashToUid_Some [OF u(1)] u(2) unfolding stands_for_def by blast
  qed
qed

text \<open>C18: AEM-MTA, the calls between the processes and AEM-Account together: whatever a client sends
  in a session, every recipient of every message handed to AEM-Deliver is either marked as unknown
  (user 65535 and all flags) or stands for the user named in it: an address of that user, one that
  takes external mail, has the hash of the address the client gave.\<close>

theorem recipients_registered:
  assumes "acc_inv s" "linked a ckeys skeys nonce" "length buf = AEM_SMTP_MAX_SIZE_CMD"
    and "sx_lookup x = mta_link a ckeys skeys nonce (account_handler xa e s api)"
  shows "list_all (\<lambda>d. list_all (\<lambda>r. rc_uid r = 65535 \<and> rc_flags r = 255 \<or> stands_for xa s r) (dv_to d))
     (s_done (smtp_run x buf evs))"
  using recipient_registered [OF assms] by (auto simp: list_all_iff)

text \<open>A session that delivers to the one address of the example account.\<close>

definition linked_smtp_ext :: smtp_ext where
  "linked_smtp_ext = demo_smtp_ext\<lparr>sx_lookup :=
     mta_link demo_aead demo_keys demo_keys (replicate 32 7) (account_handler demo_ext demo_env demo1 (\<lambda>_ _. (0, None)))\<rparr>"

definition linked_events :: "byte list option list" where
  "linked_events = [Some (str ''HELO a.test'' @ crlf), Some (str ''MAIL FROM:<a@b.test>'' @ crlf),
     Some (str ''RCPT TO:<bob@our.example>'' @ crlf), Some (str ''DATA'' @ crlf), Some ([72] @ end_mark)]"

theorem recipients_registered_witness:
  "acc_inv demo1 \<and>
   list_all (\<lambda>d. list_all (\<lambda>r. rc_uid r = 65535 \<and> rc_flags r = 255 \<or> stands_for demo_ext demo1 r) (dv_to d))
     (s_done (smtp_run linked_smtp_ext (replicate 512 0) linked_events))"
proof -
  have "linked demo_aead demo_keys demo_keys (replicate 32 7)"
    using demo_aead_ok demo_keys_nth by (simp add: linked_def NPUBBYTES_def)
  then show ?thesis
    using recipients_registered [OF demo1_inv, of demo_aead demo_keys demo_keys "replicate 32 7" "replicate 512 0" linked_smtp_ext]
      demo1_inv by (simp add: smtp_consts linked_smtp_ext_def)
qed

end
