(* ===== verification/Deliver.thy ===== *)
theory Deliver
  imports Envelope Smtp
begin

text \<open>
  AEM-Deliver: the clean-up of the transferred text and the copy of the original
  (\<^verbatim>\<open>src/deliver/deliver.c\<close>), the message built for the user (\<^verbatim>\<open>format.c\<close>) and its delivery to the
  recipients (\<^verbatim>\<open>store.c\<close>).

  An array with a length field is the list of its bytes below the length.  The Brotli encoder, the
  clock, the outcome of allocations and AEM-Storage are parameters.
\<close>

section \<open>Dots at line starts (deliver.c)\<close>

definition crlf_dots :: "byte list" where "crlf_dots = [13, 10, 46, 46]"

lemma memmem_bound: "memmem d m = Some k \<Longrightarrow> k + length m \<le> length d"
proof (induction d arbitrary: k)
  case (Cons c cs)
  show ?case
  proof (cases "take (length m) (c # cs) = m")
    case True
    then have "length m \<le> length (c # cs)" by (metis length_take min.absorb_iff2 min.commute)
    then show ?thesis using Cons.prems True by simp
  next
    case False
    then show ?thesis using Cons by auto
  qed
qed (auto split: if_splits)

text \<open>The loop: \<open>from\<close> is where the search goes on; the first of the two dots is at \<open>c\<close>.\<close>

function dots_loop :: "nat \<Rightarrow> byte list \<Rightarrow> byte list" where
  "dots_loop from src =
     (case memmem (drop from src) crlf_dots of
        None \<Rightarrow> src
      | Some k \<Rightarrow> let c = from + k + 2 in dots_loop (c + 1) (take c src @ drop (c + 1) src))"
  by pat_completeness auto
termination
  by (relation "measure (\<lambda>(from, src). length src)")
     (auto simp: crlf_dots_def dest!: memmem_bound)

declare dots_loop.simps [simp del]

definition convertLineDots :: "byte list \<Rightarrow> byte list" where
  "convertLineDots src = dots_loop 0 src"

section \<open>The message to a user (format.c)\<close>

definition AEM_CET_CHAR_SEP :: byte where "AEM_CET_CHAR_SEP = 127"
definition AEM_DKIM_INFOBYTES :: nat where "AEM_DKIM_INFOBYTES = 12"

text \<open>\<^verbatim>\<open>struct dkimInfo\<close>: the twelve bytes of bit fields (\<open>dk_info\<close>; bits 6 and 7 of the eighth are
  \<^verbatim>\<open>idValue\<close>) and the texts.\<close>

record dkim_info =
  dk_info :: "byte list"
  dk_domain :: "byte list"
  dk_selector :: "byte list"
  dk_notes :: "byte list"
  dk_identity :: "byte list"

text \<open>\<^verbatim>\<open>struct emailInfo\<close>; \<open>dl_body\<close> is \<open>None\<close> for a null pointer.\<close>

record email_info =
  dl_ccBytes :: "byte list"
  dl_timestamp :: u32
  dl_ip :: u32
  dl_attachCount :: nat
  dl_protocolEsmtp :: bool
  dl_protocolViolation :: bool
  dl_invalidCommands :: bool
  dl_rareCommands :: bool
  dl_ipBlacklisted :: bool
  dl_ipMatchGreeting :: bool
  dl_dnssec :: bool
  dl_dane :: bool
  dl_ciphersuite :: u16
  dl_tlsInfo :: byte
  dl_envTo :: "byte list"
  dl_hdrTo :: "byte list"
  dl_greet :: "byte list"
  dl_rvDns :: "byte list"
  dl_auSys :: "byte list"
  dl_envFr :: "byte list"
  dl_hdrFr :: "byte list"
  dl_hdrRt :: "byte list"
  dl_msgId :: "byte list"
  dl_sbjct :: "byte list"
  dl_hdrTz :: byte
  dl_hdrTs :: u16
  dl_dkim :: "dkim_info list"
  dl_dmarc :: byte
  dl_spf :: byte
  dl_head :: "byte list"
  dl_body :: "byte list option"

text \<open>What lies behind the last separator, if there is one.\<close>

definition last_variant :: "byte list \<Rightarrow> byte list" where
  "last_variant b =
     (if AEM_CET_CHAR_SEP \<in> set b then rev (takeWhile (\<lambda>c. c \<noteq> AEM_CET_CHAR_SEP) (rev b)) else b)"

text \<open>The identity of a signature is the address, or what stands behind a separator at its end.\<close>

definition identity_is :: "byte list \<Rightarrow> byte list \<Rightarrow> bool" where
  "identity_is i f \<longleftrightarrow> i = f \<or>
     (length f > length i \<and> f ! (length f - length i - 1) = 127 \<and> drop (length f - length i) f = i)"

definition set_idValue :: "byte \<Rightarrow> dkim_info \<Rightarrow> dkim_info" where
  "set_idValue v d = d\<lparr>dk_info := (dk_info d)[7 := (dk_info d ! 7 AND 63) OR push_bit 6 v]\<rparr>"

definition dkim_identity :: "email_info \<Rightarrow> dkim_info \<Rightarrow> dkim_info" where
  "dkim_identity e d =
     (if dk_identity d = [] then d
      else if dk_identity d = dl_envFr e then set_idValue 1 d
      else if identity_is (dk_identity d) (dl_hdrFr e) then set_idValue 2 d
      else if identity_is (dk_identity d) (dl_hdrRt e) then set_idValue 3 d
      else d)"

text \<open>The changes \<open>makeExtMsg\<close> leaves in \<^verbatim>\<open>email\<close>.\<close>

definition ext_prepare :: "bool \<Rightarrow> email_info \<Rightarrow> email_info" where
  "ext_prepare allVer e0 =
     (let e = (if allVer then e0 else e0\<lparr>dl_body := map_option last_variant (dl_body e0)\<rparr>);
          e = e\<lparr>dl_envTo := take 63 (dl_envTo e), dl_hdrTo := take 63 (dl_hdrTo e), dl_greet := take 63 (dl_greet e),
                dl_rvDns := take 63 (dl_rvDns e), dl_auSys := take 63 (dl_auSys e), dl_dkim := take 7 (dl_dkim e)\<rparr>
      in e\<lparr>dl_dkim := map (dkim_identity e) (dl_dkim e)\<rparr>)"

definition body_bytes :: "email_info \<Rightarrow> byte list" where
  "body_bytes e = (case dl_body e of None \<Rightarrow> [] | Some b \<Rightarrow> b)"

definition dkim_texts :: "dkim_info \<Rightarrow> byte list" where
  "dkim_texts d = dk_domain d @ dk_selector d @ dk_notes d"

definition short_texts :: "email_info \<Rightarrow> byte list" where
  "short_texts e = dl_envTo e @ dl_hdrTo e @ dl_greet e @ dl_rvDns e @ dl_auSys e"

definition long_texts :: "email_info \<Rightarrow> byte list" where
  "long_texts e = dl_envFr e @ dl_hdrFr e @ dl_hdrRt e @ dl_msgId e @ dl_sbjct e"

text \<open>The size allocated, and the bytes written there.\<close>

definition len_uncomp :: "email_info \<Rightarrow> nat" where
  "len_uncomp e =
     length (dl_envTo e) + length (dl_hdrTo e) + length (dl_greet e) + length (dl_rvDns e) + length (dl_auSys e) +
     length (dl_envFr e) + length (dl_hdrFr e) + length (dl_hdrRt e) + length (dl_msgId e) + length (dl_sbjct e) +
     (if length (dl_head e) \<le> 1 then 0 else length (dl_head e) - 1) +
     (if length (body_bytes e) < 1 then 0 else length (body_bytes e) + 1) +
     sum_list (map (\<lambda>d. length (dk_domain d) + length (dk_selector d) + length (dk_notes d)) (dl_dkim e))"

definition ext_uncomp :: "email_info \<Rightarrow> byte list" where
  "ext_uncomp e =
     concat (map dkim_texts (dl_dkim e)) @ short_texts e @ long_texts e @
     (if length (dl_head e) > 1 then tl (dl_head e) else []) @
     (if body_bytes e \<noteq> [] then AEM_CET_CHAR_SEP # body_bytes e else [])"

text \<open>The 23 bytes behind the message header.\<close>

definition ext_header :: "email_info \<Rightarrow> byte list" where
  "ext_header e =
     le_bytes 4 (unat (dl_ip e)) @ le_bytes 2 (unat (dl_ciphersuite e)) @
     [dl_tlsInfo e,
      push_bit 5 (of_nat (length (dl_dkim e))) OR (of_nat (dl_attachCount e) AND 31),
      dl_ccBytes e ! 0, dl_ccBytes e ! 1,
      (dl_spf e AND 192) OR (of_nat (length (dl_envTo e)) AND 63),
      (dl_dmarc e AND 192) OR (of_nat (length (dl_hdrTo e)) AND 63),
      of_nat (length (dl_greet e)) AND 63, of_nat (length (dl_rvDns e)) AND 63, of_nat (length (dl_auSys e)) AND 63,
      of_nat (length (dl_envFr e)), of_nat (length (dl_hdrFr e)), of_nat (length (dl_hdrRt e)),
      of_nat (length (dl_msgId e)), of_nat (length (dl_sbjct e)),
      dl_hdrTz e AND 127] @
     le_bytes 2 (unat (dl_hdrTs e))"

text \<open>The flags are put into bytes 13, 14, 17 and 18 of the message.\<close>

definition or_flag :: "bool \<Rightarrow> nat \<Rightarrow> byte \<Rightarrow> byte list \<Rightarrow> byte list" where
  "or_flag c i v m = (if c then m[i := m ! i OR v] else m)"

definition ext_flags :: "email_info \<Rightarrow> byte list \<Rightarrow> byte list" where
  "ext_flags e m =
     or_flag (dl_dane e) 18 128
     (or_flag (dl_dnssec e) 17 128
     (or_flag (dl_rareCommands e) 14 32
     (or_flag (dl_protocolViolation e) 14 63
     (or_flag (dl_invalidCommands e) 14 128
     (or_flag (dl_protocolEsmtp e) 13 32
     (or_flag (dl_ipMatchGreeting e) 13 64
     (or_flag (dl_ipBlacklisted e) 13 128 m)))))))"

record dlv_ext =
  brotli :: "byte list \<Rightarrow> byte list option"
  dlv_now :: u64
  dlv_mem :: bool

definition makeExtMsg :: "dlv_ext \<Rightarrow> bool \<Rightarrow> email_info \<Rightarrow> email_info \<times> byte list option" where
  "makeExtMsg x allVer e0 =
     (let e = ext_prepare allVer e0
      in (e, if \<not> dlv_mem x then None
             else case brotli x (ext_uncomp e) of
               None \<Rightarrow> None
             | Some z \<Rightarrow>
                 let msg = ext_flags e (aem_msg_init (dlv_now x) AEM_MSG_TYPE_EXT 0 @ ext_header e) @
                       concat (map (\<lambda>d. take AEM_DKIM_INFOBYTES (dk_info d)) (dl_dkim e)) @ z
                 in if AEM_MSG_HDR_SZ + 23 + length (dl_dkim e) * AEM_DKIM_INFOBYTES + length z > AEM_MSG_W_MAXSIZE
                    then None else Some msg))"

section \<open>Delivery to the recipients (store.c)\<close>

text \<open>The n-th call of AEM-Storage returns \<open>sto n uid msg\<close>; what was sent is kept in order.\<close>

record dlv_store =
  ds_email :: email_info
  ds_attach :: "byte list list"
  ds_orig :: "byte list option"
  ds_calls :: "(nat \<times> byte list) list"
  ds_ok :: bool

definition sto_call :: "(nat \<Rightarrow> nat \<Rightarrow> byte list \<Rightarrow> int) \<Rightarrow> nat \<Rightarrow> byte list \<Rightarrow> dlv_store \<Rightarrow> int \<times> dlv_store" where
  "sto_call sto uid msg s = (sto (length (ds_calls s)) uid msg, s\<lparr>ds_calls := ds_calls s @ [(uid, msg)]\<rparr>)"

text \<open>The identifier of the stored message in bytes 33 and 34.\<close>

definition set_parent :: "nat \<Rightarrow> byte list \<Rightarrow> byte list" where
  "set_parent p m = take 33 m @ le_bytes 2 p @ drop 35 m"

definition store_failed :: "int \<Rightarrow> bool" where
  "store_failed r \<longleftrightarrow> r < - 65536"

fun store_attach ::
  "(nat \<Rightarrow> nat \<Rightarrow> byte list \<Rightarrow> int) \<Rightarrow> nat \<Rightarrow> nat \<Rightarrow> byte list list \<Rightarrow> dlv_store \<Rightarrow> dlv_store" where
  "store_attach sto uid p [] s = s"
| "store_attach sto uid p (a # as) s =
     (case sto_call sto uid (set_parent p a) s of
        (r, s') \<Rightarrow> store_attach sto uid p as (if store_failed r then s'\<lparr>ds_ok := False\<rparr> else s'))"

definition store_one :: "dlv_ext \<Rightarrow> (nat \<Rightarrow> nat \<Rightarrow> byte list \<Rightarrow> int) \<Rightarrow> smtp_rcpt \<Rightarrow> dlv_store \<Rightarrow> dlv_store" where
  "store_one x sto r s =
     (if rc_uid r \<ge> AEM_USERCOUNT then s
      else case makeExtMsg x (rc_flags r AND AEM_ADDR_FLAG_ALLVER \<noteq> 0)
             ((ds_email s)\<lparr>dl_envTo := take 63 (rc_to r)\<rparr>) of
        (e, None) \<Rightarrow> s\<lparr>ds_email := e, ds_ok := False\<rparr>
      | (e, Some msg) \<Rightarrow>
          (case sto_call sto (rc_uid r) msg (s\<lparr>ds_email := e\<rparr>) of
             (ret, s1) \<Rightarrow>
               let p = (if store_failed ret then 0 else nat ((ret + 65536) mod 65536));
                   s2 = (if store_failed ret then s1\<lparr>ds_ok := False\<rparr> else s1);
                   atts = map (set_parent p) (ds_attach s2);
                   s3 = (if rc_flags r AND AEM_ADDR_FLAG_ATTACH \<noteq> 0
                         then (store_attach sto (rc_uid r) p (ds_attach s2) s2)\<lparr>ds_attach := atts\<rparr> else s2)
               in (case ds_orig s3 of
                     None \<Rightarrow> s3
                   | Some src \<Rightarrow>
                       if src \<noteq> [] \<and> rc_flags r AND AEM_ADDR_FLAG_ORIGIN \<noteq> 0
                       then snd (sto_call sto (rc_uid r) (set_parent p src) (s3\<lparr>ds_orig := Some (set_parent p src)\<rparr>))
                       else s3)))"

definition storeMessage ::
  "dlv_ext \<Rightarrow> (nat \<Rightarrow> nat \<Rightarrow> byte list \<Rightarrow> int) \<Rightarrow> smtp_rcpt list \<Rightarrow> email_info \<Rightarrow> byte list list \<Rightarrow> byte list option \<Rightarrow> dlv_store" where
  "storeMessage x sto rcpts e atts orig =
     fold (store_one x sto) rcpts
       \<lparr>ds_email = e\<lparr>dl_attachCount := min 31 (length atts)\<rparr>, ds_attach = take 31 atts, ds_orig = orig,
        ds_calls = [], ds_ok = True\<rparr>"

end
