(* ===== verification/Mail_Stream.thy ===== *)
theory Mail_Stream
  imports IntCom Smtp
begin

text \<open>
  The stream that carries a message from AEM-MTA to AEM-Deliver: \<^verbatim>\<open>src/IntCom/Stream_Client.c\<close> and
  \<^verbatim>\<open>src/IntCom/Stream_Server.c\<close>.  The stream cipher is a parameter with a state of its own type; both ends
  start from the header the client sends.  A message of the stream is its length, eight bytes, and the
  encrypted bytes; the length \<^verbatim>\<open>SIZE_MAX\<close> ends the stream.

  The client keeps whether its socket is open, the cipher state and the bytes it has sent; the n-th
  \<^verbatim>\<open>send\<close> succeeds when \<open>sent n\<close>.  The server reads a list of bytes: everything that arrives
  before the connection is closed.
\<close>

section \<open>Constants\<close>

text \<open>\<^verbatim>\<open>crypto_secretstream_xchacha20poly1305_ABYTES\<close>, \<^verbatim>\<open>HEADERBYTES\<close> and \<^verbatim>\<open>SIZE_MAX\<close>.\<close>

definition SS_ABYTES :: nat where "SS_ABYTES = 17"
definition SS_HEADERBYTES :: nat where "SS_HEADERBYTES = 24"
definition SIZE_MAX :: nat where "SIZE_MAX = 2 ^ 64 - 1"

lemmas ss_consts = SS_ABYTES_def SS_HEADERBYTES_def SIZE_MAX_def

record 's ss_cipher =
  init_push :: "byte list \<Rightarrow> byte list \<times> 's"
  init_pull :: "byte list \<Rightarrow> byte list \<Rightarrow> 's option"
  push :: "'s \<Rightarrow> byte list \<Rightarrow> byte list \<times> 's"
  pull :: "'s \<Rightarrow> byte list \<Rightarrow> (byte list \<times> byte \<times> 's) option"

section \<open>The client (Stream_Client.c)\<close>

record 's ss_client =
  sc_open :: bool
  sc_state :: 's
  sc_sent :: nat
  sc_out :: "byte list"

text \<open>One \<^verbatim>\<open>send\<close>; a failure closes the socket.\<close>

definition sc_send :: "(nat \<Rightarrow> bool) \<Rightarrow> byte list \<Rightarrow> 's ss_client \<Rightarrow> bool \<times> 's ss_client" where
  "sc_send sent bs c =
     (if sent (sc_sent c) then (True, c\<lparr>sc_sent := sc_sent c + 1, sc_out := sc_out c @ bs\<rparr>)
      else (False, c\<lparr>sc_sent := sc_sent c + 1, sc_open := False\<rparr>))"

text \<open>\<open>connected\<close>: the socket is connected to the expected process.\<close>

definition intcom_stream_open ::
  "'s ss_cipher \<Rightarrow> (nat \<Rightarrow> bool) \<Rightarrow> byte list \<Rightarrow> bool \<Rightarrow> 's ss_client \<Rightarrow> bool \<times> 's ss_client" where
  "intcom_stream_open p sent key connected c =
     (if \<not> connected then (False, c\<lparr>sc_open := False\<rparr>)
      else if is_zero key then (False, c\<lparr>sc_open := True\<rparr>)
      else case init_push p key of (header, st) \<Rightarrow>
        sc_send sent header (c\<lparr>sc_open := True, sc_state := st\<rparr>))"

definition intcom_stream_send ::
  "'s ss_cipher \<Rightarrow> (nat \<Rightarrow> bool) \<Rightarrow> byte list \<Rightarrow> 's ss_client \<Rightarrow> bool \<times> 's ss_client" where
  "intcom_stream_send p sent src c =
     (if \<not> sc_open c then (False, c)
      else case push p (sc_state c) src of (enc, st) \<Rightarrow>
        case sc_send sent (le_bytes 8 (length src + SS_ABYTES)) (c\<lparr>sc_state := st\<rparr>) of
          (False, c) \<Rightarrow> (False, c)
        | (True, c) \<Rightarrow> sc_send sent enc c)"

text \<open>The end of the stream; \<open>answer\<close> is what the server sends back, if it does.\<close>

definition intcom_stream_end ::
  "(nat \<Rightarrow> bool) \<Rightarrow> byte list option \<Rightarrow> 's ss_client \<Rightarrow> int \<times> 's ss_client" where
  "intcom_stream_end sent answer c =
     (if \<not> sc_open c then (- 1, c)
      else case sc_send sent (le_bytes 8 SIZE_MAX) c of
        (False, c) \<Rightarrow> (AEM_INTCOM_RESPONSE_ERR, c\<lparr>sc_open := False\<rparr>)
      | (True, c) \<Rightarrow>
          ((case answer of
              Some bs \<Rightarrow> if length bs = 4 then int32_read bs else AEM_INTCOM_RESPONSE_ERR
            | None \<Rightarrow> AEM_INTCOM_RESPONSE_ERR), c\<lparr>sc_open := False\<rparr>))"

section \<open>The server (Stream_Server.c)\<close>

text \<open>A part of fixed size: its length, and the bytes.  \<open>None\<close> closes the connection.\<close>

definition ss_part :: "'s ss_cipher \<Rightarrow> nat \<Rightarrow> 's \<Rightarrow> byte list \<Rightarrow> (byte list \<times> 's \<times> byte list) option" where
  "ss_part p sz st inp =
     (let lenEnc = le_read (take 8 inp); enc = take lenEnc (drop 8 inp)
      in if length inp < 8 \<or> lenEnc \<noteq> sz + SS_ABYTES \<or> length enc \<noteq> lenEnc then None
         else case pull p st enc of
           None \<Rightarrow> None
         | Some (m, tag, st') \<Rightarrow> if tag \<noteq> 0 then None else Some (m, st', drop (8 + lenEnc) inp))"

text \<open>The loop over the body: whatever goes wrong, it ends with what it has.\<close>

function ss_loop :: "'s ss_cipher \<Rightarrow> 's \<Rightarrow> byte list \<Rightarrow> byte list \<Rightarrow> byte list" where
  "ss_loop p st inp src =
     (if length inp < 8 then src
      else let lenEnc = le_read (take 8 inp); enc = take lenEnc (drop 8 inp)
      in if lenEnc = SIZE_MAX then src
      else if lenEnc \<le> SS_ABYTES \<or> lenEnc > AEM_SMTP_CHUNKSIZE + SS_ABYTES then src
      else if lenEnc - SS_ABYTES + length src > AEM_SMTP_MAX_SIZE_BODY then src
      else if length enc \<noteq> lenEnc then src
      else case pull p st enc of
        None \<Rightarrow> src
      | Some (m, tag, st') \<Rightarrow> if tag \<noteq> 0 then src else ss_loop p st' (drop (8 + lenEnc) inp) (src @ m))"
  by pat_completeness auto
termination
  by (relation "measure (\<lambda>(p, st, inp, src). length inp)") auto

declare ss_loop.simps [simp del]

text \<open>One connection: the metadata, the information and the message handed to \<^verbatim>\<open>deliverEmail\<close>, if any.
  \<open>szMeta\<close> and \<open>szInfo\<close> are the sizes of the two structures.\<close>

definition intcom_serve_stream ::
  "'s ss_cipher \<Rightarrow> byte list \<Rightarrow> nat \<Rightarrow> nat \<Rightarrow> byte list \<Rightarrow> (byte list \<times> byte list \<times> byte list) option" where
  "intcom_serve_stream p key szMeta szInfo inp =
     (if is_zero key \<or> length inp < SS_HEADERBYTES then None
      else case init_pull p key (take SS_HEADERBYTES inp) of
        None \<Rightarrow> None
      | Some st \<Rightarrow>
      case ss_part p szMeta st (drop SS_HEADERBYTES inp) of
        None \<Rightarrow> None
      | Some (meta, st, inp) \<Rightarrow>
      case ss_part p szInfo st inp of
        None \<Rightarrow> None
      | Some (info, st, inp) \<Rightarrow>
          let src = ss_loop p st inp [10]
          in if length src > 1 then Some (meta, info, src) else None)"

section \<open>What arrives\<close>

text \<open>What is relied on of the cipher: the other end, in the same state, reads what was pushed.\<close>

definition ss_ok :: "'s ss_cipher \<Rightarrow> bool" where
  "ss_ok p \<longleftrightarrow>
     (\<forall>key h st. init_push p key = (h, st) \<longrightarrow> length h = SS_HEADERBYTES \<and> init_pull p key h = Some st) \<and>
     (\<forall>st m c st'. push p st m = (c, st') \<longrightarrow> length c = length m + SS_ABYTES \<and> pull p st c = Some (m, 0, st'))"

text \<open>The messages of a stream, as the client sends them one after the other.\<close>

fun ss_send_all :: "'s ss_cipher \<Rightarrow> byte list list \<Rightarrow> 's ss_client \<Rightarrow> 's ss_client" where
  "ss_send_all p [] c = c"
| "ss_send_all p (m # ms) c = ss_send_all p ms (snd (intcom_stream_send p (\<lambda>_. True) m c))"

definition stream_bytes :: "'s ss_cipher \<Rightarrow> byte list \<Rightarrow> byte list list \<Rightarrow> 's ss_client \<Rightarrow> byte list" where
  "stream_bytes p key ms c =
     sc_out (snd (intcom_stream_end (\<lambda>_. True) None
       (ss_send_all p ms (snd (intcom_stream_open p (\<lambda>_. True) key True (c\<lparr>sc_out := []\<rparr>))))))"

text \<open>The same bytes, as a function of the messages alone.\<close>

fun ss_bytes :: "'s ss_cipher \<Rightarrow> 's \<Rightarrow> byte list list \<Rightarrow> byte list" where
  "ss_bytes p st [] = le_bytes 8 SIZE_MAX"
| "ss_bytes p st (m # ms) =
     (case push p st m of (enc, st') \<Rightarrow> le_bytes 8 (length m + SS_ABYTES) @ enc @ ss_bytes p st' ms)"

lemma ss_send_all_out:
  "sc_open c \<Longrightarrow> sc_out (snd (intcom_stream_end (\<lambda>_. True) None (ss_send_all p ms c))) =
     sc_out c @ ss_bytes p (sc_state c) ms"
proof (induction ms arbitrary: c)
  case Nil
  then show ?case by (simp add: intcom_stream_end_def sc_send_def)
next
  case (Cons m ms)
  obtain enc st where p: "push p (sc_state c) m = (enc, st)" by fastforce
  let ?c = "snd (intcom_stream_send p (\<lambda>_. True) m c)"
  have c: "sc_open ?c" "sc_state ?c = st" "sc_out ?c = sc_out c @ le_bytes 8 (length m + SS_ABYTES) @ enc"
    using Cons.prems p by (simp_all add: intcom_stream_send_def sc_send_def)
  show ?case using Cons.IH [OF c(1)] c(2,3) p by simp
qed

lemma stream_bytes_eq:
  "\<not> is_zero key \<Longrightarrow> stream_bytes p key ms c = fst (init_push p key) @ ss_bytes p (snd (init_push p key)) ms"
  using ss_send_all_out [of "snd (intcom_stream_open p (\<lambda>_. True) key True (c\<lparr>sc_out := []\<rparr>))" p ms]
  by (cases "init_push p key") (simp add: stream_bytes_def intcom_stream_open_def sc_send_def)

text \<open>The chunks of the body up to the first that does not fit.\<close>

fun fitting :: "nat \<Rightarrow> byte list list \<Rightarrow> byte list list" where
  "fitting n [] = []"
| "fitting n (c # cs) =
     (if length c + n > AEM_SMTP_MAX_SIZE_BODY then [] else c # fitting (length c + n) cs)"

definition chunk_ok :: "byte list \<Rightarrow> bool" where
  "chunk_ok c \<longleftrightarrow> c \<noteq> [] \<and> length c \<le> AEM_SMTP_CHUNKSIZE"

lemma ss_okD:
  assumes "ss_ok p" "push p st m = (c, st')"
  shows "length c = length m + SS_ABYTES" "pull p st c = Some (m, 0, st')"
  using assms unfolding ss_ok_def by blast+

lemma ss_loop_bytes:
  assumes "ss_ok p" "list_all chunk_ok ms"
  shows "ss_loop p st (ss_bytes p st ms) src = src @ concat (fitting (length src) ms)"
  using assms(2)
proof (induction ms arbitrary: st src)
  case Nil
  have "le_read (le_bytes 8 SIZE_MAX) = SIZE_MAX" by (rule le_read_bytes) (simp add: SIZE_MAX_def)
  then show ?case by (subst ss_loop.simps) simp
next
  case (Cons m ms)
  obtain enc st' where p: "push p st m = (enc, st')" by fastforce
  note ok = ss_okD [OF assms(1) p]
  have m: "0 < length m" "length m \<le> AEM_SMTP_CHUNKSIZE" using Cons.prems by (auto simp: chunk_ok_def)
  have n: "le_read (le_bytes 8 (length m + SS_ABYTES)) = length m + SS_ABYTES"
    using m(2) by (intro le_read_bytes) (simp add: ss_consts smtp_consts)
  have ne: "length m + SS_ABYTES \<noteq> SIZE_MAX" using m(2) by (simp add: ss_consts smtp_consts)
  have IH: "ss_loop p st' (ss_bytes p st' ms) (src @ m) = (src @ m) @ concat (fitting (length m + length src) ms)"
    using Cons.IH [of st' "src @ m"] Cons.prems by (simp add: add.commute)
  show ?case
    using m ne IH p by (subst ss_loop.simps) (simp add: Let_def n ok)
qed

lemma ss_part_bytes:
  assumes "ss_ok p" "length m + SS_ABYTES < 256 ^ 8" "push p st m = (enc, st')"
  shows "ss_part p (length m) st (ss_bytes p st (m # ms)) = Some (m, st', ss_bytes p st' ms)"
  using ss_okD [OF assms(1,3)] le_read_bytes [OF assms(2)] assms(3) by (simp add: ss_part_def Let_def)

lemma stream_delivers_eq:
  assumes "ss_ok p" "\<not> is_zero key" "length meta < 2 ^ 32" "length info < 2 ^ 32" "list_all chunk_ok body"
  shows "intcom_serve_stream p key (length meta) (length info) (stream_bytes p key (meta # info # body) c) =
    (let src = 10 # concat (fitting 1 body) in if length src > 1 then Some (meta, info, src) else None)"
proof -
  obtain h st where i: "init_push p key = (h, st)" by fastforce
  then have h: "length h = SS_HEADERBYTES" "init_pull p key h = Some st" using assms(1) unfolding ss_ok_def by blast+
  obtain e1 st1 where p1: "push p st meta = (e1, st1)" by fastforce
  obtain e2 st2 where p2: "push p st1 info = (e2, st2)" by fastforce
  have b: "length meta + SS_ABYTES < 256 ^ 8" "length info + SS_ABYTES < 256 ^ 8"
    using assms(3,4) by (simp_all add: ss_consts)
  show ?thesis
    using h assms(2) ss_part_bytes [OF assms(1) b(1) p1, of "info # body"] ss_part_bytes [OF assms(1) b(2) p2, of body]
      ss_loop_bytes [OF assms(1,5), of st2 "[10]"]
    by (simp add: intcom_serve_stream_def stream_bytes_eq i Let_def del: ss_bytes.simps)
qed

end
