(* ===== verification/Line_Dots.thy ===== *)
theory Line_Dots
  imports Deliver
begin

text \<open>
  Dots at line starts: the in-place loop of AEM-Deliver (\<^verbatim>\<open>convertLineDots\<close>) undoes what a sending client
  does to a text.
\<close>

text \<open>What a client does to a text: a dot at the start of a line is doubled.\<close>

fun stuff :: "byte list \<Rightarrow> byte list" where
  "stuff (c # d # e # cs) =
     (if c = 13 \<and> d = 10 \<and> e = 46 then 13 # 10 # 46 # 46 # stuff cs else c # stuff (d # e # cs))"
| "stuff cs = cs"

fun unstuff :: "byte list \<Rightarrow> byte list" where
  "unstuff (c # d # e # f # cs) =
     (if c = 13 \<and> d = 10 \<and> e = 46 \<and> f = 46 then 13 # 10 # 46 # unstuff cs else c # unstuff (d # e # f # cs))"
| "unstuff cs = cs"

lemma memmem_dots:
  "memmem (c # d # e # f # cs) crlf_dots =
     (if c = 13 \<and> d = 10 \<and> e = 46 \<and> f = 46 then Some 0 else map_option Suc (memmem (d # e # f # cs) crlf_dots))"
  by (simp add: crlf_dots_def)

lemma unstuff_none: "memmem xs crlf_dots = None \<Longrightarrow> unstuff xs = xs"
  by (induction xs rule: unstuff.induct) (auto simp: memmem_dots simp del: memmem.simps split: if_splits)

lemma memmem_short: "length xs < 4 \<Longrightarrow> memmem xs crlf_dots = None"
  using memmem_bound [of xs crlf_dots] by (cases "memmem xs crlf_dots") (auto simp: crlf_dots_def)

lemma unstuff_some:
  "memmem xs crlf_dots = Some k \<Longrightarrow> unstuff xs = take (k + 3) xs @ unstuff (drop (k + 4) xs)"
proof (induction xs arbitrary: k rule: unstuff.induct)
  case (1 c d e f cs)
  show ?case
  proof (cases "c = 13 \<and> d = 10 \<and> e = 46 \<and> f = 46")
    case True
    then have "k = 0" using "1.prems" by (simp add: memmem_dots del: memmem.simps)
    then show ?thesis using True by (simp add: numeral_eq_Suc)
  next
    case False
    then obtain k' where k: "k = Suc k'" "memmem (d # e # f # cs) crlf_dots = Some k'"
      using "1.prems" by (auto simp: memmem_dots simp del: memmem.simps)
    have "unstuff (c # d # e # f # cs) = c # unstuff (d # e # f # cs)" using False by auto
    then show ?thesis
      by (simp only: "1.IH"(2) [OF False k(2)] k(1) add_Suc take_Suc_Cons drop_Suc_Cons append_Cons)
  qed
qed (simp_all add: memmem_short)

lemma memmem_at: "memmem d m = Some k \<Longrightarrow> take (length m) (drop k d) = m"
proof (induction d arbitrary: k)
  case (Cons c cs)
  then show ?case by (cases "take (length m) (c # cs) = m") (auto simp del: take_Cons')
qed (auto split: if_splits)

lemma dots_loop_eq: "dots_loop from src = take from src @ unstuff (drop from src)"
proof (induction "from" src rule: dots_loop.induct)
  case (1 "from" src)
  show ?case
  proof (cases "memmem (drop from src) crlf_dots")
    case None
    then show ?thesis by (subst dots_loop.simps) (simp add: unstuff_none)
  next
    case (Some k)
    let ?c = "from + k + 2"
    let ?D = "drop from src"
    have "length crlf_dots = 4" by (simp add: crlf_dots_def)
    then have at: "take 4 (drop k ?D) = crlf_dots" using memmem_at [OF Some] by simp
    have n: "k + 4 \<le> length ?D" using memmem_bound [OF Some] by (simp add: crlf_dots_def)
    obtain a b p where ab: "take from src = a" "take k ?D = b" "drop 4 (drop k ?D) = p" by blast
    have D: "?D = b @ 13 # 10 # 46 # 46 # p"
      using ab(2,3) at by (metis append_take_drop_id crlf_dots_def append_Cons append_Nil)
    have src: "src = a @ b @ 13 # 10 # 46 # 46 # p" using ab(1) D by (metis append_take_drop_id)
    have len: "length a = from" "length b = k" using n ab by auto
    have cut: "take (from + k + 2) src @ drop (from + k + 2 + 1) src = a @ b @ 13 # 10 # 46 # p"
      unfolding src by (simp flip: len)
    have c: "from + k + 2 + 1 = from + k + 3" by simp
    have "dots_loop from src = dots_loop (from + k + 3) (a @ b @ 13 # 10 # 46 # p)"
      using Some by (subst dots_loop.simps) (simp only: option.case Let_def cut, simp only: c)
    also have "\<dots> = take (from + k + 3) (a @ b @ 13 # 10 # 46 # p) @
        unstuff (drop (from + k + 3) (a @ b @ 13 # 10 # 46 # p))"
      using "1.IH" [OF Some refl, unfolded cut, unfolded c] .
    also have "\<dots> = a @ b @ [13, 10, 46] @ unstuff p"
      by (simp flip: len add: numeral_3_eq_3)
    also have "\<dots> = a @ unstuff ?D"
    proof -
      have "take (k + 3) ?D = b @ [13, 10, 46]" "drop (k + 4) ?D = p"
        unfolding D by (simp_all flip: len add: numeral_eq_Suc)
      then show ?thesis by (simp only: unstuff_some [OF Some] append_assoc)
    qed
    finally show ?thesis by (simp only: ab(1))
  qed
qed

lemma convertLineDots_eq: "convertLineDots src = unstuff src"
  by (simp add: convertLineDots_def dots_loop_eq)

lemma unstuff_stuff: "unstuff (stuff xs) = xs"
proof (induction xs rule: stuff.induct)
  case (1 c d e cs)
  show ?case
  proof (cases "c = 13 \<and> d = 10 \<and> e = 46")
    case True
    then show ?thesis using "1.IH"(1) [OF True] by simp
  next
    case False
    let ?r = "stuff (d # e # cs)"
    have "\<not> (c = 13 \<and> take 3 ?r = [10, 46, 46])"
    proof
      assume h: "c = 13 \<and> take 3 ?r = [10, 46, 46]"
      have "take 1 ?r = [d]" by (cases cs) simp_all
      then have d: "d = 10" using h by (cases ?r) auto
      then have "?r = 10 # stuff (e # cs)" by (cases cs) simp_all
      moreover have "take 1 (stuff (e # cs)) = [e]" by (cases cs rule: stuff.cases) (auto split: if_splits)
      ultimately have "e = 46" using h by (cases "stuff (e # cs)") (auto simp: numeral_3_eq_3)
      then show False using False h d by simp
    qed
    then have "unstuff (c # ?r) = c # unstuff ?r"
      by (cases ?r rule: unstuff.cases) (auto simp: numeral_3_eq_3 split: if_splits)
    then show ?thesis using "1.IH"(2) [OF False] False by auto
  qed
qed auto

lemma convertLineDots_stuff: "convertLineDots (10 # stuff body) = 10 # body"
  by (cases "stuff body" rule: unstuff.cases) (use unstuff_stuff [of body] in \<open>auto simp: convertLineDots_eq\<close>)

text \<open>a text whose line-start dots a client has doubled (all lines but the first) is restored exactly
  by the in-place loop of AEM-Deliver, behind the line break that the transfer puts in front.\<close>

theorem dots_roundtrip: "convertLineDots (10 # stuff body) = 10 # body"
  by (rule convertLineDots_stuff)

end
