(* ===== verification/Deliver_Claims.thy ===== *)
theory Deliver_Claims
  imports Deliver Mail_Stream Line_Dots
begin

text \<open>
  Properties of AEM-Deliver: the transferred text is restored, the message built for a user can be
  read back, and where flags and variants of the text are lost.
\<close>

section \<open>The transfer\<close>

text \<open>what AEM-MTA sends over the stream is what AEM-Deliver works on: the metadata, the information
  and the body behind a line break, chunk by chunk.  When the body gets longer than 4 MiB with
  its line break, the first chunk that does not fit is dropped with all that follow, and the rest is
  delivered as if it were the message.\<close>

theorem stream_delivers:
  assumes "ss_ok p" "\<not> is_zero key" "length meta < 2 ^ 32" "length info < 2 ^ 32" "list_all chunk_ok body"
  shows "intcom_serve_stream p key (length meta) (length info) (stream_bytes p key (meta # info # body) c) =
    (let src = 10 # concat (fitting 1 body) in if length src > 1 then Some (meta, info, src) else None)"
  by (rule stream_delivers_eq [OF assms])

text \<open>A cipher for examples: a counter in front of the message and 16 bytes behind it.\<close>

definition demo_ss :: "byte ss_cipher" where
  "demo_ss = \<lparr>init_push = (\<lambda>key. (replicate 24 (hd key), hd key)),
     init_pull = (\<lambda>key h. Some (hd h)),
     push = (\<lambda>st m. (st # m @ replicate 16 0, st + 1)),
     pull = (\<lambda>st c. if hd c = st then Some (take (length c - 17) (tl c), 0, st + 1) else None)\<rparr>"

lemma demo_ss_ok: "ss_ok demo_ss"
  by (simp add: ss_ok_def demo_ss_def ss_consts numeral_eq_Suc)

theorem stream_delivers_witness:
  "intcom_serve_stream demo_ss [3] 1 1 (stream_bytes demo_ss [3] [[8], [7], [65, 66], [67]]
      \<lparr>sc_open = False, sc_state = 0, sc_sent = 0, sc_out = []\<rparr>) = Some ([8], [7], [10, 65, 66, 67])"
  using stream_delivers [OF demo_ss_ok, of "[3]" "[8]" "[7]" "[[65, 66], [67]]"
      "\<lparr>sc_open = False, sc_state = 0, sc_sent = 0, sc_out = []\<rparr>"]
  by (simp add: is_zero_def chunk_ok_def smtp_consts)

section \<open>The message to a user\<close>

lemma length_or_flag [simp]: "length (or_flag c i v m) = length m"
  by (simp add: or_flag_def)

lemma drop_or_flag [simp]: "i < n \<Longrightarrow> drop n (or_flag c i v m) = drop n m"
  by (simp add: or_flag_def)

lemma length_ext_flags [len_simps]: "length (ext_flags e m) = length m"
  by (simp add: ext_flags_def)

text \<open>The flags only touch bytes of the signature.\<close>

lemma drop_ext_flags: "18 < n \<Longrightarrow> drop n (ext_flags e m) = drop n m"
  by (simp add: ext_flags_def)

lemma length_ext_header [len_simps]: "length (ext_header e) = 23"
  by (simp add: ext_header_def)

lemma ext_uncomp_fits: "length (ext_uncomp e) = len_uncomp e"
proof -
  have "length (concat (map dkim_texts ds)) =
      sum_list (map (\<lambda>d. length (dk_domain d) + length (dk_selector d) + length (dk_notes d)) ds)" for ds
    by (induction ds) (simp_all add: dkim_texts_def)
  then show ?thesis by (simp add: ext_uncomp_def len_uncomp_def short_texts_def long_texts_def Suc_le_eq)
qed

lemma makeExtMsg_Some:
  assumes "makeExtMsg x allVer e0 = (e, Some msg)"
  obtains z where "e = ext_prepare allVer e0" "brotli x (ext_uncomp e) = Some z"
    "msg = ext_flags e (aem_msg_init (dlv_now x) AEM_MSG_TYPE_EXT 0 @ ext_header e) @
       concat (map (\<lambda>d. take AEM_DKIM_INFOBYTES (dk_info d)) (dl_dkim e)) @ z"
  using assms by (auto simp: makeExtMsg_def Let_def split: if_splits option.splits)

text \<open>The flags of an email.\<close>

definition clear_flags :: "email_info \<Rightarrow> email_info" where
  "clear_flags e = e\<lparr>dl_ipBlacklisted := False, dl_ipMatchGreeting := False, dl_protocolEsmtp := False,
     dl_invalidCommands := False, dl_protocolViolation := False, dl_rareCommands := False,
     dl_dnssec := False, dl_dane := False\<rparr>"

lemma ext_prepare_clear: "ext_prepare allVer (clear_flags e) = clear_flags (ext_prepare allVer e)"
  by (simp add: ext_prepare_def clear_flags_def Let_def dkim_identity_def)

lemma ext_parts_clear:
  "ext_uncomp (clear_flags e) = ext_uncomp e" "ext_header (clear_flags e) = ext_header e"
  "dl_dkim (clear_flags e) = dl_dkim e" "ext_flags (clear_flags e) m = m"
  by (simp_all add: clear_flags_def ext_uncomp_def short_texts_def long_texts_def body_bytes_def ext_header_def
      ext_flags_def or_flag_def)

lemma ext_msg_tail:
  assumes "makeExtMsg x allVer e = (e1, Some m1)" "makeExtMsg x allVer (clear_flags e) = (e2, Some m2)"
  shows "drop 27 m1 = drop 27 m2 \<and> AEM_MSG_HDR_SZ < length m1 \<and> length m1 = length m2"
proof -
  let ?h = "aem_msg_init (dlv_now x) AEM_MSG_TYPE_EXT 0" and ?p = "ext_prepare allVer e"
  let ?d = "concat (map (\<lambda>d. take AEM_DKIM_INFOBYTES (dk_info d)) (dl_dkim ?p))"
  obtain z where z: "brotli x (ext_uncomp ?p) = Some z"
    "m1 = ext_flags ?p (?h @ ext_header ?p) @ ?d @ z"
    using assms(1) by (rule makeExtMsg_Some) auto
  have m2: "m2 = (?h @ ext_header ?p) @ ?d @ z"
    using assms(2) z(1) by (auto simp: makeExtMsg_def Let_def ext_prepare_clear ext_parts_clear split: if_splits)
  show ?thesis by (simp add: z(2) m2 drop_ext_flags len_simps evp_consts)
qed

text \<open>the flags of an email - address on a block list, greeting matches the address, ESMTP, invalid
  commands, violations, rare commands, DNSSEC and DANE - never reach the user: they are written to bytes
  of the message which AEM-Storage overwrites with its signature, so that the signed message is the
  same with any flags as with none.\<close>

theorem flags_lost:
  assumes "makeExtMsg x allVer e = (e1, Some m1)" "makeExtMsg x allVer (clear_flags e) = (e2, Some m2)"
  shows "aem_sign_message y ssk ukey m1 = aem_sign_message y ssk ukey m2"
proof -
  have t: "drop 27 m1 = drop 27 m2" "AEM_MSG_HDR_SZ < length m1" "length m1 = length m2"
    using ext_msg_tail [OF assms] by auto
  have "m1 ! 27 = hd (drop 27 m1)" "m2 ! 27 = hd (drop 27 m2)"
    using t(2,3) by (simp_all add: hd_drop_conv_nth evp_consts)
  then have nth: "m1 ! 27 = m2 ! 27" using t(1) by (simp only:)
  have "drop 28 m1 = drop 1 (drop 27 m1)" "drop 28 m2 = drop 1 (drop 27 m2)" by simp_all
  then have rest: "drop 28 m1 = drop 28 m2" using t(1) by (simp only:)
  have "\<not> length m1 \<le> AEM_MSG_HDR_SZ" "\<not> length m2 \<le> AEM_MSG_HDR_SZ" using t(2,3) by simp_all
  then show ?thesis by (simp only: aem_sign_message_def msg_uHash_def Let_def t(1) nth rest if_False)
qed

text \<open>An email with nothing in it, and an encoder that returns its input.\<close>

definition empty_email :: email_info where
  "empty_email = \<lparr>dl_ccBytes = [0, 0], dl_timestamp = 0, dl_ip = 0, dl_attachCount = 0, dl_protocolEsmtp = False,
     dl_protocolViolation = False, dl_invalidCommands = False, dl_rareCommands = False, dl_ipBlacklisted = False,
     dl_ipMatchGreeting = False, dl_dnssec = False, dl_dane = False, dl_ciphersuite = 0, dl_tlsInfo = 0,
     dl_envTo = [], dl_hdrTo = [], dl_greet = [], dl_rvDns = [], dl_auSys = [], dl_envFr = [64], dl_hdrFr = [],
     dl_hdrRt = [], dl_msgId = [], dl_sbjct = [], dl_hdrTz = 0, dl_hdrTs = 0, dl_dkim = [], dl_dmarc = 0, dl_spf = 0,
     dl_head = [], dl_body = Some [72, 105, 127, 60, 98, 62]\<rparr>"

definition plain_dlv :: dlv_ext where
  "plain_dlv = \<lparr>brotli = Some, dlv_now = 1800000000, dlv_mem = True\<rparr>"

lemma prepare_dkim: "length (dl_dkim (ext_prepare allVer e)) \<le> 7"
  by (simp add: ext_prepare_def Let_def)

lemma plain_makeExtMsg:
  "len_uncomp (ext_prepare allVer e) < 10000 \<Longrightarrow>
     \<exists>m. makeExtMsg plain_dlv allVer e = (ext_prepare allVer e, Some m)"
  using prepare_dkim [of allVer e]
  by (simp add: makeExtMsg_def plain_dlv_def Let_def ext_uncomp_fits evp_consts AEM_DKIM_INFOBYTES_def)

theorem flags_lost_witness:
  "\<exists>m1 m2. snd (makeExtMsg plain_dlv True (empty_email\<lparr>dl_ipBlacklisted := True, dl_dane := True\<rparr>)) = Some m1 \<and>
     snd (makeExtMsg plain_dlv True empty_email) = Some m2 \<and>
     (\<forall>y ssk ukey. aem_sign_message y ssk ukey m1 = aem_sign_message y ssk ukey m2)"
proof -
  let ?e = "empty_email\<lparr>dl_ipBlacklisted := True, dl_dane := True\<rparr>"
  have l: "len_uncomp (ext_prepare True ?e) < 10000" "len_uncomp (ext_prepare True empty_email) < 10000"
    by (simp_all add: ext_prepare_def Let_def empty_email_def len_uncomp_def body_bytes_def)
  obtain m1 where m1: "makeExtMsg plain_dlv True ?e = (ext_prepare True ?e, Some m1)"
    using plain_makeExtMsg [OF l(1)] by blast
  have c: "clear_flags ?e = empty_email" by (simp add: clear_flags_def empty_email_def)
  obtain m2 where m2: "makeExtMsg plain_dlv True empty_email = (ext_prepare True empty_email, Some m2)"
    using plain_makeExtMsg [OF l(2)] by blast
  show ?thesis using flags_lost [OF m1, unfolded c, OF m2] m1 m2 by simp
qed

section \<open>Reading a message\<close>

text \<open>What a user's program does: the lengths in the header divide the uncompressed text.\<close>

fun split_lens :: "nat list \<Rightarrow> byte list \<Rightarrow> byte list list \<times> byte list" where
  "split_lens [] bs = ([], bs)"
| "split_lens (n # ns) bs = (case split_lens ns (drop n bs) of (ps, r) \<Rightarrow> (take n bs # ps, r))"

definition ext_lens :: "byte list \<Rightarrow> nat list" where
  "ext_lens h = map (\<lambda>i. unat (h ! i AND 63)) [10, 11, 12, 13, 14] @ map (\<lambda>i. unat (h ! i)) [15, 16, 17, 18, 19]"

fun dkim_lens :: "nat \<Rightarrow> byte list \<Rightarrow> nat list" where
  "dkim_lens 0 bs = []"
| "dkim_lens (Suc n) bs = map (\<lambda>i. unat (bs ! i AND 127)) [9, 10, 11] @ dkim_lens n (drop 12 bs)"

definition ext_read :: "(byte list \<Rightarrow> byte list) \<Rightarrow> byte list \<Rightarrow> byte list list \<times> byte list" where
  "ext_read unz msg =
     (let h = drop AEM_MSG_HDR_SZ msg; n = unat (drop_bit 5 (h ! 7))
      in split_lens (dkim_lens n (drop 23 h) @ ext_lens h) (unz (drop (23 + 12 * n) h)))"

lemma split_lens_concat:
  "split_lens (map length ps) (concat ps @ r) = (ps, r)"
  by (induction ps) simp_all

lemma split_lens_append: "map length ps = ns \<Longrightarrow> split_lens ns (concat ps @ r) = (ps, r)"
  using split_lens_concat by blast

text \<open>The lengths in the header.\<close>

lemma short_len:
  assumes "l \<le> 63"
  shows "unat ((of_nat l :: byte) AND 63) = l" "unat (((b AND 192) OR (of_nat l AND 63)) AND 63 :: byte) = l"
proof -
  have "list_all (\<lambda>l. (of_nat l :: byte) AND 63 = of_nat l) [0..<64]" by code_simp
  then have l: "(of_nat l :: byte) AND 63 = of_nat l" using assms by (simp add: list_all_iff)
  show "unat ((of_nat l :: byte) AND 63) = l" unfolding l using assms by (simp add: unat_of_nat)
  have "((b AND 192) OR (of_nat l AND 63)) AND 63 = (of_nat l :: byte) AND 63"
    by (simp add: bit.conj_disj_distrib2 bit.conj_disj_distrib and.assoc)
  then show "unat (((b AND 192) OR (of_nat l AND 63)) AND 63 :: byte) = l" using l assms by (simp add: unat_of_nat)
qed

lemma dkim_count:
  assumes "n \<le> 7"
  shows "unat (drop_bit 5 (push_bit 5 (of_nat n) OR (b AND 31) :: byte)) = n"
proof -
  have m: "(31 :: byte) = mask 5" by (simp add: mask_eq_exp_minus_1)
  have "drop_bit 5 (push_bit 5 (of_nat n) OR (b AND 31) :: byte) = of_nat n"
    unfolding m take_bit_eq_mask [symmetric]
  proof (rule bit_word_eqI)
    fix k assume "k < LENGTH(8)"
    have "(of_nat n :: byte) < 2 ^ 3" using assms by (simp add: word_less_nat_alt unat_of_nat)
    then have "bit (of_nat n :: byte) k \<Longrightarrow> k < 3" using word_bit_bound [of "of_nat n :: byte" 3 k] by simp
    then show "bit (drop_bit 5 (push_bit 5 (of_nat n) OR take_bit 5 b) :: byte) k = bit (of_nat n :: byte) k"
      by (auto simp: bit_simps)
  qed
  then show ?thesis using assms by (simp add: unat_of_nat)
qed


text \<open>The structure of an email: the texts fit their length fields.\<close>

definition dkim_ok :: "dkim_info \<Rightarrow> bool" where
  "dkim_ok d \<longleftrightarrow> length (dk_info d) = 12 \<and> unat (dk_info d ! 9 AND 127) = length (dk_domain d) \<and>
     unat (dk_info d ! 10 AND 127) = length (dk_selector d) \<and> unat (dk_info d ! 11 AND 127) = length (dk_notes d)"

definition email_sizes :: "email_info \<Rightarrow> bool" where
  "email_sizes e \<longleftrightarrow> list_all dkim_ok (dl_dkim e) \<and>
     list_all (\<lambda>t. length t \<le> 255) [dl_envFr e, dl_hdrFr e, dl_hdrRt e, dl_msgId e, dl_sbjct e]"

definition dkim_parts :: "dkim_info list \<Rightarrow> byte list list" where
  "dkim_parts ds = concat (map (\<lambda>d. [dk_domain d, dk_selector d, dk_notes d]) ds)"

definition text_parts :: "email_info \<Rightarrow> byte list list" where
  "text_parts e = [dl_envTo e, dl_hdrTo e, dl_greet e, dl_rvDns e, dl_auSys e,
     dl_envFr e, dl_hdrFr e, dl_hdrRt e, dl_msgId e, dl_sbjct e]"

definition head_and_body :: "email_info \<Rightarrow> byte list" where
  "head_and_body e = (if length (dl_head e) > 1 then tl (dl_head e) else []) @
     (if body_bytes e \<noteq> [] then AEM_CET_CHAR_SEP # body_bytes e else [])"

lemma ext_uncomp_parts:
  "ext_uncomp e = concat (dkim_parts (dl_dkim e) @ text_parts e) @ head_and_body e"
proof -
  have "concat (map dkim_texts ds) = concat (dkim_parts ds)" for ds
    by (induction ds) (simp_all add: dkim_parts_def dkim_texts_def)
  then show ?thesis by (simp add: ext_uncomp_def head_and_body_def text_parts_def short_texts_def long_texts_def)
qed

lemma length_infos:
  "list_all dkim_ok ds \<Longrightarrow> length (concat (map (\<lambda>d. take AEM_DKIM_INFOBYTES (dk_info d)) ds)) = 12 * length ds"
  by (induction ds) (simp_all add: dkim_ok_def AEM_DKIM_INFOBYTES_def)

lemma dkim_lens_infos:
  "list_all dkim_ok ds \<Longrightarrow>
     dkim_lens (length ds) (concat (map (\<lambda>d. take AEM_DKIM_INFOBYTES (dk_info d)) ds) @ r) =
     map length (dkim_parts ds)"
proof (induction ds)
  case (Cons d ds)
  then have d: "length (dk_info d) = 12" "dkim_ok d" by (simp_all add: dkim_ok_def)
  then show ?case using Cons by (simp add: AEM_DKIM_INFOBYTES_def nth_append dkim_parts_def dkim_ok_def)
qed (simp add: dkim_parts_def)

lemma ext_header_nth:
  "ext_header e ! 7 = (push_bit 5 (of_nat (length (dl_dkim e))) OR (of_nat (dl_attachCount e) AND 31))"
  "map (\<lambda>i. ext_header e ! i) [10, 11, 12, 13, 14, 15, 16, 17, 18, 19] =
     [(dl_spf e AND 192) OR (of_nat (length (dl_envTo e)) AND 63),
      (dl_dmarc e AND 192) OR (of_nat (length (dl_hdrTo e)) AND 63),
      of_nat (length (dl_greet e)) AND 63, of_nat (length (dl_rvDns e)) AND 63, of_nat (length (dl_auSys e)) AND 63,
      of_nat (length (dl_envFr e)), of_nat (length (dl_hdrFr e)), of_nat (length (dl_hdrRt e)),
      of_nat (length (dl_msgId e)), of_nat (length (dl_sbjct e))]"
  by (simp_all add: ext_header_def nth_append nth_Cons')

lemma ext_lens_header:
  assumes "list_all (\<lambda>t. length t \<le> 63) [dl_envTo e, dl_hdrTo e, dl_greet e, dl_rvDns e, dl_auSys e]"
    "list_all (\<lambda>t. length t \<le> 255) [dl_envFr e, dl_hdrFr e, dl_hdrRt e, dl_msgId e, dl_sbjct e]"
  shows "ext_lens (ext_header e @ r) = map length (text_parts e)"
proof -
  have l: "unat (of_nat (length t) :: byte) = length t" if "length t \<le> 255" for t :: "byte list"
    using that by (simp add: unat_of_nat)
  have "(ext_header e @ r) ! i = ext_header e ! i" if "i < 23" for i
    using that by (simp add: nth_append len_simps)
  then have "ext_lens (ext_header e @ r) = ext_lens (ext_header e)" by (simp add: ext_lens_def)
  also have "\<dots> = map length (text_parts e)"
    using ext_header_nth(2) [of e] assms by (simp add: ext_lens_def text_parts_def short_len l)
  finally show ?thesis .
qed

lemma prepare_sizes:
  assumes "email_sizes e0" "e = ext_prepare allVer e0"
  shows "email_sizes e" "length (dl_dkim e) \<le> 7"
    "list_all (\<lambda>t. length t \<le> 63) [dl_envTo e, dl_hdrTo e, dl_greet e, dl_rvDns e, dl_auSys e]"
proof -
  have v: "dkim_ok d \<Longrightarrow> dkim_ok (set_idValue v d)" for v d
    by (simp add: dkim_ok_def set_idValue_def)
  have i: "dkim_ok d \<Longrightarrow> dkim_ok (dkim_identity e' d)" for e' d
    by (simp add: dkim_identity_def v)
  show "email_sizes e" using assms by (auto simp: email_sizes_def ext_prepare_def Let_def list_all_iff intro!: i dest: in_set_takeD)
  show "length (dl_dkim e) \<le> 7" using assms(2) prepare_dkim by simp
  show "list_all (\<lambda>t. length t \<le> 63) [dl_envTo e, dl_hdrTo e, dl_greet e, dl_rvDns e, dl_auSys e]"
    by (simp add: assms(2) ext_prepare_def Let_def)
qed

text \<open>C24: the message that is built for a user can be taken apart again: with the lengths in its header
  the uncompressed text divides into the texts of the signatures, the five short and the five long texts, and
  the headers and body, exactly as they were; the encoder is only relied on to be undone by the decoder.\<close>

theorem ext_msg_read:
  assumes "makeExtMsg x allVer e0 = (e, Some msg)" "email_sizes e0"
    "\<And>u z. brotli x u = Some z \<Longrightarrow> unz z = u"
  shows "ext_read unz msg = (dkim_parts (dl_dkim e) @ text_parts e, head_and_body e)"
proof -
  obtain z where z: "e = ext_prepare allVer e0" "brotli x (ext_uncomp e) = Some z"
    "msg = ext_flags e (aem_msg_init (dlv_now x) AEM_MSG_TYPE_EXT 0 @ ext_header e) @
       concat (map (\<lambda>d. take AEM_DKIM_INFOBYTES (dk_info d)) (dl_dkim e)) @ z"
    using assms(1) by (rule makeExtMsg_Some)
  note ps = prepare_sizes [OF assms(2) z(1)]
  let ?d = "concat (map (\<lambda>d. take AEM_DKIM_INFOBYTES (dk_info d)) (dl_dkim e))"
  have h: "drop AEM_MSG_HDR_SZ msg = ext_header e @ ?d @ z"
    by (simp add: z(3) len_simps drop_ext_flags evp_consts)
  have n: "unat (drop_bit 5 ((ext_header e @ ?d @ z) ! 7)) = length (dl_dkim e)"
    using dkim_count [OF ps(2)] by (simp add: nth_append len_simps ext_header_nth(1))
  have ok: "list_all dkim_ok (dl_dkim e)" using ps(1) by (simp add: email_sizes_def)
  then have d: "length ?d = 12 * length (dl_dkim e)" by (rule length_infos)
  have rest: "drop (23 + 12 * length (dl_dkim e)) (ext_header e @ ?d @ z) = z"
    using d by (simp add: len_simps)
  have lens: "dkim_lens (length (dl_dkim e)) (drop 23 (ext_header e @ ?d @ z)) = map length (dkim_parts (dl_dkim e))"
    using dkim_lens_infos [OF ok, of z] by (simp add: len_simps)
  have hl: "ext_lens (ext_header e @ ?d @ z) = map length (text_parts e)"
    using ps by (intro ext_lens_header) (auto simp: email_sizes_def)
  show ?thesis
    unfolding ext_read_def Let_def h n rest lens hl assms(3) [OF z(2)] ext_uncomp_parts
    using split_lens_append [of "dkim_parts (dl_dkim e) @ text_parts e", OF refl] by simp
qed

theorem ext_msg_read_witness:
  "\<exists>m. makeExtMsg plain_dlv True empty_email = (ext_prepare True empty_email, Some m) \<and>
     ext_read id m = (replicate 5 [] @ [64] # replicate 4 [], [127, 72, 105, 127, 60, 98, 62])"
proof -
  have l: "len_uncomp (ext_prepare True empty_email) < 10000"
    by (simp add: ext_prepare_def Let_def empty_email_def len_uncomp_def body_bytes_def)
  obtain m where m: "makeExtMsg plain_dlv True empty_email = (ext_prepare True empty_email, Some m)"
    using plain_makeExtMsg [OF l] by blast
  have s: "email_sizes empty_email" by (simp add: email_sizes_def empty_email_def)
  have b: "\<And>u z. brotli plain_dlv u = Some z \<Longrightarrow> id z = u" by (simp add: plain_dlv_def)
  have "dkim_parts (dl_dkim (ext_prepare True empty_email)) @ text_parts (ext_prepare True empty_email) =
      replicate 5 [] @ [64] # replicate 4 []"
    "head_and_body (ext_prepare True empty_email) = [127, 72, 105, 127, 60, 98, 62]"
    by (simp_all add: ext_prepare_def Let_def empty_email_def dkim_parts_def text_parts_def head_and_body_def
        body_bytes_def AEM_CET_CHAR_SEP_def numeral_eq_Suc)
  then show ?thesis using ext_msg_read [OF m s b] m by simp
qed

section \<open>Variants of the text\<close>

lemma last_variant_idem: "last_variant (last_variant b) = last_variant b"
proof -
  have "AEM_CET_CHAR_SEP \<notin> set (rev (takeWhile (\<lambda>c. c \<noteq> AEM_CET_CHAR_SEP) (rev b)))"
    by (auto dest: set_takeWhileD)
  then show ?thesis by (simp add: last_variant_def)
qed

definition one_variant :: "email_info \<Rightarrow> bool" where
  "one_variant e \<longleftrightarrow> map_option last_variant (dl_body e) = dl_body e"

lemma prepare_one_variant: "one_variant e \<or> \<not> allVer \<Longrightarrow> one_variant (ext_prepare allVer e)"
  by (auto simp: one_variant_def ext_prepare_def Let_def option.map_comp comp_def last_variant_idem)

lemma prepare_same: "one_variant e \<Longrightarrow> ext_prepare True e = ext_prepare False e"
proof -
  assume "one_variant e"
  then have "e\<lparr>dl_body := map_option last_variant (dl_body e)\<rparr> = e" by (simp add: one_variant_def)
  then show ?thesis by (simp add: ext_prepare_def)
qed

lemma store_attach_email [simp]: "ds_email (store_attach sto uid p as s) = ds_email s"
  by (induction sto uid p as s rule: store_attach.induct) (simp_all add: sto_call_def)

lemma store_one_email:
  "ds_email (store_one x sto r s) =
     (if rc_uid r \<ge> AEM_USERCOUNT then ds_email s
      else ext_prepare (rc_flags r AND AEM_ADDR_FLAG_ALLVER \<noteq> 0) ((ds_email s)\<lparr>dl_envTo := take 63 (rc_to r)\<rparr>))"
proof (cases "rc_uid r \<ge> AEM_USERCOUNT")
  case False
  obtain e msg where m: "makeExtMsg x (rc_flags r AND AEM_ADDR_FLAG_ALLVER \<noteq> 0)
      ((ds_email s)\<lparr>dl_envTo := take 63 (rc_to r)\<rparr>) = (e, msg)" by fastforce
  then have "e = ext_prepare (rc_flags r AND AEM_ADDR_FLAG_ALLVER \<noteq> 0) ((ds_email s)\<lparr>dl_envTo := take 63 (rc_to r)\<rparr>)"
    by (simp add: makeExtMsg_def Let_def)
  moreover have "ds_email (store_one x sto r s) = e"
    using False m by (cases msg) (simp_all add: store_one_def Let_def sto_call_def split: option.split)
  ultimately show ?thesis using False by simp
qed (simp add: store_one_def)

lemma store_one_variant:
  assumes "rc_uid r < AEM_USERCOUNT" "rc_flags r AND AEM_ADDR_FLAG_ALLVER = 0 \<or> one_variant (ds_email s)"
  shows "one_variant (ds_email (store_one x sto r s))"
  using assms prepare_one_variant [of "(ds_email s)\<lparr>dl_envTo := take 63 (rc_to r)\<rparr>"]
  by (auto simp: store_one_email one_variant_def)

lemma store_all_variant:
  "one_variant (ds_email s) \<Longrightarrow> one_variant (ds_email (fold (store_one x sto) rs s))"
proof (induction rs arbitrary: s)
  case (Cons r rs)
  have "one_variant (ds_email (store_one x sto r s))"
    using Cons.prems store_one_variant [of r s x sto] by (cases "rc_uid r < AEM_USERCOUNT") (auto simp: store_one_email)
  then show ?case using Cons.IH by simp
qed simp

text \<open>once a message has been built for a known recipient who wants only the preferred variant of the
  text, the other variants are gone for all recipients behind: a recipient who wants all of them gets the same
  message as one who does not.\<close>

theorem variants_lost:
  assumes "rc_uid r < AEM_USERCOUNT" "rc_flags r AND AEM_ADDR_FLAG_ALLVER = 0"
  shows "makeExtMsg y True ((ds_email (fold (store_one x sto) (r # rs) s))\<lparr>dl_envTo := t\<rparr>) =
     makeExtMsg y False ((ds_email (fold (store_one x sto) (r # rs) s))\<lparr>dl_envTo := t\<rparr>)"
proof -
  let ?e = "ds_email (fold (store_one x sto) (r # rs) s)"
  have "one_variant ?e" using store_all_variant [OF store_one_variant] assms by simp
  then have "one_variant (?e\<lparr>dl_envTo := t\<rparr>)" by (simp add: one_variant_def)
  then show ?thesis by (simp only: makeExtMsg_def prepare_same)
qed

definition picky :: smtp_rcpt where
  "picky = \<lparr>rc_to = str ''bob'', rc_uid = 5, rc_flags = 0\<rparr>"

theorem variants_lost_witness:
  "rc_uid picky < AEM_USERCOUNT \<and>
   makeExtMsg plain_dlv True ((ds_email (fold (store_one plain_dlv (\<lambda>_ _ _. 0)) [picky]
       (storeMessage plain_dlv (\<lambda>_ _ _. 0) [] empty_email [] None)))\<lparr>dl_envTo := str ''all''\<rparr>) =
   makeExtMsg plain_dlv False ((ds_email (fold (store_one plain_dlv (\<lambda>_ _ _. 0)) [picky]
       (storeMessage plain_dlv (\<lambda>_ _ _. 0) [] empty_email [] None)))\<lparr>dl_envTo := str ''all''\<rparr>)"
proof -
  have p: "rc_uid picky < AEM_USERCOUNT" "rc_flags picky AND AEM_ADDR_FLAG_ALLVER = 0"
    by (simp_all add: picky_def acc_consts)
  then show ?thesis using variants_lost [OF p, where rs = "[]"] by blast
qed

end
