(* ===== verification/Message_Id.thy ===== *)
theory Message_Id
  imports Kdf
begin

text \<open>
  \<^verbatim>\<open>src/api/MessageId.c\<close>: identifiers of sent messages, an encrypted block with the time, the user and
  the sending address, written with a secret set of 32 characters.  AES is a parameter that may
  fail, in which case the block is random.

  The lemmas: a character set built by \<open>setMsgIdKey\<close> is a permutation of the 32 characters, reading
  the characters back gives the block, and so two identifiers are the same only for the same time,
  user and address.
\<close>

section \<open>The code\<close>

definition AEM_KDF_KEYID_API_MIA :: u64 where "AEM_KDF_KEYID_API_MIA = 0x40"
definition AEM_KDF_KEYID_API_MIC :: u64 where "AEM_KDF_KEYID_API_MIC = 0x41"

definition b32_set :: "byte list" where "b32_set = str ''0123456789bcdefghjklmnpqrstvwxyz''"

text \<open>The loop that draws the characters; \<open>None\<close> is a read behind the 8192 derived bytes.\<close>

fun cs_loop :: "byte list \<Rightarrow> u64 \<Rightarrow> byte list \<Rightarrow> byte list option" where
  "cs_loop src used cs =
     (if length cs \<ge> 32 then Some cs
      else case src of
        [] \<Rightarrow> None
      | c # src' \<Rightarrow>
          let k = unat (c AND 31)
          in if drop_bit k used AND 1 = 0 then cs_loop src' (used OR push_bit k 1) (cs @ [b32_set ! k])
             else cs_loop src' used cs)"

declare cs_loop.simps [simp del]

text \<open>\<^verbatim>\<open>msgid_key\<close> and \<^verbatim>\<open>msgid_cs\<close>.\<close>

record msgid_keys =
  msgid_key :: "byte list"
  msgid_cs :: "byte list"

definition setMsgIdKey :: "chacha \<Rightarrow> byte list \<Rightarrow> msgid_keys option" where
  "setMsgIdKey chacha baseKey =
     map_option (\<lambda>cs. \<lparr>msgid_key = aem_kdf_sub chacha 32 AEM_KDF_KEYID_API_MIA baseKey, msgid_cs = cs\<rparr>)
       (cs_loop (aem_kdf_sub chacha 8192 AEM_KDF_KEYID_API_MIC baseKey) 0 [])"

definition delMsgIdKey :: msgid_keys where
  "delMsgIdKey = \<lparr>msgid_key = replicate 32 0, msgid_cs = replicate 32 0\<rparr>"

definition raw_id :: "u32 \<Rightarrow> u16 \<Rightarrow> nat \<Rightarrow> byte list \<Rightarrow> byte list" where
  "raw_id ts uid nsec addr32 =
     le_bytes 4 (unat ts) @
     le_bytes 2 (unat ((uid AND 4095) OR push_bit 12 (of_nat nsec AND 15))) @ take 10 addr32"

text \<open>Thirteen characters of a 64-bit number, five bits each, the low ones first.\<close>

definition id_chars :: "byte list \<Rightarrow> u64 \<Rightarrow> byte list" where
  "id_chars cs n = map (\<lambda>j. cs ! unat (drop_bit (j * 5) n AND 31)) [0..<13]"

definition genMsgId ::
  "(byte list \<Rightarrow> byte list \<Rightarrow> byte list option) \<Rightarrow> byte list \<Rightarrow> msgid_keys \<Rightarrow>
   u32 \<Rightarrow> u16 \<Rightarrow> nat \<Rightarrow> byte list \<Rightarrow> bool \<Rightarrow> byte list" where
  "genMsgId aes rnd ks ts uid nsec addr32 b32 =
     (let blk = (case aes (msgid_key ks) (raw_id ts uid nsec addr32) of Some c \<Rightarrow> c | None \<Rightarrow> rnd)
      in if b32 then id_chars (msgid_cs ks) (of_nat (le_read (take 8 blk))) @
                     id_chars (msgid_cs ks) (of_nat (le_read (take 8 (drop 8 blk))))
         else blk)"

section \<open>The character set\<close>

lemma length_b32 [simp]: "length b32_set = 32"
  by (simp add: b32_set_def)

lemma distinct_b32: "distinct b32_set"
  by (simp add: b32_set_def str_def)

definition drawn :: "u64 \<Rightarrow> nat list \<Rightarrow> bool" where
  "drawn used ks \<longleftrightarrow> distinct ks \<and> set ks \<subseteq> {..<32} \<and> (\<forall>k < 32. bit used k \<longleftrightarrow> k \<in> set ks)"

lemma and31_lt: "unat (c AND 31 :: byte) < 32"
proof -
  have "c AND 31 = take_bit 5 c" by (simp add: take_bit_eq_mask mask_eq_exp_minus_1)
  then show ?thesis using take_bit_nat_less_exp [of 5 "unat c"] by (simp add: unsigned_take_bit_eq)
qed

lemma cs_loop_drawn:
  assumes "cs_loop src used (map ((!) b32_set) ks) = Some cs" "drawn used ks" "length ks \<le> 32"
  shows "\<exists>ks. distinct ks \<and> set ks \<subseteq> {..<32} \<and> length ks = 32 \<and> cs = map ((!) b32_set) ks"
  using assms
proof (induction src arbitrary: used ks)
  case Nil
  then show ?case by (subst (asm) cs_loop.simps) (auto simp: drawn_def split: if_splits)
next
  case (Cons c src)
  let ?k = "unat (c AND 31)"
  have k: "?k < 32" by (rule and31_lt)
  have b: "(drop_bit ?k used AND 1 = 0) \<longleftrightarrow> ?k \<notin> set ks"
  proof -
    have "bit used ?k \<longleftrightarrow> ?k \<in> set ks" using Cons.prems(2) k by (simp add: drawn_def)
    then show ?thesis by (simp add: bit_iff_odd_drop_bit and_one_eq mod_2_eq_odd)
  qed
  show ?case
  proof (cases "length ks = 32")
    case True
    then show ?thesis using Cons.prems
      by (subst (asm) cs_loop.simps) (auto simp: drawn_def)
  next
    case False
    then have l: "length ks < 32" using Cons.prems(3) by simp
    show ?thesis
    proof (cases "?k \<in> set ks")
      case True
      then have "cs_loop src used (map ((!) b32_set) ks) = Some cs"
        using Cons.prems(1) l b by (subst (asm) cs_loop.simps) (simp add: Let_def)
      then show ?thesis using Cons.IH Cons.prems(2,3) by blast
    next
      case False
      then have "cs_loop src (used OR push_bit ?k 1) (map ((!) b32_set) (ks @ [?k])) = Some cs"
        using Cons.prems(1) l b by (subst (asm) cs_loop.simps) (simp add: Let_def)
      moreover have "drawn (used OR push_bit ?k 1) (ks @ [?k])"
        using Cons.prems(2) False k
        by (auto simp: drawn_def bit_or_iff bit_push_bit_iff bit_1_iff simp del: push_bit_of_1)
      ultimately show ?thesis using Cons.IH l by (metis Suc_leI length_append_singleton)
    qed
  qed
qed

definition cs_ok :: "byte list \<Rightarrow> bool" where
  "cs_ok cs \<longleftrightarrow> length cs = 32 \<and> distinct cs \<and> set cs = set b32_set"

lemma setMsgIdKey_cs_ok:
  assumes "setMsgIdKey chacha key = Some ks"
  shows "cs_ok (msgid_cs ks)"
proof -
  obtain cs where "cs_loop (aem_kdf_sub chacha 8192 AEM_KDF_KEYID_API_MIC key) 0 (map ((!) b32_set) []) = Some cs"
    "msgid_cs ks = cs" using assms by (auto simp: setMsgIdKey_def)
  then obtain ks' where ks': "distinct ks'" "set ks' \<subseteq> {..<32}" "length ks' = 32" "msgid_cs ks = map ((!) b32_set) ks'"
    using cs_loop_drawn [of _ 0 "[]"] by (fastforce simp: drawn_def)
  then have "set ks' = {..<32}" by (metis card_lessThan card_subset_eq distinct_card finite_lessThan)
  moreover have "inj_on ((!) b32_set) {..<32}"
    using distinct_b32 by (auto simp: inj_on_def nth_eq_iff_index_eq)
  moreover have "(!) b32_set ` {..<32} = set b32_set"
    by (auto simp: set_conv_nth)
  ultimately show ?thesis using ks' by (simp add: cs_ok_def distinct_map)
qed

section \<open>Reading an identifier\<close>

fun index_of :: "byte list \<Rightarrow> byte \<Rightarrow> nat" where
  "index_of [] c = 0"
| "index_of (x # xs) c = (if x = c then 0 else Suc (index_of xs c))"

lemma index_of_nth: "distinct xs \<Longrightarrow> i < length xs \<Longrightarrow> index_of xs (xs ! i) = i"
  by (induction xs arbitrary: i) (auto simp: nth_Cons split: nat.splits)

fun fives_read :: "nat list \<Rightarrow> nat" where
  "fives_read [] = 0"
| "fives_read (k # ks) = k + 32 * fives_read ks"

definition id_read :: "byte list \<Rightarrow> byte list \<Rightarrow> byte list" where
  "id_read cs out = le_bytes 8 (fives_read (map (index_of cs) (take 13 out))) @
     le_bytes 8 (fives_read (map (index_of cs) (drop 13 out)))"

lemma fives_read_digits: "fives_read (map (\<lambda>j. n div 32 ^ (i + j) mod 32) [0..<m]) = n div 32 ^ i mod 32 ^ m"
proof (induction m arbitrary: i)
  case (Suc m)
  have "map (\<lambda>j. n div 32 ^ (i + j) mod 32) [0..<Suc m] =
      (n div 32 ^ i mod 32) # map (\<lambda>j. n div 32 ^ (Suc i + j) mod 32) [0..<m]"
    by (simp only: upt_conv_Cons [of 0 "Suc m"] flip: map_Suc_upt) (simp del: upt_Suc)
  then show ?case
    using Suc [of "Suc i"]
    by (simp only: fives_read.simps) (simp add: mod_mult2_eq flip: div_mult2_eq add: mult.commute)
qed simp

lemma unat_five: "unat (drop_bit k n AND 31 :: u64) = unat n div 2 ^ k mod 32"
proof -
  have "drop_bit k n AND 31 = take_bit 5 (drop_bit k n)" by (simp add: take_bit_eq_mask mask_eq_exp_minus_1)
  then have "unat (drop_bit k n AND 31) = take_bit 5 (drop_bit k (unat n))"
    by (simp only: unsigned_take_bit_eq unsigned_drop_bit_eq) (use unsigned_less [of n, where ?'a = nat] in \<open>simp add: take_bit_nat_eq_self\<close>)
  then show ?thesis by (simp only: take_bit_eq_mod drop_bit_eq_div) simp
qed

lemma pow32: "2 ^ (j * 5) = (32 :: nat) ^ j"
  by (simp add: mult.commute [of j] power_mult)

lemma id_chars_read:
  assumes "cs_ok cs"
  shows "fives_read (map (index_of cs) (id_chars cs n)) = unat n"
proof -
  have "map (index_of cs) (id_chars cs n) = map (\<lambda>j. unat n div 32 ^ (0 + j) mod 32) [0..<13]"
    using assms
    by (auto simp: id_chars_def cs_ok_def unat_five index_of_nth pow32)
  then show ?thesis
    using fives_read_digits [of "unat n" 0 13] unsigned_less [of n, where ?'a = nat]
    by (simp del: upt_rec_numeral upt_Suc)
qed

lemma length_id_chars [len_simps]: "length (id_chars cs n) = 13"
  by (simp add: id_chars_def del: upt_rec_numeral upt_Suc)

lemma le_half: "length b = 8 \<Longrightarrow> le_bytes 8 (unat (of_nat (le_read b) :: u64)) = b"
  using le_read_bound [of b] le_bytes_read [of b] by (simp add: unat_of_nat)

lemma id_read_gen:
  assumes "cs_ok (msgid_cs ks)" "aes (msgid_key ks) (raw_id ts uid nsec addr) = Some blk" "length blk = 16"
  shows "id_read (msgid_cs ks) (genMsgId aes rnd ks ts uid nsec addr True) = blk"
  using assms by (simp add: genMsgId_def id_read_def len_simps id_chars_read le_half)

text \<open>What is relied on of AES: it does not fail, blocks go to blocks, and no two to the same.\<close>

definition aes_ok :: "(byte list \<Rightarrow> byte list \<Rightarrow> byte list option) \<Rightarrow> bool" where
  "aes_ok aes \<longleftrightarrow> (\<forall>k b. length b = 16 \<longrightarrow> (\<exists>c. aes k b = Some c \<and> length c = 16)) \<and>
     (\<forall>k b b'. length b = 16 \<and> length b' = 16 \<and> aes k b = aes k b' \<longrightarrow> b = b')"

lemma le_bytes_inj: "le_bytes k m = le_bytes k n \<Longrightarrow> m < 256 ^ k \<Longrightarrow> n < 256 ^ k \<Longrightarrow> m = n"
  by (metis le_read_bytes)

lemma raw_id_inj:
  assumes "raw_id ts uid nsec a = raw_id ts' uid' nsec' a'" "length a = 10" "length a' = 10"
  shows "ts = ts' \<and> uid AND 4095 = uid' AND 4095 \<and> a = a'"
proof -
  have e: "le_bytes 4 (unat ts) = le_bytes 4 (unat ts')" "a = a'"
    "le_bytes 2 (unat ((uid AND 4095) OR push_bit 12 (of_nat nsec AND 15))) =
     le_bytes 2 (unat ((uid' AND 4095) OR push_bit 12 (of_nat nsec' AND 15)))"
    using assms by (simp_all add: raw_id_def)
  have "unat ts < 256 ^ 4" "unat ts' < 256 ^ 4" using unsigned_less [of ts] unsigned_less [of ts'] by simp_all
  then have t: "ts = ts'" using le_bytes_inj [OF e(1)] by (simp add: word_unat_eq_iff)
  have b: "unat (w :: u16) < 256 ^ 2" for w using unsigned_less [of w] by simp
  let ?w = "\<lambda>u n. (u AND 4095) OR push_bit 12 (of_nat n AND 15) :: u16"
  have w: "?w uid nsec = ?w uid' nsec'"
    using le_bytes_inj [OF e(3) b b] by (simp add: word_unat_eq_iff)
  have m: "(4095 :: u16) = mask 12" by (simp add: mask_eq_exp_minus_1)
  have "?w u n AND 4095 = u AND 4095" for u n
    unfolding m by (rule bit_word_eqI) (auto simp: bit_simps)
  then have "uid AND 4095 = uid' AND 4095" using w by metis
  with t e(2) show ?thesis by simp
qed

section \<open>Properties\<close>

text \<open>two identifiers made with the keys of one server are the same only when they were made for the
  same second, the same user and the same sending address.\<close>

theorem msgId_unique:
  assumes "setMsgIdKey chacha key = Some ks" "aes_ok aes" "length a = 10" "length a' = 10"
    "genMsgId aes rnd ks ts uid nsec a True = genMsgId aes rnd' ks ts' uid' nsec' a' True"
  shows "ts = ts' \<and> uid AND 4095 = uid' AND 4095 \<and> a = a'"
proof -
  have l: "length (raw_id ts uid nsec a) = 16" "length (raw_id ts' uid' nsec' a') = 16"
    using assms(3,4) by (simp_all add: raw_id_def len_simps)
  obtain b b' where "aes (msgid_key ks) (raw_id ts uid nsec a) = Some b" "length b = 16"
    "aes (msgid_key ks) (raw_id ts' uid' nsec' a') = Some b'" "length b' = 16"
    using assms(2) l unfolding aes_ok_def by metis
  moreover from this have "b = b'"
    using assms(5) id_read_gen [OF setMsgIdKey_cs_ok [OF assms(1)]] by metis
  ultimately have "raw_id ts uid nsec a = raw_id ts' uid' nsec' a'"
    using assms(2) l unfolding aes_ok_def by metis
  then show ?thesis using raw_id_inj assms(3,4) by blast
qed

lemma cs_loop_append: "cs_loop a used cs = Some x \<Longrightarrow> cs_loop (a @ b) used cs = Some x"
proof (induction a arbitrary: used cs)
  case Nil
  then show ?case by (subst (asm) cs_loop.simps) (simp add: cs_loop.simps [of b] split: if_splits)
next
  case (Cons c a)
  then show ?case
    by (subst (asm) cs_loop.simps, subst cs_loop.simps) (auto simp: Let_def split: if_splits)
qed

definition count_chacha :: chacha where
  "count_chacha k n c len = map of_nat [0..<len]"

definition plain_keys :: msgid_keys where
  "plain_keys = \<lparr>msgid_key = count_chacha [] [] 0 32, msgid_cs = b32_set\<rparr>"

lemma cs_loop_count:
  "j \<le> 32 \<Longrightarrow> cs_loop (map of_nat [j..<32]) (mask j) (take j b32_set) = Some b32_set"
proof (induction "32 - j" arbitrary: j)
  case 0
  then show ?case by (subst cs_loop.simps) simp
next
  case (Suc n)
  then have j: "j < 32" by simp
  then have l: "map of_nat [j..<32] = (of_nat j :: byte) # map of_nat [Suc j..<32]"
    by (simp add: upt_conv_Cons)
  have "of_nat j AND (31 :: byte) = take_bit 5 (of_nat j)"
    by (simp add: take_bit_eq_mask mask_eq_exp_minus_1)
  then have k: "unat (of_nat j AND (31 :: byte)) = j"
    using j by (simp only: unsigned_take_bit_eq) (simp add: take_bit_nat_eq_self unat_of_nat)
  have u: "drop_bit j (mask j :: u64) AND 1 = 0"
    by (rule bit_word_eqI) (auto simp: bit_simps)
  have v: "mask j OR push_bit j 1 = (mask (Suc j) :: u64)"
    by (rule bit_word_eqI) (auto simp: bit_simps simp del: push_bit_of_1)
  show ?case
    using Suc.hyps(1) [of "Suc j"] Suc.hyps(2) j by (subst cs_loop.simps) (simp add: l k u v Let_def take_Suc_conv_app_nth del: push_bit_of_1 upt_rec_numeral upt_Suc)
qed

lemma plain_keys_set: "setMsgIdKey count_chacha [] = Some plain_keys"
proof -
  have "[0..<8192] = [0..<32] @ [32..<32 + 8160]" using upt_add_eq_append [of 0 32 8160] by (simp del: upt_rec_numeral)
  then have split: "map of_nat [0..<8192] = (map of_nat [0..<32] :: byte list) @ map of_nat [32..<8192]"
    by (simp del: upt_rec_numeral)
  have "cs_loop (map of_nat [0..<32]) 0 [] = Some b32_set" using cs_loop_count [of 0] by simp
  then have "cs_loop (map of_nat [0..<8192]) 0 [] = Some b32_set"
    unfolding split by (rule cs_loop_append)
  then show ?thesis by (simp add: setMsgIdKey_def plain_keys_def aem_kdf_sub_def count_chacha_def del: upt_rec_numeral)
qed

theorem msgId_unique_witness:
  "\<exists>ks. setMsgIdKey count_chacha [] = Some ks \<and> (4101 :: u16) AND 4095 = 5 AND 4095 \<and>
     genMsgId (\<lambda>k b. Some b) [] ks 7 4101 0 (replicate 10 1) True
       = genMsgId (\<lambda>k b. Some b) [] ks 7 5 0 (replicate 10 1) True"
proof -
  have e: "genMsgId (\<lambda>k b. Some b) [] plain_keys 7 4101 0 (replicate 10 1) True
      = genMsgId (\<lambda>k b. Some b) [] plain_keys 7 5 0 (replicate 10 1) True"
    by (simp add: genMsgId_def raw_id_def)
  have "aes_ok (\<lambda>k b. Some b)" by (simp add: aes_ok_def)
  then have "(4101 :: u16) AND 4095 = 5 AND 4095"
    using msgId_unique [OF plain_keys_set, where aes = "\<lambda>k b. Some b"] e by (meson length_replicate)
  then show ?thesis using plain_keys_set e by blast
qed

end
