(* ===== verification/Api_Mail.thy ===== *)
theory Api_Mail
  imports Smtp Message_Id Envelope
begin

text \<open>
  \<^verbatim>\<open>src/api/SendMail.c\<close>: the email built for another server (\<^verbatim>\<open>createEmail\<close>, with the DKIM signature of
  \<^verbatim>\<open>rsa_sign_b64\<close>) and the SMTP session that hands it over (\<^verbatim>\<open>sendMail\<close>).

  The \<^verbatim>\<open>char\<close> arrays at the start of \<^verbatim>\<open>struct outEmail\<close> are one piece of memory (\<open>oe_mem\<close>): they have no
  padding between them, and the code writes the reply of AEM-Enquiry over the first three at once.
  The hash, the RSA operation, Base64, the clock and the other server are parameters.  Undefined
  behaviour (writes behind an array) is a value of its own.
\<close>

section \<open>Data (SendMail.h)\<close>

record out_email =
  oe_mem :: "byte list"
  oe_uid :: u16
  oe_isAdmin :: bool
  oe_ip :: "byte list"
  oe_cc :: u16
  oe_fromAddr32 :: "byte list"
  oe_lenRsaKey :: nat
  oe_body :: "byte list"

definition LEN_OE_MEM :: nat where "LEN_OE_MEM = 128 + 128 + 128 + 25 + 128 + 128 + 128 + 2048"

text \<open>A string in memory ends before the first zero byte.\<close>

definition cstr :: "byte list \<Rightarrow> byte list" where
  "cstr bs = takeWhile (\<lambda>b. b \<noteq> 0) bs"

definition oe_mxDomain :: "out_email \<Rightarrow> byte list" where "oe_mxDomain e = cstr (oe_mem e)"
definition oe_asn :: "out_email \<Rightarrow> byte list" where "oe_asn e = cstr (drop 128 (oe_mem e))"
definition oe_rdns :: "out_email \<Rightarrow> byte list" where "oe_rdns e = cstr (drop 256 (oe_mem e))"
definition oe_addrFrom :: "out_email \<Rightarrow> byte list" where "oe_addrFrom e = cstr (drop 384 (oe_mem e))"
definition oe_addrTo :: "out_email \<Rightarrow> byte list" where "oe_addrTo e = cstr (drop 409 (oe_mem e))"
definition oe_replyId :: "out_email \<Rightarrow> byte list" where "oe_replyId e = cstr (drop 537 (oe_mem e))"
definition oe_subject :: "out_email \<Rightarrow> byte list" where "oe_subject e = cstr (drop 665 (oe_mem e))"
definition oe_rsaKey :: "out_email \<Rightarrow> byte list" where "oe_rsaKey e = drop 793 (oe_mem e)"

text \<open>\<^verbatim>\<open>struct outInfo\<close>; the texts with their lengths.\<close>

record out_info =
  oi_timestamp :: u32
  oi_greeting :: "byte list"
  oi_status :: "byte list"

section \<open>Surroundings\<close>

record mail_ext =
  mx_sha256 :: "byte list \<Rightarrow> byte list option"
  mx_base64 :: "byte list \<Rightarrow> byte list"
  mx_rsa_size :: "byte list \<Rightarrow> nat option"
  mx_rsa :: "byte list \<Rightarrow> byte list \<Rightarrow> byte list option"
  mx_aes :: "byte list \<Rightarrow> byte list \<Rightarrow> byte list option"
  mx_rnd :: "byte list"
  mx_nsec :: nat
  mx_time :: u32
  mx_rfctime :: "byte list option"
  mx_keys :: msgid_keys
  mx_domain :: "byte list"
  mx_alloc :: bool

text \<open>The other server: whether a socket and a TLS object are there, whether the handshake succeeds,
  whether the last text of what was sent so far got through and what is received after it.  A sent
  text comes with a mark that says whether the connection was encrypted.\<close>

type_synonym sent = "(bool \<times> byte list) list"

record mail_srv =
  sv_ssl :: bool
  sv_sock :: bool
  sv_tls :: bool
  sv_through :: "sent \<Rightarrow> bool"
  sv_reply :: "sent \<Rightarrow> byte list option"

section \<open>The signature\<close>

definition asn1_sha256 :: "byte list" where
  "asn1_sha256 = [0x30,0x31,0x30,0x0D,0x06,0x09,0x60,0x86,0x48,0x01,0x65,0x03,0x04,0x02,0x01,0x05,0x00,0x04,0x20]"

definition rsa_block :: "nat \<Rightarrow> byte list \<Rightarrow> byte list" where
  "rsa_block lenSig hash = [0, 1] @ replicate (lenSig - 32 - 22) 0xFF @ [0] @ asn1_sha256 @ hash"

datatype sig_res = Sig_Undefined | Sig_None | Sig "byte list"

text \<open>The size of the key is not looked at: below 256 bytes the encoder reads behind the signature.\<close>

definition rsa_sign_b64 :: "mail_ext \<Rightarrow> byte list \<Rightarrow> byte list \<Rightarrow> sig_res" where
  "rsa_sign_b64 x hash rsaKey =
     (case mx_rsa_size x rsaKey of
        None \<Rightarrow> Sig_None
      | Some lenSig \<Rightarrow>
          if lenSig < 54 then Sig_Undefined
          else case mx_rsa x rsaKey (rsa_block lenSig hash) of
            None \<Rightarrow> Sig_None
          | Some sig \<Rightarrow> if length sig < 256 then Sig_Undefined else Sig (mx_base64 x (take 256 sig)))"

section \<open>The email\<close>

text \<open>\<^verbatim>\<open>%u\<close> of \<^verbatim>\<open>sprintf\<close>.\<close>

fun decimal :: "nat \<Rightarrow> byte list" where
  "decimal n = (if n < 10 then [48 + of_nat n] else decimal (n div 10) @ [48 + of_nat (n mod 10)])"

declare decimal.simps [simp del]

definition mail_ref :: "out_email \<Rightarrow> byte list" where
  "mail_ref e =
     (if length (oe_replyId e) > 5
      then str ''References: <'' @ oe_replyId e @ str ''>'' @ crlf @
           str ''In-Reply-To: <'' @ oe_replyId e @ str ''>'' @ crlf
      else [])"

text \<open>The headers in front of the signature, and the signature's own up to \<^verbatim>\<open>b=\<close>.\<close>

definition mail_plain :: "mail_ext \<Rightarrow> out_email \<Rightarrow> byte list \<Rightarrow> byte list \<Rightarrow> byte list" where
  "mail_plain x e rfctime msgId =
     mail_ref e
     @ str ''From: '' @ oe_addrFrom e @ str ''@'' @ mx_domain x @ crlf
     @ str ''Date: '' @ rfctime @ crlf
     @ str ''Message-ID: <'' @ cstr (take 26 msgId) @ str ''@'' @ mx_domain x @ str ''>'' @ crlf
     @ str ''Subject: '' @ oe_subject e @ crlf
     @ str ''To: '' @ oe_addrTo e @ crlf"

definition mail_dkim :: "mail_ext \<Rightarrow> out_email \<Rightarrow> byte list \<Rightarrow> byte list" where
  "mail_dkim x e bodyHashB64 =
     str ''DKIM-Signature: v=1; a=rsa-sha256; c=simple/simple; d='' @ mx_domain x
     @ str ''; i='' @ oe_addrFrom e @ str ''@'' @ mx_domain x
     @ str ''; q=dns/txt; s='' @ str (if oe_isAdmin e then ''admin'' else ''users'')
     @ str ''; t='' @ decimal (unat (mx_time x)) @ str ''; x='' @ decimal (unat (mx_time x + 86400))
     @ str ''; h=References:In-Reply-To:From:Date:Message-ID:Subject:To:Cc:Content-Type:MIME-Version:Reply-To:Sender; bh=''
     @ bodyHashB64 @ str ''; b=''"

text \<open>The body with doubled dots; the first argument is the last byte written.\<close>

fun stuff_out :: "byte \<Rightarrow> byte list \<Rightarrow> byte list" where
  "stuff_out l [] = []"
| "stuff_out l (c # cs) =
     (if c = 46 \<and> l = 10 then 46 # 46 # stuff_out 46 cs else c # stuff_out c cs)"

datatype mail_res = Mail_Undefined | Mail_None | Mail "byte list"

text \<open>The headers are written, signed and turned around in place: the plain ones are first copied behind
  the signature.  \<open>mail_peak\<close> is how far that goes; the buffer has 2000 bytes more than the body.\<close>

definition mail_peak :: "byte list \<Rightarrow> nat \<Rightarrow> byte list \<Rightarrow> nat" where
  "mail_peak hdr d final = max (length hdr + d) (length final)"

definition createEmail :: "mail_ext \<Rightarrow> out_email \<Rightarrow> mail_res" where
  "createEmail x e =
     (case mx_sha256 x (oe_body e) of None \<Rightarrow> Mail_None | Some bodyHash \<Rightarrow>
      let msgId = genMsgId (mx_aes x) (mx_rnd x) (mx_keys x) (mx_time x) (oe_uid e) (mx_nsec x) (oe_fromAddr32 e) True
      in case mx_rfctime x of None \<Rightarrow> Mail_None | Some rfctime \<Rightarrow>
      if \<not> mx_alloc x then Mail_None else
      let text = mail_plain x e rfctime msgId @ mail_dkim x e (mx_base64 x bodyHash)
      in case mx_sha256 x text of None \<Rightarrow> Mail_None | Some headHash \<Rightarrow>
      case rsa_sign_b64 x headHash (take (oe_lenRsaKey e) (oe_rsaKey e)) of
        Sig_Undefined \<Rightarrow> Mail_Undefined
      | Sig_None \<Rightarrow> Mail_None
      | Sig sig \<Rightarrow>
          let hdr = text @ sig @ crlf
          in case memmem hdr (str (CHR 0x0A # ''DKIM-Signature:'')) of
            None \<Rightarrow> Mail_Undefined
          | Some k \<Rightarrow>
              let d = k + 1; turned = drop d hdr @ take d hdr @ crlf;
                  final = turned @ stuff_out (last turned) (oe_body e) @ [46] @ crlf
              in if mail_peak hdr d final > 2000 + length (oe_body e) then Mail_Undefined else Mail final)"

section \<open>The session\<close>

text \<open>The state of a session: what was noted for the report and what was sent.  A step fails with the
  result for the user, or goes on with the bytes received.\<close>

datatype cmd_res = Cmd_Undefined | Cmd_Fail out_info sent | Cmd_Ok out_info sent "byte list"

definition smtp_quit :: "bool \<Rightarrow> sent \<Rightarrow> sent" where
  "smtp_quit tls l = l @ [(tls, str ''QUIT'' @ crlf)]"

text \<open>A failing \<^verbatim>\<open>recv\<close> makes \<^verbatim>\<open>lenStatus\<close> negative and the copy one of nearly \<^verbatim>\<open>SIZE_MAX\<close> bytes.\<close>

definition smtpCommand ::
  "mail_srv \<Rightarrow> bool \<Rightarrow> byte list \<Rightarrow> byte list \<Rightarrow> out_info \<Rightarrow> sent \<Rightarrow> cmd_res" where
  "smtpCommand sv tls text expected info l =
     (let l = (if text = [] then l else l @ [(tls, text)])
      in if text \<noteq> [] \<and> \<not> sv_through sv l then Cmd_Fail info l
      else case sv_reply sv l of
        None \<Rightarrow> Cmd_Undefined
      | Some r \<Rightarrow>
          let buf = take 1024 r; info = info\<lparr>oi_status := take 127 buf\<rparr>
          in if length buf < 6 \<or> take (length expected) buf \<noteq> expected \<or> drop (length buf - 2) buf \<noteq> crlf
             then Cmd_Fail info (smtp_quit tls l)
             else Cmd_Ok info l buf)"

type_synonym session_res = "(byte \<times> out_info \<times> sent) option"

definition and_then :: "cmd_res \<Rightarrow> byte \<Rightarrow> (out_info \<Rightarrow> sent \<Rightarrow> byte list \<Rightarrow> session_res) \<Rightarrow> session_res" where
  "and_then r err k =
     (case r of Cmd_Undefined \<Rightarrow> None
      | Cmd_Fail info l \<Rightarrow> Some (err, info, l)
      | Cmd_Ok info l buf \<Rightarrow> k info l buf)"

definition AEM_API_ERR_MESSAGE_CREATE_SENDMAIL_GREET :: byte where
  "AEM_API_ERR_MESSAGE_CREATE_SENDMAIL_GREET = 0xF0"
definition AEM_API_ERR_MESSAGE_CREATE_SENDMAIL_EHLO :: byte where
  "AEM_API_ERR_MESSAGE_CREATE_SENDMAIL_EHLO = 0xF1"
definition AEM_API_ERR_MESSAGE_CREATE_SENDMAIL_STLS :: byte where
  "AEM_API_ERR_MESSAGE_CREATE_SENDMAIL_STLS = 0xF2"
definition AEM_API_ERR_MESSAGE_CREATE_SENDMAIL_SHAKE :: byte where
  "AEM_API_ERR_MESSAGE_CREATE_SENDMAIL_SHAKE = 0xF3"
definition AEM_API_ERR_MESSAGE_CREATE_SENDMAIL_NOTLS :: byte where
  "AEM_API_ERR_MESSAGE_CREATE_SENDMAIL_NOTLS = 0xF4"
definition AEM_API_ERR_MESSAGE_CREATE_SENDMAIL_MAIL :: byte where
  "AEM_API_ERR_MESSAGE_CREATE_SENDMAIL_MAIL = 0xF5"
definition AEM_API_ERR_MESSAGE_CREATE_SENDMAIL_RCPT :: byte where
  "AEM_API_ERR_MESSAGE_CREATE_SENDMAIL_RCPT = 0xF6"
definition AEM_API_ERR_MESSAGE_CREATE_SENDMAIL_DATA :: byte where
  "AEM_API_ERR_MESSAGE_CREATE_SENDMAIL_DATA = 0xF7"
definition AEM_API_ERR_MESSAGE_CREATE_SENDMAIL_BODY :: byte where
  "AEM_API_ERR_MESSAGE_CREATE_SENDMAIL_BODY = 0xF8"

definition txt_ehlo :: "mail_ext \<Rightarrow> byte list" where "txt_ehlo x = str ''EHLO '' @ mx_domain x @ crlf"
definition txt_from :: "mail_ext \<Rightarrow> out_email \<Rightarrow> byte list" where
  "txt_from x e = str ''MAIL FROM: <'' @ oe_addrFrom e @ str ''@'' @ mx_domain x @ str ''>'' @ crlf"
definition txt_to :: "out_email \<Rightarrow> byte list" where
  "txt_to e = str ''RCPT TO: <'' @ oe_addrTo e @ str ''>'' @ crlf"

text \<open>The email itself, behind the reply to the data command.\<close>

definition mail_data :: "mail_ext \<Rightarrow> mail_srv \<Rightarrow> out_email \<Rightarrow> out_info \<Rightarrow> sent \<Rightarrow> session_res" where
  "mail_data x sv e info l =
     (case createEmail x e of
       Mail_Undefined \<Rightarrow> None
     | Mail_None \<Rightarrow> Some (AEM_API_ERR_INTERNAL, info, smtp_quit True l)
     | Mail msg \<Rightarrow>
         and_then (smtpCommand sv True msg (str ''250'') info l) AEM_API_ERR_MESSAGE_CREATE_SENDMAIL_BODY (\<lambda>info l buf.
           Some (AEM_API_STATUS_OK, info, smtp_quit True l)))"

text \<open>Behind the handshake.\<close>

definition sendMail_tls :: "mail_ext \<Rightarrow> mail_srv \<Rightarrow> out_email \<Rightarrow> out_info \<Rightarrow> sent \<Rightarrow> session_res" where
  "sendMail_tls x sv e info l =
     and_then (smtpCommand sv True (txt_ehlo x) (str ''250'') info l) AEM_API_ERR_MESSAGE_CREATE_SENDMAIL_EHLO (\<lambda>info l buf.
     and_then (smtpCommand sv True (txt_from x e) (str ''250'') info l) AEM_API_ERR_MESSAGE_CREATE_SENDMAIL_MAIL (\<lambda>info l buf.
     and_then (smtpCommand sv True (txt_to e) (str ''250'') info l) AEM_API_ERR_MESSAGE_CREATE_SENDMAIL_RCPT (\<lambda>info l buf.
     and_then (smtpCommand sv True (str ''DATA'' @ crlf) (str ''354'') info l) AEM_API_ERR_MESSAGE_CREATE_SENDMAIL_DATA (\<lambda>info l buf.
     mail_data x sv e info l))))"

text \<open>The greeting is copied up to 256 bytes into an array of 127.\<close>

definition sendMail :: "mail_ext \<Rightarrow> mail_srv \<Rightarrow> out_email \<Rightarrow> out_info \<Rightarrow> session_res" where
  "sendMail x sv e info =
     (if \<not> sv_ssl sv \<or> \<not> sv_sock sv then Some (AEM_API_ERR_INTERNAL, info, [])
      else and_then (smtpCommand sv False [] (str ''220 '') info []) AEM_API_ERR_MESSAGE_CREATE_SENDMAIL_GREET (\<lambda>info l buf.
        let lenGreeting = min (length buf - 6) 256
        in if lenGreeting > 127 then None
        else let info = info\<lparr>oi_greeting := take lenGreeting (drop 4 buf)\<rparr> in
        and_then (smtpCommand sv False (txt_ehlo x) (str ''250'') info l) AEM_API_ERR_MESSAGE_CREATE_SENDMAIL_EHLO (\<lambda>info l buf.
        if memcasemem (cstr buf) (str ''STARTTLS'') = None then Some (AEM_API_ERR_MESSAGE_CREATE_SENDMAIL_NOTLS, info, smtp_quit False l)
        else and_then (smtpCommand sv False (str ''STARTTLS'' @ crlf) (str ''220'') info l) AEM_API_ERR_MESSAGE_CREATE_SENDMAIL_STLS (\<lambda>info l buf.
        if \<not> sv_tls sv then Some (AEM_API_ERR_MESSAGE_CREATE_SENDMAIL_SHAKE, info, smtp_quit False l)
        else sendMail_tls x sv e info l))))"

end
