(* ===== verification/Api.thy ===== *)
theory Api
  imports Api_Mail IntCom Utf8 Account_IO
begin

text \<open>
  AEM-API: the request line (\<^verbatim>\<open>src/api/Request.c\<close>), the processing of a request (\<^verbatim>\<open>post.c\<close>) and the responses
  (\<^verbatim>\<open>Respond.c\<close>), without TLS.

  The state of a request is the part of it not yet read, the response key, the calls made to the other
  processes and what was sent to the client.  The other processes are one function from the calls made
  so far to the result of the last of them, so that a reply may depend on everything that went before.
  Undefined behaviour (an array of negative length, a write behind an array) is \<open>None\<close>.
\<close>

section \<open>State and surroundings\<close>

type_synonym ic_call = "nat \<times> nat \<times> byte list"

record api_st =
  as_in :: "byte list"
  as_rbk :: "byte list"
  as_calls :: "ic_call list"
  as_out :: "byte list list"

record api_world =
  aw_ic :: "ic_call list \<Rightarrow> int \<times> byte list option"
  aw_now :: int
  aw_mem :: "nat \<Rightarrow> bool"
  aw_rnd :: "nat \<Rightarrow> byte list"
  aw_enc :: "byte list \<Rightarrow> byte list \<Rightarrow> byte list \<Rightarrow> byte list"
  aw_dec :: "byte list \<Rightarrow> byte list \<Rightarrow> byte list \<Rightarrow> byte list option"
  aw_peek :: nat
  aw_b64 :: "byte list \<Rightarrow> byte list"
  aw_domain :: "byte list"
  aw_mail :: mail_ext
  aw_srv :: mail_srv

definition AEM_INTCOM_SERVER_ACC :: nat where "AEM_INTCOM_SERVER_ACC = 0"
definition AEM_INTCOM_SERVER_ENQ :: nat where "AEM_INTCOM_SERVER_ENQ = 1"
definition AEM_INTCOM_SERVER_STO :: nat where "AEM_INTCOM_SERVER_STO = 2"

definition ic_call :: "api_world \<Rightarrow> nat \<Rightarrow> nat \<Rightarrow> byte list \<Rightarrow> api_st \<Rightarrow> (int \<times> byte list option) \<times> api_st" where
  "ic_call w server operation msg s =
     (let calls = as_calls s @ [(server, operation, msg)] in (aw_ic w calls, s\<lparr>as_calls := calls\<rparr>))"

definition send_out :: "byte list \<Rightarrow> api_st \<Rightarrow> api_st" where
  "send_out bs s = s\<lparr>as_out := as_out s @ [bs]\<rparr>"

text \<open>\<^verbatim>\<open>recv\<close> with \<^verbatim>\<open>MSG_WAITALL\<close>.\<close>

definition recv_all :: "nat \<Rightarrow> api_st \<Rightarrow> byte list \<times> api_st" where
  "recv_all n s = (take n (as_in s), s\<lparr>as_in := drop n (as_in s)\<rparr>)"

definition AEM_API_ERR_POST :: byte where
  "AEM_API_ERR_POST = 0xA3"
definition AEM_API_ERR_RECV :: byte where
  "AEM_API_ERR_RECV = 0xA4"
definition AEM_API_ERR_DECRYPT :: byte where
  "AEM_API_ERR_DECRYPT = 0xA5"
definition AEM_API_ERR_MESSAGE_BROWSE_NOMORE :: byte where
  "AEM_API_ERR_MESSAGE_BROWSE_NOMORE = 0xB0"
definition AEM_API_ERR_MESSAGE_BROWSE_NOTFOUND :: byte where
  "AEM_API_ERR_MESSAGE_BROWSE_NOTFOUND = 0xB1"
definition AEM_API_ERR_MESSAGE_DELETE_NOTFOUND :: byte where
  "AEM_API_ERR_MESSAGE_DELETE_NOTFOUND = 0xB2"
definition AEM_API_ERR_MESSAGE_CREATE_EXT_HDR_ADTO :: byte where
  "AEM_API_ERR_MESSAGE_CREATE_EXT_HDR_ADTO = 0xE2"
definition AEM_API_ERR_MESSAGE_CREATE_EXT_HDR_RPLY :: byte where
  "AEM_API_ERR_MESSAGE_CREATE_EXT_HDR_RPLY = 0xE3"
definition AEM_API_ERR_MESSAGE_CREATE_EXT_HDR_SUBJ :: byte where
  "AEM_API_ERR_MESSAGE_CREATE_EXT_HDR_SUBJ = 0xE4"
definition AEM_API_ERR_MESSAGE_CREATE_EXT_BDY_UTF8 :: byte where
  "AEM_API_ERR_MESSAGE_CREATE_EXT_BDY_UTF8 = 0xE5"
definition AEM_API_ERR_MESSAGE_CREATE_EXT_BDY_CTRL :: byte where
  "AEM_API_ERR_MESSAGE_CREATE_EXT_BDY_CTRL = 0xE6"
definition AEM_API_ERR_MESSAGE_CREATE_EXT_BDY_SIZE :: byte where
  "AEM_API_ERR_MESSAGE_CREATE_EXT_BDY_SIZE = 0xE7"
definition AEM_API_ERR_MESSAGE_CREATE_EXT_BDY_LONG :: byte where
  "AEM_API_ERR_MESSAGE_CREATE_EXT_BDY_LONG = 0xE8"

section \<open>Responses (Respond.c)\<close>

definition http_empty :: "string \<Rightarrow> byte list" where
  "http_empty code = str ''HTTP/1.0 '' @ str code @ str '' aem'' @ crlf @ str ''Content-Length: 0'' @ crlf @
     str ''Access-Control-Allow-Origin: *'' @ crlf @ crlf"

definition respond400 :: "api_st \<Rightarrow> api_st" where "respond400 = send_out (http_empty ''400'')"
definition respond403 :: "api_st \<Rightarrow> api_st" where "respond403 = send_out (http_empty ''403'')"
definition respond404 :: "api_st \<Rightarrow> api_st" where "respond404 = send_out (http_empty ''404'')"
definition respond408 :: "api_st \<Rightarrow> api_st" where "respond408 = send_out (http_empty ''408'')"
definition respond500 :: "api_st \<Rightarrow> api_st" where "respond500 = send_out (http_empty ''500'')"

definition setRbk :: "byte list \<Rightarrow> api_st \<Rightarrow> api_st" where "setRbk k s = s\<lparr>as_rbk := take 32 k\<rparr>"
definition clrRbk :: "api_st \<Rightarrow> api_st" where "clrRbk s = s\<lparr>as_rbk := replicate 32 0\<rparr>"

definition numDigits :: "nat \<Rightarrow> nat" where
  "numDigits x = (if x < 100 then 2 else if x < 1000 then 3 else if x < 10000 then 4
     else if x < 100000 then 5 else if x < 1000000 then 6 else 7)"

definition http_ok :: "nat \<Rightarrow> byte list" where
  "http_ok n = str ''HTTP/1.0 200 aem'' @ crlf @ str ''Content-Length: '' @ decimal n @ crlf @
     str ''Access-Control-Allow-Origin: *'' @ crlf @ crlf"

text \<open>The length of the padding comes first, the padding last.  The response is an array that \<^verbatim>\<open>sprintf\<close> fills
  from the start, with a zero byte behind the text, and the encryption from \<^verbatim>\<open>lenHeaders\<close> on.\<close>

definition api_pad :: "api_world \<Rightarrow> byte list \<Rightarrow> byte list" where
  "api_pad w data =
     (let lenPadding = (if length data mod 256 = 0 then 0 else 256 - length data mod 256)
      in of_nat lenPadding # data @ aw_rnd w lenPadding)"

definition apiResponse :: "api_world \<Rightarrow> byte list \<Rightarrow> api_st \<Rightarrow> api_st" where
  "apiResponse w data s =
     (if \<not> aw_mem w 1 then respond500 s
      else let padded = api_pad w data; lenFinal = length padded + 16; lenHeaders = 70 + numDigits lenFinal;
               response = replicate (lenHeaders + lenFinal) 0;
               response = write_at 0 (http_ok lenFinal @ [0]) response;
               response = write_at lenHeaders (aw_enc w (as_rbk s) (replicate 12 0) padded) response
           in send_out response s)"

section \<open>Browsing (post.c)\<close>

definition message_browse :: "api_world \<Rightarrow> u16 \<Rightarrow> byte \<Rightarrow> byte list \<Rightarrow> byte list \<Rightarrow> api_st \<Rightarrow> api_st option" where
  "message_browse w uid flags urlData accData s =
     (let haveMsgId = \<not> is_zero urlData;
          stoParam = le_bytes 2 (unat uid) @ (if haveMsgId then take 2 urlData else [])
      in case ic_call w AEM_INTCOM_SERVER_STO (if flags AND 1 \<noteq> 0 then 65534 else 65535) stoParam s of
        ((stoRet, stoData), s) \<Rightarrow>
          if stoRet = code_int IC_NOTEXIST then Some (apiResponse w [AEM_API_ERR_MESSAGE_BROWSE_NOTFOUND] s)
          else if stoRet = code_int IC_OK then Some (apiResponse w [AEM_API_ERR_MESSAGE_BROWSE_NOMORE] s)
          else if stoRet < 8 \<or> stoRet > int AEM_EVP_MAXSIZE then Some (apiResponse w [AEM_API_ERR_INTERNAL] s)
          else case stoData of
            None \<Rightarrow> None
          | Some d \<Rightarrow>
              if accData = [] then Some (apiResponse w (take (nat stoRet) d) s)
              else if \<not> aw_mem w 0 then Some (apiResponse w [AEM_API_ERR_INTERNAL] s)
              else Some (apiResponse w (accData @ aw_domain w @ take (nat stoRet) d) s))"

section \<open>Email to other servers (post.c)\<close>

text \<open>A line of at least \<^verbatim>\<open>min\<close> and at most 127 printable bytes, and what follows it.\<close>

definition cpyEmail :: "byte list \<Rightarrow> nat \<Rightarrow> (byte list \<times> byte list) option" where
  "cpyEmail src least =
     (let t = takeWhile (\<lambda>b. b \<noteq> 10) src
      in if length t = length src \<or> length t < least \<or> length t > 127 \<or> \<not> list_all (\<lambda>b. 32 \<le> b \<and> b < 127) t
         then None else Some (t, drop (length t + 1) src))"

definition reply_chars :: "byte list" where
  "reply_chars = str ''0123456789ABCDEFGHIJKLMNOPQRSTUVWXYZabcdefghijklmnopqrstuvwxyz$%+-.=@_''"

text \<open>The body: \<open>n\<close> is \<^verbatim>\<open>lineLength\<close>, \<open>out\<close> what is written so far, \<open>most\<close> the length it may not exceed.\<close>

fun body_loop :: "nat \<Rightarrow> nat \<Rightarrow> byte list \<Rightarrow> byte list \<Rightarrow> byte + byte list" where
  "body_loop most n out [] = Inr out"
| "body_loop most n out (c # src) =
     (if c = 10 then
        (let out = out @ crlf
         in if length out > most then Inl AEM_API_ERR_MESSAGE_CREATE_EXT_BDY_SIZE else body_loop most 0 out src)
      else if (c < 32 \<and> c \<noteq> 9) \<or> c = 127 then Inl AEM_API_ERR_MESSAGE_CREATE_EXT_BDY_CTRL
      else if c > 127 then Inl AEM_API_ERR_INTERNAL
      else if n + 1 > 998 then Inl AEM_API_ERR_MESSAGE_CREATE_EXT_BDY_LONG
      else (let out = out @ [c]
            in if length out > most then Inl AEM_API_ERR_MESSAGE_CREATE_EXT_BDY_SIZE else body_loop most (n + 1) out src))"

text \<open>\<^verbatim>\<open>while (email.lenBody > 0 && isspace(...)) email.lenBody--\<close>.\<close>

definition rtrim :: "byte list \<Rightarrow> byte list" where
  "rtrim bs = rev (dropWhile is_space (rev bs))"

definition email_body :: "bool \<Rightarrow> byte list \<Rightarrow> byte + byte list" where
  "email_body mem src =
     (if length src < 5 \<or> length src > 99999 then Inl AEM_API_ERR_MESSAGE_CREATE_EXT_BDY_SIZE
      else if \<not> isValidUtf8 src then Inl AEM_API_ERR_MESSAGE_CREATE_EXT_BDY_UTF8
      else if \<not> mem then Inl AEM_API_ERR_INTERNAL
      else case body_loop (length src + 950) 0 [] src of
        Inl err \<Rightarrow> Inl err
      | Inr out \<Rightarrow>
          let body = rtrim out @ crlf
          in if length body < 15 then Inl AEM_API_ERR_MESSAGE_CREATE_EXT_BDY_SIZE else Inr body)"

text \<open>A zeroed array of \<open>n\<close> characters that holds the text \<open>t\<close>.\<close>

definition char_array :: "nat \<Rightarrow> byte list \<Rightarrow> byte list" where
  "char_array n t = t @ replicate (n - length t) 0"

definition AEM_MAXLEN_OURDOMAIN :: nat where "AEM_MAXLEN_OURDOMAIN = 32"

definition setOurDomain :: "byte list \<Rightarrow> byte list" where
  "setOurDomain d = char_array AEM_MAXLEN_OURDOMAIN d"

text \<open>The email of a request, before AEM-Enquiry is asked; the address of the sender is given to
  \<^verbatim>\<open>addr32_store\<close> with the zero bytes behind it.\<close>

definition make_email :: "bool \<Rightarrow> u16 \<Rightarrow> bool \<Rightarrow> byte list \<Rightarrow> byte list \<Rightarrow> byte list \<Rightarrow> byte + out_email" where
  "make_email mem uid isAdmin rsaKey urlData src =
     (case cpyEmail src 5 of None \<Rightarrow> Inl AEM_API_ERR_MESSAGE_CREATE_EXT_HDR_ADTO | Some (addrTo, src) \<Rightarrow>
      case cpyEmail src 0 of None \<Rightarrow> Inl AEM_API_ERR_MESSAGE_CREATE_EXT_HDR_RPLY | Some (replyId, src) \<Rightarrow>
      case cpyEmail src 2 of None \<Rightarrow> Inl AEM_API_ERR_MESSAGE_CREATE_EXT_HDR_SUBJ | Some (subject, src) \<Rightarrow>
      if \<not> list_all (List.member reply_chars) replyId then Inl AEM_API_ERR_MESSAGE_CREATE_EXT_HDR_RPLY
      else case email_body mem src of Inl err \<Rightarrow> Inl err | Inr body \<Rightarrow>
      Inr \<lparr>oe_mem = replicate 384 0 @ char_array 25 urlData @ char_array 128 addrTo @ char_array 128 replyId
             @ char_array 128 subject @ char_array 2048 rsaKey,
           oe_uid = uid, oe_isAdmin = isAdmin, oe_ip = replicate 4 0, oe_cc = 0,
           oe_fromAddr32 = addr32_store (take 24 (char_array 25 urlData)),
           oe_lenRsaKey = length rsaKey, oe_body = body\<rparr>)"

text \<open>The reply of AEM-Enquiry is copied over the email from its first field on.\<close>

definition use_enquiry :: "byte list \<Rightarrow> out_email \<Rightarrow> out_email option" where
  "use_enquiry enq e =
     (if length enq - 6 > LEN_OE_MEM then None
      else Some (e\<lparr>oe_ip := take 4 enq, oe_cc := of_nat (le_read (take 2 (drop 4 enq))),
                   oe_mem := write_at 0 (drop 6 enq) (oe_mem e)\<rparr>))"

definition delivery_report :: "int \<Rightarrow> out_email \<Rightarrow> out_info \<Rightarrow> byte list" where
  "delivery_report t e info =
     aem_msg_init (of_int t) AEM_MSG_TYPE_OUT 0
     @ [of_nat (length (oe_subject e))] @ oe_ip e @ [0, 0]
     @ [0, ucast (oe_cc e AND 31), ucast (drop_bit 8 (oe_cc e) AND 31),
        of_nat (length (oe_addrFrom e)), of_nat (length (oe_addrTo e)), of_nat (length (oe_mxDomain e)),
        of_nat (length (oe_asn e)), of_nat (length (oe_rdns e)),
        of_nat (length (oi_greeting info)), of_nat (length (oi_status info))]
     @ oe_addrFrom e @ oe_addrTo e @ oe_mxDomain e @ oe_asn e @ oe_rdns e
     @ oi_greeting info @ oi_status info @ oe_subject e @ oe_body e"

definition send_email ::
  "api_world \<Rightarrow> u16 \<Rightarrow> bool \<Rightarrow> byte list \<Rightarrow> byte list \<Rightarrow> byte list \<Rightarrow> api_st \<Rightarrow> (byte \<times> api_st) option" where
  "send_email w uid isAdmin rsaKey urlData src s =
     (if length rsaKey > 2048 then None
      else case make_email (aw_mem w 3) uid isAdmin rsaKey urlData src of
        Inl err \<Rightarrow> Some (err, s)
      | Inr e \<Rightarrow>
      let emailDomain = dropWhile (\<lambda>b. b \<noteq> 64) (tl (oe_addrTo e))
      in if length emailDomain < 5 then Some (AEM_API_ERR_MESSAGE_CREATE_EXT_HDR_ADTO, s)
      else case ic_call w AEM_INTCOM_SERVER_ENQ 0 (tl emailDomain) s of
        ((lenEnq, enq), s) \<Rightarrow>
          if lenEnq < 12 \<or> enq = None then Some (AEM_API_ERR_INTERNAL, s)
          else case use_enquiry (take (nat lenEnq) (the enq)) e of
            None \<Rightarrow> None
          | Some e \<Rightarrow>
              (case sendMail (aw_mail w) (aw_srv w) e \<lparr>oi_timestamp = of_int (aw_now w), oi_greeting = [], oi_status = []\<rparr> of
                 None \<Rightarrow> None
               | Some (ret, info, log) \<Rightarrow>
                   (case ic_call w AEM_INTCOM_SERVER_STO (unat uid) (delivery_report (aw_now w) e info) s of
                      ((icRet, _), s) \<Rightarrow>
                        Some (if icRet = AEM_INTCOM_RESPONSE_ERR then AEM_API_ERR_INTERNAL else AEM_API_STATUS_OK, s))))"

section \<open>Internal and public mail, uploads, deletion (post.c)\<close>

text \<open>\<^verbatim>\<open>send_imail\<close> copies 20 bytes from the 16 of \<^verbatim>\<open>urlData\<close>; \<open>behind\<close> are the bytes behind these in the memory.\<close>

definition send_imail :: "api_world \<Rightarrow> u16 \<Rightarrow> byte list \<Rightarrow> byte list \<Rightarrow> byte list \<Rightarrow> bool \<Rightarrow> api_st \<Rightarrow> byte \<times> api_st" where
  "send_imail w uid urlData behind src e2ee s =
     (let msg = aem_msg_init (of_int (aw_now w)) AEM_MSG_TYPE_INT 0 @ [if e2ee then 64 else 0, 0xFF, 0xFF]
            @ take 20 (urlData @ behind) @ src
      in case ic_call w AEM_INTCOM_SERVER_STO (unat uid) msg s of
        ((icRet, _), s) \<Rightarrow> (if icRet = AEM_INTCOM_RESPONSE_ERR then AEM_API_ERR_INTERNAL else AEM_API_STATUS_OK, s))"

fun send_all :: "api_world \<Rightarrow> u16 list \<Rightarrow> byte list \<Rightarrow> bool \<Rightarrow> api_st \<Rightarrow> bool \<times> api_st" where
  "send_all w [] msg ok s = (ok, s)"
| "send_all w (uid # uids) msg ok s =
     (case ic_call w AEM_INTCOM_SERVER_STO (unat uid) msg s of
        ((icRet, _), s) \<Rightarrow> send_all w uids msg (ok \<and> icRet \<noteq> AEM_INTCOM_RESPONSE_ERR) s)"

definition send_pmail :: "api_world \<Rightarrow> u16 list \<Rightarrow> byte list \<Rightarrow> byte list \<Rightarrow> api_st \<Rightarrow> byte \<times> api_st" where
  "send_pmail w uids urlData src s =
     (let msg = aem_msg_init (of_int (aw_now w)) AEM_MSG_TYPE_INT 0 @ [128] @ take 10 urlData @ src
      in case send_all w uids msg True s of (ok, s) \<Rightarrow> (if ok then AEM_API_STATUS_OK else AEM_API_ERR_INTERNAL, s))"

text \<open>The bytes as an array of 16-bit numbers.\<close>

fun u16s :: "byte list \<Rightarrow> u16 list" where
  "u16s (a # b # bs) = of_nat (le_read [a, b]) # u16s bs"
| "u16s _ = []"

definition message_create ::
  "api_world \<Rightarrow> byte \<Rightarrow> byte list \<Rightarrow> byte list \<Rightarrow> byte list \<Rightarrow> byte list \<Rightarrow> api_st \<Rightarrow> (byte \<times> api_st) option" where
  "message_create w flags cuid urlData behind src s =
     (if cuid = [] then Some (AEM_API_ERR_INTERNAL, s)
      else if length cuid = 1 then Some (cuid ! 0, s)
      else let uid = of_nat (le_read (take 2 cuid)) AND 4095
      in if flags AND 1 \<noteq> 0 \<and> length cuid > 2 then
           send_email w uid (cuid ! 1 AND 128 \<noteq> 0) (drop 2 cuid) urlData src s
      else if flags AND 4 \<noteq> 0 then Some (send_pmail w (u16s cuid) urlData src s)
      else if length cuid = 2 then Some (send_imail w uid urlData behind src (flags = 2) s)
      else Some (AEM_API_ERR_INTERNAL, s))"

definition message_delete :: "api_world \<Rightarrow> u16 \<Rightarrow> byte list \<Rightarrow> byte \<Rightarrow> api_st \<Rightarrow> byte \<times> api_st" where
  "message_delete w uid urlData flags s =
     (case ic_call w AEM_INTCOM_SERVER_STO (AEM_USERCOUNT + unat uid) (take (if flags = 1 then 1 else 2) urlData) s of
        ((icRet, _), s) \<Rightarrow>
          (if icRet = code_int IC_NOTEXIST then AEM_API_ERR_MESSAGE_DELETE_NOTFOUND
           else if icRet = code_int IC_OK then AEM_API_STATUS_OK else AEM_API_ERR_INTERNAL, s))"

definition message_upload :: "api_world \<Rightarrow> u16 \<Rightarrow> byte list \<Rightarrow> byte list \<Rightarrow> api_st \<Rightarrow> byte \<times> api_st" where
  "message_upload w uid urlData src s =
     (let msg = aem_msg_init (of_int (aw_now w)) AEM_MSG_TYPE_UPL 0 @ [hd urlData AND 127]
            @ take (AEM_API_REQ_DATA_LEN - 1) (tl urlData) @ src
      in case ic_call w AEM_INTCOM_SERVER_STO (unat uid) msg s of
        ((icRet, _), s) \<Rightarrow> (if icRet = code_int IC_OK then AEM_API_STATUS_OK else AEM_API_ERR_INTERNAL, s))"

section \<open>Processing a request (post.c)\<close>

text \<open>\<^verbatim>\<open>strtol\<close> to base ten on a 64-bit system.\<close>

definition digits_value :: "byte list \<Rightarrow> nat" where
  "digits_value ds = foldl (\<lambda>v d. 10 * v + unat (d - 48)) 0 ds"

definition strtol10 :: "byte list \<Rightarrow> int" where
  "strtol10 t =
     (let t = dropWhile is_space t; neg = (t \<noteq> [] \<and> hd t = 45);
          t = (if t \<noteq> [] \<and> (hd t = 45 \<or> hd t = 43) then tl t else t);
          v = int (digits_value (takeWhile is_digit t))
      in max (- (2 ^ 63)) (min (2 ^ 63 - 1) (if neg then - v else v)))"

text \<open>The result for the received bytes and how many of them are then read.\<close>

definition headers_length :: "byte list \<Rightarrow> int \<times> nat" where
  "headers_length buf =
     (if length buf < 10 then (-1, 0)
      else case memmem buf (crlf @ crlf) of
        None \<Rightarrow> (-2, 0)
      | Some headersEnd \<Rightarrow>
          let hdrs = take headersEnd buf
          in case memcasemem hdrs (str ''Content-Length:'') of
            None \<Rightarrow> (0, 0)
          | Some clBegin \<Rightarrow>
              if headersEnd - clBegin < 10 then (0, 0)
              else let t = drop (clBegin + 15) hdrs; t = (if t \<noteq> [] \<and> hd t = 32 then tl t else t);
                       cl = strtol10 (cstr t)
              in if cl < 10 then (-4, 0) else (cl, headersEnd + 4))"

definition readHeaders :: "api_world \<Rightarrow> api_st \<Rightarrow> int \<times> api_st" where
  "readHeaders w s =
     (case headers_length (take (min 1000 (aw_peek w)) (as_in s)) of
        (cl, n) \<Rightarrow> (cl, s\<lparr>as_in := drop n (as_in s)\<rparr>))"

definition handleContinue :: "api_world \<Rightarrow> byte list \<Rightarrow> nat \<Rightarrow> api_st \<Rightarrow> api_st" where
  "handleContinue w req lenBody s =
     (case recv_all lenBody s of
        (body, s) \<Rightarrow>
          if length body \<noteq> lenBody then respond408 s
          else case ic_call w AEM_INTCOM_SERVER_ACC 2 (take AEM_API_REQ_LEN req @ body) s of
            ((icRet, icData), s) \<Rightarrow>
              if icRet > int AEM_LEN_APIRESP_BASE then
                apiResponse w (take (nat icRet - AEM_LEN_APIRESP_BASE) (drop AEM_LEN_APIRESP_BASE (the icData)))
                  (setRbk (drop (3 + AEM_API_REQ_DATA_LEN + AEM_API_BODY_KEYSIZE) (the icData)) s)
              else respond500 s)"

definition handleGet ::
  "api_world \<Rightarrow> byte \<Rightarrow> byte \<Rightarrow> u16 \<Rightarrow> byte list \<Rightarrow> byte list \<Rightarrow> api_st \<Rightarrow> api_st option" where
  "handleGet w cmd flags uid urlData icData s =
     (if cmd = 7 then message_browse w uid flags urlData icData s
      else if cmd = 8 then (case message_delete w uid urlData flags s of (rb, s) \<Rightarrow> Some (apiResponse w [rb] s))
      else if cmd \<in> {0, 1, 2, 3, 4, 6, 10} then Some (apiResponse w icData s)
      else Some (apiResponse w [AEM_API_ERR_INTERNAL] s))"

text \<open>A body shorter than its authentication tag would make an array of negative length.  The key of the request is
  behind \<^verbatim>\<open>urlData\<close> in the memory.\<close>

definition handlePost ::
  "api_world \<Rightarrow> byte \<Rightarrow> byte \<Rightarrow> u16 \<Rightarrow> byte list \<Rightarrow> byte list \<Rightarrow> byte list \<Rightarrow> nat \<Rightarrow> api_st \<Rightarrow> (byte \<times> api_st) option" where
  "handlePost w cmd flags uid urlData requestBodyKey icData lenBody s =
     (case recv_all lenBody s of
        (body, s) \<Rightarrow>
          if length body \<noteq> lenBody then Some (AEM_API_ERR_RECV, s)
          else if lenBody < 16 then None
          else case aw_dec w requestBodyKey (replicate 12 0) body of
            None \<Rightarrow> Some (AEM_API_ERR_DECRYPT, s)
          | Some decBody \<Rightarrow>
              if cmd = 1 then message_create w flags icData urlData requestBodyKey decBody s
              else if cmd = 3 then Some (message_upload w uid urlData decBody s)
              else Some (AEM_API_ERR_INTERNAL, s))"

text \<open>The parts of AEM-Account's response; the number of the user is its third byte.\<close>

definition resp_urlData :: "byte list \<Rightarrow> byte list" where
  "resp_urlData d = take AEM_API_REQ_DATA_LEN (drop 3 d)"

definition resp_requestKey :: "byte list \<Rightarrow> byte list" where
  "resp_requestKey d = take AEM_API_BODY_KEYSIZE (drop (3 + AEM_API_REQ_DATA_LEN) d)"

definition resp_responseKey :: "byte list \<Rightarrow> byte list" where
  "resp_responseKey d = drop (3 + AEM_API_REQ_DATA_LEN + AEM_API_BODY_KEYSIZE) d"

definition aem_api_answer :: "api_world \<Rightarrow> bool \<Rightarrow> byte list \<Rightarrow> nat \<Rightarrow> api_st \<Rightarrow> api_st option" where
  "aem_api_answer w isPost d lenBody s =
     (let cmd = d ! 0; flags = d ! 1; uid = ucast (d ! 2); icData = drop AEM_LEN_APIRESP_BASE d
      in map_option clrRbk
        (if \<not> isPost then handleGet w cmd flags uid (resp_urlData d) icData s
         else if \<not> aw_mem w 2 then Some s
         else case handlePost w cmd flags uid (resp_urlData d) (resp_requestKey d) icData lenBody s of
           None \<Rightarrow> None
         | Some (rb, s) \<Rightarrow> Some (apiResponse w [rb] s)))"

definition aem_api_process :: "api_world \<Rightarrow> byte list \<Rightarrow> bool \<Rightarrow> api_st \<Rightarrow> api_st option" where
  "aem_api_process w req isPost s =
     (if \<bar>int (unat (req_binTs req)) - (aw_now w - AEM_TS_BEGIN) * 1000\<bar> > AEM_API_TIMEDIFF then Some (respond404 s)
      else case ic_call w AEM_INTCOM_SERVER_ACC (if isPost then 2 else 1) (take AEM_API_REQ_LEN req) s of
        ((icRet, icData), s) \<Rightarrow>
          if icRet = code_int IC_AUTHFAIL then Some (respond403 s)
          else if icRet < int AEM_LEN_APIRESP_BASE \<and> (\<not> isPost \<or> icRet \<noteq> code_int IC_CONTINUE) then Some (respond500 s)
          else case (if isPost then readHeaders w s else (0, s)) of
            (lenBody, s) \<Rightarrow>
              if isPost \<and> (lenBody < 1 \<or> lenBody > int AEM_MSG_W_MAXSIZE) then
                (if icRet = code_int IC_CONTINUE then Some (respond400 s)
                 else Some (clrRbk (apiResponse w [AEM_API_ERR_POST] (setRbk (resp_responseKey (the icData)) s))))
              else if icRet = code_int IC_CONTINUE then
                Some (if isPost \<and> lenBody < 99999 then handleContinue w req (nat lenBody) s else respond500 s)
              else aem_api_answer w isPost (take (nat icRet) (the icData)) (nat lenBody)
                     (setRbk (resp_responseKey (the icData)) s))"

section \<open>The request line (Request.c)\<close>

definition AEM_API_REQ_LEN_BASE64 :: nat where "AEM_API_REQ_LEN_BASE64 = 52"
definition AEM_REQ_LINE1_LEN :: nat where "AEM_REQ_LINE1_LEN = 7 + AEM_API_REQ_LEN_BASE64"

definition url_chars :: "byte list" where
  "url_chars = str ''0123456789abcdefghijklmnopqrstuvwxyzABCDEFGHIJKLMNOPQRSTUVWXYZ-_''"

definition respondClient :: "api_world \<Rightarrow> api_st \<Rightarrow> api_st option" where
  "respondClient w s =
     (case recv_all AEM_REQ_LINE1_LEN s of
        (buf, s) \<Rightarrow>
          if length buf \<noteq> AEM_REQ_LINE1_LEN then Some s
          else let post = (take 6 buf = str ''POST /'')
          in if \<not> post \<and> take 5 buf \<noteq> str ''GET /'' then Some s
          else let text = drop (if post then 6 else 5) buf
          in if buf ! (AEM_REQ_LINE1_LEN - (if post then 1 else 2)) \<noteq> 32
               \<or> length (takeWhile (List.member url_chars) text) \<noteq> AEM_API_REQ_LEN_BASE64 then Some s
          else let req = aw_b64 w (take AEM_API_REQ_LEN_BASE64 text)
          in if length req \<noteq> AEM_API_REQ_LEN then Some s
          else aem_api_process w req post s)"

end
