(* ===== verification/Api_Mail_Claims.thy ===== *)
theory Api_Mail_Claims
  imports Api_Mail Line_Dots
begin

text \<open>
  Properties of outgoing mail: nothing but the greeting goes over the connection in the clear, a message is
  reported as sent only when all of it was, and the other side - here AEM-MTA and AEM-Deliver - finds
  the end of the message where it was meant to be and gets the text that was sent.
\<close>

section \<open>Text of lines\<close>

definition lines :: "byte list list \<Rightarrow> byte list" where
  "lines ls = concat (map (\<lambda>l. l @ crlf) ls)"

definition line_ok :: "byte list \<Rightarrow> bool" where
  "line_ok l \<longleftrightarrow> l \<noteq> [] \<and> hd l \<noteq> 46 \<and> 10 \<notin> set l \<and> 13 \<notin> set l"

lemma lines_simps [simp]:
  "lines [] = []" "lines (l # ls) = l @ 13 # 10 # lines ls" "lines (ls @ ms) = lines ls @ lines ms"
  by (simp_all add: lines_def crlf_def)

text \<open>Every line feed has a carriage return before it.\<close>

fun lf_ok :: "byte \<Rightarrow> byte list \<Rightarrow> bool" where
  "lf_ok l [] = True"
| "lf_ok l (c # cs) = ((c = 10 \<longrightarrow> l = 13) \<and> lf_ok c cs)"

lemma lf_ok_append: "lf_ok l (a @ b) \<longleftrightarrow> lf_ok l a \<and> lf_ok (last (l # a)) b"
  by (induction a arbitrary: l) auto

lemma last_lines: "ls \<noteq> [] \<Longrightarrow> last (a # lines ls) = 10"
  by (cases ls rule: rev_cases) simp_all

lemma lf_ok_no_lf: "10 \<notin> set a \<Longrightarrow> lf_ok l a"
  by (induction a arbitrary: l) auto

lemma lf_ok_lines: "list_all line_ok ls \<Longrightarrow> lf_ok l (lines ls)"
  by (induction ls arbitrary: l) (auto simp: lf_ok_append line_ok_def lf_ok_no_lf)

lemma stuff_out_append: "stuff_out l (a @ b) = stuff_out l a @ stuff_out (last (l # a)) b"
  by (induction l a rule: stuff_out.induct) auto

lemma stuff_out_no_lf: "10 \<notin> set a \<Longrightarrow> l \<noteq> 10 \<or> a = [] \<or> hd a \<noteq> 46 \<Longrightarrow> stuff_out l a = a"
  by (induction l a rule: stuff_out.induct) auto

lemma stuff_out_lines: "list_all line_ok ls \<Longrightarrow> stuff_out l (lines ls) = lines ls"
  by (induction ls arbitrary: l) (auto simp: stuff_out_append line_ok_def stuff_out_no_lf)

text \<open>The two ways to double dots: behind a line feed, and behind the pair.\<close>

lemma stuff_both:
  "(lf_ok q xs \<and> (q = 10 \<longrightarrow> p = 13) \<longrightarrow> stuff (p # q # xs) = p # q # stuff_out q xs) \<and>
   (lf_ok q xs \<and> q \<noteq> 10 \<and> q \<noteq> 13 \<longrightarrow> stuff xs = stuff_out q xs)"
proof (induction xs arbitrary: p q rule: length_induct)
  case (1 xs)
  have IH: "length ys < length xs \<Longrightarrow> lf_ok q ys \<Longrightarrow> (q = 10 \<Longrightarrow> p = 13) \<Longrightarrow> stuff (p # q # ys) = p # q # stuff_out q ys"
    "length ys < length xs \<Longrightarrow> lf_ok q ys \<Longrightarrow> q \<noteq> 10 \<Longrightarrow> q \<noteq> 13 \<Longrightarrow> stuff ys = stuff_out q ys" for ys p q
    using 1 by blast+
  have "stuff (p # q # xs) = p # q # stuff_out q xs" if h: "lf_ok q xs" "q = 10 \<longrightarrow> p = 13"
  proof (cases xs)
    case (Cons c cs)
    show ?thesis
    proof (cases "q = 10 \<and> c = 46")
      case True
      then show ?thesis using h Cons IH(2) [of cs 46] by simp
    next
      case False
      have "stuff (q # c # cs) = q # c # stuff_out c cs" using h Cons by (intro IH(1)) auto
      then show ?thesis using False Cons by auto
    qed
  qed simp
  moreover have "stuff xs = stuff_out q xs" if h: "lf_ok q xs" "q \<noteq> 10" "q \<noteq> 13"
  proof (cases xs rule: stuff.cases)
    case (1 c d e cs)
    then have "stuff (c # d # e # cs) = c # d # stuff_out d (e # cs)" using h by (intro IH(1)) auto
    then show ?thesis using h 1 by auto
  qed (use h in auto)
  ultimately show ?case by blast
qed

section \<open>The end of the message\<close>

lemma end_mark_step:
  "\<not> (a = 13 \<and> b = 10 \<and> c = 46 \<and> take 1 r \<noteq> [46]) \<Longrightarrow>
   \<not> (a = 13 \<and> b = 10 \<and> c = 46 \<and> take 1 r = [13]) \<Longrightarrow>
   memmem (a # b # c # r) end_mark = map_option Suc (memmem (b # c # r) end_mark)"
  by (cases r) (auto simp: end_mark_def)

lemma end_mark_found:
  "p # q # xs = r @ [13, 10] \<Longrightarrow>
   memmem (p # q # stuff_out q xs @ [46, 13, 10]) end_mark = Some (length (stuff_out q xs))"
proof (induction xs arbitrary: p q r)
  case Nil
  then show ?case by (cases r) (auto simp: end_mark_def)
next
  case (Cons c xs)
  then obtain r' where l: "q # c # xs = r' @ [13, 10]" by (cases r) auto
  show ?case
  proof (cases "c = 46 \<and> q = 10")
    case True
    then obtain r'' where "c # xs = r'' @ [13, 10]" using l by (cases r') auto
    then have l': "46 # 46 # xs = (46 # r'') @ [13, 10]" using True by simp
    have "memmem (46 # 46 # stuff_out 46 xs @ [46, 13, 10]) end_mark = Some (length (stuff_out 46 xs))"
      using Cons.IH [OF l'] .
    moreover have "memmem (q # 46 # 46 # stuff_out 46 xs @ [46, 13, 10]) end_mark =
        map_option Suc (memmem (46 # 46 # stuff_out 46 xs @ [46, 13, 10]) end_mark)"
      by (rule end_mark_step) (use True in auto)
    moreover have "memmem (p # q # 46 # 46 # stuff_out 46 xs @ [46, 13, 10]) end_mark =
        map_option Suc (memmem (q # 46 # 46 # stuff_out 46 xs @ [46, 13, 10]) end_mark)"
      by (rule end_mark_step) auto
    ultimately show ?thesis using True by (simp del: memmem.simps)
  next
    case False
    have "memmem (q # c # stuff_out c xs @ [46, 13, 10]) end_mark = Some (length (stuff_out c xs))"
      using Cons.IH [OF l] .
    moreover have "memmem (p # q # c # stuff_out c xs @ [46, 13, 10]) end_mark =
        map_option Suc (memmem (q # c # stuff_out c xs @ [46, 13, 10]) end_mark)"
      by (rule end_mark_step) (use False in auto)
    ultimately show ?thesis using False by (auto simp del: memmem.simps)
  qed
qed

section \<open>The headers\<close>

definition plain_lines :: "mail_ext \<Rightarrow> out_email \<Rightarrow> byte list \<Rightarrow> byte list \<Rightarrow> byte list list" where
  "plain_lines x e rfctime msgId =
     (if length (oe_replyId e) > 5
      then [str ''References: <'' @ oe_replyId e @ str ''>'', str ''In-Reply-To: <'' @ oe_replyId e @ str ''>'']
      else []) @
     [str ''From: '' @ oe_addrFrom e @ str ''@'' @ mx_domain x,
      str ''Date: '' @ rfctime,
      str ''Message-ID: <'' @ cstr (take 26 msgId) @ str ''@'' @ mx_domain x @ str ''>'',
      str ''Subject: '' @ oe_subject e,
      str ''To: '' @ oe_addrTo e]"

lemma mail_plain_eq: "mail_plain x e rfctime msgId = lines (plain_lines x e rfctime msgId)"
  by (simp add: mail_plain_def plain_lines_def mail_ref_def crlf_def)

definition clean :: "byte list \<Rightarrow> bool" where
  "clean t \<longleftrightarrow> 10 \<notin> set t \<and> 13 \<notin> set t"

lemma clean_simps [simp]: "clean []" "clean (a @ b) \<longleftrightarrow> clean a \<and> clean b"
  "clean (c # cs) \<longleftrightarrow> c \<noteq> 10 \<and> c \<noteq> 13 \<and> clean cs"
  by (auto simp: clean_def)

definition mail_clean :: "mail_ext \<Rightarrow> out_email \<Rightarrow> byte list \<Rightarrow> byte list \<Rightarrow> bool" where
  "mail_clean x e rfctime msgId \<longleftrightarrow> clean (oe_replyId e) \<and> clean (oe_addrFrom e) \<and> clean (mx_domain x) \<and>
     clean rfctime \<and> clean msgId \<and> clean (oe_subject e) \<and> clean (oe_addrTo e)"

lemma clean_cstr: "clean t \<Longrightarrow> clean (cstr (take n t))"
  unfolding clean_def cstr_def by (meson in_set_takeD set_takeWhileD)

text \<open>A header line: its name is not that of the signature.\<close>

definition header_ok :: "byte list \<Rightarrow> bool" where
  "header_ok l \<longleftrightarrow> line_ok l \<and> 2 \<le> length l \<and> take 2 l \<noteq> str ''DK''"

lemma plain_lines_ok: "mail_clean x e rfctime msgId \<Longrightarrow> list_all header_ok (plain_lines x e rfctime msgId)"
  by (simp add: mail_clean_def plain_lines_def header_ok_def line_ok_def clean_def str_def)
     (use clean_cstr [of msgId 26] in \<open>simp add: clean_def\<close>)

definition dkim_mark :: "byte list" where "dkim_mark = str (CHR 0x0A # ''DKIM-Signature:'')"

lemma memmem_no_lf: "10 \<notin> set l \<Longrightarrow> memmem (l @ t) dkim_mark = map_option ((+) (length l)) (memmem t dkim_mark)"
proof (induction l)
  case Nil
  show ?case by (cases "memmem t dkim_mark") auto
next
  case (Cons a l)
  then show ?case by (cases "memmem t dkim_mark") (auto simp: dkim_mark_def str_def)
qed

lemma memmem_lines:
  assumes "list_all header_ok ls" "l \<noteq> []" "10 \<notin> set l"
  shows "memmem (l @ 13 # 10 # lines ls @ str ''DKIM-Signature:'' @ t) dkim_mark = Some (length (lines (l # ls)) - 1)"
  using assms
proof (induction ls arbitrary: l)
  case Nil
  then show ?case by (simp add: memmem_no_lf) (simp add: dkim_mark_def str_def)
next
  case (Cons m ls)
  then obtain a b r where m: "m = a # b # r" "\<not> (a = 68 \<and> b = 75)"
    by (cases m; cases "tl m") (auto simp: header_ok_def str_def)
  have IH: "memmem (m @ 13 # 10 # lines ls @ str ''DKIM-Signature:'' @ t) dkim_mark = Some (length (lines (m # ls)) - 1)"
    using Cons by (auto simp: header_ok_def line_ok_def)
  have "memmem (10 # m @ 13 # 10 # lines ls @ str ''DKIM-Signature:'' @ t) dkim_mark =
      map_option Suc (memmem (m @ 13 # 10 # lines ls @ str ''DKIM-Signature:'' @ t) dkim_mark)"
    using m by (auto simp: dkim_mark_def str_def)
  then show ?case using Cons.prems IH
    by (simp add: memmem_no_lf) (simp add: dkim_mark_def str_def)
qed

section \<open>The whole email\<close>

definition mail_msgId :: "mail_ext \<Rightarrow> out_email \<Rightarrow> byte list" where
  "mail_msgId x e = genMsgId (mx_aes x) (mx_rnd x) (mx_keys x) (mx_time x) (oe_uid e) (mx_nsec x) (oe_fromAddr32 e) True"

lemma clean_b32: "clean b32_set"
  by (simp add: b32_set_def str_def clean_def)

lemma clean_id_chars: "cs_ok cs \<Longrightarrow> clean (id_chars cs n)"
proof -
  assume cs: "cs_ok cs"
  have "unat (drop_bit k n AND 31) < length cs" for k using cs by (simp add: unat_five cs_ok_def)
  then have "set (id_chars cs n) \<subseteq> set b32_set" using cs by (auto simp: id_chars_def cs_ok_def)
  then show ?thesis using clean_b32 unfolding clean_def by blast
qed

lemma clean_msgId: "cs_ok (msgid_cs (mx_keys x)) \<Longrightarrow> clean (mail_msgId x e)"
  by (simp add: mail_msgId_def genMsgId_def Let_def clean_id_chars)

text \<open>The texts an email is made of have no line breaks: what the users' requests are checked for, and what
  Base64, the clock and our domain are relied on for.\<close>

definition texts_clean :: "mail_ext \<Rightarrow> out_email \<Rightarrow> bool" where
  "texts_clean x e \<longleftrightarrow> clean (oe_replyId e) \<and> clean (oe_addrFrom e) \<and> clean (mx_domain x) \<and>
     clean (oe_subject e) \<and> clean (oe_addrTo e) \<and> (\<forall>r. mx_rfctime x = Some r \<longrightarrow> clean r) \<and>
     (\<forall>b. clean (mx_base64 x b)) \<and> cs_ok (msgid_cs (mx_keys x))"

lemma clean_decimal: "clean (decimal n)"
proof (induction n rule: decimal.induct)
  case (1 n)
  have d: "(48 + of_nat k :: byte) \<noteq> 10 \<and> (48 + of_nat k :: byte) \<noteq> 13" if "k < 10" for k :: nat
    using that by (auto simp: byte_eq_iff_unat unat_word_ariths unat_of_nat)
  show ?case using 1 d [of n] d [of "n mod 10"] by (subst decimal.simps) simp
qed

lemma rsa_sign_b64_base64: "rsa_sign_b64 x h key = Sig sig \<Longrightarrow> \<exists>b. sig = mx_base64 x b"
  by (auto simp: rsa_sign_b64_def split: option.splits if_splits)

text \<open>The plain headers end where the search finds the signature.\<close>

lemma turn_at:
  assumes "mail_clean x e rfctime msgId"
  shows "memmem ((mail_plain x e rfctime msgId @ mail_dkim x e h) @ t) dkim_mark = Some (length (mail_plain x e rfctime msgId) - 1)"
    "0 < length (mail_plain x e rfctime msgId)"
proof -
  obtain l ls where ls: "plain_lines x e rfctime msgId = l # ls"
    by (cases "plain_lines x e rfctime msgId") (auto simp: plain_lines_def)
  obtain u where u: "mail_dkim x e h = str ''DKIM-Signature:'' @ u" by (simp add: mail_dkim_def str_def)
  have "memmem (l @ 13 # 10 # lines ls @ str ''DKIM-Signature:'' @ u @ t) dkim_mark
      = Some (length (lines (l # ls)) - 1)"
    using plain_lines_ok [OF assms] ls by (intro memmem_lines) (auto simp: header_ok_def line_ok_def)
  then show "memmem ((mail_plain x e rfctime msgId @ mail_dkim x e h) @ t) dkim_mark = Some (length (mail_plain x e rfctime msgId) - 1)"
    by (simp add: mail_plain_eq ls u)
  show "0 < length (mail_plain x e rfctime msgId)" by (simp add: mail_plain_eq ls)
qed

text \<open>The email, when everything the code calls succeeds: the signature's header is put in front of the
  headers it signs, and the buffer is too small when what is written goes over it.\<close>

lemma createEmail_eq:
  assumes "texts_clean x e" "mx_rfctime x = Some rfctime" "mx_sha256 x (oe_body e) = Some bodyHash" "mx_alloc x"
  defines "plain \<equiv> mail_plain x e rfctime (mail_msgId x e)" and "dkim \<equiv> mail_dkim x e (mx_base64 x bodyHash)"
  assumes "mx_sha256 x (plain @ dkim) = Some headHash"
    "rsa_sign_b64 x headHash (take (oe_lenRsaKey e) (oe_rsaKey e)) = Sig sig"
  shows "createEmail x e =
    (let hdr = dkim @ sig @ crlf @ plain; body = stuff_out 10 (oe_body e)
     in if max (length hdr + length plain) (length hdr + length body + 5) > 2000 + length (oe_body e)
        then Mail_Undefined else Mail (hdr @ crlf @ body @ [46] @ crlf))"
proof -
  have mc: "mail_clean x e rfctime (mail_msgId x e)"
    using assms(1,2) by (simp add: texts_clean_def mail_clean_def clean_msgId)
  have t: "memmem ((plain @ dkim) @ sig @ crlf) dkim_mark = Some (length plain - 1)" "0 < length plain"
    using turn_at [OF mc] by (simp_all add: plain_def dkim_def)
  have k: "length plain - 1 + 1 = length plain" using t(2) by simp
  have l: "last (drop (length plain) ((plain @ dkim) @ sig @ crlf) @ take (length plain) ((plain @ dkim) @ sig @ crlf) @ crlf) = 10"
    by (simp add: crlf_def)
  note defs = plain_def dkim_def
  have cut: "take (length plain) ((plain @ dkim) @ sig @ crlf) = plain"
    "drop (length plain) ((plain @ dkim) @ sig @ crlf) = dkim @ sig @ crlf" by simp_all
  show ?thesis
    unfolding defs createEmail_def mail_msgId_def [symmetric] dkim_mark_def [symmetric]
    using assms(2-4) assms(7,8) [unfolded defs]
    by (simp only: option.case sig_res.case if_True if_False not_True_eq_False Let_def t(1) [unfolded defs] k [unfolded defs]
        cut [unfolded defs] mail_peak_def)
       (auto simp: crlf_def less_max_iff_disj)
qed

lemma createEmail_parts:
  assumes "createEmail x e = Mail final" "texts_clean x e"
  shows "\<exists>rfctime bodyHash headHash sig. mx_rfctime x = Some rfctime \<and> mx_sha256 x (oe_body e) = Some bodyHash \<and>
     (let plain = mail_plain x e rfctime (mail_msgId x e); dkim = mail_dkim x e (mx_base64 x bodyHash)
      in mx_sha256 x (plain @ dkim) = Some headHash \<and>
         rsa_sign_b64 x headHash (take (oe_lenRsaKey e) (oe_rsaKey e)) = Sig sig \<and>
         final = dkim @ sig @ crlf @ plain @ crlf @ stuff_out 10 (oe_body e) @ [46] @ crlf)"
proof -
  obtain rfctime bodyHash headHash sig where
    c: "mx_rfctime x = Some rfctime" "mx_sha256 x (oe_body e) = Some bodyHash" "mx_alloc x"
      "mx_sha256 x (mail_plain x e rfctime (mail_msgId x e) @ mail_dkim x e (mx_base64 x bodyHash)) = Some headHash"
      "rsa_sign_b64 x headHash (take (oe_lenRsaKey e) (oe_rsaKey e)) = Sig sig"
    using assms(1) unfolding createEmail_def Let_def mail_msgId_def [symmetric] dkim_mark_def [symmetric]
    by (simp split: option.splits if_splits sig_res.splits)
  show ?thesis using createEmail_eq [OF assms(2) c] assms(1) c
    by (auto simp: Let_def split: if_splits)
qed

text \<open>A created email is found complete by the receiver: the signature, the other headers and the body.\<close>

definition mail_text :: "mail_ext \<Rightarrow> out_email \<Rightarrow> byte list \<Rightarrow> byte list \<Rightarrow> byte list \<Rightarrow> byte list" where
  "mail_text x e rfctime bodyHash sig =
     mail_dkim x e (mx_base64 x bodyHash) @ sig @ crlf @ mail_plain x e rfctime (mail_msgId x e) @ crlf @ oe_body e"

lemma created_mail_arrives:
  assumes "createEmail x e = Mail final" "texts_clean x e" "lf_ok 10 (oe_body e)" "oe_body e = r @ crlf"
  shows "\<exists>rfctime bodyHash headHash sig. mx_rfctime x = Some rfctime \<and> mx_sha256 x (oe_body e) = Some bodyHash \<and>
     mx_sha256 x (mail_plain x e rfctime (mail_msgId x e) @ mail_dkim x e (mx_base64 x bodyHash)) = Some headHash \<and>
     rsa_sign_b64 x headHash (take (oe_lenRsaKey e) (oe_rsaKey e)) = Sig sig \<and>
     memmem final end_mark = Some (length final - 5) \<and>
     convertLineDots (10 # take (length final - 3) final) = 10 # mail_text x e rfctime bodyHash sig"
proof -
  obtain rfctime bodyHash headHash sig where
    c: "mx_rfctime x = Some rfctime" "rsa_sign_b64 x headHash (take (oe_lenRsaKey e) (oe_rsaKey e)) = Sig sig"
    and c': "mx_sha256 x (oe_body e) = Some bodyHash"
      "mx_sha256 x (mail_plain x e rfctime (mail_msgId x e) @ mail_dkim x e (mx_base64 x bodyHash)) = Some headHash"
    and f: "final = mail_dkim x e (mx_base64 x bodyHash) @ sig @ crlf @ mail_plain x e rfctime (mail_msgId x e) @ crlf @
        stuff_out 10 (oe_body e) @ [46] @ crlf"
    using createEmail_parts [OF assms(1,2)] by (auto simp: Let_def)
  let ?D = "mail_dkim x e (mx_base64 x bodyHash)" and ?P = "plain_lines x e rfctime (mail_msgId x e)"
  have "clean sig" using c(2) assms(2) rsa_sign_b64_base64 by (fastforce simp: texts_clean_def)
  moreover have "clean ?D" using assms(2)
    by (simp add: mail_dkim_def texts_clean_def clean_decimal) (simp add: clean_def str_def)
  moreover obtain t where "?D = 68 # 75 # t" by (simp add: mail_dkim_def str_def)
  ultimately obtain t where t: "?D @ sig = 68 # 75 # t" "clean t" by auto
  let ?L = "(68 # 75 # t) # ?P"
  have "mail_clean x e rfctime (mail_msgId x e)"
    using assms(2) c(1) by (simp add: texts_clean_def mail_clean_def clean_msgId)
  then have L: "list_all line_ok ?L" using plain_lines_ok t(2)
    by (auto simp: header_ok_def line_ok_def clean_def list_all_iff)
  let ?M = "lines ?L @ crlf @ oe_body e"
  have f': "final = lines ?L @ crlf @ stuff_out 10 (oe_body e) @ [46, 13, 10]"
    using f t(1) by (simp add: mail_plain_eq crlf_def)
  have last: "last (a # lines ?L) = 10" for a
    using last_lines [of ?L a] by simp
  have so: "stuff_out 75 (drop 2 ?M) = drop 2 (lines ?L) @ crlf @ stuff_out 10 (oe_body e)"
  proof -
    have "stuff_out 0 ?M = lines ?L @ crlf @ stuff_out 10 (oe_body e)"
      using L last by (simp add: stuff_out_append stuff_out_lines crlf_def del: lines_simps last.simps)
    then show ?thesis by simp
  qed
  have lf: "lf_ok 75 (drop 2 ?M)"
  proof -
    have "lf_ok 0 ?M" using L last assms(3)
      by (simp add: lf_ok_append lf_ok_lines crlf_def del: lines_simps last.simps)
    then show ?thesis by simp
  qed
  have "stuff ?M = lines ?L @ crlf @ stuff_out 10 (oe_body e)"
    using stuff_both [of 75 "drop 2 ?M" 68] lf so by simp
  then have conv: "convertLineDots (10 # take (length final - 3) final) = 10 # ?M"
    using convertLineDots_stuff [of ?M] f' by simp
  have eq: "final = 68 # 75 # stuff_out 75 (drop 2 ?M) @ [46, 13, 10]" using f' so by simp
  have "68 # 75 # drop 2 ?M = (lines ?L @ crlf @ r) @ [13, 10]" using assms(4) by (simp add: crlf_def)
  then have fnd: "memmem final end_mark = Some (length (stuff_out 75 (drop 2 ?M)))"
    unfolding eq by (rule end_mark_found)
  have len: "length (stuff_out 75 (drop 2 ?M)) = length final - 5" using eq by simp
  have whole: "?M = mail_text x e rfctime bodyHash sig" using t(1) by (simp add: mail_text_def mail_plain_eq crlf_def)
  show ?thesis using c c' conv [unfolded whole] fnd [unfolded len] by blast
qed

text \<open>An example: hashes and signatures of the right sizes.\<close>

definition demo_mail :: mail_ext where
  "demo_mail = \<lparr>mx_sha256 = (\<lambda>b. Some (replicate 32 7)), mx_base64 = (\<lambda>b. replicate (4 * ((length b + 2) div 3)) 65),
     mx_rsa_size = (\<lambda>k. Some 256), mx_rsa = (\<lambda>k b. Some b), mx_aes = (\<lambda>k b. Some b), mx_rnd = [], mx_nsec = 3,
     mx_time = 1780000000, mx_rfctime = Some (str ''Thu, 28 May 2026 20:26:40 +0000''), mx_keys = plain_keys,
     mx_domain = str ''allears.test'', mx_alloc = True\<rparr>"

definition field :: "nat \<Rightarrow> byte list \<Rightarrow> byte list" where
  "field n t = t @ replicate (n - length t) 0"

definition demo_email :: "byte list \<Rightarrow> byte list \<Rightarrow> out_email" where
  "demo_email t body =
     \<lparr>oe_mem = field 128 (str ''mx.b.test'') @ field 128 (str ''AS'') @ field 128 (str ''r'') @ field 25 (str ''alice'')
        @ field 128 t @ field 128 t @ field 128 t @ replicate 2048 1,
      oe_uid = 5, oe_isAdmin = False, oe_ip = [1, 2, 3, 4], oe_cc = 0, oe_fromAddr32 = replicate 10 0,
      oe_lenRsaKey = 100, oe_body = body\<rparr>"

text \<open>The texts to, reply and subject are all \<open>t\<close>.\<close>

definition demo_text :: "byte list \<Rightarrow> bool" where
  "demo_text t \<longleftrightarrow> 5 < length t \<and> length t < 128 \<and> clean t \<and> 0 \<notin> set t"

lemma length_oe_field [simp]: "length t \<le> n \<Longrightarrow> length (field n t) = n"
  by (simp add: field_def)

lemma cstr_field: "0 \<notin> set t \<Longrightarrow> length t < n \<Longrightarrow> cstr (field n t @ u) = t"
proof -
  assume h: "0 \<notin> set t" "length t < n"
  then obtain k where k: "n - length t = Suc k" by (metis Suc_diff_Suc)
  have "cstr (t @ 0 # v) = t" for v using h(1) by (induction t) (auto simp: cstr_def)
  then show ?thesis using k by (simp add: field_def)
qed

lemma demo_fields:
  assumes "demo_text t"
  shows "oe_mxDomain (demo_email t b) = str ''mx.b.test''" "oe_addrFrom (demo_email t b) = str ''alice''"
    "oe_addrTo (demo_email t b) = t" "oe_replyId (demo_email t b) = t"
    "oe_subject (demo_email t b) = t" "oe_body (demo_email t b) = b"
  using assms unfolding oe_mxDomain_def oe_addrFrom_def oe_addrTo_def oe_replyId_def oe_subject_def demo_email_def demo_text_def
  by (simp_all add: cstr_field) (simp_all add: cstr_field str_def)

lemma demo_clean: "demo_text t \<Longrightarrow> texts_clean demo_mail (demo_email t b)"
  using setMsgIdKey_cs_ok [OF plain_keys_set]
  by (simp add: texts_clean_def demo_fields demo_mail_def) (simp add: clean_def str_def demo_text_def)

lemma demo_sel:
  "mx_sha256 demo_mail b = Some (replicate 32 7)" "mx_base64 demo_mail (replicate 32 7) = replicate 44 65"
  "mx_rfctime demo_mail = Some (str ''Thu, 28 May 2026 20:26:40 +0000'')" "mx_alloc demo_mail"
  "mx_domain demo_mail = str ''allears.test''" "mx_time demo_mail = 1780000000"
  by (simp_all add: demo_mail_def)

lemma demo_sign: "rsa_sign_b64 demo_mail (replicate 32 7) k = Sig (replicate 344 65)"
  by (simp add: rsa_sign_b64_def demo_mail_def rsa_block_def asn1_sha256_def)

definition demo_plain :: "byte list \<Rightarrow> byte list" where
  "demo_plain t = mail_plain demo_mail (demo_email t []) (str ''Thu, 28 May 2026 20:26:40 +0000'')
     (mail_msgId demo_mail (demo_email t []))"

definition demo_dkim :: "byte list \<Rightarrow> byte list" where
  "demo_dkim t = mail_dkim demo_mail (demo_email t []) (replicate 44 65)"

lemma demo_any_body:
  assumes "demo_text t"
  shows "mail_plain demo_mail (demo_email t b) r i = mail_plain demo_mail (demo_email t []) r i"
    "mail_dkim demo_mail (demo_email t b) h = mail_dkim demo_mail (demo_email t []) h"
    "mail_msgId demo_mail (demo_email t b) = mail_msgId demo_mail (demo_email t [])"
  by (simp_all add: mail_plain_def mail_ref_def mail_dkim_def demo_fields [OF assms] mail_msgId_def) (simp_all add: demo_email_def)

lemma createEmail_demo:
  assumes "demo_text t"
  shows "createEmail demo_mail (demo_email t b) =
    (let hdr = demo_dkim t @ replicate 344 65 @ crlf @ demo_plain t; body = stuff_out 10 b
     in if max (length hdr + length (demo_plain t)) (length hdr + length body + 5) > 2000 + length b
        then Mail_Undefined else Mail (hdr @ crlf @ body @ [46] @ crlf))"
  using createEmail_eq [OF demo_clean [OF assms] demo_sel(3) demo_sel(1) demo_sel(4) demo_sel(1) demo_sign, of b]
  by (simp only: demo_any_body [OF assms, of b] demo_plain_def demo_dkim_def demo_fields [OF assms] demo_sel)

lemma length_demo:
  assumes "demo_text t"
  shows "length (demo_plain t) = 170 + 4 * length t" "length (demo_dkim t) = 292"
proof -
  let ?e = "demo_email t []"
  have "0 \<notin> set b32_set" by (simp add: b32_set_def str_def)
  moreover have "set (mail_msgId demo_mail ?e) \<subseteq> set b32_set"
    by (auto simp: mail_msgId_def genMsgId_def Let_def id_chars_def demo_mail_def plain_keys_def unat_five)
  ultimately have "0 \<notin> set (mail_msgId demo_mail ?e)" by blast
  moreover have "length (mail_msgId demo_mail ?e) = 26"
    by (simp add: mail_msgId_def genMsgId_def Let_def len_simps)
  ultimately have m: "length (cstr (take 26 (mail_msgId demo_mail ?e))) = 26"
    by (simp add: cstr_def) (metis (mono_tags, lifting) takeWhile_eq_all_conv)
  have "5 < length t" using assms by (simp add: demo_text_def)
  then show "length (demo_plain t) = 170 + 4 * length t"
    by (simp add: demo_plain_def mail_plain_def mail_ref_def demo_fields [OF assms] m demo_sel crlf_def)
  show "length (demo_dkim t) = 292"
    by (simp add: demo_dkim_def mail_dkim_def demo_fields [OF assms] demo_sel decimal.simps)
qed

text \<open>The buffer: with headers of ordinary lengths a body whose lines are single dots is written over its
  end.\<close>

lemma stuff_out_dots: "length (stuff_out 10 (concat (replicate n [46, 13, 10]))) = 4 * n"
  by (induction n) simp_all

theorem mail_overflow:
  assumes "demo_text t" "length t = 127" "679 < n"
  shows "createEmail demo_mail (demo_email t (concat (replicate n [46, 13, 10]))) = Mail_Undefined"
proof -
  have "length (concat (replicate n [46, 13, 10 :: byte])) = 3 * n" by (induction n) simp_all
  then show ?thesis using assms(2,3)
    by (simp add: createEmail_demo [OF assms(1)] Let_def length_demo [OF assms(1)] stuff_out_dots crlf_def less_max_iff_disj)
qed

section \<open>The session\<close>

lemma smtpCommand_cases:
  "smtpCommand sv tls t expected info l = Cmd_Ok info' l' buf \<Longrightarrow>
     l' = (if t = [] then l else l @ [(tls, t)]) \<and> oi_greeting info' = oi_greeting info \<and>
     oi_status info' = take 127 buf \<and> take (length expected) buf = expected \<and> 6 \<le> length buf"
  "smtpCommand sv tls t expected info l = Cmd_Fail info' l' \<Longrightarrow>
     (\<exists>m. l' = l @ m \<and> set m \<subseteq> {(tls, t), (tls, str ''QUIT'' @ crlf)})"
  by (auto simp: smtpCommand_def smtp_quit_def Let_def split: if_splits option.splits)

text \<open>What a session says in the clear.\<close>

definition in_clear :: "mail_ext \<Rightarrow> sent \<Rightarrow> bool" where
  "in_clear x l \<longleftrightarrow> (\<forall>t. (False, t) \<in> set l \<longrightarrow> t \<in> {txt_ehlo x, str ''STARTTLS'' @ crlf, str ''QUIT'' @ crlf})"

lemma in_clear_simps [simp]:
  "in_clear x []" "in_clear x (l @ m) \<longleftrightarrow> in_clear x l \<and> in_clear x m"
  "in_clear x ((tls, t) # l) \<longleftrightarrow> (tls \<or> t \<in> {txt_ehlo x, str ''STARTTLS'' @ crlf, str ''QUIT'' @ crlf}) \<and> in_clear x l"
  by (auto simp: in_clear_def)

lemma in_clear_quit [simp]: "in_clear x l \<Longrightarrow> in_clear x (smtp_quit tls l)"
  by (simp add: smtp_quit_def)

lemma and_then_clear:
  assumes "and_then (smtpCommand sv tls t expected info l) err k = Some (r, info', l')" "in_clear x l"
    "tls \<or> t = [] \<or> t \<in> {txt_ehlo x, str ''STARTTLS'' @ crlf}"
    "\<And>i m buf. k i m buf = Some (r, info', l') \<Longrightarrow> in_clear x m \<Longrightarrow> in_clear x l'"
  shows "in_clear x l'"
proof (cases "smtpCommand sv tls t expected info l")
  case (Cmd_Fail i m)
  then obtain n where "m = l @ n" "set n \<subseteq> {(tls, t), (tls, str ''QUIT'' @ crlf)}" "t \<noteq> [] \<or> n = [(tls, str ''QUIT'' @ crlf)]"
    by (auto simp: smtpCommand_def smtp_quit_def Let_def split: if_splits option.splits)
  then show ?thesis using assms(1-3) Cmd_Fail by (auto simp: and_then_def in_clear_def)
next
  case (Cmd_Ok i m buf)
  then have "in_clear x m" using smtpCommand_cases(1) [OF Cmd_Ok] assms(2,3) by auto
  then show ?thesis using assms(1,4) Cmd_Ok by (simp add: and_then_def)
qed (use assms(1) in \<open>simp add: and_then_def\<close>)

lemma sendMail_clear:
  assumes "sendMail x sv e info = Some (r, info', l)"
  shows "in_clear x l"
proof (cases "sv_ssl sv \<and> sv_sock sv")
  case True
  have tls: "in_clear x l" if "sendMail_tls x sv e i m = Some (r, info', l)" "in_clear x m" for i m
    using that unfolding sendMail_tls_def mail_data_def
    by (elim and_then_clear) (auto elim!: and_then_clear intro: in_clear_quit split: mail_res.splits)
  show ?thesis
    using assms True unfolding sendMail_def
    by (auto elim!: and_then_clear tls intro: in_clear_quit simp: Let_def split: if_splits)
qed (use assms in \<open>auto simp: sendMail_def\<close>)

lemma and_then_Some:
  assumes "and_then (smtpCommand sv tls t expected info l) err k = Some (r, info', l')" "r \<noteq> err"
  shows "\<exists>i buf. k i (if t = [] then l else l @ [(tls, t)]) buf = Some (r, info', l') \<and>
     oi_status i = take 127 buf \<and> take (length expected) buf = expected \<and> 6 \<le> length buf"
  using assms smtpCommand_cases(1)
  by (cases "smtpCommand sv tls t expected info l") (fastforce simp: and_then_def)+

lemmas mail_errors = AEM_API_ERR_MESSAGE_CREATE_SENDMAIL_GREET_def AEM_API_ERR_MESSAGE_CREATE_SENDMAIL_EHLO_def
  AEM_API_ERR_MESSAGE_CREATE_SENDMAIL_STLS_def AEM_API_ERR_MESSAGE_CREATE_SENDMAIL_SHAKE_def
  AEM_API_ERR_MESSAGE_CREATE_SENDMAIL_NOTLS_def AEM_API_ERR_MESSAGE_CREATE_SENDMAIL_MAIL_def
  AEM_API_ERR_MESSAGE_CREATE_SENDMAIL_RCPT_def AEM_API_ERR_MESSAGE_CREATE_SENDMAIL_DATA_def
  AEM_API_ERR_MESSAGE_CREATE_SENDMAIL_BODY_def AEM_API_STATUS_OK_def AEM_API_ERR_INTERNAL_def

lemma createEmail_nonempty: "createEmail x e = Mail msg \<Longrightarrow> msg \<noteq> []"
  by (auto simp: createEmail_def Let_def split: option.splits sig_res.splits if_splits)

lemma sendMail_tls_ok:
  assumes "sendMail_tls x sv e info l = Some (AEM_API_STATUS_OK, info', l')"
  shows "\<exists>msg. createEmail x e = Mail msg \<and> take 3 (oi_status info') = str ''250'' \<and>
     l' = l @ [(True, txt_ehlo x), (True, txt_from x e), (True, txt_to e), (True, str ''DATA'' @ crlf),
       (True, msg), (True, str ''QUIT'' @ crlf)]"
proof -
  have e: "AEM_API_STATUS_OK \<noteq> AEM_API_ERR_MESSAGE_CREATE_SENDMAIL_EHLO" "AEM_API_STATUS_OK \<noteq> AEM_API_ERR_MESSAGE_CREATE_SENDMAIL_MAIL"
    "AEM_API_STATUS_OK \<noteq> AEM_API_ERR_MESSAGE_CREATE_SENDMAIL_RCPT" "AEM_API_STATUS_OK \<noteq> AEM_API_ERR_MESSAGE_CREATE_SENDMAIL_DATA"
    "AEM_API_STATUS_OK \<noteq> AEM_API_ERR_MESSAGE_CREATE_SENDMAIL_BODY" "AEM_API_STATUS_OK \<noteq> AEM_API_ERR_INTERNAL"
    by (simp_all add: mail_errors)
  have n: "txt_ehlo x \<noteq> []" "txt_from x e \<noteq> []" "txt_to e \<noteq> []" "str ''DATA'' @ crlf \<noteq> []"
    by (simp_all add: txt_ehlo_def txt_from_def txt_to_def crlf_def)
  obtain i where "and_then (smtpCommand sv True (txt_from x e) (str ''250'') i (l @ [(True, txt_ehlo x)]))
      AEM_API_ERR_MESSAGE_CREATE_SENDMAIL_MAIL (\<lambda>info l buf.
     and_then (smtpCommand sv True (txt_to e) (str ''250'') info l) AEM_API_ERR_MESSAGE_CREATE_SENDMAIL_RCPT (\<lambda>info l buf.
     and_then (smtpCommand sv True (str ''DATA'' @ crlf) (str ''354'') info l) AEM_API_ERR_MESSAGE_CREATE_SENDMAIL_DATA (\<lambda>info l buf.
       mail_data x sv e info l))) = Some (AEM_API_STATUS_OK, info', l')"
    using and_then_Some [OF assms [unfolded sendMail_tls_def] e(1)] n by auto
  from and_then_Some [OF this e(2)] n obtain i where
    "and_then (smtpCommand sv True (txt_to e) (str ''250'') i (l @ [(True, txt_ehlo x), (True, txt_from x e)]))
       AEM_API_ERR_MESSAGE_CREATE_SENDMAIL_RCPT (\<lambda>info l buf.
     and_then (smtpCommand sv True (str ''DATA'' @ crlf) (str ''354'') info l) AEM_API_ERR_MESSAGE_CREATE_SENDMAIL_DATA (\<lambda>info l buf.
       mail_data x sv e info l)) = Some (AEM_API_STATUS_OK, info', l')" by auto
  from and_then_Some [OF this e(3)] n obtain i where
    "and_then (smtpCommand sv True (str ''DATA'' @ crlf) (str ''354'') i
        (l @ [(True, txt_ehlo x), (True, txt_from x e), (True, txt_to e)])) AEM_API_ERR_MESSAGE_CREATE_SENDMAIL_DATA (\<lambda>info l buf.
       mail_data x sv e info l) = Some (AEM_API_STATUS_OK, info', l')" by auto
  from and_then_Some [OF this e(4)] n obtain i where
    d: "mail_data x sv e i (l @ [(True, txt_ehlo x), (True, txt_from x e), (True, txt_to e), (True, str ''DATA'' @ crlf)])
       = Some (AEM_API_STATUS_OK, info', l')" by auto
  then obtain msg where msg: "createEmail x e = Mail msg" "msg \<noteq> []"
    using e(6) createEmail_nonempty by (cases "createEmail x e") (auto simp: mail_data_def)
  have "and_then (smtpCommand sv True msg (str ''250'') i
      (l @ [(True, txt_ehlo x), (True, txt_from x e), (True, txt_to e), (True, str ''DATA'' @ crlf)]))
      AEM_API_ERR_MESSAGE_CREATE_SENDMAIL_BODY (\<lambda>info l buf. Some (AEM_API_STATUS_OK, info, smtp_quit True l))
      = Some (AEM_API_STATUS_OK, info', l')" using d msg(1) by (simp add: mail_data_def)
  from and_then_Some [OF this e(5)] msg(2) obtain buf where
    "l' = l @ [(True, txt_ehlo x), (True, txt_from x e), (True, txt_to e), (True, str ''DATA'' @ crlf),
       (True, msg), (True, str ''QUIT'' @ crlf)]" "oi_status info' = take 127 buf" "take 3 buf = str ''250''"
    by (auto simp: smtp_quit_def numeral_3_eq_3)
  moreover from this have "take 3 (oi_status info') = str ''250''" by simp
  ultimately show ?thesis using msg(1) by blast
qed

lemma sendMail_ok:
  assumes "sendMail x sv e info = Some (AEM_API_STATUS_OK, info', l)"
  shows "\<exists>msg. createEmail x e = Mail msg \<and> take 3 (oi_status info') = str ''250'' \<and>
     l = [(False, txt_ehlo x), (False, str ''STARTTLS'' @ crlf), (True, txt_ehlo x), (True, txt_from x e),
       (True, txt_to e), (True, str ''DATA'' @ crlf), (True, msg), (True, str ''QUIT'' @ crlf)]"
proof -
  have n: "txt_ehlo x \<noteq> []" "str ''STARTTLS'' @ crlf \<noteq> []" by (simp_all add: txt_ehlo_def crlf_def)
  have "sv_ssl sv \<and> sv_sock sv" using assms by (auto simp: sendMail_def mail_errors split: if_splits)
  with assms obtain i l0 where
    "sendMail_tls x sv e i l0 = Some (AEM_API_STATUS_OK, info', l)"
    "l0 = [(False, txt_ehlo x), (False, str ''STARTTLS'' @ crlf)]"
    using n by (auto simp: sendMail_def mail_errors Let_def dest!: and_then_Some split: if_splits)
  then show ?thesis using sendMail_tls_ok by fastforce
qed

text \<open>C15: a mail is reported as sent only when the whole conversation took place, with the complete message
  inside the encrypted connection and a reply that begins with 250 to it; and whatever the outcome, only the
  EHLO, STARTTLS and QUIT commands go over the connection unencrypted.\<close>

theorem mail_sent:
  assumes "sendMail x sv e info = Some (r, info', l)"
  shows "(\<forall>t. (False, t) \<notin> set l \<or> t \<in> {txt_ehlo x, str ''STARTTLS'' @ crlf, str ''QUIT'' @ crlf}) \<and>
    (r \<noteq> AEM_API_STATUS_OK \<or>
     (\<exists>msg. createEmail x e = Mail msg \<and> take 3 (oi_status info') = str ''250'' \<and>
       l = [(False, txt_ehlo x), (False, str ''STARTTLS'' @ crlf), (True, txt_ehlo x), (True, txt_from x e),
         (True, txt_to e), (True, str ''DATA'' @ crlf), (True, msg), (True, str ''QUIT'' @ crlf)]))"
proof (rule conjI)
  show "\<forall>t. (False, t) \<notin> set l \<or> t \<in> {txt_ehlo x, str ''STARTTLS'' @ crlf, str ''QUIT'' @ crlf}"
    using sendMail_clear [OF assms] unfolding in_clear_def by blast
  show "r \<noteq> AEM_API_STATUS_OK \<or> (\<exists>msg. createEmail x e = Mail msg \<and> take 3 (oi_status info') = str ''250'' \<and>
       l = [(False, txt_ehlo x), (False, str ''STARTTLS'' @ crlf), (True, txt_ehlo x), (True, txt_from x e),
         (True, txt_to e), (True, str ''DATA'' @ crlf), (True, msg), (True, str ''QUIT'' @ crlf)])"
    using sendMail_ok [of x sv e info info' l] assms by blast
qed

definition demo_srv :: mail_srv where
  "demo_srv = \<lparr>sv_ssl = True, sv_sock = True, sv_tls = True, sv_through = (\<lambda>l. True),
     sv_reply = (\<lambda>l. Some (str (if l = [] then ''220 hi'' else if length l = 1 then ''250 STARTTLS''
       else if length l = 2 then ''220 go'' else if length l = 6 then ''354 go'' else ''250 ok'') @ crlf))\<rparr>"

lemma demo_command:
  assumes "t \<noteq> []"
  shows "smtpCommand demo_srv tls t (str ''250'') i [] = Cmd_Ok (i\<lparr>oi_status := str ''250 STARTTLS'' @ crlf\<rparr>) [(tls, t)] (str ''250 STARTTLS'' @ crlf)"
    "length l = 1 \<Longrightarrow> smtpCommand demo_srv tls t (str ''220'') i l = Cmd_Ok (i\<lparr>oi_status := str ''220 go'' @ crlf\<rparr>) (l @ [(tls, t)]) (str ''220 go'' @ crlf)"
    "length l = 5 \<Longrightarrow> smtpCommand demo_srv tls t (str ''354'') i l = Cmd_Ok (i\<lparr>oi_status := str ''354 go'' @ crlf\<rparr>) (l @ [(tls, t)]) (str ''354 go'' @ crlf)"
    "length l \<in> {2, 3, 4, 6} \<Longrightarrow> smtpCommand demo_srv tls t (str ''250'') i l = Cmd_Ok (i\<lparr>oi_status := str ''250 ok'' @ crlf\<rparr>) (l @ [(tls, t)]) (str ''250 ok'' @ crlf)"
  using assms by (auto simp: smtpCommand_def demo_srv_def Let_def crlf_def str_def)

lemma demo_greeting:
  "smtpCommand demo_srv tls [] (str ''220 '') i [] = Cmd_Ok (i\<lparr>oi_status := str ''220 hi'' @ crlf\<rparr>) [] (str ''220 hi'' @ crlf)"
  by (simp add: smtpCommand_def demo_srv_def Let_def crlf_def str_def)

lemma demo_starttls: "memcasemem (cstr (str ''250 STARTTLS'' @ crlf)) (str ''STARTTLS'') \<noteq> None"
  by code_simp

lemma demo_session:
  assumes "createEmail demo_mail e = Mail msg"
  shows "\<exists>info' l. sendMail demo_mail demo_srv e i = Some (AEM_API_STATUS_OK, info', l)"
proof -
  have n: "txt_ehlo demo_mail \<noteq> []" "str ''STARTTLS'' @ crlf \<noteq> []" "txt_from demo_mail e \<noteq> []" "txt_to e \<noteq> []"
    "str ''DATA'' @ crlf \<noteq> []" "msg \<noteq> []"
    using createEmail_nonempty [OF assms] by (simp_all add: txt_ehlo_def txt_from_def txt_to_def crlf_def)
  have s: "sv_ssl demo_srv" "sv_sock demo_srv" "sv_tls demo_srv" by (simp_all add: demo_srv_def)
  have "length crlf = 2" by (simp add: crlf_def)
  with demo_starttls n s assms show ?thesis
    by (auto simp: sendMail_def demo_greeting and_then_def demo_command Let_def sendMail_tls_def mail_data_def)
qed

theorem mail_sent_witness:
  "\<exists>info' msg. sendMail demo_mail demo_srv (demo_email (str ''bob@b.test'') [46, 104, 13, 10]) \<lparr>oi_timestamp = 0, oi_greeting = [], oi_status = []\<rparr> =
     Some (AEM_API_STATUS_OK, info', [(False, txt_ehlo demo_mail), (False, str ''STARTTLS'' @ crlf), (True, txt_ehlo demo_mail),
       (True, str ''MAIL FROM: <alice@allears.test>'' @ crlf), (True, str ''RCPT TO: <bob@b.test>'' @ crlf),
       (True, str ''DATA'' @ crlf), (True, msg), (True, str ''QUIT'' @ crlf)]) \<and>
     createEmail demo_mail (demo_email (str ''bob@b.test'') [46, 104, 13, 10]) = Mail msg"
proof -
  have t: "demo_text (str ''bob@b.test'')" by (simp add: demo_text_def) (simp add: clean_def str_def)
  let ?e = "demo_email (str ''bob@b.test'') [46, 104, 13, 10]" and ?i = "\<lparr>oi_timestamp = 0, oi_greeting = [], oi_status = []\<rparr>"
  obtain msg where "createEmail demo_mail ?e = Mail msg"
    by (simp add: createEmail_demo [OF t] Let_def length_demo [OF t] crlf_def)
  from demo_session [OF this, of ?i] obtain info' l where
    s: "sendMail demo_mail demo_srv ?e ?i = Some (AEM_API_STATUS_OK, info', l)" by blast
  have "txt_from demo_mail ?e = str ''MAIL FROM: <alice@allears.test>'' @ crlf" "txt_to ?e = str ''RCPT TO: <bob@b.test>'' @ crlf"
    by (simp_all add: txt_from_def txt_to_def demo_fields [OF t] demo_sel) (simp_all add: str_def)
  then show ?thesis using mail_sent [OF s] s by fastforce
qed

end
