(* ===== verification/Api_Claims.thy ===== *)
theory Api_Claims
  imports Api Api_Mail_Claims IntCom_Claims
begin

text \<open>
  Properties of AEM-API: what a client can read from a response, that nothing happens before AEM-Account
  has accepted a request, what a user's email becomes, and where the code goes wrong.
\<close>

section \<open>Responses\<close>

definition gcm_ok :: "api_world \<Rightarrow> bool" where
  "gcm_ok w \<longleftrightarrow> (\<forall>k n m. aw_dec w k n (aw_enc w k n m) = Some m \<and> length (aw_enc w k n m) = length m + 16) \<and>
     (\<forall>n. length (aw_rnd w n) = n)"

lemma length_decimal_Suc: "10 ^ k \<le> n \<Longrightarrow> n < 10 ^ Suc k \<Longrightarrow> length (decimal n) = Suc k"
proof (induction k arbitrary: n)
  case 0
  then show ?case by (subst decimal.simps) simp
next
  case (Suc k)
  have "1 \<le> (10 :: nat) ^ k" by simp
  then have "\<not> n < 10" using Suc.prems(1) unfolding power_Suc by linarith
  moreover have "10 ^ k \<le> n div 10" "n div 10 < 10 ^ Suc k"
    using Suc.prems by (simp_all add: less_mult_imp_div_less mult.commute less_eq_div_iff_mult_less_eq)
  ultimately show ?case using Suc.IH [of "n div 10"] by (subst decimal.simps) simp
qed

lemma numDigits_decimal:
  assumes "10 \<le> n" "n < 10 ^ 7"
  shows "numDigits n = length (decimal n)"
proof -
  note d = length_decimal_Suc [of _ n]
  show ?thesis using assms d [of 1] d [of 2] d [of 3] d [of 4] d [of 5] d [of 6]
    by (simp add: numDigits_def)
qed

lemma length_http_ok: "length (http_ok n) = 70 + length (decimal n)"
  by (simp add: http_ok_def crlf_def)

lemma length_http_empty: "length code = 3 \<Longrightarrow> length (http_empty code) = 71"
  by (simp add: http_empty_def crlf_def)

lemma length_api_pad:
  assumes "gcm_ok w"
  shows "length (api_pad w data) = 1 + 256 * ((length data + 255) div 256)"
proof -
  have "(a + 255) div 256 * 256 = (if a mod 256 = 0 then a else a + (256 - a mod 256))" for a :: nat
  proof -
    define q r where "q = a div 256" and "r = a mod 256"
    have a: "a = r + 256 * q" and r: "r < 256" by (simp_all add: q_def r_def)
    have "(a + 255) div 256 = q + (r + 255) div 256" unfolding a
      using div_mult_self2 [of 256 "r + 255" q] by (simp add: algebra_simps)
    moreover have "(r + 255) div 256 = (if r = 0 then 0 else 1)"
      using r div_nat_eqI [of 256 1 "r + 255"] by (cases r) simp_all
    ultimately show ?thesis using a r unfolding r_def [symmetric] by auto
  qed
  then show ?thesis using assms by (simp add: api_pad_def gcm_ok_def Let_def mult.commute)
qed

lemma apiResponse_eq:
  assumes "gcm_ok w" "aw_mem w 1" "length data \<le> 9999000"
  shows "apiResponse w data s =
     send_out (http_ok (length (api_pad w data) + 16) @ aw_enc w (as_rbk s) (replicate 12 0) (api_pad w data)) s"
proof -
  let ?p = "api_pad w data"
  let ?n = "length ?p + 16" and ?e = "aw_enc w (as_rbk s) (replicate 12 0) (api_pad w data)"
  have b: "(length data + 255) div 256 \<le> 39059" using assms(3) by (simp add: div_le_mono less_Suc_eq_le [symmetric] div_less_iff_less_mult)
  then have "?n < 10 ^ 7" "10 \<le> ?n" by (simp_all add: length_api_pad [OF assms(1)])
  then have h: "70 + numDigits ?n = length (http_ok ?n)" by (simp add: numDigits_decimal length_http_ok)
  have c: "length (aw_enc w (as_rbk s) (replicate 12 0) ?p) = ?n" using assms(1) by (simp add: gcm_ok_def)
  have "write_at (length h) e (write_at 0 (h @ [0]) (replicate (length h + length e) 0)) = h @ e" if "e \<noteq> []" for h e
    using that by (cases e) (simp_all add: write_at_def)
  moreover have "aw_enc w (as_rbk s) (replicate 12 0) ?p \<noteq> []" using c by auto
  ultimately have wr: "write_at (length h) ?e (write_at 0 (h @ [0]) (replicate (length h + length ?e) 0)) = h @ ?e" for h
    by blast
  show ?thesis using wr [of "http_ok ?n", unfolded c] assms(2)
    by (simp only: apiResponse_def Let_def h not_True_eq_False if_False)
qed

text \<open>What a client makes of the decrypted response.\<close>

definition unpad :: "byte list \<Rightarrow> byte list" where
  "unpad p = take (length p - 1 - unat (hd p)) (tl p)"

lemma unpad_pad: "gcm_ok w \<Longrightarrow> unpad (api_pad w data) = data"
  by (auto simp: unpad_def api_pad_def Let_def gcm_ok_def unat_of_nat)

text \<open>C21: the response to a request is one HTTP message with its exact length in the header; decrypting and
  unpadding its body gives the data, and its length tells no more than how many blocks of 256 bytes the
  data takes.\<close>

theorem response_read:
  assumes "gcm_ok w" "aw_mem w 1" "length data \<le> 9999000"
  shows "\<exists>body p. as_out (apiResponse w data s) = as_out s @ [http_ok (length body) @ body] \<and>
     aw_dec w (as_rbk s) (replicate 12 0) body = Some p \<and> unpad p = data \<and>
     length body = 17 + 256 * ((length data + 255) div 256)"
proof -
  let ?b = "aw_enc w (as_rbk s) (replicate 12 0) (api_pad w data)"
  have "aw_dec w (as_rbk s) (replicate 12 0) ?b = Some (api_pad w data)" "length ?b = length (api_pad w data) + 16"
    using assms(1) by (simp_all add: gcm_ok_def)
  then show ?thesis
    using apiResponse_eq [OF assms] unpad_pad [OF assms(1)] length_api_pad [OF assms(1)]
    by (intro exI [of _ ?b] exI [of _ "api_pad w data"]) (simp add: send_out_def)
qed

section \<open>The body of an email\<close>

text \<open>Every carriage return is followed by a line feed; no line has more than 998 characters.\<close>

fun cr_ok :: "byte list \<Rightarrow> bool" where
  "cr_ok [] = True"
| "cr_ok (c # cs) = ((c = 13 \<longrightarrow> take 1 cs = [10]) \<and> cr_ok cs)"

fun lines_fit :: "nat \<Rightarrow> byte list \<Rightarrow> bool" where
  "lines_fit n [] = True"
| "lines_fit n (c # cs) =
     (if c = 10 then lines_fit 0 cs else if c = 13 then lines_fit n cs else n < 998 \<and> lines_fit (n + 1) cs)"

definition text_char :: "byte \<Rightarrow> bool" where
  "text_char c \<longleftrightarrow> c = 9 \<or> c = 10 \<or> c = 13 \<or> (32 \<le> c \<and> c < 127)"

lemma text_char_crlf [simp]: "text_char 10" "text_char 13"
  by (simp_all add: text_char_def)

lemma body_loop_text:
  assumes "body_loop most n out src = Inr res" "length out \<le> most"
  shows "\<exists>m. res = out @ m \<and> lf_ok l m \<and> cr_ok m \<and> lines_fit n m \<and> list_all text_char m \<and> length res \<le> most"
  using assms
proof (induction most n out src arbitrary: l rule: body_loop.induct)
  case (2 most n out c src)
  show ?case
  proof (cases "c = 10")
    case True
    then have s: "\<not> length (out @ crlf) > most" "body_loop most 0 (out @ crlf) src = Inr res"
      using "2.prems" by (auto simp: Let_def split: if_splits)
    obtain m where "res = (out @ crlf) @ m" "lf_ok 10 m" "cr_ok m" "lines_fit 0 m" "list_all text_char m" "length res \<le> most"
      using "2.IH"(1) [OF True refl s(1,2), of 10] s(1) by (auto simp: not_less)
    then show ?thesis by (intro exI [of _ "crlf @ m"]) (simp add: crlf_def)
  next
    case False
    then have c: "\<not> ((c < 32 \<and> c \<noteq> 9) \<or> c = 127)" "\<not> c > 127" "\<not> n + 1 > 998" "\<not> length (out @ [c]) > most"
      and s: "body_loop most (n + 1) (out @ [c]) src = Inr res"
      using "2.prems" by (auto simp: Let_def split: if_splits)
    obtain m where m: "res = (out @ [c]) @ m" "lf_ok c m" "cr_ok m" "lines_fit (n + 1) m" "list_all text_char m" "length res \<le> most"
      using "2.IH"(2) [OF False c(1,2,3) refl c(4) s, of c] c(4) by (auto simp: not_less)
    have "c \<noteq> 13" using c(1) by auto
    moreover have "text_char c" using c(1,2) by (auto simp: text_char_def not_less word_le_less_eq)
    ultimately show ?thesis using m False c(3) by (intro exI [of _ "c # m"]) simp
  qed
qed simp

lemma prefix_text:
  assumes "lf_ok l (a @ b)" "lines_fit n (a @ b)" "list_all text_char (a @ b)"
  shows "lf_ok l a" "lines_fit n a" "list_all text_char a"
proof -
  show "lf_ok l a" "list_all text_char a" using assms by (simp_all add: lf_ok_append)
  show "lines_fit n a" using assms(2) by (induction n a rule: lines_fit.induct) (auto split: if_splits)
qed

lemma cr_ok_prefix: "cr_ok (a @ b) \<Longrightarrow> a \<noteq> [] \<Longrightarrow> last a \<noteq> 13 \<Longrightarrow> cr_ok a"
proof (induction a)
  case (Cons c a)
  then show ?case by (cases a) auto
qed simp

lemma cr_ok_append: "cr_ok a \<Longrightarrow> a = [] \<or> last a \<noteq> 13 \<Longrightarrow> cr_ok b \<Longrightarrow> cr_ok (a @ b)"
proof (induction a)
  case (Cons c a)
  then show ?case by (cases a) auto
qed simp

lemma rtrim_prefix: "\<exists>b. bs = rtrim bs @ b" "rtrim bs \<noteq> [] \<Longrightarrow> \<not> is_space (last (rtrim bs))"
proof -
  have "rev bs = takeWhile is_space (rev bs) @ dropWhile is_space (rev bs)" by simp
  then have "bs = rev (dropWhile is_space (rev bs)) @ rev (takeWhile is_space (rev bs))"
    by (metis rev_append rev_rev_ident)
  then show "\<exists>b. bs = rtrim bs @ b" by (auto simp: rtrim_def)
  show "rtrim bs \<noteq> [] \<Longrightarrow> \<not> is_space (last (rtrim bs))"
    by (simp add: rtrim_def last_rev hd_dropWhile)
qed

text \<open>What is known of a body that was not refused.\<close>

definition body_ok :: "byte list \<Rightarrow> bool" where
  "body_ok body \<longleftrightarrow> (\<exists>r. body = r @ crlf) \<and> lf_ok 10 body \<and> cr_ok body \<and> lines_fit 0 body \<and> list_all text_char body"

lemma email_body_ok:
  assumes "email_body mem src = Inr body"
  shows "body_ok body \<and> 15 \<le> length body \<and> length body \<le> length src + 952"
proof -
  obtain out where o: "body_loop (length src + 950) 0 [] src = Inr out" "body = rtrim out @ crlf" "15 \<le> length body"
    using assms by (auto simp: email_body_def Let_def split: if_splits sum.splits)
  have m: "lf_ok 10 out" "cr_ok out" "lines_fit 0 out" "list_all text_char out" "length out \<le> length src + 950"
    using body_loop_text [OF o(1), of 10] by auto
  obtain b where b: "out = rtrim out @ b" using rtrim_prefix(1) by blast
  have p: "lf_ok 10 (rtrim out)" "lines_fit 0 (rtrim out)" "list_all text_char (rtrim out)"
    using prefix_text [of 10 "rtrim out" b 0] m b by simp_all
  have sp: "rtrim out = [] \<or> \<not> is_space (last (rtrim out))" using rtrim_prefix(2) by blast
  then have l: "rtrim out = [] \<or> last (rtrim out) \<noteq> 13" by (auto simp: is_space_def)
  have "cr_ok (rtrim out)" using cr_ok_prefix [of "rtrim out" b] m(2) b l by (cases "rtrim out = []") auto
  then have "cr_ok body" using l by (auto simp: o(2) crlf_def intro: cr_ok_append)
  moreover have "lines_fit n (a @ crlf) = lines_fit n a" for n a
    by (induction n a rule: lines_fit.induct) (simp_all add: crlf_def)
  moreover have "lf_ok 10 body" using p(1) by (simp add: o(2) lf_ok_append crlf_def)
  moreover have "length (rtrim out) \<le> length out" using b by (metis le_add1 length_append)
  ultimately show ?thesis using p o(2,3) m(5) unfolding body_ok_def by (auto simp: crlf_def)
qed

section \<open>From the request to the other server\<close>

lemma cpyEmail_text:
  assumes "cpyEmail src k = Some (t, r)"
  shows "length t \<le> 127" "clean t" "0 \<notin> set t" "k \<le> length t"
proof -
  have h: "length t \<le> 127" "list_all (\<lambda>b. 32 \<le> b \<and> b < 127) t" "k \<le> length t"
    using assms by (auto simp: cpyEmail_def Let_def split: if_splits)
  then show "length t \<le> 127" "clean t" "0 \<notin> set t" "k \<le> length t" by (auto simp: clean_def list_all_iff)
qed

lemma cstr_array: "length t < n \<Longrightarrow> cstr (char_array n t @ u) = cstr t"
proof -
  assume "length t < n"
  then obtain k where k: "n - length t = Suc k" by (metis Suc_diff_Suc)
  have "cstr (t @ 0 # v) = cstr t" for v by (induction t) (simp_all add: cstr_def)
  then show ?thesis using k by (simp add: char_array_def)
qed

lemma cstr_no_zero: "0 \<notin> set t \<Longrightarrow> cstr t = t"
  by (auto simp: cstr_def takeWhile_eq_all_conv)

lemma length_array [simp]: "length t \<le> n \<Longrightarrow> length (char_array n t) = n"
  by (simp add: char_array_def)

text \<open>The texts of the email behind the reply of AEM-Enquiry are those of the request.\<close>

lemma request_parts:
  assumes "make_email mem uid adm key urlData src = Inr e" "use_enquiry enq e = Some e'" "length enq = 390"
    "length urlData = 16" "length key \<le> 2048"
  shows "\<exists>s1 s2 s3. cpyEmail src 5 = Some (oe_addrTo e', s1) \<and> cpyEmail s1 0 = Some (oe_replyId e', s2) \<and>
     cpyEmail s2 2 = Some (oe_subject e', s3) \<and> email_body mem s3 = Inr (oe_body e') \<and>
     oe_addrFrom e' = cstr urlData \<and> oe_body e' = oe_body e \<and> oe_isAdmin e' = adm"
proof -
  obtain addrTo replyId subject s1 s2 s3 where
    c: "cpyEmail src 5 = Some (addrTo, s1)" "cpyEmail s1 0 = Some (replyId, s2)" "cpyEmail s2 2 = Some (subject, s3)"
      "email_body mem s3 = Inr (oe_body e)" "oe_isAdmin e = adm"
    and m: "oe_mem e = replicate 384 0 @ char_array 25 urlData @ char_array 128 addrTo @ char_array 128 replyId
             @ char_array 128 subject @ char_array 2048 key"
    using assms(1) by (auto simp: make_email_def split: option.splits sum.splits if_splits)
  have e': "oe_mem e' = drop 6 enq @ char_array 25 urlData @ char_array 128 addrTo @ char_array 128 replyId
             @ char_array 128 subject @ char_array 2048 key" "oe_body e' = oe_body e" "oe_isAdmin e' = adm"
    using assms(2,3) m c(5) by (auto simp: use_enquiry_def write_at_def split: if_splits)
  have l: "length (drop 6 enq) = 384" "length urlData \<le> 25" using assms(3,4) by simp_all
  note t = cpyEmail_text [OF c(1)] cpyEmail_text [OF c(2)] cpyEmail_text [OF c(3)]
  have "oe_addrTo e' = addrTo" "oe_replyId e' = replyId" "oe_subject e' = subject" "oe_addrFrom e' = cstr urlData"
    using e'(1) l t assms(4)
    by (simp_all add: oe_addrTo_def oe_replyId_def oe_subject_def oe_addrFrom_def cstr_array cstr_no_zero)
  then show ?thesis using e'(2,3) c by auto
qed

lemma request_fields:
  assumes "make_email mem uid adm key urlData src = Inr e" "use_enquiry enq e = Some e'" "length enq = 390"
    "length urlData = 16" "length key \<le> 2048"
  shows "oe_addrFrom e' = cstr urlData" "clean (oe_addrTo e')" "clean (oe_replyId e')" "clean (oe_subject e')"
    "oe_body e' = oe_body e" "\<exists>m s. email_body m s = Inr (oe_body e)"
proof -
  obtain s1 s2 s3 where "cpyEmail src 5 = Some (oe_addrTo e', s1)" "cpyEmail s1 0 = Some (oe_replyId e', s2)"
    "cpyEmail s2 2 = Some (oe_subject e', s3)" "email_body mem s3 = Inr (oe_body e')"
    "oe_addrFrom e' = cstr urlData" "oe_body e' = oe_body e" using request_parts [OF assms] by blast
  moreover from this have "email_body mem s3 = Inr (oe_body e)" by simp
  ultimately show "oe_addrFrom e' = cstr urlData" "clean (oe_addrTo e')" "clean (oe_replyId e')" "clean (oe_subject e')"
    "oe_body e' = oe_body e" "\<exists>m s. email_body m s = Inr (oe_body e)"
    using cpyEmail_text(2) by blast+
qed

text \<open>What is relied on of the clock, Base64, our domain's name and the keys for identifiers.\<close>

definition ext_clean :: "mail_ext \<Rightarrow> bool" where
  "ext_clean x \<longleftrightarrow> clean (mx_domain x) \<and> (\<forall>r. mx_rfctime x = Some r \<longrightarrow> clean r) \<and>
     (\<forall>b. clean (mx_base64 x b)) \<and> cs_ok (msgid_cs (mx_keys x))"

text \<open>C12: an email that AEM-API has taken from a user - checked, completed with the reply of AEM-Enquiry and
  written out with headers and signature - reaches the other side intact, when the sender's address in the request has
  no line break (which the code does not check, see \<open>sender_injects\<close>): it ends where the receiver
  looks for the end, and undoing the doubled dots (here with the loop of AEM-Deliver) gives exactly the signature's
  header, the other headers made of the texts of the request, an empty line and the body, which has no line of more
  than 998 characters, no bare carriage return or line feed and no other control character.\<close>

theorem request_mail_arrives:
  assumes "make_email mem uid adm key urlData src = Inr e" "use_enquiry enq e = Some e'" "length enq = 390"
    "length urlData = 16" "clean urlData" "length key \<le> 2048" "ext_clean x" "createEmail x e' = Mail final"
  shows "(\<exists>s1 s2 s3. cpyEmail src 5 = Some (oe_addrTo e', s1) \<and> cpyEmail s1 0 = Some (oe_replyId e', s2) \<and>
       cpyEmail s2 2 = Some (oe_subject e', s3) \<and> email_body mem s3 = Inr (oe_body e')) \<and>
     oe_addrFrom e' = cstr urlData \<and> body_ok (oe_body e') \<and>
     (\<exists>rfctime bodyHash headHash sig. mx_rfctime x = Some rfctime \<and> mx_sha256 x (oe_body e') = Some bodyHash \<and>
       mx_sha256 x (mail_plain x e' rfctime (mail_msgId x e') @ mail_dkim x e' (mx_base64 x bodyHash)) = Some headHash \<and>
       rsa_sign_b64 x headHash (take (oe_lenRsaKey e') (oe_rsaKey e')) = Sig sig \<and>
       memmem final end_mark = Some (length final - 5) \<and>
       convertLineDots (10 # take (length final - 3) final) = 10 # mail_text x e' rfctime bodyHash sig)"
proof -
  note f = request_fields [OF assms(1-4,6)]
  have "clean (oe_addrFrom e')" using assms(5) f(1) clean_cstr [of urlData 16] assms(4) by simp
  then have "texts_clean x e'" using f assms(7) by (simp add: texts_clean_def ext_clean_def)
  moreover have b: "body_ok (oe_body e')" using f(5,6) email_body_ok by auto
  moreover from b have "lf_ok 10 (oe_body e')" "\<exists>r. oe_body e' = r @ crlf" by (simp_all add: body_ok_def)
  ultimately show ?thesis using created_mail_arrives [OF assms(8)] request_parts [OF assms(1-4,6)] by blast
qed

text \<open>A line break in the sender's address: the encoding of the address leaves it out, so AEM-Account finds the
  address of the user, but it is written into the email, where another header begins.\<close>

lemma sender_injects:
  "addr32_store (str ''ab'' @ crlf @ str ''Bcc:c'') = addr32_store (str ''abbccc'')"
  "oe_addrFrom e = str ''ab'' @ crlf @ str ''Bcc:c'' \<Longrightarrow>
   \<exists>rest. mail_plain x e r i = mail_ref e @ str ''From: ab'' @ crlf @ str ''Bcc:c@'' @ mx_domain x @ crlf @ rest"
proof -
  show "addr32_store (str ''ab'' @ crlf @ str ''Bcc:c'') = addr32_store (str ''abbccc'')" by code_simp
  show "\<exists>rest. mail_plain x e r i = mail_ref e @ str ''From: ab'' @ crlf @ str ''Bcc:c@'' @ mx_domain x @ crlf @ rest"
    if "oe_addrFrom e = str ''ab'' @ crlf @ str ''Bcc:c''"
    by (simp add: mail_plain_def that) (simp add: str_def)
qed

section \<open>Examples\<close>

definition demo_world :: "(ic_call list \<Rightarrow> int \<times> byte list option) \<Rightarrow> api_world" where
  "demo_world ic =
     \<lparr>aw_ic = ic, aw_now = AEM_TS_BEGIN, aw_mem = (\<lambda>n. True), aw_rnd = (\<lambda>n. replicate n 9),
      aw_enc = (\<lambda>k n m. m @ replicate 16 5), aw_dec = (\<lambda>k n c. Some (take (length c - 16) c)), aw_peek = 1000,
      aw_b64 = take 39, aw_domain = setOurDomain (str ''allears.test''), aw_mail = demo_mail, aw_srv = demo_srv\<rparr>"

lemma demo_world_sel [simp]:
  "aw_ic (demo_world ic) = ic" "aw_now (demo_world ic) = AEM_TS_BEGIN" "aw_mem (demo_world ic) i"
  "aw_peek (demo_world ic) = 1000" "aw_mail (demo_world ic) = demo_mail" "aw_srv (demo_world ic) = demo_srv"
  "aw_dec (demo_world ic) k n c = Some (take (length c - 16) c)"
  by (simp_all add: demo_world_def)

lemma demo_world_ok: "gcm_ok (demo_world ic)"
  by (simp add: gcm_ok_def demo_world_def)

definition fresh :: "byte list \<Rightarrow> api_st" where
  "fresh inp = \<lparr>as_in = inp, as_rbk = replicate 32 0, as_calls = [], as_out = []\<rparr>"

theorem response_read_witness:
  "\<exists>body p. as_out (apiResponse (demo_world (\<lambda>cs. (0, None))) [65, 66, 67] (fresh [])) = [http_ok 273 @ body] \<and> length body = 273 \<and>
     aw_dec (demo_world (\<lambda>cs. (0, None))) (replicate 32 0) (replicate 12 0) body = Some p \<and> unpad p = [65, 66, 67]"
  using response_read [OF demo_world_ok, of "\<lambda>cs. (0, None)" "[65, 66, 67]" "fresh []"] by (auto simp: fresh_def)

definition demo_request :: "byte list" where
  "demo_request = str ''bob@b.test'' @ [10] @ str ''x1@b.test'' @ [10] @ str ''Hi'' @ [10] @
     str ''.dots and text'' @ [10] @ str ''.'' @ [10] @ str ''end''"

lemma demo_lines:
  "cpyEmail demo_request 5 = Some (str ''bob@b.test'', drop 11 demo_request)"
  "cpyEmail (drop 11 demo_request) 0 = Some (str ''x1@b.test'', drop 21 demo_request)"
  "cpyEmail (drop 21 demo_request) 2 = Some (str ''Hi'', str ''.dots and text'' @ [10] @ str ''.'' @ [10] @ str ''end'')"
  by code_simp+

lemma demo_body:
  "email_body True (str ''.dots and text'' @ [10] @ str ''.'' @ [10] @ str ''end'')
      = Inr (str ''.dots and text'' @ crlf @ str ''.'' @ crlf @ str ''end'' @ crlf)"
proof -
  have "isValidUtf8 (str ''.dots and text'' @ [10] @ str ''.'' @ [10] @ str ''end'')" by code_simp
  then show ?thesis by (simp add: email_body_def) (simp add: str_def crlf_def rtrim_def is_space_def)
qed

definition demo_url :: "byte list" where
  "demo_url = str ''alice'' @ replicate 11 0"

lemma demo_made:
  "\<exists>e. make_email True 5 False (replicate 100 1) demo_url demo_request = Inr e \<and>
     oe_body e = str ''.dots and text'' @ crlf @ str ''.'' @ crlf @ str ''end'' @ crlf"
proof -
  have "list_all (List.member reply_chars) (str ''x1@b.test'')" by code_simp
  then show ?thesis using demo_lines demo_body by (simp add: make_email_def)
qed

lemma demo_ext_clean: "ext_clean demo_mail"
  using setMsgIdKey_cs_ok [OF plain_keys_set]
  by (simp add: ext_clean_def demo_mail_def) (simp add: clean_def str_def)

lemma mail_plain_bound:
  "length (mail_plain x e r i) \<le> 118 + 2 * length (oe_replyId e) + length (oe_addrFrom e) + 2 * length (mx_domain x)
     + length r + length (oe_subject e) + length (oe_addrTo e)"
proof -
  have "length (cstr (take 26 i)) \<le> 26"
    unfolding cstr_def by (metis length_take length_takeWhile_le min.cobounded2 order_trans)
  then show ?thesis by (simp add: mail_plain_def mail_ref_def crlf_def)
qed

lemma demo_dkim_bound: "length (mail_dkim demo_mail e (replicate 44 65)) = 287 + length (oe_addrFrom e)"
  by (simp add: mail_dkim_def demo_sel decimal.simps)

theorem request_mail_arrives_witness:
  "\<exists>e e' final r h sig. make_email True 5 False (replicate 100 1) demo_url demo_request = Inr e \<and>
     use_enquiry (replicate 390 0) e = Some e' \<and> createEmail demo_mail e' = Mail final \<and>
     memmem final end_mark = Some (length final - 5) \<and>
     convertLineDots (10 # take (length final - 3) final) = 10 # mail_text demo_mail e' r h sig \<and>
     oe_addrFrom e' = str ''alice'' \<and>
     oe_body e' = str ''.dots and text'' @ crlf @ str ''.'' @ crlf @ str ''end'' @ crlf"
proof -
  obtain e where e: "make_email True 5 False (replicate 100 1) demo_url demo_request = Inr e"
    "oe_body e = str ''.dots and text'' @ crlf @ str ''.'' @ crlf @ str ''end'' @ crlf" using demo_made by blast
  obtain e' where e': "use_enquiry (replicate 390 0) e = Some e'" by (simp add: use_enquiry_def LEN_OE_MEM_def)
  have u: "length demo_url = 16" "clean demo_url" "cstr demo_url = str ''alice''"
    by (simp add: demo_url_def) (simp_all add: demo_url_def clean_def str_def cstr_def)
  have k: "length (replicate 100 (1 :: byte)) \<le> 2048" "length (replicate 390 (0 :: byte)) = 390" by simp_all
  note f = request_fields [OF e(1) e' k(2) u(1) k(1)]
  have p: "oe_addrTo e' = str ''bob@b.test''" "oe_replyId e' = str ''x1@b.test''" "oe_subject e' = str ''Hi''"
    using request_parts [OF e(1) e' k(2) u(1) k(1)] demo_lines by auto
  have tc: "texts_clean demo_mail e'" using f u(2,3) demo_ext_clean by (simp add: texts_clean_def ext_clean_def) (simp add: clean_def str_def)
  have sz: "length (mail_plain demo_mail e' r i) \<le> 177 + length r" for r i
    using mail_plain_bound [of demo_mail e' r i] f(1) u(3) by (simp add: p demo_sel)
  have so: "length (stuff_out 10 (oe_body e')) = 26" unfolding f(5) e(2) by (simp add: crlf_def str_def)
  have lb: "length (oe_body e') = 24" unfolding f(5) e(2) by (simp add: crlf_def)
  obtain final where final: "createEmail demo_mail e' = Mail final"
    using createEmail_eq [OF tc demo_sel(3) demo_sel(1) demo_sel(4) demo_sel(1) demo_sign] f(1) u(3)
      sz [of "str ''Thu, 28 May 2026 20:26:40 +0000''" "mail_msgId demo_mail e'"]
    by (simp add: demo_sel Let_def so lb demo_dkim_bound crlf_def less_max_iff_disj split: if_splits)
  show ?thesis
    using request_mail_arrives [OF e(1) e' k(2) u(1,2) k(1) demo_ext_clean final] e e' final f(5) u(3) by metis
qed

section \<open>Nothing before AEM-Account's approval\<close>

lemma calls_simps [simp]:
  "as_calls (send_out bs s) = as_calls s" "as_calls (setRbk k s) = as_calls s" "as_calls (clrRbk s) = as_calls s"
  "as_out (setRbk k s) = as_out s" "as_out (clrRbk s) = as_out s" "as_out (send_out bs s) = as_out s @ [bs]"
  by (simp_all add: send_out_def setRbk_def clrRbk_def del: One_nat_def)

lemma calls_apiResponse [simp]: "as_calls (apiResponse w d s) = as_calls s"
  by (simp add: apiResponse_def respond500_def Let_def send_out_def)

lemma calls_readHeaders: "readHeaders w s = (n, s') \<Longrightarrow> as_calls s' = as_calls s \<and> as_out s' = as_out s"
  by (auto simp: readHeaders_def split: prod.splits)

lemma handleContinue_effect:
  "as_calls (handleContinue w req n s) = as_calls s \<and> as_out (handleContinue w req n s) = as_out s @ [http_empty ''408''] \<or>
   (\<exists>second. fst second = AEM_INTCOM_SERVER_ACC \<and> as_calls (handleContinue w req n s) = as_calls s @ [second] \<and>
     (fst (aw_ic w (as_calls s @ [second])) \<le> int AEM_LEN_APIRESP_BASE \<longrightarrow>
       as_out (handleContinue w req n s) = as_out s @ [http_empty ''500'']))"
proof -
  let ?s = "s\<lparr>as_in := drop n (as_in s)\<rparr>" and ?b = "take n (as_in s)"
  show ?thesis
  proof (cases "length ?b = n")
    case False
    then have "handleContinue w req n s = respond408 ?s" by (simp add: handleContinue_def recv_all_def del: length_take)
    then show ?thesis by (simp add: respond408_def)
  next
    case True
    let ?c = "(AEM_INTCOM_SERVER_ACC, 2, take AEM_API_REQ_LEN req @ ?b)"
    obtain r d where "aw_ic w (as_calls s @ [?c]) = (r, d)" by (cases "aw_ic w (as_calls s @ [?c])")
    then show ?thesis using True
      by (intro disjI2 exI [of _ ?c])
         (simp add: handleContinue_def recv_all_def ic_call_def respond500_def Let_def del: length_take)
  qed
qed

text \<open>Calls are only added.\<close>

definition grows :: "api_st \<Rightarrow> api_st \<Rightarrow> bool" where
  "grows s s' \<longleftrightarrow> (\<exists>m. as_calls s' = as_calls s @ m)"

lemma grows_refl [simp]: "grows s s"
  by (simp add: grows_def)

lemma grows_trans: "grows s t \<Longrightarrow> grows t u \<Longrightarrow> grows s u"
  by (auto simp: grows_def)

lemma grows_same [simp]:
  "grows s (apiResponse w d t) = grows s t" "grows s (setRbk k t) = grows s t" "grows s (clrRbk t) = grows s t"
  "grows (setRbk k s) t = grows s t" "grows s (t\<lparr>as_in := x\<rparr>) = grows s t" "grows (s\<lparr>as_in := x\<rparr>) t = grows s t"
  "grows s (s\<lparr>as_calls := as_calls s @ m\<rparr>)"
  by (simp_all add: grows_def setRbk_def clrRbk_def)

lemma send_all_grows: "send_all w us msg ok s = (r, s') \<Longrightarrow> grows s s'"
proof (induction us arbitrary: ok s)
  case (Cons u us)
  then have "grows (s\<lparr>as_calls := as_calls s @ [(AEM_INTCOM_SERVER_STO, unat u, msg)]\<rparr>) s'"
    by (auto simp: ic_call_def Let_def split: prod.splits)
  then show ?case by (rule grows_trans [rotated]) simp
qed (simp add: grows_def)

lemma send_email_grows: "send_email w uid adm key url src s = Some (r, s') \<Longrightarrow> grows s s'"
  by (auto simp: send_email_def ic_call_def Let_def grows_def split: if_splits sum.splits option.splits prod.splits)

lemma message_grows:
  "message_create w flags cuid url beh src s = Some (r, s') \<Longrightarrow> grows s s'"
  "message_browse w uid flags url acc s = Some s' \<Longrightarrow> grows s s'"
  "message_delete w uid url flags s = (r, s') \<Longrightarrow> grows s s'"
  "message_upload w uid url src s = (r, s') \<Longrightarrow> grows s s'"
  using send_email_grows send_all_grows
  by (fastforce simp: message_create_def send_pmail_def send_imail_def ic_call_def Let_def split: if_splits prod.splits)
     (auto simp: message_browse_def message_delete_def message_upload_def ic_call_def Let_def split: if_splits prod.splits option.splits)

lemma answer_grows:
  assumes "aem_api_answer w isPost d n s = Some s'"
  shows "grows s s'"
proof (cases isPost)
  case False
  then show ?thesis using assms message_grows(2,3)
    by (fastforce simp: aem_api_answer_def handleGet_def Let_def split: if_splits prod.splits)
next
  case True
  then show ?thesis using assms message_grows(1,4)
    by (fastforce simp: aem_api_answer_def handlePost_def recv_all_def Let_def split: if_splits prod.splits option.splits)
qed

text \<open>C11: nothing happens for a request before AEM-Account has accepted it, that is, answered with a full
  response.  A request that is too old or from the future is answered with an empty 404 and makes no call.  Every other
  one first goes to AEM-Account as it came: if it is not authentic, it is answered with an empty 403, if it is refused
  otherwise with an empty 500, and no more calls are made; if it is to be continued, there is at most one more call, to
  AEM-Account again, and unless that gives a full response the answer is an empty 400, 408 or 500.\<close>

theorem account_first:
  assumes "aem_api_process w req isPost s = Some s'" "as_calls s = []"
  shows "let first = (AEM_INTCOM_SERVER_ACC, if isPost then 2 else 1, take AEM_API_REQ_LEN req); code = fst (aw_ic w [first])
    in if \<bar>int (unat (req_binTs req)) - (aw_now w - AEM_TS_BEGIN) * 1000\<bar> > AEM_API_TIMEDIFF
       then as_calls s' = [] \<and> as_out s' = as_out s @ [http_empty ''404'']
       else if code = code_int IC_AUTHFAIL then as_calls s' = [first] \<and> as_out s' = as_out s @ [http_empty ''403'']
       else if isPost \<and> code = code_int IC_CONTINUE then
         as_calls s' = [first] \<and> (\<exists>c \<in> {''400'', ''408'', ''500''}. as_out s' = as_out s @ [http_empty c]) \<or>
         (\<exists>second. fst second = AEM_INTCOM_SERVER_ACC \<and> as_calls s' = [first, second] \<and>
           (fst (aw_ic w [first, second]) \<le> int AEM_LEN_APIRESP_BASE \<longrightarrow> as_out s' = as_out s @ [http_empty ''500'']))
       else if code < int AEM_LEN_APIRESP_BASE then as_calls s' = [first] \<and> as_out s' = as_out s @ [http_empty ''500'']
       else hd (as_calls s') = first"
proof -
  let ?first = "(AEM_INTCOM_SERVER_ACC, if isPost then 2 else 1, take AEM_API_REQ_LEN req) :: ic_call"
  obtain code d where r: "aw_ic w [?first] = (code, d)" by (cases "aw_ic w [?first]")
  let ?s = "s\<lparr>as_calls := [?first]\<rparr>"
  have ic: "ic_call w AEM_INTCOM_SERVER_ACC (if isPost then 2 else 1) (take AEM_API_REQ_LEN req) s = ((code, d), ?s)"
    using r assms(2) by (simp add: ic_call_def)
  have codes: "code_int IC_AUTHFAIL \<noteq> code_int IC_CONTINUE" "code_int IC_CONTINUE < int AEM_LEN_APIRESP_BASE"
    by (simp_all add: code_int_def AEM_LEN_APIRESP_BASE_def)
  show ?thesis
  proof (cases "\<bar>int (unat (req_binTs req)) - (aw_now w - AEM_TS_BEGIN) * 1000\<bar> > AEM_API_TIMEDIFF")
    case True
    then show ?thesis using assms by (auto simp: aem_api_process_def respond404_def Let_def)
  next
    case time: False
    show ?thesis
    proof (cases "code = code_int IC_AUTHFAIL \<or> code < int AEM_LEN_APIRESP_BASE \<and> (\<not> isPost \<or> code \<noteq> code_int IC_CONTINUE)")
      case True
      then show ?thesis using assms(1) time ic r
        by (cases "code = code_int IC_AUTHFAIL") (auto simp: aem_api_process_def respond500_def respond403_def Let_def)
    next
      case reply: False
      then have r1: "\<not> code = code_int IC_AUTHFAIL"
        and r2: "\<not> (code < int AEM_LEN_APIRESP_BASE \<and> (\<not> isPost \<or> code \<noteq> code_int IC_CONTINUE))" by blast+
      obtain lenBody t where t: "(if isPost then readHeaders w ?s else (0, ?s)) = (lenBody, t)"
        by (cases "if isPost then readHeaders w ?s else (0, ?s)")
      then have calls: "as_calls t = [?first]" "as_out t = as_out s" using calls_readHeaders by (fastforce split: if_splits)+
      have res: "Some s' =
        (if isPost \<and> (lenBody < 1 \<or> lenBody > int AEM_MSG_W_MAXSIZE) then
           (if code = code_int IC_CONTINUE then Some (respond400 t)
            else Some (clrRbk (apiResponse w [AEM_API_ERR_POST] (setRbk (resp_responseKey (the d)) t))))
         else if code = code_int IC_CONTINUE then
           Some (if isPost \<and> lenBody < 99999 then handleContinue w req (nat lenBody) t else respond500 t)
         else aem_api_answer w isPost (take (nat code) (the d)) (nat lenBody) (setRbk (resp_responseKey (the d)) t))"
        using assms(1) r1 r2 by (simp only: aem_api_process_def ic prod.case time if_False t)
      show ?thesis
      proof (cases "code = code_int IC_CONTINUE")
        case True
        then have post: "isPost" using r2 codes by auto
        have "as_calls s' = [?first] \<and> (\<exists>c \<in> {''400'', ''408'', ''500''}. as_out s' = as_out s @ [http_empty c]) \<or>
         (\<exists>second. fst second = AEM_INTCOM_SERVER_ACC \<and> as_calls s' = [?first, second] \<and>
           (fst (aw_ic w [?first, second]) \<le> int AEM_LEN_APIRESP_BASE \<longrightarrow> as_out s' = as_out s @ [http_empty ''500'']))"
          using res True post calls handleContinue_effect [of w req "nat lenBody" t]
          by (auto simp: respond400_def respond500_def split: if_splits)
        then show ?thesis using True time r post codes(1) by (simp add: Let_def)
      next
        case False
        then have "grows t s'" using res answer_grows [of w isPost _ "nat lenBody" "setRbk (resp_responseKey (the d)) t" s']
          by (auto split: if_splits)
        then have "hd (as_calls s') = ?first" using calls by (auto simp: grows_def)
        moreover have "\<not> code < int AEM_LEN_APIRESP_BASE" using r2 False by auto
        ultimately show ?thesis using False time r r1 by (simp add: Let_def)
      qed
    qed
  qed
qed

text \<open>A request for a command, made a millisecond after the start of time.\<close>

definition get_request :: "byte \<Rightarrow> byte list" where
  "get_request cmd = [1, 0, 0, 0, 0, 4 * cmd, 0] @ replicate 32 0"

definition deny :: "ic_call list \<Rightarrow> int \<times> byte list option" where
  "deny l = (code_int IC_AUTHFAIL, None)"

theorem account_first_witness:
  "\<exists>s'. aem_api_process (demo_world deny) (get_request 8) False (fresh []) = Some s' \<and>
     as_calls s' = [(AEM_INTCOM_SERVER_ACC, 1, get_request 8)] \<and> as_out s' = [http_empty ''403'']"
proof -
  have ts: "req_binTs (get_request 8) = 1" by (simp add: req_binTs_def get_request_def)
  then obtain s' where s: "aem_api_process (demo_world deny) (get_request 8) False (fresh []) = Some s'"
    by (simp add: aem_api_process_def ic_call_def fresh_def deny_def acc_consts respond403_def)
  have l: "take AEM_API_REQ_LEN (get_request 8) = get_request 8" by (simp add: get_request_def acc_consts)
  have "as_calls s' = [(AEM_INTCOM_SERVER_ACC, 1, get_request 8)] \<and> as_out s' = [http_empty ''403'']"
    using account_first [OF s, unfolded l] by (simp add: Let_def ts fresh_def deny_def acc_consts)
  with s show ?thesis by blast
qed

text \<open>An internal message takes the first bytes of the key its request was encrypted with along.\<close>

lemma imail_takes_key:
  assumes "length urlData = 16" "4 \<le> length key"
  shows "as_calls (snd (send_imail w uid urlData key src e2ee s)) = as_calls s @
    [(AEM_INTCOM_SERVER_STO, unat uid, aem_msg_init (of_int (aw_now w)) AEM_MSG_TYPE_INT 0 @ [if e2ee then 64 else 0, 0xFF, 0xFF]
       @ urlData @ take 4 key @ src)]"
  using assms by (simp add: send_imail_def ic_call_def Let_def split: prod.split)

section \<open>Whose storage\<close>

text \<open>A request to delete a message, through AEM-Account and AEM-API.\<close>

lemma base_parts:
  assumes "ext_ok x" "length req = 39" "p = decrypt_req x req False u"
  shows "\<exists>k. base_response x req False uid u p = of_nat (p_cmd p) # p_flags p # of_nat uid # take 16 (p_data p) @ k
     \<and> length k = 64 \<and> 16 \<le> length (p_data p)"
  using assms
  by (simp add: base_response_def decrypt_req_def Let_def uak_derive_def aem_kdf_sub_def ext_ok_def
      xor_bytes_def req_data_def slice_def acc_consts)

text \<open>the user whose messages a request deletes: AEM-Account finds the user \<open>api_uid\<close> to be the sender, but the
  call to AEM-Storage is for that number modulo 256, as AEM-API gets it in one byte.  From user 256 on
  a request deletes messages of another user.\<close>

theorem delete_reaches:
  assumes "ext_ok x" "length req = 39" "api_auth x e req False st = (Some (p, base), st1)" "p_cmd p = 8" "alloc_res e"
    "now e = aw_now w" "acc_conn_api x e 1 req st = Some (r, st2)"
    "aw_ic w [(AEM_INTCOM_SERVER_ACC, 1, req)] = reply_result r" "as_calls s = []"
  shows "\<exists>s'. aem_api_process w req False s = Some s' \<and> as_calls s' = [(AEM_INTCOM_SERVER_ACC, 1, req),
     (AEM_INTCOM_SERVER_STO, AEM_USERCOUNT + api_uid st1 mod 256, take (if p_flags p = 1 then 1 else 2) (p_data p))]"
proof -
  obtain uid u where a: "p = decrypt_req x req False u" "base = base_response x req False uid u p" "api_uid st1 = uid"
    and t: "\<not> AEM_API_TIMEDIFF < \<bar>int (unat (req_binTs req)) - (now e - AEM_TS_BEGIN) * 1000\<bar>"
    using assms(3) by (auto simp: api_auth_def Let_def set_user_def split: option.splits if_splits)
  obtain k where b: "base = 8 # p_flags p # of_nat uid # take 16 (p_data p) @ k" "length k = 64" "16 \<le> length (p_data p)"
    using base_parts [OF assms(1,2) a(1), of uid] a(2) assms(4) by auto
  have "r = Inr base" using assms(3-5,7) by (simp add: acc_conn_api_def acc_get_def)
  then have ic: "aw_ic w [(AEM_INTCOM_SERVER_ACC, 1, req)] = (83, Some base)" using assms(8) b by (simp add: reply_result_def)
  let ?s = "s\<lparr>as_calls := [(AEM_INTCOM_SERVER_ACC, 1, req)]\<rparr>"
  have "aem_api_process w req False s = aem_api_answer w False (take 83 base) 0 (setRbk (resp_responseKey base) ?s)"
    using ic t assms(2,6,9)
    by (simp add: aem_api_process_def ic_call_def code_int_def acc_consts)
  moreover have "take 83 base = base" using b by simp
  moreover have "aem_api_answer w False base 0 t =
      map_option clrRbk (handleGet w 8 (p_flags p) (ucast (of_nat uid :: byte)) (take 16 (p_data p)) (drop 83 base) t)" for t
    using b by (simp add: aem_api_answer_def resp_urlData_def Let_def acc_consts)
  moreover have "unat (ucast (of_nat uid :: byte) :: u16) = uid mod 256"
    by (simp add: unsigned_ucast_eq unat_of_nat take_bit_nat_eq_self_iff order.strict_trans1 [OF less_imp_le [OF mod_less_divisor]])
  ultimately show ?thesis using a(3)
    by (auto simp: handleGet_def message_delete_def ic_call_def Let_def setRbk_def min_def split: prod.split)
qed

definition demo_256 :: account where
  "demo_256 = demo_state (replicate 256 None @ [Some demo_user])"

lemma auth_search_none: "auth_search x req post n (replicate k None @ us) = auth_search x req post (n + k) us"
  by (induction k arbitrary: n) simp_all

theorem delete_reaches_witness:
  "\<exists>st1 p base s' ic. api_auth demo_ext demo_env (get_request 8) False demo_256 = (Some (p, base), st1) \<and> api_uid st1 = 256 \<and>
     aem_api_process (demo_world ic) (get_request 8) False (fresh []) = Some s' \<and>
     as_calls s' = [(AEM_INTCOM_SERVER_ACC, 1, get_request 8), (AEM_INTCOM_SERVER_STO, AEM_USERCOUNT, [0, 0])]"
proof -
  let ?p = "decrypt_req demo_ext (get_request 8) False demo_user"
  let ?b = "base_response demo_ext (get_request 8) False 256 demo_user ?p"
  have key: "uak_derive demo_ext n ts u post t = replicate n 0" for n ts u post t
    by (simp add: uak_derive_def aem_kdf_sub_def demo_ext_def)
  have f: "req_binTs (get_request 8) = 1" "req_cmd (get_request 8) = 8" "length (get_request 8) = 39"
    by (simp_all add: req_binTs_def req_cmd_def get_request_def)
  have g: "get_request 8 = [1, 0, 0, 0, 0, 32, 0] @ replicate 32 0" by (simp add: get_request_def)
  have d: "p_cmd ?p = 8" by (simp add: decrypt_req_def Let_def key f acc_consts)
  have "req_flags (get_request 8) = 0" unfolding req_flags_def g by simp
  then have fl: "p_flags ?p = 0" by (simp add: decrypt_req_def Let_def key acc_consts)
  have "p_data ?p = replicate 32 0"
    by (simp add: decrypt_req_def Let_def key acc_consts req_data_def slice_def xor_bytes_def g zip_replicate flip: replicate_add)
  then have pd: "take 2 (p_data ?p) = [0, 0]" by (simp add: numeral_eq_Suc)
  have srch: "auth_search demo_ext (get_request 8) False 0 (user demo_256) = Some 256"
    by (simp add: demo_256_def demo_state_def auth_search_none auth_ok_def demo_ext_def)
  have "cur (demo_256\<lparr>api_uid := 256\<rparr>) = demo_user" by (simp add: cur_def get_user_def demo_256_def demo_state_def nth_append)
  then obtain st1 where au: "api_auth demo_ext demo_env (get_request 8) False demo_256 = (Some (?p, ?b), st1)" "api_uid st1 = 256"
    by (simp add: api_auth_def srch Let_def f demo_env_def acc_consts set_user_def demo_user_def add_address_def zero_user_def)
  have al: "alloc_res demo_env" "now demo_env = AEM_TS_BEGIN" by (simp_all add: demo_env_def)
  obtain r st2 where c: "acc_conn_api demo_ext demo_env 1 (get_request 8) demo_256 = Some (r, st2)"
    using au d al by (simp add: acc_conn_api_def acc_get_def)
  let ?w = "demo_world (\<lambda>l. reply_result r)"
  have w: "now demo_env = aw_now ?w" "aw_ic ?w [(AEM_INTCOM_SERVER_ACC, 1, get_request 8)] = reply_result r"
    using al(2) by simp_all
  show ?thesis
    using delete_reaches [OF demo_ext_ok f(3) au(1) d al(1) w(1) c w(2), of "fresh []"] au fl pd
    by (auto simp: fresh_def)
qed

section \<open>Where the code goes wrong\<close>

text \<open>The result of the session with the other server is not looked at: once an email was made and AEM-Enquiry
  has replied, the user is told that it was sent when AEM-Storage has taken the report, although the other
  server refused it.\<close>

theorem failure_hidden:
  assumes "length key \<le> 2048" "make_email (aw_mem w 3) uid adm key url src = Inr e"
    "5 \<le> length (dropWhile (\<lambda>b. b \<noteq> 64) (tl (oe_addrTo e)))"
    "\<And>l. aw_ic w l = (if fst (last l) = AEM_INTCOM_SERVER_ENQ then (390, Some enq) else (code_int IC_OK, None))"
    "length enq = 390" "use_enquiry enq e = Some e'"
    "sendMail (aw_mail w) (aw_srv w) e' \<lparr>oi_timestamp = of_int (aw_now w), oi_greeting = [], oi_status = []\<rparr>
       = Some (AEM_API_ERR_MESSAGE_CREATE_SENDMAIL_RCPT, info, log)"
  shows "\<exists>s'. send_email w uid adm key url src s = Some (AEM_API_STATUS_OK, s')"
  using assms(1-3,5-7)
  by (simp add: send_email_def Let_def ic_call_def assms(4) AEM_INTCOM_SERVER_ENQ_def AEM_INTCOM_SERVER_STO_def
      code_int_def AEM_INTCOM_RESPONSE_ERR_def)

text \<open>A body of ten to fifteen bytes is accepted by its header and then makes an array of negative length.\<close>

theorem short_body:
  "headers_length (str ''Content-Length: 10'' @ crlf @ crlf) = (10, 22) \<and>
   (length (as_in s) < 10 \<or> handlePost w cmd flags uid url key d 10 s = None)"
proof
  have m: "memmem (str ''Content-Length: 10'' @ crlf @ crlf) (crlf @ crlf) = Some 18" by (simp add: str_def crlf_def)
  have c: "memcasemem (str ''Content-Length: 10'') (str ''Content-Length:'') = Some 0" by code_simp
  have t: "take 18 (str ''Content-Length: 10'' @ crlf @ crlf) = str ''Content-Length: 10''" by (simp add: crlf_def)
  have d: "drop 15 (str ''Content-Length: 10'') = str '' 10''" by (simp add: str_def)
  have "strtol10 (cstr (str ''10'')) = 10"
    by (simp add: strtol10_def cstr_def str_def is_space_def is_digit_def digits_value_def Let_def)
  then show "headers_length (str ''Content-Length: 10'' @ crlf @ crlf) = (10, 22)"
    by (simp add: headers_length_def m c t d Let_def del: memmem.simps) (simp add: crlf_def str_def)
  show "length (as_in s) < 10 \<or> handlePost w cmd flags uid url key d 10 s = None"
    by (simp add: handlePost_def recv_all_def min_def)
qed

text \<open>The address of the sender is encoded with the zero bytes behind it, which leaves the mark of an invalid
  character in the result.\<close>

theorem from_addr_marked:
  "addr32_store (take 24 (char_array 25 (str ''alice'' @ replicate 11 0))) \<noteq> addr32_store (str ''alice'')"
  by code_simp

end
