(* ===== verification/Base64.thy ===== *)
theory Base64
  imports Prelude
begin

text \<open>
  \<^verbatim>\<open>src/Common/base64.c\<close>: Base64 decoding in place.  \<open>b64_quad\<close> is the inner loop, which collects up to four
  digits from the position \<^verbatim>\<open>pos\<close> on and skips everything else (the list of digits found stands for the array
  \<^verbatim>\<open>x\<close>, whose other entries are above 63), \<open>b64_loop\<close> the outer loop, which writes the bytes into the text.

  The lemmas: the writing position never overtakes the reading position, so decoding in place is decoding
  the digits of the text, and every text that holds the encoding of some bytes, with anything that is not a digit
  in between, is decoded to these bytes.
\<close>

section \<open>The code\<close>

definition b64_decodeChar :: "byte \<Rightarrow> byte" where
  "b64_decodeChar c =
     (if 65 \<le> c \<and> c \<le> 90 then c - 65
      else if 97 \<le> c \<and> c \<le> 122 then c - 97 + 26
      else if 48 \<le> c \<and> c \<le> 57 then c - 48 + 52
      else if c = 43 \<or> c = 45 then 62
      else if c = 47 \<or> c = 95 then 63
      else 255)"

function b64_quad :: "byte list \<Rightarrow> byte list \<Rightarrow> nat \<Rightarrow> byte list \<times> nat" where
  "b64_quad src x pos =
     (if length x \<ge> 4 \<or> pos \<ge> length src then (x, pos)
      else let d = b64_decodeChar (src ! pos)
           in if d < 64 then b64_quad src (x @ [d]) (pos + 1) else b64_quad src x (pos + 1))"
  by pat_completeness auto
termination
  by (relation "measure (\<lambda>(src, x, pos). length src - pos)") auto

declare b64_quad.simps [simp del]

text \<open>The three bytes of four digits.\<close>

definition b64_byte1 :: "byte list \<Rightarrow> byte" where
  "b64_byte1 x = push_bit 2 (x ! 0) OR drop_bit 4 (x ! 1 AND 48)"
definition b64_byte2 :: "byte list \<Rightarrow> byte" where
  "b64_byte2 x = push_bit 4 (x ! 1) OR drop_bit 2 (x ! 2)"
definition b64_byte3 :: "byte list \<Rightarrow> byte" where
  "b64_byte3 x = push_bit 6 (x ! 2 AND 3) OR x ! 3"

lemma b64_quad_pos:
  "b64_quad src x pos = (x', p) \<Longrightarrow> pos \<le> p \<and> length x' - length x \<le> p - pos \<and> (pos \<le> length src \<longrightarrow> p \<le> length src)"
proof (induction src x pos rule: b64_quad.induct)
  case (1 src x pos)
  then show ?case by (subst (asm) (3) b64_quad.simps) (force simp: Let_def split: if_splits)
qed

text \<open>A write outside of the text would leave the list as it is; \<open>b64_loop_eq\<close> below shows that there is none.\<close>

function b64_loop :: "byte list \<Rightarrow> nat \<Rightarrow> nat \<Rightarrow> byte list" where
  "b64_loop src pos n =
     (case b64_quad src [] pos of
        (x, pos') \<Rightarrow>
          if length x < 2 then take n src
          else let src = src[n := b64_byte1 x]
          in if length x < 3 then take (n + 1) src
          else let src = src[n + 1 := b64_byte2 x]
          in if length x < 4 then take (n + 2) src
          else b64_loop (src[n + 2 := b64_byte3 x]) pos' (n + 3))"
  by pat_completeness auto
termination
proof (relation "measure (\<lambda>(src, pos, n). length src - pos)", simp)
  fix src pos n x pos' src1 src2
  assume h: "(x, pos') = b64_quad src [] pos" "\<not> length x < 2" "src1 = src[n := b64_byte1 x]" "\<not> length x < 3"
    "src2 = src1[n + 1 := b64_byte2 x]" "\<not> length x < 4"
  have "pos < length src" using h(1,2) by (subst (asm) b64_quad.simps) (auto split: if_splits)
  moreover have "pos < pos'" using b64_quad_pos [OF h(1) [symmetric]] h(6) by auto
  ultimately show "((src2[n + 2 := b64_byte3 x], pos', n + 3), src, pos, n) \<in> measure (\<lambda>(src, pos, n). length src - pos)"
    using h(3,5) by auto
qed

declare b64_loop.simps [simp del]

definition aem_base642bin :: "byte list \<Rightarrow> byte list" where
  "aem_base642bin src = (if src = [] then src else b64_loop src 0 0)"

section \<open>The digits of a text\<close>

definition b64_digits :: "byte list \<Rightarrow> byte list" where
  "b64_digits t = filter (\<lambda>d. d < 64) (map b64_decodeChar t)"

fun b64_bytes :: "byte list \<Rightarrow> byte list" where
  "b64_bytes (a # b # c # d # ds) =
     (push_bit 2 a OR drop_bit 4 (b AND 48)) # (push_bit 4 b OR drop_bit 2 c) # (push_bit 6 (c AND 3) OR d) # b64_bytes ds"
| "b64_bytes [a, b, c] = [push_bit 2 a OR drop_bit 4 (b AND 48), push_bit 4 b OR drop_bit 2 c]"
| "b64_bytes [a, b] = [push_bit 2 a OR drop_bit 4 (b AND 48)]"
| "b64_bytes _ = []"

lemma b64_quad_digits:
  "b64_quad src x pos = (x', p) \<Longrightarrow> length x \<le> 4 \<Longrightarrow>
   x' = take 4 (x @ b64_digits (drop pos src)) \<and> (length x' = 4 \<longrightarrow> x @ b64_digits (drop pos src) = x' @ b64_digits (drop p src))"
proof (induction src x pos rule: b64_quad.induct)
  case (1 src x pos)
  show ?case
  proof (cases "length x \<ge> 4 \<or> pos \<ge> length src")
    case True
    then show ?thesis using "1.prems" by (subst (asm) b64_quad.simps) (auto simp: b64_digits_def)
  next
    case False
    then have d: "drop pos src = src ! pos # drop (pos + 1) src" by (simp add: Cons_nth_drop_Suc)
    show ?thesis
    proof (cases "b64_decodeChar (src ! pos) < 64")
      case True
      then have "b64_quad src (x @ [b64_decodeChar (src ! pos)]) (pos + 1) = (x', p)"
        using "1.prems"(1) False by (subst (asm) b64_quad.simps) (simp add: Let_def)
      from "1.IH"(1) [OF False refl True this] False show ?thesis using True by (simp add: d b64_digits_def)
    next
      case nd: False
      then have "b64_quad src x (pos + 1) = (x', p)"
        using "1.prems"(1) False by (subst (asm) b64_quad.simps) (simp add: Let_def)
      from "1.IH"(2) [OF False refl nd this "1.prems"(2)] show ?thesis using nd by (simp add: d b64_digits_def)
    qed
  qed
qed

lemma take_writes:
  "n + 1 \<le> length xs \<Longrightarrow> take (n + 1) (xs[n := a]) = take n xs @ [a]"
  "n + 2 \<le> length xs \<Longrightarrow> take (n + 2) (xs[n := a, n + 1 := b]) = take n xs @ [a, b]"
  "n + 3 \<le> length xs \<Longrightarrow> take (n + 3) (xs[n := a, n + 1 := b, n + 2 := c]) = take n xs @ [a, b, c]"
proof -
  have w: "length p = n \<Longrightarrow> take (n + 1) ((p @ u # r)[n := a]) = p @ [a]"
    "length p = n \<Longrightarrow> take (n + 2) ((p @ u # v # r)[n := a, n + 1 := b]) = p @ [a, b]"
    "length p = n \<Longrightarrow> take (n + 3) ((p @ u # v # t # r)[n := a, n + 1 := b, n + 2 := c]) = p @ [a, b, c]" for p u v t r
    by (simp_all add: list_update_append)
  show "n + 1 \<le> length xs \<Longrightarrow> take (n + 1) (xs[n := a]) = take n xs @ [a]"
    using w(1) [of "take n xs" "xs ! n" "drop (n + 1) xs"] by (simp add: id_take_nth_drop [symmetric])
  show "n + 2 \<le> length xs \<Longrightarrow> take (n + 2) (xs[n := a, n + 1 := b]) = take n xs @ [a, b]"
    using w(2) [of "take n xs" "xs ! n" "xs ! (n + 1)" "drop (n + 2) xs"] by (simp add: Cons_nth_drop_Suc)
  show "n + 3 \<le> length xs \<Longrightarrow> take (n + 3) (xs[n := a, n + 1 := b, n + 2 := c]) = take n xs @ [a, b, c]"
    using w(3) [of "take n xs" "xs ! n" "xs ! (n + 1)" "xs ! (n + 2)" "drop (n + 3) xs"]
    by (simp add: Cons_nth_drop_Suc numeral_3_eq_3)
qed

lemma b64_loop_eq:
  "n \<le> pos \<Longrightarrow> pos \<le> length src \<Longrightarrow> b64_loop src pos n = take n src @ b64_bytes (b64_digits (drop pos src))"
proof (induction src pos n rule: b64_loop.induct)
  case (1 src pos n)
  obtain x p where q: "b64_quad src [] pos = (x, p)" by (cases "b64_quad src [] pos")
  note po = b64_quad_pos [OF q]
  let ?ds = "b64_digits (drop pos src)"
  have d: "x = take 4 ?ds \<and> (length x = 4 \<longrightarrow> ?ds = x @ b64_digits (drop p src))"
    using b64_quad_digits [OF q] unfolding append_Nil list.size(3) by blast
  then have x: "x = take 4 ?ds" by blast
  have room: "n + length x \<le> length src" using po "1.prems" by auto
  have "length x \<le> 4" unfolding x by simp
  then consider "length x < 2" | "length x = 2" | "length x = 3" | "length x = 4" by linarith
  then show ?case
  proof cases
    case 1
    then have "b64_bytes ?ds = []" using x by (cases ?ds rule: b64_bytes.cases) auto
    then show ?thesis using 1 q by (subst b64_loop.simps) simp
  next
    case 2
    then have "?ds = [x ! 0, x ! 1]" using x by (cases ?ds rule: b64_bytes.cases) auto
    then show ?thesis using 2 q room take_writes(1) [of n src]
      by (subst b64_loop.simps) (simp add: b64_byte1_def)
  next
    case 3
    then have "?ds = [x ! 0, x ! 1, x ! 2]" using x by (cases ?ds rule: b64_bytes.cases) auto
    then have "b64_bytes ?ds = [b64_byte1 x, b64_byte2 x]" by (simp add: b64_byte1_def b64_byte2_def)
    then show ?thesis using 3 q room take_writes(2) [of n src "b64_byte1 x" "b64_byte2 x"]
      by (subst b64_loop.simps) (simp add: Let_def)
  next
    case 4
    let ?src = "src[n := b64_byte1 x, n + 1 := b64_byte2 x, n + 2 := b64_byte3 x]"
    have l: "\<not> length x < 2" "\<not> length x < 3" "\<not> length x < 4" using 4 by simp_all
    have ds: "?ds = x @ b64_digits (drop p src)" using d 4 by blast
    have np: "n + 4 \<le> p" using po 4 "1.prems"(1) by auto
    have "b64_loop ?src p (n + 3) = take (n + 3) ?src @ b64_bytes (b64_digits (drop p ?src))"
      by (rule "1.IH" [OF q [symmetric] l(1) refl l(2) refl l(3)]) (use po np "1.prems" in auto)
    moreover have "drop p ?src = drop p src" using np by simp
    moreover have "take (n + 3) ?src = take n src @ [b64_byte1 x, b64_byte2 x, b64_byte3 x]"
      using room 4 by (intro take_writes) simp
    moreover have "b64_bytes ?ds = [b64_byte1 x, b64_byte2 x, b64_byte3 x] @ b64_bytes (b64_digits (drop p src))"
      unfolding ds using 4 by (cases x rule: b64_bytes.cases) (auto simp: b64_byte1_def b64_byte2_def b64_byte3_def)
    ultimately show ?thesis using l q by (subst b64_loop.simps) (simp add: Let_def)
  qed
qed

lemma aem_base642bin_eq: "aem_base642bin src = b64_bytes (b64_digits src)"
  using b64_loop_eq [of 0 0 src] by (simp add: aem_base642bin_def b64_digits_def)

section \<open>Encoded bytes are found again\<close>

fun b64_encode :: "byte list \<Rightarrow> byte list" where
  "b64_encode (a # b # c # bs) =
     drop_bit 2 a # (push_bit 4 (a AND 3) OR drop_bit 4 b) # (push_bit 2 (b AND 15) OR drop_bit 6 c) # (c AND 63)
       # b64_encode bs"
| "b64_encode [a, b] = [drop_bit 2 a, push_bit 4 (a AND 3) OR drop_bit 4 b, push_bit 2 (b AND 15)]"
| "b64_encode [a] = [drop_bit 2 a, push_bit 4 (a AND 3)]"
| "b64_encode [] = []"

lemma byte_bitsI: "(\<And>n. n \<in> {0, 1, 2, 3, 4, 5, 6, 7} \<Longrightarrow> bit a n = bit b n) \<Longrightarrow> a = (b :: byte)"
proof (rule bit_word_eqI)
  fix n :: nat
  assume h: "\<And>n. n \<in> {0, 1, 2, 3, 4, 5, 6, 7} \<Longrightarrow> bit a n = bit b n" and "n < LENGTH(8)"
  then have "n < 8" by simp
  then have "n \<in> {0, 1, 2, 3, 4, 5, 6, 7}" by (simp add: insert_iff) linarith
  then show "bit a n = bit b n" by (rule h)
qed

lemma b64_bits:
  fixes a b c :: byte
  shows "push_bit 2 (drop_bit 2 a) OR drop_bit 4 ((push_bit 4 (a AND 3) OR drop_bit 4 b) AND 48) = a"
    "push_bit 4 (push_bit 4 (a AND 3) OR drop_bit 4 b) OR drop_bit 2 (push_bit 2 (b AND 15) OR drop_bit 6 c) = b"
    "push_bit 6 ((push_bit 2 (b AND 15) OR drop_bit 6 c) AND 3) OR (c AND 63) = c"
  by (rule byte_bitsI, auto simp: bit_simps simp flip: numeral_2_eq_2 numeral_3_eq_3)+

lemma b64_bits_end:
  fixes a b :: byte
  shows "push_bit 2 (drop_bit 2 a) OR drop_bit 4 (push_bit 4 (a AND 3) AND 48) = a"
    "push_bit 4 (push_bit 4 (a AND 3) OR drop_bit 4 b) OR drop_bit 2 (push_bit 2 (b AND 15)) = b"
  by (rule byte_bitsI, auto simp: bit_simps simp flip: numeral_2_eq_2 numeral_3_eq_3)+

lemma b64_bytes_encode: "b64_bytes (b64_encode bs) = bs"
  by (induction bs rule: b64_encode.induct) (simp_all only: b64_bytes.simps b64_encode.simps b64_bits b64_bits_end)

section \<open>Properties\<close>

text \<open>C36: decoding in place finds exactly the bytes that were encoded, in a text that holds the digits of
  their encoding - in the usual or the URL alphabet - and anything else in between: line breaks, padding, bytes
  that are no digits.\<close>

theorem base64_decodes:
  assumes "b64_digits t = b64_encode bs"
  shows "aem_base642bin t = bs"
  using assms by (simp add: aem_base642bin_eq b64_bytes_encode)

theorem base64_decodes_witness:
  "aem_base642bin (str ''aGVs'' @ [13, 10] @ str ''bG8_=='') = str ''hello?''"
proof -
  have "b64_digits (str ''aGVs'' @ [13, 10] @ str ''bG8_=='') = b64_encode (str ''hello?'')" by code_simp
  then show ?thesis by (rule base64_decodes)
qed

end
