(* ===== verification/Quoted.thy ===== *)
theory Quoted
  imports Mem_Eq
begin

text \<open>
  \<^verbatim>\<open>src/Common/QuotedPrintable.c\<close>: the decoder for Quoted-Printable text, and \<^verbatim>\<open>src/Common/ToUtf8.c\<close>: conversion of
  a text to UTF-8, with the conversion of the ICU library as a parameter.

  The decoder is a function of the text from the reading position on.  It is compared with a description of
  the texts that stand for a sequence of bytes (\<open>qp_encodes\<close>).
\<close>

section \<open>Quoted-Printable\<close>

definition hex_value :: "byte \<Rightarrow> byte" where
  "hex_value c = (if is_digit c then c - 48 else if 65 \<le> c \<and> c \<le> 70 then c - 55 else c - 87)"

definition hexToChar :: "byte \<Rightarrow> byte \<Rightarrow> byte" where
  "hexToChar a b = 16 * hex_value a + hex_value b"

fun qp_decode :: "byte list \<Rightarrow> byte list" where
  "qp_decode [] = []"
| "qp_decode (c # cs) =
     (if c \<noteq> 61 then c # qp_decode cs
      else case cs of
        [] \<Rightarrow> []
      | [a] \<Rightarrow> []
      | a # b # r \<Rightarrow>
          if a = 10 then qp_decode (b # r)
          else if is_xdigit a \<and> is_xdigit b then
            (let h = hexToChar a b; h = (if h = 9 then 32 else h)
             in (if h = 10 \<or> (h \<ge> 32 \<and> h \<noteq> 127) then [h] else []) @ qp_decode r)
          else 61 # a # b # qp_decode r)"

text \<open>The result is copied back into the text; when memory is short the text stays as it is.\<close>

definition decodeQuotedPrintable :: "bool \<Rightarrow> byte list \<Rightarrow> byte list" where
  "decodeQuotedPrintable mem data = (if mem then qp_decode data else data)"

section \<open>Conversion to UTF-8\<close>

text \<open>A character set's name is a string in memory; it matches as soon as it begins with one of the names.\<close>

definition utf8_names :: "byte list list" where
  "utf8_names = [str ''utf8'', str ''utf-8'', str ''utf_8'', str ''ascii'', str ''us-ascii'', str ''us_ascii'']"

definition isUtf8 :: "byte list \<Rightarrow> bool" where
  "isUtf8 charset = list_ex (\<lambda>n. memeq_anycase (charset @ [0]) n (length n) = Some True) utf8_names"

definition toUtf8 :: "(byte list \<Rightarrow> byte list \<Rightarrow> nat \<Rightarrow> byte list option) \<Rightarrow> bool \<Rightarrow> byte list \<Rightarrow> byte list \<Rightarrow> byte list option" where
  "toUtf8 ucnv_convert mem input charset =
     (if input = [] \<or> \<not> mem then None
      else if isUtf8 charset then Some input
      else case ucnv_convert charset input (length input * 2) of
        None \<Rightarrow> None
      | Some out \<Rightarrow> if out = [] then None else Some out)"

section \<open>What the decoder decodes\<close>

lemma qp_decode_char: "c \<noteq> 61 \<Longrightarrow> qp_decode (c # cs) = c # qp_decode cs"
  by simp

lemma qp_decode_break: "qp_decode (61 # 10 # t) = qp_decode t"
  by (cases t) simp_all

lemma qp_decode_code:
  "is_xdigit a \<Longrightarrow> is_xdigit b \<Longrightarrow> a \<noteq> 10 \<Longrightarrow> hexToChar a b \<noteq> 9 \<Longrightarrow> hexToChar a b = 10 \<or> (hexToChar a b \<ge> 32 \<and> hexToChar a b \<noteq> 127) \<Longrightarrow>
     qp_decode (61 # a # b # r) = hexToChar a b # qp_decode r"
  by (auto simp: Let_def)

text \<open>The byte a code of two digits stands for: tabs become spaces, other control characters vanish.\<close>

inductive qp_encodes :: "byte list \<Rightarrow> byte list \<Rightarrow> bool" where
  qp_end: "qp_encodes [] []"
| qp_char: "c \<noteq> 61 \<Longrightarrow> qp_encodes t bs \<Longrightarrow> qp_encodes (c # t) (c # bs)"
| qp_code: "is_xdigit a \<Longrightarrow> is_xdigit b \<Longrightarrow> h = hexToChar a b \<Longrightarrow> h = 10 \<or> (h \<ge> 32 \<and> h \<noteq> 127) \<Longrightarrow>
     qp_encodes t bs \<Longrightarrow> qp_encodes (61 # a # b # t) (h # bs)"
| qp_break: "qp_encodes t bs \<Longrightarrow> qp_encodes (61 # 10 # t) bs"

lemma qp_encodes_decode: "qp_encodes t bs \<Longrightarrow> qp_decode t = bs"
proof (induction t bs rule: qp_encodes.induct)
  case (qp_code a b h t bs)
  have "a \<noteq> 10" using qp_code(1) by (auto simp: is_xdigit_def is_digit_def)
  moreover have "h \<noteq> 9" using qp_code(4) by auto
  ultimately show ?case using qp_decode_code [of a b t] qp_code by blast
next
  case (qp_break t bs)
  then show ?case using qp_decode_break by blast
next
  case (qp_char c t bs)
  then show ?case using qp_decode_char by blast
qed simp

section \<open>Properties\<close>

text \<open>every text that stands for a sequence of bytes - as they are, as codes of two digits in either case,
  with soft line breaks anywhere - is decoded to exactly these bytes; and when memory is short nothing of the
  text is lost.\<close>

theorem qp_decodes:
  assumes "qp_encodes t bs"
  shows "decodeQuotedPrintable True t = bs \<and> decodeQuotedPrintable False t = t"
  using qp_encodes_decode [OF assms] by (simp add: decodeQuotedPrintable_def)

definition demo_quoted :: "byte list" where
  "demo_quoted = str ''a=3d'' @ [61, 10] @ str ''=C3=A9''"

theorem qp_decodes_witness: "decodeQuotedPrintable True demo_quoted = [97, 61, 195, 169]"
proof -
  have t: "demo_quoted = [97, 61, 51, 100, 61, 10, 61, 67, 51, 61, 65, 57]" by code_simp
  have x: "is_xdigit 51" "is_xdigit 100" "is_xdigit 67" "is_xdigit 65" "is_xdigit 57"
    "61 = hexToChar 51 100" "195 = hexToChar 67 51" "169 = hexToChar 65 57" by code_simp+
  have "qp_encodes demo_quoted [97, 61, 195, 169]"
    unfolding t by (intro qp_char qp_code [OF x(1,2,6)] qp_break qp_code [OF x(3,1,7)] qp_code [OF x(4,5,8)] qp_end) simp_all
  from qp_decodes [OF this] show ?thesis by simp
qed

end
