(* ===== verification/Mail_Date.thy ===== *)
theory Mail_Date
  imports Mem_Eq
begin

text \<open>
  \<^verbatim>\<open>src/deliver/date.c\<close>: the date in a message's header.  A string is the list of its characters before the
  terminating zero byte; \<open>ch_at s i\<close> is what the code reads at an offset, the zero byte at the end included.
  \<^verbatim>\<open>strtol\<close> gives the number and the rest of the string, \<^verbatim>\<open>mktime\<close> is a parameter.
\<close>

section \<open>The code\<close>

definition ch_at :: "byte list \<Rightarrow> nat \<Rightarrow> byte" where
  "ch_at s i = (if i < length s then s ! i else 0)"

definition begins :: "byte list \<Rightarrow> string \<Rightarrow> bool" where
  "begins s name \<longleftrightarrow> memeq_anycase (s @ [0]) (str name) (length name) = Some True"

definition month_names :: "string list" where
  "month_names = [''Jan'', ''Feb'', ''Mar'', ''Apr'', ''May'', ''Jun'', ''Jul'', ''Aug'', ''Sep'', ''Oct'', ''Nov'', ''Dec'']"

fun month_at :: "int \<Rightarrow> string list \<Rightarrow> byte list \<Rightarrow> int" where
  "month_at i [] c = -1"
| "month_at i (n # ns) c = (if begins c n then i else month_at (i + 1) ns c)"

definition monthFromName :: "byte list \<Rightarrow> int" where
  "monthFromName c = month_at 0 month_names c"

definition day_names :: "string list" where
  "day_names = [''Mon,'', ''Tue,'', ''Wed,'', ''Thu,'', ''Fri,'', ''Sat,'', ''Sun,'']"

definition spaces :: "byte list \<Rightarrow> byte list" where
  "spaces s = dropWhile (\<lambda>b. b = 32) s"

fun dec_digits :: "nat \<Rightarrow> byte list \<Rightarrow> nat" where
  "dec_digits v [] = v"
| "dec_digits v (d # ds) = dec_digits (10 * v + unat (d - 48)) ds"

definition strtol :: "byte list \<Rightarrow> int \<times> byte list" where
  "strtol s =
     (let t = dropWhile is_space s; sign = (t \<noteq> [] \<and> (hd t = 45 \<or> hd t = 43));
          u = (if sign then tl t else t); ds = takeWhile is_digit u; v = int (dec_digits 0 ds)
      in if ds = [] then (0, s)
         else (max (- (2 ^ 63)) (min (2 ^ 63 - 1) (if sign \<and> hd t = 45 then - v else v)), drop (length ds) u))"

record tm =
  tm_sec :: int
  tm_min :: int
  tm_hour :: int
  tm_mday :: int
  tm_mon :: int
  tm_year :: int

definition to_int32 :: "int \<Rightarrow> int" where
  "to_int32 i = (i + 2 ^ 31) mod 2 ^ 32 - 2 ^ 31"

definition tz_offset :: "byte list \<Rightarrow> int" where
  "tz_offset b =
     (let tzOff = (if (ch_at b 0 = 43 \<or> ch_at b 0 = 45) \<and> is_digit (ch_at b 1) \<and> is_digit (ch_at b 2) \<and> is_digit (ch_at b 3) \<and> is_digit (ch_at b 4)
           then (let t = uint (ch_at b 1 - 48) * 60 * 600 + uint (ch_at b 2 - 48) * 60 * 60 + uint (ch_at b 3 - 48) * 600 + uint (ch_at b 4 - 48) * 60
                 in if ch_at b 0 = 45 then - t else t)
           else 0)
      in if tzOff < - 54000 then - 54000 else if tzOff > 54000 then 54000 else tzOff)"

text \<open>The result and, unless the date is refused, what is written to \<^verbatim>\<open>*tzp\<close>.\<close>

definition smtp_getTime :: "(tm \<Rightarrow> int) \<Rightarrow> byte list \<Rightarrow> int \<times> byte option" where
  "smtp_getTime mktime b =
     (if b = [] then (0, None) else
      let b = spaces (if list_ex (begins b) day_names then drop 4 b else b)
      in if \<not> is_digit (ch_at b 0) then (0, None) else
      case strtol b of (mday, b) \<Rightarrow>
      if mday < 1 \<or> mday > 31 then (0, None) else
      let b = spaces b; mon = monthFromName b
      in if mon = -1 then (0, None) else
      case strtol (spaces (drop 3 b)) of (year, b) \<Rightarrow>
      let year = (if year > 20 \<and> year < 100 then year + 2000 else year)
      in if year < 2022 \<or> ch_at b 0 \<noteq> 32 then (0, None) else
      case strtol (spaces (tl b)) of (hour, b) \<Rightarrow>
      if hour < 0 \<or> hour > 23 \<or> ch_at b 0 \<noteq> 58 then (0, None) else
      case strtol (spaces (tl b)) of (mins, b) \<Rightarrow>
      if mins < 0 \<or> mins > 59 \<or> ch_at b 0 \<noteq> 58 then (0, None) else
      case strtol (spaces (tl b)) of (sec, b) \<Rightarrow>
      if sec < 0 \<or> sec > 59 \<or> ch_at b 0 \<noteq> 32 then (0, None) else
      let tzOff = tz_offset (spaces (tl b));
          t = \<lparr>tm_sec = sec, tm_min = mins, tm_hour = hour, tm_mday = mday, tm_mon = mon, tm_year = to_int32 (year - 1900)\<rparr>
      in (mktime t - tzOff, Some (of_int ((tzOff + 54000) div 900))))"

section \<open>Dates as they are written\<close>

definition two :: "nat \<Rightarrow> byte list" where
  "two n = [of_nat (48 + n div 10), of_nat (48 + n mod 10)]"

definition four :: "nat \<Rightarrow> byte list" where
  "four n = two (n div 100) @ two (n mod 100)"

definition zone_text :: "bool \<Rightarrow> nat \<Rightarrow> nat \<Rightarrow> byte list" where
  "zone_text west hh mm = (if west then 45 else 43) # two hh @ two mm"

definition date_text :: "nat \<Rightarrow> nat \<Rightarrow> nat \<Rightarrow> nat \<Rightarrow> nat \<Rightarrow> nat \<Rightarrow> nat \<Rightarrow> byte list \<Rightarrow> byte list" where
  "date_text dow mday mon year hour mins sec zone =
     str (day_names ! dow) @ 32 # two mday @ 32 # str (month_names ! mon) @ 32 # four year @ 32 #
     two hour @ 58 # two mins @ 58 # two sec @ 32 # zone"

lemma digit_of_nat: "d < 10 \<Longrightarrow> is_digit (of_nat (48 + d)) \<and> unat (of_nat (48 + d) - 48 :: byte) = d \<and> uint (of_nat (48 + d) - 48 :: byte) = int d"
proof -
  assume d: "d < 10"
  have e: "of_nat (48 + d) - 48 = (of_nat d :: byte)" by simp
  have u: "unat (of_nat (48 + d) :: byte) = 48 + d" "unat (of_nat d :: byte) = d" using d by (simp_all add: unsigned_of_nat take_bit_nat_eq_self del: of_nat_add)
  have "is_digit (of_nat (48 + d))" unfolding is_digit_def word_le_nat_alt u(1) using d by simp
  moreover have "uint (of_nat d :: byte) = int d" using u(2) by (simp add: uint_nat)
  ultimately show ?thesis unfolding e using u(2) by blast
qed

lemma two_digits:
  assumes "n < 100"
  shows "list_all is_digit (two n)" "two n \<noteq> []" "dec_digits v (two n) = 100 * v + n"
  using digit_of_nat [of "n div 10"] digit_of_nat [of "n mod 10"] assms by (auto simp: two_def)

lemma four_digits:
  assumes "n < 10000"
  shows "list_all is_digit (four n)" "four n \<noteq> []" "dec_digits 0 (four n) = n"
proof -
  have n: "n div 100 < 100" "n mod 100 < 100" using assms by auto
  have app: "dec_digits v (a @ b) = dec_digits (dec_digits v a) b" for v a b
    by (induction v a rule: dec_digits.induct) auto
  show "list_all is_digit (four n)" "four n \<noteq> []" using two_digits [OF n(1)] two_digits [OF n(2)] by (auto simp: four_def)
  show "dec_digits 0 (four n) = n" unfolding four_def app two_digits(3) [OF n(1)] two_digits(3) [OF n(2)] by simp
qed

lemma digit_cases: "is_digit d \<Longrightarrow> \<not> is_space d \<and> d \<noteq> 45 \<and> d \<noteq> 43 \<and> d \<noteq> 32"
  by (auto simp: is_digit_def is_space_def word_le_nat_alt)

lemma strtol_number:
  assumes "list_all is_digit ds" "ds \<noteq> []" "dec_digits 0 ds < 10000" "r = [] \<or> \<not> is_digit (hd r)"
  shows "strtol (ds @ r) = (int (dec_digits 0 ds), r)"
proof -
  obtain d ds' where ds: "ds = d # ds'" using assms(2) by (cases ds) auto
  have d: "\<not> is_space d" "d \<noteq> 45" "d \<noteq> 43" using assms(1) digit_cases unfolding ds by auto
  have "takeWhile is_digit (ds @ r) = ds @ takeWhile is_digit r" using assms(1)
    by (simp add: list_all_iff takeWhile_append2)
  also have "takeWhile is_digit r = []" using assms(4) by (cases r) auto
  finally have t: "takeWhile is_digit (ds @ r) = ds" by simp
  have w: "dropWhile is_space (ds @ r) = ds @ r" using d(1) unfolding ds by simp
  have h: "\<not> (ds @ r \<noteq> [] \<and> (hd (ds @ r) = 45 \<or> hd (ds @ r) = 43))" using d(2,3) unfolding ds by simp
  show ?thesis unfolding strtol_def Let_def w using h t assms(2,3) by (simp add: min_def max_def)
qed

lemma spaces_digit: "is_digit (hd s) \<Longrightarrow> s \<noteq> [] \<Longrightarrow> spaces s = s"
  by (cases s) (auto simp: spaces_def dest: digit_cases)

text \<open>A number of two or four digits, read where one is expected.\<close>

lemma read_two: "n < 100 \<Longrightarrow> \<not> is_digit c \<Longrightarrow> strtol (spaces (two n @ c # r)) = (int n, c # r)"
  using strtol_number [of "two n" "c # r"] spaces_digit [of "two n @ c # r"] two_digits [of n]
  by (simp add: hd_append list_all_iff)

lemma read_four: "n < 10000 \<Longrightarrow> \<not> is_digit c \<Longrightarrow> strtol (spaces (four n @ c # r)) = (int n, c # r)"
  using strtol_number [of "four n" "c # r"] spaces_digit [of "four n @ c # r"] four_digits [of n]
  by (simp add: hd_append list_all_iff)

text \<open>Names of one length are told apart by their first characters alone.\<close>

definition same_name :: "string \<Rightarrow> string \<Rightarrow> bool" where
  "same_name a b \<longleftrightarrow> map to_lower (str a) = map to_lower (str b)"

lemma begins_same: "length a = length b \<Longrightarrow> begins (str a @ r) b = same_name a b"
  by (simp add: begins_def same_name_def memeq_anycase_in_range)

fun same_at :: "int \<Rightarrow> string list \<Rightarrow> string \<Rightarrow> int" where
  "same_at i [] a = -1"
| "same_at i (n # ns) a = (if same_name a n then i else same_at (i + 1) ns a)"

lemma month_at_same: "list_all (\<lambda>n. length n = length a) ns \<Longrightarrow> month_at i ns (str a @ r) = same_at i ns a"
  by (induction i ns a rule: same_at.induct) (auto simp: begins_same)

definition month_ok :: "nat \<Rightarrow> bool" where
  "month_ok i \<longleftrightarrow> same_at 0 month_names (month_names ! i) = int i \<and> list_all (\<lambda>n. length n = length (month_names ! i)) month_names \<and>
     length (month_names ! i) = 3 \<and> hd (str (month_names ! i)) \<noteq> 32"

definition day_ok :: "nat \<Rightarrow> bool" where
  "day_ok i \<longleftrightarrow> list_ex (same_name (day_names ! i)) day_names \<and> list_all (\<lambda>n. length n = length (day_names ! i)) day_names \<and>
     length (day_names ! i) = 4"

lemma names_ok: "list_all month_ok [0,1,2,3,4,5,6,7,8,9,10,11]" "list_all day_ok [0,1,2,3,4,5,6]"
  by code_simp+

lemma month_read:
  assumes "mon < 12"
  shows "monthFromName (str (month_names ! mon) @ r) = int mon" "length (month_names ! mon) = 3"
    "spaces (str (month_names ! mon) @ r) = str (month_names ! mon) @ r"
proof -
  have "mon \<in> set [0,1,2,3,4,5,6,7,8,9,10,11]" using assms by (simp, presburger)
  then have ok: "month_ok mon" using names_ok(1) by (metis list_all_iff)
  then show "monthFromName (str (month_names ! mon) @ r) = int mon" "length (month_names ! mon) = 3"
    using month_at_same [of "month_names ! mon" month_names 0 r] by (auto simp: month_ok_def monthFromName_def list_all_iff)
  show "spaces (str (month_names ! mon) @ r) = str (month_names ! mon) @ r"
    using ok by (cases "str (month_names ! mon)") (auto simp: month_ok_def spaces_def simp flip: length_str)
qed

lemma day_read:
  assumes "dow < 7"
  shows "list_ex (begins (str (day_names ! dow) @ r)) day_names" "length (day_names ! dow) = 4"
proof -
  have "dow \<in> set [0,1,2,3,4,5,6]" using assms by (simp, presburger)
  then have ok: "day_ok dow" using names_ok(2) by (metis list_all_iff)
  show "list_ex (begins (str (day_names ! dow) @ r)) day_names"
    using ok begins_same by (auto simp: day_ok_def list_ex_iff list_all_iff)
  show "length (day_names ! dow) = 4" using ok by (simp add: day_ok_def)
qed

definition zone_seconds :: "bool \<Rightarrow> nat \<Rightarrow> nat \<Rightarrow> int" where
  "zone_seconds west hh mm = max (- 54000) (min 54000 ((if west then - 1 else 1) * int (3600 * hh + 60 * mm)))"

lemma ch_at_Cons: "ch_at (x # xs) 0 = x" "ch_at (x # xs) (Suc 0) = ch_at xs 0" "ch_at (x # xs) (numeral k) = ch_at xs (pred_numeral k)"
  by (simp_all add: ch_at_def numeral_eq_Suc)

lemma zone_read:
  assumes "hh < 100" "mm < 100"
  shows "tz_offset (spaces (zone_text west hh mm)) = zone_seconds west hh mm"
proof -
  have d: "hh div 10 < 10" "hh mod 10 < 10" "mm div 10 < 10" "mm mod 10 < 10" using assms by auto
  note D = d [THEN digit_of_nat]
  have e: "int (hh div 10) * 60 * 600 + int (hh mod 10) * 60 * 60 + int (mm div 10) * 600 + int (mm mod 10) * 60 = int (3600 * hh + 60 * mm)"
  proof -
    have "hh = 10 * (hh div 10) + hh mod 10" "mm = 10 * (mm div 10) + mm mod 10" by simp_all
    then show ?thesis by linarith
  qed
  define z where "z = spaces (zone_text west hh mm)"
  have z: "z = (if west then 45 else 43) # two hh @ two mm" by (simp add: z_def zone_text_def spaces_def)
  have c: "ch_at z 0 = (if west then 45 else 43)" "ch_at z 1 = of_nat (48 + hh div 10)" "ch_at z 2 = of_nat (48 + hh mod 10)"
    "ch_at z 3 = of_nat (48 + mm div 10)" "ch_at z 4 = of_nat (48 + mm mod 10)"
    unfolding z two_def by (simp_all add: ch_at_Cons)
  have m: "(ch_at z 0 = 43 \<or> ch_at z 0 = 45) \<and> is_digit (ch_at z 1) \<and> is_digit (ch_at z 2) \<and> is_digit (ch_at z 3) \<and> is_digit (ch_at z 4)"
    "ch_at z 0 = 45 \<longleftrightarrow> west" "uint (ch_at z 1 - 48) = int (hh div 10)" "uint (ch_at z 2 - 48) = int (hh mod 10)"
    "uint (ch_at z 3 - 48) = int (mm div 10)" "uint (ch_at z 4 - 48) = int (mm mod 10)"
    unfolding c using D by simp_all
  show ?thesis unfolding z_def [symmetric] tz_offset_def Let_def m(2-6) e zone_seconds_def using m(1) [unfolded c(1)] by (cases west) (simp_all add: c(1) max_def min_def)
qed

section \<open>Properties\<close>

text \<open>C34: a date as mail programs write it - day of the week, day, month, year, time and the distance to
  UTC - is read for what it says, for every day, time and zone: the result is what the C library makes of
  these fields, less the distance; the zone is kept in quarters of an hour, at most 15 hours off.\<close>

theorem date_read:
  assumes "dow < 7" "1 \<le> mday" "mday \<le> 31" "mon < 12" "2022 \<le> year" "year < 10000"
    and "hour < 24" "mins < 60" "sec < 60" "hh < 100" "mm < 100"
  shows "smtp_getTime mktime (date_text dow mday mon year hour mins sec (zone_text west hh mm)) =
    (mktime \<lparr>tm_sec = int sec, tm_min = int mins, tm_hour = int hour, tm_mday = int mday, tm_mon = int mon, tm_year = int year - 1900\<rparr>
      - zone_seconds west hh mm, Some (of_int ((zone_seconds west hh mm + 54000) div 900)))"
proof -
  define z where "z = zone_text west hh mm"
  define r6 where "r6 = two sec @ 32 # z"
  define r5 where "r5 = two mins @ 58 # r6"
  define r4 where "r4 = two hour @ 58 # r5"
  define r3 where "r3 = four year @ 32 # r4"
  define r2 where "r2 = str (month_names ! mon) @ 32 # r3"
  define r1 where "r1 = two mday @ 32 # r2"
  have nd: "\<not> is_digit 32" "\<not> is_digit 58" by (simp_all add: is_digit_def)
  have b: "date_text dow mday mon year hour mins sec (zone_text west hh mm) = str (day_names ! dow) @ 32 # r1"
    by (simp add: date_text_def r1_def r2_def r3_def r4_def r5_def r6_def z_def)
  have s32: "spaces (32 # t) = spaces t" for t by (simp add: spaces_def)
  have n: "mday < 100" "hour < 100" "mins < 100" "sec < 100" using assms by simp_all
  have f1: "is_digit (hd r1)" "r1 \<noteq> []" using two_digits(1,2) [OF n(1)] by (auto simp: r1_def list_all_iff)
  have R: "strtol r1 = (int mday, 32 # r2)" "strtol (spaces r3) = (int year, 32 # r4)" "strtol (spaces r4) = (int hour, 58 # r5)"
    "strtol (spaces r5) = (int mins, 58 # r6)" "strtol (spaces r6) = (int sec, 32 # z)"
    using read_two [OF n(1) nd(1), of r2] spaces_digit [OF f1(1,2)] read_four [OF assms(6) nd(1)] read_two [OF n(2) nd(2)]
      read_two [OF n(3) nd(2)] read_two [OF n(4) nd(1)] unfolding r1_def r3_def r4_def r5_def r6_def by metis+
  have m: "spaces (32 # r2) = r2" "monthFromName r2 = int mon" "drop 3 r2 = 32 # r3"
    using month_read [OF assms(4)] unfolding r2_def s32 by simp_all
  have d: "drop 4 (str (day_names ! dow) @ 32 # r1) = 32 # r1" "list_ex (begins (str (day_names ! dow) @ 32 # r1)) day_names"
    "str (day_names ! dow) @ 32 # r1 \<noteq> []" using day_read [OF assms(1)] by simp_all
  have c0: "ch_at (c # t) 0 = c" for c t by (simp add: ch_at_def)
  have h: "ch_at r1 0 = hd r1" using f1(2) by (cases r1) (simp_all add: ch_at_def)
  have y: "to_int32 (int year - 1900) = int year - 1900" using assms(5,6) by (simp add: to_int32_def)
  have tz: "tz_offset (spaces z) = zone_seconds west hh mm" unfolding z_def by (rule zone_read [OF assms(10,11)])
  show ?thesis unfolding b smtp_getTime_def Let_def
    using assms(2,3,5,7-9) d s32 spaces_digit [OF f1] f1 R m c0 h y tz by simp
qed

lemma date_read_witness:
  "smtp_getTime (\<lambda>t. 0) (str ''Tue, 09 Oct 2022 09:59:39 -0730'') = (27000, Some 30)"
proof -
  have "date_text 1 9 9 2022 9 59 39 (zone_text True 7 30) = str ''Tue, 09 Oct 2022 09:59:39 -0730''" by code_simp
  moreover have "zone_seconds True 7 30 = - 27000" by (simp add: zone_seconds_def)
  ultimately show ?thesis
    using date_read [of 1 9 9 2022 9 59 39 7 30 "\<lambda>t. 0" True] by simp
qed

text \<open>A date without a zone is refused: the second form the comment in the code names is never read.\<close>

lemma date_needs_zone: "fst (smtp_getTime mktime (str ''Mon, 15 Sep 2025 11:30:55'')) = 0"
proof -
  have "smtp_getTime mktime (str ''Mon, 15 Sep 2025 11:30:55'') = (0, None)" by code_simp
  then show ?thesis by simp
qed

end
