(* ===== verification/Dkim.thy ===== *)
theory Dkim
  imports Deliver "HOL-Library.Monad_Syntax"
begin

text \<open>
  \<^verbatim>\<open>src/deliver/dkim.c\<close>: the check of a DKIM signature (RFC 6376) of a received message.

  A C string is the list of its characters before the null byte.  A function that reads or writes outside of its
  buffers, or reads what has not been set, has the result \<open>None\<close>, as has a search
  that does not end.  Parameters (\<open>dkim_ext\<close>): AEM-Enquiry, the Base64 decoder of libsodium (the bytes it writes and
  the length it reports), the hash functions, the key and signature functions of wolfSSL, and the 1024 bytes that the uninitialised array for a value holds.
\<close>

section \<open>The fields of a signature (Common/Email.h)\<close>

text \<open>The five constants for future use are left out.\<close>

datatype dkim_algo =
    RSA_BAD_SHA1 | RSA_512_SHA1 | RSA_1024_SHA1 | RSA_2048_SHA1
  | RSA_BAD_SHA256 | RSA_512_SHA256 | RSA_1024_SHA256 | RSA_2048_SHA256 | RSA_4096_SHA256
  | ED25519_BAD_SHA256 | ED25519_SHA256

primrec algo_num :: "dkim_algo \<Rightarrow> nat" where
  "algo_num RSA_BAD_SHA1 = 0" | "algo_num RSA_512_SHA1 = 1" | "algo_num RSA_1024_SHA1 = 2" | "algo_num RSA_2048_SHA1 = 3"
| "algo_num RSA_BAD_SHA256 = 4" | "algo_num RSA_512_SHA256 = 5" | "algo_num RSA_1024_SHA256 = 6"
| "algo_num RSA_2048_SHA256 = 7" | "algo_num RSA_4096_SHA256 = 8"
| "algo_num ED25519_BAD_SHA256 = 9" | "algo_num ED25519_SHA256 = 10"

datatype dkim_hash = HASH_INVALID | HASH_FAIL | HASH_PASS_RELAX | HASH_PASS_SIMPLE

primrec hash_num :: "dkim_hash \<Rightarrow> nat" where
  "hash_num HASH_INVALID = 0" | "hash_num HASH_FAIL = 1" | "hash_num HASH_PASS_RELAX = 2" | "hash_num HASH_PASS_SIMPLE = 3"

text \<open>The flags for signed headers, in the order of their bits.\<close>

datatype sgn_flag = SgnCt | SgnDate | SgnFrom | SgnId | SgnMv | SgnRt | SgnSubj | SgnTo

record dkim_slot =
  ds_ts_sig :: nat
  ds_ts_exp :: nat
  ds_validSig :: bool
  ds_headHash :: dkim_hash
  ds_bodyHash :: dkim_hash
  ds_algo :: dkim_algo
  ds_dnsFlag_s :: bool
  ds_dnsFlag_y :: bool
  ds_sgn :: "sgn_flag set"
  ds_bodyTruncated :: bool
  ds_zUsed :: bool
  ds_notEmail :: bool
  ds_domain :: "byte list"
  ds_selector :: "byte list"
  ds_notes :: "byte list"
  ds_identity :: "byte list"

definition zero_slot :: dkim_slot where
  "zero_slot = \<lparr>ds_ts_sig = 0, ds_ts_exp = 0, ds_validSig = False, ds_headHash = HASH_INVALID, ds_bodyHash = HASH_INVALID,
     ds_algo = RSA_BAD_SHA1, ds_dnsFlag_s = False, ds_dnsFlag_y = False, ds_sgn = {}, ds_bodyTruncated = False,
     ds_zUsed = False, ds_notEmail = False, ds_domain = [], ds_selector = [], ds_notes = [], ds_identity = []\<rparr>"

definition flag_bit :: "nat \<Rightarrow> bool \<Rightarrow> nat" where
  "flag_bit n b = (if b then 2 ^ n else 0)"

text \<open>The bit fields as the bytes of the message; \<^verbatim>\<open>reserved\<close>, the reject bits and \<^verbatim>\<open>idValue\<close> are not set here.\<close>

definition slot_bytes :: "dkim_slot \<Rightarrow> byte list" where
  "slot_bytes d =
     le_bytes 6 (ds_ts_sig d + ds_ts_exp d * 2 ^ 22)
     @ [of_nat (flag_bit 0 (ds_validSig d) + hash_num (ds_headHash d) * 2 + hash_num (ds_bodyHash d) * 8),
        of_nat (algo_num (ds_algo d) + flag_bit 4 (ds_dnsFlag_s d) + flag_bit 5 (ds_dnsFlag_y d)),
        of_nat (sum_list (map (\<lambda>(n, f). flag_bit n (f \<in> ds_sgn d))
          (enumerate 0 [SgnCt, SgnDate, SgnFrom, SgnId, SgnMv, SgnRt, SgnSubj, SgnTo]))),
        of_nat (length (ds_domain d) + flag_bit 7 (ds_bodyTruncated d)),
        of_nat (length (ds_selector d) + flag_bit 7 (ds_zUsed d)),
        of_nat (length (ds_notes d) + flag_bit 7 (ds_notEmail d))]"

definition slot_info :: "dkim_slot \<Rightarrow> dkim_info" where
  "slot_info d = \<lparr>dk_info = slot_bytes d, dk_domain = ds_domain d, dk_selector = ds_selector d, dk_notes = ds_notes d,
     dk_identity = ds_identity d\<rparr>"

definition AEM_DKIM_TEXT_MAXLEN :: nat where "AEM_DKIM_TEXT_MAXLEN = 127"
definition AEM_DKIM_SIGTS_MAX :: nat where "AEM_DKIM_SIGTS_MAX = 4194303"
definition AEM_DKIM_EXPTS_MAX :: nat where "AEM_DKIM_EXPTS_MAX = 33554430"

record dkim_ext =
  dx_enq :: "byte list \<Rightarrow> byte list option"
  dx_b64 :: "nat \<Rightarrow> byte list \<Rightarrow> byte list \<times> nat"
  dx_sha1 :: "byte list \<Rightarrow> byte list"
  dx_sha256 :: "byte list \<Rightarrow> byte list"
  dx_init :: bool
  dx_key :: "byte list \<Rightarrow> bool"
  dx_rsa :: "byte list \<Rightarrow> byte list \<Rightarrow> int \<times> byte list"
  dx_val :: "nat \<Rightarrow> byte list"

section \<open>Tags\<close>

text \<open>A tag: its key, the distance to its end and its value; \<open>Some None\<close> is the key 0.  The array for the value has
  1024 bytes.\<close>

type_synonym dkim_pair = "(byte \<times> nat \<times> byte list) option option"

definition val_pair :: "byte \<Rightarrow> nat \<Rightarrow> byte list \<Rightarrow> dkim_pair" where
  "val_pair key n v = (if length v > 1024 then None else Some (Some (key, n + length v, v)))"

definition getValuePair_dns :: "byte list \<Rightarrow> dkim_pair" where
  "getValuePair_dns s =
     (case s of
        t # c # v \<Rightarrow>
          if c \<noteq> 61 then Some None
          else val_pair (to_lower t) 2 (takeWhile (\<lambda>c. c \<notin> {32, 9, 12, 11, 13, 10, 59}) v)
      | _ \<Rightarrow> Some None)"

text \<open>The first line feed with no white space behind it.\<close>

fun line_end :: "byte list \<Rightarrow> nat option" where
  "line_end [] = None"
| "line_end (c # s) =
     (if c = 10 \<and> (s = [] \<or> \<not> is_space (hd s)) then Some 0 else map_option Suc (line_end s))"

definition tag_end :: "byte list \<Rightarrow> nat option" where
  "tag_end v =
     (case (mempbrk v [59], line_end v) of
        (None, e2) \<Rightarrow> e2
      | (Some e, None) \<Rightarrow> Some e
      | (Some e, Some e2) \<Rightarrow> Some (if e2 < e then e2 else e))"

definition getValuePair_header :: "byte list \<Rightarrow> dkim_pair" where
  "getValuePair_header s =
     (if memeq_anycase (s @ [0]) (str ''bh='') 3 = Some True
      then (case mempbrk (drop 3 s) [59] of None \<Rightarrow> Some None | Some e \<Rightarrow> val_pair 72 3 (take e (drop 3 s)))
      else case s of
        t # c # v \<Rightarrow>
          if c \<noteq> 61 then Some None
          else (case tag_end v of None \<Rightarrow> Some None | Some e \<Rightarrow> val_pair (to_lower t) 2 (take e v))
      | _ \<Rightarrow> Some None)"

section \<open>The DNS record\<close>

text \<open>One tag of the record: \<open>buf\<close> is the array of the value; \<open>None\<close> for another version.\<close>

definition record_tag :: "dkim_ext \<Rightarrow> byte \<Rightarrow> byte list \<Rightarrow> byte list \<Rightarrow> dkim_slot \<times> byte list \<Rightarrow> (dkim_slot \<times> byte list) option" where
  "record_tag x key v buf = (\<lambda>(d, pk).
     (if key = 110 then Some (d\<lparr>ds_notes := take AEM_DKIM_TEXT_MAXLEN buf\<rparr>, pk)
      else if key = 112 then Some (d, (case dx_b64 x 1024 v of (w, n) \<Rightarrow> take n w))
      else if key = 115 then
        Some (if v = [42] \<or> map to_lower v = str ''email'' then d else d\<lparr>ds_notEmail := True\<rparr>, pk)
      else if key = 116 then
        Some (d\<lparr>ds_dnsFlag_s := ds_dnsFlag_s d \<or> 115 \<in> set v, ds_dnsFlag_y := ds_dnsFlag_y d \<or> 121 \<in> set v\<rparr>, pk)
      else if key = 118 then (if v \<noteq> str ''DKIM1'' then None else Some (d, pk))
      else Some (d, pk)))"

definition skip_tag :: "byte list \<Rightarrow> byte list" where
  "skip_tag s = dropWhile is_space (case s of [] \<Rightarrow> [] | c # s' \<Rightarrow> if c = 59 then s' else s)"

lemma length_skip_tag: "length (skip_tag s) \<le> length s"
  by (auto simp: skip_tag_def intro: le_trans [OF length_dropWhile_le] split: list.split)

lemma getValuePair_dns_length: "getValuePair_dns s = Some (Some (k, n, v)) \<Longrightarrow> 2 \<le> n \<and> 2 \<le> length s"
  by (auto simp: getValuePair_dns_def val_pair_def split: list.splits if_splits)

text \<open>The result is whether the record is one, the fields and the public key.\<close>

function record_loop :: "dkim_ext \<Rightarrow> byte list \<Rightarrow> dkim_slot \<times> byte list \<Rightarrow> (bool \<times> dkim_slot \<times> byte list) option" where
  "record_loop x s dp =
     (case getValuePair_dns s of
        None \<Rightarrow> None
      | Some None \<Rightarrow> Some (True, dp)
      | Some (Some (key, n, v)) \<Rightarrow>
          let s' = skip_tag (drop n s)
          in if v = [] then record_loop x s' dp
          else case record_tag x key v (write_at 0 v (dx_val x (length s))) dp of
            None \<Rightarrow> Some (False, dp)
          | Some dp' \<Rightarrow> record_loop x s' dp')"
  by pat_completeness auto
termination
  by (relation "measure (\<lambda>(x, s, dp). length s)")
     (auto dest!: getValuePair_dns_length intro!: le_less_trans [OF length_skip_tag])

declare record_loop.simps [simp del]

definition getDkimRecord :: "dkim_ext \<Rightarrow> dkim_slot \<Rightarrow> (bool \<times> dkim_slot \<times> byte list) option" where
  "getDkimRecord x d =
     (if ds_domain d = [] \<or> ds_selector d = [] then Some (False, d, [])
      else case dx_enq x (ds_selector d @ [47] @ ds_domain d) of
        None \<Rightarrow> Some (False, d, [])
      | Some r \<Rightarrow> if r = [] then Some (False, d, [])
          else record_loop x (takeWhile (\<lambda>c. c \<noteq> 0) (butlast r)) (d, []))"

section \<open>Relaxed canonicalisation\<close>

definition is_wsp :: "byte \<Rightarrow> bool" where
  "is_wsp c \<longleftrightarrow> c = 32 \<or> c = 9"

definition last_wsp :: "byte list \<Rightarrow> bool" where
  "last_wsp t \<longleftrightarrow> t \<noteq> [] \<and> is_wsp (last t)"

text \<open>A header: \<open>t\<close> is the target, \<open>z\<close> the byte behind the source.\<close>

fun copyRelaxed :: "byte list \<Rightarrow> byte list \<Rightarrow> byte \<Rightarrow> byte list" where
  "copyRelaxed t [] z = t"
| "copyRelaxed t (c # s) z =
     (if c = 13 \<and> length s \<ge> 2 \<and> hd s = 10 \<and> is_wsp (s ! 1) then copyRelaxed (t @ [32]) (drop 2 s) z
      else if is_wsp c \<and> is_space (hd (s @ [z])) then copyRelaxed t s z
      else if last_wsp t \<and> is_wsp c then copyRelaxed (butlast t @ [32]) s z
      else copyRelaxed (t @ [if c = 9 then 32 else c]) s z)"

text \<open>The body: \<open>p\<close> is whether the byte before is a space or tab.\<close>

fun relax_body :: "bool \<Rightarrow> byte list \<Rightarrow> byte \<Rightarrow> byte list" where
  "relax_body p [] z = []"
| "relax_body p (c # s) z =
     (if is_wsp c \<and> is_space (hd (s @ [z])) then relax_body (is_wsp c) s z
      else if p \<and> c = 9 then 32 # relax_body (is_wsp c) s z
      else (if c = 9 then 32 else c) # relax_body (is_wsp c) s z)"

section \<open>The signed headers\<close>

function tokens :: "byte \<Rightarrow> byte list \<Rightarrow> byte list list" where
  "tokens d s =
     (let s' = dropWhile (\<lambda>c. c = d) s
      in if s' = [] then [] else takeWhile (\<lambda>c. c \<noteq> d) s' # tokens d (dropWhile (\<lambda>c. c \<noteq> d) s'))"
  by pat_completeness auto
termination
proof (relation "measure (\<lambda>(d, s). length s)")
  fix d :: byte and s s' :: "byte list"
  assume h: "s' = dropWhile (\<lambda>c. c = d) s" "s' \<noteq> []"
  then have "hd s' \<noteq> d" using hd_dropWhile [of "\<lambda>c. c = d" s] by simp
  then have "length (dropWhile (\<lambda>c. c \<noteq> d) s') < length s'"
    using h(2) length_dropWhile_le [of "\<lambda>c. c \<noteq> d" "tl s'"] by (cases s') (auto simp: less_Suc_eq_le)
  also have "\<dots> \<le> length s" unfolding h(1) by (rule length_dropWhile_le)
  finally show "((d, dropWhile (\<lambda>c. c \<noteq> d) s'), d, s) \<in> measure (\<lambda>(d, s). length s)" by simp
qed simp

declare tokens.simps [simp del]

text \<open>The name \<open>h\<close> ends with a null byte, so a short name differs from the literal.\<close>

definition is_name :: "byte list \<Rightarrow> string \<Rightarrow> bool" where
  "is_name h s \<longleftrightarrow> memeq_anycase (h @ [0]) (str s) (length s) = Some True"

definition sgn_of :: "byte list \<Rightarrow> sgn_flag set" where
  "sgn_of h =
     (if is_name h ''Content-Type'' then {SgnCt}
      else if is_name h ''Date'' then {SgnDate}
      else if is_name h ''From'' then {SgnFrom}
      else if is_name h ''Message-ID'' then {SgnId}
      else if is_name h ''MIME-Version'' then {SgnMv}
      else if is_name h ''Reply-To'' then {SgnRt}
      else if is_name h ''Subject'' then {SgnSubj}
      else if is_name h ''To'' then {SgnTo}
      else {})"

definition strcasestr :: "byte list \<Rightarrow> byte list \<Rightarrow> nat option" where
  "strcasestr s n = (if n = [] then Some 0 else memcasemem s n)"

text \<open>The search for a header, from position \<open>p\<close> of the string: \<open>None\<close> if it does not end, \<open>Some None\<close> if there is none.\<close>

partial_function (option) sig_find :: "byte list \<Rightarrow> byte list \<Rightarrow> nat \<Rightarrow> nat option option" where
  "sig_find hs h p =
     (case strcasestr (drop p hs) h of
        None \<Rightarrow> Some None
      | Some k \<Rightarrow>
          let s = p + k
          in if (s = 0 \<or> hs ! (s - 1) = 10) \<and> s + length h < length hs \<and> hs ! (s + length h) = 58 then Some (Some s)
          else sig_find hs h (s + length h))"

text \<open>The line break that ends the header, if there is one.\<close>

fun header_end :: "byte list \<Rightarrow> nat option" where
  "header_end [] = None"
| "header_end (c # s) =
     (if c = 13 \<and> s \<noteq> [] \<and> hd s = 10 \<and> (tl s = [] \<or> \<not> is_wsp (hd (tl s))) then Some 0
      else map_option Suc (header_end s))"

definition dk_slice :: "nat \<Rightarrow> nat \<Rightarrow> byte list \<Rightarrow> byte list" where
  "dk_slice a b s = take (b - a) (drop a s)"

text \<open>The array of headers, whose signed ones are overwritten, and what will be hashed.\<close>

record sig_state =
  sg_headers :: "byte list"
  sg_simple :: "byte list"
  sg_relaxed :: "byte list"
  sg_flags :: "sgn_flag set"

definition sig_take :: "byte list \<Rightarrow> nat \<Rightarrow> sig_state \<Rightarrow> sig_state" where
  "sig_take h s st =
     (let hs = takeWhile (\<lambda>c. c \<noteq> 0) (sg_headers st); v = s + length h + 1;
          e = (case header_end (drop v hs) of Some k \<Rightarrow> v + k | None \<Rightarrow> length (sg_headers st))
      in st\<lparr>sg_simple := sg_simple st @ dk_slice s e (sg_headers st) @ crlf,
            sg_relaxed := copyRelaxed (sg_relaxed st @ map to_lower h @ [58])
              (dropWhile is_space (dk_slice v e (sg_headers st))) ((sg_headers st @ [0]) ! e) @ crlf,
            sg_headers := write_at s (replicate (e - s) 46) (sg_headers st)\<rparr>)"

definition sig_header :: "byte list \<Rightarrow> sig_state \<Rightarrow> sig_state option" where
  "sig_header tok st =
     (let h = dropWhile is_space tok; st = st\<lparr>sg_flags := sg_flags st \<union> sgn_of h\<rparr>
      in case sig_find (takeWhile (\<lambda>c. c \<noteq> 0) (sg_headers st)) h 0 of
        None \<Rightarrow> None
      | Some None \<Rightarrow> Some st
      | Some (Some s) \<Rightarrow> Some (sig_take h s st))"

fun sig_headers :: "byte list list \<Rightarrow> sig_state \<Rightarrow> sig_state option" where
  "sig_headers [] st = Some st"
| "sig_headers (tok # ts) st = (case sig_header tok st of None \<Rightarrow> None | Some st' \<Rightarrow> sig_headers ts st')"

definition dkim_sha :: "dkim_ext \<Rightarrow> nat \<Rightarrow> byte list \<Rightarrow> byte list" where
  "dkim_sha x lenHash = (if lenHash = 20 then dx_sha1 x else dx_sha256 x)"

text \<open>The signature header for the relaxed form.\<close>

definition relaxed_sig :: "byte list \<Rightarrow> byte list" where
  "relaxed_sig dh = str ''dkim-signature:'' @ copyRelaxed [] (dropWhile is_space (drop 15 dh)) 0"

text \<open>The arrays on the stack have the sizes of the two parts (and two bytes more for \<^verbatim>\<open>relaxed\<close>).\<close>

definition verifyDkimSig ::
  "dkim_ext \<Rightarrow> byte list \<Rightarrow> byte list \<Rightarrow> byte list \<Rightarrow> byte list \<Rightarrow> byte list \<Rightarrow> nat \<Rightarrow> dkim_slot \<Rightarrow> dkim_slot option" where
  "verifyDkimSig x pk sig copyHeaders hdrs dh lenHash d = do {
     st \<leftarrow> sig_headers (tokens 58 copyHeaders) \<lparr>sg_headers = hdrs, sg_simple = [], sg_relaxed = [], sg_flags = ds_sgn d\<rparr>;
     if length (sg_simple st) > length hdrs \<or> length (sg_relaxed st) > length hdrs + length dh + 2 then None
     else
       let d = d\<lparr>ds_sgn := sg_flags st\<rparr>;
           (ret, w) = dx_rsa x pk sig;
           out = take lenHash (drop 19 (write_at 0 w (replicate 1024 0)));
           d = (if ret \<ge> int (19 + lenHash) then d\<lparr>ds_validSig := True\<rparr> else d)
       in if out = dkim_sha x lenHash (sg_simple st @ dh) then Some (d\<lparr>ds_headHash := HASH_PASS_SIMPLE\<rparr>)
       else if length (sg_relaxed st @ relaxed_sig dh) > length hdrs + length dh + 2 then None
       else Some (d\<lparr>ds_headHash :=
         (if out = dkim_sha x lenHash (sg_relaxed st @ relaxed_sig dh) then HASH_PASS_RELAX else HASH_FAIL)\<rparr>)
   }"

section \<open>A signature\<close>

text \<open>\<^verbatim>\<open>strtol\<close> with base 10: white space, a sign, digits; the result is limited to a \<^verbatim>\<open>long\<close>.\<close>

definition dk_digits :: "byte list \<Rightarrow> int" where
  "dk_digits s = foldl (\<lambda>n c. 10 * n + int (unat c - 48)) 0 (takeWhile is_digit s)"

definition dk_strtol :: "byte list \<Rightarrow> int" where
  "dk_strtol s =
     (let s = dropWhile is_space s; neg = (s \<noteq> [] \<and> hd s = 45);
          s = (if s \<noteq> [] \<and> (hd s = 45 \<or> hd s = 43) then tl s else s);
          n = (if neg then - dk_digits s else dk_digits s)
      in max (- (2 ^ 63)) (min (2 ^ 63 - 1) n))"

text \<open>\<^verbatim>\<open>int\<close> of a wider number.\<close>

definition to_int :: "int \<Rightarrow> int" where
  "to_int n = sint (of_int n :: u32)"

text \<open>The variables of \<open>verifyDkim\<close>; \<open>dv_copyHeaders\<close> is \<open>None\<close> as long as nothing has been copied.\<close>

record dkim_vars =
  dv_slot :: dkim_slot
  dv_signature :: "byte list"
  dv_lenSignature :: nat
  dv_bodyhash :: "byte list"
  dv_copyHeaders :: "byte list option"
  dv_sigPos :: nat
  dv_sigLen :: nat
  dv_delSig :: bool
  dv_tsSig :: int
  dv_tsExp :: int
  dv_lenTrunc :: nat

definition in_slot :: "(dkim_slot \<Rightarrow> dkim_slot) \<Rightarrow> dkim_vars \<Rightarrow> dkim_vars" where
  "in_slot f s = s\<lparr>dv_slot := f (dv_slot s)\<rparr>"

definition del_sig :: "dkim_vars \<Rightarrow> dkim_vars" where
  "del_sig s = s\<lparr>dv_delSig := True\<rparr>"

definition tag_algo :: "byte list \<Rightarrow> byte list \<Rightarrow> dkim_vars \<Rightarrow> dkim_vars" where
  "tag_algo v buf s =
     (if length v = 14 \<or> memeq_anycase buf (str ''ed25519-sha256'') 14 = Some True
      then in_slot (\<lambda>d. d\<lparr>ds_algo := ED25519_SHA256\<rparr>) s
      else if length v = 10 \<or> memeq_anycase buf (str ''rsa-sha256'') 10 = Some True
      then in_slot (\<lambda>d. d\<lparr>ds_algo := RSA_512_SHA256\<rparr>) s
      else if length v = 8 \<or> memeq_anycase buf (str ''rsa-sha1'') 8 = Some True
      then in_slot (\<lambda>d. d\<lparr>ds_algo := RSA_512_SHA1\<rparr>) s
      else del_sig s)"

definition tag_text :: "(byte list \<Rightarrow> dkim_slot \<Rightarrow> dkim_slot) \<Rightarrow> byte list \<Rightarrow> dkim_vars \<Rightarrow> dkim_vars" where
  "tag_text f v s = (if length v > AEM_DKIM_TEXT_MAXLEN then del_sig s else in_slot (f v) s)"

definition tag_length :: "nat \<Rightarrow> byte list \<Rightarrow> dkim_vars \<Rightarrow> dkim_vars" where
  "tag_length lenBody v s =
     (let s = in_slot (\<lambda>d. d\<lparr>ds_bodyTruncated := True\<rparr>) s; newLen = to_int (dk_strtol v)
      in if newLen \<ge> 0 \<and> newLen < to_int (int lenBody) then s\<lparr>dv_lenTrunc := nat newLen\<rparr> else s)"

definition tag_time :: "u32 \<Rightarrow> byte list \<Rightarrow> dkim_vars \<Rightarrow> dkim_vars" where
  "tag_time ts v s =
     (if hd v = 45 \<or> length v \<noteq> 10 then s
      else let s = s\<lparr>dv_tsSig := dk_strtol v\<rparr>; tsDiff = dk_strtol v - uint ts
      in if tsDiff = 0 then s
         else in_slot (\<lambda>d. d\<lparr>ds_ts_sig := min AEM_DKIM_SIGTS_MAX (nat \<bar>tsDiff\<bar>)\<rparr>) s)"

text \<open>One tag: \<open>v\<close> is its value, not empty, \<open>buf\<close> the array that holds it and \<open>start\<close> where it was found.\<close>

definition dkim_tag ::
  "dkim_ext \<Rightarrow> u32 \<Rightarrow> nat \<Rightarrow> byte \<Rightarrow> byte list \<Rightarrow> byte list \<Rightarrow> nat \<Rightarrow> dkim_vars \<Rightarrow> dkim_vars" where
  "dkim_tag x ts lenBody key v buf start s =
     (if key = 118 then (if v \<noteq> [49] then del_sig s else s)
      else if key = 97 then tag_algo v buf s
      else if key = 100 then tag_text (\<lambda>v d. d\<lparr>ds_domain := v\<rparr>) v s
      else if key = 115 then tag_text (\<lambda>v d. d\<lparr>ds_selector := v\<rparr>) v s
      else if key = 108 then tag_length lenBody v s
      else if key = 113 then (if map to_lower v \<noteq> str ''dns/txt'' then del_sig s else s)
      else if key = 116 then tag_time ts v s
      else if key = 105 then tag_text (\<lambda>v d. d\<lparr>ds_identity := v\<rparr>) v s
      else if key = 120 then (if hd v = 45 \<or> length v \<noteq> 10 then s else s\<lparr>dv_tsExp := dk_strtol v\<rparr>)
      else if key = 104 then (if length v > 1023 then del_sig s else s\<lparr>dv_copyHeaders := Some v\<rparr>)
      else if key = 72 then s\<lparr>dv_bodyhash := write_at 0 (fst (dx_b64 x 32 v)) (dv_bodyhash s)\<rparr>
      else if key = 98 then
        s\<lparr>dv_sigPos := start, dv_sigLen := length v,
          dv_signature := write_at 0 (fst (dx_b64 x 1024 v)) (dv_signature s), dv_lenSignature := snd (dx_b64 x 1024 v)\<rparr>
      else if key = 122 then in_slot (\<lambda>d. d\<lparr>ds_zUsed := True\<rparr>) s
      else s)"

lemma length_line_end: "line_end s = Some e \<Longrightarrow> e < length s"
  by (induction s arbitrary: e) (auto split: if_splits)

lemma length_tag_end: "tag_end v = Some e \<Longrightarrow> e < length v"
  by (auto simp: tag_end_def mempbrk_def dest: length_line_end mempbrk_from_Some split: option.splits if_splits)

lemma val_pair_take:
  "val_pair key m (take e t) = Some (Some (k, n, v)) \<Longrightarrow> e < length t \<Longrightarrow> n = m + e \<and> length v = e \<and> e \<le> 1024"
  by (auto simp: val_pair_def split: if_splits)

lemma getValuePair_header_length:
  assumes "getValuePair_header s = Some (Some (k, n, v))"
  shows "2 \<le> n" "n < length s" "length v \<le> n" "length v \<le> 1024"
proof -
  have "2 \<le> n \<and> n < length s \<and> length v \<le> n \<and> length v \<le> 1024"
  proof (cases "memeq_anycase (s @ [0]) (str ''bh='') 3 = Some True")
    case True
    then obtain e where e: "mempbrk (drop 3 s) [59] = Some e" "val_pair 72 3 (take e (drop 3 s)) = Some (Some (k, n, v))"
      using assms by (auto simp: getValuePair_header_def split: option.splits)
    then have "e < length (drop 3 s)" by (auto simp: mempbrk_def dest: mempbrk_from_Some)
    with val_pair_take [OF e(2)] show ?thesis by simp
  next
    case False
    then obtain t c w e where s: "s = t # c # w" "tag_end w = Some e" "val_pair (to_lower t) 2 (take e w) = Some (Some (k, n, v))"
      using assms by (auto simp: getValuePair_header_def split: option.splits list.splits if_splits)
    with val_pair_take [OF s(3) length_tag_end [OF s(2)]] length_tag_end [OF s(2)] show ?thesis by simp
  qed
  then show "2 \<le> n" "n < length s" "length v \<le> n" "length v \<le> 1024" by auto
qed

lemma skip_tag_later:
  assumes "getValuePair_header (drop off m) = Some (Some (k, n, v))"
  shows "length m - (length m - length (skip_tag (drop (off + n) m))) < length m - off"
  using length_skip_tag [of "drop (off + n) m"] getValuePair_header_length(1,2) [OF assms] by simp

text \<open>The tags of the header: \<open>m\<close> is the string, \<open>off\<close> the offset.\<close>

function tag_loop :: "dkim_ext \<Rightarrow> u32 \<Rightarrow> byte list \<Rightarrow> nat \<Rightarrow> nat \<Rightarrow> nat \<Rightarrow> nat \<Rightarrow> dkim_vars \<Rightarrow> (nat \<times> dkim_vars) option" where
  "tag_loop x ts m lenHead lenBody maxOffset off s =
     (case getValuePair_header (drop off m) of
        None \<Rightarrow> None
      | Some None \<Rightarrow> Some (off, s)
      | Some (Some (key, n, v)) \<Rightarrow>
          if off + n > lenHead then Some (off, s)
          else let off' = length m - length (skip_tag (drop (off + n) m))
          in if off' \<ge> maxOffset then Some (maxOffset, s)
          else if v = [] then tag_loop x ts m lenHead lenBody maxOffset off' s
          else tag_loop x ts m lenHead lenBody maxOffset off'
            (dkim_tag x ts lenBody key v (write_at 0 v (dx_val x off)) (off + n - length v) s))"
  by pat_completeness auto
termination
  by (relation "measure (\<lambda>(x, ts, m, lh, lb, mo, off, s). length m - off)") (auto dest: skip_tag_later)

declare tag_loop.simps [simp del]

text \<open>The algorithm by the length of the signature.\<close>

definition algo_size :: "dkim_algo \<Rightarrow> nat \<Rightarrow> nat \<Rightarrow> dkim_algo" where
  "algo_size a lenPk lenSig =
     (case a of
        ED25519_SHA256 \<Rightarrow> if lenPk \<noteq> 32 then ED25519_BAD_SHA256 else a
      | RSA_512_SHA256 \<Rightarrow>
          if lenSig = 512 then RSA_4096_SHA256 else if lenSig = 256 then RSA_2048_SHA256
          else if lenSig = 128 then RSA_1024_SHA256 else if lenSig \<noteq> 64 then RSA_BAD_SHA256 else a
      | RSA_512_SHA1 \<Rightarrow>
          if lenSig = 256 then RSA_2048_SHA1 else if lenSig = 128 then RSA_1024_SHA1
          else if lenSig \<noteq> 64 then RSA_BAD_SHA1 else a
      | _ \<Rightarrow> a)"

function trim_body :: "byte list \<Rightarrow> byte list" where
  "trim_body b =
     (if length b > 4 \<and> drop (length b - 4) b = crlf @ crlf then trim_body (take (length b - 2) b) else b)"
  by pat_completeness auto
termination by (relation "measure length") auto

declare trim_body.simps [simp del]

text \<open>The hash of the body: \<open>b\<close> are the bytes behind the headers, of which the last is behind the body.\<close>

definition truncated :: "nat \<Rightarrow> byte list \<Rightarrow> byte list" where
  "truncated n b = (if n > 0 \<and> n \<le> length b then take n b else b)"

definition body_result :: "dkim_ext \<Rightarrow> nat \<Rightarrow> byte list \<Rightarrow> nat \<Rightarrow> byte list \<Rightarrow> dkim_hash" where
  "body_result x lenHash b lenTrunc bodyhash =
     (let body = trim_body (butlast b); lenTrunc = (if lenTrunc > length body then 0 else lenTrunc); h = take lenHash bodyhash
      in if dkim_sha x lenHash (truncated lenTrunc body) = h then HASH_PASS_SIMPLE
      else if dkim_sha x lenHash (truncated lenTrunc (relax_body False body (b ! length body))) = h then HASH_PASS_RELAX
      else HASH_FAIL)"

text \<open>The signature header without the signature and the line break.\<close>

definition sig_header_text :: "byte list \<Rightarrow> nat \<Rightarrow> nat \<Rightarrow> byte list" where
  "sig_header_text hd0 sigPos sigLen =
     (let dh = take sigPos hd0 @ drop (sigPos + sigLen) hd0;
          dh = (if dh \<noteq> [] \<and> last dh = 10 then butlast dh else dh)
      in if dh \<noteq> [] \<and> last dh = 13 then butlast dh else dh)"

definition vars_start :: "dkim_slot \<Rightarrow> dkim_vars" where
  "vars_start d = \<lparr>dv_slot = d\<lparr>ds_algo := RSA_BAD_SHA1\<rparr>, dv_signature = replicate 1024 0, dv_lenSignature = 0,
     dv_bodyhash = replicate 32 0, dv_copyHeaders = None, dv_sigPos = 0, dv_sigLen = 0, dv_delSig = False,
     dv_tsSig = 0, dv_tsExp = 0, dv_lenTrunc = 0\<rparr>"

definition slot_expiry :: "u32 \<Rightarrow> int \<Rightarrow> int \<Rightarrow> dkim_slot \<Rightarrow> dkim_slot" where
  "slot_expiry ts tsSig tsExp d =
     (let expDiff = tsExp - (if tsSig > 0 then tsSig else uint ts)
      in if tsExp \<noteq> 0 \<and> expDiff > 0 then d\<lparr>ds_ts_exp := min AEM_DKIM_EXPTS_MAX (nat expDiff)\<rparr> else d)"

text \<open>What follows when the tags have been read: the fields and whether they count.\<close>

definition verify_tags ::
  "dkim_ext \<Rightarrow> u32 \<Rightarrow> byte list \<Rightarrow> nat \<Rightarrow> nat \<Rightarrow> nat \<Rightarrow> dkim_vars \<Rightarrow> (dkim_slot \<times> bool) option" where
  "verify_tags x ts mem lenSrc lenHead offset s =
     (if dv_delSig s \<or> offset < 10 \<or> offset > 2047 \<or> dv_sigPos s = 0 \<or> dv_sigLen s = 0 then Some (dv_slot s, False)
      else
        let d = slot_expiry ts (dv_tsSig s) (dv_tsExp s) (dv_slot s);
            dh = sig_header_text (take offset mem) (dv_sigPos s) (dv_sigLen s)
        in case getDkimRecord x d of
          None \<Rightarrow> None
        | Some (False, d, pk) \<Rightarrow> Some (d, False)
        | Some (True, d, pk) \<Rightarrow>
            let lenHash = (if ds_algo d = RSA_512_SHA1 then 20 else 32);
                d = d\<lparr>ds_algo := algo_size (ds_algo d) (length pk) (dv_lenSignature s)\<rparr>;
                d = d\<lparr>ds_bodyHash := body_result x lenHash (dk_slice lenHead (lenSrc + 1) mem) (dv_lenTrunc s) (dv_bodyhash s)\<rparr>
            in if \<not> dx_init x then Some (d, False)
            else if \<not> dx_key x pk then Some (d, True)
            else case dv_copyHeaders s of
              None \<Rightarrow> None
            | Some names \<Rightarrow>
                if offset > lenHead - 4 then None
                else map_option (\<lambda>d. (d, True)) (verifyDkimSig x pk (take (dv_lenSignature s) (dv_signature s)) names
                  (dk_slice offset (lenHead - 4) mem) dh lenHash d))"

text \<open>\<open>mem\<close> is the memory from the signature on, of which \<open>lenSrc\<close> bytes are the message; the result is the
  entry of \<^verbatim>\<open>dkim\<close> behind those counted, whether it is counted now, and the length to remove.\<close>

definition verifyDkim ::
  "dkim_ext \<Rightarrow> u32 \<Rightarrow> dkim_slot \<Rightarrow> byte list \<Rightarrow> nat \<Rightarrow> nat \<Rightarrow> (dkim_slot \<times> bool \<times> nat) option" where
  "verifyDkim x ts d mem lenSrc maxOffset =
     (if length mem \<le> lenSrc \<or> 0 \<notin> set mem then None
      else case memmem (take lenSrc mem) (crlf @ crlf) of
        None \<Rightarrow> Some (d, False, 0)
      | Some he \<Rightarrow>
          if memeq_anycase mem (str ''DKIM-Signature:'') 15 \<noteq> Some True then Some (d, False, 0)
          else
            let m = takeWhile (\<lambda>c. c \<noteq> 0) mem; lenHead = he + 4
            in case tag_loop x ts m lenHead (lenSrc - lenHead) maxOffset (length m - length (dropWhile is_space (drop 15 m)))
                (vars_start d) of
              None \<Rightarrow> None
            | Some (offset, s) \<Rightarrow>
                map_option (\<lambda>(d, counted). (d, counted, offset)) (verify_tags x ts mem lenSrc lenHead offset s))"

end
