(* ===== verification/Dkim_Claims.thy ===== *)
theory Dkim_Claims
  imports Dkim
begin

text \<open>
  The check of DKIM signatures against reference definitions: the relaxed form of a body and of a header (RFC 6376,
  section 3.4) and the selection of the signed headers.  And what makes the check loop for ever or write behind its
  arrays.
\<close>

section \<open>The relaxed form\<close>

text \<open>The reference: a sequence of spaces and tabs is one space, and none at the end of the line.\<close>

function relax_line :: "byte list \<Rightarrow> byte list" where
  "relax_line [] = []"
| "relax_line (c # s) =
     (if is_wsp c then (let r = dropWhile is_wsp s in if r = [] then [] else 32 # relax_line r) else c # relax_line s)"
  by pat_completeness auto
termination
  by (relation "measure length") (auto simp: less_Suc_eq_le length_dropWhile_le)

text \<open>A line has no white space but spaces and tabs.\<close>

definition line_char :: "byte \<Rightarrow> bool" where
  "line_char c \<longleftrightarrow> \<not> is_space c \<or> is_wsp c"

definition body_lines :: "byte list list \<Rightarrow> byte list" where
  "body_lines ls = concat (map (\<lambda>l. l @ crlf) ls)"

lemma wsp_space: "is_wsp c \<Longrightarrow> is_space c"
  by (auto simp: is_wsp_def is_space_def)

lemma wsp_cr [simp]: "\<not> is_wsp 13" "\<not> is_wsp 10" "is_space 13" "is_space 10"
  by (simp_all add: is_wsp_def is_space_def)

lemma relax_line_cons:
  "is_wsp c \<Longrightarrow> relax_line (c # s) = (if s = [] \<or> is_wsp (hd s) then relax_line s else 32 # relax_line s)"
  by (cases s) (simp_all add: Let_def)









text \<open>A last line of white space alone stays, as an empty line, which the standard ignores.\<close>

lemma blank_last_line:
  "relax_body False (trim_body (body_lines [[97], [32]])) 0 = body_lines [[97], []]"
  by (simp add: body_lines_def crlf_def trim_body.simps is_wsp_def is_space_def)


section \<open>Header values\<close>

text \<open>The value of a header: every line break is a fold, and no line of it is blank.\<close>

definition text_next :: "byte list \<Rightarrow> bool" where
  "text_next s \<longleftrightarrow> dropWhile is_wsp s \<noteq> [] \<and> hd (dropWhile is_wsp s) \<noteq> 13"

function val_ok :: "byte list \<Rightarrow> bool" where
  "val_ok [] = True"
| "val_ok (c # s) =
     (if c = 13 then 2 \<le> length s \<and> hd s = 10 \<and> is_wsp (s ! 1) \<and> text_next (tl s) \<and> val_ok (tl s)
      else c \<noteq> 0 \<and> line_char c \<and> val_ok s)"
  by pat_completeness auto
termination by (relation "measure length") auto

declare val_ok.simps(2) [simp del]

lemma val_ok_char [simp]: "c \<noteq> 13 \<Longrightarrow> val_ok (c # s) = (c \<noteq> 0 \<and> line_char c \<and> val_ok s)"
  by (simp add: val_ok.simps)

lemma val_ok_wsp: "is_wsp c \<Longrightarrow> val_ok (c # s) = val_ok s"
  by (subst val_ok_char) (auto simp: is_wsp_def line_char_def)

definition unfold_value :: "byte list \<Rightarrow> byte list" where
  "unfold_value v = filter (\<lambda>c. c \<noteq> 13 \<and> c \<noteq> 10) v"

lemma unfold_value_simps [simp]:
  "unfold_value [] = []"
  "is_wsp c \<Longrightarrow> unfold_value (c # s) = c # unfold_value s"
  "c \<noteq> 13 \<Longrightarrow> c \<noteq> 10 \<Longrightarrow> unfold_value (c # s) = c # unfold_value s"
  "unfold_value (13 # s) = unfold_value s" "unfold_value (10 # s) = unfold_value s"
  by (auto simp: unfold_value_def is_wsp_def)

text \<open>The relaxed form of a value in the standard.\<close>

definition relax_value :: "byte list \<Rightarrow> byte list" where
  "relax_value v = relax_line (dropWhile is_wsp (unfold_value v))"

definition ends_dark :: "byte list \<Rightarrow> bool" where
  "ends_dark v \<longleftrightarrow> v = [] \<or> \<not> is_space (last v)"

lemma line_char_simps [simp]: "\<not> line_char 13" "\<not> line_char 10"
  by (simp_all add: line_char_def)

lemma line_char_space: "line_char c \<Longrightarrow> is_space c \<longleftrightarrow> is_wsp c"
  using wsp_space by (auto simp: line_char_def)

lemma val_ok_fold:
  assumes "val_ok (13 # s)"
  obtains w r where "s = 10 # w # r" "is_wsp w" "val_ok (w # r)" "text_next r"
proof -
  obtain a w r where s: "s = a # w # r" using assms by (cases s; cases "tl s") (auto simp: val_ok.simps)
  then have w: "a = 10" "is_wsp w" "text_next (w # r)" "val_ok (w # r)" using assms by (simp_all add: val_ok.simps(2) [of 13])
  then have "text_next r" by (simp add: text_next_def)
  then show thesis using s w by (intro that [of w r]) simp_all
qed

lemma text_next_simps [simp]: "is_wsp c \<Longrightarrow> text_next (c # s) = text_next s" "\<not> text_next (13 # s)"
  by (simp_all add: text_next_def)

lemma ends_dark_tl: "ends_dark (c # s) \<Longrightarrow> ends_dark s"
  by (auto simp: ends_dark_def split: if_splits)

lemma ends_dark_wsp: "ends_dark (c # s) \<Longrightarrow> is_wsp c \<Longrightarrow> s \<noteq> []"
  using wsp_space by (auto simp: ends_dark_def)

lemma unfold_nonempty: "val_ok s \<Longrightarrow> ends_dark s \<Longrightarrow> s \<noteq> [] \<Longrightarrow> unfold_value s \<noteq> []"
  unfolding unfold_value_def ends_dark_def by (auto simp: filter_empty_conv intro!: bexI [of _ "last s"])

lemma relax_line_space:
  assumes "is_wsp c"
  shows "relax_line (c # s) = relax_line (32 # s)"
proof -
  have "is_wsp 32" by (simp add: is_wsp_def)
  then show ?thesis by (simp only: relax_line_cons [OF assms] relax_line_cons)
qed

lemma relax_line_double: "is_wsp c \<Longrightarrow> is_wsp d \<Longrightarrow> relax_line (d # c # s) = relax_line (c # s)"
  by (simp only: relax_line_cons [of d]) simp

text \<open>White space before white space: the line or the fold goes on with it.\<close>

lemma unfold_space:
  assumes "val_ok s" "s \<noteq> []" "is_space (hd s)"
  obtains w r where "unfold_value s = w # r" "is_wsp w"
proof (cases "hd s = 13")
  case True
  then have "val_ok (13 # tl s)" using assms by (metis list.collapse)
  then obtain w r where "tl s = 10 # w # r" "is_wsp w" by (rule val_ok_fold)
  then show thesis using that [of w "unfold_value r"] True assms(2) by (cases s) auto
next
  case False
  then obtain c r where s: "s = c # r" "c \<noteq> 13" using assms(2) by (cases s) auto
  then have "line_char c" using assms(1) by simp
  then have "is_wsp c" using assms(3) s line_char_space by simp
  then show thesis using that [of c "unfold_value r"] s by auto
qed

lemma copyRelaxed_value:
  "val_ok s \<Longrightarrow> ends_dark s \<Longrightarrow> (last_wsp t \<Longrightarrow> last t = 32 \<and> text_next s) \<Longrightarrow>
   copyRelaxed t s z =
     (if last_wsp t then butlast t @ relax_line (32 # unfold_value s) else t @ relax_line (unfold_value s))"
proof (induction t s z rule: copyRelaxed.induct)
  case (1 t z)
  then have "\<not> last_wsp t" by (auto simp: text_next_def)
  then show ?case by simp
next
  case (2 t c s z)
  have w32: "is_wsp 32" by (simp add: is_wsp_def)
  have lw: "last_wsp (u @ [32])" for u by (simp add: last_wsp_def w32)
  have t32: "t = butlast t @ [32]" if "last_wsp t"
    using that "2.prems"(3) by (metis append_butlast_last_id last_wsp_def)
  consider (fold) "c = 13" | (wsp) "is_wsp c" | (dark) "c \<noteq> 13" "\<not> is_wsp c" by auto
  then show ?case
  proof cases
    case fold
    then obtain w r where s: "s = 10 # w # r" "is_wsp w" "val_ok (w # r)" "text_next r" using "2.prems"(1) val_ok_fold by blast
    then have r: "val_ok r" "ends_dark r" "w \<noteq> 13" "w \<noteq> 10"
      using "2.prems"(2) ends_dark_tl by (auto simp: val_ok_wsp)
    have n: "\<not> last_wsp t" using "2.prems"(3) fold by auto
    have "copyRelaxed t (c # s) z = copyRelaxed (t @ [32]) r z" using s fold by simp
    also have "\<dots> = t @ relax_line (32 # unfold_value r)"
      using "2.IH"(1) fold s r lw by simp
    also have "\<dots> = t @ relax_line (unfold_value (c # s))"
      using fold s r relax_line_space [OF s(2)] by simp
    finally show ?thesis using n by simp
  next
    case wsp
    then have c: "c \<noteq> 13" "c \<noteq> 10" by auto
    have s: "s \<noteq> []" "val_ok s" "ends_dark s" using "2.prems" wsp c ends_dark_wsp ends_dark_tl by auto
    have u: "unfold_value (c # s) = c # unfold_value s" using c by simp
    have tn: "last_wsp t \<Longrightarrow> last t = 32 \<and> text_next s" using "2.prems"(3) wsp by simp
    have kept: "butlast t @ [32] = t" if "last_wsp t" using t32 that by simp
    show ?thesis
    proof (cases "last_wsp t \<or> is_space (hd s)")
      case True
      have "copyRelaxed t (c # s) z = copyRelaxed t s z"
        using True wsp c s kept by (auto simp: hd_append)
      also have "\<dots> = (if last_wsp t then butlast t @ relax_line (32 # unfold_value s) else t @ relax_line (unfold_value s))"
      proof (cases "is_space (hd (s @ [z]))")
        case True
        with "2.IH"(2) wsp c s tn show ?thesis by blast
      next
        case False
        then have "last_wsp t" using True s by (auto simp: hd_append)
        with "2.IH"(3) False wsp c s tn kept show ?thesis by simp
      qed
      also have "\<dots> = (if last_wsp t then butlast t @ relax_line (32 # unfold_value (c # s)) else t @ relax_line (unfold_value (c # s)))"
      proof (cases "last_wsp t")
        case True
        then show ?thesis by (simp only: u relax_line_double [OF wsp w32] relax_line_space [OF wsp] if_True)
      next
        case False
        then have "is_space (hd s)" using True by simp
        then obtain w r where "unfold_value s = w # r" "is_wsp w" using unfold_space [OF s(2,1)] by blast
        then show ?thesis using False by (simp only: u relax_line_double [OF _ wsp]) simp
      qed
      finally show ?thesis .
    next
      case False
      then have h: "\<not> is_space (hd s)" "\<not> last_wsp t" by auto
      then have tn': "text_next s" using s(1) wsp_space by (cases s) (auto simp: text_next_def)
      have c32: "(if c = 9 then 32 else c) = 32" using wsp by (auto simp: is_wsp_def)
      have "copyRelaxed t (c # s) z = copyRelaxed (t @ [32]) s z"
        using h wsp c c32 s(1) by (simp add: hd_append)
      also have "\<dots> = t @ relax_line (32 # unfold_value s)"
        using "2.IH"(4) h wsp c c32 s lw tn' by (simp add: hd_append)
      finally show ?thesis using h by (simp only: u relax_line_space [OF wsp]) simp
    qed
  next
    case dark
    then have c: "c \<noteq> 9" "c \<noteq> 10" "val_ok s" "ends_dark s" using "2.prems" ends_dark_tl by (auto simp: is_wsp_def)
    have n: "\<not> last_wsp (t @ [c])" using dark by (simp add: last_wsp_def)
    have "copyRelaxed t (c # s) z = copyRelaxed (t @ [c]) s z" using dark c by simp
    also have "\<dots> = t @ c # relax_line (unfold_value s)" using "2.IH"(4) dark c n by simp
    finally have *: "copyRelaxed t (c # s) z = t @ c # relax_line (unfold_value s)" .
    have u: "unfold_value (c # s) = c # unfold_value s" using dark c by simp
    show ?thesis
    proof (cases "last_wsp t")
      case True
      have "t @ c # relax_line (unfold_value s) = butlast t @ 32 # c # relax_line (unfold_value s)"
        by (subst t32 [OF True]) simp
      then show ?thesis using * True dark by (simp only: u relax_line_cons [OF w32]) simp
    next
      case False
      then show ?thesis using * dark u by simp
    qed
  qed
qed

lemma dropWhile_space_value:
  "val_ok v \<Longrightarrow> val_ok (dropWhile is_space v) \<and> unfold_value (dropWhile is_space v) = dropWhile is_wsp (unfold_value v)"
proof (induction v rule: val_ok.induct)
  case (2 c s)
  show ?case
  proof (cases "c = 13")
    case True
    then obtain w r where s: "s = 10 # w # r" "is_wsp w" "val_ok (w # r)" using "2.prems" val_ok_fold by blast
    have "val_ok (dropWhile is_space (w # r)) \<and> unfold_value (dropWhile is_space (w # r)) = dropWhile is_wsp (unfold_value (w # r))"
      using "2.IH"(1) [OF True] s by simp
    then show ?thesis using True s by simp
  next
    case False
    then have l: "line_char c" "val_ok s" "c \<noteq> 10" using "2.prems" by auto
    show ?thesis
    proof (cases "is_wsp c")
      case True
      then show ?thesis using "2.IH"(2) False l wsp_space [OF True] by simp
    next
      case False
      then have "\<not> is_space c" using l line_char_space by simp
      then show ?thesis using False \<open>c \<noteq> 13\<close> l "2.prems" by simp
    qed
  qed
qed simp

lemma ends_dark_dropWhile: "ends_dark v \<Longrightarrow> ends_dark (dropWhile P v)"
  by (induction v) (auto simp: ends_dark_def split: if_splits)

lemma relaxed_value:
  assumes "val_ok v" "ends_dark v" "\<not> last_wsp t"
  shows "copyRelaxed t (dropWhile is_space v) z = t @ relax_value v"
  using assms dropWhile_space_value [OF assms(1)] copyRelaxed_value [of "dropWhile is_space v" t z]
  by (simp add: ends_dark_dropWhile relax_value_def)

section \<open>The search for a header\<close>

definition name_ok :: "byte list \<Rightarrow> bool" where
  "name_ok n \<longleftrightarrow> n \<noteq> [] \<and> list_all (\<lambda>c. \<not> is_space c \<and> c \<noteq> 58 \<and> c \<noteq> 0) n"

definition valid_at :: "byte list \<Rightarrow> byte list \<Rightarrow> nat \<Rightarrow> bool" where
  "valid_at hs h s \<longleftrightarrow> occurs_at hs h s \<and> (s = 0 \<or> hs ! (s - 1) = 10) \<and> s + length h < length hs \<and> hs ! (s + length h) = 58"

lemma occurs_drop: "p \<le> length hs \<Longrightarrow> occurs_at (drop p hs) h j = occurs_at hs h (p + j)"
  by (auto simp: occurs_at_def add.commute)

lemma occurs_char:
  assumes "occurs_at hs h s" "i < length h"
  shows "to_lower (hs ! (s + i)) = to_lower (h ! i)" "s + i < length hs"
proof -
  from assms have *: "s + length h \<le> length hs" "map to_lower (take (length h) (drop s hs)) = map to_lower h" by (simp_all add: occurs_at_def)
  from arg_cong [OF *(2), of "\<lambda>l. l ! i"] show "to_lower (hs ! (s + i)) = to_lower (h ! i)" using *(1) assms(2) by simp
  show "s + i < length hs" using * assms(2) by simp
qed

lemma char_fixed [simp]: "to_lower x = 10 \<longleftrightarrow> x = 10" "to_lower x = 13 \<longleftrightarrow> x = 13" "to_lower x = 58 \<longleftrightarrow> x = 58"
    "to_lower x = 32 \<longleftrightarrow> x = 32" "to_lower x = 9 \<longleftrightarrow> x = 9"
  by (auto simp: to_lower_def is_upper_def; unat_arith)+

lemma occurs_no_lf:
  assumes "occurs_at hs h s" "10 \<notin> set h" "i < length h"
  shows "hs ! (s + i) \<noteq> 10"
  using occurs_char(1) [OF assms(1,3)] assms(2,3) by (metis char_fixed(1) nth_mem)

lemma sig_find_finds:
  "h \<noteq> [] \<Longrightarrow> 10 \<notin> set h \<Longrightarrow> p \<le> length hs \<Longrightarrow>
   \<exists>r. sig_find hs h p = Some r \<and>
     (case r of None \<Rightarrow> \<forall>s. p \<le> s \<longrightarrow> \<not> valid_at hs h s
      | Some s \<Rightarrow> p \<le> s \<and> valid_at hs h s \<and> (\<forall>j. p \<le> j \<and> j < s \<longrightarrow> \<not> valid_at hs h j))"
proof (induction "length hs - p" arbitrary: p rule: less_induct)
  case less
  let ?m = "memcasemem (drop p hs) h"
  have str: "strcasestr (drop p hs) h = ?m" using less.prems(1) by (simp add: strcasestr_def)
  show ?case
  proof (cases ?m)
    case None
    have "\<not> occurs_at hs h s" if "p \<le> s" for s
      using memcasemem_from_None [of 0 "drop p hs" h] None that occurs_drop [OF less.prems(3), of h "s - p"]
      by (simp add: memcasemem_def less.prems(1))
    then have "\<forall>s. p \<le> s \<longrightarrow> \<not> valid_at hs h s" by (simp add: valid_at_def)
    then show ?thesis using None str by (subst sig_find.simps) simp
  next
    case (Some k)
    let ?s = "p + k"
    have k: "occurs_at hs h ?s" "\<forall>j < k. \<not> occurs_at hs h (p + j)"
      using memcasemem_from_Some [of 0 "drop p hs" h k] Some occurs_drop [OF less.prems(3), of h] by (simp_all add: memcasemem_def)
    have bound: "?s + length h \<le> length hs" using k(1) by (simp add: occurs_at_def)
    have before: "\<not> valid_at hs h j" if "p \<le> j" "j < ?s" for j
    proof -
      from that have "j = p + (j - p)" "j - p < k" by auto
      with k(2) show ?thesis by (metis valid_at_def)
    qed
    show ?thesis
    proof (cases "valid_at hs h ?s")
      case True
      then have "sig_find hs h p = Some (Some ?s)" using Some str by (subst sig_find.simps) (simp add: valid_at_def)
      then show ?thesis using True before by auto
    next
      case False
      have step: "sig_find hs h p = sig_find hs h (?s + length h)"
        using False k(1) Some str by (subst sig_find.simps) (auto simp: valid_at_def Let_def)
      have inside: "\<not> valid_at hs h j" if "?s < j" "j < ?s + length h" for j
      proof
        assume v: "valid_at hs h j"
        from that have "hs ! (j - 1) = hs ! (?s + (j - 1 - ?s))" "j - 1 - ?s < length h" by auto
        then have "hs ! (j - 1) \<noteq> 10" using occurs_no_lf [OF k(1) less.prems(2)] by metis
        with v that show False by (simp add: valid_at_def)
      qed
      have none: "\<not> valid_at hs h j" if "p \<le> j" "j < ?s + length h" for j
        using that before inside False by (metis linorder_less_linear)
      have "length hs - (?s + length h) < length hs - p" using less.prems(1) bound by (cases h) auto
      from less.hyps [OF this less.prems(1,2) bound] obtain r where r: "sig_find hs h (?s + length h) = Some r"
        "case r of None \<Rightarrow> \<forall>s. ?s + length h \<le> s \<longrightarrow> \<not> valid_at hs h s
         | Some s \<Rightarrow> ?s + length h \<le> s \<and> valid_at hs h s \<and> (\<forall>j. ?s + length h \<le> j \<and> j < s \<longrightarrow> \<not> valid_at hs h j)"
        by blast
      have "case r of None \<Rightarrow> \<forall>s. p \<le> s \<longrightarrow> \<not> valid_at hs h s
         | Some s \<Rightarrow> p \<le> s \<and> valid_at hs h s \<and> (\<forall>j. p \<le> j \<and> j < s \<longrightarrow> \<not> valid_at hs h j)"
        using r(2) none by (cases r) (auto simp: not_less [symmetric])
      then show ?thesis using step r(1) by auto
    qed
  qed
qed

section \<open>The headers as lines\<close>

text \<open>A header with its name and value, and whether it has been taken: then it is a line of dots.\<close>

type_synonym sig_line = "byte list \<times> byte list \<times> bool"

definition line_text :: "sig_line \<Rightarrow> byte list" where
  "line_text l = (case l of (n, v, taken) \<Rightarrow> if taken then replicate (length n + 1 + length v) 46 else n @ 58 # v)"

definition sep_lines :: "sig_line list \<Rightarrow> byte list" where
  "sep_lines ls = concat (map (\<lambda>l. line_text l @ crlf) ls)"

text \<open>The lines with line breaks between them.\<close>

fun join_lines :: "sig_line list \<Rightarrow> byte list" where
  "join_lines [] = []"
| "join_lines (l # ls) = line_text l @ (if ls = [] then [] else crlf @ join_lines ls)"

definition sig_header_ok :: "byte list \<times> byte list \<Rightarrow> bool" where
  "sig_header_ok h \<longleftrightarrow> name_ok (fst h) \<and> val_ok (snd h) \<and> ends_dark (snd h)"

definition sig_line_ok :: "sig_line \<Rightarrow> bool" where
  "sig_line_ok l \<longleftrightarrow> sig_header_ok (fst l, fst (snd l))"

definition wanted :: "byte list \<Rightarrow> sig_line \<Rightarrow> bool" where
  "wanted h l \<longleftrightarrow> \<not> snd (snd l) \<and> map to_lower (fst l) = map to_lower h"

text \<open>What the search needs of a line.\<close>

definition sig_text_ok :: "byte list \<Rightarrow> bool" where
  "sig_text_ok r \<longleftrightarrow> r \<noteq> [] \<and> 0 \<notin> set r \<and> \<not> is_space (hd r) \<and>
     (\<forall>i < length r. r ! i = 10 \<longrightarrow> i + 1 < length r \<and> is_wsp (r ! (i + 1)))"

lemma val_ok_lf:
  "val_ok v \<Longrightarrow> i < length v \<Longrightarrow> v ! i = 10 \<Longrightarrow> i + 1 < length v \<and> is_wsp (v ! (i + 1))"
proof (induction v arbitrary: i rule: val_ok.induct)
  case (2 c s)
  show ?case
  proof (cases "c = 13")
    case True
    then obtain w r where s: "s = 10 # w # r" "is_wsp w" "val_ok (w # r)" using "2.prems"(1) val_ok_fold by blast
    show ?thesis
    proof (cases i)
      case (Suc j)
      show ?thesis
      proof (cases j)
        case (Suc k)
        then show ?thesis using "2.IH"(1) [OF True, of k] s "2.prems" \<open>i = Suc j\<close> by simp
      qed (use s \<open>i = Suc j\<close> in simp)
    qed (use True "2.prems" in simp)
  next
    case False
    then show ?thesis using "2.IH"(2) [OF False, of "i - 1"] "2.prems" by (cases i) auto
  qed
qed simp

lemma val_ok_no_nul: "val_ok v \<Longrightarrow> 0 \<notin> set v"
proof (induction v rule: val_ok.induct)
  case (2 c s)
  show ?case
  proof (cases "c = 13")
    case True
    then obtain w r where "s = 10 # w # r" "val_ok (w # r)" using "2.prems" val_ok_fold by blast
    then show ?thesis using "2.IH"(1) [OF True] True by simp
  next
    case False
    then show ?thesis using "2.IH"(2) [OF False] "2.prems" by simp
  qed
qed simp

lemma name_ok_at: "name_ok h \<Longrightarrow> i < length h \<Longrightarrow> \<not> is_space (h ! i) \<and> h ! i \<noteq> 58 \<and> h ! i \<noteq> 0"
  by (simp add: name_ok_def list_all_length)

lemma name_ok_hd: "name_ok h \<Longrightarrow> h \<noteq> [] \<and> \<not> is_space (hd h)"
  by (cases h) (simp_all add: name_ok_def)

lemma sig_text_ok_text:
  assumes "sig_line_ok l"
  shows "sig_text_ok (line_text l)"
proof -
  obtain n v t where l: "l = (n, v, t)" by (cases l)
  have n: "name_ok n" "val_ok v" using assms by (simp_all add: l sig_line_ok_def sig_header_ok_def)
  show ?thesis
  proof (cases t)
    case True
    then show ?thesis by (simp add: l line_text_def sig_text_ok_def is_space_def nth_Cons')
  next
    case False
    have "i + 1 < length (n @ 58 # v) \<and> is_wsp ((n @ 58 # v) ! (i + 1))" if i: "i < length (n @ 58 # v)" "(n @ 58 # v) ! i = 10" for i
    proof -
      have "\<not> i < length n" using name_ok_at [OF n(1), of i] i(2) by (auto simp: nth_append)
      then obtain k where k: "i = length n + k" by (metis le_add_diff_inverse not_less)
      then obtain j where j: "k = Suc j" using i(2) by (cases k) (auto simp: nth_append)
      then have "j < length v" "v ! j = 10" using i k by (auto simp: nth_append)
      from val_ok_lf [OF n(2) this] show ?thesis using j k by (simp add: nth_append)
    qed
    moreover have "0 \<notin> set n" using n(1) by (auto simp: name_ok_def list_all_iff)
    ultimately show ?thesis using False n name_ok_hd [OF n(1)] val_ok_no_nul [OF n(2)]
      by (simp add: l line_text_def sig_text_ok_def)
  qed
qed

lemma valid_at_bound: "valid_at hs h s \<Longrightarrow> s + length h < length hs"
  by (simp add: valid_at_def)

lemma occurs_space:
  assumes "occurs_at hs h s" "name_ok h" "i < length h"
  shows "hs ! (s + i) \<noteq> 13 \<and> hs ! (s + i) \<noteq> 58 \<and> \<not> is_wsp (hs ! (s + i))"
proof -
  have *: "\<not> is_space (h ! i)" "h ! i \<noteq> 58" using name_ok_at assms(2,3) by auto
  have c: "to_lower (hs ! (s + i)) = to_lower (h ! i)" using occurs_char(1) assms(1,3) by blast
  show ?thesis using c * char_fixed [of "h ! i"] char_fixed [of "hs ! (s + i)"] by (auto simp: is_wsp_def is_space_def)
qed

lemma occurs_append:
  assumes "s + length h \<le> length a"
  shows "occurs_at (a @ b) h s = occurs_at a h s"
  using assms by (auto simp: occurs_at_def)

lemma occurs_shift:
  assumes "length a \<le> s"
  shows "occurs_at (a @ b) h s = occurs_at b h (s - length a)"
  using assms by (auto simp: occurs_at_def)

lemma valid_at_single: 
  assumes "sig_text_ok r" "name_ok h" "valid_at r h s"
  shows "s = 0"
proof (rule ccontr)
  assume "s \<noteq> 0"
  moreover have "s < length r" "occurs_at r h s" using assms(3) by (auto simp: valid_at_def)
  ultimately have "is_wsp (r ! s)" using assms(1,3) by (cases s) (auto simp: valid_at_def sig_text_ok_def)
  moreover have "0 < length h" using assms(2) by (simp add: name_ok_def)
  ultimately show False using occurs_space [OF \<open>occurs_at r h s\<close> assms(2), of 0] by simp
qed

lemma valid_at_line:
  assumes r: "sig_text_ok r" and h: "name_ok h"
  shows "valid_at (r @ crlf @ t) h s \<longleftrightarrow> s = 0 \<and> valid_at r h 0 \<or> length r + 2 \<le> s \<and> valid_at t h (s - (length r + 2))"
    (is "valid_at ?hs h s \<longleftrightarrow> _")
proof -
  have hs: "?hs = (r @ crlf) @ t" "length (r @ crlf) = length r + 2" by (simp_all add: crlf_def)
  have l: "0 < length h" using h by (simp add: name_ok_def)
  consider (start) "s = 0" | (line) "0 < s" "s < length r + 2" | (rest) "length r + 2 \<le> s" by linarith
  then show ?thesis
  proof cases
    case start
    have "length h < length r" if "valid_at ?hs h 0"
    proof (rule ccontr)
      have at: "?hs ! length r = 13" by (simp add: crlf_def)
      assume "\<not> length h < length r"
      then consider "length r < length h" | "length r = length h" by linarith
      then show False
      proof cases
        case 1
        then show False using occurs_space [of ?hs h 0 "length r"] that h at by (auto simp: valid_at_def)
      next
        case 2
        then show False using that at by (auto simp: valid_at_def)
      qed
    qed
    then have "valid_at ?hs h 0 \<longleftrightarrow> valid_at r h 0"
      using occurs_append [of 0 h r "crlf @ t"] by (auto simp: valid_at_def nth_append)
    then show ?thesis using start r by (auto simp: valid_at_def)
  next
    case line
    have "\<not> valid_at ?hs h s"
    proof
      assume v: "valid_at ?hs h s"
      then have lf: "?hs ! (s - 1) = 10" "occurs_at ?hs h s" using line by (auto simp: valid_at_def)
      have "s - 1 < length r"
      proof (rule ccontr)
        assume "\<not> s - 1 < length r"
        then have "s - 1 = length r" using line by simp
        then have "?hs ! (s - 1) = 13" by (simp add: crlf_def)
        with lf show False by simp
      qed
      then have "r ! (s - 1) = 10" using lf by (simp add: nth_append)
      then have "s < length r" "is_wsp (r ! s)" using r \<open>s - 1 < length r\<close> line by (auto simp: sig_text_ok_def)
      then have "is_wsp (?hs ! (s + 0))" by (simp add: nth_append)
      then show False using occurs_space [OF lf(2) h l] by simp
    qed
    then show ?thesis using line by simp
  next
    case rest
    then obtain d where d: "s = length (r @ crlf) + d" using hs(2) by (metis le_add_diff_inverse)
    have i: "?hs ! (length (r @ crlf) + k) = t ! k" for k unfolding hs(1) by (rule nth_append_length_plus)
    have p: "?hs ! (s - 1) = (if d = 0 then 10 else t ! (d - 1))"
    proof (cases d)
      case 0
      then show ?thesis by (simp add: d crlf_def nth_append)
    next
      case (Suc m)
      then show ?thesis using i [of m] d by simp
    qed
    have "occurs_at ?hs h s = occurs_at t h (s - (length r + 2))" 
      unfolding hs(1) using occurs_shift [of "r @ crlf" s t h] rest hs(2) by (simp only: hs(2))
    note occ = this
    have sd: "s - (length r + 2) = d" "s + length h = length (r @ crlf) + (d + length h)" "s \<noteq> 0" using d hs(2) by simp_all
    have e: "(s = 0 \<or> ?hs ! (s - 1) = 10) = (d = 0 \<or> t ! (d - 1) = 10)" using p sd(3) by simp
    have "length ?hs = length (r @ crlf) + length t" by (simp only: hs(1) length_append)
    then have e2: "s + length h < length ?hs \<longleftrightarrow> d + length h < length t" using sd(2) by linarith
    have e3: "?hs ! (s + length h) = t ! (d + length h)" by (simp only: sd(2) i)
    from occ have "valid_at ?hs h s = valid_at t h d" by (simp only: valid_at_def e e2 e3 sd(1))
    then show ?thesis using rest sd(1,3) by simp
  qed
qed

lemma valid_at_header:
  assumes "sig_line_ok l" "name_ok h"
  shows "valid_at (line_text l) h 0 \<longleftrightarrow> wanted h l"
proof -
  obtain n v t where l: "l = (n, v, t)" by (cases l)
  have n: "name_ok n" using assms(1) by (simp add: l sig_line_ok_def sig_header_ok_def)
  show ?thesis
  proof (cases t)
    case True
    have "line_text l ! i = 46" if "i < length (line_text l)" for i using that True by (simp add: l line_text_def nth_Cons')
    then show ?thesis using True by (auto simp: valid_at_def l wanted_def)
  next
    case False
    let ?r = "n @ 58 # v"
    have eq: "length h = length n" if v: "valid_at ?r h 0"
    proof (rule linorder_cases [of "length h" "length n"])
      assume "length h < length n"
      then show ?thesis using v name_ok_at [OF n, of "length h"] by (simp add: valid_at_def nth_append)
    next
      assume g: "length n < length h"
      have "occurs_at ?r h 0" using v by (simp add: valid_at_def)
      from occurs_space [OF this assms(2) g] show ?thesis by simp
    qed
    have "valid_at ?r h 0 \<longleftrightarrow> map to_lower n = map to_lower h"
    proof (cases "length h = length n")
      case True
      then show ?thesis by (auto simp: valid_at_def occurs_at_def)
    next
      case False
      then show ?thesis using eq by (metis length_map)
    qed
    then show ?thesis using False by (simp add: l line_text_def wanted_def)
  qed
qed

lemma join_lines_split:
  "join_lines (pre @ l # post) = sep_lines pre @ line_text l @ (if post = [] then [] else crlf @ join_lines post)"
  by (induction pre) (simp_all add: sep_lines_def)

lemma valid_at_lines:
  assumes "list_all sig_line_ok ls" "name_ok h"
  shows "valid_at (join_lines ls) h s \<longleftrightarrow> (\<exists>pre l post. ls = pre @ l # post \<and> s = length (sep_lines pre) \<and> wanted h l)"
  using assms(1)
proof (induction ls arbitrary: s)
  case Nil
  then show ?case by (simp add: valid_at_def)
next
  case (Cons l ls)
  have ok: "sig_text_ok (line_text l)" "sig_line_ok l" using Cons.prems sig_text_ok_text by simp_all
  have len: "length (sep_lines (l # pre)) = length (line_text l) + 2 + length (sep_lines pre)" for pre
    by (simp add: sep_lines_def crlf_def)
  have zero: "valid_at (line_text l) h 0 \<longleftrightarrow> wanted h l" using valid_at_header ok assms(2) by blast
  have "valid_at (join_lines (l # ls)) h s \<longleftrightarrow>
      s = 0 \<and> wanted h l \<or> length (line_text l) + 2 \<le> s \<and> valid_at (join_lines ls) h (s - (length (line_text l) + 2))"
  proof (cases "ls = []")
    case True
    have "valid_at (line_text l) h s \<longleftrightarrow> s = 0 \<and> wanted h l" using valid_at_single [OF ok(1) assms(2)] zero by auto
    then show ?thesis using True by (simp add: valid_at_def [of "[]"])
  next
    case False
    then show ?thesis using valid_at_line [OF ok(1) assms(2), of "join_lines ls"] zero by simp
  qed
  also have "\<dots> \<longleftrightarrow> (\<exists>pre k post. l # ls = pre @ k # post \<and> s = length (sep_lines pre) \<and> wanted h k)" (is "?a = ?b")
  proof
    assume ?a
    then show ?b
    proof
      assume "s = 0 \<and> wanted h l"
      then show ?b by (intro exI [of _ "[]"]) (simp add: sep_lines_def)
    next
      assume a: "length (line_text l) + 2 \<le> s \<and> valid_at (join_lines ls) h (s - (length (line_text l) + 2))"
      then obtain pre k post where k: "ls = pre @ k # post" "s - (length (line_text l) + 2) = length (sep_lines pre)" "wanted h k"
        using Cons by auto
      then have "l # ls = (l # pre) @ k # post" "s = length (sep_lines (l # pre))" using a len [of pre] by auto
      with k(3) show ?b by blast
    qed
  next
    assume ?b
    then obtain pre k post where k: "l # ls = pre @ k # post" "s = length (sep_lines pre)" "wanted h k" by blast
    show ?a
    proof (cases pre)
      case Nil
      then show ?a using k by (simp add: sep_lines_def)
    next
      case (Cons m pre')
      then have "ls = pre' @ k # post" "m = l" using k(1) by auto
      moreover from this have "valid_at (join_lines ls) h (length (sep_lines pre'))"
        using Cons.IH [of "length (sep_lines pre')"] Cons.prems k(3) by (simp only: list.pred_inject) blast
      ultimately have "valid_at (join_lines ls) h (length (sep_lines pre'))" "m = l" by blast+
      then show ?a using k(2) len [of pre'] Cons by simp
    qed
  qed
  finally show ?case .
qed

lemma name_ok_no_lf: "name_ok h \<Longrightarrow> h \<noteq> [] \<and> 10 \<notin> set h"
  by (auto simp: name_ok_def list_all_iff)

lemma sep_lines_less:
  assumes "pre @ l # post = pre' @ l' # post'" "length pre < length pre'"
  shows "length (sep_lines pre) < length (sep_lines pre')"
proof -
  have "take (Suc (length pre)) pre' = pre @ [l]"
    using arg_cong [OF assms(1), of "take (Suc (length pre))"] assms(2) by simp
  then obtain r where "pre' = (pre @ [l]) @ r" by (metis append_take_drop_id)
  then show ?thesis by (simp add: sep_lines_def crlf_def)
qed

lemma sig_find_line:
  assumes "list_all sig_line_ok (pre @ l # post)" "name_ok h" "wanted h l" "\<forall>k\<in>set pre. \<not> wanted h k"
  shows "sig_find (join_lines (pre @ l # post)) h 0 = Some (Some (length (sep_lines pre)))"
proof -
  let ?hs = "join_lines (pre @ l # post)"
  note v = valid_at_lines [OF assms(1,2)]
  obtain r where r: "sig_find ?hs h 0 = Some r"
    "case r of None \<Rightarrow> \<forall>s. 0 \<le> s \<longrightarrow> \<not> valid_at ?hs h s
     | Some s \<Rightarrow> 0 \<le> s \<and> valid_at ?hs h s \<and> (\<forall>j. 0 \<le> j \<and> j < s \<longrightarrow> \<not> valid_at ?hs h j)"
    using sig_find_finds [of h 0 ?hs] name_ok_no_lf [OF assms(2)] by auto
  have here: "valid_at ?hs h (length (sep_lines pre))" using v assms(3) by blast
  then obtain s where s: "r = Some s" "valid_at ?hs h s" "\<forall>j < s. \<not> valid_at ?hs h j" using r(2) by (cases r) auto
  then obtain pre' l' post' where e: "pre @ l # post = pre' @ l' # post'" "s = length (sep_lines pre')" "wanted h l'" using v by blast
  have "\<not> length pre < length pre'" using sep_lines_less [OF e(1)] here s(3) e(2) by blast
  moreover have "\<not> length pre' < length pre"
  proof
    assume l: "length pre' < length pre"
    have "pre ! length pre' = l'" using arg_cong [OF e(1), of "\<lambda>x. x ! length pre'"] l by (simp add: nth_append)
    then show False using assms(4) e(3) l nth_mem by blast
  qed
  ultimately have "pre = pre'" using e(1) by (metis append_eq_append_conv linorder_less_linear)
  then show ?thesis using r(1) s(1) e(2) by simp
qed

lemma sig_find_none:
  assumes "list_all sig_line_ok ls" "name_ok h" "\<forall>k\<in>set ls. \<not> wanted h k"
  shows "sig_find (join_lines ls) h 0 = Some None"
proof -
  have none: "\<not> valid_at (join_lines ls) h s" for s using valid_at_lines [OF assms(1,2)] assms(3) by auto
  obtain r where r: "sig_find (join_lines ls) h 0 = Some r"
    "case r of None \<Rightarrow> \<forall>s. 0 \<le> s \<longrightarrow> \<not> valid_at (join_lines ls) h s
     | Some s \<Rightarrow> 0 \<le> s \<and> valid_at (join_lines ls) h s \<and> (\<forall>j. 0 \<le> j \<and> j < s \<longrightarrow> \<not> valid_at (join_lines ls) h j)"
    using sig_find_finds [of h 0 "join_lines ls"] name_ok_no_lf [OF assms(2)] by auto
  then show ?thesis using none by (cases r) auto
qed

section \<open>The selection of headers\<close>

lemma header_end_value:
  "val_ok v \<Longrightarrow> header_end (v @ t) = (case header_end t of None \<Rightarrow> None | Some k \<Rightarrow> Some (length v + k))"
proof (induction v rule: val_ok.induct)
  case (2 c s)
  show ?case
  proof (cases "c = 13")
    case True
    then obtain w r where s: "s = 10 # w # r" "is_wsp w" "val_ok (w # r)" using "2.prems" val_ok_fold by blast
    have "header_end ((w # r) @ t) = (case header_end t of None \<Rightarrow> None | Some k \<Rightarrow> Some (length (w # r) + k))"
      using "2.IH"(1) [OF True] s by (simp only: list.sel)
    moreover have "header_end ((c # s) @ t) = map_option Suc (map_option Suc (header_end ((w # r) @ t)))"
      using header_end.simps(2) [of 13 "10 # w # r @ t"] header_end.simps(2) [of 10 "w # r @ t"] True s
      by (simp del: header_end.simps(2))
    ultimately show ?thesis using s by (simp split: option.split del: header_end.simps(2))
  next
    case False
    then show ?thesis using "2.IH"(2) "2.prems" by (simp split: option.split)
  qed
qed (simp split: option.split)

lemma join_lines_hd:
  "list_all sig_line_ok ls \<Longrightarrow> ls \<noteq> [] \<Longrightarrow> \<exists>c r. join_lines ls = c # r \<and> \<not> is_wsp c"
proof (cases ls)
  case (Cons l k)
  moreover assume "list_all sig_line_ok ls"
  ultimately have "sig_text_ok (line_text l)" using sig_text_ok_text by simp
  then obtain c r where "line_text l = c # r" "\<not> is_space c" by (cases "line_text l") (auto simp: sig_text_ok_def)
  then show ?thesis using Cons wsp_space by auto
qed simp

lemma header_end_next:
  assumes "list_all sig_line_ok ls" "ls \<noteq> []"
  shows "header_end (crlf @ join_lines ls) = Some 0"
  using join_lines_hd [OF assms] by (auto simp: crlf_def)

lemma join_lines_no_nul: "list_all sig_line_ok ls \<Longrightarrow> 0 \<notin> set (join_lines ls)"
  by (induction ls) (auto simp: crlf_def dest!: sig_text_ok_text, auto simp: sig_text_ok_def)

lemma takeWhile_no_nul: "0 \<notin> set s \<Longrightarrow> takeWhile (\<lambda>c. c \<noteq> (0 :: byte)) s = s"
  by (induction s) auto

text \<open>Taking a header: it is added to what will be hashed and becomes dots.\<close>

definition add_header :: "byte list \<Rightarrow> byte list \<times> byte list \<Rightarrow> sig_state \<Rightarrow> sig_state" where
  "add_header h l st = st\<lparr>sg_simple := sg_simple st @ fst l @ 58 # snd l @ crlf,
     sg_relaxed := sg_relaxed st @ map to_lower h @ 58 # relax_value (snd l) @ crlf\<rparr>"

lemma sig_take_at:
  assumes "sg_headers st = m" "takeWhile (\<lambda>c. c \<noteq> 0) m = m"
    "(case header_end (drop (s + length h + 1) m) of Some k \<Rightarrow> s + length h + 1 + k | None \<Rightarrow> length m) = e"
    "dk_slice s e m = l" "dk_slice (s + length h + 1) e m = v" "write_at s (replicate (e - s) 46) m = m'"
    "\<And>z. copyRelaxed (sg_relaxed st @ map to_lower h @ [58]) (dropWhile is_space v) z = r"
  shows "sig_take h s st = st\<lparr>sg_simple := sg_simple st @ l @ crlf, sg_relaxed := r @ crlf, sg_headers := m'\<rparr>"
  unfolding sig_take_def Let_def assms ..

lemma sig_take_line:
  assumes ok: "list_all sig_line_ok (pre @ (n, v, False) # post)" and h: "length h = length n"
    and st: "sg_headers st = join_lines (pre @ (n, v, False) # post)"
  shows "sig_take h (length (sep_lines pre)) st = add_header h (n, v) (st\<lparr>sg_headers := join_lines (pre @ (n, v, True) # post)\<rparr>)"
proof -
  let ?a = "sep_lines pre" and ?b = "if post = [] then [] else crlf @ join_lines post"
  let ?hs = "?a @ (n @ 58 # v) @ ?b"
  have hs: "sg_headers st = ?hs" unfolding st join_lines_split by (simp add: line_text_def)
  have str: "takeWhile (\<lambda>c. c \<noteq> 0) (sg_headers st) = ?hs"
    unfolding hs [symmetric] st using join_lines_no_nul [OF ok] by (rule takeWhile_no_nul)
  have v: "val_ok v" "ends_dark v" using ok by (simp_all add: sig_line_ok_def sig_header_ok_def)
  let ?p = "length ?a + length h + 1"
  have dv: "drop ?p ?hs = v @ ?b" using h by simp
  have e: "(case header_end (v @ ?b) of Some k \<Rightarrow> ?p + k | None \<Rightarrow> length ?hs) = ?p + length v"
    using header_end_value [OF v(1), of ?b] header_end_next [of post] ok h by auto
  have sl: "dk_slice (length ?a) (?p + length v) ?hs = n @ 58 # v" "dk_slice ?p (?p + length v) ?hs = v"
    using h by (simp_all add: dk_slice_def)
  have w: "write_at (length ?a) (replicate (?p + length v - length ?a) 46) ?hs = join_lines (pre @ (n, v, True) # post)"
    unfolding join_lines_split using h by (simp add: write_at_def line_text_def)
  have nw: "\<not> last_wsp (sg_relaxed st @ map to_lower h @ [58])" by (simp add: last_wsp_def is_wsp_def)
  from sig_take_at [OF hs _ _ sl w relaxed_value [OF v nw]] str dv e hs
  have "sig_take h (length ?a) st = st\<lparr>sg_simple := sg_simple st @ (n @ 58 # v) @ crlf,
      sg_relaxed := ((sg_relaxed st @ map to_lower h @ [58]) @ relax_value v) @ crlf, sg_headers := join_lines (pre @ (n, v, True) # post)\<rparr>"
    by (simp only: hs)
  then show ?thesis by (simp add: add_header_def)
qed

text \<open>The reference: each name takes the first header of that name that is left.\<close>

fun pick :: "byte list \<Rightarrow> (byte list \<times> byte list) list \<Rightarrow> ((byte list \<times> byte list) \<times> (byte list \<times> byte list) list) option" where
  "pick h [] = None"
| "pick h (l # ls) =
     (if map to_lower (fst l) = map to_lower h then Some (l, ls) else map_option (\<lambda>(x, r). (x, l # r)) (pick h ls))"

fun signed_headers :: "byte list list \<Rightarrow> (byte list \<times> byte list) list \<Rightarrow> (byte list \<times> byte list \<times> byte list) list" where
  "signed_headers [] ls = []"
| "signed_headers (h # hs) ls =
     (case pick h ls of None \<Rightarrow> signed_headers hs ls | Some (l, r) \<Rightarrow> (h, l) # signed_headers hs r)"

definition left_lines :: "sig_line list \<Rightarrow> (byte list \<times> byte list) list" where
  "left_lines ls = map (\<lambda>(n, v, t). (n, v)) (filter (\<lambda>(n, v, t). \<not> t) ls)"

lemma pick_none: "\<forall>k\<in>set ls. \<not> wanted h k \<Longrightarrow> pick h (left_lines ls) = None"
  by (induction ls) (auto simp: left_lines_def wanted_def)

lemma pick_some:
  "\<forall>k\<in>set pre. \<not> wanted h k \<Longrightarrow> wanted h (n, v, False) \<Longrightarrow>
   pick h (left_lines (pre @ (n, v, False) # post)) = Some ((n, v), left_lines (pre @ (n, v, True) # post))"
  by (induction pre) (auto simp: left_lines_def wanted_def)

lemma sig_headers_lines:
  assumes "list_all (\<lambda>t. name_ok (dropWhile is_space t)) toks" "list_all sig_line_ok ls" "sg_headers st = join_lines ls"
  shows "\<exists>buf. sig_headers toks st = Some (st\<lparr>sg_headers := buf,
      sg_simple := sg_simple st @ concat (map (\<lambda>(h, n, v). n @ 58 # v @ crlf) (signed_headers (map (dropWhile is_space) toks) (left_lines ls))),
      sg_relaxed := sg_relaxed st @ concat (map (\<lambda>(h, n, v). map to_lower h @ 58 # relax_value v @ crlf) (signed_headers (map (dropWhile is_space) toks) (left_lines ls))),
      sg_flags := sg_flags st \<union> \<Union> (set (map (\<lambda>t. sgn_of (dropWhile is_space t)) toks))\<rparr>)"
  using assms
proof (induction toks arbitrary: ls st)
  case Nil
  then show ?case by (intro exI [of _ "sg_headers st"]) simp
next
  case (Cons t toks)
  let ?h = "dropWhile is_space t"
  let ?st = "st\<lparr>sg_flags := sg_flags st \<union> sgn_of ?h\<rparr>"
  have h: "name_ok ?h" using Cons.prems by simp
  have str: "takeWhile (\<lambda>c. c \<noteq> 0) (sg_headers ?st) = join_lines ls"
    using Cons.prems join_lines_no_nul by (simp add: takeWhile_no_nul)
  show ?case
  proof (cases "\<exists>l\<in>set ls. wanted ?h l")
    case False
    then have f: "sig_find (join_lines ls) ?h 0 = Some None" using sig_find_none [OF Cons.prems(2) h] by blast
    have "sig_header t st = Some ?st" unfolding sig_header_def Let_def str f by simp
    moreover have "pick ?h (left_lines ls) = None" using pick_none False by blast
    ultimately show ?thesis using Cons.IH [of ls ?st] Cons.prems by (simp add: Un_assoc)
  next
    case True
    then obtain pre l post where l: "ls = pre @ l # post" "wanted ?h l" "\<forall>k\<in>set pre. \<not> wanted ?h k"
      using split_list_first_prop [OF True] by blast
    then obtain n v where n: "l = (n, v, False)" "map to_lower n = map to_lower ?h" by (cases l) (auto simp: wanted_def)
    have len: "length ?h = length n" using n(2) by (metis length_map)
    have f: "sig_find (join_lines ls) ?h 0 = Some (Some (length (sep_lines pre)))"
      unfolding l(1) by (rule sig_find_line) (use Cons.prems l h in auto)
    let ?ls = "pre @ (n, v, True) # post"
    let ?st' = "add_header ?h (n, v) (?st\<lparr>sg_headers := join_lines ?ls\<rparr>)"
    have "sig_take ?h (length (sep_lines pre)) ?st = ?st'"
      by (rule sig_take_line) (use Cons.prems l n len in simp_all)
    then have step: "sig_header t st = Some ?st'" unfolding sig_header_def Let_def str f by simp
    have p: "pick ?h (left_lines ls) = Some ((n, v), left_lines ?ls)" using pick_some l n by simp
    have "list_all sig_line_ok ?ls" using Cons.prems(2) l(1) n(1) by (simp add: sig_line_ok_def list_all_iff)
    then show ?thesis using Cons.IH [of ?ls ?st'] Cons.prems step p by (simp add: add_header_def Un_assoc)
  qed
qed

definition header_lines :: "(byte list \<times> byte list) list \<Rightarrow> byte list" where
  "header_lines hs = join_lines (map (\<lambda>(n, v). (n, v, False)) hs)"

lemma left_lines_all: "left_lines (map (\<lambda>(n, v). (n, v, False)) hs) = hs"
  by (induction hs) (auto simp: left_lines_def)

lemma signed_selected:
  assumes "list_all (\<lambda>t. name_ok (dropWhile is_space t)) (tokens 58 names)" "list_all sig_header_ok hs"
  shows "\<exists>buf. sig_headers (tokens 58 names) \<lparr>sg_headers = header_lines hs, sg_simple = [], sg_relaxed = [], sg_flags = f\<rparr> =
     Some \<lparr>sg_headers = buf,
       sg_simple = concat (map (\<lambda>(h, n, v). n @ 58 # v @ crlf) (signed_headers (map (dropWhile is_space) (tokens 58 names)) hs)),
       sg_relaxed = concat (map (\<lambda>(h, n, v). map to_lower h @ 58 # relax_value v @ crlf)
         (signed_headers (map (dropWhile is_space) (tokens 58 names)) hs)),
       sg_flags = f \<union> \<Union> (set (map (\<lambda>t. sgn_of (dropWhile is_space t)) (tokens 58 names)))\<rparr>"
proof -
  have "list_all sig_line_ok (map (\<lambda>(n, v). (n, v, False)) hs)"
    using assms(2) by (auto simp: list_all_iff sig_line_ok_def)
  from sig_headers_lines [OF assms(1) this, of "\<lparr>sg_headers = header_lines hs, sg_simple = [], sg_relaxed = [], sg_flags = f\<rparr>"]
  show ?thesis by (simp add: header_lines_def left_lines_all)
qed



section \<open>What goes wrong\<close>

text \<open>A blank name in the list \<^verbatim>\<open>h=\<close>, as in \<^verbatim>\<open>h=from: :to\<close>: the search for it never ends.\<close>

lemma blank_name_hangs:
  assumes "hs = [] \<or> hd hs \<noteq> 58"
  shows "sig_find hs [] 0 = None"
proof -
  have "sig_find hs [] 0 \<noteq> Some r" for r
  proof
    assume a: "sig_find hs [] 0 = Some r"
    have "hs' = hs \<longrightarrow> h = [] \<longrightarrow> p = 0 \<longrightarrow> False" if "sig_find hs' h p = Some y" for hs' h p y
    proof (rule sig_find.raw_induct [OF _ that, where P = "\<lambda>hs' h p y. hs' = hs \<longrightarrow> h = [] \<longrightarrow> p = 0 \<longrightarrow> False"])
      fix f hs' h p y
      assume IH: "\<And>hs' h p y. f hs' h p = Some y \<Longrightarrow> hs' = hs \<longrightarrow> h = [] \<longrightarrow> p = 0 \<longrightarrow> False"
        and step: "(case strcasestr (drop p hs') h of None \<Rightarrow> Some None
          | Some k \<Rightarrow> let s = p + k
            in if (s = 0 \<or> hs' ! (s - 1) = 10) \<and> s + length h < length hs' \<and> hs' ! (s + length h) = 58 then Some (Some s)
               else f hs' h (s + length h)) = Some y"
      show "hs' = hs \<longrightarrow> h = [] \<longrightarrow> p = 0 \<longrightarrow> False"
      proof (intro impI)
        assume e: "hs' = hs" "h = []" "p = 0"
        have "\<not> (0 < length hs \<and> hs ! 0 = 58)" using assms by (auto simp: hd_conv_nth)
        then have "f hs [] 0 = Some y" using step unfolding e by (auto simp: strcasestr_def split: if_splits)
        then show False using IH by blast
      qed
    qed
    from this [OF a] show False by simp
  qed
  then show ?thesis by (cases "sig_find hs [] 0") auto
qed

lemma blank_header_hangs:
  assumes "hs \<noteq> []" "hd hs \<noteq> 58" "hd hs \<noteq> 0" "\<forall>c\<in>set tok. is_space c"
  shows "sig_header tok (st\<lparr>sg_headers := hs\<rparr>) = None"
proof -
  have d: "dropWhile is_space tok = []" using assms(4) by simp
  have "takeWhile (\<lambda>c. c \<noteq> 0) hs \<noteq> []" "hd (takeWhile (\<lambda>c. c \<noteq> 0) hs) = hd hs" using assms(1,3) by (cases hs; simp)+
  then have "sig_find (takeWhile (\<lambda>c. c \<noteq> 0) hs) [] 0 = None" using blank_name_hangs assms(2) by simp
  then show ?thesis unfolding sig_header_def Let_def d by simp
qed

text \<open>When every header behind the signature is signed, the array for the simple form is two bytes too short.\<close>

definition lines_length :: "(byte list \<times> byte list) list \<Rightarrow> nat" where
  "lines_length hs = sum_list (map (\<lambda>(n, v). length n + length v + 3) hs)"

lemma pick_lengths:
  "pick h ls = Some (l, r) \<Longrightarrow> length ls = Suc (length r) \<and> lines_length ls = length (fst l) + length (snd l) + 3 + lines_length r"
  by (induction ls arbitrary: l r) (auto simp: lines_length_def split: if_splits)

lemma signed_lengths:
  "length (signed_headers names hs) \<le> length hs \<and>
   (length (signed_headers names hs) = length hs \<longrightarrow>
     length (concat (map (\<lambda>(h, n, v). n @ 58 # v @ crlf) (signed_headers names hs))) = lines_length hs)"
proof (induction names arbitrary: hs)
  case (Cons h names)
  then show ?case
    by (auto simp: crlf_def split: option.split dest!: pick_lengths)
qed (simp add: lines_length_def)

lemma length_header_lines: "hs \<noteq> [] \<Longrightarrow> length (header_lines hs) + 2 = lines_length hs"
  unfolding header_lines_def
  by (induction hs) (auto simp: lines_length_def line_text_def crlf_def)

lemma all_signed_overflow:
  assumes "list_all (\<lambda>t. name_ok (dropWhile is_space t)) (tokens 58 names)" "list_all sig_header_ok hs" "hs \<noteq> []"
    "length (signed_headers (map (dropWhile is_space) (tokens 58 names)) hs) = length hs"
  shows "verifyDkimSig x pk sig names (header_lines hs) dh lenHash d = None"
proof -
  have "length (concat (map (\<lambda>(h, n, v). n @ 58 # v @ crlf) (signed_headers (map (dropWhile is_space) (tokens 58 names)) hs)))
      > length (header_lines hs)"
    using signed_lengths [of "map (dropWhile is_space) (tokens 58 names)" hs] assms(4) length_header_lines [OF assms(3)] by simp
  moreover obtain buf where "sig_headers (tokens 58 names) \<lparr>sg_headers = header_lines hs, sg_simple = [], sg_relaxed = [], sg_flags = ds_sgn d\<rparr> =
     Some \<lparr>sg_headers = buf,
       sg_simple = concat (map (\<lambda>(h, n, v). n @ 58 # v @ crlf) (signed_headers (map (dropWhile is_space) (tokens 58 names)) hs)),
       sg_relaxed = concat (map (\<lambda>(h, n, v). map to_lower h @ 58 # relax_value v @ crlf)
         (signed_headers (map (dropWhile is_space) (tokens 58 names)) hs)),
       sg_flags = ds_sgn d \<union> \<Union> (set (map (\<lambda>t. sgn_of (dropWhile is_space t)) (tokens 58 names)))\<rparr>"
    using signed_selected [OF assms(1,2), of "ds_sgn d"] by blast
  ultimately show ?thesis by (simp add: verifyDkimSig_def)
qed

end
