(* ===== verification/Html_Cet.thy ===== *)
theory Html_Cet
  imports Mem_Eq Html_Refs "HOL-Library.Monad_Syntax"
begin

text \<open>
  \<^verbatim>\<open>src/Common/Html2Cet.c\<close>: HTML is turned into the compact text the user's client shows, in place.

  The memory that starts at \<^verbatim>\<open>src\<close> is a list, the bytes behind the text included; \<open>rd\<close> and \<open>wr\<close> are the
  accesses to it, and a function that reads or writes outside of it has the result \<open>None\<close>.  A buffer is the
  memory, the number \<^verbatim>\<open>lenOut\<close> of bytes written and the static variable \<^verbatim>\<open>tagsOpen\<close>, which outlives the call.
\<close>

section \<open>Memory\<close>

definition rd :: "byte list \<Rightarrow> nat \<Rightarrow> byte option" where
  "rd src k = (if k < length src then Some (src ! k) else None)"

definition wr :: "byte list \<Rightarrow> nat \<Rightarrow> byte \<Rightarrow> byte list option" where
  "wr src k b = (if k < length src then Some (src[k := b]) else None)"

text \<open>\<^verbatim>\<open>src[lenOut - 1]\<close>: before the beginning when nothing has been written.\<close>

definition rd_last :: "byte list \<Rightarrow> nat \<Rightarrow> byte option" where
  "rd_last src n = (if n = 0 then None else rd src (n - 1))"

section \<open>Tags\<close>

datatype html_tag = TAG_NULL | TAG_br | TAG_hr | TAG_hdr | TAG_big | TAG_bld | TAG_ita | TAG_mno | TAG_sml
  | TAG_str | TAG_sub | TAG_sup | TAG_unl | TAG_lli | TAG_lol | TAG_lul | TAG_tbl | TAG_ttd | TAG_ttr
  | TAG_a | TAG_audio | TAG_embed | TAG_frame | TAG_img | TAG_object | TAG_q | TAG_source | TAG_track | TAG_video

abbreviation (input) CET_LNK :: byte where "CET_LNK \<equiv> 0x01"
abbreviation (input) CET_FIL :: byte where "CET_FIL \<equiv> 0x03"
abbreviation (input) CET_LBR :: byte where "CET_LBR \<equiv> 0x0A"
abbreviation (input) CET_HRL :: byte where "CET_HRL \<equiv> 0x0B"
abbreviation (input) CET_MANUAL :: byte where "CET_MANUAL \<equiv> 0x11"
abbreviation (input) CET_BIG :: byte where "CET_BIG \<equiv> 0x11"
abbreviation (input) CET_SML :: byte where "CET_SML \<equiv> 0x12"
abbreviation (input) CET_SUB :: byte where "CET_SUB \<equiv> 0x13"
abbreviation (input) CET_SUP :: byte where "CET_SUP \<equiv> 0x14"
abbreviation (input) CET_MNO :: byte where "CET_MNO \<equiv> 0x15"
abbreviation (input) CET_BLD :: byte where "CET_BLD \<equiv> 0x16"
abbreviation (input) CET_ITA :: byte where "CET_ITA \<equiv> 0x17"
abbreviation (input) CET_UNL :: byte where "CET_UNL \<equiv> 0x18"
abbreviation (input) CET_STR :: byte where "CET_STR \<equiv> 0x19"
abbreviation (input) CET_LAYOUT :: byte where "CET_LAYOUT \<equiv> 0x1A"
abbreviation (input) CET_TBL :: byte where "CET_TBL \<equiv> 0x1A"
abbreviation (input) CET_TTR :: byte where "CET_TTR \<equiv> 0x1B"
abbreviation (input) CET_TTD :: byte where "CET_TTD \<equiv> 0x1C"
abbreviation (input) CET_LOL :: byte where "CET_LOL \<equiv> 0x1D"
abbreviation (input) CET_LUL :: byte where "CET_LUL \<equiv> 0x1E"
abbreviation (input) CET_LLI :: byte where "CET_LLI \<equiv> 0x1F"

definition wantAttr :: "html_tag \<Rightarrow> byte list \<Rightarrow> byte" where
  "wantAttr tag name =
     (if tag = TAG_a then (if name = str ''href'' then CET_LNK else 0)
      else if tag = TAG_frame then (if name = str ''src'' then CET_LNK else 0)
      else if tag = TAG_q then (if name = str ''cite'' then CET_LNK else 0)
      else if tag \<in> {TAG_audio, TAG_embed, TAG_img, TAG_source, TAG_track, TAG_video} then (if name = str ''src'' then CET_FIL else 0)
      else if tag = TAG_object then (if name = str ''data'' then CET_FIL else 0)
      else 0)"

fun tag2char :: "html_tag \<Rightarrow> byte" where
  "tag2char TAG_q = 34"
| "tag2char TAG_br = CET_LBR"
| "tag2char TAG_hr = CET_HRL"
| "tag2char TAG_hdr = CET_BIG"
| "tag2char TAG_big = CET_BIG"
| "tag2char TAG_bld = CET_BLD"
| "tag2char TAG_ita = CET_ITA"
| "tag2char TAG_lli = CET_LLI"
| "tag2char TAG_lol = CET_LOL"
| "tag2char TAG_lul = CET_LUL"
| "tag2char TAG_mno = CET_MNO"
| "tag2char TAG_sml = CET_SML"
| "tag2char TAG_str = CET_STR"
| "tag2char TAG_sub = CET_SUB"
| "tag2char TAG_sup = CET_SUP"
| "tag2char TAG_tbl = CET_TBL"
| "tag2char TAG_ttd = CET_TTD"
| "tag2char TAG_ttr = CET_TTR"
| "tag2char TAG_unl = CET_UNL"
| "tag2char _ = 0"

text \<open>The names the nested tests of \<open>getTagByName\<close> accept; each is compared in full length.\<close>

definition tag_names :: "(string \<times> html_tag) list" where
  "tag_names =
    [(''a'', TAG_a), (''audio'', TAG_audio), (''article'', TAG_br), (''aside'', TAG_br),
     (''b'', TAG_bld), (''br'', TAG_br), (''big'', TAG_big), (''blockquote'', TAG_br), (''code'', TAG_mno),
     (''del'', TAG_str), (''div'', TAG_br), (''em'', TAG_ita), (''embed'', TAG_embed), (''frame'', TAG_frame), (''fieldset'', TAG_br),
     (''hr'', TAG_hr), (''h1'', TAG_hdr), (''h2'', TAG_hdr), (''h3'', TAG_hdr), (''h4'', TAG_hdr), (''h5'', TAG_hdr), (''h6'', TAG_hdr),
     (''header'', TAG_br), (''i'', TAG_ita), (''iframe'', TAG_frame), (''img'', TAG_img), (''kbd'', TAG_mno), (''li'', TAG_lli),
     (''nav'', TAG_br), (''ol'', TAG_lol), (''object'', TAG_object), (''p'', TAG_br), (''pre'', TAG_mno), (''q'', TAG_q),
     (''s'', TAG_str), (''sub'', TAG_sub), (''sup'', TAG_sup), (''samp'', TAG_mno), (''small'', TAG_sml), (''strike'', TAG_str),
     (''strong'', TAG_bld), (''source'', TAG_source), (''section'', TAG_br), (''tr'', TAG_ttr), (''td'', TAG_ttd), (''th'', TAG_ttd),
     (''table'', TAG_tbl), (''title'', TAG_hdr), (''track'', TAG_track), (''textarea'', TAG_mno), (''u'', TAG_unl), (''ul'', TAG_lul),
     (''video'', TAG_video), (''var'', TAG_ita)]"

fun tag_lookup :: "(string \<times> html_tag) list \<Rightarrow> byte list \<Rightarrow> html_tag" where
  "tag_lookup [] nm = TAG_NULL"
| "tag_lookup ((s, t) # ts) nm = (if nm = str s then t else tag_lookup ts nm)"

definition getTagByName :: "byte list \<Rightarrow> html_tag" where
  "getTagByName nm =
     (if nm = [] then TAG_NULL
      else let nm = (if hd nm = 47 then tl nm else nm)
           in if nm = [] then TAG_NULL
              else if last nm = 47 then (if length nm = 1 then TAG_NULL else tag_lookup tag_names (butlast nm))
              else tag_lookup tag_names nm)"

section \<open>Line breaks\<close>

text \<open>An invisible character at the end is taken back.\<close>

definition back_invisible :: "byte list \<Rightarrow> nat \<Rightarrow> nat" where
  "back_invisible src n =
     (if n > 1 \<and> 0 < charInvisible (take 2 (drop (n - 2) src)) then n - 2
      else if n > 2 \<and> 0 < charInvisible (take 3 (drop (n - 3) src)) then n - 3
      else n)"

definition back_byte :: "byte \<Rightarrow> byte list \<Rightarrow> nat \<Rightarrow> nat" where
  "back_byte b src n = (if n > 0 \<and> rd src (n - 1) = Some b then n - 1 else n)"

definition is_layout :: "byte \<Rightarrow> bool" where
  "is_layout c \<longleftrightarrow> CET_LAYOUT \<le> c \<and> c < 32"

definition is_style :: "byte \<Rightarrow> bool" where
  "is_style c \<longleftrightarrow> CET_MANUAL \<le> c \<and> c < CET_LAYOUT"

definition addHrl :: "byte list \<Rightarrow> nat \<Rightarrow> (byte list \<times> nat) option" where
  "addHrl src n =
     (if n = 0 then Some (src, n)
      else do {
        c \<leftarrow> rd src (n - 1);
        if c = CET_HRL \<or> is_layout c then Some (src, n)
        else do {
          let n = back_invisible src (back_byte CET_LBR src (back_byte CET_LBR src (back_byte 32 src n)));
          src \<leftarrow> wr src n CET_HRL;
          Some (src, n + 1)
        }
      })"

fun addLbr :: "byte list \<Rightarrow> nat \<Rightarrow> bool \<Rightarrow> bool \<Rightarrow> (byte list \<times> nat) option" where
  "addLbr src 0 oneIsEnough closing = Some (src, 0)"
| "addLbr src (Suc k) oneIsEnough closing =
     do {
       c \<leftarrow> rd src k;
       if c = CET_HRL \<or> is_layout c \<or> (c = CET_LBR \<and> (oneIsEnough \<or> (k > 0 \<and> rd src (k - 1) = Some CET_LBR)))
       then Some (src, Suc k)
       else if \<not> closing \<and> CET_MANUAL \<le> c \<and> c < 32 then
         do {
           (src, n) \<leftarrow> addLbr src k oneIsEnough closing;
           src \<leftarrow> wr src n c;
           Some (src, n + 1)
         }
       else do {
         let n = back_invisible src (back_byte 32 src (Suc k));
         src \<leftarrow> wr src n CET_LBR;
         Some (src, n + 1)
       }
     }"

section \<open>Opening and closing\<close>

type_synonym hbuf = "byte list \<times> nat \<times> u32"

definition tag_bit :: "byte \<Rightarrow> u32" where
  "tag_bit c = push_bit (31 - unat c) 1"

definition tag_open :: "u32 \<Rightarrow> byte \<Rightarrow> bool" where
  "tag_open t c \<longleftrightarrow> bit t (31 - unat c)"

definition with_tags :: "u32 \<Rightarrow> byte list \<times> nat \<Rightarrow> hbuf" where
  "with_tags t = (\<lambda>(src, n). (src, n, t))"

text \<open>The end of \<open>addTagChar\<close>.\<close>

definition put_tag :: "byte list \<Rightarrow> nat \<Rightarrow> u32 \<Rightarrow> html_tag \<Rightarrow> bool \<Rightarrow> hbuf option" where
  "put_tag src n t tag closing =
     do {
       src \<leftarrow> wr src n (tag2char tag);
       r \<leftarrow> (if tag = TAG_hdr \<and> closing then addLbr src (n + 1) True closing else Some (src, n + 1));
       Some (with_tags t r)
     }"

definition open_tag :: "byte list \<Rightarrow> nat \<Rightarrow> u32 \<Rightarrow> html_tag \<Rightarrow> hbuf option" where
  "open_tag src n t tag =
     (let chr = tag2char tag in
      if chr = CET_TBL then
        do {
          let n = (if n > 1 \<and> rd src (n - 1) = Some CET_LBR \<and> rd src (n - 2) = Some CET_LBR then n - 1 else n);
          src \<leftarrow> wr src n CET_TBL;
          src \<leftarrow> wr src (n + 1) CET_TTR;
          src \<leftarrow> wr src (n + 2) CET_TTD;
          Some (src, n + 3, t OR tag_bit CET_TBL OR tag_bit CET_TTR OR tag_bit CET_TTD)
        }
      else if chr = CET_TTR then
        if \<not> tag_open t CET_TBL then Some (src, n, t)
        else do {
          src \<leftarrow> wr src n CET_TTR;
          src \<leftarrow> wr src (n + 1) CET_TTD;
          Some (src, n + 2, t OR tag_bit CET_TTR OR tag_bit CET_TTD)
        }
      else if chr = CET_TTD then
        if \<not> tag_open t CET_TBL then Some (src, n, t)
        else if \<not> tag_open t CET_TTR then
          do {
            src \<leftarrow> wr src n CET_TTR;
            put_tag src (n + 1) (t OR tag_bit CET_TTR OR tag_bit chr) tag False
          }
        else put_tag src n (t OR tag_bit chr) tag False
      else put_tag src n (t OR tag_bit chr) tag False)"

text \<open>Spaces and line breaks before the end of a layout element go; the loop has no lower bound.\<close>

fun trim_layout :: "byte list \<Rightarrow> nat \<Rightarrow> nat option" where
  "trim_layout src 0 = None"
| "trim_layout src (Suc k) =
     do {
       c \<leftarrow> rd src k;
       if c = 32 \<or> c = CET_LBR then trim_layout src k else Some (Suc k)
     }"

text \<open>Back to the opening tag (\<open>Some (Some pos)\<close>) or to meaningful content (\<open>Some None\<close>); no lower bound either.\<close>

fun find_opening :: "byte list \<Rightarrow> byte \<Rightarrow> nat \<Rightarrow> nat option option" where
  "find_opening src chr 0 = None"
| "find_opening src chr (Suc pos) =
     do {
       c \<leftarrow> rd src pos;
       if c > 32 \<or> (c = 32 \<and> is_style chr) then Some None
       else if c = chr then Some (Some pos)
       else find_opening src chr pos
     }"

text \<open>The beginning of the table with the numbers of cells and columns seen on the way.\<close>

fun table_begin :: "byte list \<Rightarrow> nat \<Rightarrow> nat \<Rightarrow> nat \<Rightarrow> nat \<Rightarrow> (nat \<times> nat \<times> nat) option" where
  "table_begin src 0 cells columns current = None"
| "table_begin src (Suc k) cells columns current =
     (if src ! k = CET_TBL then Some (k, cells, columns)
      else if src ! k = CET_TTD then table_begin src k (cells + 1) columns (current + 1)
      else if src ! k = CET_TTR then table_begin src k cells (max columns current) 0
      else table_begin src k cells columns current)"

fun rows_to_lines :: "byte list \<Rightarrow> nat \<Rightarrow> nat list \<Rightarrow> byte list \<times> nat" where
  "rows_to_lines src new [] = (src, new)"
| "rows_to_lines src new (i # ps) =
     (if src ! i = CET_TTD then rows_to_lines src new ps
      else if src ! i = CET_TTR then
        (if new > 0 \<and> src ! (new - 1) \<noteq> CET_LBR then rows_to_lines (src[new := CET_LBR]) (new + 1) ps
         else rows_to_lines src new ps)
      else rows_to_lines (src[new := src ! i]) (new + 1) ps)"

definition close_table :: "byte list \<Rightarrow> nat \<Rightarrow> u32 \<Rightarrow> hbuf option" where
  "close_table src n t =
     (case table_begin src (n - 2) 0 0 0 of
        None \<Rightarrow> Some (src, n, t)
      | Some (b, cells, columns) \<Rightarrow>
          if cells < 2 then
            if n < b + 5 then None
            else do {
              let src = take b src @ take (n - b - 5) (drop (b + 3) src) @ drop (n - 5) src;
              (src, n) \<leftarrow> addLbr src (n - 5) False True;
              (src, n) \<leftarrow> addLbr src n False True;
              Some (src, n, t)
            }
          else if columns < 3 then (case rows_to_lines src b [b + 1..<n] of (src, n) \<Rightarrow> Some (src, n, t))
          else put_tag src n t TAG_tbl True)"

definition close_style :: "byte list \<Rightarrow> nat \<Rightarrow> u32 \<Rightarrow> html_tag \<Rightarrow> hbuf option" where
  "close_style src n t tag =
     do {
       c \<leftarrow> rd_last src n;
       if c = 32 then do {
         src \<leftarrow> wr src n 32;
         Some (src[n - 1 := tag2char tag], n + 1, t)
       } else if n > 2 \<and> c = CET_LBR \<and> rd src (n - 2) = Some CET_LBR then do {
         src \<leftarrow> wr src n CET_LBR;
         Some (src[n - 2 := tag2char tag, n - 1 := CET_LBR], n + 1, t)
       } else if c = CET_LBR then do {
         src \<leftarrow> wr src n CET_LBR;
         Some (src[n - 1 := tag2char tag], n + 1, t)
       } else put_tag src n t tag True
     }"

text \<open>What is done once the elements inside are closed.\<close>

definition close_tag :: "byte list \<Rightarrow> nat \<Rightarrow> u32 \<Rightarrow> html_tag \<Rightarrow> hbuf option" where
  "close_tag src n t0 tag =
     (let chr = tag2char tag; t = t0 AND NOT (tag_bit chr) in
      do {
        found \<leftarrow> find_opening src chr n;
        case found of
          Some pos \<Rightarrow>
            if chr = CET_TBL \<or> chr = CET_LOL \<or> chr = CET_LUL \<or> chr = CET_LLI
            then do {r \<leftarrow> addLbr src pos False True; Some (with_tags t r)}
            else Some (src, pos, t)
        | None \<Rightarrow>
            if chr = CET_TBL then close_table src n t
            else if chr < CET_LAYOUT then close_style src n t tag
            else put_tag src n t tag True
      })"

fun close_rank :: "html_tag \<Rightarrow> nat" where
  "close_rank TAG_tbl = 2"
| "close_rank TAG_ttr = 1"
| "close_rank _ = 0"

lemma tag2char_layout:
  "tag2char tag = CET_TTR \<longleftrightarrow> tag = TAG_ttr" "tag2char tag = CET_TBL \<longleftrightarrow> tag = TAG_tbl" "tag2char tag = CET_TTD \<longleftrightarrow> tag = TAG_ttd"
  by (cases tag; simp)+

function addTagChar :: "byte list \<Rightarrow> nat \<Rightarrow> u32 \<Rightarrow> html_tag \<Rightarrow> bool \<Rightarrow> hbuf option" where
  "addTagChar src n t tag closing =
     (let chr = tag2char tag in
      if chr = 0 then Some (src, n, t)
      else if CET_MANUAL \<le> chr \<and> chr < 32 then
        if chr = CET_LLI \<and> \<not> tag_open t CET_LOL \<and> \<not> tag_open t CET_LUL
        then do {r \<leftarrow> addLbr src n False closing; Some (with_tags t r)}
        else do {
          (src, n) \<leftarrow> (if tag = TAG_hdr \<and> \<not> closing then addLbr src n True closing else Some (src, n));
          if \<not> tag_open t chr \<and> \<not> closing then open_tag src n t tag
          else if tag_open t chr \<and> closing then
            do {
              n \<leftarrow> (if chr \<ge> CET_LAYOUT then trim_layout src n else Some n);
              (src, n, t) \<leftarrow>
                (if chr = CET_TTR then
                   if tag_open t CET_TTD then addTagChar src n t TAG_ttd True else Some (src, n, t)
                 else if chr = CET_TBL \<and> tag_open t CET_TTR then
                   do {
                     (src, n, t) \<leftarrow> (if tag_open t CET_TTD then addTagChar src n t TAG_ttd True else Some (src, n, t));
                     addTagChar src n t TAG_ttr True
                   }
                 else Some (src, n, t));
              close_tag src n t tag
            }
          else Some (src, n, t)
        }
      else if chr = CET_LBR then do {r \<leftarrow> addLbr src n False closing; Some (with_tags t r)}
      else if chr = CET_HRL then do {r \<leftarrow> addHrl src n; Some (with_tags t r)}
      else put_tag src n t tag closing)"
  by pat_completeness auto
termination
  by (relation "measure (\<lambda>(src, n, t, tag, closing). close_rank tag)") (auto simp: tag2char_layout)

declare addTagChar.simps [simp del]

section \<open>The loop\<close>

definition TAGNAME_MAXLEN :: nat where "TAGNAME_MAXLEN = 11"
definition WANTATTR_NAME_MAXLEN :: nat where "WANTATTR_NAME_MAXLEN = 4"

datatype html_type = TYPE_TX | TYPE_T1 | TYPE_T2 | TYPE_EQ | TYPE_QN | TYPE_QD | TYPE_QS

text \<open>The local variables of \<open>html2cet\<close> and its buffer.  \<open>hm_first\<close> is \<^verbatim>\<open>tagName[0]\<close>, \<open>hm_name\<close> the array below
  \<^verbatim>\<open>lenTagName\<close>.\<close>

record html =
  hm_src :: "byte list"
  hm_out :: nat
  hm_tags :: u32
  hm_pos :: nat
  hm_type :: html_type
  hm_tag :: html_tag
  hm_first :: byte
  hm_name :: "byte list"
  hm_copy :: byte
  hm_pre :: bool

definition pre_after :: "byte list \<Rightarrow> bool \<Rightarrow> bool" where
  "pre_after nm pre = (if nm = str ''pre'' then True else if nm = str ''/pre'' then False else pre)"

definition hm_addTag :: "html \<Rightarrow> html_tag \<Rightarrow> bool \<Rightarrow> html option" where
  "hm_addTag h tag closing =
     do {
       (src, n, t) \<leftarrow> addTagChar (hm_src h) (hm_out h) (hm_tags h) tag closing;
       Some (h\<lparr>hm_src := src, hm_out := n, hm_tags := t\<rparr>)
     }"

text \<open>\<^verbatim>\<open>i += addHtmlCharacter(src, *lenSrc, i, &lenOut) - 1\<close>, with the increment of the loop.\<close>

definition hm_addChar :: "nat \<Rightarrow> html \<Rightarrow> html" where
  "hm_addChar lenSrc h =
     (case addHtmlCharacter (hm_src h) lenSrc (hm_pos h) (hm_out h) of
        (src, n, skip) \<Rightarrow> h\<lparr>hm_src := src, hm_out := n, hm_pos := hm_pos h + skip\<rparr>)"

definition hm_put :: "html \<Rightarrow> byte \<Rightarrow> html option" where
  "hm_put h b =
     do {
       src \<leftarrow> wr (hm_src h) (hm_out h) b;
       Some (h\<lparr>hm_src := src, hm_out := hm_out h + 1\<rparr>)
     }"

definition html_T1 :: "html \<Rightarrow> byte \<Rightarrow> html option" where
  "html_T1 h c =
     (let nx = h\<lparr>hm_pos := hm_pos h + 1\<rparr> in
      if c = 32 then Some (nx\<lparr>hm_tag := getTagByName (hm_name h), hm_type := TYPE_T2, hm_pre := pre_after (hm_name h) (hm_pre h)\<rparr>)
      else if c = 62 then
        do {
          h' \<leftarrow> hm_addTag nx (getTagByName (hm_name h)) (hm_first h = 47);
          Some (h'\<lparr>hm_type := TYPE_TX, hm_pre := pre_after (hm_name h) (hm_pre h)\<rparr>)
        }
      else if length (hm_name h) < TAGNAME_MAXLEN then
        Some (nx\<lparr>hm_name := hm_name h @ [to_lower c], hm_first := (if hm_name h = [] then to_lower c else hm_first h)\<rparr>)
      else Some (nx\<lparr>hm_name := 45 # tl (hm_name h), hm_first := 45\<rparr>))"

text \<open>The name of an attribute is read backwards from the equals sign.\<close>

fun back_spaces :: "byte list \<Rightarrow> nat \<Rightarrow> nat option" where
  "back_spaces src 0 = None"
| "back_spaces src (Suc k) = (if src ! k = 32 then back_spaces src k else Some (Suc k))"

fun attr_back :: "byte list \<Rightarrow> nat \<Rightarrow> byte list \<Rightarrow> byte list option" where
  "attr_back src 0 nm = None"
| "attr_back src (Suc k) nm =
     (if src ! k = 32 \<or> src ! k = 60 \<or> \<not> is_alpha (src ! k) then Some nm
      else if length nm = WANTATTR_NAME_MAXLEN then Some []
      else attr_back src k (to_lower (src ! k) # nm))"

definition html_T2 :: "html \<Rightarrow> byte \<Rightarrow> html option" where
  "html_T2 h c =
     (let nx = h\<lparr>hm_pos := hm_pos h + 1\<rparr> in
      if c = 62 then
        do {
          h' \<leftarrow> hm_addTag nx (hm_tag h) (hm_first h = 47);
          Some (h'\<lparr>hm_type := TYPE_TX\<rparr>)
        }
      else if c = 61 then
        do {
          e \<leftarrow> back_spaces (hm_src h) (hm_pos h);
          nm \<leftarrow> attr_back (hm_src h) e [];
          Some (nx\<lparr>hm_copy := (if nm = [] then 0 else wantAttr (hm_tag h) nm), hm_type := TYPE_EQ\<rparr>)
        }
      else Some nx)"

fun needs_space :: "byte list \<Rightarrow> nat \<Rightarrow> bool" where
  "needs_space src 0 = False"
| "needs_space src (Suc j) =
     (if src ! j > 32 then True
      else if src ! j = 32 \<or> src ! j = CET_LBR \<or> src ! j = CET_HRL then False
      else needs_space src j)"

text \<open>The beginning of a link: the number of bytes skipped and the mark.\<close>

definition link_start :: "byte list \<Rightarrow> byte \<Rightarrow> (nat \<times> byte) option" where
  "link_start s copy =
     do {
       m \<leftarrow> memeq_anycase s (str ''mailto:'') 7;
       if m then Some (7, 32) else do {
       m \<leftarrow> memeq_anycase s (str ''tel:'') 4;
       if m then Some (4, 32) else do {
       m \<leftarrow> memeq_anycase s (str ''http://'') 7;
       if m then Some (7, copy) else do {
       m \<leftarrow> memeq_anycase s (str ''https://'') 8;
       Some (if m then (8, copy + 1) else (0, 0)) }}}
     }"

text \<open>\<open>q\<close> is where the value begins, behind a quotation mark or at the byte itself.\<close>

definition html_EQ :: "html \<Rightarrow> byte \<Rightarrow> html option" where
  "html_EQ h c =
     (if c = 32 then Some (h\<lparr>hm_pos := hm_pos h + 1\<rparr>)
      else
        let q = (if c = 39 \<or> c = 34 then hm_pos h + 1 else hm_pos h);
            h = h\<lparr>hm_pos := q, hm_type := (if c = 39 then TYPE_QS else if c = 34 then TYPE_QD else TYPE_QN)\<rparr>
        in if hm_copy h = 0 then Some h
        else do {
          (skip, copy) \<leftarrow> link_start (drop q (hm_src h)) (hm_copy h);
          let h = h\<lparr>hm_pos := q + skip, hm_copy := copy\<rparr>;
          if copy = 0 then Some h
          else if copy = 32 then (if needs_space (hm_src h) (hm_out h) then hm_put h 32 else Some h)
          else hm_put (h\<lparr>hm_out := back_byte 32 (hm_src h) (hm_out h)\<rparr>) copy
        })"

text \<open>The mark at the end of a link.\<close>

definition end_mark_link :: "html \<Rightarrow> html option" where
  "end_mark_link h =
     (if hm_copy h \<noteq> 0 \<and> (hm_copy h \<noteq> 32 \<or> (hm_out h > 0 \<and> rd (hm_src h) (hm_out h - 1) \<noteq> Some 32))
      then hm_put h (hm_copy h) else Some h)"

definition html_quoted :: "nat \<Rightarrow> html \<Rightarrow> byte \<Rightarrow> byte \<Rightarrow> html option" where
  "html_quoted lenSrc h quote c =
     (if c = quote then do {h' \<leftarrow> end_mark_link h; Some (h'\<lparr>hm_type := TYPE_T2, hm_pos := hm_pos h + 1\<rparr>)}
      else Some (if hm_copy h \<noteq> 0 then hm_addChar lenSrc h else h\<lparr>hm_pos := hm_pos h + 1\<rparr>))"

definition html_QN :: "nat \<Rightarrow> html \<Rightarrow> byte \<Rightarrow> html option" where
  "html_QN lenSrc h c =
     (if c = 32 \<or> c = 62 then do {h' \<leftarrow> end_mark_link h; Some (h'\<lparr>hm_type := TYPE_T2\<rparr>)}
      else Some (if hm_copy h \<noteq> 0 then hm_addChar lenSrc h else h\<lparr>hm_pos := hm_pos h + 1\<rparr>))"

text \<open>The flag in the result: the function returns here.\<close>

definition html_TX :: "nat \<Rightarrow> html \<Rightarrow> byte \<Rightarrow> (bool \<times> html) option" where
  "html_TX lenSrc h c =
     (let i = hm_pos h; src = hm_src h in
      if c = 60 then
        do {
          style \<leftarrow> memeq_anycase (drop (i + 1) src) (str ''style'') 5;
          comment \<leftarrow> (if style then Some False else memeq_anycase (drop (i + 1) src) (str ''!--'') 3);
          if style then
            if lenSrc < i + 5 then None
            else case memcasemem (take (lenSrc - (i + 5)) (drop (i + 5) src)) (str ''</style'') of
              None \<Rightarrow> Some (True, h)
            | Some k \<Rightarrow> Some (False, h\<lparr>hm_pos := i + 5 + k\<rparr>)
          else if comment then
            if lenSrc < i + 2 then None
            else case memcasemem (take (lenSrc - (i + 2)) (drop (i + 2) src)) (str ''-->'') of
              None \<Rightarrow> Some (True, h)
            | Some k \<Rightarrow> Some (False, h\<lparr>hm_pos := i + 5 + k\<rparr>)
          else Some (False, h\<lparr>hm_name := [], hm_first := 45, hm_type := TYPE_T1, hm_pos := i + 1\<rparr>)
        }
      else if c = 10 \<and> hm_pre h then do {h' \<leftarrow> hm_addTag h TAG_br False; Some (False, h'\<lparr>hm_pos := i + 1\<rparr>)}
      else Some (False, hm_addChar lenSrc h))"

definition fold_newline :: "html \<Rightarrow> byte \<Rightarrow> html" where
  "fold_newline h c = (if (hm_type h \<noteq> TYPE_TX \<or> \<not> hm_pre h) \<and> c = 10 then h\<lparr>hm_src := (hm_src h)[hm_pos h := 32]\<rparr> else h)"

definition html_step :: "nat \<Rightarrow> html \<Rightarrow> (bool \<times> html) option" where
  "html_step lenSrc h0 =
     do {
       c0 \<leftarrow> rd (hm_src h0) (hm_pos h0);
       let h = fold_newline h0 c0;
       c \<leftarrow> rd (hm_src h) (hm_pos h);
       case hm_type h of
         TYPE_T1 \<Rightarrow> map_option (Pair False) (html_T1 h c)
       | TYPE_T2 \<Rightarrow> map_option (Pair False) (html_T2 h c)
       | TYPE_EQ \<Rightarrow> map_option (Pair False) (html_EQ h c)
       | TYPE_QD \<Rightarrow> map_option (Pair False) (html_quoted lenSrc h 34 c)
       | TYPE_QS \<Rightarrow> map_option (Pair False) (html_quoted lenSrc h 39 c)
       | TYPE_QN \<Rightarrow> map_option (Pair False) (html_QN lenSrc h c)
       | TYPE_TX \<Rightarrow> html_TX lenSrc h c
     }"

text \<open>A byte is looked at again at most twice: as the beginning of a value, as its end and inside the tag.\<close>

fun type_rank :: "html_type \<Rightarrow> nat" where
  "type_rank TYPE_EQ = 2"
| "type_rank TYPE_QN = 1"
| "type_rank _ = 0"

lemma hm_addChar_pos: "hm_pos h < hm_pos (hm_addChar lenSrc h)" "hm_type (hm_addChar lenSrc h) = hm_type h"
  using addHtmlCharacter_len [of "hm_src h" lenSrc "hm_pos h" "hm_out h"]
  by (auto simp: hm_addChar_def split: prod.splits)

lemma hm_addTag_pos: "hm_addTag h tag closing = Some h' \<Longrightarrow> hm_pos h' = hm_pos h"
  by (auto simp: hm_addTag_def split: Option.bind_splits prod.splits)

lemma hm_put_pos: "hm_put h b = Some h' \<Longrightarrow> hm_pos h' = hm_pos h \<and> hm_type h' = hm_type h"
  by (auto simp: hm_put_def split: Option.bind_splits)

lemma end_mark_link_pos: "end_mark_link h = Some h' \<Longrightarrow> hm_pos h' = hm_pos h \<and> hm_type h' = hm_type h"
  by (auto simp: end_mark_link_def dest: hm_put_pos split: if_splits)

lemma fold_newline_pos: "hm_pos (fold_newline h c) = hm_pos h" "hm_type (fold_newline h c) = hm_type h"
  by (simp_all add: fold_newline_def)

lemma html_T1_pos: "html_T1 h c = Some h' \<Longrightarrow> hm_pos h' = hm_pos h + 1"
  by (auto simp: html_T1_def Let_def split: Option.bind_splits if_splits dest!: hm_addTag_pos)

lemma html_T2_pos: "html_T2 h c = Some h' \<Longrightarrow> hm_pos h' = hm_pos h + 1"
  by (auto simp: html_T2_def Let_def split: Option.bind_splits if_splits dest!: hm_addTag_pos)

lemma html_EQ_pos:
  "html_EQ h c = Some h' \<Longrightarrow> hm_pos h < hm_pos h' \<or> (hm_pos h' = hm_pos h \<and> hm_type h' = TYPE_QN)"
  by (auto simp: html_EQ_def Let_def split: Option.bind_splits if_splits prod.splits dest!: hm_put_pos)

lemma html_QN_pos:
  "html_QN lenSrc h c = Some h' \<Longrightarrow> hm_pos h < hm_pos h' \<or> (hm_pos h' = hm_pos h \<and> hm_type h' = TYPE_T2)"
  using hm_addChar_pos [where h = h and lenSrc = lenSrc] by (auto simp: html_QN_def split: Option.bind_splits if_splits dest!: end_mark_link_pos)

lemma html_quoted_pos: "html_quoted lenSrc h quote c = Some h' \<Longrightarrow> hm_pos h < hm_pos h'"
  using hm_addChar_pos [where h = h and lenSrc = lenSrc] by (auto simp: html_quoted_def split: Option.bind_splits if_splits dest!: end_mark_link_pos)

lemma html_TX_pos: "html_TX lenSrc h c = Some (stop, h') \<Longrightarrow> stop \<or> hm_pos h < hm_pos h'"
  using hm_addChar_pos [where h = h and lenSrc = lenSrc]
  by (cases "c = 60"; cases "c = 10 \<and> hm_pre h")
     (auto simp: html_TX_def Let_def split: Option.bind_splits if_splits option.splits dest!: hm_addTag_pos)

lemma html_step_pos:
  assumes "html_step lenSrc h = Some (stop, h')"
  shows "stop \<or> hm_pos h < hm_pos h' \<or> (hm_pos h' = hm_pos h \<and> type_rank (hm_type h') < type_rank (hm_type h))"
  using assms
  by (auto simp: html_step_def Let_def fold_newline_pos split: Option.bind_splits html_type.splits
      dest!: html_T1_pos html_T2_pos html_EQ_pos html_QN_pos html_quoted_pos html_TX_pos)

function html_loop :: "nat \<Rightarrow> html \<Rightarrow> (bool \<times> html) option" where
  "html_loop lenSrc h =
     (if hm_pos h < lenSrc then
        case html_step lenSrc h of
          None \<Rightarrow> None
        | Some (stop, h') \<Rightarrow> if stop then Some (True, h') else html_loop lenSrc h'
      else Some (False, h))"
  by pat_completeness auto
termination
  by (relation "measures [\<lambda>(lenSrc, h). lenSrc - hm_pos h, \<lambda>(lenSrc, h). type_rank (hm_type h)]")
     (auto dest!: html_step_pos)

declare html_loop.simps [simp del]

fun cut_lbr :: "byte list \<Rightarrow> nat \<Rightarrow> nat" where
  "cut_lbr src 0 = 0"
| "cut_lbr src (Suc k) = (if src ! k = CET_LBR then cut_lbr src k else Suc k)"

text \<open>The result: the memory, the new length and the tags left open.\<close>

definition html2cet :: "u32 \<Rightarrow> byte list \<Rightarrow> nat \<Rightarrow> hbuf option" where
  "html2cet tagsOpen src lenSrc =
     do {
       (stop, h) \<leftarrow> html_loop lenSrc \<lparr>hm_src = src, hm_out = 0, hm_tags = tagsOpen, hm_pos = 0, hm_type = TYPE_TX, hm_tag = TAG_NULL,
         hm_first = 0, hm_name = [], hm_copy = 0, hm_pre = False\<rparr>;
       Some (hm_src h, (if stop then hm_out h else cut_lbr (hm_src h) (hm_out h)), hm_tags h)
     }"

end
