(* ===== verification/Html_Place.thy ===== *)
theory Html_Place
  imports Html_Cet
begin

text \<open>
  \<open>html2cet\<close> works in place: the lemmas bound what each step writes, and the property shows that without
  references (\<open>&\<close>) the output never overtakes the input, so that nothing unread and nothing behind the text is
  overwritten.  The tags left open outlive the call, which makes a later call read before its buffer.
\<close>

section \<open>Bounded writes\<close>

text \<open>\<open>within m src src'\<close>: the same memory from position \<open>m\<close> on.\<close>

definition within :: "nat \<Rightarrow> byte list \<Rightarrow> byte list \<Rightarrow> bool" where
  "within m src src' \<longleftrightarrow> length src' = length src \<and> drop m src' = drop m src"

lemma within_refl [simp]: "within m src src"
  by (simp add: within_def)

lemma drop_mono: "drop m a = drop m b \<Longrightarrow> m \<le> k \<Longrightarrow> drop k a = drop k b"
  by (metis drop_drop le_add_diff_inverse2)

lemma within_trans: "within m a b \<Longrightarrow> within k b c \<Longrightarrow> m \<le> j \<Longrightarrow> k \<le> j \<Longrightarrow> within j a c"
  unfolding within_def using drop_mono by metis

lemma within_mono: "within m a b \<Longrightarrow> m \<le> k \<Longrightarrow> within k a b"
  unfolding within_def using drop_mono by metis

lemma within_update: "k < m \<Longrightarrow> within m src (src[k := b])"
  by (simp add: within_def)

lemma within_wr: "wr src k b = Some src' \<Longrightarrow> k < m \<Longrightarrow> within m src src'"
  by (auto simp: wr_def within_update split: if_splits)

lemma back_le: "back_byte b src n \<le> n" "back_invisible src n \<le> n"
  by (auto simp: back_byte_def back_invisible_def)

lemma addHrl_within:
  assumes "addHrl src n = Some (src', n')"
  shows "n' \<le> n + 1 \<and> within (n + 1) src src'"
proof -
  define k where "k = back_invisible src (back_byte CET_LBR src (back_byte CET_LBR src (back_byte 32 src n)))"
  have "k \<le> n" unfolding k_def using back_le by (meson le_trans)
  then show ?thesis using assms unfolding addHrl_def k_def [symmetric] Let_def
    by (auto split: Option.bind_splits if_splits dest!: within_wr [where m = "n + 1"])
qed

lemma addLbr_within: "addLbr src n one closing = Some (src', n') \<Longrightarrow> n' \<le> n + 1 \<and> within (n + 1) src src'"
proof (induction src n one closing arbitrary: src' n' rule: addLbr.induct)
  case (2 src k one closing)
  obtain c where c: "rd src k = Some c" using 2(2) by (auto split: Option.bind_splits)
  consider "c = CET_HRL \<or> is_layout c \<or> (c = CET_LBR \<and> (one \<or> (k > 0 \<and> rd src (k - 1) = Some CET_LBR)))"
    | (style) "\<not> (c = CET_HRL \<or> is_layout c \<or> (c = CET_LBR \<and> (one \<or> (k > 0 \<and> rd src (k - 1) = Some CET_LBR))))"
        "\<not> closing \<and> CET_MANUAL \<le> c \<and> c < 32"
    | (last) "\<not> (c = CET_HRL \<or> is_layout c \<or> (c = CET_LBR \<and> (one \<or> (k > 0 \<and> rd src (k - 1) = Some CET_LBR))))"
        "\<not> (\<not> closing \<and> CET_MANUAL \<le> c \<and> c < 32)"
    by blast
  then show ?case
  proof cases
    case 1
    then show ?thesis using 2(2) c by simp
  next
    case style
    then obtain s1 n1 where r: "addLbr src k one closing = Some (s1, n1)" "wr s1 n1 c = Some src'" "n' = n1 + 1"
      using 2(2) c by (auto split: Option.bind_splits)
    have "n1 \<le> k + 1 \<and> within (k + 1) src s1" by (rule 2(1) [OF c style r(1)])
    then show ?thesis using r within_trans [of "k + 1" src s1 "k + 2" src' "k + 2"] within_wr [OF r(2), of "k + 2"] by simp
  next
    case last
    define n where "n = back_invisible src (back_byte 32 src (Suc k))"
    have n: "n \<le> Suc k" unfolding n_def using back_le by (meson le_trans)
    have "wr src n CET_LBR = Some src'" "n' = n + 1"
      using 2(2) c last unfolding n_def by (auto simp: Let_def split: Option.bind_splits)
    then show ?thesis using n within_wr [of src n CET_LBR src' "Suc k + 1"] by simp
  qed
qed simp

lemma put_tag_within:
  assumes "put_tag src n t tag closing = Some (src', n', t')"
  shows "n' \<le> n + 2 \<and> (\<not> (tag = TAG_hdr \<and> closing) \<longrightarrow> n' \<le> n + 1) \<and> within (if tag = TAG_hdr \<and> closing then n + 2 else n + 1) src src'"
proof -
  obtain s1 where s1: "wr src n (tag2char tag) = Some s1" using assms by (auto simp: put_tag_def split: Option.bind_splits)
  show ?thesis
  proof (cases "tag = TAG_hdr \<and> closing")
    case True
    then have "addLbr s1 (n + 1) True closing = Some (src', n')"
      using assms s1 by (auto simp: put_tag_def with_tags_def split: Option.bind_splits)
    then show ?thesis using True addLbr_within [of s1 "n + 1" True closing src' n'] within_wr [OF s1, of "n + 1"]
        within_trans [of "n + 1" src s1 "n + 2" src' "n + 2"] by simp
  next
    case False
    then have "src' = s1" "n' = n + 1" using assms s1 by (auto simp: put_tag_def with_tags_def split: Option.bind_splits)
    then show ?thesis using within_wr [OF s1, of "n + 1"] within_wr [OF s1, of "n + 2"] by simp
  qed
qed

lemma open_tag_within:
  assumes "open_tag src n t tag = Some (src', n', t')"
  shows "n' \<le> n + 3 \<and> within (n + 3) src src' \<and> (tag \<noteq> TAG_tbl \<longrightarrow> n' \<le> n + 2 \<and> within (n + 2) src src')"
proof -
  have mono: "n1 \<le> n + 2 \<Longrightarrow> within (n + 2) src src1 \<Longrightarrow> ?thesis" if "n' = n1" "src' = src1" for n1 src1
    using that within_mono [of "n + 2" src src' "n + 3"] by simp
  consider (tbl) "tag = TAG_tbl" | (ttr) "tag = TAG_ttr" | (ttd) "tag = TAG_ttd" | (other) "tag \<notin> {TAG_tbl, TAG_ttr, TAG_ttd}" by blast
  then show ?thesis
  proof cases
    case tbl
    define m where "m = (if n > 1 \<and> rd src (n - 1) = Some CET_LBR \<and> rd src (n - 2) = Some CET_LBR then n - 1 else n)"
    have m: "m \<le> n" by (simp add: m_def)
    obtain s1 s2 where w: "wr src m CET_TBL = Some s1" "wr s1 (m + 1) CET_TTR = Some s2" "wr s2 (m + 2) CET_TTD = Some src'" "n' = m + 3"
      using assms tbl unfolding open_tag_def m_def by (auto simp: Let_def split: Option.bind_splits)
    have "within (n + 3) src src'"
      using within_trans [OF within_trans [OF within_wr [OF w(1), of "n + 3"] within_wr [OF w(2), of "n + 3"], of "n + 3"]
          within_wr [OF w(3), of "n + 3"], of "n + 3"] m by simp
    then show ?thesis using w(4) m tbl by simp
  next
    case ttr
    then have "n' \<le> n + 2 \<and> within (n + 2) src src'"
      using assms by (auto simp: open_tag_def split: Option.bind_splits if_splits
          dest!: within_wr [where m = "n + 2"] intro: within_trans)
    then show ?thesis using mono by simp
  next
    case ttd
    then have "n' \<le> n + 2 \<and> within (n + 2) src src'"
      using assms by (auto simp: open_tag_def split: Option.bind_splits if_splits
          dest!: within_wr [where m = "n + 2"] put_tag_within intro: within_trans within_mono)
    then show ?thesis using mono by simp
  next
    case other
    then have "put_tag src n (t OR tag_bit (tag2char tag)) tag False = Some (src', n', t')"
      using assms tag2char_layout by (auto simp: open_tag_def Let_def)
    from put_tag_within [OF this] have "n' \<le> n + 2 \<and> within (n + 2) src src'" by (auto split: if_splits intro: within_mono)
    then show ?thesis using mono by simp
  qed
qed

lemma open_tag_within_other:
  assumes "open_tag src n t tag = Some (src', n', t')" "tag \<notin> {TAG_tbl, TAG_ttr, TAG_ttd}"
  shows "n' \<le> n + 1 \<and> within (n + 1) src src'"
proof -
  have "put_tag src n (t OR tag_bit (tag2char tag)) tag False = Some (src', n', t')"
    using assms tag2char_layout by (auto simp: open_tag_def Let_def)
  from put_tag_within [OF this] show ?thesis by simp
qed

lemma trim_layout_le: "trim_layout src n = Some n' \<Longrightarrow> n' \<le> n"
  by (induction src n rule: trim_layout.induct) (auto split: Option.bind_splits if_splits)

lemma find_opening_less: "find_opening src chr n = Some (Some pos) \<Longrightarrow> pos < n"
  by (induction src chr n rule: find_opening.induct) (auto split: Option.bind_splits if_splits)

lemma find_opening_bound: "find_opening src chr n = Some f \<Longrightarrow> n \<le> length src"
  by (cases n) (auto simp: rd_def split: Option.bind_splits if_splits)

lemma table_begin_less: "table_begin src n a b c = Some (k, x, y) \<Longrightarrow> k < n"
  by (induction src n a b c rule: table_begin.induct) (auto split: if_splits)

lemma rows_to_lines_within:
  "rows_to_lines src new ps = (src', n') \<Longrightarrow> n' \<le> new + length ps \<and> within (new + length ps) src src'"
proof (induction src new ps rule: rows_to_lines.induct)
  case (2 src new i ps)
  have up: "within (Suc (new + length ps)) src (src[new := b])" for b by (simp add: within_update)
  show ?case using 2 up by (auto split: if_splits intro: within_trans within_mono)
qed simp

lemma within_shift:
  assumes "b + 5 \<le> n" "n \<le> length src"
  shows "within n src (take b src @ take (n - b - 5) (drop (b + 3) src) @ drop (n - 5) src)"
proof -
  have p: "length (take b src @ take (n - b - 5) (drop (b + 3) src)) = n - 5" using assms by simp
  have "drop n ((take b src @ take (n - b - 5) (drop (b + 3) src)) @ drop (n - 5) src) = drop n src"
    using assms(1) unfolding drop_append p by simp
  moreover have "length ((take b src @ take (n - b - 5) (drop (b + 3) src)) @ drop (n - 5) src) = length src"
    unfolding length_append p using assms by simp
  ultimately show ?thesis unfolding within_def append_assoc by blast
qed

lemma close_table_within:
  assumes "close_table src n t = Some (src', n', t')" "n \<le> length src"
  shows "n' \<le> n + 1 \<and> within (n + 1) src src'"
proof (cases "table_begin src (n - 2) 0 0 0")
  case None
  then show ?thesis using assms by (simp add: close_table_def)
next
  case (Some r)
  obtain b cells columns where r: "r = (b, cells, columns)" by (cases r)
  have b: "b < n - 2" using table_begin_less Some r by blast
  consider (one) "cells < 2" | (column) "\<not> cells < 2" "columns < 3" | (table) "\<not> cells < 2" "\<not> columns < 3" by blast
  then show ?thesis
  proof cases
    case one
    define s0 where "s0 = take b src @ take (n - b - 5) (drop (b + 3) src) @ drop (n - 5) src"
    have n: "\<not> n < b + 5" using assms one Some r by (auto simp: close_table_def)
    obtain s1 n1 where l: "addLbr s0 (n - 5) False True = Some (s1, n1)" "addLbr s1 n1 False True = Some (src', n')"
      using assms one Some r n by (auto simp: close_table_def s0_def Let_def split: Option.bind_splits)
    have s0: "within n src s0" using n assms(2) within_shift [of b n src] by (simp add: s0_def)
    have 1: "n1 \<le> n - 4" "within n s0 s1" using addLbr_within [OF l(1)] within_mono n by auto
    have 2: "n' \<le> n" "within n s1 src'" using addLbr_within [OF l(2)] within_mono 1(1) n by fastforce+
    show ?thesis using 2(1) within_trans [OF within_trans [OF s0 1(2)] 2(2)] within_mono by fastforce
  next
    case column
    obtain s1 n1 where l: "rows_to_lines src b [b + 1..<n] = (s1, n1)" by fastforce
    then show ?thesis using assms column Some r rows_to_lines_within [OF l] b
      by (auto simp: close_table_def intro: within_mono)
  next
    case table
    then have "put_tag src n t TAG_tbl True = Some (src', n', t')" using assms Some r by (simp add: close_table_def)
    then show ?thesis using put_tag_within by fastforce
  qed
qed

lemma close_style_within:
  assumes "close_style src n t tag = Some (src', n', t')"
  shows "n' \<le> n + 2 \<and> (tag \<noteq> TAG_hdr \<longrightarrow> n' \<le> n + 1) \<and> within (n + 2) src src' \<and> (tag \<noteq> TAG_hdr \<longrightarrow> within (n + 1) src src')"
proof -
  obtain c where c: "rd_last src n = Some c" using assms by (auto simp: close_style_def split: Option.bind_splits)
  then have n: "n > 0" by (auto simp: rd_last_def split: if_splits)
  have short: "n' \<le> n + 1 \<and> within (n + 1) src src'"
    if h: "\<exists>b s1 i j x y. wr src n b = Some s1 \<and> src' = s1[i := x, j := y] \<and> i < n \<and> j < n \<and> n' = n + 1"
  proof -
    obtain b s1 i j x y where w: "wr src n b = Some s1" "src' = s1[i := x, j := y]" "i < n" "j < n" "n' = n + 1" using h by blast
    have "within (n + 1) src s1" using within_wr [OF w(1), of "n + 1"] by simp
    then show ?thesis using w(2-5) by (simp add: within_def)
  qed
  have short1: "n' \<le> n + 1 \<and> within (n + 1) src src'"
    if h: "\<exists>b s1 i x. wr src n b = Some s1 \<and> src' = s1[i := x] \<and> i < n \<and> n' = n + 1"
  proof -
    obtain b s1 i x where w: "wr src n b = Some s1" "src' = s1[i := x]" "i < n" "n' = n + 1" using h by blast
    have "within (n + 1) src s1" using within_wr [OF w(1), of "n + 1"] by simp
    then show ?thesis using w(2-4) by (simp add: within_def)
  qed
  have m: "within (n + 1) src src' \<Longrightarrow> within (n + 2) src src'" by (rule within_mono [where m = "n + 1"]) simp_all
  consider (space) "c = 32" | (two) "c \<noteq> 32" "n > 2" "c = CET_LBR" "rd src (n - 2) = Some CET_LBR"
    | (lbr) "c \<noteq> 32" "\<not> (n > 2 \<and> c = CET_LBR \<and> rd src (n - 2) = Some CET_LBR)" "c = CET_LBR" | (put) "c \<noteq> 32" "c \<noteq> CET_LBR" by blast
  then show ?thesis
  proof cases
    case space
    then obtain s1 where w: "wr src n 32 = Some s1" "src' = s1[n - 1 := tag2char tag]" "n' = n + 1"
      using assms c by (auto simp: close_style_def split: Option.bind_splits)
    have "n - 1 < n" using n by simp
    then have "n' \<le> n + 1 \<and> within (n + 1) src src'" using w by (intro short1) blast
    then show ?thesis using m by simp
  next
    case two
    then obtain s1 where w: "wr src n CET_LBR = Some s1" "src' = s1[n - 2 := tag2char tag, n - 1 := CET_LBR]" "n' = n + 1"
      using assms c by (auto simp: close_style_def split: Option.bind_splits)
    have "n - 2 < n" "n - 1 < n" using n by simp_all
    then have "n' \<le> n + 1 \<and> within (n + 1) src src'" using w by (intro short) blast
    then show ?thesis using m by simp
  next
    case lbr
    then obtain s1 where w: "wr src n CET_LBR = Some s1" "src' = s1[n - 1 := tag2char tag]" "n' = n + 1"
      using assms c by (auto simp: close_style_def split: Option.bind_splits)
    have "n - 1 < n" using n by simp
    then have "n' \<le> n + 1 \<and> within (n + 1) src src'" using w by (intro short1) blast
    then show ?thesis using m by simp
  next
    case put
    then have "put_tag src n t tag True = Some (src', n', t')" using assms c by (simp add: close_style_def)
    from put_tag_within [OF this] show ?thesis using m by (auto split: if_splits)
  qed
qed

lemma close_tag_within:
  assumes "close_tag src n t tag = Some (src', n', t')"
  shows "n' \<le> n + 2 \<and> (tag \<noteq> TAG_hdr \<longrightarrow> n' \<le> n + 1) \<and> within (n + 2) src src' \<and> (tag \<noteq> TAG_hdr \<longrightarrow> within (n + 1) src src')"
proof -
  define c where "c = tag2char tag"
  define u where "u = t AND NOT (tag_bit c)"
  obtain f where f: "find_opening src c n = Some f"
    using assms by (auto simp: close_tag_def c_def Let_def split: Option.bind_splits)
  have weak: "n' \<le> n + 1 \<and> within (n + 1) src src' \<Longrightarrow> ?thesis"
    using within_mono [of "n + 1" src src' "n + 2"] by auto
  show ?thesis
  proof (cases f)
    case (Some pos)
    have pos: "pos < n" using f Some find_opening_less by blast
    consider r where "addLbr src pos False True = Some r" "with_tags u r = (src', n', t')" | "src' = src" "n' = pos"
      using assms f Some unfolding close_tag_def c_def [symmetric] Let_def u_def
      by (auto split: Option.bind_splits if_splits)
    then have "n' \<le> n + 1 \<and> within (n + 1) src src'"
    proof cases
      case 1
      then have "addLbr src pos False True = Some (src', n')" by (cases r) (simp add: with_tags_def)
      then show ?thesis using addLbr_within pos within_mono by fastforce
    qed (use pos in simp)
    then show ?thesis by (rule weak)
  next
    case None
    consider (tbl) "close_table src n u = Some (src', n', t')" | (style) "close_style src n u tag = Some (src', n', t')"
      | (put) "put_tag src n u tag True = Some (src', n', t')"
      using assms f None unfolding close_tag_def c_def [symmetric] Let_def u_def by (auto split: if_splits)
    then show ?thesis
    proof cases
      case tbl
      then show ?thesis using weak close_table_within find_opening_bound [OF f] by blast
    next
      case style
      then show ?thesis by (rule close_style_within)
    next
      case put
      from put_tag_within [OF this] show ?thesis using within_mono [of "n + 1" src src' "n + 2"] by (auto split: if_splits)
    qed
  qed
qed

text \<open>Growth of the output by a tag.\<close>

fun tag_growth :: "html_tag \<Rightarrow> bool \<Rightarrow> nat" where
  "tag_growth TAG_NULL closing = 0"
| "tag_growth TAG_ttd True = 1"
| "tag_growth TAG_ttr True = 2"
| "tag_growth TAG_tbl closing = 4"
| "tag_growth tag closing = 2"

definition grows :: "nat \<Rightarrow> byte list \<Rightarrow> nat \<Rightarrow> hbuf \<Rightarrow> bool" where
  "grows k src n r \<longleftrightarrow> (case r of (src', n', t') \<Rightarrow> n' \<le> n + k \<and> within (n + k) src src')"

lemma grows_mono: "grows k src n r \<Longrightarrow> k \<le> j \<Longrightarrow> grows j src n r"
  unfolding grows_def by (auto intro: within_mono)

lemma grows_from: "grows k src m r \<Longrightarrow> m \<le> n \<Longrightarrow> grows k src n r"
  unfolding grows_def by (auto intro: within_mono)

lemma hgrows_trans: "grows k src n (src1, n1, t1) \<Longrightarrow> grows j src1 n1 r \<Longrightarrow> grows (k + j) src n r"
  unfolding grows_def by (auto intro: within_trans)

lemma hgrows_refl [simp]: "grows k src n (src, n, t)"
  by (simp add: grows_def)

lemma addLbr_grows: "addLbr src n one closing = Some r \<Longrightarrow> grows 1 src n (with_tags t r)"
  using addLbr_within [of src n one closing "fst r" "snd r"] by (cases r) (auto simp: grows_def with_tags_def)

lemma addHrl_grows: "addHrl src n = Some r \<Longrightarrow> grows 1 src n (with_tags t r)"
  using addHrl_within [of src n "fst r" "snd r"] by (cases r) (auto simp: grows_def with_tags_def)

lemma close_tag_grows: "close_tag src n t tag = Some r \<Longrightarrow> grows (if tag = TAG_hdr then 2 else 1) src n r"
  using close_tag_within [of src n t tag "fst r" "fst (snd r)" "snd (snd r)"] by (cases r) (auto simp: grows_def)

lemma open_tag_grows: "open_tag src n t tag = Some r \<Longrightarrow> grows (if tag = TAG_tbl then 3 else if tag \<in> {TAG_ttr, TAG_ttd} then 2 else 1) src n r"
  using open_tag_within [of src n t tag "fst r" "fst (snd r)" "snd (snd r)"] open_tag_within_other [of src n t tag "fst r" "fst (snd r)" "snd (snd r)"]
  by (cases r) (auto simp: grows_def)

lemma put_tag_grows: "put_tag src n t tag closing = Some r \<Longrightarrow> grows 2 src n r"
  using put_tag_within [of src n t tag closing "fst r" "fst (snd r)" "snd (snd r)"]
  by (cases r) (auto simp: grows_def intro: within_mono split: if_splits)

text \<open>The elements that are closed with an element.\<close>

lemma addTagChar_closing:
  assumes "addTagChar src n t tag True = Some r" "CET_MANUAL \<le> tag2char tag" "tag2char tag < 32"
    and "tag_open t (tag2char tag)" "\<not> (tag = TAG_lli \<and> \<not> tag_open t CET_LOL \<and> \<not> tag_open t CET_LUL)"
  obtains m where "m \<le> n" "tag \<notin> {TAG_ttr, TAG_tbl}" "close_tag src m t tag = Some r"
  | m src1 n1 t1 where "m \<le> n" "tag = TAG_ttr" "src1 = src \<and> n1 = m \<or> addTagChar src m t TAG_ttd True = Some (src1, n1, t1)"
      "close_tag src1 n1 t1 tag = Some r"
  | m src1 n1 t1 src2 n2 t2 where "m \<le> n" "tag = TAG_tbl" "src1 = src \<and> n1 = m \<or> addTagChar src m t TAG_ttd True = Some (src1, n1, t1)"
      "src2 = src1 \<and> n2 = n1 \<or> addTagChar src1 n1 t1 TAG_ttr True = Some (src2, n2, t2)" "close_tag src2 n2 t2 tag = Some r"
proof -
  define c where "c = tag2char tag"
  have c: "c \<noteq> 0" "CET_MANUAL \<le> c" "c < 32" using assms(2,3) by (auto simp: c_def)
  have lli: "\<not> (c = CET_LLI \<and> \<not> tag_open t CET_LOL \<and> \<not> tag_open t CET_LUL)" using assms(5) by (cases tag) (auto simp: c_def)
  obtain m where m: "(if c \<ge> CET_LAYOUT then trim_layout src n else Some n) = Some m"
    using assms(1,4) c lli by (subst (asm) addTagChar.simps) (auto simp: Let_def simp flip: c_def split: Option.bind_splits if_splits)
  have mn: "m \<le> n" using m trim_layout_le by (auto split: if_splits)
  note e = assms(1) [unfolded addTagChar.simps [of src n t tag True] Let_def, folded c_def]
  show ?thesis
  proof (cases "tag = TAG_ttr")
    case True
    then have "c = CET_TTR" by (simp add: c_def)
    then show ?thesis using e assms(4) c lli m mn True that(2)
      by (auto simp flip: c_def split: Option.bind_splits if_splits prod.splits)
  next
    case ttr: False
    show ?thesis
    proof (cases "tag = TAG_tbl")
      case True
      then have "c = CET_TBL" by (simp add: c_def)
      then show ?thesis using e assms(4) c lli m mn True that(3)
        by (auto simp flip: c_def split: Option.bind_splits if_splits prod.splits) blast+
    next
      case False
      have "c \<noteq> CET_TTR" "c \<noteq> CET_TBL" using ttr False tag2char_layout by (auto simp: c_def)
      then show ?thesis using e assms(4) c lli m mn ttr False that(1)
        by (auto simp flip: c_def split: Option.bind_splits if_splits prod.splits)
    qed
  qed
qed

lemma tag_growth_pos: "tag2char tag \<noteq> 0 \<Longrightarrow> tag_growth tag closing \<ge> 1"
  by (cases tag; cases closing; simp)

text \<open>All cases but the closing of an open element.\<close>

lemma addTagChar_plain:
  assumes "addTagChar src n t tag closing = Some r"
    and "\<not> (closing \<and> CET_MANUAL \<le> tag2char tag \<and> tag2char tag < 32 \<and> tag_open t (tag2char tag) \<and>
       \<not> (tag = TAG_lli \<and> \<not> tag_open t CET_LOL \<and> \<not> tag_open t CET_LUL))"
  shows "grows (tag_growth tag closing) src n r"
proof -
  define c where "c = tag2char tag"
  have lli: "c = CET_LLI \<longleftrightarrow> tag = TAG_lli" by (cases tag) (auto simp: c_def)
  note e = assms(1) [unfolded addTagChar.simps [of src n t tag closing] Let_def, folded c_def]
  have lay: "c = CET_TTR \<longleftrightarrow> tag = TAG_ttr" "c = CET_TBL \<longleftrightarrow> tag = TAG_tbl" "c = CET_TTD \<longleftrightarrow> tag = TAG_ttd"
    using tag2char_layout by (simp_all add: c_def)
  have g1: "grows (tag_growth tag closing) src n r" if "grows 1 src n r" "c \<noteq> 0"
    using grows_mono [OF that(1) tag_growth_pos] that(2) c_def by simp
  consider (zero) "c = 0" | (lli) "c \<noteq> 0" "c = CET_LLI \<and> \<not> tag_open t CET_LOL \<and> \<not> tag_open t CET_LUL"
    | (manual) "CET_MANUAL \<le> c" "c < 32" "\<not> (c = CET_LLI \<and> \<not> tag_open t CET_LOL \<and> \<not> tag_open t CET_LUL)" "c \<noteq> 0"
    | (rest) "c \<noteq> 0" "\<not> (CET_MANUAL \<le> c \<and> c < 32)" by auto
  then show ?thesis
  proof cases
    case zero
    then show ?thesis using e by auto
  next
    case lli
    then obtain q where "addLbr src n False closing = Some q" "r = with_tags t q" using e by (auto split: Option.bind_splits)
    then show ?thesis using g1 [OF _ lli(1)] addLbr_grows by blast
  next
    case rest
    have "tag \<noteq> TAG_NULL \<and> tag \<noteq> TAG_ttd \<and> tag \<noteq> TAG_ttr \<and> tag \<noteq> TAG_tbl" using rest by (auto simp: c_def)
    then have g: "tag_growth tag closing \<ge> 2 \<or> c = 0" by (cases tag; cases closing) (auto simp: c_def)
    consider q where "addLbr src n False closing = Some q" "r = with_tags t q" | q where "addHrl src n = Some q" "r = with_tags t q"
      | "put_tag src n t tag closing = Some r"
    proof -
      have e2: "(if c = CET_LBR then do {q \<leftarrow> addLbr src n False closing; Some (with_tags t q)}
          else if c = CET_HRL then do {q \<leftarrow> addHrl src n; Some (with_tags t q)} else put_tag src n t tag closing) = Some r"
        using e rest by (simp only: if_False)
      show ?thesis
      proof (cases "c = CET_LBR")
        case True
        then show ?thesis using e2 that(1) by (auto split: Option.bind_splits)
      next
        case lbr: False
        show ?thesis
        proof (cases "c = CET_HRL")
          case True
          then show ?thesis using e2 that(2) by (auto split: Option.bind_splits)
        qed (use e2 lbr that(3) in simp)
      qed
    qed
    then show ?thesis
    proof cases
      case 1
      then show ?thesis using g1 [OF _ rest(1)] addLbr_grows by blast
    next
      case 2
      then show ?thesis using g1 [OF _ rest(1)] addHrl_grows by blast
    next
      case 3
      then show ?thesis using put_tag_grows grows_mono g rest(1) by blast
    qed
  next
    case manual
    have nc: "\<not> (tag_open t c \<and> closing)" using assms(2) manual lli by (auto simp: c_def)
    obtain src1 n1 where a: "(if tag = TAG_hdr \<and> \<not> closing then addLbr src n True closing else Some (src, n)) = Some (src1, n1)"
      "(if \<not> tag_open t c \<and> \<not> closing then open_tag src1 n1 t tag else Some (src1, n1, t)) = Some r"
      using e manual nc by (auto split: Option.bind_splits if_splits)
    show ?thesis
    proof (cases "tag = TAG_hdr \<and> \<not> closing")
      case True
      have b: "grows 1 src n (src1, n1, t)" using a(1) True addLbr_grows [of src n True closing "(src1, n1)" t] by (simp add: with_tags_def)
      have "grows 1 src1 n1 r" using a(2) True open_tag_grows [of src1 n1 t tag r] by (auto split: if_splits)
      then show ?thesis using hgrows_trans [OF b] True by (simp add: numeral_2_eq_2)
    next
      case False
      then have s: "src1 = src" "n1 = n" using a(1) by (auto split: if_splits)
      show ?thesis
      proof (cases "\<not> tag_open t c \<and> \<not> closing")
        case True
        then have "open_tag src n t tag = Some r" using a(2) s by simp
        from open_tag_grows [OF this] show ?thesis
          by (rule grows_mono) (use True manual in \<open>cases tag; auto simp: c_def\<close>)
      next
        case False
        then have "r = (src, n, t)" using a(2) s by auto
        then show ?thesis by simp
      qed
    qed
  qed
qed

lemma addTagChar_ttd: "addTagChar src n t TAG_ttd True = Some r \<Longrightarrow> grows 1 src n r"
proof -
  assume a: "addTagChar src n t TAG_ttd True = Some r"
  show ?thesis
  proof (cases "tag_open t CET_TTD")
    case True
    obtain m where m: "m \<le> n" "close_tag src m t TAG_ttd = Some r" by (rule addTagChar_closing [OF a]) (use True in simp_all)
    show ?thesis by (rule grows_from [OF _ m(1)]) (use close_tag_grows [OF m(2)] in simp)
  next
    case False
    then show ?thesis using addTagChar_plain [OF a] by simp
  qed
qed

lemma addTagChar_ttr: "addTagChar src n t TAG_ttr True = Some r \<Longrightarrow> grows 2 src n r"
proof -
  assume a: "addTagChar src n t TAG_ttr True = Some r"
  show ?thesis
  proof (cases "tag_open t CET_TTR")
    case True
    obtain m src1 n1 t1 where m: "m \<le> n" "src1 = src \<and> n1 = m \<or> addTagChar src m t TAG_ttd True = Some (src1, n1, t1)"
      "close_tag src1 n1 t1 TAG_ttr = Some r" by (rule addTagChar_closing [OF a]) (use True in simp_all)
    have "grows 1 src m (src1, n1, t1)" using m(2) addTagChar_ttd by auto
    moreover have "grows 1 src1 n1 r" using close_tag_grows [OF m(3)] by simp
    ultimately have "grows (1 + 1) src m r" by (rule hgrows_trans)
    then show ?thesis using grows_from m(1) by (simp add: numeral_2_eq_2)
  next
    case False
    then show ?thesis using addTagChar_plain [OF a] by simp
  qed
qed

lemma addTagChar_grows:
  assumes "addTagChar src n t tag closing = Some r"
  shows "grows (tag_growth tag closing) src n r"
proof (cases "closing \<and> CET_MANUAL \<le> tag2char tag \<and> tag2char tag < 32 \<and> tag_open t (tag2char tag) \<and>
       \<not> (tag = TAG_lli \<and> \<not> tag_open t CET_LOL \<and> \<not> tag_open t CET_LUL)")
  case False
  then show ?thesis using addTagChar_plain [OF assms] by blast
next
  case True
  consider (ttd) "tag = TAG_ttd" | (ttr) "tag = TAG_ttr" | (tbl) "tag = TAG_tbl" | (other) "tag \<notin> {TAG_ttd, TAG_ttr, TAG_tbl}" by blast
  then show ?thesis
  proof cases
    case ttd
    then show ?thesis using assms addTagChar_ttd True by simp
  next
    case ttr
    then show ?thesis using assms addTagChar_ttr True by simp
  next
    case tbl
    have a: "addTagChar src n t tag True = Some r" using assms True by simp
    obtain m src1 n1 t1 src2 n2 t2 where m: "m \<le> n" "src1 = src \<and> n1 = m \<or> addTagChar src m t TAG_ttd True = Some (src1, n1, t1)"
      "src2 = src1 \<and> n2 = n1 \<or> addTagChar src1 n1 t1 TAG_ttr True = Some (src2, n2, t2)" "close_tag src2 n2 t2 tag = Some r"
      by (rule addTagChar_closing [OF a]) (use True tbl in simp_all)
    have 1: "grows 1 src m (src1, n1, t1)" using m(2) addTagChar_ttd by auto
    have 2: "grows 2 src1 n1 (src2, n2, t2)" using m(3) addTagChar_ttr by auto
    have 3: "grows 1 src2 n2 r" using close_tag_grows [OF m(4)] tbl by simp
    have "grows (1 + 2 + 1) src m r" by (rule hgrows_trans [OF hgrows_trans [OF 1 2] 3])
    then have "grows 4 src m r" by (rule grows_mono) simp
    then show ?thesis using grows_from m(1) tbl by simp
  next
    case other
    have a: "addTagChar src n t tag True = Some r" using assms True by simp
    obtain m where m: "m \<le> n" "close_tag src m t tag = Some r" by (rule addTagChar_closing [OF a]) (use True other in simp_all)
    have "grows (if tag = TAG_hdr then 2 else 1) src n r" by (rule grows_from [OF close_tag_grows [OF m(2)] m(1)])
    then show ?thesis by (rule grows_mono) (use True other in \<open>cases tag; auto\<close>)
  qed
qed

section \<open>Characters\<close>

lemma getHtmlChar_fits:
  assumes "getHtmlChar src n = (skip, dec)" "0 < skip" "byte_at src 0 \<noteq> 38" "0 < n" "n \<le> length src"
  shows "nat skip \<le> n"
proof -
  have d: "decodeHtmlRef src n = (0, [])" using assms(3) by (simp add: decodeHtmlRef_def)
  have "skip = validUtf8 (byte_at src 0) (drop 1 (take n src)) False"
    using assms(1,2) d by (auto simp: getHtmlChar_def Let_def split: if_splits)
  then show ?thesis using validUtf8_bounds(2) [of "byte_at src 0" "drop 1 (take n src)" False] assms(2,4,5) by simp
qed

lemma within_store:
  assumes "k + length bs \<le> m" "m \<le> length src"
  shows "within m src (store_at src k bs)"
proof -
  have "length (take k src @ bs) = k + length bs" using assms by simp
  then have "drop m ((take k src @ bs) @ drop (k + length bs) src) = drop m src" using assms by (simp only: drop_append) simp
  moreover have "length ((take k src @ bs) @ drop (k + length bs) src) = length src" using assms by simp
  ultimately show ?thesis unfolding within_def store_at_def append_assoc by blast
qed

lemma addHtmlCharacter_place:
  "addHtmlCharacter src lenSrc p n = (src', n', skip) \<Longrightarrow> byte_at src p \<noteq> 38 \<Longrightarrow> n \<le> p \<Longrightarrow> p < lenSrc \<Longrightarrow> lenSrc \<le> length src \<Longrightarrow>
   p + skip \<le> lenSrc \<and> 1 \<le> skip \<and> n' \<le> n + skip \<and> within (n + skip) src src'"
proof (induction src lenSrc p n rule: addHtmlCharacter.induct)
  case (1 src lenSrc p n)
  obtain s dec where g: "getHtmlChar (drop p src) (lenSrc - p) = (s, dec)" by fastforce
  have at: "byte_at (drop p src) 0 = byte_at src p" by (simp add: byte_at_def)
  have st: "within (n + k) src (store_at src n bs)" if "length bs \<le> k" "n + k \<le> lenSrc" for bs k
    using that "1.prems" within_mono [OF within_store [of n bs "n + length bs" src]] by simp
  show ?case
  proof (cases "s \<le> 0")
    case True
    then show ?thesis using "1.prems" g st [of "[63]" 1] by (subst (asm) addHtmlCharacter.simps) auto
  next
    case False
    let ?prev = "prev_bytes (prevChar src n n)"
    have len: "length dec \<le> nat s" using getHtmlChar_len(2) [OF g] False "1.prems"(2) at by simp
    have fit: "nat s \<le> lenSrc - p" using getHtmlChar_fits [OF g] False "1.prems" at by simp
    show ?thesis
    proof (cases "0 < charSpace dec \<and> 0 < charInvisible ?prev")
      case True
      then have eq: "addHtmlCharacter src lenSrc p n = addHtmlCharacter src lenSrc p (n - charInvisible ?prev)"
        using g False by (subst addHtmlCharacter.simps) (simp add: Let_def)
      have "p + skip \<le> lenSrc \<and> 1 \<le> skip \<and> n' \<le> n - charInvisible ?prev + skip \<and> within (n - charInvisible ?prev + skip) src src'"
        using "1.IH" [OF g [symmetric] False refl _ _ "1.prems"(1) [unfolded eq]] True "1.prems" by auto
      then show ?thesis using within_mono [of "n - charInvisible ?prev + skip" src src' "n + skip"] by auto
    next
      case nspace: False
      have s1: "1 \<le> nat s" "n + nat s \<le> lenSrc" "n + 1 \<le> lenSrc" using False fit "1.prems" by auto
      show ?thesis
        using "1.prems" g False len fit nspace s1 st [of "[32]" "nat s"] st [of dec "nat s"]
        by (subst (asm) addHtmlCharacter.simps) (auto simp: Let_def split: if_splits)
    qed
  qed
qed

section \<open>The invariant of the loop\<close>

lemma tag_lookup_table: "tag_lookup tag_names nm = TAG_tbl \<Longrightarrow> nm = str ''table''"
  by (simp add: tag_names_def split: if_splits)

lemma tag_growth_4: "tag_growth tag closing \<le> 4"
  by (cases tag; cases closing; simp)

lemma tag_growth_3: "tag \<noteq> TAG_tbl \<Longrightarrow> tag_growth tag closing \<le> 3"
  by (cases tag; cases closing; simp)

lemma growth_name: "tag_growth (getTagByName nm) closing \<le> length nm + 2"
proof (cases "length nm \<ge> 2")
  case True
  then show ?thesis using tag_growth_4 [of "getTagByName nm" closing] by simp
next
  case short: False
  have "getTagByName nm \<noteq> TAG_tbl"
  proof
    assume t: "getTagByName nm = TAG_tbl"
    have "\<exists>m. tag_lookup tag_names m = TAG_tbl \<and> length m \<le> length nm"
      using t by (auto simp: getTagByName_def Let_def split: if_splits intro: exI [of _ "tl nm"] exI [of _ "butlast nm"] exI [of _ "butlast (tl nm)"])
    then show False using tag_lookup_table short by fastforce
  qed
  then show ?thesis using tag_growth_3 [of "getTagByName nm" closing] by (cases nm) (auto simp: getTagByName_def)
qed

definition hm_growth :: "html \<Rightarrow> nat" where
  "hm_growth h = tag_growth (hm_tag h) (hm_first h = 47)"

definition mem_inv :: "nat \<Rightarrow> byte list \<Rightarrow> html \<Rightarrow> bool" where
  "mem_inv lenSrc src0 h \<longleftrightarrow>
     lenSrc \<le> length src0 \<and> length (hm_src h) = length src0 \<and> drop lenSrc (hm_src h) = drop lenSrc src0 \<and>
     (\<forall>k. hm_pos h \<le> k \<longrightarrow> k < lenSrc \<longrightarrow> hm_src h ! k \<noteq> 38)"

definition out_inv :: "nat \<Rightarrow> html \<Rightarrow> bool" where
  "out_inv p h \<longleftrightarrow>
     hm_out h \<le> p \<and>
     (case hm_type h of
        TYPE_TX \<Rightarrow> True
      | TYPE_T1 \<Rightarrow> hm_out h + 1 + length (hm_name h) \<le> p
      | TYPE_T2 \<Rightarrow> hm_out h + hm_growth h \<le> p + 1
      | _ \<Rightarrow> hm_out h + hm_growth h \<le> p \<and> (hm_copy h \<noteq> 0 \<longrightarrow> hm_tag h \<noteq> TAG_NULL))"

definition html_inv :: "nat \<Rightarrow> byte list \<Rightarrow> html \<Rightarrow> bool" where
  "html_inv lenSrc src0 h \<longleftrightarrow> mem_inv lenSrc src0 h \<and> out_inv (min (hm_pos h) lenSrc) h"

text \<open>Writes below the reading position keep the memory part.\<close>

lemma mem_inv_within:
  assumes "mem_inv lenSrc src0 h" "within m (hm_src h) (hm_src h')" "m \<le> hm_pos h'" "m \<le> lenSrc" "hm_pos h \<le> hm_pos h'"
  shows "mem_inv lenSrc src0 h'"
proof -
  have l: "length (hm_src h') = length (hm_src h)" and d: "drop m (hm_src h') = drop m (hm_src h)"
    using assms(2) by (auto simp: within_def)
  have k: "hm_src h' ! k = hm_src h ! k" if "m \<le> k" "k < length (hm_src h)" for k
  proof -
    have "drop m (hm_src h') ! (k - m) = drop m (hm_src h) ! (k - m)" using d by simp
    then show ?thesis using that l by simp
  qed
  have "drop lenSrc (hm_src h') = drop lenSrc (hm_src h)" using drop_mono [OF d assms(4)] .
  moreover have "hm_src h' ! j \<noteq> 38" if "hm_pos h' \<le> j" "j < lenSrc" for j
    using that assms(1,3,5) k [of j] by (auto simp: mem_inv_def)
  ultimately show ?thesis using assms(1) l unfolding mem_inv_def by simp
qed

lemma out_inv_mono: "out_inv p h \<Longrightarrow> p \<le> q \<Longrightarrow> out_inv q h"
  by (auto simp: out_inv_def split: html_type.splits)

lemma html_invI:
  assumes "mem_inv lenSrc src0 h" "within m (hm_src h) (hm_src h')" "m \<le> hm_pos h'" "m \<le> lenSrc" "hm_pos h \<le> hm_pos h'"
    and "out_inv (min (hm_pos h') lenSrc) h'"
  shows "html_inv lenSrc src0 h'"
  using mem_inv_within [OF assms(1-5)] assms(6) by (simp add: html_inv_def)

lemma html_inv_split: "html_inv lenSrc src0 h \<Longrightarrow> hm_pos h < lenSrc \<Longrightarrow> mem_inv lenSrc src0 h \<and> out_inv (hm_pos h) h"
  by (simp add: html_inv_def)

lemma fold_newline_inv: "html_inv lenSrc src0 h \<Longrightarrow> hm_pos h < lenSrc \<Longrightarrow> html_inv lenSrc src0 (fold_newline h c)"
  by (auto simp: fold_newline_def html_inv_def mem_inv_def out_inv_def hm_growth_def nth_list_update split: html_type.splits)

lemma hm_addTag_grows:
  assumes "hm_addTag h tag closing = Some h'"
  shows "hm_out h' \<le> hm_out h + tag_growth tag closing" "within (hm_out h + tag_growth tag closing) (hm_src h) (hm_src h')"
    "\<exists>src n t. h' = h\<lparr>hm_src := src, hm_out := n, hm_tags := t\<rparr>"
  using assms addTagChar_grows [of "hm_src h" "hm_out h" "hm_tags h" tag closing]
  by (auto simp: hm_addTag_def grows_def split: Option.bind_splits prod.splits)

lemma hm_put_grows:
  assumes "hm_put h b = Some h'"
  shows "\<exists>src. h' = h\<lparr>hm_src := src, hm_out := hm_out h + 1\<rparr>" "within (hm_out h + 1) (hm_src h) (hm_src h')"
  using assms within_wr [of "hm_src h" "hm_out h" b] by (auto simp: hm_put_def split: Option.bind_splits)

lemma html_T1_inv:
  assumes i: "mem_inv lenSrc src0 h" "out_inv (hm_pos h) h" "hm_pos h < lenSrc" "hm_type h = TYPE_T1" and r: "html_T1 h c = Some h'"
  shows "html_inv lenSrc src0 h'"
proof -
  have n: "hm_out h + 1 + length (hm_name h) \<le> hm_pos h" using i(2,4) by (simp add: out_inv_def)
  have g: "tag_growth (getTagByName (hm_name h)) x \<le> length (hm_name h) + 2" for x by (rule growth_name)
  consider (space) "c = 32" | (close) "c = 62" | (other) "c \<noteq> 32" "c \<noteq> 62" by blast
  then show ?thesis
  proof cases
    case space
    then have h': "h' = h\<lparr>hm_pos := hm_pos h + 1, hm_tag := getTagByName (hm_name h), hm_type := TYPE_T2, hm_pre := pre_after (hm_name h) (hm_pre h)\<rparr>"
      using r by (simp add: html_T1_def)
    have "hm_growth h' \<le> length (hm_name h) + 2" using g by (simp add: hm_growth_def h')
    then show ?thesis using n i(3) by (intro html_invI [OF i(1), of 0]) (auto simp: h' out_inv_def)
  next
    case close
    then obtain h1 where t: "hm_addTag (h\<lparr>hm_pos := hm_pos h + 1\<rparr>) (getTagByName (hm_name h)) (hm_first h = 47) = Some h1"
      and h': "h' = h1\<lparr>hm_type := TYPE_TX, hm_pre := pre_after (hm_name h) (hm_pre h)\<rparr>"
      using r by (auto simp: html_T1_def Let_def split: Option.bind_splits)
    have p: "hm_pos h1 = hm_pos h + 1" using hm_addTag_pos [OF t] by simp
    show ?thesis using hm_addTag_grows(1,2) [OF t] g [of "hm_first h = 47"] n i(3) p
      by (intro html_invI [OF i(1), of "hm_out h + tag_growth (getTagByName (hm_name h)) (hm_first h = 47)"]) (auto simp: h' out_inv_def)
  next
    case other
    then have h': "h' = (if length (hm_name h) < TAGNAME_MAXLEN
        then h\<lparr>hm_pos := hm_pos h + 1, hm_name := hm_name h @ [to_lower c], hm_first := (if hm_name h = [] then to_lower c else hm_first h)\<rparr>
        else h\<lparr>hm_pos := hm_pos h + 1, hm_name := 45 # tl (hm_name h), hm_first := 45\<rparr>)"
      using r by (auto simp: html_T1_def Let_def TAGNAME_MAXLEN_def)
    show ?thesis using n i(3,4)
      by (intro html_invI [OF i(1), of 0]) (auto simp: h' out_inv_def TAGNAME_MAXLEN_def)
  qed
qed

lemma html_T2_inv:
  assumes i: "mem_inv lenSrc src0 h" "out_inv (hm_pos h) h" "hm_pos h < lenSrc" "hm_type h = TYPE_T2" and r: "html_T2 h c = Some h'"
  shows "html_inv lenSrc src0 h'"
proof -
  have n: "hm_out h \<le> hm_pos h" "hm_out h + hm_growth h \<le> hm_pos h + 1" using i(2,4) by (simp_all add: out_inv_def)
  consider (close) "c = 62" | (eq) "c = 61" | (other) "c \<noteq> 61" "c \<noteq> 62" by blast
  then show ?thesis
  proof cases
    case close
    then obtain h1 where t: "hm_addTag (h\<lparr>hm_pos := hm_pos h + 1\<rparr>) (hm_tag h) (hm_first h = 47) = Some h1" and h': "h' = h1\<lparr>hm_type := TYPE_TX\<rparr>"
      using r by (auto simp: html_T2_def Let_def split: Option.bind_splits)
    have p: "hm_pos h1 = hm_pos h + 1" using hm_addTag_pos [OF t] by simp
    show ?thesis using hm_addTag_grows(1,2) [OF t] n i(3) p
      by (intro html_invI [OF i(1), of "hm_out h + hm_growth h"]) (auto simp: h' out_inv_def hm_growth_def)
  next
    case eq
    then obtain nm where h': "h' = h\<lparr>hm_pos := hm_pos h + 1, hm_copy := (if nm = [] then 0 else wantAttr (hm_tag h) nm), hm_type := TYPE_EQ\<rparr>"
      using r by (auto simp: html_T2_def Let_def split: Option.bind_splits)
    have w: "wantAttr TAG_NULL nm = 0" by (simp add: wantAttr_def)
    show ?thesis using n i(3) w by (intro html_invI [OF i(1), of 0]) (auto simp: h' out_inv_def hm_growth_def)
  next
    case other
    then have "h' = h\<lparr>hm_pos := hm_pos h + 1\<rparr>" using r by (simp add: html_T2_def)
    then show ?thesis using n i(3,4) by (intro html_invI [OF i(1), of 0]) (auto simp: out_inv_def hm_growth_def)
  qed
qed

end
