(* ===== verification/Html_Claims.thy ===== *)
theory Html_Claims
  imports Html_Place
begin

text \<open>
  The loop of \<open>html2cet\<close>: what it writes stays behind what it has read, and what it makes of plain and of styled
  text.
\<close>

section \<open>The invariant is kept\<close>

lemma hm_addChar_place:
  assumes "mem_inv lenSrc src0 h" "hm_out h \<le> hm_pos h" "hm_pos h < lenSrc"
  shows "\<exists>src skip n. hm_addChar lenSrc h = h\<lparr>hm_src := src, hm_out := n, hm_pos := hm_pos h + skip\<rparr> \<and>
    hm_pos h + skip \<le> lenSrc \<and> 1 \<le> skip \<and> n \<le> hm_out h + skip \<and> within (hm_out h + skip) (hm_src h) src"
proof -
  obtain src n skip where a: "addHtmlCharacter (hm_src h) lenSrc (hm_pos h) (hm_out h) = (src, n, skip)" by (metis prod_cases3)
  have "byte_at (hm_src h) (hm_pos h) \<noteq> 38" using assms(1,3) by (auto simp: mem_inv_def byte_at_def)
  from addHtmlCharacter_place [OF a this assms(2,3)] show ?thesis
    using assms(1) a by (auto simp: mem_inv_def hm_addChar_def)
qed

lemma hm_addChar_inv:
  assumes "mem_inv lenSrc src0 h" "out_inv (hm_pos h) h" "hm_pos h < lenSrc" "hm_type h \<in> {TYPE_TX, TYPE_QN, TYPE_QD, TYPE_QS}"
  shows "html_inv lenSrc src0 (hm_addChar lenSrc h)"
proof -
  have "hm_out h \<le> hm_pos h" using assms(2) by (simp add: out_inv_def)
  from hm_addChar_place [OF assms(1) this assms(3)] obtain src skip n
    where e: "hm_addChar lenSrc h = h\<lparr>hm_src := src, hm_out := n, hm_pos := hm_pos h + skip\<rparr>"
      and p: "hm_pos h + skip \<le> lenSrc" "1 \<le> skip" "n \<le> hm_out h + skip" and w: "within (hm_out h + skip) (hm_src h) src" by blast
  show ?thesis unfolding e
    by (rule html_invI [OF assms(1), of "hm_out h + skip"])
       (use p w assms(2,4) in \<open>auto simp: out_inv_def hm_growth_def\<close>)
qed

lemma end_mark_link_inv:
  assumes "out_inv p h" "hm_type h \<in> {TYPE_QN, TYPE_QD, TYPE_QS}" "end_mark_link h = Some h1"
  shows "\<exists>src n. h1 = h\<lparr>hm_src := src, hm_out := n\<rparr> \<and> n + hm_growth h \<le> p + 1 \<and> n \<le> p \<and> within n (hm_src h) src"
proof (cases "hm_copy h \<noteq> 0 \<and> (hm_copy h \<noteq> 32 \<or> (hm_out h > 0 \<and> rd (hm_src h) (hm_out h - 1) \<noteq> Some 32))")
  case True
  then have t: "hm_put h (hm_copy h) = Some h1" using assms(3) by (simp add: end_mark_link_def)
  have "1 \<le> hm_growth h" using True assms(1,2) by (cases "hm_tag h"; cases "hm_first h = 47") (auto simp: out_inv_def hm_growth_def)
  moreover obtain src where "h1 = h\<lparr>hm_src := src, hm_out := hm_out h + 1\<rparr>" "within (hm_out h + 1) (hm_src h) src"
    using hm_put_grows [OF t] by auto
  ultimately show ?thesis using assms(1,2)
    by (intro exI [of _ src] exI [of _ "hm_out h + 1"]) (auto simp: out_inv_def)
next
  case False
  then have "h1 = h" using assms(3) by (auto simp: end_mark_link_def)
  then show ?thesis using assms(1,2) by (intro exI [of _ "hm_src h"] exI [of _ "hm_out h"]) (auto simp: out_inv_def)
qed

lemma html_quoted_inv:
  assumes i: "mem_inv lenSrc src0 h" "out_inv (hm_pos h) h" "hm_pos h < lenSrc" "hm_type h \<in> {TYPE_QD, TYPE_QS}"
    and r: "html_quoted lenSrc h quote c = Some h'"
  shows "html_inv lenSrc src0 h'"
proof (cases "c = quote")
  case True
  then obtain h1 where e: "end_mark_link h = Some h1" and h': "h' = h1\<lparr>hm_type := TYPE_T2, hm_pos := hm_pos h + 1\<rparr>"
    using r by (auto simp: html_quoted_def split: Option.bind_splits)
  obtain src n where m: "h1 = h\<lparr>hm_src := src, hm_out := n\<rparr>" "n + hm_growth h \<le> hm_pos h + 1" "n \<le> hm_pos h" "within n (hm_src h) src"
    using end_mark_link_inv [OF i(2) _ e] i(4) by auto
  show ?thesis by (rule html_invI [OF i(1), of n]) (use m i(3) in \<open>auto simp: h' out_inv_def hm_growth_def\<close>)
next
  case False
  show ?thesis
  proof (cases "hm_copy h = 0")
    case True
    then have "h' = h\<lparr>hm_pos := hm_pos h + 1\<rparr>" using r False by (simp add: html_quoted_def)
    then show ?thesis using i by (intro html_invI [OF i(1), of 0]) (auto simp: out_inv_def hm_growth_def)
  next
    case copy: False
    then have "h' = hm_addChar lenSrc h" using r False by (simp add: html_quoted_def)
    then show ?thesis using hm_addChar_inv [OF i(1-3)] i(4) by auto
  qed
qed

lemma html_QN_inv:
  assumes i: "mem_inv lenSrc src0 h" "out_inv (hm_pos h) h" "hm_pos h < lenSrc" "hm_type h = TYPE_QN"
    and r: "html_QN lenSrc h c = Some h'"
  shows "html_inv lenSrc src0 h'"
proof (cases "c = 32 \<or> c = 62")
  case True
  then obtain h1 where e: "end_mark_link h = Some h1" and h': "h' = h1\<lparr>hm_type := TYPE_T2\<rparr>"
    using r by (auto simp: html_QN_def split: Option.bind_splits)
  obtain src n where m: "h1 = h\<lparr>hm_src := src, hm_out := n\<rparr>" "n + hm_growth h \<le> hm_pos h + 1" "n \<le> hm_pos h" "within n (hm_src h) src"
    using end_mark_link_inv [OF i(2) _ e] i(4) by auto
  show ?thesis by (rule html_invI [OF i(1), of n]) (use m i(3) in \<open>auto simp: h' out_inv_def hm_growth_def\<close>)
next
  case False
  show ?thesis
  proof (cases "hm_copy h = 0")
    case True
    then have "h' = h\<lparr>hm_pos := hm_pos h + 1\<rparr>" using r False by (auto simp: html_QN_def)
    then show ?thesis using i by (intro html_invI [OF i(1), of 0]) (auto simp: out_inv_def hm_growth_def)
  next
    case copy: False
    then have "h' = hm_addChar lenSrc h" using r False by (auto simp: html_QN_def)
    then show ?thesis using hm_addChar_inv [OF i(1-3)] i(4) by auto
  qed
qed

lemma link_start_skip: "link_start s copy = Some (skip, copy') \<Longrightarrow> copy' \<noteq> 0 \<Longrightarrow> skip \<ge> 4"
  by (auto simp: link_start_def split: Option.bind_splits if_splits)

lemma html_EQ_inv:
  assumes i: "mem_inv lenSrc src0 h" "out_inv (hm_pos h) h" "hm_pos h < lenSrc" "hm_type h = TYPE_EQ"
    and r: "html_EQ h c = Some h'"
  shows "html_inv lenSrc src0 h'"
proof -
  have n: "hm_out h + hm_growth h \<le> hm_pos h" "hm_copy h \<noteq> 0 \<longrightarrow> hm_tag h \<noteq> TAG_NULL" using i(2,4) by (simp_all add: out_inv_def)
  show ?thesis
  proof (cases "c = 32")
    case True
    then have "h' = h\<lparr>hm_pos := hm_pos h + 1\<rparr>" using r by (simp add: html_EQ_def)
    then show ?thesis using i by (intro html_invI [OF i(1), of 0]) (auto simp: out_inv_def hm_growth_def)
  next
    case c: False
    define q where "q = (if c = 39 \<or> c = 34 then hm_pos h + 1 else hm_pos h)"
    define h1 where "h1 = h\<lparr>hm_pos := q, hm_type := (if c = 39 then TYPE_QS else if c = 34 then TYPE_QD else TYPE_QN)\<rparr>"
    have q: "hm_pos h \<le> q" by (simp add: q_def)
    have ty: "hm_type h1 \<in> {TYPE_QS, TYPE_QD, TYPE_QN}" by (simp add: h1_def)
    have keep: "html_inv lenSrc src0 (h1\<lparr>hm_pos := q + k, hm_copy := b\<rparr>)" if "b \<noteq> 0 \<longrightarrow> hm_tag h \<noteq> TAG_NULL" for k b
      using n i(3) that q by (intro html_invI [OF i(1), of 0]) (auto simp: h1_def out_inv_def hm_growth_def)
    show ?thesis
    proof (cases "hm_copy h = 0")
      case True
      then have "h' = h1" using r c unfolding html_EQ_def h1_def q_def by (simp add: Let_def)
      moreover have "h1\<lparr>hm_pos := q + 0, hm_copy := 0\<rparr> = h1" using True by (simp add: h1_def)
      ultimately show ?thesis using keep [of 0 0] by simp
    next
      case False
      obtain skip b where l: "link_start (drop q (hm_src h)) (hm_copy h) = Some (skip, b)"
        using r c False unfolding html_EQ_def q_def by (auto simp: Let_def split: Option.bind_splits)
      define h2 where "h2 = h1\<lparr>hm_pos := q + skip, hm_copy := b\<rparr>"
      have e: "(if b = 0 then Some h2 else if b = 32 then (if needs_space (hm_src h2) (hm_out h2) then hm_put h2 32 else Some h2)
          else hm_put (h2\<lparr>hm_out := back_byte 32 (hm_src h2) (hm_out h2)\<rparr>) b) = Some h'"
      proof -
        have "hm_copy h1 \<noteq> 0" "link_start (drop q (hm_src h1)) (hm_copy h1) = Some (skip, b)" using False l by (simp_all add: h1_def)
        then show ?thesis using r unfolding html_EQ_def Let_def q_def [symmetric] h1_def [symmetric] h2_def
          by (simp only: c if_False bind.simps prod.case)
      qed
      have k2: "html_inv lenSrc src0 h2" unfolding h2_def by (rule keep) (use n False in simp)
      consider "h' = h2" | (put) m b' where "b \<noteq> 0" "m \<le> hm_out h2" "hm_put (h2\<lparr>hm_out := m\<rparr>) b' = Some h'"
      proof (cases "b = 0 \<or> b = 32")
        case True
        show ?thesis
        proof (cases "b = 32 \<and> needs_space (hm_src h2) (hm_out h2)")
          case put: True
          then have "hm_put (h2\<lparr>hm_out := hm_out h2\<rparr>) 32 = Some h'" using e by simp
          then show ?thesis using that(2) [of "hm_out h2" 32] put by simp
        next
          case no: False
          then have "h' = h2" using e True by (auto split: if_splits)
          then show ?thesis by (rule that(1))
        qed
      next
        case False
        then show ?thesis using e that(2) [of "back_byte 32 (hm_src h2) (hm_out h2)" b] back_le(1) by auto
      qed
      then show ?thesis
      proof cases
        case 1
        then show ?thesis using k2 by simp
      next
        case put
        have s: "skip \<ge> 4" by (rule link_start_skip [OF l put(1)])
        obtain src where h': "h' = h2\<lparr>hm_src := src, hm_out := m + 1\<rparr>" and w: "within (m + 1) (hm_src h2) src"
          using hm_put_grows [OF put(3)] by auto
        have o: "m \<le> hm_out h" using put(2) by (simp add: h2_def h1_def)
        have "mem_inv lenSrc src0 h2" using k2 by (simp add: html_inv_def)
        then show ?thesis
          by (rule html_invI [of _ _ _ "m + 1"])
             (use w o n s q i(3) False in \<open>auto simp: h' h2_def h1_def out_inv_def hm_growth_def\<close>)
      qed
    qed
  qed
qed

lemma html_TX_inv:
  assumes i: "mem_inv lenSrc src0 h" "out_inv (hm_pos h) h" "hm_pos h < lenSrc" "hm_type h = TYPE_TX"
    and r: "html_TX lenSrc h c = Some (stop, h')"
  shows "html_inv lenSrc src0 h'"
proof -
  have n: "hm_out h \<le> hm_pos h" using i(2) by (simp add: out_inv_def)
  have keep: "html_inv lenSrc src0 (h\<lparr>hm_pos := hm_pos h + k\<rparr>)" for k
    using n i(3,4) by (intro html_invI [OF i(1), of 0]) (auto simp: out_inv_def)
  have t1: "html_inv lenSrc src0 (h\<lparr>hm_name := [], hm_first := 45, hm_type := TYPE_T1, hm_pos := hm_pos h + 1\<rparr>)"
    using n i(3) by (intro html_invI [OF i(1), of 0]) (auto simp: out_inv_def)
  consider (tag) "c = 60" | (line) "c \<noteq> 60" "c = 10 \<and> hm_pre h" | (char) "c \<noteq> 60" "\<not> (c = 10 \<and> hm_pre h)" by blast
  then show ?thesis
  proof cases
    case tag
    then consider "h' = h" | k where "h' = h\<lparr>hm_pos := hm_pos h + (5 + k)\<rparr>"
      | "h' = h\<lparr>hm_name := [], hm_first := 45, hm_type := TYPE_T1, hm_pos := hm_pos h + 1\<rparr>"
      using r by (auto simp: html_TX_def Let_def add.assoc split: Option.bind_splits if_splits option.splits)
    then show ?thesis using keep [of 0] keep t1 by cases (simp_all del: add_Suc_right)
  next
    case line
    then obtain h1 where t: "hm_addTag h TAG_br False = Some h1" and h': "h' = h1\<lparr>hm_pos := hm_pos h + 1\<rparr>"
      using r by (auto simp: html_TX_def Let_def split: Option.bind_splits)
    have g: "addTagChar src m t TAG_br False = Some x \<Longrightarrow> grows 1 src m x" for src m t x
      using addLbr_grows by (auto simp: addTagChar.simps Let_def split: Option.bind_splits)
    have "hm_out h1 \<le> hm_out h + 1 \<and> within (hm_out h + 1) (hm_src h) (hm_src h1)"
      using t g by (auto simp: hm_addTag_def grows_def split: Option.bind_splits prod.splits)
    moreover obtain src m u where "h1 = h\<lparr>hm_src := src, hm_out := m, hm_tags := u\<rparr>" using hm_addTag_grows(3) [OF t] by blast
    ultimately show ?thesis using n i(3,4) by (intro html_invI [OF i(1), of "hm_out h + 1"]) (auto simp: h' out_inv_def)
  next
    case char
    then have "h' = hm_addChar lenSrc h" using r by (auto simp: html_TX_def Let_def)
    then show ?thesis using hm_addChar_inv [OF i(1-3)] i(4) by simp
  qed
qed

lemma html_step_inv:
  assumes "html_inv lenSrc src0 h" "hm_pos h < lenSrc" "html_step lenSrc h = Some (stop, h')"
  shows "html_inv lenSrc src0 h'"
proof -
  obtain c0 c where c: "rd (hm_src h) (hm_pos h) = Some c0" "rd (hm_src (fold_newline h c0)) (hm_pos (fold_newline h c0)) = Some c"
    using assms(3) by (auto simp: html_step_def Let_def split: Option.bind_splits)
  define g where "g = fold_newline h c0"
  have p: "hm_pos g < lenSrc" using assms(2) by (simp add: g_def fold_newline_pos)
  have i: "mem_inv lenSrc src0 g" "out_inv (hm_pos g) g"
    using html_inv_split [OF fold_newline_inv [OF assms(1,2)]] assms(2) by (simp_all add: g_def fold_newline_pos)
  have s: "(case hm_type g of
         TYPE_T1 \<Rightarrow> map_option (Pair False) (html_T1 g c) | TYPE_T2 \<Rightarrow> map_option (Pair False) (html_T2 g c)
       | TYPE_EQ \<Rightarrow> map_option (Pair False) (html_EQ g c) | TYPE_QD \<Rightarrow> map_option (Pair False) (html_quoted lenSrc g 34 c)
       | TYPE_QS \<Rightarrow> map_option (Pair False) (html_quoted lenSrc g 39 c) | TYPE_QN \<Rightarrow> map_option (Pair False) (html_QN lenSrc g c)
       | TYPE_TX \<Rightarrow> html_TX lenSrc g c) = Some (stop, h')"
    using assms(3) c unfolding html_step_def Let_def g_def by (simp only: bind.simps)
  show ?thesis
    using s html_T1_inv [OF i p] html_T2_inv [OF i p] html_EQ_inv [OF i p] html_QN_inv [OF i p] html_TX_inv [OF i p]
      html_quoted_inv [OF i p]
    by (cases "hm_type g") auto
qed

lemma html_loop_inv:
  "html_inv lenSrc src0 h \<Longrightarrow> html_loop lenSrc h = Some (stop, h') \<Longrightarrow> html_inv lenSrc src0 h'"
proof (induction lenSrc h rule: html_loop.induct)
  case (1 lenSrc h)
  show ?case
  proof (cases "hm_pos h < lenSrc")
    case True
    then obtain b h1 where s: "html_step lenSrc h = Some (b, h1)"
      using 1(3) by (subst (asm) html_loop.simps) (auto split: option.splits)
    have i: "html_inv lenSrc src0 h1" by (rule html_step_inv [OF 1(2) True s])
    show ?thesis
    proof (cases b)
      case False
      then have "html_loop lenSrc h1 = Some (stop, h')" using 1(3) True s by (subst (asm) html_loop.simps) simp
      then show ?thesis using 1(1) [OF True s refl False i] by simp
    next
      case b: True
      then show ?thesis using 1(3) True s i by (subst (asm) html_loop.simps) simp
    qed
  next
    case False
    then show ?thesis using 1(2,3) by (subst (asm) html_loop.simps) simp
  qed
qed

lemma cut_lbr_le: "cut_lbr src n \<le> n"
  by (induction src n rule: cut_lbr.induct) auto

lemma html2cet_place:
  assumes "38 \<notin> set doc" "html2cet tags (doc @ behind) (length doc) = Some (mem, n, tags')"
  shows "n \<le> length doc" "length mem = length (doc @ behind)" "drop (length doc) mem = behind"
proof -
  define h0 where "h0 = \<lparr>hm_src = doc @ behind, hm_out = 0, hm_tags = tags, hm_pos = 0, hm_type = TYPE_TX, hm_tag = TAG_NULL,
         hm_first = 0, hm_name = [], hm_copy = 0, hm_pre = False\<rparr>"
  have "(doc @ behind) ! k \<noteq> 38" if "k < length doc" for k
    using assms(1) that nth_mem [OF that] by (metis nth_append)
  then have i: "html_inv (length doc) (doc @ behind) h0" by (simp add: h0_def html_inv_def mem_inv_def out_inv_def)
  obtain stop h where r: "html_loop (length doc) h0 = Some (stop, h)" "mem = hm_src h"
      "n = (if stop then hm_out h else cut_lbr (hm_src h) (hm_out h))"
    using assms(2) by (auto simp: html2cet_def h0_def split: Option.bind_splits)
  from html_loop_inv [OF i r(1)] cut_lbr_le [of "hm_src h" "hm_out h"] r
  show "n \<le> length doc" "length mem = length (doc @ behind)" "drop (length doc) mem = behind"
    by (auto simp: html_inv_def mem_inv_def out_inv_def)
qed

section \<open>The bounds of a conversion\<close>

text \<open>HTML is converted in place.  When the text holds no reference (\<open>&\<close>) and the conversion ends within the memory
  (\<open>html2cet\<close> has a result: it reads nothing before or behind the memory), the result is not longer than the text, and
  nothing behind the text has been overwritten.\<close>

lemma html_in_place:
  assumes "38 \<notin> set doc" "html2cet tags (doc @ behind) (length doc) = Some (mem, n, tags')"
  shows "n \<le> length doc \<and> length mem = length (doc @ behind) \<and> drop (length doc) mem = behind"
  using html2cet_place [OF assms] by blast

lemma html_in_place_demo:
  "\<exists>mem t. html2cet 0 (str ''<h1>a</h1>b'' @ [0, 7]) 11 = Some (mem, 5, t) \<and> drop 11 mem = [0, 7]"
proof -
  have l: "length (str ''<h1>a</h1>b'') = 11" "38 \<notin> set (str ''<h1>a</h1>b'')" by code_simp+
  have "(case html2cet 0 (str ''<h1>a</h1>b'' @ [0, 7]) 11 of Some (mem, n, t) \<Rightarrow> n = 5 | None \<Rightarrow> False)" by code_simp
  then obtain mem t where m: "html2cet 0 (str ''<h1>a</h1>b'' @ [0, 7]) 11 = Some (mem, 5, t)" by (auto split: option.splits)
  then have "drop 11 mem = [0, 7]" using html_in_place [OF l(2), of 0 "[0, 7]" mem 5 t, unfolded l(1)] by blast
  with m show ?thesis by blast
qed

text \<open>The tags left open by one text are still open in the next, where a closing tag is searched for its
  opening before the beginning of the buffer.\<close>

lemma open_tag_outlives:
  "\<exists>mem. html2cet 0 (str ''<b>'' @ [0]) 3 = Some (mem, 1, tag_bit 0x16) \<and> html2cet (tag_bit 0x16) (str ''</b>'' @ [0]) 4 = None"
proof -
  have "(case html2cet 0 (str ''<b>'' @ [0]) 3 of Some (mem, n, t) \<Rightarrow> n = 1 \<and> t = tag_bit 0x16 | None \<Rightarrow> False)" by code_simp
  moreover have "html2cet (tag_bit 0x16) (str ''</b>'' @ [0]) 4 = None" by code_simp
  ultimately show ?thesis by (auto split: option.splits)
qed

end
