(* ===== verification/Html_Words.thy ===== *)
theory Html_Words
  imports Html_Cet
begin

text \<open>
  What \<open>html2cet\<close> makes of a text of words, of which any may be styled by an element: the words with single spaces
  in between, each styled word between two marks.
\<close>

section \<open>Styled words\<close>

text \<open>The inline elements; \<^verbatim>\<open>pre\<close> also changes the treatment of line breaks and is left out.\<close>

definition style_names :: "string list" where
  "style_names = [''b'', ''strong'', ''i'', ''em'', ''var'', ''code'', ''kbd'', ''samp'', ''textarea'', ''small'', ''big'', ''s'', ''del'',
     ''strike'', ''sub'', ''sup'', ''u'']"

definition style_mark :: "string \<Rightarrow> byte" where
  "style_mark nm = tag2char (getTagByName (str nm))"

definition word_ok :: "byte list \<Rightarrow> bool" where
  "word_ok w \<longleftrightarrow> w \<noteq> [] \<and> list_all (\<lambda>c. 33 \<le> c \<and> c < 127 \<and> c \<noteq> 60 \<and> c \<noteq> 38) w"

type_synonym styled_word = "string option \<times> byte list"

definition run_ok :: "styled_word \<Rightarrow> bool" where
  "run_ok r \<longleftrightarrow> word_ok (snd r) \<and> (case fst r of None \<Rightarrow> True | Some nm \<Rightarrow> nm \<in> set style_names)"

definition html_word :: "styled_word \<Rightarrow> byte list" where
  "html_word r = (case fst r of None \<Rightarrow> snd r | Some nm \<Rightarrow> 60 # str nm @ 62 # snd r @ 60 # 47 # str nm @ [62])"

definition cet_word :: "styled_word \<Rightarrow> byte list" where
  "cet_word r = (case fst r of None \<Rightarrow> snd r | Some nm \<Rightarrow> style_mark nm # snd r @ [style_mark nm])"

fun join_words :: "byte list list \<Rightarrow> byte list" where
  "join_words [] = []"
| "join_words [w] = w"
| "join_words (w # v # ws) = w @ 32 # join_words (v # ws)"

section \<open>States between characters\<close>

text \<open>\<open>hst h ty out rest\<close>: the output so far and the memory not yet read.\<close>

definition hst :: "html \<Rightarrow> html_type \<Rightarrow> byte list \<Rightarrow> byte list \<Rightarrow> bool" where
  "hst h ty out rest \<longleftrightarrow>
     hm_type h = ty \<and> \<not> hm_pre h \<and> hm_out h \<le> hm_pos h \<and> hm_pos h \<le> length (hm_src h) \<and>
     take (hm_out h) (hm_src h) = out \<and> drop (hm_pos h) (hm_src h) = rest"

lemma drop_tail: "drop i s = c # r \<Longrightarrow> drop (Suc i) s = r"
  by (metis drop_Suc list.sel(3) tl_drop)

lemma hst_len: "hst h ty out rest \<Longrightarrow> length out = hm_out h \<and> length rest = length (hm_src h) - hm_pos h"
  by (auto simp: hst_def)

lemma hst_rd: "hst h ty out (c # rest) \<Longrightarrow> rd (hm_src h) (hm_pos h) = Some c \<and> hm_pos h < length (hm_src h)"
  unfolding hst_def rd_def by (metis drop_eq_Nil hd_drop_conv_nth leI list.distinct(1) list.sel(1))

lemma hst_last: "hst h ty (out @ [c]) rest \<Longrightarrow> hm_out h = Suc (length out) \<and> hm_src h ! length out = c \<and> length out < length (hm_src h)"
proof -
  assume s: "hst h ty (out @ [c]) rest"
  have n: "hm_out h = Suc (length out)" using hst_len [OF s] by simp
  have l: "length out < length (hm_src h)" using s n by (auto simp: hst_def)
  have "take (Suc (length out)) (hm_src h) ! length out = (out @ [c]) ! length out" using s n by (simp add: hst_def)
  then show ?thesis using n l by simp
qed

text \<open>The output grows while the reading position goes on.\<close>

lemma hst_store:
  assumes "hst h ty out (pre @ rest)" "hm_out h' = hm_out h + length bs" "hm_pos h' = hm_pos h + length pre" "length bs \<le> length pre"
    "hm_src h' = store_at (hm_src h) (hm_out h) bs" "hm_type h' = ty'" "\<not> hm_pre h'"
  shows "hst h' ty' (out @ bs) rest"
proof -
  have s: "hm_out h \<le> hm_pos h" "hm_pos h + length pre \<le> length (hm_src h)" "take (hm_out h) (hm_src h) = out"
    "drop (hm_pos h) (hm_src h) = pre @ rest"
    using assms(1) hst_len [OF assms(1)] by (auto simp: hst_def)
  have d: "drop (hm_pos h + length pre) (hm_src h) = rest" using s(4) by (metis append_eq_conv_conj drop_drop add.commute)
  have l: "length (take (hm_out h) (hm_src h) @ bs) = hm_out h + length bs" using s(1,2) by simp
  define x where "x = store_at (hm_src h) (hm_out h) bs"
  have "drop (hm_pos h + length pre) x = rest" using d s(1,2) assms(4) by (simp add: x_def store_at_def)
  moreover have "take (hm_out h + length bs) x = out @ bs" using s(3) l by (simp add: x_def store_at_def)
  moreover have "hm_pos h + length pre \<le> length x" using s(1,2) assms(4) by (simp add: x_def store_at_def)
  moreover have "hm_out h + length bs \<le> hm_pos h + length pre" using s(1) assms(4) by simp
  ultimately show ?thesis using assms(2,3,5-7) unfolding x_def [symmetric] hst_def by simp
qed

lemma wr_store: "wr src n b = Some src' \<Longrightarrow> src' = store_at src n [b]"
  by (auto simp: wr_def store_at_def upd_conv_take_nth_drop split: if_splits)

lemma wr_hst: "hst h ty out (c # rest) \<Longrightarrow> wr (hm_src h) (hm_out h) b = Some (store_at (hm_src h) (hm_out h) [b])"
  using hst_rd [of h ty out c rest] by (auto simp: hst_def wr_def store_at_def upd_conv_take_nth_drop)

section \<open>Characters of words and spaces\<close>

definition runs :: "nat \<Rightarrow> html \<Rightarrow> html \<Rightarrow> bool" where
  "runs lenSrc h h' \<longleftrightarrow> html_loop lenSrc h = html_loop lenSrc h' \<and> hm_tags h' = hm_tags h"

lemma runs_trans: "runs lenSrc a b \<Longrightarrow> runs lenSrc b c \<Longrightarrow> runs lenSrc a c"
  by (simp add: runs_def)

lemma loop_step: "hm_pos h < lenSrc \<Longrightarrow> html_step lenSrc h = Some (False, h') \<Longrightarrow> html_loop lenSrc h = html_loop lenSrc h'"
  by (subst html_loop.simps) simp

lemma ascii_char:
  assumes "32 \<le> c" "c < 127" "c \<noteq> 38" "lenSrc > 0" "src \<noteq> []" "hd src = c"
  shows "getHtmlChar src lenSrc = (1, [c])"
proof -
  have b: "byte_at src 0 = c" using assms(5,6) by (cases src) (simp_all add: byte_at_def)
  have d: "decodeHtmlRef src lenSrc = (0, [])" using assms(3) b by (simp add: decodeHtmlRef_def)
  have "text_ascii c" using assms(1,2) by (auto simp: text_ascii_def word_le_nat_alt word_less_nat_alt)
  then have "validUtf8 c r False = 1" for r by (simp add: validUtf8_def)
  then show ?thesis using b d assms(5,6) by (cases src) (simp_all add: getHtmlChar_def)
qed

lemma one_byte: "charSpace [c] = (if c = 32 then 1 else 0)" "charInvisible [c] = 0"
  by (simp_all add: charSpace_def charInvisible_def)

lemma word_char:
  assumes "33 \<le> c" "c < 127" "c \<noteq> 60" "c \<noteq> 38" "hst h TYPE_TX out (c # rest)" "hm_pos h < lenSrc"
  shows "\<exists>h'. runs lenSrc h h' \<and> hst h' TYPE_TX (out @ [c]) rest \<and> hm_pos h' = hm_pos h + 1"
proof -
  have c: "32 \<le> c" "c \<noteq> 10" "c \<noteq> 32" "\<not> c < 32" "c \<noteq> 127" using assms(1,2) by (auto simp: word_le_nat_alt word_less_nat_alt)
  have r: "rd (hm_src h) (hm_pos h) = Some c" "hm_pos h < length (hm_src h)" "drop (hm_pos h) (hm_src h) = c # rest" "\<not> hm_pre h" "hm_type h = TYPE_TX"
    using hst_rd [OF assms(5)] assms(5) by (auto simp: hst_def)
  have g: "getHtmlChar (drop (hm_pos h) (hm_src h)) (lenSrc - hm_pos h) = (1, [c])"
    by (rule ascii_char) (use c assms r in auto)
  have a: "addHtmlCharacter (hm_src h) lenSrc (hm_pos h) (hm_out h) = (store_at (hm_src h) (hm_out h) [c], Suc (hm_out h), 1)"
    using c by (subst addHtmlCharacter.simps) (simp add: g one_byte Let_def)
  have s: "html_step lenSrc h = Some (False, hm_addChar lenSrc h)"
    using r c assms(3) by (simp add: html_step_def fold_newline_def html_TX_def Let_def)
  have h': "hm_addChar lenSrc h = h\<lparr>hm_src := store_at (hm_src h) (hm_out h) [c], hm_out := Suc (hm_out h), hm_pos := hm_pos h + 1\<rparr>"
    by (simp add: hm_addChar_def a)
  show ?thesis
  proof (intro exI conjI)
    show "runs lenSrc h (hm_addChar lenSrc h)" unfolding runs_def using loop_step [OF assms(6) s] by (simp add: h')
    show "hst (hm_addChar lenSrc h) TYPE_TX (out @ [c]) rest"
      by (rule hst_store [where pre = "[c]" and h = h and ty = TYPE_TX]) (use assms(5) r in \<open>simp_all add: h'\<close>)
  qed (simp add: h')
qed

lemma word_run:
  "list_all (\<lambda>c. 33 \<le> c \<and> c < 127 \<and> c \<noteq> 60 \<and> c \<noteq> 38) w \<Longrightarrow> hst h TYPE_TX out (w @ rest) \<Longrightarrow> hm_pos h + length w \<le> lenSrc \<Longrightarrow>
   \<exists>h'. runs lenSrc h h' \<and> hst h' TYPE_TX (out @ w) rest \<and> hm_pos h' = hm_pos h + length w"
proof (induction w arbitrary: h out)
  case Nil
  then show ?case by (intro exI [of _ h]) (simp add: runs_def)
next
  case (Cons c w)
  then obtain h1 where 1: "runs lenSrc h h1" "hst h1 TYPE_TX (out @ [c]) (w @ rest)" "hm_pos h1 = hm_pos h + 1"
    using word_char [of c h out "w @ rest" lenSrc] by auto
  obtain h2 where "runs lenSrc h1 h2" "hst h2 TYPE_TX ((out @ [c]) @ w) rest" "hm_pos h2 = hm_pos h1 + length w"
    using Cons.IH [OF _ 1(2)] Cons.prems 1(3) by auto
  then show ?case using 1(1,3) runs_trans by fastforce
qed

text \<open>A space is kept behind a word, also when the word has ended with a mark.\<close>

lemma prevChar_mark:
  assumes "33 \<le> c" "c < 127" "m = [] \<or> (\<exists>x. m = [x] \<and> is_style x)" "hst h ty (out @ c # m) rest"
  shows "prevChar (hm_src h) k (hm_out h) = Some [c]"
proof -
  have vis: "cet_content c" using assms(1,2) by (auto simp: cet_content_def word_le_nat_alt word_less_nat_alt)
  have n: "hm_out h = length out + 1 + length m" "length out + 1 + length m \<le> length (hm_src h)"
    using hst_len [OF assms(4)] assms(4) by (auto simp: hst_def)
  have t: "take (hm_out h) (hm_src h) ! j = (out @ c # m) ! j" for j using assms(4) by (simp add: hst_def)
  have b: "byte_at (hm_src h) (length out) = c" using t [of "length out"] n by (simp add: byte_at_def)
  show ?thesis
  proof (cases m)
    case Nil
    then show ?thesis using n b vis by (simp add: Let_def)
  next
    case (Cons x xs)
    then have x: "m = [x]" "is_style x" using assms(3) by auto
    have bx: "byte_at (hm_src h) (Suc (length out)) = x" using t [of "Suc (length out)"] n x(1) by (simp add: byte_at_def nth_append)
    have nv: "\<not> cet_content x" "\<not> 127 < x" using x(2) by (auto simp: is_style_def cet_content_def word_le_nat_alt word_less_nat_alt)
    show ?thesis using n x(1) b bx vis nv by (simp add: Let_def)
  qed
qed

lemma space_char:
  assumes "33 \<le> c" "c < 127" "m = [] \<or> (\<exists>x. m = [x] \<and> is_style x)" "hst h TYPE_TX (out @ c # m) (32 # rest)" "hm_pos h < lenSrc"
  shows "\<exists>h'. runs lenSrc h h' \<and> hst h' TYPE_TX (out @ c # m @ [32]) rest \<and> hm_pos h' = hm_pos h + 1"
proof -
  have c: "c \<noteq> 32" "32 < c" "c \<noteq> 127" using assms(1,2) by (auto simp: word_le_nat_alt word_less_nat_alt)
  have r: "rd (hm_src h) (hm_pos h) = Some 32" "hm_pos h < length (hm_src h)" "drop (hm_pos h) (hm_src h) = 32 # rest" "\<not> hm_pre h" "hm_type h = TYPE_TX"
    using hst_rd [OF assms(4)] assms(4) by (auto simp: hst_def)
  have g: "getHtmlChar (drop (hm_pos h) (hm_src h)) (lenSrc - hm_pos h) = (1, [32])"
    by (rule ascii_char) (use assms r in auto)
  have a: "addHtmlCharacter (hm_src h) lenSrc (hm_pos h) (hm_out h) = (store_at (hm_src h) (hm_out h) [32], Suc (hm_out h), 1)"
    using c prevChar_mark [OF assms(1-4)] by (subst addHtmlCharacter.simps) (simp add: g one_byte Let_def prev_bytes_def)
  have s: "html_step lenSrc h = Some (False, hm_addChar lenSrc h)"
    using r by (simp add: html_step_def fold_newline_def html_TX_def Let_def)
  have h': "hm_addChar lenSrc h = h\<lparr>hm_src := store_at (hm_src h) (hm_out h) [32], hm_out := Suc (hm_out h), hm_pos := hm_pos h + 1\<rparr>"
    by (simp add: hm_addChar_def a)
  show ?thesis
  proof (intro exI conjI)
    show "runs lenSrc h (hm_addChar lenSrc h)" unfolding runs_def using loop_step [OF assms(5) s] by (simp add: h')
    have "hst (hm_addChar lenSrc h) TYPE_TX ((out @ c # m) @ [32]) rest"
      by (rule hst_store [where pre = "[32]" and h = h and ty = TYPE_TX]) (use assms(4) r in \<open>simp_all add: h'\<close>)
    then show "hst (hm_addChar lenSrc h) TYPE_TX (out @ c # m @ [32]) rest" by simp
  qed (simp add: h')
qed

section \<open>Tags\<close>

lemma memeq_anycase_append: "memeq_anycase a b n = Some False \<Longrightarrow> memeq_anycase (a @ r) b n = Some False"
  by (induction a b n rule: memeq_anycase.induct) (auto split: if_splits)

definition style_ok :: "string \<Rightarrow> bool" where
  "style_ok nm \<longleftrightarrow>
     memeq_anycase (str nm @ [62]) (str ''style'') 5 = Some False \<and> memeq_anycase (str nm @ [62]) (str ''!--'') 3 = Some False \<and>
     map to_lower (str nm) = str nm \<and> list_all (\<lambda>c. c \<noteq> 32 \<and> c \<noteq> 62 \<and> c \<noteq> 10) (str nm) \<and> nm \<noteq> [] \<and> length nm \<le> 10 \<and> hd (str nm) \<noteq> 47 \<and>
     str nm \<noteq> str ''pre'' \<and> is_style (style_mark nm) \<and> getTagByName (47 # str nm) = getTagByName (str nm) \<and> getTagByName (str nm) \<noteq> TAG_hdr"

text \<open>The names are looked up as strings.\<close>

lemma str_inj: "str a = str b \<longleftrightarrow> a = b"
proof -
  have "inj (of_char :: char \<Rightarrow> byte)"
  proof (rule injI)
    fix x y :: char assume e: "(of_char x :: byte) = of_char y"
    have w: "(of_char z :: byte) = of_nat (of_char z)" for z :: char by (rule of_nat_of_char [symmetric])
    have "unat (of_char z :: byte) = of_char z" for z :: char
    proof -
      have "(of_char z :: nat) < 2 ^ 8" by simp
      then show ?thesis unfolding w by (simp only: unsigned_of_nat) (simp add: take_bit_nat_eq_self)
    qed
    then have "(of_char x :: nat) = of_char y" using e by metis
    then show "x = y" by simp
  qed
  then show ?thesis by (simp add: str_def)
qed

definition tag_of :: "string \<Rightarrow> html_tag" where
  "tag_of s = (case map_of tag_names s of None \<Rightarrow> TAG_NULL | Some t \<Rightarrow> t)"

lemma tag_lookup_str: "tag_lookup ts (str s) = (case map_of ts s of None \<Rightarrow> TAG_NULL | Some t \<Rightarrow> t)"
  by (induction ts) (auto simp: str_inj)

lemma getTagByName_str:
  assumes "s \<noteq> []" "hd (str s) \<noteq> 47" "last (str s) \<noteq> 47"
  shows "getTagByName (str s) = tag_of s" "getTagByName (47 # str s) = tag_of s"
proof -
  have n: "str s \<noteq> []" using assms(1) by (simp add: str_def)
  then show "getTagByName (str s) = tag_of s" "getTagByName (47 # str s) = tag_of s"
    using assms(2,3) by (simp_all add: getTagByName_def tag_of_def tag_lookup_str Let_def)
qed

definition style_tag_ok :: "string \<Rightarrow> bool" where
  "style_tag_ok nm \<longleftrightarrow> is_style (tag2char (tag_of nm)) \<and> tag_of nm \<noteq> TAG_hdr \<and> nm \<noteq> ''pre''"

definition style_text_ok :: "string \<Rightarrow> bool" where
  "style_text_ok nm \<longleftrightarrow>
     memeq_anycase (str nm @ [62]) (str ''style'') 5 = Some False \<and> memeq_anycase (str nm @ [62]) (str ''!--'') 3 = Some False \<and>
     map to_lower (str nm) = str nm \<and> list_all (\<lambda>c. c \<noteq> 32 \<and> c \<noteq> 62 \<and> c \<noteq> 10) (str nm) \<and> nm \<noteq> [] \<and> length nm \<le> 10 \<and>
     hd (str nm) \<noteq> 47 \<and> last (str nm) \<noteq> 47"

lemma style_tags_ok: "list_all style_tag_ok style_names"
  by code_simp

lemma style_texts_ok: "list_all style_text_ok style_names"
  by code_simp

lemma styles_ok: "list_all style_ok style_names"
proof -
  have "style_ok nm" if "style_tag_ok nm" "style_text_ok nm" for nm
    using that getTagByName_str [of nm] by (auto simp: style_ok_def style_tag_ok_def style_text_ok_def style_mark_def str_inj)
  then show ?thesis using style_tags_ok style_texts_ok by (simp add: list_all_iff)
qed

lemma style_okD: "nm \<in> set style_names \<Longrightarrow> style_ok nm"
  using styles_ok by (simp add: list_all_iff)

lemma tag_start:
  assumes "hst h TYPE_TX out (60 # nm @ 62 # rest)" "hm_pos h < lenSrc"
    and "memeq_anycase (nm @ [62]) (str ''style'') 5 = Some False" "memeq_anycase (nm @ [62]) (str ''!--'') 3 = Some False"
  shows "\<exists>h'. runs lenSrc h h' \<and> hst h' TYPE_T1 out (nm @ 62 # rest) \<and> hm_pos h' = hm_pos h + 1 \<and> hm_name h' = [] \<and> hm_first h' = 45"
proof -
  have r: "rd (hm_src h) (hm_pos h) = Some 60" "drop (hm_pos h) (hm_src h) = 60 # nm @ 62 # rest" "\<not> hm_pre h" "hm_type h = TYPE_TX"
    using hst_rd [OF assms(1)] assms(1) by (auto simp: hst_def)
  have d: "drop (Suc (hm_pos h)) (hm_src h) = (nm @ [62]) @ rest" using drop_tail [OF r(2)] by simp
  have m: "memeq_anycase (drop (Suc (hm_pos h)) (hm_src h)) (str ''style'') 5 = Some False"
    "memeq_anycase (drop (Suc (hm_pos h)) (hm_src h)) (str ''!--'') 3 = Some False"
    unfolding d by (rule memeq_anycase_append, rule assms)+
  define h' where "h' = h\<lparr>hm_name := [], hm_first := 45, hm_type := TYPE_T1, hm_pos := hm_pos h + 1\<rparr>"
  have s: "html_step lenSrc h = Some (False, h')"
    using r m by (simp add: html_step_def fold_newline_def html_TX_def Let_def h'_def)
  show ?thesis
  proof (intro exI conjI)
    show "runs lenSrc h h'" unfolding runs_def using loop_step [OF assms(2) s] by (simp add: h'_def)
    show "hst h' TYPE_T1 out (nm @ 62 # rest)" using assms(1) d hst_rd [OF assms(1)] by (simp add: hst_def h'_def)
  qed (simp_all add: h'_def)
qed

lemma name_run:
  "list_all (\<lambda>c. c \<noteq> 32 \<and> c \<noteq> 62 \<and> c \<noteq> 10) nm \<Longrightarrow> map to_lower nm = nm \<Longrightarrow> hst h TYPE_T1 out (nm @ rest) \<Longrightarrow> hm_pos h + length nm \<le> lenSrc \<Longrightarrow>
   length (hm_name h) + length nm \<le> 11 \<Longrightarrow>
   \<exists>h'. runs lenSrc h h' \<and> hst h' TYPE_T1 out rest \<and> hm_pos h' = hm_pos h + length nm \<and> hm_name h' = hm_name h @ nm \<and>
     hm_first h' = (if hm_name h = [] \<and> nm \<noteq> [] then hd nm else hm_first h)"
proof (induction nm arbitrary: h)
  case Nil
  then show ?case by (intro exI [of _ h]) (simp add: runs_def)
next
  case (Cons c nm)
  have r: "rd (hm_src h) (hm_pos h) = Some c" "drop (hm_pos h) (hm_src h) = c # nm @ rest" "hm_type h = TYPE_T1" "hm_pos h < length (hm_src h)"
    using hst_rd [of h TYPE_T1 out c "nm @ rest"] Cons.prems(3) by (auto simp: hst_def)
  define h1 where "h1 = h\<lparr>hm_pos := hm_pos h + 1, hm_name := hm_name h @ [to_lower c], hm_first := (if hm_name h = [] then to_lower c else hm_first h)\<rparr>"
  have c: "c \<noteq> 32" "c \<noteq> 62" "c \<noteq> 10" "to_lower c = c" "length (hm_name h) < 11" using Cons.prems by auto
  have s: "html_step lenSrc h = Some (False, h1)"
    using r c by (simp add: html_step_def fold_newline_def html_T1_def Let_def h1_def TAGNAME_MAXLEN_def)
  have p: "hm_pos h < lenSrc" using Cons.prems(4) by simp
  have 1: "runs lenSrc h h1" unfolding runs_def using loop_step [OF p s] by (simp add: h1_def)
  have 2: "hst h1 TYPE_T1 out (nm @ rest)"
    using Cons.prems(3) r drop_tail [OF r(2)] by (simp add: hst_def h1_def)
  obtain h2 where 3: "runs lenSrc h1 h2" "hst h2 TYPE_T1 out rest" "hm_pos h2 = hm_pos h1 + length nm" "hm_name h2 = hm_name h1 @ nm"
      "hm_first h2 = (if hm_name h1 = [] \<and> nm \<noteq> [] then hd nm else hm_first h1)"
    using Cons.IH [OF _ _ 2] Cons.prems by (auto simp: h1_def)
  show ?case using runs_trans [OF 1 3(1)] 3(2-) c(4) by (intro exI [of _ h2]) (simp add: h1_def)
qed

lemma tag_bits:
  assumes "is_style c"
  shows "31 - unat c < 32" "tag_open (t OR tag_bit c) c" "\<not> tag_open t c \<Longrightarrow> (t OR tag_bit c) AND NOT (tag_bit c) = t"
proof -
  show "31 - unat c < 32" by simp
  then show "tag_open (t OR tag_bit c) c" by (simp add: tag_open_def tag_bit_def bit_simps)
  assume "\<not> tag_open t c"
  then show "(t OR tag_bit c) AND NOT (tag_bit c) = t"
    by (intro bit_eqI) (auto simp: tag_open_def tag_bit_def bit_simps)
qed

lemma style_mark_props:
  assumes "is_style c"
  shows "c \<noteq> 0" "CET_MANUAL \<le> c" "c < 32" "c < CET_LAYOUT" "\<not> CET_LAYOUT \<le> c" "c \<noteq> CET_LLI" "c \<noteq> CET_TTR" "c \<noteq> CET_TTD" "c \<noteq> CET_TBL"
    "c \<noteq> CET_LOL" "c \<noteq> CET_LUL"
  using assms by (auto simp: is_style_def word_le_nat_alt word_less_nat_alt)

text \<open>The closing bracket of a tag adds the mark.\<close>

lemma put_mark:
  assumes "hst h TYPE_T1 out (62 # rest)" "hm_pos h < lenSrc" "hm_name h \<noteq> str ''pre''" "hm_name h \<noteq> str ''/pre''"
    and "addTagChar (hm_src h) (hm_out h) (hm_tags h) (getTagByName (hm_name h)) (hm_first h = 47) =
      Some (store_at (hm_src h) (hm_out h) [b], hm_out h + 1, t)"
  shows "\<exists>h'. html_loop lenSrc h = html_loop lenSrc h' \<and> hst h' TYPE_TX (out @ [b]) rest \<and> hm_pos h' = hm_pos h + 1 \<and> hm_tags h' = t"
proof -
  have r: "rd (hm_src h) (hm_pos h) = Some 62" "\<not> hm_pre h" "hm_type h = TYPE_T1" using hst_rd [OF assms(1)] assms(1) by (auto simp: hst_def)
  define h' where "h' = h\<lparr>hm_pos := hm_pos h + 1, hm_src := store_at (hm_src h) (hm_out h) [b], hm_out := hm_out h + 1, hm_tags := t,
    hm_type := TYPE_TX\<rparr>"
  have s: "html_step lenSrc h = Some (False, h')"
    using r assms(3-5) by (simp add: html_step_def fold_newline_def html_T1_def hm_addTag_def Let_def pre_after_def h'_def)
  show ?thesis
  proof (intro exI conjI)
    show "html_loop lenSrc h = html_loop lenSrc h'" by (rule loop_step [OF assms(2) s])
    show "hst h' TYPE_TX (out @ [b]) rest"
      by (rule hst_store [where pre = "[62]" and h = h and ty = TYPE_T1]) (use assms(1) r in \<open>simp_all add: h'_def\<close>)
  qed (simp_all add: h'_def)
qed

lemma open_mark:
  assumes "hst h TYPE_T1 out (62 # rest)" "hm_pos h < lenSrc" "style_ok nm" "hm_name h = str nm" "hm_first h = hd (str nm)"
    and "\<not> tag_open (hm_tags h) (style_mark nm)"
  shows "\<exists>h'. html_loop lenSrc h = html_loop lenSrc h' \<and> hst h' TYPE_TX (out @ [style_mark nm]) rest \<and> hm_pos h' = hm_pos h + 1 \<and>
    hm_tags h' = hm_tags h OR tag_bit (style_mark nm)"
proof (rule put_mark [OF assms(1,2)])
  have k: "is_style (style_mark nm)" "getTagByName (str nm) \<noteq> TAG_hdr" "hd (str nm) \<noteq> 47" using assms(3) by (auto simp: style_ok_def)
  note p = style_mark_props [OF k(1)]
  show "hm_name h \<noteq> str ''pre''" "hm_name h \<noteq> str ''/pre''" using assms(3,4) by (auto simp: style_ok_def str_def)
  show "addTagChar (hm_src h) (hm_out h) (hm_tags h) (getTagByName (hm_name h)) (hm_first h = 47) =
      Some (store_at (hm_src h) (hm_out h) [style_mark nm], hm_out h + 1, hm_tags h OR tag_bit (style_mark nm))"
    using p k assms(4-6) wr_hst [OF assms(1), of "style_mark nm"]
    by (subst addTagChar.simps) (simp add: Let_def open_tag_def put_tag_def with_tags_def flip: style_mark_def)
qed

lemma close_mark:
  assumes "hst h TYPE_T1 (out @ [c]) (62 # rest)" "33 \<le> c" "c < 127" "hm_pos h < lenSrc" "style_ok nm" "hm_name h = 47 # str nm" "hm_first h = 47"
    and "tag_open (hm_tags h) (style_mark nm)"
  shows "\<exists>h'. html_loop lenSrc h = html_loop lenSrc h' \<and> hst h' TYPE_TX (out @ [c, style_mark nm]) rest \<and> hm_pos h' = hm_pos h + 1 \<and>
    hm_tags h' = hm_tags h AND NOT (tag_bit (style_mark nm))"
proof -
  have k: "is_style (style_mark nm)" "getTagByName (str nm) \<noteq> TAG_hdr" "getTagByName (47 # str nm) = getTagByName (str nm)" "str nm \<noteq> str ''pre''"
    using assms(5) by (auto simp: style_ok_def)
  note p = style_mark_props [OF k(1)]
  have c: "32 < c" "c \<noteq> 32" "c \<noteq> 10" using assms(2,3) by (auto simp: word_le_nat_alt word_less_nat_alt)
  have n: "hm_out h = Suc (length out)" "hm_src h ! length out = c" "length out < length (hm_src h)" using hst_last [OF assms(1)] by auto
  have f: "find_opening (hm_src h) (style_mark nm) (hm_out h) = Some None" using n c by (simp add: rd_def)
  have l: "rd_last (hm_src h) (hm_out h) = Some c" using n by (simp add: rd_last_def rd_def)
  have "\<exists>h'. html_loop lenSrc h = html_loop lenSrc h' \<and> hst h' TYPE_TX ((out @ [c]) @ [style_mark nm]) rest \<and> hm_pos h' = hm_pos h + 1 \<and>
    hm_tags h' = hm_tags h AND NOT (tag_bit (style_mark nm))"
  proof (rule put_mark [OF assms(1,4)])
    have "str ''/pre'' = 47 # str ''pre''" by (simp add: str_def)
    then show "hm_name h \<noteq> str ''/pre''" using k(4) assms(6) by simp
    show "hm_name h \<noteq> str ''pre''" using assms(6) by (simp add: str_def)
    show "addTagChar (hm_src h) (hm_out h) (hm_tags h) (getTagByName (hm_name h)) (hm_first h = 47) =
      Some (store_at (hm_src h) (hm_out h) [style_mark nm], hm_out h + 1, hm_tags h AND NOT (tag_bit (style_mark nm)))"
      using p k assms(6-8) f l c wr_hst [OF assms(1), of "style_mark nm"]
      by (subst addTagChar.simps) (simp add: Let_def close_tag_def close_style_def put_tag_def with_tags_def flip: style_mark_def)
  qed
  then show ?thesis by simp
qed

section \<open>Words and texts\<close>

lemma slash_special:
  "memeq_anycase (47 # a) (str ''style'') 5 = Some False" "memeq_anycase (47 # a) (str ''!--'') 3 = Some False" "to_lower 47 = 47"
proof -
  have s: "str ''style'' = 115 # str ''tyle''" "str ''!--'' = 33 # str ''--''" by (simp_all add: str_def)
  have n: "(5 :: nat) = Suc 4" "(3 :: nat) = Suc 2" by simp_all
  have l: "to_lower 47 = 47" "to_lower 115 = 115" "to_lower 33 = 33" by code_simp+
  show "memeq_anycase (47 # a) (str ''style'') 5 = Some False" unfolding s n memeq_anycase.simps l by simp
  show "memeq_anycase (47 # a) (str ''!--'') 3 = Some False" unfolding s n memeq_anycase.simps l by simp
  show "to_lower 47 = 47" by (rule l)
qed

text \<open>A word leaves the tags as they were.\<close>

lemma word_split:
  assumes "word_ok w"
  obtains v c where "w = v @ [c]" "33 \<le> c" "c < 127"
  using assms by (cases w rule: rev_cases) (auto simp: word_ok_def)

definition styles_closed :: "u32 \<Rightarrow> bool" where
  "styles_closed t \<longleftrightarrow> list_all (\<lambda>nm. \<not> tag_open t (style_mark nm)) style_names"

lemma styled_word:
  assumes "run_ok r" "styles_closed (hm_tags h)" "hst h TYPE_TX out (html_word r @ rest)" "hm_pos h + length (html_word r) \<le> lenSrc"
  shows "\<exists>h'. html_loop lenSrc h = html_loop lenSrc h' \<and> hst h' TYPE_TX (out @ cet_word r) rest \<and> hm_pos h' = hm_pos h + length (html_word r) \<and>
    hm_tags h' = hm_tags h"
proof (cases "fst r")
  case None
  then show ?thesis using word_run [of "snd r" h out rest lenSrc] assms by (auto simp: run_ok_def word_ok_def html_word_def cet_word_def runs_def)
next
  case (Some nm)
  have m: "nm \<in> set style_names" "word_ok (snd r)" using assms(1) Some by (auto simp: run_ok_def)
  have k: "style_ok nm" by (rule style_okD [OF m(1)])
  have q: "memeq_anycase (str nm @ [62]) (str ''style'') 5 = Some False" "memeq_anycase (str nm @ [62]) (str ''!--'') 3 = Some False"
    "list_all (\<lambda>c. c \<noteq> 32 \<and> c \<noteq> 62 \<and> c \<noteq> 10) (str nm)" "map to_lower (str nm) = str nm" "length nm \<le> 10" "str nm \<noteq> []" "is_style (style_mark nm)"
    using k by (auto simp: style_ok_def str_def)
  note q47 = slash_special(1,2) [of "str nm @ [62]"] slash_special(3)
  define w where "w = snd r"
  obtain v c where w: "w = v @ [c]" "33 \<le> c" "c < 127" using word_split [OF m(2)] w_def by blast
  have len: "length (html_word r) = 2 * length nm + length w + 5" using Some by (simp add: html_word_def w_def)
  have h: "hst h TYPE_TX out (60 # str nm @ 62 # w @ 60 # (47 # str nm) @ 62 # rest)" using assms(3) Some by (simp add: html_word_def w_def)
  obtain h1 where 1: "runs lenSrc h h1" "hst h1 TYPE_T1 out (str nm @ 62 # w @ 60 # (47 # str nm) @ 62 # rest)" "hm_pos h1 = hm_pos h + 1"
      "hm_name h1 = []" "hm_first h1 = 45"
    using tag_start [OF h _ q(1,2), of lenSrc] assms(4) len by auto
  obtain h2 where 2: "runs lenSrc h1 h2" "hst h2 TYPE_T1 out (62 # w @ 60 # (47 # str nm) @ 62 # rest)" "hm_pos h2 = hm_pos h + 1 + length nm"
      "hm_name h2 = str nm" "hm_first h2 = hd (str nm)"
    using name_run [OF q(3,4) 1(2), of lenSrc] 1 q(5,6) assms(4) len by auto
  have t2: "hm_tags h2 = hm_tags h" using 1(1) 2(1) by (simp add: runs_def)
  have no: "\<not> tag_open (hm_tags h) (style_mark nm)" using assms(2) m(1) by (auto simp: styles_closed_def list_all_iff)
  obtain h3 where 3: "html_loop lenSrc h2 = html_loop lenSrc h3" "hst h3 TYPE_TX (out @ [style_mark nm]) (w @ 60 # (47 # str nm) @ 62 # rest)"
      "hm_pos h3 = hm_pos h + 2 + length nm" "hm_tags h3 = hm_tags h OR tag_bit (style_mark nm)"
    using open_mark [OF 2(2) _ k 2(4,5), of lenSrc] no t2 2(3) assms(4) len by auto
  have wl: "list_all (\<lambda>c. 33 \<le> c \<and> c < 127 \<and> c \<noteq> 60 \<and> c \<noteq> 38) w" using m(2) by (simp add: word_ok_def w_def)
  obtain h4 where 4: "runs lenSrc h3 h4" "hst h4 TYPE_TX ((out @ [style_mark nm]) @ w) (60 # (47 # str nm) @ 62 # rest)"
      "hm_pos h4 = hm_pos h + 2 + length nm + length w"
    using word_run [OF wl 3(2), of lenSrc] 3(3) assms(4) len by auto
  obtain h5 where 5: "runs lenSrc h4 h5" "hst h5 TYPE_T1 ((out @ [style_mark nm]) @ w) ((47 # str nm) @ 62 # rest)" "hm_pos h5 = hm_pos h4 + 1"
      "hm_name h5 = []" "hm_first h5 = 45"
    using tag_start [OF 4(2), of lenSrc] q47 4(3) assms(4) len by auto
  obtain h6 where 6: "runs lenSrc h5 h6" "hst h6 TYPE_T1 ((out @ style_mark nm # v) @ [c]) (62 # rest)" "hm_pos h6 = hm_pos h + 4 + 2 * length nm + length w"
      "hm_name h6 = 47 # str nm" "hm_first h6 = 47"
    using name_run [of "47 # str nm" h5, OF _ _ 5(2), of lenSrc] q q47(3) 5 4(3) assms(4) len w(1) by auto
  have t6: "hm_tags h6 = hm_tags h OR tag_bit (style_mark nm)" using 4(1) 5(1) 6(1) 3(4) by (simp add: runs_def)
  have o6: "tag_open (hm_tags h6) (style_mark nm)" unfolding t6 by (rule tag_bits(2) [OF q(7)])
  obtain h7 where 7: "html_loop lenSrc h6 = html_loop lenSrc h7" "hst h7 TYPE_TX ((out @ style_mark nm # v) @ [c, style_mark nm]) rest"
      "hm_pos h7 = hm_pos h6 + 1" "hm_tags h7 = hm_tags h6 AND NOT (tag_bit (style_mark nm))"
    using close_mark [OF 6(2) w(2,3) _ k 6(4,5) o6, of lenSrc] 6(3) assms(4) len by auto
  have "hm_tags h7 = hm_tags h" unfolding 7(4) t6 by (rule tag_bits(3) [OF q(7) no])
  moreover have "(out @ style_mark nm # v) @ [c, style_mark nm] = out @ cet_word r" using Some w(1) by (simp add: cet_word_def w_def)
  moreover have "html_loop lenSrc h = html_loop lenSrc h7" using 1(1) 2(1) 3(1) 4(1) 5(1) 6(1) 7(1) by (simp add: runs_def)
  ultimately show ?thesis using 7(2,3) 6(3) len by (intro exI [of _ h7]) simp
qed

lemma cet_word_end:
  assumes "run_ok r"
  obtains v c m where "cet_word r = v @ c # m" "33 \<le> c" "c < 127" "m = [] \<or> (\<exists>x. m = [x] \<and> is_style x)"
proof -
  have "word_ok (snd r)" using assms by (simp add: run_ok_def)
  then obtain v c where w: "snd r = v @ [c]" "33 \<le> c" "c < 127" by (rule word_split)
  show ?thesis
  proof (cases "fst r")
    case None
    then show ?thesis using that [of v c "[]"] w by (simp add: cet_word_def)
  next
    case (Some nm)
    then have "style_ok nm" using assms style_okD by (simp add: run_ok_def)
    then have "is_style (style_mark nm)" by (simp add: style_ok_def)
    then show ?thesis using that [of "style_mark nm # v" c "[style_mark nm]"] w Some by (simp add: cet_word_def)
  qed
qed

lemma text_words:
  "rs \<noteq> [] \<Longrightarrow> list_all run_ok rs \<Longrightarrow> styles_closed (hm_tags h) \<Longrightarrow> hst h TYPE_TX out (join_words (map html_word rs) @ rest) \<Longrightarrow>
   hm_pos h + length (join_words (map html_word rs)) \<le> lenSrc \<Longrightarrow>
   \<exists>h'. html_loop lenSrc h = html_loop lenSrc h' \<and> hst h' TYPE_TX (out @ join_words (map cet_word rs)) rest \<and>
     hm_pos h' = hm_pos h + length (join_words (map html_word rs)) \<and> hm_tags h' = hm_tags h"
proof (induction rs arbitrary: h out)
  case (Cons r rs)
  show ?case
  proof (cases rs)
    case Nil
    then show ?thesis using styled_word [of r h out rest lenSrc] Cons.prems by simp
  next
    case (Cons q qs)
    note rs = this
    define t where "t = join_words (map html_word rs)"
    have j: "join_words (map html_word (r # rs)) = html_word r @ 32 # t" "join_words (map cet_word (r # rs)) = cet_word r @ 32 # join_words (map cet_word rs)"
      by (simp_all add: rs t_def)
    have ok: "run_ok r" "list_all run_ok rs" using Cons.prems by simp_all
    have h0: "hst h TYPE_TX out (html_word r @ 32 # t @ rest)" using Cons.prems(4) j by simp
    obtain h1 where 1: "html_loop lenSrc h = html_loop lenSrc h1" "hst h1 TYPE_TX (out @ cet_word r) (32 # t @ rest)"
        "hm_pos h1 = hm_pos h + length (html_word r)" "hm_tags h1 = hm_tags h"
      using styled_word [OF ok(1) Cons.prems(3) h0, of lenSrc] Cons.prems(5) j by auto
    obtain v c m where e: "cet_word r = v @ c # m" "33 \<le> c" "c < 127" "m = [] \<or> (\<exists>x. m = [x] \<and> is_style x)"
      by (rule cet_word_end [OF ok(1)])
    have h1: "hst h1 TYPE_TX ((out @ v) @ c # m) (32 # t @ rest)" using 1(2) e(1) by simp
    obtain h2 where 2: "runs lenSrc h1 h2" "hst h2 TYPE_TX ((out @ v) @ c # m @ [32]) (t @ rest)" "hm_pos h2 = hm_pos h1 + 1"
      using space_char [OF e(2-4) h1, of lenSrc] 1(3) Cons.prems(5) j by auto
    have h2: "hst h2 TYPE_TX (out @ cet_word r @ [32]) (t @ rest)" using 2(2) e(1) by simp
    obtain h3 where "html_loop lenSrc h2 = html_loop lenSrc h3" "hst h3 TYPE_TX ((out @ cet_word r @ [32]) @ join_words (map cet_word rs)) rest"
        "hm_pos h3 = hm_pos h2 + length t" "hm_tags h3 = hm_tags h2"
      using Cons.IH [OF _ ok(2) _ h2 [unfolded t_def], folded t_def] rs Cons.prems(3,5) 1(3,4) 2(1,3) j by (auto simp: runs_def)
    then show ?thesis using 1(1,3,4) 2(1,3) j by (intro exI [of _ h3]) (simp add: runs_def)
  qed
qed simp

lemma last_join: "rs \<noteq> [] \<Longrightarrow> list_all run_ok rs \<Longrightarrow> \<exists>v x. join_words (map cet_word rs) = v @ [x] \<and> x \<noteq> CET_LBR"
proof (induction rs rule: induct_list012)
  case (2 r)
  then obtain v c m where e: "cet_word r = v @ c # m" "33 \<le> c" "c < 127" "m = [] \<or> (\<exists>x. m = [x] \<and> is_style x)"
    using cet_word_end [of r] by auto
  have "c \<noteq> CET_LBR" "is_style x \<Longrightarrow> x \<noteq> CET_LBR" for x using e(2) by (auto simp: is_style_def word_le_nat_alt)
  then show ?case using e by (cases m) auto
next
  case (3 r q qs)
  then obtain v x where "join_words (map cet_word (q # qs)) = v @ [x]" "x \<noteq> CET_LBR" by auto
  then show ?case by (intro exI [of _ "cet_word r @ 32 # v"]) auto
qed simp

section \<open>Properties\<close>

text \<open>C29: HTML made of words, some of them between the tags of an inline element, comes out as these words with
  single spaces, each styled word between two marks of its style; no tag stays open.\<close>

theorem html_words_read:
  assumes "rs \<noteq> []" "list_all run_ok rs" "styles_closed t"
  shows "\<exists>mem. html2cet t (join_words (map html_word rs) @ behind) (length (join_words (map html_word rs))) =
      Some (mem, length (join_words (map cet_word rs)), t) \<and>
    take (length (join_words (map cet_word rs))) mem = join_words (map cet_word rs)"
proof -
  define doc where "doc = join_words (map html_word rs)"
  define cet where "cet = join_words (map cet_word rs)"
  define h0 where "h0 = \<lparr>hm_src = doc @ behind, hm_out = 0, hm_tags = t, hm_pos = 0, hm_type = TYPE_TX, hm_tag = TAG_NULL,
         hm_first = 0, hm_name = [], hm_copy = 0, hm_pre = False\<rparr>"
  have s0: "hst h0 TYPE_TX [] (doc @ behind)" by (simp add: hst_def h0_def)
  obtain h where h: "html_loop (length doc) h0 = html_loop (length doc) h" "hst h TYPE_TX cet behind" "hm_pos h = length doc" "hm_tags h = t"
    using text_words [OF assms(1,2) _ s0 [unfolded doc_def], of "length doc"] assms(3) by (auto simp: h0_def doc_def cet_def)
  have l: "html_loop (length doc) h0 = Some (False, h)" using h(1,3) by (simp add: html_loop.simps [of "length doc" h])
  obtain v x where v: "cet = v @ [x]" "x \<noteq> CET_LBR" using last_join [OF assms(1,2)] by (auto simp: cet_def)
  have n: "hm_out h = Suc (length v)" "hm_src h ! length v = x" using hst_last [of h TYPE_TX v x behind] h(2) v(1) by auto
  then have c: "cut_lbr (hm_src h) (hm_out h) = length cet" using v by simp
  have "html2cet t (doc @ behind) (length doc) = Some (hm_src h, length cet, t)"
    using l c h(4) by (simp add: html2cet_def flip: h0_def)
  moreover have "take (length cet) (hm_src h) = cet" using h(2) n(1) v(1) by (simp add: hst_def)
  ultimately show ?thesis unfolding doc_def cet_def by blast
qed

theorem html_words_read_witness:
  "\<exists>mem. html2cet 0 (str ''Hi <b>Bob</b>'' @ [0]) 13 = Some (mem, 8, 0) \<and> take 8 mem = str ''Hi '' @ 22 # str ''Bob'' @ [22]"
proof -
  define rs :: "styled_word list" where "rs = [(None, str ''Hi''), (Some ''b'', str ''Bob'')]"
  have ok: "rs \<noteq> []" "list_all run_ok rs" unfolding rs_def by code_simp+
  have z: "styles_closed 0" by (simp add: styles_closed_def list_all_iff tag_open_def)
  have b: "style_mark ''b'' = 22" by code_simp
  have j: "join_words (map html_word rs) = str ''Hi <b>Bob</b>''" "join_words (map cet_word rs) = str ''Hi '' @ 22 # str ''Bob'' @ [22]"
    by (simp_all add: rs_def html_word_def cet_word_def b str_def)
  have l: "length (str ''Hi <b>Bob</b>'') = 13" "length (str ''Hi '' @ 22 # str ''Bob'' @ [22]) = 8" by code_simp+
  show ?thesis using html_words_read [OF ok z, of "[0]", unfolded j, unfolded l] .
qed

end
