(* ===== verification/Mime.thy ===== *)
theory Mime
  imports Html_Cet Base64 Quoted Mail_Date Deliver
begin

text \<open>
  \<^verbatim>\<open>src/deliver/processing.c\<close>: what AEM-Deliver makes of a received message: its headers are cleaned and sorted out,
  its body is decoded, converted and, part by part, joined, and its attachments are taken out.

  A range of bytes is the list of these bytes.  A function that reads bytes nobody has set, or outside of a
  buffer, has the result \<open>None\<close>; where the bytes behind a range can be read they are an argument.  Parameters
  (\<open>mime_ext\<close>): whether \<^verbatim>\<open>malloc\<close> succeeds for a size, the conversion of the ICU library with the bytes it leaves
  behind its result, \<^verbatim>\<open>mktime\<close>, the contents of new memory, and the check of a DKIM signature (\<^verbatim>\<open>dkim.c\<close>).
\<close>

record mime_ext =
  me_mem :: "nat \<Rightarrow> bool"
  me_conv :: "byte list \<Rightarrow> byte list \<Rightarrow> nat \<Rightarrow> byte list option"
  me_behind :: "byte list \<Rightarrow> byte list"
  me_mktime :: "tm \<Rightarrow> int"
  me_junk :: "nat \<Rightarrow> byte"
  me_dkim :: "email_info \<Rightarrow> byte list \<Rightarrow> nat \<Rightarrow> email_info \<times> nat"

definition AEM_LIMIT_MULTIPARTS :: nat where "AEM_LIMIT_MULTIPARTS = 50"
definition AEM_DELIVER_MAXLEN_CHARSET :: nat where "AEM_DELIVER_MAXLEN_CHARSET = 50"
definition AEM_MAXNUM_ATTACHMENTS :: nat where "AEM_MAXNUM_ATTACHMENTS = 31"

datatype mime_cte = CTE_NONE | CTE_B64 | CTE_QP

section \<open>Addresses\<close>

definition memchr :: "byte list \<Rightarrow> byte \<Rightarrow> nat option" where
  "memchr s b = mempbrk s [b]"

text \<open>The spaces before the name; the one before the address stays.\<close>

fun name_start :: "byte list \<Rightarrow> byte list" where
  "name_start (c # d # s) = (if is_space c then name_start (d # s) else c # d # s)"
| "name_start s = s"

definition rstrip :: "(byte \<Rightarrow> bool) \<Rightarrow> byte list \<Rightarrow> byte list" where
  "rstrip p s = rev (dropWhile p (rev s))"

definition minifyHeaderAddress :: "byte list \<Rightarrow> byte list" where
  "minifyHeaderAddress src =
     (case (memchr src 60, memchr src 62) of
        (Some a, Some e) \<Rightarrow>
          if e < a then src
          else let addr = take (e - (a + 1)) (drop (a + 1) src)
               in if a = 0 then addr
               else let nm = name_start (take a src); quot = (hd nm = 34); nm = (if quot then tl nm else nm)
                    in if nm = [] then addr
                    else let nm = rstrip is_space nm; nm = (if quot \<and> nm \<noteq> [] \<and> last nm = 34 then butlast nm else nm)
                         in if nm = [] then addr else nm @ AEM_CET_CHAR_SEP # addr
      | _ \<Rightarrow> src)"

section \<open>Headers\<close>

text \<open>The loop of \<open>cleanHeaders\<close>: \<open>out\<close> is what has been written, \<open>keep\<close> is \<^verbatim>\<open>lenKeep\<close>, \<open>colon\<close> is \<^verbatim>\<open>colonPos\<close>; \<open>beh\<close> are the
  bytes behind the headers.\<close>

definition strip_to :: "nat \<Rightarrow> byte list \<Rightarrow> byte list" where
  "strip_to keep out = take keep out @ rstrip (\<lambda>b. b = 32) (drop keep out)"

definition ew_decode :: "mime_ext \<Rightarrow> bool \<Rightarrow> byte list \<Rightarrow> byte list" where
  "ew_decode x isBase64 ew =
     (if isBase64 then aem_base642bin ew
      else decodeQuotedPrintable (me_mem x (length ew)) (map (\<lambda>b. if b = 95 then 32 else b) ew))"

definition conv_mem :: "mime_ext \<Rightarrow> byte list \<Rightarrow> byte list \<Rightarrow> bool" where
  "conv_mem x s charset = me_mem x (if isUtf8 charset then length s + 1 else 2 * length s + 1)"

definition ew_text :: "mime_ext \<Rightarrow> byte list \<Rightarrow> byte list \<Rightarrow> nat \<Rightarrow> byte list" where
  "ew_text x charset dec lenOriginal =
     (if isUtf8 charset then
        if length dec \<le> lenOriginal then filterUtf8 dec False else replicate lenOriginal 63
      else case toUtf8 (me_conv x) (conv_mem x dec charset) dec charset of
        None \<Rightarrow> replicate lenOriginal 63
      | Some u \<Rightarrow> if u \<noteq> [] \<and> length u \<le> lenOriginal then filterUtf8 u False else replicate lenOriginal 63)"

function clean_hdrs :: "mime_ext \<Rightarrow> byte list \<Rightarrow> byte list \<Rightarrow> byte list \<Rightarrow> nat \<Rightarrow> bool \<Rightarrow> int \<Rightarrow> byte list option" where
  "clean_hdrs x beh [] out keep wasEw colon = Some out"
| "clean_hdrs x beh (c # cs) out keep wasEw colon =
     (if c = 61 \<and> cs \<noteq> [] \<and> hd cs = 63 then
        let out = (if wasEw then strip_to keep out else out);
            r = tl cs; lc = (case memchr r 63 of None \<Rightarrow> 0 | Some n \<Rightarrow> n)
        in if lc < 1 \<or> lc > 30 then Some out
        else let charset = take lc r; q = drop lc r @ beh
             in if length q \<le> 2 then None
             else if q ! 0 \<noteq> 63 \<or> q ! 2 \<noteq> 63 then Some out
             else if to_upper (q ! 1) \<noteq> 66 \<and> to_upper (q ! 1) \<noteq> 81 then Some out
             else if length r < lc + 3 then None
             else let ews = drop (lc + 3) r
                  in (case memmem ews [63, 61] of
                        None \<Rightarrow> clean_hdrs x beh ews out keep wasEw colon
                      | Some n \<Rightarrow>
                          if n < 1 then clean_hdrs x beh (drop 2 ews) out keep wasEw colon
                          else let dec = ew_decode x (to_upper (q ! 1) = 66) (take n ews);
                                   out = out @ ew_text x charset dec (7 + lc + n)
                               in clean_hdrs x beh (drop (n + 2) ews) out (length out) True 1)
      else if c = 10 \<and> cs \<noteq> [] \<and> hd cs = 32 then clean_hdrs x beh cs out keep wasEw colon
      else if c = 10 then clean_hdrs x beh cs (rstrip (\<lambda>b. b = 32) out @ [10]) keep wasEw (-1)
      else if c = 32 then
        clean_hdrs x beh cs (if out = [] \<or> (last out \<noteq> 32 \<and> colon > 0) then out @ [32] else out) keep wasEw colon
      else if colon < 0 \<and> c = 58 then clean_hdrs x beh (dropWhile (\<lambda>b. b = 32) cs) (out @ [58]) keep wasEw 0
      else if 32 < c \<and> c < 127 then clean_hdrs x beh cs (out @ [c]) keep False (if colon = 0 then 1 else colon)
      else clean_hdrs x beh cs out keep wasEw colon)"
  by pat_completeness auto
termination
  by (relation "measure (\<lambda>(x, beh, data, out, keep, wasEw, colon). length data)")
     (auto simp: le_imp_less_Suc length_dropWhile_le)

declare clean_hdrs.simps(2) [simp del]

definition cleanHeaders :: "mime_ext \<Rightarrow> byte list \<Rightarrow> byte list \<Rightarrow> byte list option" where
  "cleanHeaders x beh data = clean_hdrs x beh data [] 0 False (-1)"

text \<open>The headers are cut off the message; the line break at the end of the empty line stays.\<close>

definition getHeaders :: "mime_ext \<Rightarrow> byte list \<Rightarrow> (byte list \<times> byte list) option option" where
  "getHeaders x src =
     (case memmem src [10, 10] of
        None \<Rightarrow> Some None
      | Some n \<Rightarrow>
          if n < 5 \<or> \<not> me_mem x (n + 1) then Some None
          else do {
            head \<leftarrow> cleanHeaders x [0] (take n src);
            Some (Some (head, drop (n + 1) src))
          })"

text \<open>The headers without the one taken out, and its value.\<close>

definition moveHeader :: "byte list \<Rightarrow> byte list \<Rightarrow> nat \<Rightarrow> byte list \<times> byte list option" where
  "moveHeader src needle limit =
     (case memcasemem src needle of
        None \<Rightarrow> (src, None)
      | Some h \<Rightarrow>
          let v = h + length needle; e = (case memchr (drop v src) 10 of None \<Rightarrow> length src | Some n \<Rightarrow> v + n)
          in (take h src @ drop e src, Some (take limit (take (e - v) (drop v src)))))"

definition begins_with :: "byte list \<Rightarrow> string \<Rightarrow> bool" where
  "begins_with s name \<longleftrightarrow> length s \<ge> length name \<and> memeq_anycase s (str name) (length name) = Some True"

definition getCte :: "byte list \<Rightarrow> mime_cte" where
  "getCte h =
     (case memcasemem h (10 # str ''Content-Transfer-Encoding:'') of
        None \<Rightarrow> CTE_NONE
      | Some k \<Rightarrow>
          let cte = drop (k + 27) h
          in if begins_with cte ''Quoted-Printable'' then CTE_QP
          else if begins_with cte ''Base64'' then CTE_B64
          else CTE_NONE)"

definition charset_fit :: "byte list \<Rightarrow> byte list" where
  "charset_fit v = (if length v \<ge> AEM_DELIVER_MAXLEN_CHARSET then [] else v)"

definition skip_space :: "byte list \<Rightarrow> byte list" where
  "skip_space s = (if is_space (hd s) then tl s else s)"

definition getCharset :: "byte list \<Rightarrow> byte list option" where
  "getCharset ct =
     (case memcasemem ct (str ''charset'') of
        None \<Rightarrow> Some []
      | Some k \<Rightarrow>
          if length ct - k < 10 then Some []
          else let cs = skip_space (drop (k + 7) ct)
               in if hd cs \<noteq> 61 then Some []
               else let cs = skip_space (tl cs)
                    in if cs = [] then None
                    else if hd cs = 34 \<or> hd cs = 39 then
                      (case memchr (tl cs) (hd cs) of
                         None \<Rightarrow> Some []
                       | Some n \<Rightarrow> Some (charset_fit (take n (tl cs))))
                    else Some (charset_fit (case mempbrk cs [59, 32, 10] of None \<Rightarrow> cs | Some n \<Rightarrow> take n cs)))"

definition getBound :: "mime_ext \<Rightarrow> byte list \<Rightarrow> byte list option" where
  "getBound x src =
     (case memcasemem src (str ''boundary'') of
        None \<Rightarrow> None
      | Some k \<Rightarrow>
          (case memchr (drop (k + 8) src) 61 of
             None \<Rightarrow> None
           | Some j \<Rightarrow>
               if length src - (k + 8 + j) < 3 then None
               else let s = drop (k + 8 + j + 1) src; quot = (hd s = 34 \<or> hd s = 39);
                        v = (if quot then tl s else s);
                        e = (if quot then memchr v (hd s) else mempbrk v [59, 32, 10]);
                        v = (case e of None \<Rightarrow> v | Some n \<Rightarrow> take n v)
                    in if me_mem x (3 + length v) then Some (10 # 45 # 45 # v) else None))"

definition getNameHeader :: "byte list \<Rightarrow> byte list option" where
  "getNameHeader src =
     (if length src < 6 then Some [63]
      else case memcasemem src (str ''NAME='') of
        None \<Rightarrow> Some [63]
      | Some k \<Rightarrow>
          if drop (k + 5) src = [] then None
          else let fn = dropWhile is_space (drop (k + 5) src)
               in if fn = [] then Some [63]
               else let quot = (hd fn = 34 \<or> hd fn = 39); v = (if quot then tl fn else fn);
                        e = mempbrk v (if quot then [hd fn, 10, 0] else [59, 32, 10, 0])
                    in case e of
                      None \<Rightarrow> Some [63]
                    | Some n \<Rightarrow> Some (if n > 255 then [63] else take n v))"

section \<open>Texts\<close>

text \<open>A text in memory: the memory from its beginning on, and its length.\<close>

type_synonym tbuf = "byte list \<times> nat"

definition tb_text :: "tbuf \<Rightarrow> byte list" where
  "tb_text b = take (snd b) (fst b)"

text \<open>A function over exactly the bytes of the text.\<close>

definition tb_in_place :: "(byte list \<Rightarrow> byte list \<times> nat) \<Rightarrow> tbuf \<Rightarrow> tbuf" where
  "tb_in_place f b = (case f (tb_text b) of (t, n) \<Rightarrow> (t @ drop (snd b) (fst b), n))"

definition decodeCte :: "mime_ext \<Rightarrow> mime_cte \<Rightarrow> bool \<Rightarrow> tbuf \<Rightarrow> tbuf" where
  "decodeCte x cte isText b =
     (if snd b < 1 then b
      else case cte of
        CTE_QP \<Rightarrow>
          if me_mem x (snd b)
          then let d = decodeQuotedPrintable True (tb_text b) in (write_at 0 (d @ [0]) (fst b), length d)
          else b
      | CTE_B64 \<Rightarrow>
          let d = aem_base642bin (tb_text b); b = (write_at 0 d (fst b), length d);
              (m, n) = (if isText then tb_in_place removeControlChars b else b)
          in (write_at n [0] m, n)
      | CTE_NONE \<Rightarrow> b)"

definition convertToUtf8 :: "mime_ext \<Rightarrow> byte list \<Rightarrow> tbuf \<Rightarrow> tbuf" where
  "convertToUtf8 x charset b =
     (case toUtf8 (me_conv x) (conv_mem x (tb_text b) charset) (tb_text b) charset of
        None \<Rightarrow> b
      | Some u \<Rightarrow> tb_in_place removeControlChars (u @ (if isUtf8 charset then [0] else me_behind x u), length u))"

text \<open>A text part from its transfer encoding to its clean text; the tags left open by HTML go along.\<close>

definition text_part :: "mime_ext \<Rightarrow> u32 \<Rightarrow> byte list \<Rightarrow> bool \<Rightarrow> tbuf \<Rightarrow> (byte list \<times> u32) option" where
  "text_part x tags ct isHtml b =
     do {
       cs \<leftarrow> getCharset ct;
       let b = convertToUtf8 x cs b;
       if isHtml then do {(m, n, t) \<leftarrow> html2cet tags (fst b) (snd b); Some (take n m, t)}
       else Some (tb_text (tb_in_place cleanText b), tags)
     }"

section \<open>Multipart messages\<close>

record mp =
  mp_begin :: nat
  mp_i :: nat
  mp_bounds :: "byte list list"
  mp_out :: "byte list option"
  mp_att :: "byte list list"
  mp_tags :: u32

definition is_text :: "byte list \<Rightarrow> bool" where "is_text ct = begins_with ct ''text/''"
definition is_html :: "byte list \<Rightarrow> bool" where "is_html ct \<longleftrightarrow> length ct \<ge> 9 \<and> begins_with (drop 5 ct) ''html''"
definition is_multipart :: "byte list \<Rightarrow> bool" where "is_multipart ct = begins_with ct ''multipart''"

text \<open>The memory of an attachment: \<^verbatim>\<open>lenAtt\<close> counts one byte in front of the name, but the name begins two bytes further on;
  what is written behind the memory is lost.\<close>

definition attachment :: "mime_ext \<Rightarrow> byte list \<Rightarrow> byte list \<Rightarrow> byte list" where
  "attachment x fn body =
     take (AEM_MSG_HDR_SZ + 1 + length fn + length body)
       (map (me_junk x) [0..<AEM_MSG_HDR_SZ] @ [128 OR (of_nat (length fn) - 1)] @ [me_junk x 0, me_junk x 1] @ fn @ body)"

text \<open>A part that is not multipart itself; the flag is a failed allocation, which ends the loop.\<close>

definition mp_part :: "mime_ext \<Rightarrow> byte list \<Rightarrow> byte list \<Rightarrow> byte list \<Rightarrow> byte list \<Rightarrow> mp \<Rightarrow> (bool \<times> mp) option" where
  "mp_part x ph ct fn body s =
     (if \<not> me_mem x (length body + 1) then Some (True, s)
      else
        let b = decodeCte x (getCte ph) (is_text ct) (body @ [0], length body)
        in if is_text ct then
          do {
            (t, tags) \<leftarrow> text_part x (mp_tags s) ct (is_html ct) b;
            let s = s\<lparr>mp_tags := tags\<rparr>;
            case mp_out s of
              None \<Rightarrow> Some (False, s\<lparr>mp_out := Some t\<rparr>)
            | Some out \<Rightarrow>
                if me_mem x (length out + length t + 1) then Some (False, s\<lparr>mp_out := Some (out @ AEM_CET_CHAR_SEP # t)\<rparr>)
                else Some (True, s)
          }
        else if length (mp_att s) < AEM_MAXNUM_ATTACHMENTS then
          let a = attachment x fn (tb_text b)
          in Some (False, if AEM_MSG_HDR_SZ + 1 + length fn + snd b \<le> AEM_MSG_W_MAXSIZE \<and> me_mem x (AEM_MSG_HDR_SZ + 1 + length fn + snd b)
               then s\<lparr>mp_att := mp_att s @ [a]\<rparr> else s)
        else Some (False, s))"

text \<open>A part of any kind: a multipart one adds a boundary, for which the message is searched later.\<close>

definition mp_next :: "mime_ext \<Rightarrow> byte list \<Rightarrow> byte list \<Rightarrow> byte list \<Rightarrow> byte list \<Rightarrow> mp \<Rightarrow> (bool \<times> mp) option" where
  "mp_next x ph ct fn body s =
     (if is_multipart ct then
        Some (case getBound x (drop 9 ct) of
            None \<Rightarrow> (False, s)
          | Some nb \<Rightarrow> (length (mp_bounds s) + 1 \<ge> AEM_LIMIT_MULTIPARTS, s\<lparr>mp_bounds := mp_bounds s @ [nb]\<rparr>))
      else mp_part x ph ct fn body s)"

text \<open>What is done behind a boundary that ends at \<open>b\<close>; the flag is the end of the loop.\<close>

definition mp_at :: "mime_ext \<Rightarrow> byte list \<Rightarrow> byte list \<Rightarrow> byte list \<Rightarrow> nat \<Rightarrow> mp \<Rightarrow> (bool \<times> mp) option" where
  "mp_at x src beh bound b s =
     (let mem = src @ beh in
      if length mem \<le> b + 1 then None
      else if mem ! b = 45 \<and> mem ! (b + 1) = 45 then Some (False, s\<lparr>mp_begin := 0, mp_i := mp_i s + 1\<rparr>)
      else case memmem (drop b src) [10, 10] of
        None \<Rightarrow> Some (True, s)
      | Some j \<Rightarrow>
          let hend = b + j + 1
          in if j + 1 > 9999 then Some (True, s)
          else do {
            ph \<leftarrow> cleanHeaders x [] (take (j + 1) (drop b src));
            let ct = (case memcasemem ph (str ''Content-Type:'') of None \<Rightarrow> [] | Some c \<Rightarrow> drop (c + 13) ph);
            fn \<leftarrow> getNameHeader ct;
            case memmem (drop hend src) bound of
              None \<Rightarrow> Some (True, s)
            | Some e \<Rightarrow> mp_next x ph ct (take 128 fn) (take e (drop hend src)) (s\<lparr>mp_begin := hend + e\<rparr>)
          })"

text \<open>One round of the loop of \<open>decodeMp\<close>.\<close>

definition mp_step :: "mime_ext \<Rightarrow> byte list \<Rightarrow> byte list \<Rightarrow> mp \<Rightarrow> (bool \<times> mp) option" where
  "mp_step x src beh s =
     (let bound = mp_bounds s ! mp_i s in
      case memmem (drop (mp_begin s) src) bound of
        None \<Rightarrow> Some (True, s)
      | Some k \<Rightarrow> mp_at x src beh bound (mp_begin s + k + length bound) s)"

lemma mp_part_keeps:
  "mp_part x ph ct fn body s = Some (stop, s') \<Longrightarrow> mp_begin s' = mp_begin s \<and> mp_i s' = mp_i s \<and> mp_bounds s' = mp_bounds s"
  by (auto simp: mp_part_def Let_def split: if_splits Option.bind_splits option.splits)

lemma mp_step_progress:
  assumes "mp_step x src beh s = Some (False, s')"
  shows "(mp_i s' = mp_i s + 1 \<and> mp_bounds s' = mp_bounds s) \<or>
    (mp_i s' = mp_i s \<and> mp_begin s < mp_begin s' \<and> mp_begin s' \<le> length src \<and>
      (mp_bounds s' = mp_bounds s \<or> length (mp_bounds s') < AEM_LIMIT_MULTIPARTS \<and> length (mp_bounds s') = length (mp_bounds s) + 1))"
proof -
  define bound where "bound = mp_bounds s ! mp_i s"
  obtain k where k: "memmem (drop (mp_begin s) src) bound = Some k"
    using assms by (auto simp: mp_step_def bound_def Let_def split: option.splits)
  define b where "b = mp_begin s + k + length bound"
  have e: "mp_at x src beh bound b s = Some (False, s')" using assms k by (simp add: mp_step_def bound_def b_def Let_def)
  show ?thesis
  proof (cases "(src @ beh) ! b = 45 \<and> (src @ beh) ! (b + 1) = 45")
    case True
    then show ?thesis using e by (auto simp: mp_at_def Let_def split: if_splits)
  next
    case False
    then obtain j where j: "memmem (drop b src) [10, 10] = Some j" using e by (auto simp: mp_at_def Let_def split: if_splits option.splits)
    have "\<exists>ph fn ct c. memmem (drop (b + j + 1) src) bound = Some c \<and>
        mp_next x ph ct fn (take c (drop (b + j + 1) src)) (s\<lparr>mp_begin := b + j + 1 + c\<rparr>) = Some (False, s')"
      using e False j unfolding mp_at_def Let_def
      by (simp split: if_split_asm Option.bind_split_asm option.split_asm) blast+
    then obtain ph fn ct c where t: "memmem (drop (b + j + 1) src) bound = Some c"
      "mp_next x ph ct fn (take c (drop (b + j + 1) src)) (s\<lparr>mp_begin := b + j + 1 + c\<rparr>) = Some (False, s')" by blast
    have cb: "c + length bound \<le> length (drop (b + j + 1) src)" using memmem_bound t(1) by blast
    have jb: "j + 2 \<le> length (drop b src)" using memmem_bound [OF j] by simp
    have m: "mp_begin s < b + j + 1 + c" "b + j + 1 + c \<le> length src" using cb jb by (auto simp: b_def)
    show ?thesis
    proof (cases "is_multipart ct")
      case True
      then show ?thesis using t(2) m by (auto simp: mp_next_def split: option.splits)
    next
      case False
      then show ?thesis using t(2) mp_part_keeps m by (fastforce simp: mp_next_def)
    qed
  qed
qed

function mp_loop :: "mime_ext \<Rightarrow> byte list \<Rightarrow> byte list \<Rightarrow> mp \<Rightarrow> mp option" where
  "mp_loop x src beh s =
     (if mp_i s < length (mp_bounds s) then
        case mp_step x src beh s of
          None \<Rightarrow> None
        | Some (stop, s') \<Rightarrow> if stop then Some s' else mp_loop x src beh s'
      else Some s)"
  by pat_completeness auto
termination
proof (relation "measures [\<lambda>(x, src, beh, s). max AEM_LIMIT_MULTIPARTS (length (mp_bounds s)) - mp_i s, \<lambda>(x, src, beh, s). length src - mp_begin s]")
  fix x src beh s r stop s'
  assume a: "mp_i s < length (mp_bounds s)" "mp_step x src beh s = Some r" "(stop, s') = r" "\<not> stop"
  then have "mp_step x src beh s = Some (False, s')" by auto
  from mp_step_progress [OF this] a(1)
  show "((x, src, beh, s'), x, src, beh, s) \<in> measures [\<lambda>(x, src, beh, s). max AEM_LIMIT_MULTIPARTS (length (mp_bounds s)) - mp_i s,
      \<lambda>(x, src, beh, s). length src - mp_begin s]"
    by auto
qed simp

declare mp_loop.simps [simp del]

text \<open>The text, if there is one, the attachments and the tags.\<close>

definition decodeMp :: "mime_ext \<Rightarrow> u32 \<Rightarrow> byte list \<Rightarrow> byte list \<Rightarrow> byte list list \<Rightarrow> byte list \<Rightarrow> (byte list option \<times> byte list list \<times> u32) option" where
  "decodeMp x tags src beh att bound0 =
     map_option (\<lambda>s. (mp_out s, mp_att s, mp_tags s))
       (mp_loop x src beh \<lparr>mp_begin = 0, mp_i = 0, mp_bounds = [bound0], mp_out = None, mp_att = att, mp_tags = tags\<rparr>)"

section \<open>The message\<close>

text \<open>Signatures are checked and removed, at most seven; then the line break added for them goes.\<close>

fun dkim_loop :: "mime_ext \<Rightarrow> nat \<Rightarrow> byte list \<Rightarrow> email_info \<Rightarrow> byte list \<times> email_info" where
  "dkim_loop x 0 src e = (src, e)"
| "dkim_loop x (Suc n) src e =
     (case memmem src (crlf @ crlf) of
        None \<Rightarrow> (src, e)
      | Some he \<Rightarrow>
          (case memcasemem (take he src) (10 # str ''DKIM-Signature:'') of
             None \<Rightarrow> (src, e)
           | Some k \<Rightarrow>
               (case me_dkim x e (drop (k + 1) src) (he - (k + 1)) of
                  (e', offset) \<Rightarrow>
                    if offset = 0 then (src, e')
                    else dkim_loop x n (take (k + 1) src @ drop (k + 1 + offset) src) e')))"

definition processDkim :: "mime_ext \<Rightarrow> tbuf \<Rightarrow> email_info \<Rightarrow> tbuf \<times> email_info" where
  "processDkim x b e =
     (case dkim_loop x 7 (tb_text b) e of
        (src, e') \<Rightarrow> let n = length src - 2 in ((write_at n [0] (src @ drop (length src) (fst b)), n), e'))"

definition time_diff :: "u32 \<Rightarrow> int \<Rightarrow> u16" where
  "time_diff ts hdrTime =
     (let d = uint ts + 736 - hdrTime in if d > 65535 then 65535 else if d < 0 then 0 else of_int d)"

definition msg_id :: "byte list \<Rightarrow> byte list" where
  "msg_id v = (let w = (if last v = 62 then butlast v else v) in if hd v = 60 then tl w else w)"

definition new_value :: "byte list option \<Rightarrow> byte list \<Rightarrow> byte list" where
  "new_value v old = (case v of None \<Rightarrow> old | Some t \<Rightarrow> t)"

text \<open>The headers that become fields of the message; the content type is handed on.\<close>

definition email_headers :: "mime_ext \<Rightarrow> byte list \<Rightarrow> email_info \<Rightarrow> email_info \<times> byte list \<times> byte list" where
  "email_headers x head e =
     (let (head, _) = moveHeader head (10 # str ''MIME-Version:'') 0;
          (head, fr) = moveHeader head (10 # str ''From:'') 255;
          (head, rt) = moveHeader head (10 # str ''Reply-To:'') 255;
          (head, to) = moveHeader head (10 # str ''To:'') 63;
          (head, sb) = moveHeader head (10 # str ''Subject:'') 255;
          (head, ct) = moveHeader head (10 # str ''Content-Type:'') 255;
          (head, date) = moveHeader head (10 # str ''Date:'') 255;
          (hdrTime, tz) = (if new_value date [] = [] then (0, None) else smtp_getTime (me_mktime x) (takeWhile (\<lambda>c. c \<noteq> 0) (new_value date [])));
          (head, mid) = moveHeader head (10 # str ''Message-ID:'') 255
      in (e\<lparr>dl_hdrFr := minifyHeaderAddress (new_value fr (dl_hdrFr e)), dl_hdrRt := minifyHeaderAddress (new_value rt (dl_hdrRt e)),
            dl_hdrTo := minifyHeaderAddress (new_value to (dl_hdrTo e)), dl_sbjct := new_value sb (dl_sbjct e),
            dl_hdrTz := (case tz of None \<Rightarrow> dl_hdrTz e | Some z \<Rightarrow> z),
            dl_hdrTs := (if hdrTime > 0 then time_diff (dl_timestamp e) hdrTime else dl_hdrTs e),
            dl_msgId := (if new_value mid [] = [] then dl_msgId e else msg_id (new_value mid []))\<rparr>,
          head, new_value ct []))"

definition copied_body :: "mime_ext \<Rightarrow> nat \<Rightarrow> byte list option" where
  "copied_body x lenSrc = (if me_mem x lenSrc then Some [] else None)"

text \<open>The body of a multipart message.  When there is no boundary, or no text, the whole message is copied, but its length
  is not: it stays 0, as AEM-MTA has sent it, or as \<open>decodeMp\<close> has left it.\<close>

definition multi_body ::
  "mime_ext \<Rightarrow> u32 \<Rightarrow> byte list \<Rightarrow> byte list \<Rightarrow> byte list \<Rightarrow> (byte list option \<times> byte list list \<times> u32) option" where
  "multi_body x tags ct src beh =
     (case getBound x (drop 9 ct) of
        None \<Rightarrow> Some (copied_body x (length src), [], tags)
      | Some bound \<Rightarrow> do {
          (body, att, t) \<leftarrow> decodeMp x tags src beh [] bound;
          Some (case body of None \<Rightarrow> copied_body x (length src) | Some t \<Rightarrow> Some t, att, t)
        })"

definition single_body :: "mime_ext \<Rightarrow> u32 \<Rightarrow> byte list \<Rightarrow> byte list \<Rightarrow> byte list \<Rightarrow> (byte list option \<times> byte list list \<times> u32) option" where
  "single_body x tags ct te src =
     (if \<not> me_mem x (length src + 1) then Some (None, [], tags)
      else
        let cte = (if memcasemem te (str ''quoted-printable'') \<noteq> None then CTE_QP
              else if memcasemem te (str ''base64'') \<noteq> None then CTE_B64 else CTE_NONE);
            b = decodeCte x cte True (src @ [0], length src)
        in if length ct < 2 \<or> is_text ct then do {(t, tags) \<leftarrow> text_part x tags ct (is_html ct) b; Some (Some t, [], tags)}
        else Some (Some (tb_text b), [], tags))"

definition processEmail :: "mime_ext \<Rightarrow> u32 \<Rightarrow> tbuf \<Rightarrow> email_info \<Rightarrow> (email_info \<times> byte list list \<times> u32) option" where
  "processEmail x tags b0 e0 =
     (case processDkim x b0 e0 of
        (b, e) \<Rightarrow>
          let b = tb_in_place removeControlChars b
          in do {
            hd \<leftarrow> getHeaders x (tb_text b);
            case hd of
              None \<Rightarrow> Some (e, [], tags)
            | Some (head, src) \<Rightarrow>
                let beh = drop (length src) (write_at 0 src (fst b));
                    (e, head, ct) = email_headers x head e;
                    (head, te) = moveHeader head (10 # str ''Content-Transfer-Encoding:'') 255
                in do {
                  (body, att, tags) \<leftarrow> (if is_multipart ct then multi_body x tags ct src beh
                                        else single_body x tags ct (new_value te []) src);
                  Some (e\<lparr>dl_head := head, dl_body := map_option (\<lambda>t. filterUtf8 t True) body, dl_attachCount := length att\<rparr>, att, tags)
                }
          })"

section \<open>Delivery (deliver.c)\<close>

definition makeSrcBr :: "dlv_ext \<Rightarrow> mime_ext \<Rightarrow> byte list \<Rightarrow> u32 \<Rightarrow> byte list option" where
  "makeSrcBr d x input ts =
     (if length input > 1048576 \<or> \<not> me_mem x (AEM_MSG_HDR_SZ + 3 + 10 + (length input + 300)) then None
      else case brotli d input of
        None \<Rightarrow> None
      | Some z \<Rightarrow> Some (aem_msg_init (dlv_now d) AEM_MSG_TYPE_UPL (ucast ts) @ [9 OR 128, me_junk x 0, me_junk x 1] @ str ''src.eml.br'' @ z))"

definition needOriginal :: "smtp_rcpt list \<Rightarrow> bool" where
  "needOriginal rcpts = list_ex (\<lambda>r. rc_flags r AND AEM_ADDR_FLAG_ORIGIN \<noteq> 0) rcpts"

text \<open>\<open>ipinfo\<close> stands for \<open>getIpInfo\<close>; \<open>beh\<close> are the bytes of the buffer behind the message once its dots are removed.\<close>

definition deliverEmail ::
  "dlv_ext \<Rightarrow> mime_ext \<Rightarrow> (nat \<Rightarrow> nat \<Rightarrow> byte list \<Rightarrow> int) \<Rightarrow> (email_info \<Rightarrow> email_info) \<Rightarrow> u32 \<Rightarrow> smtp_rcpt list \<Rightarrow> email_info \<Rightarrow> byte list \<Rightarrow> byte list \<Rightarrow>
     (dlv_store \<times> u32) option" where
  "deliverEmail d x sto ipinfo tags rcpts e0 src0 beh =
     (let e = (ipinfo e0)\<lparr>dl_attachCount := 0, dl_head := [], dl_body := None\<rparr>;
          src = convertLineDots src0 @ crlf;
          orig = (if needOriginal rcpts then makeSrcBr d x (tl src) (dl_timestamp e) else None)
      in do {
        (e, att, tags) \<leftarrow> processEmail x tags (src @ [0] @ drop 3 beh, length src) e;
        Some (storeMessage d sto rcpts e att orig, tags)
      })"

end
