(* ===== verification/Mime_Claims.thy ===== *)
theory Mime_Claims
  imports Mime
begin

text \<open>
  What AEM-Deliver makes of received messages: the addresses, the encoded words of the headers, the parts of a
  multipart message, and what is lost.
\<close>

section \<open>Addresses\<close>

lemma mempbrk_from_shift: "mempbrk_from k s n = map_option (\<lambda>i. i + k) (mempbrk_from 0 s n)"
proof (induction s arbitrary: k)
  case (Cons h s)
  show ?case using Cons [of "Suc k"] Cons [of "Suc 0"] by (cases "mempbrk_from 0 s n") auto
qed simp

lemma memchr_Nil: "memchr [] b = None"
  by (simp add: memchr_def mempbrk_def)

lemma memchr_Cons: "memchr (c # s) b = (if c = b then Some 0 else map_option Suc (memchr s b))"
  using mempbrk_from_shift [of "Suc 0" s "[b]"] by (simp add: memchr_def mempbrk_def)

lemma memchr_skip: "b \<notin> set s \<Longrightarrow> memchr (s @ t) b = map_option (\<lambda>k. k + length s) (memchr t b)"
proof (induction s)
  case (Cons c s)
  then show ?case by (cases "memchr t b") (auto simp: memchr_Cons)
qed (simp add: option.map_ident)

lemma memchr_here: "b \<notin> set s \<Longrightarrow> memchr (s @ b # t) b = Some (length s)"
  by (simp add: memchr_skip memchr_Cons)

lemma name_start_spaces: "list_all is_space w \<Longrightarrow> s \<noteq> [] \<Longrightarrow> \<not> is_space (hd s) \<Longrightarrow> name_start (w @ s) = s"
proof (induction w)
  case Nil
  then show ?case by (cases s rule: name_start.cases) auto
next
  case (Cons c w)
  then obtain d t where "w @ s = d # t" by (cases "w @ s") auto
  then show ?case using Cons by simp
qed

lemma rstrip_spaces: "list_all p w \<Longrightarrow> s \<noteq> [] \<Longrightarrow> \<not> p (last s) \<Longrightarrow> rstrip p (s @ w) = s"
proof -
  assume w: "list_all p w" "s \<noteq> []" "\<not> p (last s)"
  have "dropWhile p (rev w @ rev s) = rev s" using w by (cases s rule: rev_cases) (auto simp: list_all_iff dropWhile_append)
  then show ?thesis by (simp add: rstrip_def)
qed

definition display_name :: "byte list \<Rightarrow> bool" where
  "display_name n \<longleftrightarrow> n \<noteq> [] \<and> 60 \<notin> set n \<and> 62 \<notin> set n \<and> \<not> is_space (hd n) \<and> \<not> is_space (last n) \<and> hd n \<noteq> 34"

lemma space_bracket: "list_all is_space w \<Longrightarrow> 60 \<notin> set w \<and> 62 \<notin> set w"
  by (auto simp: list_all_iff is_space_def)

lemma minify_split:
  assumes "60 \<notin> set pre" "62 \<notin> set pre" "60 \<notin> set addr" "62 \<notin> set addr"
  shows "memchr (pre @ 60 # addr @ 62 # rest) 60 = Some (length pre)" "memchr (pre @ 60 # addr @ 62 # rest) 62 = Some (length pre + 1 + length addr)"
proof -
  show "memchr (pre @ 60 # addr @ 62 # rest) 60 = Some (length pre)" by (rule memchr_here [OF assms(1)])
  have "62 \<notin> set (pre @ 60 # addr)" using assms by simp
  from memchr_here [OF this, of rest] show "memchr (pre @ 60 # addr @ 62 # rest) 62 = Some (length pre + 1 + length addr)" by simp
qed

section \<open>Properties: addresses\<close>

text \<open>an address with a name in front of it - quoted or not, with any white space around it - becomes the
  name and the address with a separator in between; without a name the address alone remains.  What stands behind the
  address is cut off.\<close>

theorem address_minified:
  assumes "list_all is_space w1" "list_all is_space w2" "60 \<notin> set addr" "62 \<notin> set addr" "display_name nm"
  shows "minifyHeaderAddress (w1 @ nm @ w2 @ 60 # addr @ 62 # rest) = nm @ 127 # addr \<and>
    minifyHeaderAddress (w1 @ 34 # nm @ 34 # w2 @ 60 # addr @ 62 # rest) = nm @ 127 # addr \<and>
    minifyHeaderAddress (60 # addr @ 62 # rest) = addr"
proof (intro conjI)
  have n: "nm \<noteq> []" "60 \<notin> set nm" "62 \<notin> set nm" "\<not> is_space (hd nm)" "\<not> is_space (last nm)" "hd nm \<noteq> 34"
    using assms(5) by (auto simp: display_name_def)
  note w = space_bracket [OF assms(1)] space_bracket [OF assms(2)]
  have q: "\<not> is_space 34" by (simp add: is_space_def)
  have split: "minifyHeaderAddress (pre @ 60 # addr @ 62 # rest) =
      (let nm = name_start pre; quot = (hd nm = 34); nm = (if quot then tl nm else nm)
       in if nm = [] then addr
          else let nm = rstrip is_space nm; nm = (if quot \<and> nm \<noteq> [] \<and> last nm = 34 then butlast nm else nm)
               in if nm = [] then addr else nm @ 127 # addr)"
    if "60 \<notin> set pre" "62 \<notin> set pre" "pre \<noteq> []" for pre
    using minify_split [OF that(1,2) assms(3,4), of rest] that(3) unfolding minifyHeaderAddress_def AEM_CET_CHAR_SEP_def by simp
  have "name_start (w1 @ nm @ w2) = nm @ w2" by (rule name_start_spaces) (use assms(1) n in simp_all)
  moreover have "rstrip is_space (nm @ w2) = nm" by (rule rstrip_spaces) (use assms(2) n in simp_all)
  ultimately show "minifyHeaderAddress (w1 @ nm @ w2 @ 60 # addr @ 62 # rest) = nm @ 127 # addr"
    using split [of "w1 @ nm @ w2"] w n by (simp add: Let_def)
  have "name_start (w1 @ 34 # nm @ 34 # w2) = 34 # nm @ 34 # w2" by (rule name_start_spaces) (use assms(1) q in simp_all)
  moreover have "rstrip is_space ((nm @ [34]) @ w2) = nm @ [34]" by (rule rstrip_spaces) (use assms(2) q in simp_all)
  ultimately show "minifyHeaderAddress (w1 @ 34 # nm @ 34 # w2 @ 60 # addr @ 62 # rest) = nm @ 127 # addr"
    using split [of "w1 @ 34 # nm @ 34 # w2"] w n by (simp add: Let_def)
  show "minifyHeaderAddress (60 # addr @ 62 # rest) = addr"
    using minify_split [of "[]" addr rest] assms(3,4) unfolding minifyHeaderAddress_def by simp
qed

theorem address_minified_witness:
  "minifyHeaderAddress ([32, 34] @ str ''Bob B'' @ [34, 32, 60] @ str ''b@c.test'' @ [62, 59]) = str ''Bob B'' @ 127 # str ''b@c.test''"
proof -
  have a: "list_all is_space [32]" "60 \<notin> set (str ''b@c.test'')" "62 \<notin> set (str ''b@c.test'')" "display_name (str ''Bob B'')" by code_simp+
  show ?thesis using address_minified [OF a(1,1,2,3,4), of "[59]"] by simp
qed

section \<open>Encoded words\<close>

text \<open>An encoded word in UTF-8: whether it is Base64, its code and the text it stands for.\<close>

type_synonym enc_word = "bool \<times> byte list \<times> byte list"

definition ew_bytes :: "enc_word \<Rightarrow> byte list" where
  "ew_bytes w = (case w of (b, e, t) \<Rightarrow> 61 # 63 # str ''utf-8'' @ 63 # (if b then 66 else 81) # 63 # e @ [63, 61])"

definition ew_meaning :: "enc_word \<Rightarrow> byte list" where
  "ew_meaning w = snd (snd w)"

definition ew_ok :: "enc_word \<Rightarrow> bool" where
  "ew_ok w \<longleftrightarrow> (case w of (b, e, t) \<Rightarrow>
     e \<noteq> [] \<and> 63 \<notin> set e \<and> 10 \<notin> set e \<and> t \<noteq> [] \<and> 10 \<notin> set t \<and> isValidUtf8 t \<and> length t \<le> length e + 12 \<and>
     (if b then b64_digits e = b64_encode t else qp_encodes (map (\<lambda>c. if c = 95 then 32 else c) e) t))"

text \<open>White space between words: spaces, and line breaks in front of spaces.\<close>

fun fold_space :: "byte list \<Rightarrow> bool" where
  "fold_space [] \<longleftrightarrow> True"
| "fold_space (c # s) \<longleftrightarrow> (c = 32 \<or> c = 10 \<and> s \<noteq> [] \<and> hd s = 32) \<and> fold_space s"

lemma memmem_skip: "63 \<notin> set e \<Longrightarrow> memmem (e @ 63 # 61 # r) [63, 61] = Some (length e)"
  by (induction e) auto

lemma filterUtf8_same: "isValidUtf8 t \<Longrightarrow> filterUtf8 t False = t"
  using filterUtf8_concat isValidUtf8_split by metis

lemma ew_read:
  assumes "ew_ok w" "\<And>n. me_mem x n" "fst w = b" "fst (snd w) = e"
  shows "ew_text x (str ''utf-8'') (ew_decode x b e) (12 + length e) = ew_meaning w"
proof -
  obtain t where w: "w = (b, e, t)" using assms(3,4) by (cases w) auto
  have t: "isValidUtf8 t" "length t \<le> length e + 12" "b \<Longrightarrow> b64_digits e = b64_encode t"
    "\<not> b \<Longrightarrow> qp_encodes (map (\<lambda>c. if c = 95 then 32 else c) e) t" using assms(1) by (auto simp: ew_ok_def w)
  have d: "ew_decode x b e = t"
  proof (cases b)
    case True
    then show ?thesis using t(3) by (simp add: ew_decode_def aem_base642bin_eq b64_bytes_encode)
  next
    case False
    then show ?thesis using qp_encodes_decode [OF t(4)] assms(2) by (simp add: ew_decode_def decodeQuotedPrintable_def)
  qed
  have u: "isUtf8 (str ''utf-8'')" by code_simp
  show ?thesis using t(1,2) u unfolding d ew_text_def by (simp add: w ew_meaning_def filterUtf8_same add.commute)
qed

lemma clean_ew:
  assumes "ew_ok w" "\<And>n. me_mem x n"
  shows "clean_hdrs x beh (ew_bytes w @ r) out keep wasEw colon =
    (let out = (if wasEw then strip_to keep out else out) @ ew_meaning w in clean_hdrs x beh r out (length out) True 1)"
proof -
  obtain b e t where w: "w = (b, e, t)" by (cases w)
  have k: "63 \<notin> set e" "e \<noteq> []" using assms(1) by (auto simp: ew_ok_def w)
  have u: "length (str ''utf-8'') = 5" "63 \<notin> set (str ''utf-8'')" by code_simp+
  define c where "c = (if b then 66 else 81 :: byte)"
  have c: "(to_upper c = 66) = b" "to_upper c = 66 \<or> to_upper c = 81" by (auto simp: c_def to_upper_def is_lower_def)
  define d where "d = str ''utf-8'' @ 63 # c # 63 # e @ 63 # 61 # r"
  have s: "ew_bytes w @ r = 61 # 63 # d" by (simp add: ew_bytes_def w d_def c_def)
  have m: "memchr d 63 = Some 5" using memchr_here [OF u(2)] u(1) unfolding d_def by simp
  have q: "take 5 d = str ''utf-8''" "drop 5 d = 63 # c # 63 # e @ 63 # 61 # r" "drop 8 d = e @ 63 # 61 # r" "length d \<ge> 8"
    using u(1) by (simp_all add: d_def)
  have n: "memmem (drop 8 d) [63, 61] = Some (length e)" "take (length e) (drop 8 d) = e" "drop (length e + 2) (drop 8 d) = r"
    unfolding q(3) using memmem_skip [OF k(1)] by simp_all
  have rd: "ew_text x (str ''utf-8'') (ew_decode x b e) (12 + length e) = ew_meaning w" by (rule ew_read [OF assms]) (simp_all add: w)
  show ?thesis
    unfolding s using m q(1,2,4) n c k(2) rd
    by (subst clean_hdrs.simps(2)) (auto simp: Let_def simp del: drop_drop memmem.simps)
qed

lemma strip_spaces: "list_all (\<lambda>b. b = 32) sp \<Longrightarrow> strip_to (length base) (base @ sp) = base"
proof -
  assume "list_all (\<lambda>b. b = 32) sp"
  then have "dropWhile (\<lambda>b. b = 32) (rev sp) = []" by (simp add: list_all_iff)
  then show ?thesis by (simp add: strip_to_def rstrip_def)
qed

text \<open>White space behind an encoded word adds at most spaces, which the next one takes back.\<close>

lemma clean_space:
  "fold_space s \<Longrightarrow> list_all (\<lambda>b. b = 32) sp \<Longrightarrow>
   \<exists>sp'. list_all (\<lambda>b. b = 32) sp' \<and>
     clean_hdrs x beh (s @ r) (base @ sp) (length base) True 1 = clean_hdrs x beh r (base @ sp') (length base) True 1"
proof (induction s arbitrary: sp)
  case (Cons c s)
  show ?case
  proof (cases "c = 32")
    case True
    define out where "out = (if base @ sp = [] \<or> last (base @ sp) \<noteq> 32 then (base @ sp) @ [32] else base @ sp)"
    have e: "clean_hdrs x beh ((c # s) @ r) (base @ sp) (length base) True 1 = clean_hdrs x beh (s @ r) out (length base) True 1"
      using True by (subst append_Cons, subst clean_hdrs.simps(2)) (simp add: out_def)
    obtain sp1 where "list_all (\<lambda>b. b = 32) sp1" "out = base @ sp1"
    proof (cases "base @ sp = [] \<or> last (base @ sp) \<noteq> 32")
      case True
      then show ?thesis using Cons.prems(2) that [of "sp @ [32]"] by (simp add: out_def)
    next
      case False
      then show ?thesis using Cons.prems(2) that [of sp] by (simp add: out_def)
    qed
    then show ?thesis using Cons.IH [of sp1] Cons.prems(1) e by simp
  next
    case False
    then have c: "c = 10" "s \<noteq> []" "hd s = 32" "fold_space s" using Cons.prems(1) by auto
    have "clean_hdrs x beh ((c # s) @ r) (base @ sp) (length base) True 1 = clean_hdrs x beh (s @ r) (base @ sp) (length base) True 1"
      using c by (subst append_Cons, subst clean_hdrs.simps(2)) simp
    then show ?thesis using Cons.IH [OF c(4) Cons.prems(2)] by simp
  qed
qed (auto intro: exI)

lemma clean_words:
  "list_all (\<lambda>(s, w). fold_space s \<and> ew_ok w) ws \<Longrightarrow> (\<And>n. me_mem x n) \<Longrightarrow>
   clean_hdrs x beh (concat (map (\<lambda>(s, w). s @ ew_bytes w) ws)) out (length out) True 1 = Some (out @ concat (map (\<lambda>(s, w). ew_meaning w) ws))"
proof (induction ws arbitrary: out)
  case (Cons a ws)
  obtain s w where a: "a = (s, w)" by (cases a)
  define r where "r = concat (map (\<lambda>(s, w). s @ ew_bytes w) ws)"
  have k: "fold_space s" "ew_ok w" using Cons.prems(1) a by auto
  obtain sp where sp: "list_all (\<lambda>b. b = 32) sp"
    "clean_hdrs x beh (s @ ew_bytes w @ r) (out @ []) (length out) True 1 = clean_hdrs x beh (ew_bytes w @ r) (out @ sp) (length out) True 1"
    using clean_space [OF k(1), of "[]" x beh "ew_bytes w @ r" out] by auto
  have "clean_hdrs x beh (s @ ew_bytes w @ r) out (length out) True 1 =
      clean_hdrs x beh r (out @ ew_meaning w) (length (out @ ew_meaning w)) True 1"
    using sp(2) clean_ew [OF k(2) Cons.prems(2), of beh r "out @ sp" "length out" True 1] strip_spaces [OF sp(1), of out]
    by (simp add: Let_def)
  then show ?case using Cons.IH [of "out @ ew_meaning w"] Cons.prems a by (simp flip: r_def)
qed (simp add: clean_hdrs.simps(1))

section \<open>Properties: the subject\<close>

text \<open>The end of the headers is the first empty line.\<close>

fun no_empty_line :: "byte list \<Rightarrow> bool" where
  "no_empty_line [] \<longleftrightarrow> True"
| "no_empty_line [c] \<longleftrightarrow> c \<noteq> 10"
| "no_empty_line (c # d # s) \<longleftrightarrow> \<not> (c = 10 \<and> d = 10) \<and> no_empty_line (d # s)"

lemma no_empty_append: "no_empty_line a \<Longrightarrow> no_empty_line b \<Longrightarrow> no_empty_line (a @ b)"
proof (induction a rule: no_empty_line.induct)
  case (2 c)
  then show ?case by (cases b) auto
qed auto

lemma no_empty_plain: "10 \<notin> set a \<Longrightarrow> no_empty_line a"
  by (induction a rule: no_empty_line.induct) auto

lemma no_empty_fold: "fold_space a \<Longrightarrow> no_empty_line a"
  by (induction a rule: no_empty_line.induct) auto

lemma memmem_empty_line: "no_empty_line h \<Longrightarrow> memmem (h @ 10 # 10 # b) [10, 10] = Some (length h)"
proof (induction h rule: no_empty_line.induct)
  case (2 c)
  then show ?case by simp
qed auto

definition subject_line :: "nat \<Rightarrow> enc_word \<Rightarrow> (byte list \<times> enc_word) list \<Rightarrow> byte list" where
  "subject_line n w ws = 10 # str ''Subject:'' @ replicate n 32 @ ew_bytes w @ concat (map (\<lambda>(s, w). s @ ew_bytes w) ws)"

definition subject_text :: "enc_word \<Rightarrow> (byte list \<times> enc_word) list \<Rightarrow> byte list" where
  "subject_text w ws = ew_meaning w @ concat (map (\<lambda>(s, w). ew_meaning w) ws)"

lemma subject_start:
  "clean_hdrs x beh (10 # str ''Subject:'' @ replicate n 32 @ 61 # r) [] 0 False (-1) = clean_hdrs x beh (61 # r) (10 # str ''Subject:'') 0 False 0"
proof -
  have d: "dropWhile (\<lambda>b. b = 32) (replicate n 32 @ 61 # r) = 61 # r" by (induction n) simp_all
  show ?thesis unfolding str_def by (simp add: clean_hdrs.simps(2) rstrip_def d)
qed

lemma ew_no_empty: "ew_ok w \<Longrightarrow> no_empty_line (ew_bytes w)"
proof -
  assume "ew_ok w"
  moreover have "10 \<notin> set (str ''utf-8'')" by code_simp
  ultimately have "10 \<notin> set (ew_bytes w)" by (cases w) (auto simp: ew_ok_def ew_bytes_def)
  then show ?thesis by (rule no_empty_plain)
qed

lemma memcasemem_self: "memcasemem (n @ t) n = Some 0" if "n \<noteq> []"
proof -
  have "case_probe (n @ t) n = Match" by (induction n) auto
  then show ?thesis using that by (cases n) (simp_all add: memcasemem_def)
qed

text \<open>C30: a subject of encoded words in UTF-8 - Base64 or Quoted-Printable, on one line or folded - is read as the
  concatenation of the texts they stand for, cut at 255 bytes, and nothing of it stays in the headers.\<close>

theorem subject_read:
  assumes "ew_ok w" "list_all (\<lambda>(s, w). fold_space s \<and> ew_ok w) ws" "\<And>n. me_mem x n"
  shows "\<exists>head. getHeaders x (subject_line n w ws @ [10, 10] @ body) = Some (Some (head, 10 # body)) \<and>
    moveHeader head (10 # str ''Subject:'') 255 = ([], Some (take 255 (subject_text w ws)))"
proof (intro exI conjI)
  define l where "l = subject_line n w ws"
  obtain b e t where w: "w = (b, e, t)" by (cases w)
  define r where "r = concat (map (\<lambda>(s, w). s @ ew_bytes w) ws)"
  have u: "\<exists>q. ew_bytes w @ r = 61 # q" by (simp add: ew_bytes_def w)
  have "cleanHeaders x [0] l = clean_hdrs x [0] (ew_bytes w @ r) (10 # str ''Subject:'') 0 False 0"
    using u subject_start by (auto simp: cleanHeaders_def l_def subject_line_def r_def)
  also have "\<dots> = Some (10 # str ''Subject:'' @ subject_text w ws)"
    using clean_ew [OF assms(1,3), of "[0]" r "10 # str ''Subject:''" 0 False 0]
      clean_words [OF assms(2,3), of "[0]" "(10 # str ''Subject:'') @ ew_meaning w"]
    by (simp add: Let_def subject_text_def flip: r_def)
  finally have c: "cleanHeaders x [0] l = Some (10 # str ''Subject:'' @ subject_text w ws)" .
  have "no_empty_line r" using assms(2) unfolding r_def
    by (induction ws) (auto intro!: no_empty_append intro: no_empty_fold ew_no_empty)
  moreover have "10 # str ''Subject:'' @ replicate n 32 = [10] @ str ''Subject:'' @ replicate n 32" by simp
  moreover have "no_empty_line (10 # str ''Subject:'' @ replicate n 32)"
    unfolding str_def by (simp add: no_empty_plain)
  ultimately have "no_empty_line ((10 # str ''Subject:'' @ replicate n 32) @ ew_bytes w @ r)"
    using ew_no_empty [OF assms(1)] by (intro no_empty_append)
  then have "no_empty_line l" by (simp add: l_def subject_line_def r_def)
  from memmem_empty_line [OF this] have m: "memmem (l @ [10, 10] @ body) [10, 10] = Some (length l)" by simp
  have "length l \<ge> 5" by (simp add: l_def subject_line_def)
  then show "getHeaders x (l @ [10, 10] @ body) = Some (Some (10 # str ''Subject:'' @ subject_text w ws, 10 # body))"
    unfolding getHeaders_def using m c assms(3) by simp
  have "10 \<notin> set (subject_text w ws)"
    using assms(1,2) by (auto simp: subject_text_def ew_ok_def ew_meaning_def list_all_iff)
  then have k: "memchr (subject_text w ws) 10 = None" using memchr_skip [of 10 "subject_text w ws" "[]"] by (simp add: memchr_Nil)
  have "memcasemem ((10 # str ''Subject:'') @ subject_text w ws) (10 # str ''Subject:'') = Some 0" by (rule memcasemem_self) simp
  then show "moveHeader (10 # str ''Subject:'' @ subject_text w ws) (10 # str ''Subject:'') 255 = ([], Some (take 255 (subject_text w ws)))"
    using k by (simp add: moveHeader_def Let_def min_def)
qed

definition demo_mime :: mime_ext where
  "demo_mime = \<lparr>me_mem = (\<lambda>n. True), me_conv = (\<lambda>c s n. None), me_behind = (\<lambda>u. [0]), me_mktime = (\<lambda>t. 0), me_junk = (\<lambda>n. 0),
     me_dkim = (\<lambda>e s n. (e, 0))\<rparr>"

theorem subject_read_witness:
  "\<exists>head. getHeaders demo_mime (subject_line 1 (True, str ''SGkg'', str ''Hi '') [([10, 32], (False, str ''a_=C3=A9'', [97, 32, 195, 169]))] @ [10, 10] @ []) =
      Some (Some (head, [10])) \<and>
    moveHeader head (10 # str ''Subject:'') 255 = ([], Some (str ''Hi '' @ [97, 32, 195, 169]))"
proof -
  define v :: enc_word where "v = (False, str ''a_=C3=A9'', [97, 32, 195, 169])"
  have a: "ew_ok (True, str ''SGkg'', str ''Hi '')" by code_simp
  have q: "map (\<lambda>c. if c = 95 then 32 else c) (str ''a_=C3=A9'') = [97, 32, 61, 67, 51, 61, 65, 57]" by code_simp
  have d: "is_xdigit 67" "is_xdigit 51" "is_xdigit 65" "is_xdigit 57" "195 = hexToChar 67 51" "169 = hexToChar 65 57" by code_simp+
  have "qp_encodes [97, 32, 61, 67, 51, 61, 65, 57] [97, 32, 195, 169]"
    by (intro qp_char qp_code [OF d(1,2,5)] qp_code [OF d(3,4,6)] qp_end) simp_all
  moreover have "isValidUtf8 [97, 32, 195, 169]" "63 \<notin> set (str ''a_=C3=A9'')" "10 \<notin> set (str ''a_=C3=A9'')" "str ''a_=C3=A9'' \<noteq> []" by code_simp+
  ultimately have b: "list_all (\<lambda>(s, w). fold_space s \<and> ew_ok w) [([10, 32], v)]" unfolding v_def
    by (simp add: ew_ok_def q del: isValidUtf8.simps)
  have m: "me_mem demo_mime k" for k by (simp add: demo_mime_def)
  have t: "take 255 (subject_text (True, str ''SGkg'', str ''Hi '') [([10, 32], v)]) = str ''Hi '' @ [97, 32, 195, 169]" unfolding v_def by code_simp
  show ?thesis by (rule subject_read [OF a b m, of 1 "[]", unfolded t, unfolded v_def])
qed

end
