(* ===== verification/Mime_Parts.thy ===== *)
theory Mime_Parts
  imports Mime_Claims
begin

text \<open>
  The loop of \<open>decodeMp\<close> against a reference: reading the parts of a multipart message one after the other.  Then
  what the code loses: the end of attachments, mails without a body, bodies without a boundary.
\<close>

section \<open>The reference\<close>

text \<open>A part is its headers and its contents, an empty line in between.\<close>

type_synonym mime_part = "byte list \<times> byte list"
type_synonym mp_result = "byte list option \<times> byte list list \<times> u32"

definition part_bytes :: "byte list \<Rightarrow> mime_part \<Rightarrow> byte list" where
  "part_bytes bound p = bound @ fst p @ 10 # 10 # snd p"

definition multi_bytes :: "byte list \<Rightarrow> mime_part list \<Rightarrow> byte list" where
  "multi_bytes bound ps = concat (map (part_bytes bound) ps) @ bound @ [45, 45]"

definition content_type :: "byte list \<Rightarrow> byte list" where
  "content_type ph = (case memcasemem ph (str ''Content-Type:'') of None \<Rightarrow> [] | Some c \<Rightarrow> drop (c + 13) ph)"

definition read_part :: "mime_ext \<Rightarrow> mime_part \<Rightarrow> mp_result \<Rightarrow> mp_result option" where
  "read_part x p r =
     (case r of (out, att, tags) \<Rightarrow>
       do {
         ph \<leftarrow> cleanHeaders x [] (fst p @ [10]);
         fn \<leftarrow> getNameHeader (content_type ph);
         let ct = content_type ph;
         let b = decodeCte x (getCte ph) (is_text ct) (10 # snd p @ [0], length (snd p) + 1);
         let fn = take 128 fn;
         if is_text ct then do {
           (t, tags) \<leftarrow> text_part x tags ct (is_html ct) b;
           Some (Some (case out of None \<Rightarrow> t | Some u \<Rightarrow> u @ AEM_CET_CHAR_SEP # t), att, tags)
         } else
           Some (out, if length att < AEM_MAXNUM_ATTACHMENTS \<and> AEM_MSG_HDR_SZ + 1 + length fn + snd b \<le> AEM_MSG_W_MAXSIZE
                    then att @ [attachment x fn (tb_text b)] else att, tags)
       })"

fun read_parts :: "mime_ext \<Rightarrow> mime_part list \<Rightarrow> mp_result \<Rightarrow> mp_result option" where
  "read_parts x [] r = Some r"
| "read_parts x (p # ps) r = do {r' \<leftarrow> read_part x p r; read_parts x ps r'}"

text \<open>Headers without an empty line, of usual length, that are not themselves multipart; contents in which the boundary
  does not occur.\<close>

definition part_ok :: "mime_ext \<Rightarrow> byte list \<Rightarrow> mime_part \<Rightarrow> bool" where
  "part_ok x bound p \<longleftrightarrow>
     no_empty_line (fst p) \<and> length (fst p) < 9999 \<and> take 2 (fst p @ [10]) \<noteq> [45, 45] \<and>
     memmem (10 # snd p @ bound) bound = Some (length (snd p) + 1) \<and>
     (case cleanHeaders x [] (fst p @ [10]) of None \<Rightarrow> True | Some ph \<Rightarrow> \<not> is_multipart (content_type ph))"

section \<open>The loop reads the parts\<close>

lemma memmem_append: "memmem s n = Some k \<Longrightarrow> memmem (s @ r) n = Some k"
proof (induction s arbitrary: k)
  case Nil
  then have "n = []" "k = 0" by (auto split: if_splits)
  then show ?case by (cases r) simp_all
next
  case (Cons c s)
  have b: "length n \<le> length (c # s)" using memmem_bound [OF Cons.prems] by simp
  then have t: "take (length n) (c # s @ r) = take (length n) (c # s)" by (cases "length n") simp_all
  show ?case using Cons t by (auto split: if_splits)
qed

lemma memmem_here: "memmem (g @ n) n = Some (length g) \<Longrightarrow> memmem (g @ n @ r) n = Some (length g)"
  using memmem_append [of "g @ n" n "length g" r] by simp

lemma memmem_self: "memmem n n = Some 0"
  by (cases n) simp_all

definition mp_res :: "mp \<Rightarrow> mp_result" where
  "mp_res s = (mp_out s, mp_att s, mp_tags s)"

lemma mp_part_read:
  assumes "\<And>n. me_mem x n" "cleanHeaders x [] (fst p @ [10]) = Some ph" "getNameHeader (content_type ph) = Some fn"
  shows "case mp_part x ph (content_type ph) (take 128 fn) (10 # snd p) s of
      None \<Rightarrow> read_part x p (mp_res s) = None
    | Some (stop, s') \<Rightarrow> \<not> stop \<and> read_part x p (mp_res s) = Some (mp_res s')"
proof -
  define ct where "ct = content_type ph"
  define b where "b = decodeCte x (getCte ph) (is_text ct) (10 # snd p @ [0], length (snd p) + 1)"
  have b': "decodeCte x (getCte ph) (is_text ct) ((10 # snd p) @ [0], length (10 # snd p)) = b" by (simp add: b_def)
  have rp: "read_part x p (mp_res s) =
      (if is_text ct then do {
           (t, tags) \<leftarrow> text_part x (mp_tags s) ct (is_html ct) b;
           Some (Some (case mp_out s of None \<Rightarrow> t | Some u \<Rightarrow> u @ AEM_CET_CHAR_SEP # t), mp_att s, tags)
         } else
           Some (mp_out s, if length (mp_att s) < AEM_MAXNUM_ATTACHMENTS \<and> AEM_MSG_HDR_SZ + 1 + length (take 128 fn) + snd b \<le> AEM_MSG_W_MAXSIZE
                    then mp_att s @ [attachment x (take 128 fn) (tb_text b)] else mp_att s, mp_tags s))"
    by (simp only: read_part_def mp_res_def prod.case assms(2) assms(3) [folded ct_def] ct_def [symmetric] Option.bind.simps Let_def b_def if_cancel)
  show ?thesis
  proof (cases "is_text ct")
    case True
    then show ?thesis unfolding rp mp_part_def Let_def ct_def [symmetric] b'
      by (auto simp: assms(1) mp_res_def split: Option.bind_splits option.splits)
  next
    case False
    then show ?thesis unfolding rp mp_part_def Let_def ct_def [symmetric] b'
      by (auto simp: assms(1) mp_res_def)
  qed
qed

lemma mp_loop_parts:
  "list_all (part_ok x bound) ps \<Longrightarrow> (\<And>n. me_mem x n) \<Longrightarrow> mp_i s = 0 \<Longrightarrow> mp_bounds s = [bound] \<Longrightarrow>
   drop (mp_begin s) src = gap @ multi_bytes bound ps @ post \<Longrightarrow> memmem (gap @ bound) bound = Some (length gap) \<Longrightarrow>
   map_option mp_res (mp_loop x src beh s) = read_parts x ps (mp_res s)"
proof (induction ps arbitrary: s gap)
  case Nil
  define b where "b = mp_begin s + length gap + length bound"
  have d0: "drop (mp_begin s) src = gap @ bound @ 45 # 45 # post" using Nil.prems(5) by (simp add: multi_bytes_def)
  have d: "drop b src = 45 # 45 # post" using arg_cong [OF d0, of "drop (length gap + length bound)"]
    by (simp add: b_def add.commute add.left_commute)
  have n: "b + 1 < length src" "src ! b = 45" "src ! (b + 1) = 45"
    using arg_cong [OF d, of length] arg_cong [OF d, of "\<lambda>l. l ! 0"] arg_cong [OF d, of "\<lambda>l. l ! 1"] by auto
  have m: "memmem (drop (mp_begin s) src) bound = Some (length gap)" unfolding d0 by (rule memmem_here [OF Nil.prems(6)])
  have "mp_step x src beh s = Some (False, s\<lparr>mp_begin := 0, mp_i := 1\<rparr>)"
    using m n Nil.prems(3,4) by (simp add: mp_step_def mp_at_def Let_def nth_append flip: b_def)
  then have "mp_loop x src beh s = Some (s\<lparr>mp_begin := 0, mp_i := 1\<rparr>)"
    using Nil.prems(3,4) by (simp add: mp_loop.simps)
  then show ?case by (simp add: mp_res_def)
next
  case (Cons p ps)
  obtain h c where p: "p = (h, c)" by (cases p)
  have ok: "no_empty_line h" "length h < 9999" "take 2 (h @ [10]) \<noteq> [45, 45]" "memmem (10 # c @ bound) bound = Some (length c + 1)"
    "\<And>ph. cleanHeaders x [] (h @ [10]) = Some ph \<Longrightarrow> \<not> is_multipart (content_type ph)"
    using Cons.prems(1) by (auto simp: part_ok_def p)
  define rest where "rest = multi_bytes bound ps @ post"
  have rest: "\<exists>q. rest = bound @ q" by (cases ps) (auto simp: rest_def multi_bytes_def part_bytes_def)
  define b where "b = mp_begin s + length gap + length bound"
  have d0: "drop (mp_begin s) src = gap @ bound @ h @ 10 # 10 # c @ rest"
    using Cons.prems(5) by (simp add: multi_bytes_def part_bytes_def p rest_def)
  have d: "drop b src = h @ 10 # 10 # c @ rest" using arg_cong [OF d0, of "drop (length gap + length bound)"]
    by (simp add: b_def add.commute add.left_commute)
  have n: "b + 1 < length src" "\<not> (src ! b = 45 \<and> src ! (b + 1) = 45)"
  proof -
    show l: "b + 1 < length src" using arg_cong [OF d, of length] by simp
    have "src ! b = (h @ 10 # 10 # c @ rest) ! 0" "src ! (b + 1) = (h @ 10 # 10 # c @ rest) ! 1" using l by (simp_all flip: d)
    then show "\<not> (src ! b = 45 \<and> src ! (b + 1) = 45)" using ok(3)
      by (cases h rule: no_empty_line.cases) auto
  qed
  then have n2: "(src ! b = 45 \<and> src ! Suc b = 45) = False" by simp
  have m: "memmem (drop (mp_begin s) src) bound = Some (length gap)" unfolding d0 by (rule memmem_here [OF Cons.prems(6)])
  have e: "memmem (drop b src) [10, 10] = Some (length h)" unfolding d by (rule memmem_empty_line [OF ok(1)])
  have d1: "drop (b + length h + 1) src = 10 # c @ rest"
    using arg_cong [OF d, of "drop (length h + 1)"] by (simp add: add.commute add.left_commute)
  have f: "memmem (drop (b + length h + 1) src) bound = Some (length c + 1)"
    unfolding d1 using rest memmem_append [OF ok(4)] by (metis append_Cons append_assoc)
  have ph: "take (length h + 1) (drop b src) = h @ [10]" unfolding d by simp
  have bd: "take (length c + 1) (drop (b + length h + 1) src) = 10 # c" unfolding d1 by simp
  have d2: "drop (b + length h + 1 + (length c + 1)) src = [] @ multi_bytes bound ps @ post"
    using arg_cong [OF d1, of "drop (length c + 1)"] by (simp add: rest_def add.commute add.left_commute)
  define nx where "nx = s\<lparr>mp_begin := b + length h + 1 + (length c + 1)\<rparr>"
  have st: "mp_step x src beh s =
      do { ph \<leftarrow> cleanHeaders x [] (h @ [10]); fn \<leftarrow> getNameHeader (content_type ph);
           mp_next x ph (content_type ph) (take 128 fn) (10 # c) nx }"
    using m n(1) e f ok(2) Cons.prems(3,4) bd ph
    by (simp add: n2 mp_step_def mp_at_def Let_def nth_append content_type_def nx_def del: take_Suc_Cons drop_drop flip: b_def)
  have lp: "mp_loop x src beh s = (case mp_step x src beh s of None \<Rightarrow> None | Some (stop, s') \<Rightarrow> if stop then Some s' else mp_loop x src beh s')"
    using Cons.prems(3,4) by (subst mp_loop.simps) simp
  have none: "read_part x p (mp_res s) = None" if "cleanHeaders x [] (h @ [10]) = None \<or> (\<exists>ph. cleanHeaders x [] (h @ [10]) = Some ph \<and> getNameHeader (content_type ph) = None)"
    using that by (auto simp: read_part_def p mp_res_def)
  show ?case
  proof (cases "cleanHeaders x [] (h @ [10]) = None \<or> (\<exists>ph. cleanHeaders x [] (h @ [10]) = Some ph \<and> getNameHeader (content_type ph) = None)")
    case True
    then have "mp_loop x src beh s = None" unfolding lp st by auto
    then show ?thesis using none [OF True] by simp
  next
    case False
    then obtain ph fn where g: "cleanHeaders x [] (h @ [10]) = Some ph" "getNameHeader (content_type ph) = Some fn" by auto
    have st': "mp_step x src beh s = mp_part x ph (content_type ph) (take 128 fn) (10 # snd p) nx"
      unfolding st using g ok(5) by (simp add: mp_next_def p)
    have rs: "mp_res nx = mp_res s" by (simp add: mp_res_def nx_def)
    note r = mp_part_read [of x p ph fn nx, OF Cons.prems(2), unfolded rs]
    show ?thesis
    proof (cases "mp_part x ph (content_type ph) (take 128 fn) (10 # snd p) nx")
      case None
      then show ?thesis using r g lp st' p by simp
    next
      case (Some y)
      obtain stop s' where y: "y = (stop, s')" by (cases y)
      have q: "\<not> stop" "read_part x p (mp_res s) = Some (mp_res s')" using r g p Some y by auto
      have k: "mp_begin s' = mp_begin nx" "mp_i s' = mp_i nx" "mp_bounds s' = mp_bounds nx" using mp_part_keeps Some y by blast+
      have "map_option mp_res (mp_loop x src beh s') = read_parts x ps (mp_res s')"
        by (rule Cons.IH [where gap = "[]"]) (use Cons.prems k d2 memmem_self in \<open>simp_all add: nx_def\<close>)
      then show ?thesis using q lp st' Some y by simp
    qed
  qed
qed

section \<open>Properties: the parts\<close>

text \<open>C31: a multipart message - anything without the boundary in front, then parts in which the boundary does not
  occur, each behind a boundary, and the final boundary, whatever follows - is read part by part: the texts are joined with a
  separator, every other part becomes an attachment while there is room, and nothing behind the final boundary is read.\<close>

theorem decodeMp_parts:
  assumes "list_all (part_ok x bound) ps" "\<And>n. me_mem x n" "memmem (pre @ bound) bound = Some (length pre)"
  shows "decodeMp x tags (pre @ multi_bytes bound ps @ post) beh att bound = read_parts x ps (None, att, tags)"
proof -
  define s where "s = \<lparr>mp_begin = 0, mp_i = 0, mp_bounds = [bound], mp_out = None, mp_att = att, mp_tags = tags\<rparr>"
  have "map_option mp_res (mp_loop x (pre @ multi_bytes bound ps @ post) beh s) = read_parts x ps (mp_res s)"
    by (rule mp_loop_parts [OF assms(1,2) _ _ _ assms(3)]) (simp_all add: s_def)
  moreover have "mp_res = (\<lambda>s. (mp_out s, mp_att s, mp_tags s))" by (rule ext) (simp add: mp_res_def)
  ultimately have "map_option (\<lambda>s. (mp_out s, mp_att s, mp_tags s)) (mp_loop x (pre @ multi_bytes bound ps @ post) beh s) =
      read_parts x ps (mp_res s)" by simp
  then show ?thesis by (simp add: decodeMp_def s_def mp_res_def)
qed

definition demo_parts :: "mime_part list" where
  "demo_parts =
     [(10 # str ''Content-Type: text/plain'', str ''Hi''),
      (10 # str ''Content-Type: a/b; name=f;'', str ''data'')]"

lemma demo_headers:
  "cleanHeaders demo_mime [] (10 # str ''Content-Type: text/plain'' @ [10]) = Some (10 # str ''Content-Type:text/plain'' @ [10])"
  "cleanHeaders demo_mime [] (10 # str ''Content-Type: a/b; name=f;'' @ [10]) = Some (10 # str ''Content-Type:a/b; name=f;'' @ [10])"
  unfolding str_def by (simp_all add: cleanHeaders_def clean_hdrs.simps(2) rstrip_def)

lemma demo_types:
  "content_type (10 # str ''Content-Type:text/plain'' @ [10]) = str ''text/plain'' @ [10]"
  "content_type (10 # str ''Content-Type:a/b; name=f;'' @ [10]) = str ''a/b; name=f;'' @ [10]"
  by code_simp+

lemma demo_names:
  "getNameHeader (str ''text/plain'' @ [10]) = Some [63]" "getNameHeader (str ''a/b; name=f;'' @ [10]) = Some [102]"
  by code_simp+

lemma demo_ctes:
  "getCte (10 # str ''Content-Type:text/plain'' @ [10]) = CTE_NONE" "getCte (10 # str ''Content-Type:a/b; name=f;'' @ [10]) = CTE_NONE"
  by code_simp+

lemma demo_kinds:
  "is_text (str ''text/plain'' @ [10])" "\<not> is_html (str ''text/plain'' @ [10])" "\<not> is_text (str ''a/b; name=f;'' @ [10])"
  "\<not> is_multipart (str ''text/plain'' @ [10])" "\<not> is_multipart (str ''a/b; name=f;'' @ [10])"
  by code_simp+

lemma demo_text: "text_part demo_mime 0 (str ''text/plain'' @ [10]) False (10 # str ''Hi'' @ [0], Suc (Suc (Suc 0))) = Some (str ''Hi'', 0)"
  by code_simp

theorem decodeMp_parts_witness:
  "decodeMp demo_mime 0 (str ''for old readers'' @ multi_bytes (10 # str ''--b'')
      [(10 # str ''Content-Type: text/plain'', str ''Hi''), (10 # str ''Content-Type: a/b; name=f;'', str ''data'')] @ [10]) [0] []
      (10 # str ''--b'') =
   Some (Some (str ''Hi''), [replicate AEM_MSG_HDR_SZ 0 @ [128, 0, 0] @ str ''f'' @ 10 # str ''da''], 0)"
proof -
  define ps :: "mime_part list" where
    "ps = [(10 # str ''Content-Type: text/plain'', str ''Hi''), (10 # str ''Content-Type: a/b; name=f;'', str ''data'')]"
  have m: "me_mem demo_mime n" for n by (simp add: demo_mime_def)
  have b: "memmem (10 # str ''Hi'' @ 10 # str ''--b'') (10 # str ''--b'') = Some 3" "memmem (10 # str ''data'' @ 10 # str ''--b'') (10 # str ''--b'') = Some 5"
    "memmem (str ''for old readers'' @ 10 # str ''--b'') (10 # str ''--b'') = Some (length (str ''for old readers''))" by code_simp+
  have h: "no_empty_line (10 # str ''Content-Type: text/plain'')" "no_empty_line (10 # str ''Content-Type: a/b; name=f;'')" by code_simp+
  have ok: "list_all (part_ok demo_mime (10 # str ''--b'')) ps"
    using h b(1,2) by (simp add: ps_def part_ok_def demo_headers demo_types demo_kinds)
  have a: "attachment demo_mime [102] (10 # str ''data'') = replicate AEM_MSG_HDR_SZ 0 @ [128, 0, 0] @ str ''f'' @ 10 # str ''da''"
    by code_simp
  have w: "39 \<le> AEM_MSG_W_MAXSIZE" by (simp add: AEM_MSG_W_MAXSIZE_def AEM_EVP_MAXSIZE_def AEM_EVP_W_OVERHEAD_def)
  have "read_parts demo_mime ps (None, [], 0) = Some (Some (str ''Hi''), [attachment demo_mime [102] (10 # str ''data'')], 0)"
    unfolding ps_def by (simp add: read_part_def demo_headers demo_types demo_names demo_ctes demo_kinds demo_text decodeCte_def tb_text_def
        AEM_MAXNUM_ATTACHMENTS_def AEM_MSG_HDR_SZ_def w)
  then show ?thesis
    using decodeMp_parts [OF ok m b(3), of 0 "[10]" "[0]" "[]"] unfolding ps_def a by simp
qed

section \<open>What is lost\<close>

text \<open>The memory of an attachment is two bytes too short: the last two bytes of its contents are cut off (the copy writes
  them behind the memory).\<close>

lemma attachment_short:
  assumes "length body \<ge> 2"
  shows "\<exists>h. length h = AEM_MSG_HDR_SZ + 3 \<and> attachment x fn body = h @ fn @ take (length body - 2) body"
proof -
  obtain n where "length body = Suc (Suc n)" using assms by (cases "length body"; cases "length body - 1") auto
  then show ?thesis
    by (intro exI [of _ "map (me_junk x) [0..<AEM_MSG_HDR_SZ] @ [128 OR (of_nat (length fn) - 1)] @ [me_junk x 0, me_junk x 1]"])
      (simp add: attachment_def numeral_3_eq_3)
qed

text \<open>An empty name is noted as one of 128 bytes.\<close>

lemma empty_name: "attachment x [] body ! AEM_MSG_HDR_SZ = 255"
  by (simp add: attachment_def nth_append)

text \<open>A message without an empty line - headers without a body, of which the client has sent no empty line - has neither
  headers nor a body.\<close>

lemma headers_only_lost:
  "memmem (tb_text (tb_in_place removeControlChars (fst (processDkim x b e)))) [10, 10] = None \<Longrightarrow>
   processEmail x tags b e = Some (snd (processDkim x b e), [], tags)"
  by (auto simp: processEmail_def getHeaders_def Let_def split: prod.split)

text \<open>A multipart message without a boundary has an empty body, though its text has been copied.\<close>

lemma boundary_lost: "getBound x (drop 9 ct) = None \<Longrightarrow> me_mem x (length src) \<Longrightarrow> multi_body x tags ct src beh = Some (Some [], [], tags)"
  by (simp add: multi_body_def copied_body_def)

text \<open>An unfinished encoded word ends the headers: all that follows is lost.\<close>

lemma encoded_word_break:
  "memchr r 63 = None \<Longrightarrow> clean_hdrs x beh (61 # 63 # r) out keep False colon = Some out"
  by (subst clean_hdrs.simps(2)) simp

end
