(* ===== verification/X509.thy ===== *)
theory X509
  imports Api Line_Dots "HOL-Library.Monad_Syntax"
begin

text \<open>
  \<^verbatim>\<open>src/Common/x509_getCn.c\<close>: the domain of the server is the common name of the subject of its certificate; the
  certificate is searched for the bytes in front of a common name, first that of the issuer, then that of the subject.

  The loop over the candidates need not end, so its result is \<open>None\<close> when it does not return, \<open>Some None\<close> when there
  is no name and \<open>Some (Some (k, n))\<close> for the \<open>n\<close> bytes at position \<open>k\<close>.  \<open>beh\<close> are the bytes behind the certificate,
  which a name that does not fit may include; reading further is \<open>None\<close> as well.  The Base64 decoder of libsodium is the
  parameter \<open>b64\<close>.
\<close>

definition cn_oid :: "byte list" where "cn_oid = [0x06, 0x03, 0x55, 0x04, 0x03, 0x13]"

text \<open>The tests on a candidate at \<open>k\<close>; the name itself must be printable.\<close>

definition cn_shape :: "byte list \<Rightarrow> nat \<Rightarrow> bool" where
  "cn_shape der k \<longleftrightarrow>
     10 \<le> k \<and> 10 \<le> length der - k \<and> 1 \<le> der ! (k + 6) \<and>
     unat (der ! (k - 1)) = unat (der ! (k + 6)) + 7 \<and> der ! (k - 2) = 0x30 \<and>
     unat (der ! (k - 3)) = unat (der ! (k + 6)) + 9 \<and> der ! (k - 4) = 0x31 \<and>
     unat (der ! (k + 6)) < length der - k"

definition cn_name :: "byte list \<Rightarrow> nat \<Rightarrow> byte list" where
  "cn_name mem k = take (unat (mem ! (k + 6))) (drop (k + 7) mem)"

partial_function (option) x509_getCn :: "byte list \<Rightarrow> byte list \<Rightarrow> nat \<Rightarrow> (nat \<times> nat) option option" where
  "x509_getCn der beh offset =
     (case memmem (drop offset der) cn_oid of
        None \<Rightarrow> Some None
      | Some j \<Rightarrow>
          let k = offset + j; nm = cn_name (der @ beh) k
          in if \<not> cn_shape der k then x509_getCn der beh k
          else if \<not> list_all is_print nm then x509_getCn der beh k
          else if length nm < unat (der ! (k + 6)) then None
          else Some (Some (k + 7, length nm)))"

definition pem_begin :: "byte list" where "pem_begin = str ''-----BEGIN CERTIFICATE-----'' @ [10]"
definition pem_end :: "byte list" where "pem_end = 10 # str ''-----END CERTIFICATE-----''"

text \<open>The subject, or the number of the error.\<close>

definition x509_getSubject :: "(byte list \<Rightarrow> byte list option) \<Rightarrow> byte list \<Rightarrow> byte list \<Rightarrow> (int + byte list) option" where
  "x509_getSubject b64 beh pem =
     (if length pem < 100 \<or> take 28 pem \<noteq> pem_begin then Some (Inl (- 1))
      else case memmem (drop 28 pem) pem_end of
        None \<Rightarrow> Some (Inl (- 2))
      | Some n \<Rightarrow>
          (case b64 (take n (drop 28 pem)) of
             None \<Rightarrow> Some (Inl (- 3))
           | Some der \<Rightarrow>
               if length der < 99 then Some (Inl (- 4))
               else do {
                 issuer \<leftarrow> x509_getCn der beh 0;
                 case issuer of
                   None \<Rightarrow> Some (Inl (- 5))
                 | Some (i, _) \<Rightarrow> do {
                     subject \<leftarrow> x509_getCn (drop i der) beh 0;
                     Some (case subject of
                         None \<Rightarrow> Inl (- 6)
                       | Some (k, m) \<Rightarrow> if m > AEM_MAXLEN_OURDOMAIN then Inl (- 6) else Inr (take m (drop k (drop i der @ beh))))
                   }
               }))"

section \<open>The loop\<close>

lemma memmem_prefix: "memmem (n @ r) n = Some 0"
  by (cases n; cases r) simp_all

lemma memmem_again: "memmem d n = Some k \<Longrightarrow> memmem (drop k d) n = Some 0"
proof -
  assume a: "memmem d n = Some k"
  then have "drop k d = n @ drop (length n) (drop k d)" using memmem_at [OF a] append_take_drop_id by metis
  then show ?thesis by (metis memmem_prefix)
qed

definition cn_rejected :: "byte list \<Rightarrow> byte list \<Rightarrow> nat \<Rightarrow> bool" where
  "cn_rejected der beh k \<longleftrightarrow> \<not> cn_shape der k \<or> \<not> list_all is_print (cn_name (der @ beh) k)"

lemma cn_no_result:
  assumes "x509_getCn der beh offset = Some r"
  shows "\<not> (\<exists>j. memmem (drop offset der) cn_oid = Some j \<and> cn_rejected der beh (offset + j))"
proof (rule x509_getCn.raw_induct [OF _ assms, where P = "\<lambda>der beh offset r. \<not> (\<exists>j. memmem (drop offset der) cn_oid = Some j \<and> cn_rejected der beh (offset + j))"])
  fix f :: "byte list \<Rightarrow> byte list \<Rightarrow> nat \<Rightarrow> (nat \<times> nat) option option" and der beh offset r
  assume ih: "\<And>der beh offset r. f der beh offset = Some r \<Longrightarrow> \<not> (\<exists>j. memmem (drop offset der) cn_oid = Some j \<and> cn_rejected der beh (offset + j))"
    and e: "(case memmem (drop offset der) cn_oid of
        None \<Rightarrow> Some None
      | Some j \<Rightarrow>
          let k = offset + j; nm = cn_name (der @ beh) k
          in if \<not> cn_shape der k then f der beh k
          else if \<not> list_all is_print nm then f der beh k
          else if length nm < unat (der ! (k + 6)) then None
          else Some (Some (k + 7, length nm))) = Some r"
  show "\<not> (\<exists>j. memmem (drop offset der) cn_oid = Some j \<and> cn_rejected der beh (offset + j))"
  proof
    assume "\<exists>j. memmem (drop offset der) cn_oid = Some j \<and> cn_rejected der beh (offset + j)"
    then obtain j where j: "memmem (drop offset der) cn_oid = Some j" "cn_rejected der beh (offset + j)" by blast
    have m: "memmem (drop (offset + j) der) cn_oid = Some 0" using memmem_again [OF j(1)] by (simp add: add.commute)
    have "f der beh (offset + j) = Some r" using e j by (auto simp: cn_rejected_def Let_def split: if_splits)
    from ih [OF this] show False using m j(2) by auto
  qed
qed

text \<open>A candidate that fails one of the tests is tried again for ever.\<close>

lemma cn_hang: "memmem der cn_oid = Some k \<Longrightarrow> cn_rejected der beh k \<Longrightarrow> x509_getCn der beh 0 = None"
  using cn_no_result [of der beh 0] by (cases "x509_getCn der beh 0") auto

section \<open>Certificates\<close>

text \<open>The common name as DER encodes it: a set of one sequence of its object identifier and a printable string.\<close>

definition rdn :: "byte list \<Rightarrow> byte list" where
  "rdn nm = [0x31, of_nat (length nm) + 9, 0x30, of_nat (length nm) + 7] @ cn_oid @ of_nat (length nm) # nm"

definition cn_text :: "byte list \<Rightarrow> bool" where
  "cn_text nm \<longleftrightarrow> nm \<noteq> [] \<and> length nm \<le> 240 \<and> list_all is_print nm"

lemma cn_found:
  assumes "cn_text nm" "6 \<le> length pre" "6 \<le> length post" "memmem (pre @ rdn nm @ post) cn_oid = Some (length pre + 4)"
  shows "x509_getCn (pre @ rdn nm @ post) beh 0 = Some (Some (length pre + 11, length nm))"
proof -
  define der where "der = pre @ rdn nm @ post"
  define k where "k = length pre + 4"
  have nm: "length nm \<ge> 1" "length nm \<le> 240" "list_all is_print nm" using assms(1) by (auto simp: cn_text_def Suc_le_eq)
  have b: "unat (of_nat (length nm) :: byte) = length nm" "unat (of_nat (length nm) + 7 :: byte) = length nm + 7"
    "unat (of_nat (length nm) + 9 :: byte) = length nm + 9" "(1 :: byte) \<le> of_nat (length nm)"
    using nm(1,2) by (simp_all add: unat_word_ariths unat_of_nat word_le_nat_alt)
  have d: "drop (length pre) der = [0x31, of_nat (length nm) + 9, 0x30, of_nat (length nm) + 7] @ cn_oid @ of_nat (length nm) # nm @ post"
    by (simp add: der_def rdn_def)
  have at: "der ! (length pre + i) = drop (length pre) der ! i" for i by (simp add: der_def)
  have l: "length der = length pre + 11 + length nm + length post" by (simp add: der_def rdn_def cn_oid_def)
  have s: "der ! (k + 6) = of_nat (length nm)" "der ! (k - 1) = of_nat (length nm) + 7" "der ! (k - 2) = 0x30"
    "der ! (k - 3) = of_nat (length nm) + 9" "der ! (k - 4) = 0x31"
    using at [of 10] at [of 3] at [of 2] at [of 1] at [of 0] unfolding d by (simp_all add: k_def cn_oid_def add.commute)
  have nam: "cn_name (der @ beh) k = nm"
  proof -
    have "(der @ beh) ! (k + 6) = of_nat (length nm)" using s(1) l assms(3) by (simp add: nth_append k_def)
    moreover have "drop (k + 7) (der @ beh) = nm @ post @ beh"
      by (simp add: der_def rdn_def cn_oid_def k_def)
    ultimately show ?thesis using b(1) by (simp add: cn_name_def)
  qed
  have sh: "cn_shape der k" unfolding cn_shape_def s b using b(4) l assms(2,3) by (simp add: k_def)
  show ?thesis
    using assms(4) sh nam nm(3) s(1) b(1) by (subst x509_getCn.simps) (simp add: k_def Let_def flip: der_def)
qed

section \<open>Properties\<close>

text \<open>From a certificate in which the common names of issuer and subject are printable strings, and no other
  bytes look like the beginning of a common name, the name of the subject is read.\<close>

theorem certificate_read:
  assumes "b64 t = Some (pre @ rdn iss @ mid @ rdn sj @ post)" "cn_text iss" "cn_text sj" "length sj \<le> 32"
    and "6 \<le> length pre" "6 \<le> length (iss @ mid)" "6 \<le> length post" "99 \<le> length (pre @ rdn iss @ mid @ rdn sj @ post)"
    and "memmem (pre @ rdn iss @ mid @ rdn sj @ post) cn_oid = Some (length pre + 4)"
    and "memmem (iss @ mid @ rdn sj @ post) cn_oid = Some (length (iss @ mid) + 4)"
    and "memmem (t @ pem_end @ rest) pem_end = Some (length t)" "100 \<le> length (pem_begin @ t @ pem_end @ rest)"
  shows "x509_getSubject b64 beh (pem_begin @ t @ pem_end @ rest) = Some (Inr sj)"
proof -
  define der where "der = pre @ rdn iss @ mid @ rdn sj @ post"
  have l: "length pem_begin = 28" by code_simp
  have p: "take 28 (pem_begin @ t @ pem_end @ rest) = pem_begin" "drop 28 (pem_begin @ t @ pem_end @ rest) = t @ pem_end @ rest"
    using l by simp_all
  have i: "x509_getCn der beh 0 = Some (Some (length pre + 11, length iss))"
    unfolding der_def by (rule cn_found) (use assms(2,5,9) in \<open>simp_all add: rdn_def cn_oid_def\<close>)
  have d: "drop (length pre + 11) der = (iss @ mid) @ rdn sj @ post" by (simp add: der_def rdn_def cn_oid_def)
  have s: "x509_getCn ((iss @ mid) @ rdn sj @ post) beh 0 = Some (Some (length (iss @ mid) + 11, length sj))"
    by (rule cn_found) (use assms(3,6,7,10) in simp_all)
  have n: "take (length sj) (drop (length (iss @ mid) + 11) (((iss @ mid) @ rdn sj @ post) @ beh)) = sj"
    by (simp add: rdn_def cn_oid_def)
  show ?thesis
    using assms(1,4,8,11,12) p i s n by (simp add: x509_getSubject_def d AEM_MAXLEN_OURDOMAIN_def flip: der_def del: append_assoc)
qed

theorem certificate_read_witness:
  "x509_getSubject (\<lambda>t. Some (replicate 40 0 @ rdn (str ''Test CA'') @ replicate 30 0 @ rdn (str ''mail.test'') @ replicate 6 0)) []
     (pem_begin @ replicate 60 65 @ pem_end @ []) = Some (Inr (str ''mail.test''))"
proof (rule certificate_read [where mid = "replicate 30 0" and post = "replicate 6 0"])
  show "memmem (replicate 40 0 @ rdn (str ''Test CA'') @ replicate 30 0 @ rdn (str ''mail.test'') @ replicate 6 0) cn_oid = Some (length (replicate 40 (0 :: byte)) + 4)"
    "memmem (str ''Test CA'' @ replicate 30 0 @ rdn (str ''mail.test'') @ replicate 6 0) cn_oid = Some (length (str ''Test CA'' @ replicate 30 0) + 4)"
    "memmem (replicate 60 65 @ pem_end @ []) pem_end = Some (length (replicate 60 (65 :: byte)))"
    "99 \<le> length (replicate 40 0 @ rdn (str ''Test CA'') @ replicate 30 0 @ rdn (str ''mail.test'') @ replicate 6 0)"
    "100 \<le> length (pem_begin @ replicate 60 65 @ pem_end @ [])" "cn_text (str ''Test CA'')" "cn_text (str ''mail.test'')"
    "length (str ''mail.test'') \<le> 32" "6 \<le> length (replicate 40 (0 :: byte))" "6 \<le> length (str ''Test CA'' @ replicate 30 0)" "6 \<le> length (replicate 6 (0 :: byte))"
    by code_simp+
qed simp

end
