(* ===== verification/Process.thy ===== *)
theory Process
  imports IntCom Kdf X509
begin

text \<open>
  How the processes of the server are started: what AEM-Manager (\<^verbatim>\<open>src/manager/manager.c\<close>) writes to the pipe of a new
  process, and what the \<^verbatim>\<open>main.c\<close> of the process reads from it.

  The pipe keeps packets apart (\<^verbatim>\<open>O_DIRECT\<close>): it is the list of what has been written, a \<^verbatim>\<open>read\<close> takes one packet, and
  of a packet longer than the buffer the rest is lost.  Nothing longer than \<open>PIPE_BUF\<close> is written at once.  The writer
  has the parameter \<open>ok\<close>: whether a write succeeds, by the number of packets written before.
\<close>

section \<open>Types of processes\<close>

datatype proc = WEB_CLR | WEB_ONI | API_CLR | API_ONI | MTA | ACCOUNT | DELIVER | ENQUIRY | STORAGE

definition AEM_PROCESSTYPES_COUNT :: nat where "AEM_PROCESSTYPES_COUNT = 9"

definition proc_of :: "nat \<Rightarrow> proc option" where
  "proc_of n = (if n < AEM_PROCESSTYPES_COUNT
     then Some ([WEB_CLR, WEB_ONI, API_CLR, API_ONI, MTA, ACCOUNT, DELIVER, ENQUIRY, STORAGE] ! n) else None)"

definition is_web :: "proc \<Rightarrow> bool" where "is_web t \<longleftrightarrow> t = WEB_CLR \<or> t = WEB_ONI"
definition is_api :: "proc \<Rightarrow> bool" where "is_api t \<longleftrightarrow> t = API_CLR \<or> t = API_ONI"

section \<open>The pipe\<close>

type_synonym pipe = "byte list list"

definition PIPE_BUF :: nat where "PIPE_BUF = 4096"

definition pipe_write :: "(nat \<Rightarrow> bool) \<Rightarrow> byte list \<Rightarrow> pipe \<Rightarrow> pipe option" where
  "pipe_write ok bs p = (if ok (length p) then Some (p @ [bs]) else None)"

text \<open>\<^verbatim>\<open>read(...) != n\<close> is the error \<open>None\<close>; at the end of the pipe nothing is read.\<close>

definition pipe_read :: "nat \<Rightarrow> pipe \<Rightarrow> (byte list \<times> pipe) option" where
  "pipe_read n p =
     (if n = 0 then Some ([], p)
      else case p of
        [] \<Rightarrow> None
      | pk # p' \<Rightarrow> if n \<le> length pk then Some (take n pk, p') else None)"

fun pipe_chunks :: "(nat \<Rightarrow> bool) \<Rightarrow> nat \<Rightarrow> byte list \<Rightarrow> pipe \<Rightarrow> pipe option" where
  "pipe_chunks ok 0 bs p = Some p"
| "pipe_chunks ok (Suc k) bs p =
     (if bs = [] then Some p
      else if length bs > PIPE_BUF then do {p \<leftarrow> pipe_write ok (take PIPE_BUF bs) p; pipe_chunks ok k (drop PIPE_BUF bs) p}
      else pipe_write ok bs p)"

text \<open>The end of \<open>pipeFile\<close>: the size, then the contents in pieces; the number of pieces is at most the number of bytes.\<close>

definition size_bytes :: "nat \<Rightarrow> byte list" where "size_bytes n = le_bytes 8 n"

definition pipe_data :: "(nat \<Rightarrow> bool) \<Rightarrow> byte list \<Rightarrow> pipe \<Rightarrow> pipe option" where
  "pipe_data ok bs p = do {p \<leftarrow> pipe_write ok (size_bytes (length bs)) p; pipe_chunks ok (length bs) bs p}"

section \<open>The keys of the calls between processes (KeyBundle.h)\<close>

abbreviation (input) SERVER_ACC :: nat where "SERVER_ACC \<equiv> 0"
abbreviation (input) SERVER_ENQ :: nat where "SERVER_ENQ \<equiv> 1"
abbreviation (input) SERVER_STO :: nat where "SERVER_STO \<equiv> 2"

abbreviation (input) CLIENT_ACC :: nat where "CLIENT_ACC \<equiv> 0"
abbreviation (input) CLIENT_API :: nat where "CLIENT_API \<equiv> 1"
abbreviation (input) CLIENT_MTA :: nat where "CLIENT_MTA \<equiv> 2"
abbreviation (input) CLIENT_STO :: nat where "CLIENT_STO \<equiv> 3"
abbreviation (input) CLIENT_DLV :: nat where "CLIENT_DLV \<equiv> CLIENT_MTA"

record key_bundle =
  kb_client :: "byte list list"
  kb_server :: "byte list list"
  kb_stream :: "byte list"

definition no_key :: "byte list" where "no_key = replicate 32 0"

definition empty_bundle :: key_bundle where
  "empty_bundle = \<lparr>kb_client = replicate 3 no_key, kb_server = replicate 4 no_key, kb_stream = no_key\<rparr>"

definition bundle_bytes :: "key_bundle \<Rightarrow> byte list" where
  "bundle_bytes b = concat (kb_client b) @ concat (kb_server b) @ kb_stream b"

fun keys_read :: "nat \<Rightarrow> byte list \<Rightarrow> byte list list" where
  "keys_read 0 bs = []"
| "keys_read (Suc n) bs = take 32 bs # keys_read n (drop 32 bs)"

definition bundle_read :: "byte list \<Rightarrow> key_bundle" where
  "bundle_read bs = \<lparr>kb_client = keys_read 3 bs, kb_server = keys_read 4 (drop 96 bs), kb_stream = drop 224 bs\<rparr>"

definition KEYNUM_ACCOUNT_API :: byte where "KEYNUM_ACCOUNT_API = 1"
definition KEYNUM_ACCOUNT_MTA :: byte where "KEYNUM_ACCOUNT_MTA = 2"
definition KEYNUM_ACCOUNT_STO :: byte where "KEYNUM_ACCOUNT_STO = 3"
definition KEYNUM_ENQUIRY_API :: byte where "KEYNUM_ENQUIRY_API = 4"
definition KEYNUM_ENQUIRY_DLV :: byte where "KEYNUM_ENQUIRY_DLV = 5"
definition KEYNUM_STORAGE_ACC :: byte where "KEYNUM_STORAGE_ACC = 6"
definition KEYNUM_STORAGE_API :: byte where "KEYNUM_STORAGE_API = 7"
definition KEYNUM_STORAGE_DLV :: byte where "KEYNUM_STORAGE_DLV = 8"
definition KEYNUM_STREAM :: byte where "KEYNUM_STREAM = 9"

lemmas keynums = KEYNUM_ACCOUNT_API_def KEYNUM_ACCOUNT_MTA_def KEYNUM_ACCOUNT_STO_def KEYNUM_ENQUIRY_API_def KEYNUM_ENQUIRY_DLV_def
  KEYNUM_STORAGE_ACC_def KEYNUM_STORAGE_API_def KEYNUM_STORAGE_DLV_def KEYNUM_STREAM_def

definition set_client :: "nat \<Rightarrow> byte list \<Rightarrow> key_bundle \<Rightarrow> key_bundle" where
  "set_client s k b = b\<lparr>kb_client := (kb_client b)[s := k]\<rparr>"

definition set_server :: "nat \<Rightarrow> byte list \<Rightarrow> key_bundle \<Rightarrow> key_bundle" where
  "set_server c k b = b\<lparr>kb_server := (kb_server b)[c := k]\<rparr>"

text \<open>The bundle \<open>sendIntComKeys\<close> fills for a process; \<open>key_ic\<close> is the random master key of the calls.\<close>

definition ic_bundle :: "chacha \<Rightarrow> byte list \<Rightarrow> proc \<Rightarrow> key_bundle" where
  "ic_bundle chacha key_ic t =
     (let key = (\<lambda>n. aem_kdf_smk chacha 32 n key_ic) in
      case t of
        ACCOUNT \<Rightarrow>
          set_client SERVER_STO (key KEYNUM_STORAGE_ACC) (set_server CLIENT_STO (key KEYNUM_ACCOUNT_STO)
            (set_server CLIENT_MTA (key KEYNUM_ACCOUNT_MTA) (set_server CLIENT_API (key KEYNUM_ACCOUNT_API) empty_bundle)))
      | DELIVER \<Rightarrow>
          (set_client SERVER_STO (key KEYNUM_STORAGE_DLV) (set_client SERVER_ENQ (key KEYNUM_ENQUIRY_DLV) empty_bundle))
            \<lparr>kb_stream := key KEYNUM_STREAM\<rparr>
      | ENQUIRY \<Rightarrow>
          set_server CLIENT_DLV (key KEYNUM_ENQUIRY_DLV) (set_server CLIENT_API (key KEYNUM_ENQUIRY_API) empty_bundle)
      | STORAGE \<Rightarrow>
          set_client SERVER_ACC (key KEYNUM_ACCOUNT_STO) (set_server CLIENT_DLV (key KEYNUM_STORAGE_DLV)
            (set_server CLIENT_API (key KEYNUM_STORAGE_API) (set_server CLIENT_ACC (key KEYNUM_STORAGE_ACC) empty_bundle)))
      | MTA \<Rightarrow>
          (set_client SERVER_ACC (key KEYNUM_ACCOUNT_MTA) empty_bundle)\<lparr>kb_stream := key KEYNUM_STREAM\<rparr>
      | API_CLR \<Rightarrow>
          set_client SERVER_STO (key KEYNUM_STORAGE_API) (set_client SERVER_ENQ (key KEYNUM_ENQUIRY_API)
            (set_client SERVER_ACC (key KEYNUM_ACCOUNT_API) empty_bundle))
      | API_ONI \<Rightarrow>
          set_client SERVER_STO (key KEYNUM_STORAGE_API) (set_client SERVER_ENQ (key KEYNUM_ENQUIRY_API)
            (set_client SERVER_ACC (key KEYNUM_ACCOUNT_API) empty_bundle))
      | WEB_CLR \<Rightarrow> empty_bundle
      | WEB_ONI \<Rightarrow> empty_bundle)"

definition sendIntComKeys :: "(nat \<Rightarrow> bool) \<Rightarrow> chacha \<Rightarrow> byte list \<Rightarrow> proc \<Rightarrow> pipe \<Rightarrow> pipe option" where
  "sendIntComKeys ok chacha key_ic t p =
     (if is_web t then Some p else pipe_write ok (bundle_bytes (ic_bundle chacha key_ic t)) p)"

section \<open>What a new process reads\<close>

text \<open>The process identifiers of its servers (Client.c), 0 where none has been set, its base key, its keys and its files.\<close>

record started =
  st_acc :: int
  st_enq :: int
  st_sto :: int
  st_dlv :: int
  st_base :: "byte list"
  st_keys :: key_bundle
  st_files :: "byte list list"

definition not_started :: started where
  "not_started = \<lparr>st_acc = 0, st_enq = 0, st_sto = 0, st_dlv = 0, st_base = [], st_keys = empty_bundle, st_files = []\<rparr>"

definition pid_at :: "nat \<Rightarrow> byte list \<Rightarrow> int" where
  "pid_at k bs = int32_read (take 4 (drop (4 * k) bs))"

text \<open>A size and as many bytes, in one \<^verbatim>\<open>read\<close>.\<close>

definition read_file :: "pipe \<Rightarrow> (byte list \<times> pipe) option" where
  "read_file p = do {(n, p) \<leftarrow> pipe_read 8 p; pipe_read (le_read n) p}"

definition setupIo_account :: "pipe \<Rightarrow> started option" where
  "setupIo_account p =
     do {
       (pid, p) \<leftarrow> pipe_read 4 p;
       (base, p) \<leftarrow> pipe_read 40 p;
       (kb, p) \<leftarrow> pipe_read 256 p;
       (admin, p) \<leftarrow> read_file p;
       (users, p) \<leftarrow> read_file p;
       Some (not_started\<lparr>st_sto := pid_at 0 pid, st_base := base, st_keys := bundle_read kb, st_files := [admin, users]\<rparr>)
     }"

definition setupIo_storage :: "pipe \<Rightarrow> started option" where
  "setupIo_storage p =
     do {
       (base, p) \<leftarrow> pipe_read 40 p;
       (kb, p) \<leftarrow> pipe_read 256 p;
       Some (not_started\<lparr>st_base := base, st_keys := bundle_read kb\<rparr>)
     }"

definition readKeys_enquiry :: "pipe \<Rightarrow> started option" where
  "readKeys_enquiry p = do {(kb, p) \<leftarrow> pipe_read 256 p; Some (not_started\<lparr>st_keys := bundle_read kb\<rparr>)}"

definition pipeLoad_deliver :: "pipe \<Rightarrow> started option" where
  "pipeLoad_deliver p =
     do {
       (pids, p) \<leftarrow> pipe_read 8 p;
       (kb, p) \<leftarrow> pipe_read 256 p;
       Some (not_started\<lparr>st_enq := pid_at 0 pids, st_sto := pid_at 1 pids, st_keys := bundle_read kb\<rparr>)
     }"

definition pipeRead_mta :: "pipe \<Rightarrow> started option" where
  "pipeRead_mta p =
     do {
       (pids, p) \<leftarrow> pipe_read 8 p;
       (kb, p) \<leftarrow> pipe_read 256 p;
       (crt, p) \<leftarrow> read_file p;
       (key, p) \<leftarrow> read_file p;
       Some (not_started\<lparr>st_acc := pid_at 0 pids, st_dlv := pid_at 1 pids, st_keys := bundle_read kb, st_files := [crt, key]\<rparr>)
     }"

text \<open>Two of the three process identifiers are read; the third, \<open>junk\<close>, is what the memory held.\<close>

definition pipeRead_api :: "int \<Rightarrow> pipe \<Rightarrow> started option" where
  "pipeRead_api junk p =
     do {
       (pids, p) \<leftarrow> pipe_read 8 p;
       (base, p) \<leftarrow> pipe_read 40 p;
       (kb, p) \<leftarrow> pipe_read 256 p;
       (crt, p) \<leftarrow> read_file p;
       (key, p) \<leftarrow> read_file p;
       Some (not_started\<lparr>st_acc := pid_at 0 pids, st_sto := pid_at 1 pids, st_enq := junk, st_base := base,
         st_keys := bundle_read kb, st_files := [crt, key]\<rparr>)
     }"

fun read_chunks :: "nat \<Rightarrow> nat \<Rightarrow> pipe \<Rightarrow> (byte list \<times> pipe) option" where
  "read_chunks 0 n p = Some ([], p)"
| "read_chunks (Suc k) n p =
     (if n = 0 then Some ([], p)
      else if n > PIPE_BUF then do {(a, p) \<leftarrow> pipe_read PIPE_BUF p; (b, p) \<leftarrow> read_chunks k (n - PIPE_BUF) p; Some (a @ b, p)}
      else pipe_read n p)"

text \<open>The page, in pieces; AEM-Web-Clr (\<^verbatim>\<open>AEM_TLS\<close>) also reads the certificate and its key.\<close>

definition pipeRead_web :: "bool \<Rightarrow> pipe \<Rightarrow> started option" where
  "pipeRead_web tls p =
     do {
       (n, p) \<leftarrow> pipe_read 8 p;
       let n = le_read n;
       if n < 1 \<or> n > 99999 then None
       else do {
         (page, p) \<leftarrow> read_chunks n n p;
         if tls then do {
           (crt, p) \<leftarrow> read_file p;
           (key, p) \<leftarrow> read_file p;
           Some (not_started\<lparr>st_files := [page, crt, key]\<rparr>)
         } else Some (not_started\<lparr>st_files := [page]\<rparr>)
       }
     }"

fun process_start :: "proc \<Rightarrow> int \<Rightarrow> pipe \<Rightarrow> started option" where
  "process_start ACCOUNT junk p = setupIo_account p"
| "process_start STORAGE junk p = setupIo_storage p"
| "process_start ENQUIRY junk p = readKeys_enquiry p"
| "process_start DELIVER junk p = pipeLoad_deliver p"
| "process_start MTA junk p = pipeRead_mta p"
| "process_start API_CLR junk p = pipeRead_api junk p"
| "process_start API_ONI junk p = pipeRead_api junk p"
| "process_start WEB_CLR junk p = pipeRead_web True p"
| "process_start WEB_ONI junk p = pipeRead_web False p"

end
