(* ===== verification/Manager.thy ===== *)
theory Manager
  imports Process
begin

text \<open>
  \<^verbatim>\<open>src/manager/manager.c\<close>: AEM-Manager starts the processes, keeps their identifiers and carries out the commands of the
  administrator.

  The state holds the static variables.  The system is the record \<open>mg_world\<close>: which processes exist, the contents of
  files, the results of \<^verbatim>\<open>pipe2\<close>, \<^verbatim>\<open>clone3\<close> and of the writes to the pipe, the ciphers and the Base64 decoder.  Signals that
  are sent are a list of process identifiers and signals; the pipe of a new process is returned.
\<close>

definition AEM_MAXPROCESSES :: nat where "AEM_MAXPROCESSES = 100"
definition AEM_MAXLEN_DATAFILE :: nat where "AEM_MAXLEN_DATAFILE = 99999"
definition AEM_MAXLEN_EXEC :: nat where "AEM_MAXLEN_EXEC = 131072"

datatype signal = SIG_USR1 | SIG_USR2 | SIG_KILL

record mg_world =
  w_alive :: "int \<Rightarrow> bool"
  w_file :: "string \<Rightarrow> byte list option"
  w_pipe :: bool
  w_clone :: int
  w_write :: "nat \<Rightarrow> bool"
  w_chacha :: chacha
  w_aead :: aead
  w_b64 :: "byte list \<Rightarrow> byte list option"
  w_behind :: "byte list"

record manager =
  mg_launchKey :: "byte list"
  mg_key_api :: "byte list"
  mg_key_mng :: "byte list"
  mg_key_ic :: "byte list"
  mg_account :: int
  mg_deliver :: int
  mg_enquiry :: int
  mg_storage :: int
  mg_pids :: "int list list"

section \<open>Processes\<close>

definition process_exists :: "mg_world \<Rightarrow> int \<Rightarrow> bool" where
  "process_exists w pid \<longleftrightarrow> pid \<ge> 1 \<and> w_alive w pid"

definition still :: "mg_world \<Rightarrow> int \<Rightarrow> int" where
  "still w pid = (if pid \<noteq> 0 \<and> \<not> process_exists w pid then 0 else pid)"

definition refreshPids :: "mg_world \<Rightarrow> manager \<Rightarrow> manager" where
  "refreshPids w m =
     m\<lparr>mg_pids := map (map (still w)) (mg_pids m), mg_account := still w (mg_account m), mg_deliver := still w (mg_deliver m),
       mg_enquiry := still w (mg_enquiry m), mg_storage := still w (mg_storage m)\<rparr>"

definition killAll :: "manager \<Rightarrow> signal \<Rightarrow> (int \<times> signal) list" where
  "killAll m sig =
     map (\<lambda>pid. (pid, sig)) (filter (\<lambda>pid. pid > 0) ([mg_account m, mg_deliver m, mg_enquiry m, mg_storage m] @ concat (mg_pids m)))"

definition process_kill :: "mg_world \<Rightarrow> manager \<Rightarrow> nat \<Rightarrow> int \<Rightarrow> signal \<Rightarrow> (int \<times> signal) list" where
  "process_kill w m type pid sig =
     (if type > 2 \<or> pid < 1 then []
      else if \<not> list_ex (\<lambda>p. p = pid) (mg_pids m ! type) then []
      else if \<not> process_exists w pid then []
      else [(pid, sig)])"

section \<open>Files\<close>

text \<open>\<open>w_file\<close> is the file when it can be opened, is valid and can be read in full.\<close>

definition path_exe :: "proc \<Rightarrow> string" where
  "path_exe t = ''/var/lib/allears'' @ (case t of WEB_CLR \<Rightarrow> ''/bin/aem-web-clr'' | WEB_ONI \<Rightarrow> ''/bin/aem-web-oni'' | API_CLR \<Rightarrow> ''/bin/aem-api-clr''
     | API_ONI \<Rightarrow> ''/bin/aem-api-oni'' | MTA \<Rightarrow> ''/bin/aem-mta'' | ACCOUNT \<Rightarrow> ''/bin/aem-account'' | DELIVER \<Rightarrow> ''/bin/aem-deliver''
     | ENQUIRY \<Rightarrow> ''/bin/aem-enquiry'' | STORAGE \<Rightarrow> ''/bin/aem-storage'')"

definition path_data :: "string \<Rightarrow> string" where
  "path_data name = ''/var/lib/allears/Data'' @ name"

definition aegis_open :: "mg_world \<Rightarrow> byte list \<Rightarrow> byte list \<Rightarrow> byte list option" where
  "aegis_open w key enc = unseal (w_aead w) key (take NPUBBYTES enc) (drop NPUBBYTES enc)"

text \<open>The program of a process; a file shorter than nonce and tag makes the length of the memory wrap around, which ends the
  new process.\<close>

definition loadExec :: "mg_world \<Rightarrow> byte list \<Rightarrow> proc \<Rightarrow> byte list option" where
  "loadExec w launchKey t =
     do {
       enc \<leftarrow> w_file w (path_exe t);
       if length enc < 1 \<or> length enc > AEM_MAXLEN_EXEC \<or> length enc < NPUBBYTES + ABYTES then None
       else aegis_open w launchKey enc
     }"

definition readDataFile :: "mg_world \<Rightarrow> byte list \<Rightarrow> string \<Rightarrow> byte list option" where
  "readDataFile w launchKey path =
     do {
       enc \<leftarrow> w_file w path;
       if length enc < 1 + NPUBBYTES + ABYTES \<or> length enc > AEM_MAXLEN_DATAFILE then None
       else aegis_open w launchKey enc
     }"

text \<open>\<open>None\<close> when the search in the certificate does not return, \<open>Some None\<close> for an error.\<close>

definition getOurDomain :: "mg_world \<Rightarrow> byte list \<Rightarrow> byte list option option" where
  "getOurDomain w launchKey =
     (case readDataFile w launchKey (path_data ''/TLS.crt.enc'') of
        None \<Rightarrow> Some None
      | Some pem \<Rightarrow> map_option (\<lambda>r. case r of Inl _ \<Rightarrow> None | Inr d \<Rightarrow> Some d) (x509_getSubject (w_b64 w) (w_behind w) pem))"

definition placeholder :: "byte list" where
  "placeholder = str ''[Placeholder for the API Domain]''"

text \<open>The loop of \<open>domainPlaceholder\<close>: every placeholder becomes the domain, which is never longer.\<close>

partial_function (option) put_domain :: "byte list \<Rightarrow> byte list \<Rightarrow> byte list option" where
  "put_domain domain src =
     (case memmem src placeholder of
        None \<Rightarrow> Some src
      | Some k \<Rightarrow> put_domain domain (take k src @ domain @ drop (k + 32) src))"

definition domainPlaceholder :: "mg_world \<Rightarrow> byte list \<Rightarrow> byte list \<Rightarrow> byte list option option" where
  "domainPlaceholder w launchKey src =
     do {
       d \<leftarrow> getOurDomain w launchKey;
       case d of
         None \<Rightarrow> Some None
       | Some domain \<Rightarrow> map_option Some (put_domain domain src)
     }"

section \<open>Starting a process\<close>

text \<open>A step on the pipe: \<open>None\<close> when it does not return, \<open>Some None\<close> when it fails.\<close>

type_synonym pipe_step = "pipe option option"

definition pipe_then :: "pipe_step \<Rightarrow> (pipe \<Rightarrow> pipe_step) \<Rightarrow> pipe_step" where
  "pipe_then r f = (case r of Some (Some p) \<Rightarrow> f p | _ \<Rightarrow> r)"

definition pipeFile :: "mg_world \<Rightarrow> byte list \<Rightarrow> string \<Rightarrow> bool \<Rightarrow> pipe \<Rightarrow> pipe_step" where
  "pipeFile w launchKey path placeholders p =
     (case readDataFile w launchKey path of
        None \<Rightarrow> Some None
      | Some bs \<Rightarrow> do {
          d \<leftarrow> (if placeholders then domainPlaceholder w launchKey bs else Some (Some bs));
          Some (do {bs \<leftarrow> d; pipe_data (w_write w) bs p})
        })"

definition send_pids :: "mg_world \<Rightarrow> manager \<Rightarrow> proc \<Rightarrow> pipe \<Rightarrow> pipe option" where
  "send_pids w m t p =
     (case t of
        ACCOUNT \<Rightarrow> pipe_write (w_write w) (int32_bytes (mg_storage m)) p
      | DELIVER \<Rightarrow> pipe_write (w_write w) (int32_bytes (mg_enquiry m) @ int32_bytes (mg_storage m)) p
      | MTA \<Rightarrow> pipe_write (w_write w) (int32_bytes (mg_account m) @ int32_bytes (mg_deliver m)) p
      | API_CLR \<Rightarrow> pipe_write (w_write w) (int32_bytes (mg_account m) @ int32_bytes (mg_storage m) @ int32_bytes (mg_enquiry m)) p
      | API_ONI \<Rightarrow> pipe_write (w_write w) (int32_bytes (mg_account m) @ int32_bytes (mg_storage m) @ int32_bytes (mg_enquiry m)) p
      | _ \<Rightarrow> Some p)"

definition send_files :: "mg_world \<Rightarrow> manager \<Rightarrow> proc \<Rightarrow> pipe \<Rightarrow> pipe_step" where
  "send_files w m t p =
     (let file = (\<lambda>name ph. pipeFile w (mg_launchKey m) (path_data name) ph) in
      pipe_then
        (if t = ACCOUNT then pipe_then (file ''/RSA_Admin.enc'' False p) (file ''/RSA_Users.enc'' False)
         else if is_web t then file ''/web-clr'' True p else Some (Some p))
        (\<lambda>p. if is_api t \<or> t = MTA \<or> t = WEB_CLR
             then pipe_then (file ''/TLS.crt.enc'' False p) (file ''/TLS.key.enc'' False) else Some (Some p)))"

text \<open>Everything written to the pipe of a new process.\<close>

definition spawn_pipe :: "mg_world \<Rightarrow> manager \<Rightarrow> proc \<Rightarrow> byte list option \<Rightarrow> pipe_step" where
  "spawn_pipe w m t key_forward =
     (let key = (if is_api t then Some (mg_key_api m) else key_forward) in
      pipe_then
        (Some (do {
          p \<leftarrow> send_pids w m t [];
          p \<leftarrow> (case key of None \<Rightarrow> Some p | Some k \<Rightarrow> pipe_write (w_write w) (take 40 k) p);
          sendIntComKeys (w_write w) (w_chacha w) (mg_key_ic m) t p
        }))
        (send_files w m t))"

fun free_slot :: "int list \<Rightarrow> nat option" where
  "free_slot [] = None"
| "free_slot (p # ps) = (if p = 0 then Some 0 else map_option Suc (free_slot ps))"

definition keep_pid :: "manager \<Rightarrow> proc \<Rightarrow> nat \<Rightarrow> nat \<Rightarrow> int \<Rightarrow> manager" where
  "keep_pid m t type slot pid =
     (case t of
        ACCOUNT \<Rightarrow> m\<lparr>mg_account := pid\<rparr>
      | DELIVER \<Rightarrow> m\<lparr>mg_deliver := pid\<rparr>
      | ENQUIRY \<Rightarrow> m\<lparr>mg_enquiry := pid\<rparr>
      | STORAGE \<Rightarrow> m\<lparr>mg_storage := pid\<rparr>
      | _ \<Rightarrow> m\<lparr>mg_pids := (mg_pids m)[type := (mg_pids m ! type)[slot := pid]]\<rparr>)"

text \<open>The result of \<open>process_spawn\<close>: its code, the state, the signals sent and the pipe of the process that runs on.\<close>

type_synonym spawned = "nat \<times> manager \<times> (int \<times> signal) list \<times> pipe option"

definition process_spawn :: "mg_world \<Rightarrow> manager \<Rightarrow> nat \<Rightarrow> byte list option \<Rightarrow> spawned option" where
  "process_spawn w m type key_forward =
     (let slot = (if type < 5 then free_slot (mg_pids m ! type) else Some 0) in
      case slot of
        None \<Rightarrow> Some (60, m, [], None)
      | Some s \<Rightarrow>
          if \<not> w_pipe w then Some (61, m, [], None)
          else if w_clone w < 0 then Some (62, m, [], None)
          else let failed = (63, m, [(w_clone w, SIG_KILL)], None)
          in case proc_of type of
               None \<Rightarrow> Some failed
             | Some t \<Rightarrow> do {
                 r \<leftarrow> spawn_pipe w m t key_forward;
                 Some (case r of None \<Rightarrow> failed | Some p \<Rightarrow> (0, keep_pid m t type s (w_clone w), [], Some p))
               })"

section \<open>Commands\<close>

text \<open>A command: its letter, the type and a number; \<^verbatim>\<open>num\<close> is passed on as a process identifier.\<close>

definition AEM_MANAGER_CMDLEN_DEC :: nat where "AEM_MANAGER_CMDLEN_DEC = 6"

definition pid_of_num :: "nat \<Rightarrow> int" where
  "pid_of_num n = (if n < 2 ^ 31 then int n else int n - 2 ^ 32)"

text \<open>The loop of the command to start processes; \<open>ws i\<close> is the system at the i-th one.  The flag tells whether all have been
  started.\<close>

fun spawn_loop :: "(nat \<Rightarrow> mg_world) \<Rightarrow> nat \<Rightarrow> manager \<Rightarrow> nat \<Rightarrow> nat \<Rightarrow> (bool \<times> manager \<times> (int \<times> signal) list \<times> pipe list) option" where
  "spawn_loop ws i m type 0 = Some (True, m, [], [])"
| "spawn_loop ws i m type (Suc n) =
     do {
       (code, m, sigs, p) \<leftarrow> process_spawn (ws i) m type None;
       if code \<noteq> 0 then Some (False, m, sigs, [])
       else do {
         (all, m, sigs', ps) \<leftarrow> spawn_loop ws (Suc i) m type n;
         Some (all, m, sigs @ sigs', (case p of None \<Rightarrow> ps | Some q \<Rightarrow> q # ps))
       }
     }"

definition manager_command ::
  "mg_world \<Rightarrow> (nat \<Rightarrow> mg_world) \<Rightarrow> manager \<Rightarrow> byte list \<Rightarrow> (manager \<times> (int \<times> signal) list \<times> pipe list) option" where
  "manager_command w ws m dec =
     (let type = unat (dec ! 1); num = le_read (take 4 (drop 2 dec)) in
      if dec ! 0 = 0 then Some (refreshPids w m, [], [])
      else if dec ! 0 = 84 then Some (refreshPids w m, process_kill w m type (pid_of_num num) SIG_USR1, [])
      else if dec ! 0 = 75 then Some (refreshPids w m, process_kill w m type (pid_of_num num) SIG_USR2, [])
      else if dec ! 0 = 83 then
        if num > AEM_MAXPROCESSES then Some (m, [], [])
        else do {
          (all, m, sigs, ps) \<leftarrow> spawn_loop ws 0 m type num;
          Some (if all then refreshPids w m else m, sigs, ps)
        }
      else Some (m, [], []))"

text \<open>\<open>enc\<close> is what has been received; the connection is closed before anything is done.\<close>

definition respond_manager ::
  "mg_world \<Rightarrow> (nat \<Rightarrow> mg_world) \<Rightarrow> manager \<Rightarrow> byte list \<Rightarrow> (manager \<times> (int \<times> signal) list \<times> pipe list) option" where
  "respond_manager w ws m enc =
     (if length enc \<noteq> AEM_MANAGER_CMDLEN_DEC + NPUBBYTES + ABYTES then Some (m, [], [])
      else case aegis_open w (mg_key_mng m) enc of
        None \<Rightarrow> Some (m, [], [])
      | Some dec \<Rightarrow> manager_command w ws m dec)"

text \<open>The loop of \<open>takeConnections\<close>: one connection after the other, until a command does not return.\<close>

type_synonym mg_event = "mg_world \<times> (nat \<Rightarrow> mg_world) \<times> byte list"

definition mg_step :: "mg_event \<Rightarrow> manager option \<Rightarrow> manager option" where
  "mg_step e s = (case e of (w, ws, enc) \<Rightarrow> do {m \<leftarrow> s; (m', _, _) \<leftarrow> respond_manager w ws m enc; Some m'})"

definition takeConnections :: "mg_event list \<Rightarrow> manager \<Rightarrow> manager option" where
  "takeConnections es m = fold mg_step es (Some m)"

definition verifyStatus :: "manager \<Rightarrow> bool" where
  "verifyStatus m \<longleftrightarrow> mg_account m > 0 \<and> mg_deliver m > 0 \<and> mg_enquiry m > 0 \<and> mg_storage m > 0"

section \<open>Start of the manager\<close>

definition KEYID_SMK_LCH :: byte where "KEYID_SMK_LCH = 0x02"
definition KEYID_SMK_MNG :: byte where "KEYID_SMK_MNG = 0x03"
definition KEYID_SMK_ACC :: byte where "KEYID_SMK_ACC = 0x10"
definition KEYID_SMK_STO :: byte where "KEYID_SMK_STO = 0x12"
definition KEYID_SMK_API :: byte where "KEYID_SMK_API = 0x13"

text \<open>Starts the processes one after the other until one fails: types and the keys handed on.\<close>

fun spawn_all :: "(nat \<Rightarrow> mg_world) \<Rightarrow> nat \<Rightarrow> manager \<Rightarrow> (nat \<times> byte list option) list \<Rightarrow> (nat \<times> manager \<times> pipe list) option" where
  "spawn_all ws i m [] = Some (0, m, [])"
| "spawn_all ws i m ((type, key) # ts) =
     do {
       (code, m, _, p) \<leftarrow> process_spawn (ws i) m type key;
       if code \<noteq> 0 then Some (code, m, [])
       else do {
         (code, m, ps) \<leftarrow> spawn_all ws (Suc i) m ts;
         Some (code, m, (case p of None \<Rightarrow> ps | Some q \<Rightarrow> q # ps))
       }
     }"

text \<open>\<open>smk\<close> is the Server Master Key typed in, \<open>key_ic\<close> the random key; with code 0 the manager takes connections.\<close>

definition setupManager :: "(nat \<Rightarrow> mg_world) \<Rightarrow> chacha \<Rightarrow> byte list \<Rightarrow> byte list \<Rightarrow> (nat \<times> manager \<times> pipe list) option" where
  "setupManager ws chacha smk key_ic =
     (let m = \<lparr>mg_launchKey = aem_kdf_smk chacha 32 KEYID_SMK_LCH smk, mg_key_api = replicate 40 0, mg_key_mng = replicate 32 0,
            mg_key_ic = key_ic, mg_account = 0, mg_deliver = 0, mg_enquiry = 0, mg_storage = 0,
            mg_pids = replicate 5 (replicate AEM_MAXPROCESSES 0)\<rparr> in
      do {
        (code, m, ps) \<leftarrow> spawn_all ws 0 m [(7, None), (8, Some (aem_kdf_smk chacha 40 KEYID_SMK_STO smk)), (6, None),
          (5, Some (aem_kdf_smk chacha 40 KEYID_SMK_ACC smk))];
        Some (code,
          if code = 0 then m\<lparr>mg_key_mng := aem_kdf_smk chacha 32 KEYID_SMK_MNG smk, mg_key_api := aem_kdf_smk chacha 40 KEYID_SMK_API smk\<rparr> else m,
          ps)
      })"

end
