(* ===== verification/Manager_Claims.thy ===== *)
theory Manager_Claims
  imports Manager
begin

text \<open>
  What a new process gets from AEM-Manager, which keys the processes share, what the commands of the administrator can
  do, and which processes cannot call each other.
\<close>

section \<open>The pipe\<close>

lemma pipe_write_Some: "pipe_write ok bs p = Some p' \<longleftrightarrow> ok (length p) \<and> p' = p @ [bs]"
  by (auto simp: pipe_write_def)

lemma pipe_chunks_Some:
  "pipe_chunks ok k bs p = Some p' \<Longrightarrow> length bs \<le> k \<Longrightarrow>
   \<exists>q. p' = p @ q \<and> (\<forall>rest j. length bs \<le> j \<longrightarrow> read_chunks j (length bs) (q @ rest) = Some (bs, rest)) \<and>
     (bs = [] \<longrightarrow> q = []) \<and> (bs \<noteq> [] \<longrightarrow> (\<exists>q'. q = take PIPE_BUF bs # q' \<and> (length bs \<le> PIPE_BUF \<longrightarrow> q' = [])))"
proof (induction ok k bs p arbitrary: p' rule: pipe_chunks.induct)
  case (1 ok bs p)
  have "read_chunks j 0 rest = Some ([], rest)" for j rest by (cases j) simp_all
  then show ?case using 1 by simp
next
  case (2 ok k bs p)
  have z: "read_chunks j 0 rest = Some ([], rest)" for j rest by (cases j) simp_all
  consider "bs = []" | "bs \<noteq> []" "length bs > PIPE_BUF" | "bs \<noteq> []" "length bs \<le> PIPE_BUF" by force
  then show ?case
  proof cases
    case 1
    then show ?thesis using 2(2) z by simp
  next
    case 3
    have "read_chunks j (length bs) (bs # rest) = Some (bs, rest)" if "length bs \<le> j" for j rest
      using that 3 by (cases j) (simp_all add: pipe_read_def)
    then show ?thesis using 3 2(2) by (auto simp: pipe_write_Some)
  next
    case c: 2
    then obtain p1 where p1: "pipe_write ok (take PIPE_BUF bs) p = Some p1" "pipe_chunks ok k (drop PIPE_BUF bs) p1 = Some p'"
      using 2(2) by (auto split: Option.bind_splits)
    have l: "length (drop PIPE_BUF bs) \<le> k" using c 2(3) by (simp add: PIPE_BUF_def)
    from 2(1) [OF c p1 l] obtain q where q: "p' = p1 @ q"
      "\<And>rest j. length bs - PIPE_BUF \<le> j \<Longrightarrow> read_chunks j (length bs - PIPE_BUF) (q @ rest) = Some (drop PIPE_BUF bs, rest)" by auto
    have "read_chunks j (length bs) (take PIPE_BUF bs # q @ rest) = Some (bs, rest)" if "length bs \<le> j" for j rest
    proof (cases j)
      case (Suc i)
      have "length bs - PIPE_BUF \<le> i" using that Suc c by (simp add: PIPE_BUF_def)
      then show ?thesis using Suc c q(2) by (simp add: pipe_read_def PIPE_BUF_def)
    qed (use that c in simp)
    then show ?thesis using c p1(1) q(1) by (intro exI [of _ "take PIPE_BUF bs # q"]) (simp add: pipe_write_Some)
  qed
qed

lemma size_read: "n < 2 ^ 64 \<Longrightarrow> le_read (size_bytes n) = n"
  by (simp add: size_bytes_def le_read_bytes)

lemma length_size [simp]: "length (size_bytes n) = 8"
  by (simp add: size_bytes_def)

lemma pipe_read_whole: "pk \<noteq> [] \<Longrightarrow> pipe_read (length pk) (pk # p) = Some (pk, p)"
  by (simp add: pipe_read_def)

text \<open>A file in the pipe: its size and its pieces.\<close>

definition file_packets :: "byte list \<Rightarrow> pipe \<Rightarrow> bool" where
  "file_packets bs q \<longleftrightarrow> (\<exists>c. q = size_bytes (length bs) # c \<and>
     (\<forall>rest. read_chunks (length bs) (length bs) (c @ rest) = Some (bs, rest)) \<and>
     (bs = [] \<longrightarrow> c = []) \<and> (bs \<noteq> [] \<longrightarrow> (\<exists>c'. c = take PIPE_BUF bs # c' \<and> (length bs \<le> PIPE_BUF \<longrightarrow> c' = []))))"

lemma pipe_data_Some: "pipe_data ok bs p = Some p' \<Longrightarrow> \<exists>q. p' = p @ q \<and> file_packets bs q"
proof -
  assume "pipe_data ok bs p = Some p'"
  then obtain p1 where p1: "p1 = p @ [size_bytes (length bs)]" "pipe_chunks ok (length bs) bs p1 = Some p'"
    by (auto simp: pipe_data_def pipe_write_Some split: Option.bind_splits)
  from pipe_chunks_Some [OF p1(2)] obtain q where "p' = p1 @ q" "\<forall>rest. read_chunks (length bs) (length bs) (q @ rest) = Some (bs, rest)"
    "bs = [] \<longrightarrow> q = []" "bs \<noteq> [] \<longrightarrow> (\<exists>q'. q = take PIPE_BUF bs # q' \<and> (length bs \<le> PIPE_BUF \<longrightarrow> q' = []))" by auto
  then show ?thesis using p1(1) by (intro exI [of _ "size_bytes (length bs) # q"]) (auto simp: file_packets_def)
qed

lemma read_file_short: "file_packets bs q \<Longrightarrow> length bs \<le> PIPE_BUF \<Longrightarrow> read_file (q @ rest) = Some (bs, rest)"
  by (cases "bs = []") (auto simp: file_packets_def read_file_def pipe_read_def size_read PIPE_BUF_def)

lemma read_file_long: "file_packets bs q \<Longrightarrow> PIPE_BUF < length bs \<Longrightarrow> length bs < 2 ^ 64 \<Longrightarrow> read_file (q @ rest) = None"
  by (auto simp: file_packets_def read_file_def pipe_read_def size_read PIPE_BUF_def)

lemma read_page:
  "file_packets bs q \<Longrightarrow> length bs < 2 ^ 64 \<Longrightarrow>
   \<exists>c. pipe_read 8 (q @ rest) = Some (size_bytes (length bs), c @ rest) \<and> read_chunks (length bs) (length bs) (c @ rest) = Some (bs, rest)"
  by (auto simp: file_packets_def pipe_read_def)

section \<open>Numbers and keys\<close>

lemma pid_at_0: "- (2 ^ 31) \<le> a \<Longrightarrow> a < 2 ^ 31 \<Longrightarrow> pid_at 0 (int32_bytes a @ r) = a"
  by (simp add: pid_at_def int32_roundtrip length_int32)

lemma pid_at_1: "- (2 ^ 31) \<le> b \<Longrightarrow> b < 2 ^ 31 \<Longrightarrow> pid_at 1 (int32_bytes a @ int32_bytes b @ r) = b"
  by (simp add: pid_at_def int32_roundtrip length_int32)

lemma keys_read_concat:
  "list_all (\<lambda>k. length k = 32) ks \<Longrightarrow> keys_read (length ks) (concat ks @ r) = ks \<and> drop (32 * length ks) (concat ks @ r) = r"
proof (induction ks)
  case (Cons k ks)
  have "drop (32 * length (k # ks)) (concat (k # ks) @ r) = drop (32 * length ks) (drop 32 (k @ concat ks @ r))"
    using Cons.prems by (simp add: add.commute)
  also have "\<dots> = r" using Cons by simp
  finally show ?case using Cons by simp
qed simp

definition bundle_ok :: "key_bundle \<Rightarrow> bool" where
  "bundle_ok b \<longleftrightarrow> length (kb_client b) = 3 \<and> list_all (\<lambda>k. length k = 32) (kb_client b) \<and>
     length (kb_server b) = 4 \<and> list_all (\<lambda>k. length k = 32) (kb_server b) \<and> length (kb_stream b) = 32"

lemma length_keys: "list_all (\<lambda>k. length k = n) ks \<Longrightarrow> length (concat ks) = n * length ks"
  by (induction ks) simp_all

lemma length_bundle: "bundle_ok b \<Longrightarrow> length (bundle_bytes b) = 256"
  by (simp add: bundle_ok_def bundle_bytes_def length_keys [of 32] del: length_concat)

lemma bundle_roundtrip: "bundle_ok b \<Longrightarrow> bundle_read (bundle_bytes b) = b"
proof -
  assume b: "bundle_ok b"
  have c: "keys_read 3 (bundle_bytes b) = kb_client b" "drop 96 (bundle_bytes b) = concat (kb_server b) @ kb_stream b"
    using keys_read_concat [of "kb_client b" "concat (kb_server b) @ kb_stream b"] b by (simp_all add: bundle_ok_def bundle_bytes_def)
  have s: "keys_read 4 (concat (kb_server b) @ kb_stream b) = kb_server b" "drop 128 (concat (kb_server b) @ kb_stream b) = kb_stream b"
    using keys_read_concat [of "kb_server b" "kb_stream b"] b by (simp_all add: bundle_ok_def)
  have "drop 224 (bundle_bytes b) = drop 128 (drop 96 (bundle_bytes b))" by simp
  then show ?thesis using c s by (simp add: bundle_read_def)
qed

definition stream_ok :: "chacha \<Rightarrow> bool" where
  "stream_ok c \<longleftrightarrow> (\<forall>k n b l. length (c k n b l) = l)"

lemma length_smk: "stream_ok c \<Longrightarrow> length (aem_kdf_smk c l n k) = l"
  by (simp add: stream_ok_def aem_kdf_smk_def)

lemma ic_bundle_ok: "stream_ok c \<Longrightarrow> bundle_ok (ic_bundle c k t)"
  by (cases t)
    (simp_all add: bundle_ok_def ic_bundle_def Let_def empty_bundle_def no_key_def set_client_def set_server_def length_smk numeral_3_eq_3
      eval_nat_numeral)

section \<open>What is written is what is read\<close>

definition page_of :: "mg_world \<Rightarrow> manager \<Rightarrow> byte list option" where
  "page_of w m =
     do {
       bs \<leftarrow> readDataFile w (mg_launchKey m) (path_data ''/web-clr'');
       case domainPlaceholder w (mg_launchKey m) bs of Some (Some pg) \<Rightarrow> Some pg | _ \<Rightarrow> None
     }"

definition boot_files :: "mg_world \<Rightarrow> manager \<Rightarrow> proc \<Rightarrow> byte list list option" where
  "boot_files w m t =
     (let file = (\<lambda>name. readDataFile w (mg_launchKey m) (path_data name));
          tls = do {c \<leftarrow> file ''/TLS.crt.enc''; k \<leftarrow> file ''/TLS.key.enc''; Some [c, k]} in
      case t of
        ACCOUNT \<Rightarrow> do {a \<leftarrow> file ''/RSA_Admin.enc''; u \<leftarrow> file ''/RSA_Users.enc''; Some [a, u]}
      | WEB_CLR \<Rightarrow> do {pg \<leftarrow> page_of w m; fs \<leftarrow> tls; Some (pg # fs)}
      | WEB_ONI \<Rightarrow> do {pg \<leftarrow> page_of w m; Some [pg]}
      | API_CLR \<Rightarrow> tls | API_ONI \<Rightarrow> tls | MTA \<Rightarrow> tls
      | _ \<Rightarrow> Some [])"

definition boot_head :: "mg_world \<Rightarrow> manager \<Rightarrow> proc \<Rightarrow> byte list option \<Rightarrow> pipe" where
  "boot_head w m t key =
     (case t of
        ACCOUNT \<Rightarrow> [int32_bytes (mg_storage m)]
      | DELIVER \<Rightarrow> [int32_bytes (mg_enquiry m) @ int32_bytes (mg_storage m)]
      | MTA \<Rightarrow> [int32_bytes (mg_account m) @ int32_bytes (mg_deliver m)]
      | API_CLR \<Rightarrow> [int32_bytes (mg_account m) @ int32_bytes (mg_storage m) @ int32_bytes (mg_enquiry m)]
      | API_ONI \<Rightarrow> [int32_bytes (mg_account m) @ int32_bytes (mg_storage m) @ int32_bytes (mg_enquiry m)]
      | _ \<Rightarrow> []) @
     (case if is_api t then Some (mg_key_api m) else key of None \<Rightarrow> [] | Some k \<Rightarrow> [take 40 k]) @
     (if is_web t then [] else [bundle_bytes (ic_bundle (w_chacha w) (mg_key_ic m) t)])"

lemma pipeFile_plain:
  "pipeFile w k path False p = Some (Some p') \<Longrightarrow> \<exists>bs q. readDataFile w k path = Some bs \<and> file_packets bs q \<and> p' = p @ q"
  using pipe_data_Some by (fastforce simp: pipeFile_def split: option.splits)

lemma pipeFile_page:
  "pipeFile w (mg_launchKey m) (path_data ''/web-clr'') True p = Some (Some p') \<Longrightarrow> \<exists>bs q. page_of w m = Some bs \<and> file_packets bs q \<and> p' = p @ q"
  using pipe_data_Some by (fastforce simp: pipeFile_def page_of_def split: option.splits Option.bind_splits)

lemma pipe_then_Some: "pipe_then r f = Some (Some p') \<longleftrightarrow> (\<exists>p. r = Some (Some p) \<and> f p = Some (Some p'))"
  by (auto simp: pipe_then_def split: option.splits)

lemma spawn_pipe_Some:
  assumes "spawn_pipe w m t key = Some (Some p)"
  shows "\<exists>fs qs. boot_files w m t = Some fs \<and> list_all2 file_packets fs qs \<and> p = boot_head w m t key @ concat qs"
proof -
  define p0 where "p0 = boot_head w m t key"
  have h: "send_files w m t p0 = Some (Some p)"
    using assms by (cases t)
      (auto simp: spawn_pipe_def Let_def pipe_then_Some send_pids_def sendIntComKeys_def is_web_def is_api_def pipe_write_Some
        boot_head_def p0_def split: Option.bind_splits option.splits)
  note f = pipeFile_plain [of w "mg_launchKey m"] pipeFile_page [of w m]
  show ?thesis
  proof (cases t)
    case ACCOUNT
    then obtain p1 where p1: "pipeFile w (mg_launchKey m) (path_data ''/RSA_Admin.enc'') False p0 = Some (Some p1)"
      "pipeFile w (mg_launchKey m) (path_data ''/RSA_Users.enc'') False p1 = Some (Some p)"
      using h by (auto simp: send_files_def Let_def pipe_then_Some is_web_def is_api_def)
    from f(1) [OF p1(1)] f(1) [OF p1(2)] show ?thesis using ACCOUNT by (fastforce simp: boot_files_def Let_def p0_def)
  next
    case WEB_CLR
    then obtain p1 p2 where p1: "pipeFile w (mg_launchKey m) (path_data ''/web-clr'') True p0 = Some (Some p1)"
      "pipeFile w (mg_launchKey m) (path_data ''/TLS.crt.enc'') False p1 = Some (Some p2)"
      "pipeFile w (mg_launchKey m) (path_data ''/TLS.key.enc'') False p2 = Some (Some p)"
      using h by (auto simp: send_files_def Let_def pipe_then_Some is_web_def is_api_def)
    from f(2) [OF p1(1)] f(1) [OF p1(2)] f(1) [OF p1(3)] obtain a b c q r s where
      "page_of w m = Some a" "file_packets a q" "p1 = p0 @ q"
      "readDataFile w (mg_launchKey m) (path_data ''/TLS.crt.enc'') = Some b" "file_packets b r" "p2 = p1 @ r"
      "readDataFile w (mg_launchKey m) (path_data ''/TLS.key.enc'') = Some c" "file_packets c s" "p = p2 @ s" by blast
    then show ?thesis using WEB_CLR
      by (intro exI [of _ "[a, b, c]"] exI [of _ "[q, r, s]"]) (simp add: boot_files_def Let_def p0_def)
  next
    case WEB_ONI
    then have "pipeFile w (mg_launchKey m) (path_data ''/web-clr'') True p0 = Some (Some p)"
      using h by (auto simp: send_files_def Let_def pipe_then_Some is_web_def is_api_def)
    from f(2) [OF this] show ?thesis using WEB_ONI by (fastforce simp: boot_files_def Let_def p0_def)
  qed (use h in \<open>fastforce simp: send_files_def Let_def pipe_then_Some is_web_def is_api_def boot_files_def p0_def
      dest: f(1)\<close>)+
qed

section \<open>Properties: the start of a process\<close>

text \<open>What a process should have: its servers, its base key, its keys and its files.\<close>

definition handed :: "mg_world \<Rightarrow> manager \<Rightarrow> proc \<Rightarrow> int \<Rightarrow> byte list \<Rightarrow> byte list list \<Rightarrow> started" where
  "handed w m t junk base fs =
     \<lparr>st_acc = (if t = MTA \<or> is_api t then mg_account m else 0),
       st_enq = (if t = DELIVER then mg_enquiry m else if is_api t then junk else 0),
       st_sto = (if t = ACCOUNT \<or> t = DELIVER \<or> is_api t then mg_storage m else 0),
       st_dlv = (if t = MTA then mg_deliver m else 0),
       st_base = (if t = ACCOUNT \<or> t = STORAGE \<or> is_api t then base else []),
       st_keys = ic_bundle (w_chacha w) (mg_key_ic m) t, st_files = fs\<rparr>"

definition base_ok :: "manager \<Rightarrow> proc \<Rightarrow> byte list option \<Rightarrow> byte list \<Rightarrow> bool" where
  "base_ok m t key base \<longleftrightarrow> length base = 40 \<and>
     (if is_api t then mg_key_api m = base else if t = ACCOUNT \<or> t = STORAGE then key = Some base else key = None)"

definition pids_ok :: "manager \<Rightarrow> bool" where
  "pids_ok m \<longleftrightarrow> list_all (\<lambda>n. - (2 ^ 31) \<le> n \<and> n < 2 ^ 31) [mg_account m, mg_deliver m, mg_enquiry m, mg_storage m]"

text \<open>The page is read in pieces, every other file with one \<^verbatim>\<open>read\<close>.\<close>

definition files_fit :: "proc \<Rightarrow> byte list list \<Rightarrow> bool" where
  "files_fit t fs \<longleftrightarrow>
     (if is_web t then fs \<noteq> [] \<and> 1 \<le> length (hd fs) \<and> length (hd fs) \<le> 99999 \<and> list_all (\<lambda>f. length f \<le> PIPE_BUF) (tl fs)
      else list_all (\<lambda>f. length f \<le> PIPE_BUF) fs)"

lemma page_start:
  "file_packets bs q \<Longrightarrow> 1 \<le> length bs \<Longrightarrow> length bs \<le> 99999 \<Longrightarrow>
   pipeRead_web tls (q @ rest) =
     (if tls then do {
        (crt, p) \<leftarrow> read_file rest;
        (key, p) \<leftarrow> read_file p;
        Some (not_started\<lparr>st_files := [bs, crt, key]\<rparr>)
      } else Some (not_started\<lparr>st_files := [bs]\<rparr>))"
proof -
  assume a: "file_packets bs q" "1 \<le> length bs" "length bs \<le> 99999"
  then obtain c where "pipe_read 8 (q @ rest) = Some (size_bytes (length bs), c @ rest)"
    "read_chunks (length bs) (length bs) (c @ rest) = Some (bs, rest)" using read_page [OF a(1), of rest] by auto
  then show ?thesis using a(2,3) size_read [of "length bs"] by (auto simp: pipeRead_web_def Let_def)
qed

lemma list_all2_one: "list_all2 P [a] qs \<longleftrightarrow> (\<exists>q. qs = [q] \<and> P a q)"
  by (auto simp: list_all2_Cons1)

lemma pids_okD:
  assumes "pids_ok m"
  shows "pid_at 0 (int32_bytes (mg_account m) @ r) = mg_account m" "pid_at 0 (int32_bytes (mg_enquiry m) @ r) = mg_enquiry m"
    "pid_at 0 (int32_bytes (mg_storage m) @ r) = mg_storage m" "pid_at 0 (int32_bytes (mg_storage m)) = mg_storage m"
    "pid_at 1 (int32_bytes a @ int32_bytes (mg_storage m) @ r) = mg_storage m" "pid_at 1 (int32_bytes a @ int32_bytes (mg_storage m)) = mg_storage m"
    "pid_at 1 (int32_bytes a @ int32_bytes (mg_deliver m)) = mg_deliver m"
  using assms pid_at_0 [of "mg_storage m" "[]"] pid_at_1 [of "mg_storage m" a "[]"] pid_at_1 [of "mg_deliver m" a "[]"]
    pid_at_1 [of "mg_storage m" a r]
  by (simp_all add: pids_ok_def pid_at_0 pid_at_1)

lemma process_spawnD:
  assumes "process_spawn w m type key = Some (0, m', sigs, Some p)"
  shows "\<exists>t s. proc_of type = Some t \<and> spawn_pipe w m t key = Some (Some p) \<and> m' = keep_pid m t type s (w_clone w) \<and> sigs = [] \<and>
    0 \<le> w_clone w \<and> (type < 5 \<longrightarrow> free_slot (mg_pids m ! type) = Some s)"
  using assms by (auto simp: process_spawn_def Let_def split: if_splits option.splits Option.bind_splits)

lemma handover:
  assumes "process_spawn w m type key = Some (0, m', sigs, Some p)" "proc_of type = Some t" "base_ok m t key base"
    and "pids_ok m" "stream_ok (w_chacha w)" "\<And>fs. boot_files w m t = Some fs \<Longrightarrow> files_fit t fs"
  shows "\<exists>fs. boot_files w m t = Some fs \<and> process_start t junk p = Some (handed w m t junk base fs)"
proof -
  obtain fs qs where fs: "boot_files w m t = Some fs" "list_all2 file_packets fs qs" and p: "p = boot_head w m t key @ concat qs"
    using process_spawnD [OF assms(1)] assms(2) spawn_pipe_Some by fastforce
  have fit: "files_fit t fs" by (rule assms(6) [OF fs(1)])
  have b: "pipe_read 256 (bundle_bytes (ic_bundle (w_chacha w) (mg_key_ic m) t') # r) = Some (bundle_bytes (ic_bundle (w_chacha w) (mg_key_ic m) t'), r)"
      "bundle_read (bundle_bytes (ic_bundle (w_chacha w) (mg_key_ic m) t')) = ic_bundle (w_chacha w) (mg_key_ic m) t'" for r t'
    using length_bundle [OF ic_bundle_ok [OF assms(5)]] bundle_roundtrip [OF ic_bundle_ok [OF assms(5)]]
    by (simp_all add: pipe_read_def)
  have k: "take 40 base = base" "pipe_read 40 (base # r) = Some (base, r)" for r
    using assms(3) by (simp_all add: base_ok_def pipe_read_def)
  note rd = pipe_read_def [of 4] pipe_read_def [of 8]
  have tls: "fs = [c, d] \<Longrightarrow> list_all2 file_packets [c, d] qs \<Longrightarrow> length c \<le> PIPE_BUF \<Longrightarrow> length d \<le> PIPE_BUF \<Longrightarrow>
      read_file (concat qs) = Some (c, concat (tl qs)) \<and> read_file (concat (tl qs)) = Some (d, [])" for c d
    using read_file_short [of c "hd qs" "concat (tl qs)"] read_file_short [of d "hd (tl qs)" "[]"]
    by (auto simp: list_all2_Cons1)
  show ?thesis
  proof (intro exI conjI, rule fs(1))
    show "process_start t junk p = Some (handed w m t junk base fs)"
    proof (cases t)
      case WEB_CLR
      then obtain a c d where f: "fs = [a, c, d]" using fs(1) by (auto simp: boot_files_def Let_def split: Option.bind_splits)
      then obtain q r s where q: "qs = [q, r, s]" "file_packets a q" "file_packets c r" "file_packets d s"
        using fs(2) by (auto simp: list_all2_Cons1)
      have "pipeRead_web True (q @ r @ s) = Some (not_started\<lparr>st_files := fs\<rparr>)"
        using page_start [OF q(2), of True "r @ s"] read_file_short [OF q(3), of s] read_file_short [OF q(4), of "[]"] fit f WEB_CLR
        by (simp add: files_fit_def is_web_def)
      then show ?thesis using WEB_CLR assms(3) q(1)
        by (simp add: p boot_head_def is_api_def is_web_def base_ok_def handed_def not_started_def ic_bundle_def)
    next
      case WEB_ONI
      then obtain a where f: "fs = [a]" using fs(1) by (auto simp: boot_files_def split: Option.bind_splits)
      then obtain q where q: "qs = [q]" "file_packets a q" using fs(2) by (auto simp: list_all2_Cons1)
      then show ?thesis using page_start [OF q(2), of False "[]"] WEB_ONI assms(3) f fit
        by (simp add: p boot_head_def is_api_def is_web_def base_ok_def handed_def not_started_def ic_bundle_def files_fit_def)
    next
      case ACCOUNT
      then obtain a u where f: "fs = [a, u]" using fs(1) by (auto simp: boot_files_def Let_def split: Option.bind_splits)
      then show ?thesis using tls [OF f] fs(2) fit ACCOUNT assms(3) k b pids_okD [OF assms(4)]
        by (simp add: p boot_head_def is_api_def is_web_def base_ok_def handed_def not_started_def files_fit_def setupIo_account_def rd
            length_int32)
    next
      case MTA
      then obtain a u where f: "fs = [a, u]" using fs(1) by (auto simp: boot_files_def Let_def split: Option.bind_splits)
      then show ?thesis using tls [OF f] fs(2) fit MTA assms(3) k b pids_okD [OF assms(4)]
        by (simp add: p boot_head_def is_api_def is_web_def base_ok_def handed_def not_started_def files_fit_def pipeRead_mta_def rd
            length_int32)
    next
      case API_CLR
      then obtain a u where f: "fs = [a, u]" using fs(1) by (auto simp: boot_files_def Let_def split: Option.bind_splits)
      then show ?thesis using tls [OF f] fs(2) fit API_CLR assms(3) k b pids_okD [OF assms(4)]
        by (simp add: p boot_head_def is_api_def is_web_def base_ok_def handed_def not_started_def files_fit_def pipeRead_api_def rd
            length_int32)
    next
      case API_ONI
      then obtain a u where f: "fs = [a, u]" using fs(1) by (auto simp: boot_files_def Let_def split: Option.bind_splits)
      then show ?thesis using tls [OF f] fs(2) fit API_ONI assms(3) k b pids_okD [OF assms(4)]
        by (simp add: p boot_head_def is_api_def is_web_def base_ok_def handed_def not_started_def files_fit_def pipeRead_api_def rd
            length_int32)
    next
      case STORAGE
      then show ?thesis using fs assms(3) k b
        by (auto simp: p boot_files_def boot_head_def is_api_def is_web_def base_ok_def handed_def not_started_def setupIo_storage_def)
    next
      case ENQUIRY
      then show ?thesis using fs assms(3) k b
        by (auto simp: p boot_files_def boot_head_def is_api_def is_web_def base_ok_def handed_def not_started_def readKeys_enquiry_def)
    next
      case DELIVER
      then show ?thesis using fs assms(3) k b pids_okD [OF assms(4)]
        by (auto simp: p boot_files_def boot_head_def is_api_def is_web_def base_ok_def handed_def not_started_def pipeLoad_deliver_def rd
            length_int32)
    qed
  qed
qed

text \<open>C23: a process that AEM-Manager has started reads from its pipe exactly the identifiers of its servers, its
  base key, its keys and its files - when the files other than the page are no longer than one packet, and except that
  AEM-API gets an undefined number for AEM-Enquiry and AEM-Storage none for AEM-Account.\<close>

theorem process_handover:
  assumes "process_spawn w m type key = Some (0, m', sigs, Some p)" "proc_of type = Some t" "base_ok m t key base"
    and "pids_ok m" "stream_ok (w_chacha w)" "\<And>fs. boot_files w m t = Some fs \<Longrightarrow> files_fit t fs"
  shows "\<exists>fs. boot_files w m t = Some fs \<and> process_start t junk p = Some (handed w m t junk base fs)"
  using assms by (rule handover)

definition demo_mg_world :: mg_world where
  "demo_mg_world = \<lparr>w_alive = (\<lambda>p. True), w_file = (\<lambda>path. Some (replicate 66 7)), w_pipe = True, w_clone = 500, w_write = (\<lambda>n. True),
     w_chacha = (\<lambda>k n b l. replicate l 1), w_aead = \<lparr>seal = (\<lambda>k n m. m @ replicate 32 0), unseal = (\<lambda>k n c. Some (take (length c - 32) c))\<rparr>,
     w_b64 = (\<lambda>t. None), w_behind = []\<rparr>"

definition demo_manager :: manager where
  "demo_manager = \<lparr>mg_launchKey = replicate 32 2, mg_key_api = replicate 40 3, mg_key_mng = replicate 32 4, mg_key_ic = replicate 46 5,
     mg_account = 104, mg_deliver = 103, mg_enquiry = 101, mg_storage = 102, mg_pids = replicate 5 (replicate AEM_MAXPROCESSES 0)\<rparr>"

lemma demo_spawn_fields:
  "w_write demo_mg_world n" "w_pipe demo_mg_world" "w_clone demo_mg_world = 500" "w_file demo_mg_world path = Some (replicate 66 7)"
  "unseal (w_aead demo_mg_world) k c d = Some (take (length d - 32) d)" "w_alive demo_mg_world pid"
  "w_chacha demo_mg_world = (\<lambda>k n b l. replicate l 1)"
  by (simp_all add: demo_mg_world_def)

lemma demo_file: "readDataFile demo_mg_world k path = Some [7, 7]"
  by (simp add: readDataFile_def demo_spawn_fields aegis_open_def AEM_MAXLEN_DATAFILE_def intcom_sizes numeral_2_eq_2)

theorem process_handover_witness:
  "\<exists>p. process_spawn demo_mg_world demo_manager 4 None = Some (0, demo_manager\<lparr>mg_pids := (mg_pids demo_manager)[4 := 500 # replicate 99 0]\<rparr>, [], Some p) \<and>
     process_start MTA 9 p = Some (handed demo_mg_world demo_manager MTA 9 (replicate 40 0) [[7, 7], [7, 7]])"
proof -
  have t: "proc_of 4 = Some MTA" by (simp add: proc_of_def AEM_PROCESSTYPES_COUNT_def)
  have f: "pipeFile demo_mg_world k path False q = Some (Some (q @ [size_bytes 2, [7, 7]]))" for k path q
    by (simp add: pipeFile_def demo_file pipe_data_def pipe_write_def PIPE_BUF_def demo_spawn_fields numeral_2_eq_2)
  have row: "mg_pids demo_manager ! 4 = 0 # replicate 99 0"
    using replicate_Suc [of 99 "0 :: int"] by (simp add: demo_manager_def AEM_MAXPROCESSES_def del: replicate_Suc)
  obtain p where p: "spawn_pipe demo_mg_world demo_manager MTA None = Some (Some p)"
    by (simp add: spawn_pipe_def pipe_then_def send_pids_def sendIntComKeys_def send_files_def f is_api_def is_web_def pipe_write_def demo_spawn_fields)
  have s: "process_spawn demo_mg_world demo_manager 4 None =
      Some (0, demo_manager\<lparr>mg_pids := (mg_pids demo_manager)[4 := 500 # replicate 99 0]\<rparr>, [], Some p)"
    using t p row by (simp add: process_spawn_def keep_pid_def demo_spawn_fields)
  have b: "boot_files demo_mg_world demo_manager MTA = Some [[7, 7], [7, 7]]" by (simp add: boot_files_def demo_file)
  have "stream_ok (w_chacha demo_mg_world)" "pids_ok demo_manager" "base_ok demo_manager MTA None (replicate 40 0)"
    by (simp_all add: stream_ok_def pids_ok_def base_ok_def is_api_def demo_spawn_fields demo_manager_def)
  from process_handover [OF s t this(3,2,1), of 9] b s show ?thesis by (auto simp: files_fit_def is_web_def PIPE_BUF_def)
qed

section \<open>Commands\<close>

definition mg_inv :: "manager \<Rightarrow> bool" where
  "mg_inv m \<longleftrightarrow> length (mg_pids m) = 5 \<and> list_all (\<lambda>row. length row = AEM_MAXPROCESSES \<and> list_all (\<lambda>p. 0 \<le> p) row) (mg_pids m) \<and>
     0 \<le> mg_account m \<and> 0 \<le> mg_deliver m \<and> 0 \<le> mg_enquiry m \<and> 0 \<le> mg_storage m"

definition same_keys :: "manager \<Rightarrow> manager \<Rightarrow> bool" where
  "same_keys m m' \<longleftrightarrow> mg_launchKey m' = mg_launchKey m \<and> mg_key_api m' = mg_key_api m \<and> mg_key_mng m' = mg_key_mng m \<and> mg_key_ic m' = mg_key_ic m"

text \<open>Every process that runs is still known.\<close>

definition keeps_running :: "mg_world \<Rightarrow> manager \<Rightarrow> manager \<Rightarrow> bool" where
  "keeps_running w m m' \<longleftrightarrow> (\<forall>type < 5. \<forall>pid \<in> set (mg_pids m ! type). process_exists w pid \<longrightarrow> pid \<in> set (mg_pids m' ! type))"

lemma free_slot_Some: "free_slot ps = Some s \<Longrightarrow> s < length ps \<and> ps ! s = 0"
  by (induction ps arbitrary: s) (auto split: if_splits)

lemma mg_inv_row: "mg_inv m \<Longrightarrow> type < 5 \<Longrightarrow> length (mg_pids m ! type) = AEM_MAXPROCESSES \<and> list_all (\<lambda>p. 0 \<le> p) (mg_pids m ! type)"
  by (simp add: mg_inv_def list_all_length)

lemma refresh_inv: "mg_inv m \<Longrightarrow> mg_inv (refreshPids w m)"
  by (auto simp: mg_inv_def refreshPids_def still_def list_all_iff)

lemma refresh_running: "mg_inv m \<Longrightarrow> keeps_running w m (refreshPids w m)"
  by (auto simp: keeps_running_def refreshPids_def mg_inv_def still_def image_iff)

lemma keep_pid_same_keys: "same_keys m (keep_pid m t type s pid)"
  by (cases t) (simp_all add: keep_pid_def same_keys_def)

lemma keep_pid_inv:
  assumes "mg_inv m" "proc_of type = Some t" "type < 5 \<longrightarrow> free_slot (mg_pids m ! type) = Some s" "0 \<le> pid"
  shows "mg_inv (keep_pid m t type s pid) \<and> keeps_running w m (keep_pid m t type s pid)"
proof (cases "type < 5")
  case True
  define row where "row = (mg_pids m ! type)[s := pid]"
  have r: "length (mg_pids m ! type) = AEM_MAXPROCESSES" "list_all (\<lambda>p. 0 \<le> p) (mg_pids m ! type)" using mg_inv_row [OF assms(1) True] by auto
  have z: "s < length (mg_pids m ! type)" "mg_pids m ! type ! s = 0" using free_slot_Some assms(3) True by auto
  have k: "keep_pid m t type s pid = m\<lparr>mg_pids := (mg_pids m)[type := row]\<rparr>"
    using assms(2) True by (auto simp: proc_of_def keep_pid_def row_def less_Suc_eq numeral_nat split: if_splits)
  have "list_all (\<lambda>p. 0 \<le> p) row" using r(2) assms(4) by (auto simp: row_def list_all_iff dest: set_update_subset_insert [THEN subsetD])
  then have inv: "mg_inv (keep_pid m t type s pid)"
    using assms(1) r(1) k by (auto simp: mg_inv_def list_all_iff row_def dest!: set_update_subset_insert [THEN subsetD])
  have "pid' \<in> set row" if p: "pid' \<in> set (mg_pids m ! type)" "process_exists w pid'" for pid'
  proof -
    obtain j where j: "j < length (mg_pids m ! type)" "mg_pids m ! type ! j = pid'" using p(1) by (auto simp: in_set_conv_nth)
    then have "j \<noteq> s" using z(2) p(2) by (auto simp: process_exists_def)
    then show ?thesis using j by (auto simp: row_def in_set_conv_nth intro!: exI [of _ j])
  qed
  then show ?thesis using inv k assms(1) True by (auto simp: keeps_running_def nth_list_update mg_inv_def)
next
  case False
  have "type < 9" using assms(2) by (simp add: proc_of_def AEM_PROCESSTYPES_COUNT_def split: if_splits)
  then have "type = 5 \<or> type = 6 \<or> type = 7 \<or> type = 8" using False by presburger
  then have "t \<in> {ACCOUNT, DELIVER, ENQUIRY, STORAGE}" using assms(2) by (auto simp: proc_of_def AEM_PROCESSTYPES_COUNT_def)
  then have "keep_pid m t type s pid \<in> {m\<lparr>mg_account := pid\<rparr>, m\<lparr>mg_deliver := pid\<rparr>, m\<lparr>mg_enquiry := pid\<rparr>, m\<lparr>mg_storage := pid\<rparr>}"
    by (auto simp: keep_pid_def)
  then show ?thesis using assms(1,4) by (auto simp: mg_inv_def keeps_running_def)
qed

lemma spawn_result:
  assumes "process_spawn w0 m type key = Some (code, m', sigs, p)" "mg_inv m"
  shows "mg_inv m' \<and> keeps_running w m m' \<and> same_keys m m' \<and> set sigs \<subseteq> {(w_clone w0, SIG_KILL)}"
proof (cases "code = 0")
  case True
  have m: "keeps_running w m m" "same_keys m m" by (simp_all add: keeps_running_def same_keys_def)
  obtain t s where t: "proc_of type = Some t" "m' = keep_pid m t type s (w_clone w0)" "sigs = []" "0 \<le> w_clone w0"
    "type < 5 \<longrightarrow> free_slot (mg_pids m ! type) = Some s"
    using assms(1) True by (auto simp: process_spawn_def Let_def split: if_splits option.splits Option.bind_splits)
  then show ?thesis using keep_pid_inv [OF assms(2) t(1,5,4), of w] keep_pid_same_keys [of m t type s "w_clone w0"] by simp
next
  case False
  then have "m' = m" "set sigs \<subseteq> {(w_clone w0, SIG_KILL)}"
    using assms(1) by (auto simp: process_spawn_def Let_def split: if_splits option.splits Option.bind_splits)
  then show ?thesis using assms(2) by (simp add: keeps_running_def same_keys_def)
qed

lemma running_trans: "keeps_running w a b \<Longrightarrow> keeps_running w b c \<Longrightarrow> keeps_running w a c"
  by (simp add: keeps_running_def)

lemma spawn_loop_result:
  "spawn_loop ws i m type n = Some (all, m', sigs, ps) \<Longrightarrow> mg_inv m \<Longrightarrow>
   mg_inv m' \<and> keeps_running w m m' \<and> same_keys m m' \<and> (\<forall>(pid, sig) \<in> set sigs. sig = SIG_KILL \<and> (\<exists>j. pid = w_clone (ws j)))"
proof (induction n arbitrary: i m all m' sigs ps)
  case 0
  then show ?case by (simp add: keeps_running_def same_keys_def)
next
  case (Suc n)
  obtain code m1 sigs1 p1 where s: "process_spawn (ws i) m type None = Some (code, m1, sigs1, p1)"
    using Suc.prems(1) by (auto split: Option.bind_splits)
  note r = spawn_result [OF s Suc.prems(2), of w]
  show ?case
  proof (cases "code = 0")
    case True
    then obtain sigs2 ps2 where "spawn_loop ws (Suc i) m1 type n = Some (all, m', sigs2, ps2)" "sigs = sigs1 @ sigs2"
      using Suc.prems(1) s by (auto split: Option.bind_splits)
    then show ?thesis using Suc.IH [of "Suc i" m1 all m' sigs2 ps2] r
      by (fastforce simp: same_keys_def intro: running_trans)
  next
    case False
    then show ?thesis using Suc.prems(1) s r by fastforce
  qed
qed

text \<open>The four servers have one number each: only starting another one of a type changes it.\<close>

definition same_servers :: "nat \<Rightarrow> manager \<Rightarrow> manager \<Rightarrow> bool" where
  "same_servers type m m' \<longleftrightarrow> (type \<noteq> 5 \<longrightarrow> mg_account m' = mg_account m) \<and> (type \<noteq> 6 \<longrightarrow> mg_deliver m' = mg_deliver m) \<and>
     (type \<noteq> 7 \<longrightarrow> mg_enquiry m' = mg_enquiry m) \<and> (type \<noteq> 8 \<longrightarrow> mg_storage m' = mg_storage m)"

lemma same_servers_refl [simp]: "same_servers type m m"
  by (simp add: same_servers_def)

lemma keep_pid_servers: "proc_of type = Some t \<Longrightarrow> same_servers type m (keep_pid m t type s pid)"
proof -
  assume t: "proc_of type = Some t"
  then have "type \<in> {0, 1, 2, 3, 4, 5, 6, 7, 8}" by (auto simp: proc_of_def AEM_PROCESSTYPES_COUNT_def split: if_splits)
  then show ?thesis using t by (auto simp: keep_pid_def same_servers_def proc_of_def AEM_PROCESSTYPES_COUNT_def)
qed

lemma spawn_servers: "process_spawn w m type key = Some (code, m', sigs, p) \<Longrightarrow> same_servers type m m'"
  by (auto simp: process_spawn_def Let_def keep_pid_servers split: if_splits option.splits Option.bind_splits)

lemma spawn_loop_servers: "spawn_loop ws i m type n = Some (all, m', sigs, ps) \<Longrightarrow> same_servers type m m'"
proof (induction n arbitrary: i m all m' sigs ps)
  case (Suc n)
  obtain code m1 sigs1 p1 where s: "process_spawn (ws i) m type None = Some (code, m1, sigs1, p1)"
    using Suc.prems by (auto split: Option.bind_splits)
  from spawn_servers [OF this] show ?case
    using Suc.prems s Suc.IH [of "Suc i" m1] by (auto simp: same_servers_def split: Option.bind_splits if_splits)
qed simp

definition starts :: "mg_world \<Rightarrow> manager \<Rightarrow> byte list \<Rightarrow> nat \<Rightarrow> bool" where
  "starts w m enc type \<longleftrightarrow> (\<exists>dec. aegis_open w (mg_key_mng m) enc = Some dec \<and> dec ! 0 = 83 \<and> unat (dec ! 1) = type)"

lemma command_servers:
  assumes "respond_manager w ws m enc = Some (m', sigs, ps)"
  shows "\<exists>type m1. same_servers type m m1 \<and> (m' = m1 \<or> m' = refreshPids w m1) \<and> (type \<in> {5, 6, 7, 8} \<longrightarrow> starts w m enc type)"
proof (cases "length enc \<noteq> AEM_MANAGER_CMDLEN_DEC + NPUBBYTES + ABYTES \<or> aegis_open w (mg_key_mng m) enc = None")
  case True
  then have "m' = m" using assms by (auto simp: respond_manager_def split: option.splits)
  then show ?thesis by (intro exI [of _ 0] exI [of _ m]) simp
next
  case False
  then obtain dec where dec: "aegis_open w (mg_key_mng m) enc = Some dec" "manager_command w ws m dec = Some (m', sigs, ps)"
    using assms by (auto simp: respond_manager_def)
  show ?thesis
  proof (cases "dec ! 0 = 83")
    case True
    then have "m' = m \<or> (\<exists>n a m1. spawn_loop ws 0 m (unat (dec ! 1)) n = Some (a, m1, sigs, ps) \<and> (m' = m1 \<or> m' = refreshPids w m1))"
      using dec(2) by (auto simp: manager_command_def Let_def split: if_splits Option.bind_splits; blast)
    then obtain m1 where m: "m1 = m \<or> (\<exists>n a. spawn_loop ws 0 m (unat (dec ! 1)) n = Some (a, m1, sigs, ps))" "m' = m1 \<or> m' = refreshPids w m1"
      by blast
    from m(1) have "same_servers (unat (dec ! 1)) m m1" using spawn_loop_servers by (elim disjE exE) simp_all
    moreover have "starts w m enc (unat (dec ! 1))" using dec(1) True by (auto simp: starts_def)
    ultimately show ?thesis using m(2) by blast
  next
    case False
    then have "m' = m \<or> m' = refreshPids w m" using dec(2) by (auto simp: manager_command_def Let_def split: if_splits)
    then show ?thesis by (intro exI [of _ 0] exI [of _ m]) auto
  qed
qed

text \<open>A server is still known unless it has ended.\<close>

definition server_kept :: "mg_world \<Rightarrow> int \<Rightarrow> int \<Rightarrow> bool" where
  "server_kept w pid pid' \<longleftrightarrow> pid' = pid \<or> \<not> process_exists w pid \<and> pid' = 0"

lemma same_servers_kept:
  assumes "same_servers type m m1" "m' = m1 \<or> m' = refreshPids w m1"
  shows "(type \<noteq> 5 \<longrightarrow> server_kept w (mg_account m) (mg_account m')) \<and> (type \<noteq> 6 \<longrightarrow> server_kept w (mg_deliver m) (mg_deliver m')) \<and>
    (type \<noteq> 7 \<longrightarrow> server_kept w (mg_enquiry m) (mg_enquiry m')) \<and> (type \<noteq> 8 \<longrightarrow> server_kept w (mg_storage m) (mg_storage m'))"
  using assms by (auto simp: same_servers_def server_kept_def refreshPids_def still_def)

section \<open>Properties: commands\<close>

lemma command_safe:
  assumes "respond_manager w ws m enc = Some (m', sigs, ps)" "mg_inv m"
  shows "mg_inv m' \<and> keeps_running w m m' \<and> same_keys m m' \<and>
    (\<forall>(pid, sig) \<in> set sigs. if sig = SIG_KILL then \<exists>i. pid = w_clone (ws i) else process_exists w pid \<and> (\<exists>row \<in> set (mg_pids m). pid \<in> set row)) \<and>
    (aegis_open w (mg_key_mng m) enc = None \<longrightarrow> m' = m \<and> sigs = [] \<and> ps = [])"
proof -
  have same: "keeps_running w m m" "same_keys m m" "same_keys m (refreshPids w m)"
    by (simp_all add: keeps_running_def same_keys_def refreshPids_def)
  note ref = refresh_inv [OF assms(2), of w] refresh_running [OF assms(2), of w]
  have kill: "process_exists w pid \<and> (\<exists>row \<in> set (mg_pids m). pid \<in> set row) \<and> sig = s"
    if "(pid, sig) \<in> set (process_kill w m type n s)" for pid sig type n s
    using that assms(2) by (auto simp: process_kill_def list_ex_iff mg_inv_def split: if_splits intro!: bexI [of _ "mg_pids m ! type"])
  show ?thesis
  proof (cases "length enc \<noteq> AEM_MANAGER_CMDLEN_DEC + NPUBBYTES + ABYTES \<or> aegis_open w (mg_key_mng m) enc = None")
    case True
    then show ?thesis using assms same by (auto simp: respond_manager_def split: option.splits)
  next
    case False
    then obtain dec where dec: "aegis_open w (mg_key_mng m) enc = Some dec" "manager_command w ws m dec = Some (m', sigs, ps)"
      using assms(1) by (auto simp: respond_manager_def)
    consider (plain) "m' = refreshPids w m \<or> m' = m" "sigs = []"
      | (kill) type n s where "m' = refreshPids w m" "sigs = process_kill w m type n s" "s \<noteq> SIG_KILL"
      | (spawn) type n a m1 where "spawn_loop ws 0 m type n = Some (a, m1, sigs, ps)" "m' = refreshPids w m1 \<or> m' = m1"
      using dec(2) by (auto simp: manager_command_def Let_def split: if_splits Option.bind_splits)
    then show ?thesis
    proof cases
      case plain
      then show ?thesis using dec(1) ref same assms(2) by auto
    next
      case c: kill
      then show ?thesis using dec(1) ref same kill by fastforce
    next
      case c: spawn
      note r = spawn_loop_result [OF c(1) assms(2), of w]
      have "mg_inv (refreshPids w m1)" "keeps_running w m1 (refreshPids w m1)" "same_keys m1 (refreshPids w m1)"
        using r refresh_inv refresh_running by (auto simp: same_keys_def refreshPids_def)
      then show ?thesis using dec(1) r c(2) by (fastforce simp: same_keys_def intro: running_trans)
    qed
  qed
qed

text \<open>C27: whatever is received on the port of AEM-Manager, the tables of processes stay well formed, no process of
  AEM-Web, AEM-API or AEM-MTA that runs is lost from them, the keys stay, and the only signals sent go to processes of the
  tables that still exist or, to kill it, to a process just created.  The one number kept for each of the four servers is
  replaced only if this server no longer runs, or by a command to start another server of its type - then the running one
  is lost.  What has not been sealed with the key of the administrator changes nothing.\<close>

theorem manager_command_safe:
  assumes "respond_manager w ws m enc = Some (m', sigs, ps)" "mg_inv m"
  shows "mg_inv m' \<and> keeps_running w m m' \<and> same_keys m m' \<and>
    (server_kept w (mg_account m) (mg_account m') \<or> starts w m enc 5) \<and> (server_kept w (mg_deliver m) (mg_deliver m') \<or> starts w m enc 6) \<and>
    (server_kept w (mg_enquiry m) (mg_enquiry m') \<or> starts w m enc 7) \<and> (server_kept w (mg_storage m) (mg_storage m') \<or> starts w m enc 8) \<and>
    (\<forall>(pid, sig) \<in> set sigs. if sig = SIG_KILL then \<exists>i. pid = w_clone (ws i) else process_exists w pid \<and> (\<exists>row \<in> set (mg_pids m). pid \<in> set row)) \<and>
    (aegis_open w (mg_key_mng m) enc = None \<longrightarrow> m' = m \<and> sigs = [] \<and> ps = [])"
proof -
  obtain type m1 where t: "same_servers type m m1" "m' = m1 \<or> m' = refreshPids w m1" "type \<in> {5, 6, 7, 8} \<longrightarrow> starts w m enc type"
    using command_servers [OF assms(1)] by blast
  have "(server_kept w (mg_account m) (mg_account m') \<or> starts w m enc 5) \<and> (server_kept w (mg_deliver m) (mg_deliver m') \<or> starts w m enc 6) \<and>
    (server_kept w (mg_enquiry m) (mg_enquiry m') \<or> starts w m enc 7) \<and> (server_kept w (mg_storage m) (mg_storage m') \<or> starts w m enc 8)"
    using same_servers_kept [OF t(1,2)] t(3) by auto
  then show ?thesis using command_safe [OF assms] by blast
qed

theorem manager_command_safe_witness:
  "let m = demo_manager\<lparr>mg_pids := (mg_pids demo_manager)[2 := 500 # replicate 99 0]\<rparr>;
       enc = replicate 32 0 @ [75, 2, 244, 1, 0, 0] @ replicate 32 0
   in \<exists>m'. respond_manager demo_mg_world (\<lambda>i. demo_mg_world) m enc = Some (m', [(500, SIG_USR2)], []) \<and> mg_inv m' \<and> same_keys m m' \<and>
        process_exists demo_mg_world 500"
proof -
  define m where "m = demo_manager\<lparr>mg_pids := (mg_pids demo_manager)[2 := 500 # replicate 99 0]\<rparr>"
  define enc :: "byte list" where "enc = replicate 32 0 @ [75, 2, 244, 1, 0, 0] @ replicate 32 0"
  have "list_all (\<lambda>row. length row = AEM_MAXPROCESSES \<and> list_all (\<lambda>p. 0 \<le> p) row) ((replicate 5 (replicate AEM_MAXPROCESSES 0))[2 := 500 # replicate 99 (0 :: int)])"
    by (auto simp: list_all_iff AEM_MAXPROCESSES_def dest!: set_update_subset_insert [THEN subsetD])
  then have i: "mg_inv m" by (simp add: m_def mg_inv_def demo_manager_def)
  have o: "aegis_open demo_mg_world k enc = Some [75, 2, 244, 1, 0, 0]" for k
    by (simp add: aegis_open_def demo_spawn_fields enc_def intcom_sizes)
  have e: "process_exists demo_mg_world 500" by (simp add: process_exists_def demo_spawn_fields)
  have "process_kill demo_mg_world m 2 500 SIG_USR2 = [(500, SIG_USR2)]"
    using e by (simp add: process_kill_def m_def demo_manager_def)
  moreover have "length enc = AEM_MANAGER_CMDLEN_DEC + NPUBBYTES + ABYTES" by (simp add: enc_def AEM_MANAGER_CMDLEN_DEC_def intcom_sizes)
  ultimately have r: "respond_manager demo_mg_world (\<lambda>i. demo_mg_world) m enc = Some (refreshPids demo_mg_world m, [(500, SIG_USR2)], [])"
    using o by (simp add: respond_manager_def manager_command_def pid_of_num_def)
  show ?thesis unfolding Let_def m_def [symmetric] enc_def [symmetric] using manager_command_safe [OF r i] e r by auto
qed

section \<open>The keys of the calls\<close>

text \<open>Who calls whom, and under which number a server knows its clients.\<close>

fun calls :: "proc \<Rightarrow> nat list" where
  "calls ACCOUNT = [SERVER_STO]"
| "calls DELIVER = [SERVER_ENQ, SERVER_STO]"
| "calls STORAGE = [SERVER_ACC]"
| "calls MTA = [SERVER_ACC]"
| "calls API_CLR = [SERVER_ACC, SERVER_ENQ, SERVER_STO]"
| "calls API_ONI = [SERVER_ACC, SERVER_ENQ, SERVER_STO]"
| "calls _ = []"

definition server_proc :: "nat \<Rightarrow> proc" where
  "server_proc s = [ACCOUNT, ENQUIRY, STORAGE] ! s"

fun client_id :: "proc \<Rightarrow> nat" where
  "client_id ACCOUNT = CLIENT_ACC"
| "client_id API_CLR = CLIENT_API"
| "client_id API_ONI = CLIENT_API"
| "client_id MTA = CLIENT_MTA"
| "client_id DELIVER = CLIENT_DLV"
| "client_id STORAGE = CLIENT_STO"
| "client_id _ = 4"

definition client_key :: "chacha \<Rightarrow> byte list \<Rightarrow> proc \<Rightarrow> nat \<Rightarrow> byte list" where
  "client_key c k t s = kb_client (ic_bundle c k t) ! s"

definition server_key :: "chacha \<Rightarrow> byte list \<Rightarrow> nat \<Rightarrow> nat \<Rightarrow> byte list" where
  "server_key c k s i = kb_server (ic_bundle c k (server_proc s)) ! i"

text \<open>The number from which the key of a link is derived.\<close>

fun link_num :: "proc \<Rightarrow> nat \<Rightarrow> byte" where
  "link_num ACCOUNT s = KEYNUM_STORAGE_ACC"
| "link_num DELIVER s = (if s = SERVER_ENQ then KEYNUM_ENQUIRY_DLV else KEYNUM_STORAGE_DLV)"
| "link_num STORAGE s = KEYNUM_ACCOUNT_STO"
| "link_num MTA s = KEYNUM_ACCOUNT_MTA"
| "link_num _ s = (if s = SERVER_ACC then KEYNUM_ACCOUNT_API else if s = SERVER_ENQ then KEYNUM_ENQUIRY_API else KEYNUM_STORAGE_API)"

lemma bit_smk_counter: "i < 8 \<Longrightarrow> bit (kdf_smk_counter n k) (8 + i) = bit n i"
  by (simp add: kdf_smk_counter_def bit_or_iff bit_push_bit_iff bit_ucast_iff)

lemma smk_counter_inj: "kdf_smk_counter n k = kdf_smk_counter n' k \<Longrightarrow> n = n'"
proof (rule bit_word_eqI)
  fix i :: nat
  assume "kdf_smk_counter n k = kdf_smk_counter n' k" "i < LENGTH(8)"
  then show "bit n i = bit n' i" using bit_smk_counter [of i n k] bit_smk_counter [of i n' k] by simp
qed

lemma smk_counter_mod: "unat (kdf_smk_counter n k) mod 256 = 0"
proof -
  have "take_bit 8 (kdf_smk_counter n k) = 0"
    by (rule bit_word_eqI) (simp add: bit_take_bit_iff kdf_smk_counter_def bit_or_iff bit_push_bit_iff)
  then have "take_bit 8 (unat (kdf_smk_counter n k)) = 0" by (metis unat_0 unsigned_take_bit_eq)
  then show ?thesis by (simp add: take_bit_eq_mod)
qed

lemma smk_blocks_apart: "n \<noteq> n' \<Longrightarrow> i < 256 \<Longrightarrow> j < 256 \<Longrightarrow> unat (kdf_smk_counter n k) + i \<noteq> unat (kdf_smk_counter n' k) + j"
  using block_ranges_disjoint [OF smk_counter_mod smk_counter_mod] smk_counter_inj by (metis word_unat_eq_iff)

lemmas bundle_simps = ic_bundle_def Let_def empty_bundle_def set_client_def set_server_def client_key_def server_key_def server_proc_def

lemma link_keys: "s \<in> set (calls t) \<Longrightarrow> client_key c k t s = aem_kdf_smk c 32 (link_num t s) k \<and> server_key c k s (client_id t) = aem_kdf_smk c 32 (link_num t s) k"
  by (cases t) (auto simp: bundle_simps eval_nat_numeral)

lemma other_client_keys: "s < 3 \<Longrightarrow> s \<notin> set (calls t) \<Longrightarrow> client_key c k t s = no_key"
  by (cases t) (auto simp: bundle_simps eval_nat_numeral less_Suc_eq)

lemma other_server_keys: "s < 3 \<Longrightarrow> i < 4 \<Longrightarrow> \<forall>t. s \<in> set (calls t) \<longrightarrow> client_id t \<noteq> i \<Longrightarrow> server_key c k s i = no_key"
proof -
  assume s: "s < 3" "i < 4" "\<forall>t. s \<in> set (calls t) \<longrightarrow> client_id t \<noteq> i"
  have "s = 0 \<or> s = 1 \<or> s = 2" "i = 0 \<or> i = 1 \<or> i = 2 \<or> i = 3" using s(1,2) by auto
  then show ?thesis using s(3) [rule_format, of ACCOUNT] s(3) [rule_format, of API_CLR] s(3) [rule_format, of MTA]
      s(3) [rule_format, of STORAGE] s(3) [rule_format, of DELIVER]
    by (elim disjE) (simp_all add: bundle_simps eval_nat_numeral)
qed

text \<open>C26: every client has the key its server has for it; a process has no key for a server it does not call, a
  server none for a process that does not call it, a process that is no server no key of a server at all, and only AEM-MTA and
  AEM-Deliver have the key of the stream between them; and the keys of two links, or of a link and of the stream from AEM-MTA to
  AEM-Deliver, never share a block of the key stream.\<close>

theorem intercom_keys:
  "(\<forall>t. \<forall>s \<in> set (calls t). client_key c k t s = server_key c k s (client_id t)) \<and>
   (\<forall>t s. s < 3 \<and> s \<notin> set (calls t) \<longrightarrow> client_key c k t s = no_key) \<and>
   (\<forall>s i. s < 3 \<and> i < 4 \<and> (\<forall>t. s \<in> set (calls t) \<longrightarrow> client_id t \<noteq> i) \<longrightarrow> server_key c k s i = no_key) \<and>
   (\<forall>t. length (kb_client (ic_bundle c k t)) = 3 \<and> length (kb_server (ic_bundle c k t)) = 4) \<and>
   (\<forall>t. t \<notin> {ACCOUNT, ENQUIRY, STORAGE} \<longrightarrow> kb_server (ic_bundle c k t) = replicate 4 no_key) \<and>
   (\<forall>t. kb_stream (ic_bundle c k t) = (if t = MTA \<or> t = DELIVER then aem_kdf_smk c 32 KEYNUM_STREAM k else no_key)) \<and>
   (\<forall>t. \<forall>s \<in> set (calls t). client_key c k t s = aem_kdf_smk c 32 (link_num t s) k \<and> link_num t s \<noteq> KEYNUM_STREAM \<and>
      (\<forall>t'. \<forall>s' \<in> set (calls t'). (s, client_id t) \<noteq> (s', client_id t') \<longrightarrow>
         (\<forall>i < 256. \<forall>j < 256. unat (kdf_smk_counter (link_num t s) k) + i \<noteq> unat (kdf_smk_counter (link_num t' s') k) + j)))"
proof (intro conjI allI impI ballI)
  fix t
  show "kb_stream (ic_bundle c k t) = (if t = MTA \<or> t = DELIVER then aem_kdf_smk c 32 KEYNUM_STREAM k else no_key)"
    by (cases t) (simp_all add: bundle_simps)
  show "length (kb_client (ic_bundle c k t)) = 3" "length (kb_server (ic_bundle c k t)) = 4"
    by (cases t; simp add: bundle_simps)+
  show "kb_server (ic_bundle c k t) = replicate 4 no_key" if "t \<notin> {ACCOUNT, ENQUIRY, STORAGE}"
    using that by (cases t) (simp_all add: bundle_simps)
next
  fix t s t' s' and i j :: nat
  assume a: "s \<in> set (calls t)" "s' \<in> set (calls t')" "(s, client_id t) \<noteq> (s', client_id t')" "i < 256" "j < 256"
  have "link_num t s \<noteq> link_num t' s'" using a(1-3) by (cases t; cases t') (auto simp: keynums)
  then show "unat (kdf_smk_counter (link_num t s) k) + i \<noteq> unat (kdf_smk_counter (link_num t' s') k) + j" using smk_blocks_apart a(4,5) by blast
next
  fix t s assume "s \<in> set (calls t)"
  then show "link_num t s \<noteq> KEYNUM_STREAM" by (cases t) (auto simp: keynums)
qed (use link_keys other_client_keys other_server_keys in auto)

theorem intercom_keys_witness:
  "client_key (\<lambda>k n b l. replicate l (ucast b)) [] MTA 0 = server_key (\<lambda>k n b l. replicate l (ucast b)) [] 0 2 \<and>
   client_key (\<lambda>k n b l. replicate l (ucast b)) [] MTA 2 = no_key"
proof -
  have "0 \<in> set (calls MTA)" "2 \<notin> set (calls MTA)" "(2 :: nat) < 3" "client_id MTA = 2" by simp_all
  then show ?thesis using intercom_keys [of "\<lambda>k n b l. replicate l (ucast b)" "[]"] by metis
qed

section \<open>Properties: the start of the server\<close>

lemma spawn_all_four:
  assumes "spawn_all ws 0 m [(t0, k0), (t1, k1), (t2, k2), (t3, k3)] = Some (0, m', ps)"
    and "\<And>w m type key m' sigs. process_spawn w m type key \<noteq> Some (0, m', sigs, None)"
  shows "\<exists>m1 m2 m3 g0 g1 g2 g3 p0 p1 p2 p3. process_spawn (ws 0) m t0 k0 = Some (0, m1, g0, Some p0) \<and>
    process_spawn (ws 1) m1 t1 k1 = Some (0, m2, g1, Some p1) \<and> process_spawn (ws 2) m2 t2 k2 = Some (0, m3, g2, Some p2) \<and>
    process_spawn (ws 3) m3 t3 k3 = Some (0, m', g3, Some p3) \<and> ps = [p0, p1, p2, p3]"
  using assms by (auto split: Option.bind_splits if_splits option.splits simp: numeral_2_eq_2 numeral_3_eq_3)

lemma spawned_pipe: "process_spawn w m type key \<noteq> Some (0, m', sigs, None)"
  by (auto simp: process_spawn_def Let_def split: if_splits option.splits Option.bind_splits)

lemma proc_numbers: "proc_of 5 = Some ACCOUNT" "proc_of 6 = Some DELIVER" "proc_of 7 = Some ENQUIRY" "proc_of 8 = Some STORAGE"
  by (simp_all add: proc_of_def AEM_PROCESSTYPES_COUNT_def)

text \<open>The system as it is during the start: process identifiers are positive, the ciphers the ones of the manager, the public keys
  no longer than a packet.\<close>

definition start_ok :: "chacha \<Rightarrow> (nat \<Rightarrow> mg_world) \<Rightarrow> bool" where
  "start_ok chacha ws \<longleftrightarrow> stream_ok chacha \<and> (\<forall>i. 0 < w_clone (ws i) \<and> w_clone (ws i) < 2 ^ 31 \<and> w_chacha (ws i) = chacha \<and>
     (\<forall>k name bs. readDataFile (ws i) k (path_data name) = Some bs \<longrightarrow> length bs \<le> PIPE_BUF))"

text \<open>C25: once AEM-Manager has started the four servers they run with the right identifiers of each other, the base
  keys derived from the Server Master Key and the keys of their calls - but AEM-Storage, which asks AEM-Account for the keys
  of every user it stores a message for, has no identifier of it.\<close>

theorem setup_servers:
  assumes "setupManager ws chacha smk key_ic = Some (0, m, ps)" "start_ok chacha ws"
  shows "\<exists>e s d a pe p_s pd pa. ps = [pe, p_s, pd, pa] \<and> verifyStatus m \<and>
    process_start ENQUIRY junk pe = Some e \<and> process_start STORAGE junk p_s = Some s \<and>
    process_start DELIVER junk pd = Some d \<and> process_start ACCOUNT junk pa = Some a \<and>
    mg_enquiry m = w_clone (ws 0) \<and> mg_storage m = w_clone (ws 1) \<and> mg_deliver m = w_clone (ws 2) \<and> mg_account m = w_clone (ws 3) \<and>
    st_enq d = mg_enquiry m \<and> st_sto d = mg_storage m \<and> st_sto a = mg_storage m \<and> st_acc s = 0 \<and> mg_account m \<noteq> 0 \<and>
    st_base s = aem_kdf_smk chacha 40 KEYID_SMK_STO smk \<and> st_base a = aem_kdf_smk chacha 40 KEYID_SMK_ACC smk \<and>
    (\<forall>(t, x) \<in> {(ENQUIRY, e), (STORAGE, s), (DELIVER, d), (ACCOUNT, a)}. st_keys x = ic_bundle chacha key_ic t)"
proof -
  define m0 where "m0 = \<lparr>mg_launchKey = aem_kdf_smk chacha 32 KEYID_SMK_LCH smk, mg_key_api = replicate 40 0, mg_key_mng = replicate 32 0,
            mg_key_ic = key_ic, mg_account = 0, mg_deliver = 0, mg_enquiry = 0, mg_storage = 0,
            mg_pids = replicate 5 (replicate AEM_MAXPROCESSES 0)\<rparr>"
  define ks ka where "ks = aem_kdf_smk chacha 40 KEYID_SMK_STO smk" and "ka = aem_kdf_smk chacha 40 KEYID_SMK_ACC smk"
  have w: "stream_ok chacha" "\<And>i. w_chacha (ws i) = chacha" "\<And>i. 0 < w_clone (ws i)" "\<And>i. w_clone (ws i) < 2 ^ 31"
    "\<And>i k name bs. readDataFile (ws i) k (path_data name) = Some bs \<Longrightarrow> length bs \<le> PIPE_BUF" using assms(2) by (auto simp: start_ok_def)
  obtain m' where m': "spawn_all ws 0 m0 [(7, None), (8, Some ks), (6, None), (5, Some ka)] = Some (0, m', ps)"
    "m = m'\<lparr>mg_key_mng := aem_kdf_smk chacha 32 KEYID_SMK_MNG smk, mg_key_api := aem_kdf_smk chacha 40 KEYID_SMK_API smk\<rparr>"
    using assms(1) by (auto simp: setupManager_def Let_def m0_def ks_def ka_def split: Option.bind_splits)
  obtain m1 m2 m3 g0 g1 g2 g3 p0 p1 p2 p3 where sp: "process_spawn (ws 0) m0 7 None = Some (0, m1, g0, Some p0)"
    "process_spawn (ws 1) m1 8 (Some ks) = Some (0, m2, g1, Some p1)" "process_spawn (ws 2) m2 6 None = Some (0, m3, g2, Some p2)"
    "process_spawn (ws 3) m3 5 (Some ka) = Some (0, m', g3, Some p3)" "ps = [p0, p1, p2, p3]"
    using spawn_all_four [OF m'(1) spawned_pipe] by blast
  have kp: "m1 = m0\<lparr>mg_enquiry := w_clone (ws 0)\<rparr>" "m2 = m1\<lparr>mg_storage := w_clone (ws 1)\<rparr>" "m3 = m2\<lparr>mg_deliver := w_clone (ws 2)\<rparr>"
    "m' = m3\<lparr>mg_account := w_clone (ws 3)\<rparr>"
    using process_spawnD [OF sp(1)] process_spawnD [OF sp(2)] process_spawnD [OF sp(3)] process_spawnD [OF sp(4)]
    by (auto simp: proc_numbers keep_pid_def)
  have pid: "- (2 ^ 31) \<le> w_clone (ws i) \<and> w_clone (ws i) < 2 ^ 31" for i using w(3) [of i] w(4) [of i] by simp
  have po: "pids_ok m0" "pids_ok m1" "pids_ok m2" "pids_ok m3" unfolding kp m0_def using pid by (simp_all add: pids_ok_def)
  have kl: "length ks = 40" "length ka = 40" using length_smk [OF w(1)] by (simp_all add: ks_def ka_def)
  have fit: "files_fit t fs" if "boot_files (ws i) x t = Some fs" "\<not> is_web t" for i x t fs
    using that w(5) by (cases t) (auto simp: files_fit_def boot_files_def Let_def is_web_def split: Option.bind_splits)
  have st: "stream_ok (w_chacha (ws i))" for i using w(1,2) by simp
  have ic: "mg_key_ic m0 = key_ic" "mg_key_ic m1 = key_ic" "mg_key_ic m2 = key_ic" "mg_key_ic m3 = key_ic" by (simp_all add: kp m0_def)
  obtain f0 where e: "process_start ENQUIRY junk p0 = Some (handed (ws 0) m0 ENQUIRY junk (replicate 40 0) f0)"
    using handover [OF sp(1) proc_numbers(3) _ po(1) st fit [of 0 m0 ENQUIRY], where base = "replicate 40 0" and junk = junk] by (auto simp: base_ok_def is_api_def is_web_def)
  obtain f1 where s: "process_start STORAGE junk p1 = Some (handed (ws 1) m1 STORAGE junk ks f1)"
    using handover [OF sp(2) proc_numbers(4) _ po(2) st fit [of 1 m1 STORAGE], where base = "ks" and junk = junk] kl by (auto simp: base_ok_def is_api_def is_web_def)
  obtain f2 where d: "process_start DELIVER junk p2 = Some (handed (ws 2) m2 DELIVER junk (replicate 40 0) f2)"
    using handover [OF sp(3) proc_numbers(2) _ po(3) st fit [of 2 m2 DELIVER], where base = "replicate 40 0" and junk = junk] by (auto simp: base_ok_def is_api_def is_web_def)
  obtain f3 where a: "process_start ACCOUNT junk p3 = Some (handed (ws 3) m3 ACCOUNT junk ka f3)"
    using handover [OF sp(4) proc_numbers(1) _ po(4) st fit [of 3 m3 ACCOUNT], where base = "ka" and junk = junk] kl by (auto simp: base_ok_def is_api_def is_web_def)
  have ids: "mg_enquiry m = w_clone (ws 0)" "mg_storage m = w_clone (ws 1)" "mg_deliver m = w_clone (ws 2)" "mg_account m = w_clone (ws 3)"
    by (simp_all add: m'(2) kp)
  have v: "verifyStatus m" "mg_account m \<noteq> 0" using w(3) [of 0] w(3) [of 1] w(3) [of 2] w(3) [of 3] by (simp_all add: verifyStatus_def ids)
  have h: "st_enq (handed (ws 2) m2 DELIVER junk b f2) = mg_enquiry m" "st_sto (handed (ws 2) m2 DELIVER junk b f2) = mg_storage m"
    "st_sto (handed (ws 3) m3 ACCOUNT junk ka f3) = mg_storage m" "st_acc (handed (ws 1) m1 STORAGE junk ks f1) = 0"
    "st_base (handed (ws 1) m1 STORAGE junk ks f1) = ks" "st_base (handed (ws 3) m3 ACCOUNT junk ka f3) = ka" for b
    by (simp_all add: handed_def ids kp is_api_def)
  have k: "st_keys (handed (ws 0) m0 t j b f) = ic_bundle chacha key_ic t" "st_keys (handed (ws 1) m1 t j b f) = ic_bundle chacha key_ic t"
    "st_keys (handed (ws 2) m2 t j b f) = ic_bundle chacha key_ic t" "st_keys (handed (ws 3) m3 t j b f) = ic_bundle chacha key_ic t" for t j b f
    using w(2) ic by (simp_all add: handed_def)
  define E where "E = handed (ws 0) m0 ENQUIRY junk (replicate 40 0) f0"
  define S where "S = handed (ws 1) m1 STORAGE junk ks f1"
  define D where "D = handed (ws 2) m2 DELIVER junk (replicate 40 0) f2"
  define A where "A = handed (ws 3) m3 ACCOUNT junk ka f3"
  have kk: "\<forall>(t, x) \<in> {(ENQUIRY, E), (STORAGE, S), (DELIVER, D), (ACCOUNT, A)}. st_keys x = ic_bundle chacha key_ic t"
    using k by (simp add: E_def S_def D_def A_def)
  note f = e s d a h
  have "ps = [p0, p1, p2, p3] \<and> verifyStatus m \<and>
    process_start ENQUIRY junk p0 = Some E \<and> process_start STORAGE junk p1 = Some S \<and>
    process_start DELIVER junk p2 = Some D \<and> process_start ACCOUNT junk p3 = Some A \<and>
    mg_enquiry m = w_clone (ws 0) \<and> mg_storage m = w_clone (ws 1) \<and> mg_deliver m = w_clone (ws 2) \<and> mg_account m = w_clone (ws 3) \<and>
    st_enq D = mg_enquiry m \<and> st_sto D = mg_storage m \<and> st_sto A = mg_storage m \<and> st_acc S = 0 \<and> mg_account m \<noteq> 0 \<and>
    st_base S = ks \<and> st_base A = ka \<and>
    (\<forall>(t, x) \<in> {(ENQUIRY, E), (STORAGE, S), (DELIVER, D), (ACCOUNT, A)}. st_keys x = ic_bundle chacha key_ic t)"
    unfolding E_def S_def D_def A_def
    by (intro conjI kk [unfolded E_def S_def D_def A_def]) (rule sp(5) f ids v)+
  then show ?thesis unfolding ks_def ka_def by (intro exI)
qed

definition demo_boot :: "nat \<Rightarrow> mg_world" where
  "demo_boot i = demo_mg_world\<lparr>w_clone := 101 + int (i mod 100)\<rparr>"

lemma demo_boot_fields:
  "w_write (demo_boot i) n" "w_pipe (demo_boot i)" "w_clone (demo_boot i) = 101 + int (i mod 100)"
  "readDataFile (demo_boot i) k path = Some [7, 7]" "w_chacha (demo_boot i) = (\<lambda>k n b l. replicate l 1)"
  by (simp_all add: demo_boot_def demo_spawn_fields readDataFile_def aegis_open_def AEM_MAXLEN_DATAFILE_def intcom_sizes numeral_2_eq_2)

lemma demo_spawn:
  assumes "proc_of type = Some t" "\<not> type < 5" "\<not> is_web t" "\<not> is_api t" "t \<noteq> MTA"
  shows "\<exists>p. process_spawn (demo_boot i) m type key = Some (0, keep_pid m t type 0 (101 + int (i mod 100)), [], Some p)"
proof -
  have f: "pipeFile (demo_boot i) k path False q = Some (Some (q @ [size_bytes 2, [7, 7]]))" for k path q
    by (simp add: pipeFile_def demo_boot_fields pipe_data_def pipe_write_def PIPE_BUF_def numeral_2_eq_2)
  have "\<exists>p. spawn_pipe (demo_boot i) m t key = Some (Some p)"
    using assms(3-5) by (cases t; cases key)
      (simp_all add: spawn_pipe_def pipe_then_def send_pids_def sendIntComKeys_def send_files_def f is_api_def is_web_def pipe_write_def demo_boot_fields)
  then obtain p where "spawn_pipe (demo_boot i) m t key = Some (Some p)" by blast
  then show ?thesis using assms(1,2) by (simp add: process_spawn_def demo_boot_fields)
qed

theorem setup_servers_witness:
  "\<exists>m ps s p. setupManager demo_boot (\<lambda>k n b l. replicate l 1) (replicate 46 1) (replicate 46 2) = Some (0, m, ps) \<and>
     mg_account m = 104 \<and> verifyStatus m \<and> p \<in> set ps \<and> process_start STORAGE 9 p = Some s \<and> st_acc s = 0"
proof -
  have sp: "\<exists>p. process_spawn (demo_boot i) m type key = Some (0, keep_pid m t type 0 (101 + int (i mod 100)), [], Some p)"
    if "(type, t) \<in> {(5, ACCOUNT), (6, DELIVER), (7, ENQUIRY), (8, STORAGE)}" for i m type t key
    by (rule demo_spawn) (use that in \<open>auto simp: is_web_def is_api_def proc_numbers\<close>)
  have "\<exists>m ps. setupManager demo_boot (\<lambda>k n b l. replicate l 1) (replicate 46 1) (replicate 46 2) = Some (0, m, ps)"
  proof -
    have st: "\<exists>m' ps. spawn_all demo_boot i m ((type, key) # ts) = Some (0, m', ps)"
      if a: "(type, t) \<in> {(5, ACCOUNT), (6, DELIVER), (7, ENQUIRY), (8, STORAGE)}" and b: "\<And>m1. \<exists>m' ps. spawn_all demo_boot (Suc i) m1 ts = Some (0, m', ps)"
      for i m type t key ts
    proof -
      obtain p where "process_spawn (demo_boot i) m type key = Some (0, keep_pid m t type 0 (101 + int (i mod 100)), [], Some p)" using sp [OF a] by blast
      moreover obtain m' ps where "spawn_all demo_boot (Suc i) (keep_pid m t type 0 (101 + int (i mod 100))) ts = Some (0, m', ps)" using b by blast
      ultimately show ?thesis by simp
    qed
    have g: "\<exists>m' ps. spawn_all demo_boot 0 m [(7, None), (8, Some k1), (6, None), (5, Some k2)] = Some (0, m', ps)" for m k1 k2
      by (rule st [where t = ENQUIRY], simp, rule st [where t = STORAGE], simp, rule st [where t = DELIVER], simp, rule st [where t = ACCOUNT]) simp_all
    define c :: chacha where "c = (\<lambda>k n b l. replicate l 1)"
    define m0 where "m0 = \<lparr>mg_launchKey = aem_kdf_smk c 32 KEYID_SMK_LCH (replicate 46 1), mg_key_api = replicate 40 0, mg_key_mng = replicate 32 0,
            mg_key_ic = replicate 46 2, mg_account = 0, mg_deliver = 0, mg_enquiry = 0, mg_storage = 0,
            mg_pids = replicate 5 (replicate AEM_MAXPROCESSES 0)\<rparr>"
    obtain m' ps where "spawn_all demo_boot 0 m0 [(7, None), (8, Some (aem_kdf_smk c 40 KEYID_SMK_STO (replicate 46 1))), (6, None),
          (5, Some (aem_kdf_smk c 40 KEYID_SMK_ACC (replicate 46 1)))] = Some (0, m', ps)" using g by blast
    then have "\<exists>m ps. setupManager demo_boot c (replicate 46 1) (replicate 46 2) = Some (0, m, ps)"
      unfolding setupManager_def Let_def m0_def [symmetric] by (simp del: spawn_all.simps)
    then show ?thesis by (simp add: c_def)
  qed
  then obtain m ps where a: "setupManager demo_boot (\<lambda>k n b l. replicate l 1) (replicate 46 1) (replicate 46 2) = Some (0, m, ps)" by blast
  have "start_ok (\<lambda>k n b l. replicate l 1) demo_boot"
    unfolding start_ok_def stream_ok_def PIPE_BUF_def by (auto simp: demo_boot_fields)
  from setup_servers [OF a this, of 9] obtain s pe p_s pd pa where r: "ps = [pe, p_s, pd, pa]" "verifyStatus m" "process_start STORAGE 9 p_s = Some s"
    "mg_account m = w_clone (demo_boot 3)" "st_acc s = 0" by blast
  then show ?thesis using a
    by (intro exI [of _ m] exI [of _ ps] exI [of _ s] exI [of _ p_s]) (simp add: demo_boot_fields)
qed

section \<open>What does not work\<close>

text \<open>AEM-API takes 8 of the 12 bytes with the process identifiers: the third is not read, and the packet is gone.\<close>

lemma api_enquiry_junk: "is_api t \<Longrightarrow> process_start t junk p = Some x \<Longrightarrow> st_enq x = junk"
  by (cases t) (auto simp: is_api_def pipeRead_api_def not_started_def split: Option.bind_splits)

text \<open>Started by a command, without a base key, AEM-Account and AEM-Storage do not run: they take the keys of the calls for it.\<close>

lemma respawn_fails:
  assumes "process_spawn w m type None = Some (0, m', sigs, Some p)" "proc_of type = Some t" "t = ACCOUNT \<or> t = STORAGE" "stream_ok (w_chacha w)"
  shows "process_start t junk p = None"
proof -
  obtain fs qs where fs: "boot_files w m t = Some fs" "list_all2 file_packets fs qs" and p: "p = boot_head w m t None @ concat qs"
    using process_spawnD [OF assms(1)] assms(2) spawn_pipe_Some by fastforce
  have l: "length (bundle_bytes (ic_bundle (w_chacha w) (mg_key_ic m) t')) = 256" for t' by (rule length_bundle [OF ic_bundle_ok [OF assms(4)]])
  show ?thesis
  proof (cases "t = STORAGE")
    case True
    then show ?thesis using fs l by (auto simp: p boot_files_def boot_head_def is_api_def is_web_def setupIo_storage_def pipe_read_def)
  next
    case False
    then have t: "t = ACCOUNT" using assms(3) by simp
    then obtain a u q r where q: "fs = [a, u]" "qs = [q, r]" "file_packets a q"
      using fs by (auto simp: boot_files_def Let_def list_all2_Cons1 split: Option.bind_splits)
    then obtain c where "q = size_bytes (length a) # c" by (auto simp: file_packets_def)
    then show ?thesis using t q(2) l by (simp add: p boot_head_def is_api_def is_web_def setupIo_account_def pipe_read_def length_int32)
  qed
qed

text \<open>A certificate longer than a packet keeps AEM-API and AEM-MTA from starting.\<close>

lemma long_certificate:
  assumes "process_spawn w m type key = Some (0, m', sigs, Some p)" "proc_of type = Some t" "is_api t \<or> t = MTA" "base_ok m t key base"
    and "stream_ok (w_chacha w)" "boot_files w m t = Some [c, k]" "PIPE_BUF < length c" "length c < 2 ^ 64"
  shows "process_start t junk p = None"
proof -
  obtain qs where fs: "list_all2 file_packets [c, k] qs" and p: "p = boot_head w m t key @ concat qs"
    using process_spawnD [OF assms(1)] assms(2,6) spawn_pipe_Some by fastforce
  have l: "length (bundle_bytes (ic_bundle (w_chacha w) (mg_key_ic m) t')) = 256" for t' by (rule length_bundle [OF ic_bundle_ok [OF assms(5)]])
  have "read_file (concat qs) = None" using fs read_file_long [OF _ assms(7,8)] by (auto simp: list_all2_Cons1)
  then show ?thesis using assms(3,4) l
    by (cases t) (auto simp: p boot_head_def is_api_def is_web_def base_ok_def pipeRead_api_def pipeRead_mta_def pipe_read_def length_int32)
qed

text \<open>The commands to end a process reach the types 0 to 2 only, not AEM-API-Oni and AEM-MTA.\<close>

lemma kill_types: "2 < type \<Longrightarrow> process_kill w m type pid sig = []"
  by (simp add: process_kill_def)

section \<open>The page\<close>

lemma count_placeholder: "91 \<notin> set d \<Longrightarrow> memmem src placeholder = Some k \<Longrightarrow>
   count_list (take k src @ d @ drop (k + 32) src) 91 < count_list src 91"
proof -
  assume d: "91 \<notin> set d" and k: "memmem src placeholder = Some k"
  have l: "length placeholder = 32" "count_list placeholder 91 = 1" by code_simp+
  have "src = take k src @ placeholder @ drop (k + 32) src"
    using memmem_at [OF k] l(1) by (metis append_take_drop_id drop_drop add.commute)
  then have "count_list src 91 = count_list (take k src) 91 + 1 + count_list (drop (k + 32) src) 91"
    using l(2) by (metis count_list_append add.assoc)
  then show ?thesis using d by simp
qed

text \<open>With a domain that has no opening bracket every placeholder is replaced; the page does not grow.\<close>

lemma put_domain_ends:
  "91 \<notin> set d \<Longrightarrow> length d \<le> 32 \<Longrightarrow> \<exists>r. put_domain d src = Some r \<and> memmem r placeholder = None \<and> length r \<le> length src"
proof (induction "count_list src 91" arbitrary: src rule: less_induct)
  case less
  show ?case
  proof (cases "memmem src placeholder")
    case None
    then show ?thesis by (simp add: put_domain.simps)
  next
    case (Some k)
    have l: "length placeholder = 32" by code_simp
    have b: "k + 32 \<le> length src" using memmem_bound [OF Some] l by simp
    obtain r where "put_domain d (take k src @ d @ drop (k + 32) src) = Some r" "memmem r placeholder = None"
      "length r \<le> length (take k src @ d @ drop (k + 32) src)"
      using less(1) [OF count_placeholder [OF less(2) Some] less(2,3)] by blast
    then show ?thesis using Some b less(3) by (subst put_domain.simps) simp
  qed
qed

end
