(* ===== verification/Jail.thy ===== *)
theory Jail
  imports Process
begin

text \<open>
  What a process may do: the steps of AEM-Manager between creating a process and running its program (\<open>process_new\<close> in
  \<^verbatim>\<open>src/manager/manager.c\<close>), its file system (\<^verbatim>\<open>src/manager/mount.c\<close>), its capabilities and limits, and what AEM-Manager keeps
  for itself (\<^verbatim>\<open>src/manager/main.c\<close>).  System calls are values; whether each succeeds is the parameter \<open>ok\<close>, and the
  first that fails ends the list of what is done.
\<close>

fun until_fail :: "('a \<Rightarrow> bool) \<Rightarrow> 'a list \<Rightarrow> 'a list \<times> bool" where
  "until_fail ok [] = ([], True)"
| "until_fail ok (c # cs) = (if ok c then (case until_fail ok cs of (d, r) \<Rightarrow> (c # d, r)) else ([c], False))"

section \<open>The file system (mount.c)\<close>

datatype mount_op =
    Tmpfs nat nat
  | Unbindable string
  | Make_Dir string nat
  | Make_File string
  | Make_Special string bool nat nat
  | Set_Group string
  | Bind string string
  | Bind_Flags string bool
  | Read_Only
  | Pivot_Root
  | Open_Root
  | Chroot string

definition MOUNTDIR :: string where "MOUNTDIR = ''/var/lib/allears/mount''"
definition HOME :: string where "HOME = ''/var/lib/allears''"

text \<open>A directory or file of the system at a place in the new one; the last flag makes it read-only.\<close>

definition bindMount :: "string \<Rightarrow> string \<Rightarrow> bool \<Rightarrow> bool \<Rightarrow> mount_op list" where
  "bindMount source target isFile readOnly =
     [if isFile then Make_File target else Make_Dir target 1000, Bind source target, Unbindable target, Bind_Flags target readOnly]"

text \<open>\<^verbatim>\<open>AEM_MODE_RW\<close> or \<^verbatim>\<open>AEM_MODE_RO\<close>, and the numbers of the device.\<close>

definition makeSpecial :: "string \<Rightarrow> bool \<Rightarrow> nat \<Rightarrow> nat \<Rightarrow> mount_op list" where
  "makeSpecial name writable major minor =
     (let path = MOUNTDIR @ ''/dev/'' @ name in [Make_Special path writable major minor, Set_Group path])"

definition nr_inodes :: "proc \<Rightarrow> nat" where
  "nr_inodes t =
     (if t \<in> {MTA, WEB_CLR, WEB_ONI, DELIVER} then 8
      else if t \<in> {API_CLR, API_ONI, ENQUIRY} then 11
      else 10)"

definition fsmode :: "proc \<Rightarrow> nat" where
  "fsmode t = (if t \<in> {ACCOUNT, STORAGE} then 1770 else 1110)"

definition mount_data :: "proc \<Rightarrow> mount_op list" where
  "mount_data t =
     (case t of
        ACCOUNT \<Rightarrow> bindMount (HOME @ ''/Account.aem'') (MOUNTDIR @ ''/Account.aem'') True False
          @ bindMount (HOME @ ''/Settings.aem'') (MOUNTDIR @ ''/Settings.aem'') True False
      | ENQUIRY \<Rightarrow> bindMount ''/usr/share/ca-certificates/mozilla/'' (MOUNTDIR @ ''/ssl-certs'') False True
          @ bindMount (HOME @ ''/GeoLite2-Country.mmdb'') (MOUNTDIR @ ''/GeoLite2-Country.mmdb'') True True
          @ bindMount (HOME @ ''/GeoLite2-ASN.mmdb'') (MOUNTDIR @ ''/GeoLite2-ASN.mmdb'') True True
      | STORAGE \<Rightarrow> bindMount (HOME @ ''/Stindex.aem'') (MOUNTDIR @ ''/Stindex.aem'') True False
          @ bindMount (HOME @ ''/Msg'') (MOUNTDIR @ ''/Msg'') False False
      | API_CLR \<Rightarrow> [Make_Dir (MOUNTDIR @ ''/etc'') 584, Set_Group (MOUNTDIR @ ''/etc'')]
          @ bindMount ''/etc/localtime'' (MOUNTDIR @ ''/etc/localtime'') True True
          @ bindMount ''/usr/share/ca-certificates/mozilla/'' (MOUNTDIR @ ''/ssl-certs'') False True
      | API_ONI \<Rightarrow> [Make_Dir (MOUNTDIR @ ''/etc'') 584, Set_Group (MOUNTDIR @ ''/etc'')]
          @ bindMount ''/etc/localtime'' (MOUNTDIR @ ''/etc/localtime'') True True
          @ bindMount ''/usr/share/ca-certificates/mozilla/'' (MOUNTDIR @ ''/ssl-certs'') False True
      | _ \<Rightarrow> [])"

definition mount_ops :: "proc \<Rightarrow> mount_op list" where
  "mount_ops t =
     [Tmpfs (fsmode t) (nr_inodes t), Unbindable MOUNTDIR, Make_Dir (MOUNTDIR @ ''/dev'') 584, Set_Group (MOUNTDIR @ ''/dev'')]
     @ makeSpecial ''null'' True 1 3 @ makeSpecial ''zero'' False 1 5 @ makeSpecial ''full'' True 1 7
     @ makeSpecial ''random'' False 1 8 @ makeSpecial ''urandom'' False 1 9
     @ bindMount ''/dev/log'' (MOUNTDIR @ ''/dev/log'') True False
     @ mount_data t
     @ (if t \<noteq> ACCOUNT \<and> t \<noteq> STORAGE then [Read_Only] else [])
     @ [Pivot_Root, Open_Root, Chroot ''/dev'']"

text \<open>\<open>aemGroup\<close>: the group of the user \<^verbatim>\<open>allears\<close>, 0 when there is none.\<close>

definition createMount :: "(mount_op \<Rightarrow> bool) \<Rightarrow> nat \<Rightarrow> proc \<Rightarrow> mount_op list \<times> bool" where
  "createMount ok aemGroup t = (if aemGroup = 0 then ([], False) else until_fail ok (mount_ops t))"

section \<open>Capabilities\<close>

datatype cap = CHOWN | DAC_OVERRIDE | DAC_READ_SEARCH | FOWNER | IPC_LOCK | CAP_KILL | MKNOD | NET_BIND_SERVICE | NET_RAW | SETGID
  | SETPCAP | SETUID | SYS_ADMIN | SYS_CHROOT | SYS_NICE | SYS_RESOURCE

definition capMain :: "cap list" where
  "capMain = [CHOWN, DAC_OVERRIDE, DAC_READ_SEARCH, FOWNER, IPC_LOCK, CAP_KILL, MKNOD, NET_BIND_SERVICE, NET_RAW, SETGID, SETPCAP, SETUID,
     SYS_ADMIN, SYS_CHROOT, SYS_NICE, SYS_RESOURCE]"

definition capInherit :: "cap list" where
  "capInherit = [IPC_LOCK, NET_BIND_SERVICE, NET_RAW, SETPCAP, SYS_ADMIN, SYS_CHROOT]"

text \<open>What \<open>setCaps\<close> of \<^verbatim>\<open>manager.c\<close> keeps for a process.\<close>

definition proc_caps :: "proc \<Rightarrow> cap list" where
  "proc_caps t =
     [SYS_ADMIN, SYS_CHROOT] @
     (if t \<in> {ACCOUNT, DELIVER, ENQUIRY, STORAGE} then [IPC_LOCK]
      else if t \<in> {API_CLR, API_ONI, MTA} then [IPC_LOCK, NET_BIND_SERVICE, NET_RAW]
      else [NET_BIND_SERVICE, NET_RAW])"

text \<open>A capability can be made ambient when it is permitted and inheritable.\<close>

definition setCaps :: "cap list \<Rightarrow> cap list \<Rightarrow> proc \<Rightarrow> cap list option" where
  "setCaps permitted inheritable t =
     (if list_all (\<lambda>c. c \<in> set permitted \<and> c \<in> set inheritable) (proc_caps t) then Some (proc_caps t) else None)"

section \<open>Limits\<close>

datatype rlimit = R_FSIZE | R_OFILE | R_NICE | R_CORE | R_MSGQUEUE

definition typeNice :: "proc \<Rightarrow> int" where
  "typeNice t = (case t of WEB_CLR \<Rightarrow> 4 | WEB_ONI \<Rightarrow> 4 | API_CLR \<Rightarrow> - 4 | API_ONI \<Rightarrow> - 4 | MTA \<Rightarrow> - 8 | ACCOUNT \<Rightarrow> - 16 | DELIVER \<Rightarrow> - 3
     | ENQUIRY \<Rightarrow> - 10 | STORAGE \<Rightarrow> - 18)"

definition setLimits :: "proc \<Rightarrow> (rlimit \<times> int) list" where
  "setLimits t =
     (if t \<noteq> ACCOUNT \<and> t \<noteq> STORAGE then [(R_FSIZE, 0)] else []) @
     [(R_OFILE, if t = ENQUIRY then 15 else 4), (R_NICE, typeNice t * - 1 + 20)]"

text \<open>The limits of AEM-Manager itself: the calls made, and the result.  The second is made only when the first fails.\<close>

definition setLimits_main :: "(rlimit \<Rightarrow> bool) \<Rightarrow> rlimit list \<times> bool" where
  "setLimits_main ok = (if ok R_CORE then ([R_CORE], True) else ([R_CORE, R_MSGQUEUE], ok R_MSGQUEUE))"

section \<open>A new process\<close>

datatype new_step = Load_Exec proc | Private_Mounts | Set_Nice int | Move_Cgroup | Create_Mount proc | Set_Limits proc | Drop_Root | Set_Caps proc
  | Umask nat | Exec

definition new_steps :: "proc \<Rightarrow> new_step list" where
  "new_steps t =
     [Load_Exec t, Private_Mounts, Set_Nice (typeNice t), Move_Cgroup, Create_Mount t, Set_Limits t, Drop_Root, Set_Caps t,
      Umask (if t = STORAGE then 63 else 511)]"

definition process_new :: "(new_step \<Rightarrow> bool) \<Rightarrow> proc \<Rightarrow> new_step list" where
  "process_new ok t = fst (until_fail (\<lambda>s. case s of Umask _ \<Rightarrow> True | _ \<Rightarrow> ok s) (new_steps t @ [Exec]))"

section \<open>Properties\<close>

fun new_inodes :: "mount_op \<Rightarrow> nat" where
  "new_inodes (Tmpfs mode n) = 1"
| "new_inodes (Make_Dir p m) = 1"
| "new_inodes (Make_File p) = 1"
| "new_inodes (Make_Special p w a b) = 1"
| "new_inodes _ = 0"

text \<open>The files and directories of the system that are bound to the file system of a process and can be written there.
  The devices are made in it and are not counted; \<^verbatim>\<open>null\<close> and \<^verbatim>\<open>full\<close> can be written.\<close>

fun writable :: "mount_op list \<Rightarrow> string list" where
  "writable (Bind source target # Unbindable u # Bind_Flags p readOnly # ops) = (if readOnly then writable ops else source # writable ops)"
| "writable (c # ops) = writable ops"
| "writable [] = []"

definition own_data :: "proc \<Rightarrow> string list" where
  "own_data t = (if t = ACCOUNT then [HOME @ ''/Account.aem'', HOME @ ''/Settings.aem''] else if t = STORAGE then [HOME @ ''/Stindex.aem'', HOME @ ''/Msg''] else [])"

text \<open>The file system of a process has exactly as many inodes as are created in it; it is made read-only except for
  AEM-Account and AEM-Storage; and what is bound to it for writing is the log and, for these two, their own data.\<close>

lemma mounts_exact:
  "sum_list (map new_inodes (mount_ops t)) = nr_inodes t \<and> (Read_Only \<in> set (mount_ops t) \<longleftrightarrow> own_data t = []) \<and>
   writable (mount_ops t) = ''/dev/log'' # own_data t"
  by (cases t) (simp_all add: mount_ops_def mount_data_def bindMount_def makeSpecial_def nr_inodes_def own_data_def Let_def)

text \<open>A program is run only after every step that confines it has succeeded, in order: its own file system, the
  limits, a user that is not root and the capabilities of its type, all of which AEM-Manager can hand on.\<close>

theorem exec_confined:
  "(Exec \<in> set (process_new ok t) \<longleftrightarrow> list_all (\<lambda>s. case s of Umask _ \<Rightarrow> True | _ \<Rightarrow> ok s) (new_steps t)) \<and>
   (Exec \<in> set (process_new ok t) \<longleftrightarrow> process_new ok t = new_steps t @ [Exec]) \<and>
   setCaps capMain capInherit t = Some (proc_caps t) \<and> {SETUID, SETGID, SETPCAP, DAC_OVERRIDE, CAP_KILL} \<inter> set (proc_caps t) = {}"
proof -
  have n: "Exec \<notin> set (new_steps t)" by (simp add: new_steps_def)
  define ok' where "ok' = (\<lambda>s. case s of Umask _ \<Rightarrow> True | _ \<Rightarrow> ok s)"
  have e: "Exec \<in> set (fst (until_fail ok' (cs @ [Exec]))) \<longleftrightarrow> list_all ok' cs" if "Exec \<notin> set cs" for cs
    using that by (induction cs) (auto split: prod.splits)
  have d: "list_all ok' cs \<Longrightarrow> fst (until_fail ok' (cs @ [Exec])) = cs @ [Exec]" for cs
    by (induction cs) (auto split: prod.splits)
  have c: "setCaps capMain capInherit t = Some (proc_caps t)" "{SETUID, SETGID, SETPCAP, DAC_OVERRIDE, CAP_KILL} \<inter> set (proc_caps t) = {}"
    by (cases t; simp add: setCaps_def proc_caps_def capMain_def capInherit_def)+
  show ?thesis using e [OF n] d [of "new_steps t"] c unfolding process_new_def ok'_def by auto
qed

text \<open>AEM-Manager limits its message queues only when limiting its core files has failed.\<close>

lemma msgqueue_unlimited: "ok R_CORE \<Longrightarrow> setLimits_main ok = ([R_CORE], True)"
  by (simp add: setLimits_main_def)

end
