(* ===== verification/Spec2Isabelle.thy ===== *)
theory Spec2Isabelle
  imports Mem_Eq Html_Refs Account_Claims Account_File Storage_Claims Storage_File Smtp_Claims Enquiry_Claims IntCom_Claims Deliver_Claims Api_Claims Base64 Quoted Mail_Date Dkim_Claims Html_Claims Html_Words Mime_Parts Manager_Claims Jail
begin

text \<open>
  A model of All-Ears Mail, a mail server written in C (\<^verbatim>\<open>src/\<close>), with the theorems that make it correct and the places
  where it is not.

  \<^bold>\<open>The program.\<close>  The server is a set of processes, each in a file system of its own, that AEM-Manager starts and hands
  their keys and files through a pipe; they call each other over encrypted local sockets (\<^verbatim>\<open>IntCom/\<close>).  AEM-MTA receives
  mail by SMTP and passes it to AEM-Deliver as a stream; AEM-Deliver cleans, decodes and converts it and builds the
  message of each recipient; AEM-Account keeps the users, their addresses and keys and authenticates every request;
  AEM-Storage keeps the encrypted messages; AEM-API serves the users' clients and sends their mail to other servers;
  AEM-Enquiry asks the DNS and the address databases; AEM-Web serves one page.  \<^verbatim>\<open>Common/\<close> holds the code they share.

  \<^bold>\<open>Conventions.\<close>  Bytes and C integers are words of their width, so that they wrap around as in C; a buffer is the
  list of its bytes, and where the code can read or write outside of one, that is a result of its own (\<open>None\<close>) or the bytes
  behind the buffer are an argument.  Errors and early returns are values.  The state of a process is a record that its
  operations return updated.  Loops are recursive functions with a proof of termination by a measure.  Where a loop of the
  code need not end, the definition says so: \<open>partial_function (option)\<close> for the name of the certificate (\<open>x509_getCn\<close>), the
  place of the domain in the page (\<open>put_domain\<close>) and the search for a signed header (\<open>sig_find\<close>), and a result for hanging in
  the SMTP session and in the search for an envelope key, which has a number of draws as its argument.  Fuel is used
  only for writing and reading a file in pieces (\<open>pipe_chunks\<close>, \<open>read_chunks\<close>); it is the number of bytes, which is enough
  as every piece has at least one.

  \<^bold>\<open>Parameters.\<close>  Code that is not part of the repository is an argument: the ciphers, hashes, signatures, random bytes and
  Base64 of libsodium and wolfSSL, AES and RSA, the Brotli, ICU and MaxMind libraries, the TLS library, sockets and other
  system calls, \<^verbatim>\<open>malloc\<close>, the clock and \<^verbatim>\<open>mktime\<close>.  What a property relies on, such as that decryption undoes
  encryption, is a hypothesis of it, shown to hold for a concrete function in its witness.  Within one component
  the other processes are arguments too; the theories that compose components are named below.

  \<^bold>\<open>Theories.\<close>
  \<^item> \<open>Prelude\<close>: machine types, character classes, list lemmas, the collections of simplification rules, and the locale
    \<open>kept\<close> (an invariant that every step keeps holds after every history), interpreted for AEM-Account, AEM-Storage and
    the SMTP session.
  \<^item> Text and addresses (\<^verbatim>\<open>Common/\<close>): \<open>Mem_Eq\<close> (\<^verbatim>\<open>memeq.c\<close>), \<open>Addr32\<close>, \<open>Utf8\<close>, \<open>Text_Clean\<close> (\<^verbatim>\<open>Trim.c\<close>), \<open>Domain\<close> (checks of
    domains, email and IP addresses), \<open>Base64\<close>, \<open>Quoted\<close> (Quoted-Printable and conversion to UTF-8), \<open>Ref_Tables\<close> and
    \<open>Html_Refs\<close> (character references), \<open>Html_Cet\<close> (\<^verbatim>\<open>Html2Cet.c\<close>) with \<open>Html_Place\<close> and \<open>Html_Claims\<close> (without references, a
    conversion that ends writes only into the text) and \<open>Html_Words\<close> (what it makes of words and styles).  Each is compared
    with a reference: a reader of the encoding, a grammar, an independent definition.
  \<^item> Keys and envelopes: \<open>Kdf\<close> (\<^verbatim>\<open>AEM_KDF.c\<close>), \<open>Envelope\<close> (\<^verbatim>\<open>Message.c\<close>, \<^verbatim>\<open>Signature.c\<close>, \<^verbatim>\<open>Envelope.c\<close>), \<open>X509\<close>.
  \<^item> AEM-Account (\<^verbatim>\<open>account/\<close>): \<open>Account_Types\<close>, \<open>Account_IO\<close> (every operation on the table of users), \<open>Account_Server\<close> (the
    requests), \<open>Account_Inv\<close> and \<open>Account_Props\<close> (the invariant and what each operation changes; the address look-up as the
    locale \<open>address_book\<close>), \<open>Account_Claims\<close>, \<open>Account_File\<close> (saving and loading).
  \<^item> AEM-Storage (\<^verbatim>\<open>storage/\<close>): \<open>Storage_IO\<close> (index, message files, failing system calls), \<open>Storage_Spec\<close> and
    \<open>Storage_Refine\<close> (a mailbox is a list of identified envelopes; the operations refine those on it), \<open>Storage_Claims\<close>,
    \<open>Storage_File\<close>.
  \<^item> AEM-MTA (\<^verbatim>\<open>mta/\<close>): \<open>Smtp\<close> (the session as a step function over what is received), \<open>Smtp_Claims\<close>.
  \<^item> AEM-Enquiry (\<^verbatim>\<open>enquiry/\<close>): \<open>Dns\<close>, \<open>Dns_Claims\<close>, \<open>Enquiry\<close>; \<open>Ip_Info\<close> (\<^verbatim>\<open>deliver/ipInfo.c\<close>) and \<open>Enquiry_Claims\<close> join it with
    AEM-Deliver.
  \<^item> Calls (\<^verbatim>\<open>IntCom/\<close>): \<open>IntCom\<close> and \<open>IntCom_Claims\<close> (a call over the socket is the handler's result; from the SMTP session
    to AEM-Account and back), \<open>Mail_Stream\<close>.
  \<^item> AEM-Deliver (\<^verbatim>\<open>deliver/\<close>): \<open>Deliver\<close>, \<open>Line_Dots\<close>, \<open>Deliver_Claims\<close> (the message of a user and its way to the storage),
    \<open>Mail_Date\<close> (\<^verbatim>\<open>date.c\<close>), \<open>Mime\<close>, \<open>Mime_Claims\<close>, \<open>Mime_Parts\<close> (\<^verbatim>\<open>processing.c\<close>, \<^verbatim>\<open>deliver.c\<close>), \<open>Dkim\<close> and \<open>Dkim_Claims\<close>
    (\<^verbatim>\<open>dkim.c\<close>; in \<open>Mime\<close> the check of a signature is any function).
  \<^item> AEM-API (\<^verbatim>\<open>api/\<close>): \<open>Message_Id\<close>, \<open>Api_Mail\<close> and \<open>Api_Mail_Claims\<close> (outgoing mail), \<open>Api\<close> and \<open>Api_Claims\<close> (requests and
    responses).
  \<^item> AEM-Manager (\<^verbatim>\<open>manager/\<close>): \<open>Process\<close> (pipes, keys, and what every process reads at its start), \<open>Manager\<close> and
    \<open>Manager_Claims\<close> (start of processes, commands), \<open>Jail\<close> (file systems, capabilities, limits).

  \<^bold>\<open>What is shown.\<close>  Invariants over every history of requests or input (user table, index of messages, SMTP session,
  commands to AEM-Manager), with failing system calls where there are some; who may change what, and that no request is
  accepted twice; round trips (files, envelopes, responses, messages, encodings, pipes); refinements of abstract
  operations (mailboxes, calls, text clean-up, multipart messages, signed headers); bounds; and termination of a session.
  The same lemmas give the faults that are listed with the properties: overflows, hanging loops and lost data, each as a
  theorem on the model where it is stated as one (for example \<open>greeting_overflows\<close>, \<open>torn_write_blocks_delete\<close>,
  \<open>secure_recipient_without_tls\<close>, \<open>blank_header_hangs\<close>).

  \<^bold>\<open>Limits.\<close>  Properties of texts have the preconditions they state: HTML is read back for words and simple styles, dates
  for the usual form from 2022 on, DKIM headers for folded values, \<open>cleanText\<close> for ASCII; lengths are below \<open>2 ^ 31\<close> where the
  code has \<^verbatim>\<open>int\<close>.  That the conversion of HTML never reads outside of its buffer is not shown, and does not hold when a tag
  is left open by an earlier text (\<open>open_tag_outlives\<close>).

  \<^bold>\<open>Not modelled.\<close>  The tools of the administrator (\<^verbatim>\<open>utils/\<close>, \<^verbatim>\<open>Data/\<close>), which only call libraries; sockets, signals, TLS
  set-up and the loops that accept connections (\<^verbatim>\<open>AcceptClients.c\<close>, \<^verbatim>\<open>CreateSocket.c\<close>, \<^verbatim>\<open>Main_Include.c\<close>, \<^verbatim>\<open>Main_Setup.c\<close>,
  \<^verbatim>\<open>api/ClientTLS.c\<close>, parts of the files \<^verbatim>\<open>main.c\<close>), which are system calls and calls of the TLS library; the page AEM-Web
  serves; the erasure of memory; time and scheduling: requests to one process are handled one after the other, as the code does.
\<close>

end
